(* ===== verification/GoPrelude.thy ===== *)
theory GoPrelude
  imports Complex_Main "HOL-Library.Sublist"
begin

text \<open>
  What the development takes from the Go language and its standard library, shared by every
  component: error values with wrapping (\<^verbatim>\<open>errors\<close>, \<^verbatim>\<open>fmt.Errorf\<close>), byte strings and the
  functions of \<^verbatim>\<open>strings\<close> and \<^verbatim>\<open>strconv\<close> that the program calls, 64-bit signed integers, and
  generic lemmas on lists and maps. A Go string is a list of bytes, so \<^typ>\<open>string\<close> (a list of
  8-bit characters) is the string type and \<^const>\<open>length\<close> is Go's \<^verbatim>\<open>len\<close>. A Go \<^verbatim>\<open>int\<close> or
  \<^verbatim>\<open>int64\<close> is an \<^typ>\<open>int\<close>; where an operation can leave the 64-bit range the result is passed
  through \<open>wrap64\<close>. A Go \<^verbatim>\<open>float64\<close> is a rational, and each rounding operation is the
  function argument \<open>fl\<close> of the definitions that compute with floats.
\<close>

section \<open>Collections of facts\<close>

named_theorems go_defs \<open>definitions of small Go helpers that proofs unfold\<close>

section \<open>Error values\<close>

datatype num_fault = ErrSyntax | ErrRange

datatype go_error =
    ErrorNew string
  | Errorf string go_error string
  | ErrorJoin go_error go_error
  | Canceled
  | DeadlineExceeded
  | EOF
  | NotExist string
  | NumError string num_fault
  | ErrToolDenied
  | ErrUnknownTool
  | ErrCircuitOpen
  | ErrOpenState
  | ErrTooManyRequests
  | HTTPStatusError int string
  | AlreadyNotifiedError "go_error option"

text \<open>
  \<open>Errorf pre e post\<close> is \<^verbatim>\<open>fmt.Errorf\<close> with one \<^verbatim>\<open>%w\<close> between the texts \<open>pre\<close> and \<open>post\<close>;
  \<open>ErrorNew\<close> is an error with no wrapped error. The remaining constructors are the sentinel
  errors and error types the program tests for. \<open>NotExist\<close> is the \<^verbatim>\<open>*PathError\<close> of a missing
  file: it satisfies \<^verbatim>\<open>os.IsNotExist\<close>, which looks at the outermost error only.
\<close>

type_synonym 'a result = "go_error + 'a"

section \<open>Strings\<close>

definition HasPrefix :: "string \<Rightarrow> string \<Rightarrow> bool" where
  "HasPrefix s p \<longleftrightarrow> take (length p) s = p"

definition HasSuffix :: "string \<Rightarrow> string \<Rightarrow> bool" where
  "HasSuffix s p \<longleftrightarrow> length p \<le> length s \<and> drop (length s - length p) s = p"

definition CutPrefix :: "string \<Rightarrow> string \<Rightarrow> string \<times> bool" where
  "CutPrefix s p = (if HasPrefix s p then (drop (length p) s, True) else (s, False))"

definition TrimSuffix :: "string \<Rightarrow> string \<Rightarrow> string" where
  "TrimSuffix s p = (if HasSuffix s p then take (length s - length p) s else s)"

fun Contains :: "string \<Rightarrow> string \<Rightarrow> bool" where
  "Contains [] sub = (sub = [])"
| "Contains (c # cs) sub = (HasPrefix (c # cs) sub \<or> Contains cs sub)"

text \<open>
  The UTF-8 encodings of the runes for which \<^verbatim>\<open>unicode.IsSpace\<close> holds. A string starts (ends)
  with such a rune exactly when it starts (ends) with the encoding, because every encoding
  begins with a byte that is not a continuation byte.
\<close>

definition space_runes :: "string list" where
  "space_runes =
     [[CHR 0x09], [CHR 0x0A], [CHR 0x0B], [CHR 0x0C], [CHR 0x0D], [CHR 0x20],
      [CHR 0xC2, CHR 0x85], [CHR 0xC2, CHR 0xA0], [CHR 0xE1, CHR 0x9A, CHR 0x80],
      [CHR 0xE2, CHR 0x80, CHR 0x80], [CHR 0xE2, CHR 0x80, CHR 0x81],
      [CHR 0xE2, CHR 0x80, CHR 0x82], [CHR 0xE2, CHR 0x80, CHR 0x83],
      [CHR 0xE2, CHR 0x80, CHR 0x84], [CHR 0xE2, CHR 0x80, CHR 0x85],
      [CHR 0xE2, CHR 0x80, CHR 0x86], [CHR 0xE2, CHR 0x80, CHR 0x87],
      [CHR 0xE2, CHR 0x80, CHR 0x88], [CHR 0xE2, CHR 0x80, CHR 0x89],
      [CHR 0xE2, CHR 0x80, CHR 0x8A], [CHR 0xE2, CHR 0x80, CHR 0xA8],
      [CHR 0xE2, CHR 0x80, CHR 0xA9], [CHR 0xE2, CHR 0x80, CHR 0xAF],
      [CHR 0xE2, CHR 0x81, CHR 0x9F], [CHR 0xE3, CHR 0x80, CHR 0x80]]"

fun trim_with :: "string list \<Rightarrow> string \<Rightarrow> string" where
  "trim_with rs [] = []"
| "trim_with rs (c # cs) =
     (case find (\<lambda>r. r \<noteq> [] \<and> HasPrefix (c # cs) r) rs of
        None \<Rightarrow> c # cs
      | Some r \<Rightarrow> trim_with rs (drop (length r - 1) cs))"

definition TrimSpace :: "string \<Rightarrow> string" where
  "TrimSpace s = rev (trim_with (map rev space_runes) (rev (trim_with space_runes s)))"

text \<open>The number of fields of \<^verbatim>\<open>strings.Fields\<close>: a field starts at a byte that is not part of a
  space rune when the scan is not already inside a field.\<close>

fun count_fields :: "bool \<Rightarrow> string \<Rightarrow> nat" where
  "count_fields inField [] = 0"
| "count_fields inField (c # cs) =
     (case find (\<lambda>r. r \<noteq> [] \<and> HasPrefix (c # cs) r) space_runes of
        Some r \<Rightarrow> count_fields False (drop (length r - 1) cs)
      | None \<Rightarrow> (if inField then 0 else 1) + count_fields True cs)"

fun SplitC :: "char \<Rightarrow> string \<Rightarrow> string list" where
  "SplitC c [] = [[]]"
| "SplitC c (x # xs) =
     (if x = c then [] # SplitC c xs
      else (case SplitC c xs of [] \<Rightarrow> [[x]] | p # ps \<Rightarrow> (x # p) # ps))"

fun SplitN2 :: "char \<Rightarrow> string \<Rightarrow> string \<times> string option" where
  "SplitN2 c [] = ([], None)"
| "SplitN2 c (x # xs) =
     (if x = c then ([], Some xs)
      else (case SplitN2 c xs of (a, b) \<Rightarrow> (x # a, b)))"

fun Join :: "string list \<Rightarrow> string \<Rightarrow> string" where
  "Join [] sep = []"
| "Join [s] sep = s"
| "Join (s # t # ts) sep = s @ sep @ Join (t # ts) sep"

definition lower_char :: "char \<Rightarrow> char" where
  "lower_char c = (let n = (of_char c :: nat) in if 65 \<le> n \<and> n \<le> 90 then char_of (n + 32) else c)"

definition upper_char :: "char \<Rightarrow> char" where
  "upper_char c = (let n = (of_char c :: nat) in if 97 \<le> n \<and> n \<le> 122 then char_of (n - 32) else c)"

text \<open>
  \<^verbatim>\<open>strings.ToLower\<close> and \<^verbatim>\<open>strings.ToUpper\<close>, for comparison with ASCII text, which is the only
  use the modelled code makes of them. A non-ASCII rune maps to a non-ASCII rune, whose bytes
  match no ASCII text, with four exceptions that are written out: the Kelvin sign and the
  dotted capital I become the letters k and i, the long s and the dotless i become S and I.
\<close>

fun ToLower :: "string \<Rightarrow> string" where
  "ToLower [] = []"
| "ToLower (a # s) =
     (if HasPrefix (a # s) [CHR 0xE2, CHR 0x84, CHR 0xAA] then CHR ''k'' # ToLower (drop 2 s)
      else if HasPrefix (a # s) [CHR 0xC4, CHR 0xB0] then CHR ''i'' # ToLower (drop 1 s)
      else lower_char a # ToLower s)"

fun ToUpper :: "string \<Rightarrow> string" where
  "ToUpper [] = []"
| "ToUpper (a # s) =
     (if HasPrefix (a # s) [CHR 0xC5, CHR 0xBF] then CHR ''S'' # ToUpper (drop 1 s)
      else if HasPrefix (a # s) [CHR 0xC4, CHR 0xB1] then CHR ''I'' # ToUpper (drop 1 s)
      else upper_char a # ToUpper s)"

text \<open>The number of bytes of the first rune of a text; a byte that starts no valid encoding is a rune of its own.\<close>

definition byte_in :: "nat \<Rightarrow> nat \<Rightarrow> string \<Rightarrow> nat \<Rightarrow> bool" where
  "byte_in lo hi s i \<longleftrightarrow> i < length s \<and> lo \<le> of_char (s ! i) \<and> of_char (s ! i) \<le> hi"

definition rune_size :: "string \<Rightarrow> nat" where
  "rune_size s =
     (let cont = byte_in 0x80 0xBF s; first = (\<lambda>lo hi. byte_in lo hi s 0); second = (\<lambda>lo hi. byte_in lo hi s 1) in
      if first 0xC2 0xDF \<and> cont 1 then 2
      else if (first 0xE0 0xE0 \<and> second 0xA0 0xBF \<or> first 0xED 0xED \<and> second 0x80 0x9F \<or>
               (first 0xE1 0xEC \<or> first 0xEE 0xEF) \<and> cont 1) \<and> cont 2 then 3
      else if (first 0xF0 0xF0 \<and> second 0x90 0xBF \<or> first 0xF4 0xF4 \<and> second 0x80 0x8F \<or>
               first 0xF1 0xF3 \<and> cont 1) \<and> cont 2 \<and> cont 3 then 4
      else 1)"

declare trim_with.simps [simp del] count_fields.simps [simp del]
  ToLower.simps [simp del] ToUpper.simps [simp del]

section \<open>Numbers as text\<close>

definition digit_char :: "int \<Rightarrow> char" where
  "digit_char d = char_of (48 + d)"

definition is_digit :: "char \<Rightarrow> bool" where
  "is_digit c \<longleftrightarrow> 48 \<le> (of_char c :: int) \<and> (of_char c :: int) \<le> 57"

definition digit_val :: "char \<Rightarrow> int" where
  "digit_val c = of_char c - 48"

function dec :: "int \<Rightarrow> string" where
  "dec n = (if n < 10 then [digit_char n] else dec (n div 10) @ [digit_char (n mod 10)])"
  by pat_completeness auto
termination
  by (relation "measure nat") auto

declare dec.simps [simp del]

definition Itoa :: "int \<Rightarrow> string" where
  "Itoa i = (if i < 0 then CHR ''-'' # dec (- i) else dec i)"

text \<open>\<^verbatim>\<open>strconv.ParseUint\<close> in base 10 at 64 bits: a character that is not a digit is a syntax
  error, a value that leaves the range a range error, whichever comes first.\<close>

fun parse_uint :: "int \<Rightarrow> string \<Rightarrow> num_fault + int" where
  "parse_uint n [] = Inr n"
| "parse_uint n (c # cs) =
     (if \<not> is_digit c then Inl ErrSyntax
      else if 2 ^ 64 \<le> n * 10 + digit_val c then Inl ErrRange
      else parse_uint (n * 10 + digit_val c) cs)"

definition ParseInt :: "string \<Rightarrow> int result" where
  "ParseInt s0 =
     (if s0 = [] then Inl (NumError s0 ErrSyntax)
      else
        let neg = (hd s0 = CHR ''-'');
            s = (if hd s0 = CHR ''+'' \<or> hd s0 = CHR ''-'' then tl s0 else s0)
        in if s = [] then Inl (NumError s0 ErrSyntax)
           else (case parse_uint 0 s of
                   Inl f \<Rightarrow> Inl (NumError s0 f)
                 | Inr un \<Rightarrow>
                     if \<not> neg \<and> 2 ^ 63 \<le> un then Inl (NumError s0 ErrRange)
                     else if neg \<and> 2 ^ 63 < un then Inl (NumError s0 ErrRange)
                     else Inr (if neg then - un else un)))"

text \<open>\<^verbatim>\<open>%q\<close>: \<^verbatim>\<open>strconv.Quote\<close> on ASCII text; bytes above 127 are printed as they are.\<close>

definition hex_digit :: "nat \<Rightarrow> char" where
  "hex_digit n = ''0123456789abcdef'' ! (n mod 16)"

definition quote_char :: "char \<Rightarrow> string" where
  "quote_char c =
     (let n = (of_char c :: nat) in
      if c = CHR 0x22 \<or> c = CHR 0x5C then [CHR 0x5C, c]
      else if n = 7 then [CHR 0x5C, CHR ''a''] else if n = 8 then [CHR 0x5C, CHR ''b'']
      else if n = 12 then [CHR 0x5C, CHR ''f''] else if n = 10 then [CHR 0x5C, CHR ''n'']
      else if n = 13 then [CHR 0x5C, CHR ''r''] else if n = 9 then [CHR 0x5C, CHR ''t'']
      else if n = 11 then [CHR 0x5C, CHR ''v'']
      else if n < 32 \<or> n = 127 then [CHR 0x5C, CHR ''x'', hex_digit (n div 16), hex_digit n]
      else [c])"

definition Quote :: "string \<Rightarrow> string" where
  "Quote s = [CHR 0x22] @ concat (map quote_char s) @ [CHR 0x22]"

section \<open>Error text and error tests\<close>

fun error_msg :: "go_error \<Rightarrow> string" where
  "error_msg (ErrorNew s) = s"
| "error_msg (Errorf pre e post) = pre @ error_msg e @ post"
| "error_msg (ErrorJoin a b) = error_msg a @ [CHR 0x0A] @ error_msg b"
| "error_msg Canceled = ''context canceled''"
| "error_msg DeadlineExceeded = ''context deadline exceeded''"
| "error_msg EOF = ''EOF''"
| "error_msg (NotExist p) = ''open '' @ p @ '': no such file or directory''"
| "error_msg (NumError s f) =
     ''strconv.ParseInt: parsing '' @ Quote s @ '': '' @
     (case f of ErrSyntax \<Rightarrow> ''invalid syntax'' | ErrRange \<Rightarrow> ''value out of range'')"
| "error_msg ErrToolDenied = ''tool execution denied''"
| "error_msg ErrUnknownTool = ''unknown tool''"
| "error_msg ErrCircuitOpen = ''circuit breaker: open''"
| "error_msg ErrOpenState = ''circuit breaker is open''"
| "error_msg ErrTooManyRequests = ''too many requests''"
| "error_msg (HTTPStatusError code body) = ''HTTP '' @ Itoa code @ '': '' @ body"
| "error_msg (AlreadyNotifiedError None) = ''already notified''"
| "error_msg (AlreadyNotifiedError (Some e)) = error_msg e"

text \<open>\<^verbatim>\<open>errors.Is\<close>, for a sentinel \<open>t\<close>: the error or one it wraps is \<open>t\<close>.\<close>

fun error_is :: "go_error \<Rightarrow> go_error \<Rightarrow> bool" where
  "error_is (Errorf pre e post) t = (Errorf pre e post = t \<or> error_is e t)"
| "error_is (ErrorJoin a b) t = (ErrorJoin a b = t \<or> error_is a t \<or> error_is b t)"
| "error_is (AlreadyNotifiedError (Some e)) t = (AlreadyNotifiedError (Some e) = t \<or> error_is e t)"
| "error_is e t = (e = t)"

text \<open>\<^verbatim>\<open>errors.As\<close> for the two error types the program extracts.\<close>

fun as_http_status :: "go_error \<Rightarrow> (int \<times> string) option" where
  "as_http_status (HTTPStatusError code body) = Some (code, body)"
| "as_http_status (Errorf pre e post) = as_http_status e"
| "as_http_status (ErrorJoin a b) =
     (case as_http_status a of Some x \<Rightarrow> Some x | None \<Rightarrow> as_http_status b)"
| "as_http_status (AlreadyNotifiedError (Some e)) = as_http_status e"
| "as_http_status e = None"

fun as_already_notified :: "go_error \<Rightarrow> bool" where
  "as_already_notified (AlreadyNotifiedError e) = True"
| "as_already_notified (Errorf pre e post) = as_already_notified e"
| "as_already_notified (ErrorJoin a b) = (as_already_notified a \<or> as_already_notified b)"
| "as_already_notified e = False"

text \<open>\<^verbatim>\<open>os.IsNotExist\<close> does not unwrap \<^verbatim>\<open>fmt.Errorf\<close>; \<^verbatim>\<open>errors.Is(err, os.ErrNotExist)\<close> does.\<close>

fun IsNotExist :: "go_error \<Rightarrow> bool" where
  "IsNotExist (NotExist p) = True"
| "IsNotExist e = False"

fun error_is_not_exist :: "go_error \<Rightarrow> bool" where
  "error_is_not_exist (NotExist p) = True"
| "error_is_not_exist (Errorf pre e post) = error_is_not_exist e"
| "error_is_not_exist (ErrorJoin a b) = (error_is_not_exist a \<or> error_is_not_exist b)"
| "error_is_not_exist e = False"

abbreviation wrap_err :: "string \<Rightarrow> go_error \<Rightarrow> go_error" where
  "wrap_err pre e \<equiv> Errorf (pre @ '': '') e []"

section \<open>Lines\<close>

text \<open>\<^verbatim>\<open>bufio.Scanner\<close> over lines: the text after the last line break is a line when it is not empty, a
  carriage return before a line break or at the end is dropped, and a line that does not fit the buffer of
  64 KiB together with its line break stops the scan with an error.\<close>

definition max_line :: nat where "max_line = 65536"

definition drop_cr :: "string \<Rightarrow> string" where
  "drop_cr s = (if s \<noteq> [] \<and> last s = CHR 0x0D then butlast s else s)"

definition raw_lines :: "string \<Rightarrow> string list" where
  "raw_lines s = (let ls = SplitC (CHR 0x0A) s in if last ls = [] then butlast ls else ls)"

definition scan_lines :: "string \<Rightarrow> string list result" where
  "scan_lines s =
     (if list_ex (\<lambda>l. length l \<ge> max_line) (raw_lines s)
      then Inl (ErrorNew ''bufio.Scanner: token too long'') else Inr (map drop_cr (raw_lines s)))"

section \<open>64-bit integers\<close>

definition wrap64 :: "int \<Rightarrow> int" where
  "wrap64 x = (x + 2 ^ 63) mod 2 ^ 64 - 2 ^ 63"

definition int64 :: "int \<Rightarrow> bool" where
  "int64 x \<longleftrightarrow> - (2 ^ 63) \<le> x \<and> x < 2 ^ 63"

text \<open>Integer division of Go truncates towards zero, and so does a conversion from
  \<^verbatim>\<open>float64\<close> to an integer type.\<close>

definition trunc_rat :: "rat \<Rightarrow> int" where
  "trunc_rat r = (if r < 0 then - \<lfloor>- r\<rfloor> else \<lfloor>r\<rfloor>)"

definition go_div :: "int \<Rightarrow> int \<Rightarrow> int" where
  "go_div a b = sgn a * sgn b * (\<bar>a\<bar> div \<bar>b\<bar>)"

section \<open>Lemmas on strings\<close>

lemma HasPrefix_append [simp]: "HasPrefix (p @ s) p"
  by (simp add: HasPrefix_def)

lemma HasPrefix_iff: "HasPrefix s p \<longleftrightarrow> (\<exists>t. s = p @ t)"
  by (metis HasPrefix_append HasPrefix_def append_take_drop_id)

lemma HasPrefix_Nil [simp]: "HasPrefix s []"
  by (simp add: HasPrefix_def)

lemma Contains_iff: "Contains s sub \<longleftrightarrow> (\<exists>a b. s = a @ sub @ b)"
proof (induction s)
  case Nil
  then show ?case by auto
next
  case (Cons c cs)
  show ?case
  proof
    assume "Contains (c # cs) sub"
    then consider "HasPrefix (c # cs) sub" | "Contains cs sub" by auto
    then show "\<exists>a b. c # cs = a @ sub @ b"
    proof cases
      case 1
      then show ?thesis by (metis HasPrefix_iff append_Nil)
    next
      case 2
      then show ?thesis using Cons.IH by (metis append_Cons)
    qed
  next
    assume "\<exists>a b. c # cs = a @ sub @ b"
    then obtain a b where eq: "c # cs = a @ sub @ b" by blast
    show "Contains (c # cs) sub"
    proof (cases a)
      case Nil
      then have "HasPrefix (c # cs) sub" using eq by (simp add: HasPrefix_iff)
      then show ?thesis by simp
    next
      case (Cons x xs)
      then have "cs = xs @ sub @ b" using eq by simp
      then show ?thesis using Cons.IH by auto
    qed
  qed
qed

lemma Contains_append_mid [simp]: "Contains (a @ sub @ b) sub"
  by (auto simp: Contains_iff)

lemma Contains_Nil [simp]: "Contains s []"
  by (simp add: Contains_iff) (metis append_Nil)

text \<open>A text without the character \<open>c\<close> occurs on one side of it.\<close>

lemma Contains_split:
  assumes "c \<notin> set w"
  shows "Contains (x @ c # y) w \<longleftrightarrow> Contains x w \<or> Contains y w"
proof
  assume "Contains (x @ c # y) w"
  then obtain a b where e: "x @ c # y = a @ w @ b" by (auto simp: Contains_iff)
  from e consider (left) us where "x = a @ us" "us @ c # y = w @ b" | (right) us where "a = x @ us" "c # y = us @ w @ b"
    by (auto simp: append_eq_append_conv2)
  then show "Contains x w \<or> Contains y w"
  proof cases
    case left
    from left(2) consider vs where "us = w @ vs" | vs where "w = us @ vs" "c # y = vs @ b"
      by (auto simp: append_eq_append_conv2)
    then show ?thesis
    proof cases
      case 2
      then have "vs = []" using assms by (cases vs) auto
      then have "x = a @ w @ []" using 2 left(1) by simp
      then show ?thesis unfolding Contains_iff by blast
    qed (use left(1) in \<open>auto simp: Contains_iff\<close>)
  next
    case right
    then show ?thesis using assms by (cases us; cases w) (auto simp: Contains_iff)
  qed
next
  assume "Contains x w \<or> Contains y w"
  then show "Contains (x @ c # y) w"
  proof
    assume "Contains x w"
    then obtain a b where "x = a @ w @ b" by (auto simp: Contains_iff)
    then have "x @ c # y = a @ w @ (b @ c # y)" by simp
    then show ?thesis unfolding Contains_iff by blast
  next
    assume "Contains y w"
    then obtain a b where "y = a @ w @ b" by (auto simp: Contains_iff)
    then have "x @ c # y = (x @ c # a) @ w @ b" by simp
    then show ?thesis unfolding Contains_iff by blast
  qed
qed

lemma SplitC_not_Nil [simp]: "SplitC c s \<noteq> []"
  by (induction s) (auto split: list.splits)

lemma SplitC_no_sep: "c \<notin> set a \<Longrightarrow> SplitC c a = [a]"
  by (induction a) auto

lemma SplitC_append: "c \<notin> set a \<Longrightarrow> SplitC c (a @ c # b) = a # SplitC c b"
  by (induction a) auto

lemma first_field:
  assumes "a @ c # x = b @ c # (y :: string)" "c \<notin> set a" "c \<notin> set b"
  shows "a = b \<and> x = y"
proof -
  have "a # SplitC c x = b # SplitC c y" using SplitC_append [OF assms(2), of x] SplitC_append [OF assms(3), of y] assms(1) by simp
  then show ?thesis using assms(1) by simp
qed

lemma SplitC_append_sep: "SplitC c (a @ c # b) = SplitC c a @ SplitC c b"
  by (induction a) (auto split: list.splits)

lemma Join_SplitC: "Join (SplitC c s) [c] = s"
proof (induction s)
  case (Cons x xs)
  obtain p ps where p: "SplitC c xs = p # ps" by (cases "SplitC c xs") auto
  with Cons.IH show ?case by (cases ps) auto
qed simp

section \<open>Lemmas on decimal text\<close>

lemma digit_char_roundtrip:
  assumes "0 \<le> d" and "d < 10"
  shows "is_digit (digit_char d)" and "digit_val (digit_char d) = d"
  using assms by (simp_all add: is_digit_def digit_char_def digit_val_def)

lemma is_digit_not_sep: "is_digit c \<Longrightarrow> c \<noteq> CHR '':'' \<and> c \<noteq> CHR ''-'' \<and> c \<noteq> CHR ''+''"
  by (auto simp: is_digit_def)

lemma dec_digits: "0 \<le> n \<Longrightarrow> list_all is_digit (dec n)"
proof (induction n rule: dec.induct)
  case (1 n)
  then show ?case
    by (subst dec.simps) (auto simp: digit_char_roundtrip)
qed

lemma dec_not_Nil [simp]: "dec n \<noteq> []"
  by (subst dec.simps) simp

lemma parse_uint_append:
  "parse_uint n (a @ b) = (case parse_uint n a of Inl f \<Rightarrow> Inl f | Inr m \<Rightarrow> parse_uint m b)"
  by (induction a arbitrary: n) auto

lemma parse_uint_dec: "0 \<le> n \<Longrightarrow> n < 2 ^ 64 \<Longrightarrow> parse_uint 0 (dec n) = Inr n"
proof (induction n rule: dec.induct)
  case (1 n)
  show ?case
  proof (cases "n < 10")
    case True
    then show ?thesis using 1(2)
      by (subst dec.simps) (simp add: digit_char_roundtrip)
  next
    case False
    have "n div 10 < 2 ^ 64" using 1(2,3) by simp
    then have "parse_uint 0 (dec (n div 10)) = Inr (n div 10)"
      using 1(1) False 1(2) by simp
    moreover have "(n div 10) * 10 + n mod 10 = n" by simp
    ultimately show ?thesis
      using False 1(3)
      by (subst dec.simps) (simp add: parse_uint_append digit_char_roundtrip)
  qed
qed

definition digits_value :: "string \<Rightarrow> int" where
  "digits_value s = foldl (\<lambda>n c. n * 10 + digit_val c) 0 s"

lemma digits_value_dec: "0 \<le> n \<Longrightarrow> digits_value (dec n) = n"
proof (induction n rule: dec.induct)
  case (1 n)
  show ?case
  proof (cases "n < 10")
    case True
    then show ?thesis using "1.prems" digit_char_roundtrip [of n] by (subst dec.simps) (simp add: digits_value_def)
  next
    case False
    have "0 \<le> n div 10" using False by simp
    then have "digits_value (dec (n div 10)) = n div 10" using "1.IH" False by simp
    then show ?thesis using False digit_char_roundtrip [of "n mod 10"] by (subst dec.simps) (simp add: digits_value_def)
  qed
qed

lemma Itoa_nonneg_inj: "0 \<le> a \<Longrightarrow> 0 \<le> b \<Longrightarrow> Itoa a = Itoa b \<longleftrightarrow> a = b"
  by (metis Itoa_def digits_value_dec linorder_not_less)

lemma Itoa_not_Nil [simp]: "Itoa i \<noteq> []"
  by (simp add: Itoa_def)

lemma hd_dec_digit: "0 \<le> n \<Longrightarrow> is_digit (hd (dec n))"
  using dec_digits [of n] by (cases "dec n") auto

text \<open>Printing an \<^verbatim>\<open>int64\<close> and parsing it back gives the same number.\<close>

lemma ParseInt_Itoa:
  assumes "int64 i"
  shows "ParseInt (Itoa i) = Inr i"
proof (cases "i < 0")
  case True
  then have "parse_uint 0 (dec (- i)) = Inr (- i)"
    using assms by (simp add: parse_uint_dec int64_def)
  then show ?thesis using True assms by (simp add: ParseInt_def Itoa_def int64_def)
next
  case False
  then have "parse_uint 0 (dec i) = Inr i"
    using assms by (simp add: parse_uint_dec int64_def)
  moreover have "hd (dec i) \<noteq> CHR ''-''" "hd (dec i) \<noteq> CHR ''+''"
    using False hd_dec_digit [of i] is_digit_not_sep by auto
  ultimately show ?thesis using False assms by (simp add: ParseInt_def Itoa_def int64_def)
qed

lemma colon_notin_Itoa [simp]: "CHR '':'' \<notin> set (Itoa i)"
proof -
  have "CHR '':'' \<notin> set (dec n)" if "0 \<le> n" for n
    using dec_digits [OF that] is_digit_not_sep by (auto simp: list_all_iff)
  then show ?thesis by (simp add: Itoa_def)
qed

section \<open>Lemmas on 64-bit integers\<close>

lemma wrap64_id: "int64 x \<Longrightarrow> wrap64 x = x"
  by (simp add: wrap64_def int64_def)

lemma int64_wrap64 [simp]: "int64 (wrap64 x)"
proof -
  have "0 \<le> (x + 2 ^ 63) mod 2 ^ 64" "(x + 2 ^ 63) mod 2 ^ 64 < 2 ^ 64" by simp_all
  then show ?thesis by (simp add: wrap64_def int64_def)
qed

lemma trunc_rat_of_int [simp]: "trunc_rat (of_int i) = i"
  by (simp add: trunc_rat_def)

section \<open>Lemmas on lists and errors\<close>

lemma error_is_wrap [simp]: "error_is (Errorf pre e post) t = (Errorf pre e post = t \<or> error_is e t)"
  by simp

lemma nth_list_update_in: "i < length xs \<Longrightarrow> xs[a := v] ! i = (if a = i then v else xs ! i)"
  by (cases "a = i") auto

lemma nth_list_update_True: "i < length xs \<Longrightarrow> xs ! i \<Longrightarrow> xs[j := True] ! i"
  by (cases "i = j") auto

end
