(* ===== verification/Messages.thy ===== *)
theory Messages
  imports GoPrelude
begin

text \<open>
  The conversation data model of \<^verbatim>\<open>internal/context/schema.go\<close>: content items, message content,
  tool calls and \<^verbatim>\<open>StrategicMessage\<close>, with their JSON form. A JSON document is its syntax tree:
  the text layer of \<^verbatim>\<open>encoding/json\<close> is not modelled, what its struct tags and the custom
  marshalers of the package decide is, and so is what the encoder does to a string that is not valid
  UTF-8: each byte that starts no character is replaced by U+FFFD. The theory shows that a well-formed
  message survives the round trip through JSON, which is what a saved and reloaded checkpoint goes
  through, up to that replacement.
\<close>

section \<open>JSON values\<close>

datatype json =
    JNull
  | JBool bool
  | JNum rat
  | JStr string
  | JBytes string
  | JArr "json list"
  | JObj "(string \<times> json) list"

text \<open>\<open>JBytes\<close> is the base64 string \<^verbatim>\<open>encoding/json\<close> writes for a \<^verbatim>\<open>[]byte\<close>.\<close>

type_synonym json_object = "(string \<times> json) list"

definition bind_result :: "'a result \<Rightarrow> ('a \<Rightarrow> 'b result) \<Rightarrow> 'b result" where
  "bind_result r f = (case r of Inl e \<Rightarrow> Inl e | Inr a \<Rightarrow> f a)"

fun map_result :: "('a \<Rightarrow> 'b result) \<Rightarrow> 'a list \<Rightarrow> 'b list result" where
  "map_result f [] = Inr []"
| "map_result f (x # xs) = bind_result (f x) (\<lambda>y. bind_result (map_result f xs) (\<lambda>ys. Inr (y # ys)))"

text \<open>Object keys are matched to struct fields without regard to case, and the last of several
  matching keys wins.\<close>

fun fold_key :: "string \<Rightarrow> string" where
  "fold_key [] = []"
| "fold_key (a # s) =
     (if HasPrefix (a # s) [CHR 0xC5, CHR 0xBF] then CHR ''s'' # fold_key (drop 1 s)
      else if HasPrefix (a # s) [CHR 0xE2, CHR 0x84, CHR 0xAA] then CHR ''k'' # fold_key (drop 2 s)
      else lower_char a # fold_key s)"

declare fold_key.simps [simp del]

definition jfield :: "json_object \<Rightarrow> string \<Rightarrow> json option" where
  "jfield obj name = map_of (rev (map (\<lambda>(k, v). (fold_key k, v)) obj)) (fold_key name)"

definition unmarshal_string :: "json option \<Rightarrow> string result" where
  "unmarshal_string j =
     (case j of
        None \<Rightarrow> Inr []
      | Some JNull \<Rightarrow> Inr []
      | Some (JStr s) \<Rightarrow> Inr s
      | Some _ \<Rightarrow> Inl (ErrorNew ''json: cannot unmarshal into Go value of type string''))"

definition unmarshal_string_ptr :: "json option \<Rightarrow> string option result" where
  "unmarshal_string_ptr j =
     (case j of
        None \<Rightarrow> Inr None
      | Some JNull \<Rightarrow> Inr None
      | Some (JStr s) \<Rightarrow> Inr (Some s)
      | Some _ \<Rightarrow> Inl (ErrorNew ''json: cannot unmarshal into Go value of type string''))"

definition unmarshal_object :: "json \<Rightarrow> json_object result" where
  "unmarshal_object j =
     (case j of
        JNull \<Rightarrow> Inr []
      | JObj fs \<Rightarrow> Inr fs
      | _ \<Rightarrow> Inl (ErrorNew ''json: cannot unmarshal into Go struct''))"

section \<open>Strings as the encoder writes them\<close>

text \<open>\<^verbatim>\<open>encoding/json\<close> writes a Go string character by character and \<open>\\ufffd\<close> for a byte that starts no
  valid UTF-8 sequence. Field names and the discriminators are ASCII. A map is an association list;
  its keys go through the same replacement.\<close>

function coerce_utf8 :: "string \<Rightarrow> string" where
  "coerce_utf8 [] = []"
| "coerce_utf8 (a # s) =
     (let n = rune_size (a # s) in
      if n > 1 then take n (a # s) @ coerce_utf8 (drop n (a # s))
      else (if of_char a < (0x80 :: nat) then [a] else [CHR 0xEF, CHR 0xBF, CHR 0xBD]) @ coerce_utf8 s)"
  by pat_completeness auto
termination
  by (relation "measure length") (auto simp: rune_size_def Let_def)

declare coerce_utf8.simps [simp del]

definition utf8_valid :: "string \<Rightarrow> bool" where
  "utf8_valid s \<longleftrightarrow> coerce_utf8 s = s"

fun coerce_json :: "json \<Rightarrow> json" where
  "coerce_json (JStr s) = JStr (coerce_utf8 s)"
| "coerce_json (JArr js) = JArr (map coerce_json js)"
| "coerce_json (JObj fs) = JObj (map (\<lambda>(k, v). (coerce_utf8 k, coerce_json v)) fs)"
| "coerce_json j = j"

definition coerce_object :: "json_object \<Rightarrow> json_object" where
  "coerce_object fs = map (\<lambda>(k, v). (coerce_utf8 k, coerce_json v)) fs"

definition marshal_string :: "string \<Rightarrow> json" where
  "marshal_string s = JStr (coerce_utf8 s)"

section \<open>Content items\<close>

record TextContent =
  TextContent_Type :: string
  TextContent_Text :: string

record ThinkingContent =
  ThinkingContent_Type :: string
  ThinkingContent_Text :: string

record ImageContent =
  ImageContent_Type :: string
  ImageContent_URL :: string

record ToolCallContent =
  ToolCallContent_Type :: string
  ToolCallContent_ID :: string
  ToolCallContent_FunctionName :: string
  ToolCallContent_FunctionArguments :: string

record ContentItem =
  CI_Text :: "TextContent option"
  CI_Thinking :: "ThinkingContent option"
  CI_Image :: "ImageContent option"
  CI_Tool :: "ToolCallContent option"

definition empty_item :: ContentItem where
  "empty_item = \<lparr>CI_Text = None, CI_Thinking = None, CI_Image = None, CI_Tool = None\<rparr>"

definition unmarshalByType :: "ContentItem \<Rightarrow> json_object \<Rightarrow> string \<Rightarrow> ContentItem result" where
  "unmarshalByType c fs typeName =
     (if typeName = ''text'' then
        bind_result (unmarshal_string (jfield fs ''type'')) (\<lambda>ty.
        bind_result (unmarshal_string (jfield fs ''text'')) (\<lambda>tx.
        Inr (c\<lparr>CI_Text := Some \<lparr>TextContent_Type = ty, TextContent_Text = tx\<rparr>\<rparr>)))
      else if typeName = ''thinking'' then
        bind_result (unmarshal_string (jfield fs ''type'')) (\<lambda>ty.
        bind_result (unmarshal_string (jfield fs ''text'')) (\<lambda>tx.
        Inr (c\<lparr>CI_Thinking := Some \<lparr>ThinkingContent_Type = ty, ThinkingContent_Text = tx\<rparr>\<rparr>)))
      else if typeName = ''image_url'' then
        bind_result (unmarshal_string (jfield fs ''type'')) (\<lambda>ty.
        bind_result (case jfield fs ''image_url'' of None \<Rightarrow> Inr [] | Some j \<Rightarrow> unmarshal_object j) (\<lambda>im.
        bind_result (unmarshal_string (jfield im ''url'')) (\<lambda>u.
        Inr (c\<lparr>CI_Image := Some \<lparr>ImageContent_Type = ty, ImageContent_URL = u\<rparr>\<rparr>))))
      else if typeName = ''tool_call'' then
        bind_result (unmarshal_string (jfield fs ''type'')) (\<lambda>ty.
        bind_result (unmarshal_string (jfield fs ''id'')) (\<lambda>i.
        bind_result (case jfield fs ''function'' of None \<Rightarrow> Inr [] | Some j \<Rightarrow> unmarshal_object j) (\<lambda>fn.
        bind_result (unmarshal_string (jfield fn ''name'')) (\<lambda>n.
        bind_result (unmarshal_string (jfield fn ''arguments'')) (\<lambda>a.
        Inr (c\<lparr>CI_Tool := Some \<lparr>ToolCallContent_Type = ty, ToolCallContent_ID = i,
                ToolCallContent_FunctionName = n, ToolCallContent_FunctionArguments = a\<rparr>\<rparr>))))))
      else Inl (ErrorNew (''ContentItem: unknown type '' @ Quote typeName)))"

definition ContentItem_UnmarshalJSON :: "json \<Rightarrow> ContentItem result" where
  "ContentItem_UnmarshalJSON data =
     bind_result (unmarshal_object data) (\<lambda>fs.
     bind_result (unmarshal_string (jfield fs ''type'')) (\<lambda>ty.
     unmarshalByType empty_item fs ty))"

definition ContentItem_MarshalJSON :: "ContentItem \<Rightarrow> json result" where
  "ContentItem_MarshalJSON c =
     (case CI_Text c of
        Some t \<Rightarrow> Inr (JObj [(''type'', marshal_string (TextContent_Type t)), (''text'', marshal_string (TextContent_Text t))])
      | None \<Rightarrow>
     (case CI_Thinking c of
        Some t \<Rightarrow> Inr (JObj [(''type'', marshal_string (ThinkingContent_Type t)), (''text'', marshal_string (ThinkingContent_Text t))])
      | None \<Rightarrow>
     (case CI_Image c of
        Some t \<Rightarrow> Inr (JObj [(''type'', marshal_string (ImageContent_Type t)),
                            (''image_url'', JObj [(''url'', marshal_string (ImageContent_URL t))])])
      | None \<Rightarrow>
     (case CI_Tool c of
        Some t \<Rightarrow> Inr (JObj [(''type'', marshal_string (ToolCallContent_Type t)), (''id'', marshal_string (ToolCallContent_ID t)),
                            (''function'', JObj [(''name'', marshal_string (ToolCallContent_FunctionName t)),
                                             (''arguments'', marshal_string (ToolCallContent_FunctionArguments t))])])
      | None \<Rightarrow> Inl (ErrorNew ''ContentItem: all fields are nil'')))))"

section \<open>Message content\<close>

record MessageContent =
  Str :: "string option"
  Items :: "ContentItem list option"

definition MessageContent_UnmarshalJSON :: "json \<Rightarrow> MessageContent result" where
  "MessageContent_UnmarshalJSON data =
     (case unmarshal_string (Some data) of
        Inr s \<Rightarrow> Inr \<lparr>Str = Some s, Items = None\<rparr>
      | Inl _ \<Rightarrow>
          (case data of
             JArr js \<Rightarrow>
               (case map_result ContentItem_UnmarshalJSON js of
                  Inl e \<Rightarrow> Inl (wrap_err ''MessageContent: expected string or array'' e)
                | Inr items \<Rightarrow> Inr \<lparr>Str = None, Items = Some items\<rparr>)
           | _ \<Rightarrow> Inl (wrap_err ''MessageContent: expected string or array''
                         (ErrorNew ''json: cannot unmarshal into Go slice''))))"

definition MessageContent_MarshalJSON :: "MessageContent \<Rightarrow> json result" where
  "MessageContent_MarshalJSON m =
     (case Str m of
        Some s \<Rightarrow> Inr (marshal_string s)
      | None \<Rightarrow>
          (case Items m of
             None \<Rightarrow> Inr JNull
           | Some items \<Rightarrow>
               (case map_result ContentItem_MarshalJSON items of
                  Inl e \<Rightarrow> Inl (wrap_err ''marshal message content items'' e)
                | Inr js \<Rightarrow> Inr (JArr js))))"

definition content_string :: "MessageContent option \<Rightarrow> string" where
  "content_string m =
     (case m of
        None \<Rightarrow> []
      | Some c \<Rightarrow>
          (case Str c of
             Some s \<Rightarrow> s
           | None \<Rightarrow> concat (map (\<lambda>item. case CI_Text item of Some t \<Rightarrow> TextContent_Text t | None \<Rightarrow> [])
                              (case Items c of None \<Rightarrow> [] | Some xs \<Rightarrow> xs))))"

section \<open>Messages\<close>

type_synonym MessageRole = string

definition RoleSystem :: MessageRole where "RoleSystem = ''system''"
definition RoleUser :: MessageRole where "RoleUser = ''user''"
definition RoleAssistant :: MessageRole where "RoleAssistant = ''assistant''"
definition RoleModel :: MessageRole where "RoleModel = ''model''"
definition RoleTool :: MessageRole where "RoleTool = ''tool''"

lemmas role_defs = RoleSystem_def RoleUser_def RoleAssistant_def RoleModel_def RoleTool_def

record ToolCall =
  tc_ID :: string
  tc_Name :: string
  tc_Args :: "json_object option"
  tc_ThoughtSignature :: string

record StrategicMessage =
  Role :: MessageRole
  Content :: "MessageContent option"
  msg_Name :: "string option"
  ToolCallID :: "string option"
  ToolCalls :: "ToolCall list"
  ReasoningContent :: "string option"
  ThinkingBlocks :: "json_object list"
  CreatedAt :: string

definition empty_message :: StrategicMessage where
  "empty_message = \<lparr>Role = [], Content = None, msg_Name = None, ToolCallID = None, ToolCalls = [],
     ReasoningContent = None, ThinkingBlocks = [], CreatedAt = []\<rparr>"

definition text_message :: "MessageRole \<Rightarrow> string \<Rightarrow> string \<Rightarrow> StrategicMessage" where
  "text_message r s created =
     empty_message\<lparr>Role := r, Content := Some \<lparr>Str = Some s, Items = None\<rparr>, CreatedAt := created\<rparr>"

definition ToolCall_marshal :: "ToolCall \<Rightarrow> json" where
  "ToolCall_marshal tc =
     JObj ((if tc_ID tc = [] then [] else [(''id'', marshal_string (tc_ID tc))]) @
           [(''name'', marshal_string (tc_Name tc)),
            (''args'', case tc_Args tc of None \<Rightarrow> JNull | Some a \<Rightarrow> JObj (coerce_object a))] @
           (if tc_ThoughtSignature tc = [] then []
            else [(''thought_signature'', JBytes (tc_ThoughtSignature tc))]))"

definition unmarshal_map :: "json option \<Rightarrow> json_object option result" where
  "unmarshal_map j =
     (case j of
        None \<Rightarrow> Inr None
      | Some JNull \<Rightarrow> Inr None
      | Some (JObj a) \<Rightarrow> Inr (Some a)
      | Some _ \<Rightarrow> Inl (ErrorNew ''json: cannot unmarshal into Go map''))"

definition unmarshal_bytes :: "json option \<Rightarrow> string result" where
  "unmarshal_bytes j =
     (case j of
        None \<Rightarrow> Inr []
      | Some JNull \<Rightarrow> Inr []
      | Some (JBytes b) \<Rightarrow> Inr b
      | Some _ \<Rightarrow> Inl (ErrorNew ''json: cannot unmarshal into Go []byte''))"

definition ToolCall_unmarshal :: "json \<Rightarrow> ToolCall result" where
  "ToolCall_unmarshal j =
     bind_result (unmarshal_object j) (\<lambda>fs.
     bind_result (unmarshal_string (jfield fs ''id'')) (\<lambda>i.
     bind_result (unmarshal_string (jfield fs ''name'')) (\<lambda>n.
     bind_result (unmarshal_map (jfield fs ''args'')) (\<lambda>a.
     bind_result (unmarshal_bytes (jfield fs ''thought_signature'')) (\<lambda>t.
     Inr \<lparr>tc_ID = i, tc_Name = n, tc_Args = a, tc_ThoughtSignature = t\<rparr>)))))"

definition opt_field :: "string \<Rightarrow> string option \<Rightarrow> json_object" where
  "opt_field k v = (case v of None \<Rightarrow> [] | Some s \<Rightarrow> [(k, marshal_string s)])"

definition message_marshal :: "StrategicMessage \<Rightarrow> json result" where
  "message_marshal m =
     bind_result (case Content m of
                    None \<Rightarrow> Inr []
                  | Some c \<Rightarrow> bind_result (MessageContent_MarshalJSON c) (\<lambda>j. Inr [(''content'', j)]))
       (\<lambda>content.
     Inr (JObj ([(''role'', marshal_string (Role m))] @ content @
                opt_field ''name'' (msg_Name m) @
                opt_field ''tool_call_id'' (ToolCallID m) @
                (if ToolCalls m = [] then []
                 else [(''tool_calls'', JArr (map ToolCall_marshal (ToolCalls m)))]) @
                opt_field ''reasoning_content'' (ReasoningContent m) @
                (if ThinkingBlocks m = [] then []
                 else [(''thinking_blocks'', JArr (map (\<lambda>b. JObj (coerce_object b)) (ThinkingBlocks m)))]) @
                (if CreatedAt m = [] then [] else [(''created_at'', marshal_string (CreatedAt m))]))))"

definition unmarshal_list :: "(json \<Rightarrow> 'a result) \<Rightarrow> json option \<Rightarrow> 'a list result" where
  "unmarshal_list f j =
     (case j of
        None \<Rightarrow> Inr []
      | Some JNull \<Rightarrow> Inr []
      | Some (JArr js) \<Rightarrow> map_result f js
      | Some _ \<Rightarrow> Inl (ErrorNew ''json: cannot unmarshal into Go slice''))"

definition message_unmarshal :: "json \<Rightarrow> StrategicMessage result" where
  "message_unmarshal j =
     bind_result (unmarshal_object j) (\<lambda>fs.
     bind_result (unmarshal_string (jfield fs ''role'')) (\<lambda>r.
     bind_result (case jfield fs ''content'' of
                    None \<Rightarrow> Inr None
                  | Some JNull \<Rightarrow> Inr None
                  | Some c \<Rightarrow> bind_result (MessageContent_UnmarshalJSON c) (\<lambda>m. Inr (Some m))) (\<lambda>c.
     bind_result (unmarshal_string_ptr (jfield fs ''name'')) (\<lambda>n.
     bind_result (unmarshal_string_ptr (jfield fs ''tool_call_id'')) (\<lambda>t.
     bind_result (unmarshal_list ToolCall_unmarshal (jfield fs ''tool_calls'')) (\<lambda>tcs.
     bind_result (unmarshal_string_ptr (jfield fs ''reasoning_content'')) (\<lambda>rc.
     bind_result (unmarshal_list unmarshal_object (jfield fs ''thinking_blocks'')) (\<lambda>tb.
     bind_result (unmarshal_string (jfield fs ''created_at'')) (\<lambda>ca.
     Inr \<lparr>Role = r, Content = c, msg_Name = n, ToolCallID = t, ToolCalls = tcs,
          ReasoningContent = rc, ThinkingBlocks = tb, CreatedAt = ca\<rparr>)))))))))"

definition marshal_messages :: "StrategicMessage list \<Rightarrow> json result" where
  "marshal_messages ms = bind_result (map_result message_marshal ms) (\<lambda>js. Inr (JArr js))"

definition unmarshal_messages :: "json \<Rightarrow> StrategicMessage list result" where
  "unmarshal_messages j = unmarshal_list message_unmarshal (Some j)"

section \<open>Well-formed content\<close>

text \<open>Exactly one of the four fields is set and its type tag is the discriminator, as the
  comments on the struct fields require.\<close>

definition wf_item :: "ContentItem \<Rightarrow> bool" where
  "wf_item c \<longleftrightarrow>
     (case (CI_Text c, CI_Thinking c, CI_Image c, CI_Tool c) of
        (Some t, None, None, None) \<Rightarrow> TextContent_Type t = ''text''
      | (None, Some t, None, None) \<Rightarrow> ThinkingContent_Type t = ''thinking''
      | (None, None, Some t, None) \<Rightarrow> ImageContent_Type t = ''image_url''
      | (None, None, None, Some t) \<Rightarrow> ToolCallContent_Type t = ''tool_call''
      | _ \<Rightarrow> False)"

definition wf_content :: "MessageContent \<Rightarrow> bool" where
  "wf_content m \<longleftrightarrow>
     (case (Str m, Items m) of
        (Some s, None) \<Rightarrow> True
      | (None, Some xs) \<Rightarrow> list_all wf_item xs
      | _ \<Rightarrow> False)"

definition wf_message :: "StrategicMessage \<Rightarrow> bool" where
  "wf_message m \<longleftrightarrow> (case Content m of None \<Rightarrow> True | Some c \<Rightarrow> wf_content c)"

section \<open>What the encoder keeps of a message\<close>

text \<open>The message with every string as the encoder writes it, and the messages it leaves alone.\<close>

definition coerce_item :: "ContentItem \<Rightarrow> ContentItem" where
  "coerce_item c =
     \<lparr>CI_Text = map_option (\<lambda>t. \<lparr>TextContent_Type = coerce_utf8 (TextContent_Type t),
        TextContent_Text = coerce_utf8 (TextContent_Text t)\<rparr>) (CI_Text c),
      CI_Thinking = map_option (\<lambda>t. \<lparr>ThinkingContent_Type = coerce_utf8 (ThinkingContent_Type t),
        ThinkingContent_Text = coerce_utf8 (ThinkingContent_Text t)\<rparr>) (CI_Thinking c),
      CI_Image = map_option (\<lambda>t. \<lparr>ImageContent_Type = coerce_utf8 (ImageContent_Type t),
        ImageContent_URL = coerce_utf8 (ImageContent_URL t)\<rparr>) (CI_Image c),
      CI_Tool = map_option (\<lambda>t. \<lparr>ToolCallContent_Type = coerce_utf8 (ToolCallContent_Type t),
        ToolCallContent_ID = coerce_utf8 (ToolCallContent_ID t),
        ToolCallContent_FunctionName = coerce_utf8 (ToolCallContent_FunctionName t),
        ToolCallContent_FunctionArguments = coerce_utf8 (ToolCallContent_FunctionArguments t)\<rparr>) (CI_Tool c)\<rparr>"

definition coerce_content :: "MessageContent \<Rightarrow> MessageContent" where
  "coerce_content m = \<lparr>Str = map_option coerce_utf8 (Str m), Items = map_option (map coerce_item) (Items m)\<rparr>"

definition coerce_call :: "ToolCall \<Rightarrow> ToolCall" where
  "coerce_call tc =
     \<lparr>tc_ID = coerce_utf8 (tc_ID tc), tc_Name = coerce_utf8 (tc_Name tc),
      tc_Args = map_option coerce_object (tc_Args tc), tc_ThoughtSignature = tc_ThoughtSignature tc\<rparr>"

definition coerce_message :: "StrategicMessage \<Rightarrow> StrategicMessage" where
  "coerce_message m =
     \<lparr>Role = coerce_utf8 (Role m), Content = map_option coerce_content (Content m),
      msg_Name = map_option coerce_utf8 (msg_Name m), ToolCallID = map_option coerce_utf8 (ToolCallID m),
      ToolCalls = map coerce_call (ToolCalls m), ReasoningContent = map_option coerce_utf8 (ReasoningContent m),
      ThinkingBlocks = map coerce_object (ThinkingBlocks m), CreatedAt = coerce_utf8 (CreatedAt m)\<rparr>"

section \<open>Lemmas\<close>

text \<open>The encoder leaves its own output alone: what it wrote is valid UTF-8.\<close>

lemma byte_in_length: "byte_in lo hi s i \<Longrightarrow> i < length s"
  by (simp add: byte_in_def)

definition rune_two :: "string \<Rightarrow> bool" where
  "rune_two s \<longleftrightarrow> byte_in 0xC2 0xDF s 0 \<and> byte_in 0x80 0xBF s 1"

definition rune_three :: "string \<Rightarrow> bool" where
  "rune_three s \<longleftrightarrow>
     (byte_in 0xE0 0xE0 s 0 \<and> byte_in 0xA0 0xBF s 1 \<or> byte_in 0xED 0xED s 0 \<and> byte_in 0x80 0x9F s 1 \<or>
      (byte_in 0xE1 0xEC s 0 \<or> byte_in 0xEE 0xEF s 0) \<and> byte_in 0x80 0xBF s 1) \<and> byte_in 0x80 0xBF s 2"

definition rune_four :: "string \<Rightarrow> bool" where
  "rune_four s \<longleftrightarrow>
     (byte_in 0xF0 0xF0 s 0 \<and> byte_in 0x90 0xBF s 1 \<or> byte_in 0xF4 0xF4 s 0 \<and> byte_in 0x80 0x8F s 1 \<or>
      byte_in 0xF1 0xF3 s 0 \<and> byte_in 0x80 0xBF s 1) \<and> byte_in 0x80 0xBF s 2 \<and> byte_in 0x80 0xBF s 3"

lemma rune_size_alt:
  "rune_size s = (if rune_two s then 2 else if rune_three s then 3 else if rune_four s then 4 else 1)"
  unfolding rune_size_def rune_two_def rune_three_def rune_four_def Let_def by (rule refl)

lemma rune_length:
  "rune_two s \<Longrightarrow> 2 \<le> length s" "rune_three s \<Longrightarrow> 3 \<le> length s" "rune_four s \<Longrightarrow> 4 \<le> length s"
  by (auto simp: rune_two_def rune_three_def rune_four_def dest!: byte_in_length)

lemma rune_size_le: "s \<noteq> [] \<Longrightarrow> rune_size s \<le> length s"
  using rune_length [of s] by (cases s) (auto simp: rune_size_alt)

lemma rune_size_take:
  assumes "rune_size s = n" "1 < n"
  shows "rune_size (take n s @ r) = n"
proof -
  have n: "n \<le> length s" using assms rune_length [of s] by (auto simp: rune_size_alt split: if_splits)
  have b: "byte_in lo hi (take n s @ r) i = byte_in lo hi s i" if "i < n" for lo hi i
    using that n by (simp add: byte_in_def nth_append)
  have two: "rune_two (take n s @ r) = rune_two s" using assms(2) by (simp add: rune_two_def b)
  have three: "3 \<le> n \<Longrightarrow> rune_three (take n s @ r) = rune_three s" by (simp add: rune_three_def b)
  have four: "4 \<le> n \<Longrightarrow> rune_four (take n s @ r) = rune_four s" by (simp add: rune_four_def b)
  have "rune_size s = n" by (fact assms(1))
  then show ?thesis
    using assms(2) two three four by (auto simp: rune_size_alt split: if_splits)
qed

lemma coerce_utf8_ascii: "list_all (\<lambda>a. of_char a < (0x80 :: nat)) s \<Longrightarrow> coerce_utf8 s = s"
proof (induction s)
  case (Cons a s)
  then have "rune_size (a # s) = 1" by (simp add: rune_size_def byte_in_def Let_def)
  with Cons show ?case by (simp add: coerce_utf8.simps)
qed (simp add: coerce_utf8.simps)

lemma coerce_utf8_names [simp]:
  "coerce_utf8 [] = []" "coerce_utf8 ''text'' = ''text''" "coerce_utf8 ''thinking'' = ''thinking''"
  "coerce_utf8 ''image_url'' = ''image_url''" "coerce_utf8 ''tool_call'' = ''tool_call''"
  by (rule coerce_utf8_ascii, simp)+

lemma coerce_utf8_empty [simp]: "coerce_utf8 s = [] \<longleftrightarrow> s = []"
  by (cases s) (auto simp: coerce_utf8.simps Let_def)

lemma coerce_utf8_idem [simp]: "coerce_utf8 (coerce_utf8 s) = coerce_utf8 s"
proof (induction s rule: coerce_utf8.induct)
  case (2 a s)
  let ?n = "rune_size (a # s)"
  show ?case
  proof (cases "1 < ?n")
    case True
    let ?t = "take ?n (a # s)" and ?r = "coerce_utf8 (drop ?n (a # s))"
    have n: "length ?t = ?n" using rune_size_le [of "a # s"] by (simp add: min_def)
    have "rune_size (?t @ ?r) = ?n" by (rule rune_size_take) (use True in auto)
    moreover have "?t @ ?r = a # take (?n - 1) s @ ?r" using True by (cases ?n) auto
    ultimately have "coerce_utf8 (?t @ ?r) = take ?n (?t @ ?r) @ coerce_utf8 (drop ?n (?t @ ?r))"
      using True by (simp add: coerce_utf8.simps Let_def)
    also have "\<dots> = ?t @ ?r" using n 2(1) [OF refl True] by simp
    finally show ?thesis using True by (simp add: coerce_utf8.simps(2) [of a s] Let_def)
  next
    case False
    note IH = 2(2) [OF refl False]
    show ?thesis
    proof (cases "of_char a < (0x80 :: nat)")
      case True
      then have "rune_size (a # x) = 1" for x by (simp add: rune_size_def byte_in_def Let_def)
      with False True IH show ?thesis by (simp add: coerce_utf8.simps)
    next
      case invalid: False
      have "rune_size (CHR 0xEF # CHR 0xBF # CHR 0xBD # x) = 3" for x
        by (simp add: rune_size_def byte_in_def Let_def)
      with False invalid IH show ?thesis by (simp add: coerce_utf8.simps)
    qed
  qed
qed (simp add: coerce_utf8.simps)

lemma coerce_utf8_valid: "utf8_valid (coerce_utf8 s)"
  by (simp add: utf8_valid_def)

lemma coerce_json_idem: "coerce_json (coerce_json j) = coerce_json j"
  by (induction j) (auto simp: case_prod_beta)

lemma coerce_object_idem: "coerce_object (coerce_object fs) = coerce_object fs"
  by (auto simp: coerce_object_def case_prod_beta coerce_json_idem)

lemma marshal_string_unmarshal [simp]:
  "unmarshal_string (Some (marshal_string s)) = Inr (coerce_utf8 s)"
  "unmarshal_string_ptr (Some (marshal_string s)) = Inr (Some (coerce_utf8 s))"
  "marshal_string s \<noteq> JNull"
  by (simp_all add: marshal_string_def unmarshal_string_def unmarshal_string_ptr_def)

lemma bind_result_simps [simp]:
  "bind_result (Inl e) f = Inl e" "bind_result (Inr a) f = f a"
  by (simp_all add: bind_result_def)

lemma bind_result_Inr_iff: "bind_result r f = Inr b \<longleftrightarrow> (\<exists>a. r = Inr a \<and> f a = Inr b)"
  by (cases r) auto

lemma map_result_Inr_length: "map_result f xs = Inr ys \<Longrightarrow> length ys = length xs"
  by (induction xs arbitrary: ys) (auto simp: bind_result_Inr_iff)

lemma map_result_roundtrip:
  assumes "map_result f xs = Inr ys" and "\<And>x y. x \<in> set xs \<Longrightarrow> f x = Inr y \<Longrightarrow> g y = Inr (h x)"
  shows "map_result g ys = Inr (map h xs)"
  using assms by (induction xs arbitrary: ys) (auto simp: bind_result_Inr_iff)

lemma map_result_map: "(\<And>x. x \<in> set xs \<Longrightarrow> g (f x) = Inr (h x)) \<Longrightarrow> map_result g (map f xs) = Inr (map h xs)"
  by (induction xs) auto

lemma map_result_all: "(\<And>x. x \<in> set xs \<Longrightarrow> \<exists>y. f x = Inr y) \<Longrightarrow> \<exists>ys. map_result f xs = Inr ys"
  by (induction xs) (auto simp: bind_result_Inr_iff)

text \<open>The field names of the schema are their own case folding.\<close>

lemma fold_key_names [simp]:
  "fold_key ''type'' = ''type''" "fold_key ''text'' = ''text''" "fold_key ''url'' = ''url''"
  "fold_key ''image_url'' = ''image_url''" "fold_key ''id'' = ''id''" "fold_key ''name'' = ''name''"
  "fold_key ''function'' = ''function''" "fold_key ''arguments'' = ''arguments''"
  "fold_key ''role'' = ''role''" "fold_key ''content'' = ''content''"
  "fold_key ''tool_call_id'' = ''tool_call_id''" "fold_key ''tool_calls'' = ''tool_calls''"
  "fold_key ''reasoning_content'' = ''reasoning_content''"
  "fold_key ''thinking_blocks'' = ''thinking_blocks''" "fold_key ''created_at'' = ''created_at''"
  "fold_key ''args'' = ''args''" "fold_key ''thought_signature'' = ''thought_signature''"
  by code_simp+

lemma jfield_append: "jfield (xs @ ys) n = (case jfield ys n of Some v \<Rightarrow> Some v | None \<Rightarrow> jfield xs n)"
  unfolding jfield_def by (simp add: map_add_def)

lemma jfield_Nil [simp]: "jfield [] n = None"
  by (simp add: jfield_def)

lemma jfield_single: "jfield [(k, v)] n = (if fold_key k = fold_key n then Some v else None)"
  by (simp add: jfield_def)

lemma jfield_Cons: "jfield ((k, v) # xs) n =
    (case jfield xs n of Some w \<Rightarrow> Some w | None \<Rightarrow> if fold_key k = fold_key n then Some v else None)"
  using jfield_append [of "[(k, v)]" xs n] by (auto simp: jfield_single split: option.split)

lemma jfield_opt_field: "jfield (opt_field k v) n =
    (if fold_key k = fold_key n then map_option marshal_string v else None)"
  by (cases v) (auto simp: opt_field_def jfield_single)

lemma jfield_if: "jfield (if b then [] else [(k, v)]) n = (if b \<or> fold_key k \<noteq> fold_key n then None else Some v)"
  by (simp add: jfield_single)

lemmas jfield_simps = jfield_append jfield_Cons jfield_opt_field jfield_if

lemma unmarshal_string_simps [simp]:
  "unmarshal_string None = Inr []" "unmarshal_string (Some (JStr s)) = Inr s"
  "unmarshal_string_ptr None = Inr None" "unmarshal_string_ptr (Some (JStr s)) = Inr (Some s)"
  by (simp_all add: unmarshal_string_def unmarshal_string_ptr_def)

lemma unmarshal_string_ptr_map [simp]: "unmarshal_string_ptr (map_option marshal_string v) = Inr (map_option coerce_utf8 v)"
  by (cases v) simp_all

lemmas content_item_defs = ContentItem_MarshalJSON_def ContentItem_UnmarshalJSON_def
  unmarshal_object_def unmarshalByType_def empty_item_def

text \<open>The four shapes of a well-formed item.\<close>

lemma wf_item_cases [consumes 1, case_names ctext cthinking cimage ctool]:
  assumes "wf_item c"
  obtains x where "c = empty_item\<lparr>CI_Text := Some \<lparr>TextContent_Type = ''text'', TextContent_Text = x\<rparr>\<rparr>"
  | x where "c = empty_item\<lparr>CI_Thinking := Some \<lparr>ThinkingContent_Type = ''thinking'', ThinkingContent_Text = x\<rparr>\<rparr>"
  | x where "c = empty_item\<lparr>CI_Image := Some \<lparr>ImageContent_Type = ''image_url'', ImageContent_URL = x\<rparr>\<rparr>"
  | i n a where "c = empty_item\<lparr>CI_Tool := Some \<lparr>ToolCallContent_Type = ''tool_call'', ToolCallContent_ID = i,
      ToolCallContent_FunctionName = n, ToolCallContent_FunctionArguments = a\<rparr>\<rparr>"
proof -
  obtain t k i u where c: "c = \<lparr>CI_Text = t, CI_Thinking = k, CI_Image = i, CI_Tool = u\<rparr>"
    by (cases c) auto
  with assms consider
      x where "t = Some x" "k = None" "i = None" "u = None" "TextContent_Type x = ''text''"
    | x where "t = None" "k = Some x" "i = None" "u = None" "ThinkingContent_Type x = ''thinking''"
    | x where "t = None" "k = None" "i = Some x" "u = None" "ImageContent_Type x = ''image_url''"
    | x where "t = None" "k = None" "i = None" "u = Some x" "ToolCallContent_Type x = ''tool_call''"
    by (simp add: wf_item_def split: option.splits)
  then show ?thesis
  proof cases
    case 1
    then show ?thesis using that(1) [of "TextContent_Text x"] c by (simp add: empty_item_def)
  next
    case 2
    then show ?thesis using that(2) [of "ThinkingContent_Text x"] c by (simp add: empty_item_def)
  next
    case 3
    then show ?thesis using that(3) [of "ImageContent_URL x"] c by (simp add: empty_item_def)
  next
    case 4
    then show ?thesis
      using that(4) [of "ToolCallContent_ID x" "ToolCallContent_FunctionName x"
          "ToolCallContent_FunctionArguments x"] c
      by (simp add: empty_item_def)
  qed
qed

lemma ContentItem_roundtrip:
  assumes "wf_item c" and "ContentItem_MarshalJSON c = Inr j"
  shows "ContentItem_UnmarshalJSON j = Inr (coerce_item c)"
  using assms by (cases rule: wf_item_cases) (auto simp: content_item_defs coerce_item_def jfield_Cons)

lemma ContentItem_marshals: "wf_item c \<Longrightarrow> \<exists>j. ContentItem_MarshalJSON c = Inr j"
  by (erule wf_item_cases) (simp_all add: content_item_defs)

lemma MessageContent_roundtrip:
  assumes "wf_content m" and "MessageContent_MarshalJSON m = Inr j"
  shows "j \<noteq> JNull" and "MessageContent_UnmarshalJSON j = Inr (coerce_content m)"
proof -
  consider s where "Str m = Some s" "Items m = None"
    | xs where "Str m = None" "Items m = Some xs" "list_all wf_item xs"
    using assms(1) by (auto simp: wf_content_def split: option.splits)
  then have "j \<noteq> JNull \<and> MessageContent_UnmarshalJSON j = Inr (coerce_content m)"
  proof cases
    case 1
    then show ?thesis using assms(2)
      by (auto simp: MessageContent_MarshalJSON_def MessageContent_UnmarshalJSON_def coerce_content_def)
  next
    case 2
    then obtain js where js: "map_result ContentItem_MarshalJSON xs = Inr js" and j: "j = JArr js"
      using assms(2) by (auto simp: MessageContent_MarshalJSON_def split: sum.splits)
    have "map_result ContentItem_UnmarshalJSON js = Inr (map coerce_item xs)"
      using map_result_roundtrip [OF js, of ContentItem_UnmarshalJSON coerce_item] ContentItem_roundtrip 2(3) by (auto simp: list_all_iff)
    then show ?thesis using 2 j
      by (auto simp: MessageContent_UnmarshalJSON_def unmarshal_string_def coerce_content_def)
  qed
  then show "j \<noteq> JNull" and "MessageContent_UnmarshalJSON j = Inr (coerce_content m)" by auto
qed

lemma MessageContent_marshals: "wf_content m \<Longrightarrow> \<exists>j. MessageContent_MarshalJSON m = Inr j"
proof -
  assume wf: "wf_content m"
  have "\<exists>js. map_result ContentItem_MarshalJSON xs = Inr js" if "list_all wf_item xs" for xs
    using map_result_all [of xs ContentItem_MarshalJSON] ContentItem_marshals that
    by (auto simp: list_all_iff)
  then show ?thesis using wf
    by (cases "Str m"; cases "Items m") (force simp: wf_content_def MessageContent_MarshalJSON_def)+
qed

lemma ToolCall_roundtrip: "ToolCall_unmarshal (ToolCall_marshal tc) = Inr (coerce_call tc)"
proof -
  obtain fs where m: "ToolCall_marshal tc = JObj fs" by (simp add: ToolCall_marshal_def)
  have fs: "fs = (if tc_ID tc = [] then [] else [(''id'', marshal_string (tc_ID tc))]) @
      [(''name'', marshal_string (tc_Name tc)), (''args'', case tc_Args tc of None \<Rightarrow> JNull | Some a \<Rightarrow> JObj (coerce_object a))] @
      (if tc_ThoughtSignature tc = [] then [] else [(''thought_signature'', JBytes (tc_ThoughtSignature tc))])"
    using m by (simp only: ToolCall_marshal_def json.inject)
  have "unmarshal_string (jfield fs ''id'') = Inr (coerce_utf8 (tc_ID tc))"
    unfolding fs by (simp add: jfield_simps jfield_single)
  moreover have "unmarshal_string (jfield fs ''name'') = Inr (coerce_utf8 (tc_Name tc))"
    unfolding fs by (simp add: jfield_simps jfield_single)
  moreover have "unmarshal_map (jfield fs ''args'') = Inr (map_option coerce_object (tc_Args tc))"
    unfolding fs by (cases "tc_Args tc") (simp_all add: jfield_simps jfield_single unmarshal_map_def)
  moreover have "unmarshal_bytes (jfield fs ''thought_signature'') = Inr (tc_ThoughtSignature tc)"
    unfolding fs by (simp add: jfield_simps jfield_single unmarshal_bytes_def)
  ultimately show ?thesis
    by (simp add: m ToolCall_unmarshal_def unmarshal_object_def coerce_call_def)
qed

lemma unmarshal_list_simps [simp]:
  "unmarshal_list f None = Inr []" "unmarshal_list f (Some (JArr js)) = map_result f js"
  by (simp_all add: unmarshal_list_def)

lemma ToolCalls_roundtrip: "map_result ToolCall_unmarshal (map ToolCall_marshal xs) = Inr (map coerce_call xs)"
  by (rule map_result_map) (rule ToolCall_roundtrip)

lemma blocks_roundtrip:
  "map_result unmarshal_object (map (\<lambda>b. JObj (coerce_object b)) xs) = Inr (map coerce_object xs)"
  by (rule map_result_map) (simp add: unmarshal_object_def)

text \<open>The fields of an encoded message, one at a time.\<close>

lemma message_fields:
  fixes m :: StrategicMessage and content :: json_object
  assumes content: "content = [] \<or> (\<exists>j. content = [(''content'', j)])"
  defines "fs \<equiv> [(''role'', marshal_string (Role m))] @ content @ opt_field ''name'' (msg_Name m) @
       opt_field ''tool_call_id'' (ToolCallID m) @
       (if ToolCalls m = [] then [] else [(''tool_calls'', JArr (map ToolCall_marshal (ToolCalls m)))]) @
       opt_field ''reasoning_content'' (ReasoningContent m) @
       (if ThinkingBlocks m = [] then [] else [(''thinking_blocks'', JArr (map (\<lambda>b. JObj (coerce_object b)) (ThinkingBlocks m)))]) @
       (if CreatedAt m = [] then [] else [(''created_at'', marshal_string (CreatedAt m))])"
  shows "jfield fs ''role'' = Some (marshal_string (Role m))"
    and "jfield fs ''content'' = jfield content ''content''"
    and "jfield fs ''name'' = map_option marshal_string (msg_Name m)"
    and "jfield fs ''tool_call_id'' = map_option marshal_string (ToolCallID m)"
    and "unmarshal_list ToolCall_unmarshal (jfield fs ''tool_calls'') = Inr (map coerce_call (ToolCalls m))"
    and "jfield fs ''reasoning_content'' = map_option marshal_string (ReasoningContent m)"
    and "unmarshal_list unmarshal_object (jfield fs ''thinking_blocks'') = Inr (map coerce_object (ThinkingBlocks m))"
    and "unmarshal_string (jfield fs ''created_at'') = Inr (coerce_utf8 (CreatedAt m))"
proof -
  have c: "jfield content n = None" if "fold_key n \<noteq> ''content''" for n
    using content that by (auto simp: jfield_single)
  note fsimps = fs_def jfield_simps jfield_single c
  show "jfield fs ''role'' = Some (marshal_string (Role m))" by (simp add: fsimps)
  show "jfield fs ''content'' = jfield content ''content''"
    by (cases "jfield content ''content''") (simp_all add: fsimps)
  show "jfield fs ''name'' = map_option marshal_string (msg_Name m)"
    by (cases "msg_Name m") (simp_all add: fsimps)
  show "jfield fs ''tool_call_id'' = map_option marshal_string (ToolCallID m)"
    by (cases "ToolCallID m") (simp_all add: fsimps)
  show "unmarshal_list ToolCall_unmarshal (jfield fs ''tool_calls'') = Inr (map coerce_call (ToolCalls m))"
    by (simp add: fsimps ToolCalls_roundtrip)
  show "jfield fs ''reasoning_content'' = map_option marshal_string (ReasoningContent m)"
    by (cases "ReasoningContent m") (simp_all add: fsimps)
  show "unmarshal_list unmarshal_object (jfield fs ''thinking_blocks'') = Inr (map coerce_object (ThinkingBlocks m))"
    by (simp add: fsimps blocks_roundtrip)
  show "unmarshal_string (jfield fs ''created_at'') = Inr (coerce_utf8 (CreatedAt m))"
    by (simp add: fsimps)
qed

lemma message_roundtrip:
  assumes wf: "wf_message m" and j: "message_marshal m = Inr j"
  shows "message_unmarshal j = Inr (coerce_message m)"
proof (cases "Content m")
  case None
  have "([] :: json_object) = [] \<or> (\<exists>j. [] = [(''content'', j)])" by simp
  note fields = message_fields [OF this, of m]
  show ?thesis using j None fields
    by (auto simp: message_marshal_def message_unmarshal_def unmarshal_object_def coerce_message_def)
next
  case (Some c)
  obtain jc where jc: "MessageContent_MarshalJSON c = Inr jc"
    using j Some by (auto simp: message_marshal_def bind_result_Inr_iff)
  have "wf_content c" using wf Some by (simp add: wf_message_def)
  note rt = MessageContent_roundtrip [OF this jc]
  have "[(''content'', jc)] = [] \<or> (\<exists>j. [(''content'', jc)] = [(''content'', j)])" by simp
  note fields = message_fields [OF this, of m]
  have "(case Some jc of None \<Rightarrow> Inr None | Some JNull \<Rightarrow> Inr None
          | Some x \<Rightarrow> bind_result (MessageContent_UnmarshalJSON x) (\<lambda>m. Inr (Some m))) = Inr (Some (coerce_content c))"
    using rt by (cases jc) simp_all
  then show ?thesis using j Some jc fields
    by (auto simp: message_marshal_def message_unmarshal_def unmarshal_object_def coerce_message_def jfield_single)
qed

lemma message_marshals: "wf_message m \<Longrightarrow> \<exists>j. message_marshal m = Inr j"
proof (cases "Content m")
  case None
  then show ?thesis by (simp add: message_marshal_def)
next
  case (Some c)
  moreover assume "wf_message m"
  ultimately obtain j where "MessageContent_MarshalJSON c = Inr j"
    using MessageContent_marshals by (auto simp: wf_message_def)
  with Some show ?thesis by (simp add: message_marshal_def)
qed

text \<open>A list of well-formed messages can be encoded, and the encoding decodes to the same list with
  its strings as the encoder writes them.\<close>

lemma messages_roundtrip:
  assumes "list_all wf_message ms"
  shows "\<exists>j. marshal_messages ms = Inr j \<and> unmarshal_messages j = Inr (map coerce_message ms)"
proof -
  obtain js where js: "map_result message_marshal ms = Inr js"
    using map_result_all [of ms message_marshal] message_marshals assms by (auto simp: list_all_iff)
  have "map_result message_unmarshal js = Inr (map coerce_message ms)"
    using map_result_roundtrip [OF js, of message_unmarshal coerce_message] message_roundtrip assms
    by (auto simp: list_all_iff)
  then show ?thesis using js by (simp add: marshal_messages_def unmarshal_messages_def)
qed

text \<open>Encoding what was decoded writes the same document.\<close>

lemma coerce_item_marshal: "ContentItem_MarshalJSON (coerce_item c) = ContentItem_MarshalJSON c"
  by (auto simp: ContentItem_MarshalJSON_def coerce_item_def marshal_string_def split: option.split)

lemma coerce_content_marshal: "MessageContent_MarshalJSON (coerce_content m) = MessageContent_MarshalJSON m"
proof -
  have "map_result ContentItem_MarshalJSON (map coerce_item xs) = map_result ContentItem_MarshalJSON xs" for xs
    by (induction xs) (simp_all add: coerce_item_marshal)
  then show ?thesis
    by (auto simp: MessageContent_MarshalJSON_def coerce_content_def marshal_string_def split: option.split)
qed

lemma coerce_call_marshal: "ToolCall_marshal (coerce_call tc) = ToolCall_marshal tc"
  by (auto simp: ToolCall_marshal_def coerce_call_def marshal_string_def coerce_object_idem split: option.split)

lemma opt_field_coerce: "opt_field k (map_option coerce_utf8 v) = opt_field k v"
  by (cases v) (simp_all add: opt_field_def marshal_string_def)

lemma coerce_message_marshal: "message_marshal (coerce_message m) = message_marshal m"
  by (cases "Content m")
     (simp_all add: message_marshal_def coerce_message_def opt_field_coerce coerce_content_marshal
        coerce_call_marshal coerce_object_idem marshal_string_def o_def)

lemma marshal_messages_coerce: "marshal_messages (map coerce_message ms) = marshal_messages ms"
proof -
  have "map_result message_marshal (map coerce_message ms) = map_result message_marshal ms"
    by (induction ms) (simp_all add: coerce_message_marshal)
  then show ?thesis by (simp add: marshal_messages_def)
qed

lemma coerce_wf_item: "wf_item c \<Longrightarrow> wf_item (coerce_item c)"
  by (erule wf_item_cases) (simp_all add: coerce_item_def wf_item_def empty_item_def)

lemma coerce_wf: "wf_message m \<Longrightarrow> wf_message (coerce_message m)"
  by (auto simp: wf_message_def coerce_message_def wf_content_def coerce_content_def list_all_iff coerce_wf_item
      split: option.splits)

lemma coerce_wf_list: "list_all wf_message ms \<Longrightarrow> list_all wf_message (map coerce_message ms)"
  by (simp add: list_all_iff coerce_wf)

lemma coerce_message_idem: "coerce_message (coerce_message m) = coerce_message m"
proof -
  have i: "coerce_item (coerce_item c) = coerce_item c" for c
    by (simp add: coerce_item_def option.map_comp o_def)
  have "coerce_content (coerce_content c) = coerce_content c" for c
    by (simp add: coerce_content_def option.map_comp o_def i)
  moreover have "coerce_call (coerce_call t) = coerce_call t" for t
    by (simp add: coerce_call_def option.map_comp o_def coerce_object_idem)
  ultimately show ?thesis
    by (simp add: coerce_message_def option.map_comp o_def coerce_object_idem)
qed

text \<open>
  \<^bold>\<open>C40.\<close> A history of well-formed messages, of any bytes, can be encoded as JSON, and decoding gives back the
  same history with every content item, tool call, ID and timestamp, each string with its invalid
  UTF-8 replaced by U+FFFD as the encoder does; a history of valid UTF-8 comes back exactly. The
  decoded history encodes to the same document, so a second round trip changes nothing.
\<close>

theorem messages_json_roundtrip:
  assumes "list_all wf_message ms"
  shows "\<exists>j. marshal_messages ms = Inr j \<and> unmarshal_messages j = Inr (map coerce_message ms) \<and>
    ((\<forall>m \<in> set ms. coerce_message m = m) \<longrightarrow> unmarshal_messages j = Inr ms) \<and>
    marshal_messages (map coerce_message ms) = Inr j"
proof -
  have "map coerce_message ms = ms" if "\<forall>m \<in> set ms. coerce_message m = m"
    using that by (simp add: map_idI)
  then show ?thesis using messages_roundtrip [OF assms] by (auto simp: marshal_messages_coerce)
qed

definition sample_items :: "StrategicMessage list" where
  "sample_items =
     [empty_message\<lparr>Role := RoleUser, Content := Some \<lparr>Str = None, Items = Some
        [empty_item\<lparr>CI_Text := Some \<lparr>TextContent_Type = ''text'', TextContent_Text = ''hi''\<rparr>\<rparr>]\<rparr>\<rparr>,
      (text_message RoleAssistant ''ok'' [])
        \<lparr>ToolCalls := [\<lparr>tc_ID = ''c1'', tc_Name = ''ls'', tc_Args = Some [(''path'', JStr ''x'')], tc_ThoughtSignature = []\<rparr>]\<rparr>]"

text \<open>A tool's output cut in the middle of a character, as \<^verbatim>\<open>tool_shell.go\<close> does at its limit: the cut
  character comes back as two U+FFFD.\<close>

definition sample_cut :: StrategicMessage where
  "sample_cut = text_message RoleTool (''ab'' @ [CHR 0xE2, CHR 0x82]) []"

lemma sample_cut_coerced:
  "coerce_message sample_cut = text_message RoleTool
     (''ab'' @ [CHR 0xEF, CHR 0xBF, CHR 0xBD, CHR 0xEF, CHR 0xBF, CHR 0xBD]) []"
proof -
  have "coerce_utf8 (''ab'' @ [CHR 0xE2, CHR 0x82]) = ''ab'' @ [CHR 0xEF, CHR 0xBF, CHR 0xBD, CHR 0xEF, CHR 0xBF, CHR 0xBD]"
    by (simp add: coerce_utf8.simps rune_size_def byte_in_def)
  moreover have "coerce_utf8 RoleTool = RoleTool" by (rule coerce_utf8_ascii) (simp add: RoleTool_def)
  ultimately show ?thesis
    by (simp add: coerce_message_def sample_cut_def text_message_def empty_message_def coerce_content_def)
qed

lemma sample_items_valid: "map coerce_message sample_items = sample_items"
  by (simp add: sample_items_def coerce_message_def text_message_def empty_message_def coerce_content_def
      coerce_item_def empty_item_def coerce_call_def coerce_object_def RoleUser_def RoleAssistant_def coerce_utf8_ascii)

lemma sample_wf: "list_all wf_message (sample_cut # sample_items)"
  by (simp add: sample_items_def sample_cut_def wf_message_def wf_content_def wf_item_def empty_item_def
        text_message_def empty_message_def)

lemma messages_json_roundtrip_witness:
  "\<exists>j. marshal_messages (sample_cut # sample_items) = Inr j \<and>
     unmarshal_messages j = Inr (text_message RoleTool
       (''ab'' @ [CHR 0xEF, CHR 0xBF, CHR 0xBD, CHR 0xEF, CHR 0xBF, CHR 0xBD]) [] # sample_items)"
proof -
  have "map coerce_message (sample_cut # sample_items) = text_message RoleTool
       (''ab'' @ [CHR 0xEF, CHR 0xBF, CHR 0xBD, CHR 0xEF, CHR 0xBF, CHR 0xBD]) [] # sample_items"
    by (simp only: list.map sample_cut_coerced sample_items_valid)
  with messages_json_roundtrip [OF sample_wf] show ?thesis by metis
qed

end
