(* ===== verification/GoTime.thy ===== *)
theory GoTime
  imports GoPrelude
begin

text \<open>
  The part of Go's \<^verbatim>\<open>time\<close> package the program uses: durations and instants as integers of
  nanoseconds (an instant counts from the Unix epoch), \<^verbatim>\<open>time.ParseDuration\<close>, \<^verbatim>\<open>time.Parse\<close> for
  the layouts \<^verbatim>\<open>time.RFC3339\<close> and \<^verbatim>\<open>2006-01-02 15:04:05\<close>, and \<^verbatim>\<open>Time.Format\<close> for these two.
\<close>

type_synonym duration = int
type_synonym instant = int

definition millisecond :: duration where "millisecond = 1000000"
definition second :: duration where "second = 1000000000"
definition minute :: duration where "minute = 60 * second"
definition hour :: duration where "hour = 60 * minute"

text \<open>\<^verbatim>\<open>Time.Sub\<close> saturates at the bounds of a duration.\<close>

definition time_Sub :: "instant \<Rightarrow> instant \<Rightarrow> duration" where
  "time_Sub t u = max (- (2 ^ 63)) (min (2 ^ 63 - 1) (t - u))"

section \<open>Durations\<close>

fun leading_int :: "int \<Rightarrow> string \<Rightarrow> (int \<times> string) option" where
  "leading_int x [] = Some (x, [])"
| "leading_int x (c # cs) =
     (if \<not> is_digit c then Some (x, c # cs)
      else if x > 2 ^ 63 div 10 then None
      else if x * 10 + digit_val c > 2 ^ 63 then None
      else leading_int (x * 10 + digit_val c) cs)"

text \<open>\<^verbatim>\<open>leadingFraction\<close>: the digits are accumulated until the value would overflow, the rest is
  skipped; \<open>scale\<close> is the power of ten of the digits taken.\<close>

fun leading_fraction :: "bool \<Rightarrow> int \<Rightarrow> int \<Rightarrow> string \<Rightarrow> int \<times> int \<times> string" where
  "leading_fraction ovf x scale [] = (x, scale, [])"
| "leading_fraction ovf x scale (c # cs) =
     (if \<not> is_digit c then (x, scale, c # cs)
      else if ovf then leading_fraction True x scale cs
      else if x > (2 ^ 63 - 1) div 10 then leading_fraction True x scale cs
      else if x * 10 + digit_val c > 2 ^ 63 then leading_fraction True x scale cs
      else leading_fraction False (x * 10 + digit_val c) (scale * 10) cs)"

definition unit_of :: "string \<Rightarrow> int option" where
  "unit_of u =
     map_of [(''ns'', 1), (''us'', 1000), ([CHR 0xC2, CHR 0xB5, CHR ''s''], 1000),
             ([CHR 0xCE, CHR 0xBC, CHR ''s''], 1000), (''ms'', 1000000), (''s'', 1000000000),
             (''m'', 60000000000), (''h'', 3600000000000)] u"

text \<open>One value with its unit: the nanoseconds and the rest of the text.\<close>

definition duration_item :: "string \<Rightarrow> (int \<times> string) option" where
  "duration_item s =
     (if s = [] \<or> \<not> (hd s = CHR ''.'' \<or> is_digit (hd s)) then None
      else
        (case leading_int 0 s of
           None \<Rightarrow> None
         | Some (v, s1) \<Rightarrow>
             (let dot = (s1 \<noteq> [] \<and> hd s1 = CHR ''.'');
                  (f, scale, s2) = (if dot then leading_fraction False 0 1 (tl s1) else (0, 1, s1));
                  pre = (length s1 \<noteq> length s);
                  post = (dot \<and> length s2 \<noteq> length (tl s1));
                  u = takeWhile (\<lambda>c. c \<noteq> CHR ''.'' \<and> \<not> is_digit c) s2
              in if \<not> pre \<and> \<not> post then None
                 else
                   (case unit_of u of
                      None \<Rightarrow> None
                    | Some ns \<Rightarrow>
                        (let v' = v * ns + f * ns div scale
                         in if v > 2 ^ 63 div ns \<or> v' > 2 ^ 63 then None
                            else Some (v', drop (length u) s2))))))"

text \<open>One iteration of the loop per unit of fuel; each iteration consumes at least one byte, so
  the length of the text is enough.\<close>

fun duration_loop :: "nat \<Rightarrow> int \<Rightarrow> string \<Rightarrow> int option" where
  "duration_loop 0 d s = (if s = [] then Some d else None)"
| "duration_loop (Suc fuel) d s =
     (if s = [] then Some d
      else
        (case duration_item s of
           None \<Rightarrow> None
         | Some (v, rest) \<Rightarrow> if d + v > 2 ^ 63 then None else duration_loop fuel (d + v) rest))"

definition ParseDuration :: "string \<Rightarrow> duration option" where
  "ParseDuration s0 =
     (let neg = (s0 \<noteq> [] \<and> hd s0 = CHR ''-'');
          s = (if s0 \<noteq> [] \<and> (hd s0 = CHR ''-'' \<or> hd s0 = CHR ''+'') then tl s0 else s0)
      in if s = ''0'' then Some 0
         else if s = [] then None
         else
           (case duration_loop (length s) 0 s of
              None \<Rightarrow> None
            | Some d \<Rightarrow> if neg then Some (- d) else if d > 2 ^ 63 - 1 then None else Some d))"

section \<open>Civil dates\<close>

definition is_leap :: "int \<Rightarrow> bool" where
  "is_leap y \<longleftrightarrow> y mod 4 = 0 \<and> (y mod 100 \<noteq> 0 \<or> y mod 400 = 0)"

definition days_in :: "int \<Rightarrow> int \<Rightarrow> int" where
  "days_in m y =
     (if m = 2 then (if is_leap y then 29 else 28)
      else if m \<in> {4, 6, 9, 11} then 30 else 31)"

definition days_from_civil :: "int \<Rightarrow> int \<Rightarrow> int \<Rightarrow> int" where
  "days_from_civil y m d =
     (let y' = (if m \<le> 2 then y - 1 else y);
          era = y' div 400;
          yoe = y' mod 400;
          doy = (153 * (if m > 2 then m - 3 else m + 9) + 2) div 5 + d - 1;
          doe = yoe * 365 + yoe div 4 - yoe div 100 + doy
      in era * 146097 + doe - 719468)"

definition civil_from_days :: "int \<Rightarrow> int \<times> int \<times> int" where
  "civil_from_days z0 =
     (let z = z0 + 719468;
          era = z div 146097;
          doe = z mod 146097;
          yoe = (doe - doe div 1460 + doe div 36524 - doe div 146096) div 365;
          doy = doe - (365 * yoe + yoe div 4 - yoe div 100);
          mp = (5 * doy + 2) div 153;
          d = doy - (153 * mp + 2) div 5 + 1;
          m = (if mp < 10 then mp + 3 else mp - 9)
      in (yoe + era * 400 + (if m \<le> 2 then 1 else 0), m, d))"

section \<open>Parsing timestamps\<close>

definition num2 :: "string \<Rightarrow> int option" where
  "num2 s = (if length s = 2 \<and> list_all is_digit s
             then Some (digit_val (s ! 0) * 10 + digit_val (s ! 1)) else None)"

definition num4 :: "string \<Rightarrow> int option" where
  "num4 s = (if length s = 4 \<and> list_all is_digit s
             then Some (foldl (\<lambda>n c. n * 10 + digit_val c) 0 s) else None)"

text \<open>\<^verbatim>\<open>getnum\<close> for the hour accepts one digit where a second one is missing.\<close>

definition get_hour :: "string \<Rightarrow> (int \<times> string) option" where
  "get_hour s =
     (case s of
        [] \<Rightarrow> None
      | c # cs \<Rightarrow>
          if \<not> is_digit c then None
          else if cs \<noteq> [] \<and> is_digit (hd cs) then Some (digit_val c * 10 + digit_val (hd cs), tl cs)
          else Some (digit_val c, cs))"

definition parse_fraction :: "string \<Rightarrow> int \<times> string" where
  "parse_fraction s =
     (if length s \<ge> 2 \<and> (hd s = CHR ''.'' \<or> hd s = CHR '','') \<and> is_digit (s ! 1)
      then let ds = takeWhile is_digit (tl s);
               ds9 = take 9 ds
           in (foldl (\<lambda>n c. n * 10 + digit_val c) 0 ds9 * 10 ^ (9 - length ds9),
               drop (length ds) (tl s))
      else (0, s))"

definition parse_zone :: "string \<Rightarrow> int option" where
  "parse_zone s =
     (if s = ''Z'' then Some 0
      else if length s = 6 \<and> s ! 3 = CHR '':'' \<and> (hd s = CHR ''+'' \<or> hd s = CHR ''-'')
      then (case (num2 (take 2 (drop 1 s)), num2 (drop 4 s)) of
              (Some hr, Some mm) \<Rightarrow>
                if hr > 24 \<or> mm > 60 then None
                else Some ((if hd s = CHR ''-'' then - 1 else 1) * (hr * 60 + mm) * 60)
            | _ \<Rightarrow> None)
      else None)"

text \<open>The shared part of the two layouts: date, the separator \<open>sep\<close>, clock time with an optional
  fraction, then the zone parser applied to the rest.\<close>

definition parse_stamp :: "char \<Rightarrow> (string \<Rightarrow> int option) \<Rightarrow> string \<Rightarrow> instant option" where
  "parse_stamp sep zone s =
     (if length s < 11 \<or> s ! 4 \<noteq> CHR ''-'' \<or> s ! 7 \<noteq> CHR ''-'' \<or> s ! 10 \<noteq> sep then None
      else case (num4 (take 4 s), num2 (take 2 (drop 5 s)), num2 (take 2 (drop 8 s)), get_hour (drop 11 s)) of
        (Some y, Some mo, Some d, Some (h, r)) \<Rightarrow>
          if length r < 6 \<or> r ! 0 \<noteq> CHR '':'' \<or> r ! 3 \<noteq> CHR '':'' then None
          else (case (num2 (take 2 (drop 1 r)), num2 (take 2 (drop 4 r))) of
            (Some mi, Some sc) \<Rightarrow>
              (case parse_fraction (drop 6 r) of
                 (ns, rest) \<Rightarrow>
                   (case zone rest of
                      None \<Rightarrow> None
                    | Some off \<Rightarrow>
                        if mo < 1 \<or> mo > 12 \<or> d < 1 \<or> d > days_in mo y \<or> h \<ge> 24 \<or> mi \<ge> 60 \<or> sc \<ge> 60
                        then None
                        else Some ((days_from_civil y mo d * 86400 + h * 3600 + mi * 60 + sc - off)
                                     * second + ns)))
          | _ \<Rightarrow> None)
      | _ \<Rightarrow> None)"

definition ParseRFC3339 :: "string \<Rightarrow> instant option" where
  "ParseRFC3339 s = parse_stamp (CHR ''T'') parse_zone s"

definition ParseDateTime :: "string \<Rightarrow> instant option" where
  "ParseDateTime s = parse_stamp (CHR '' '') (\<lambda>r. if r = [] then Some 0 else None) s"

section \<open>Formatting timestamps\<close>

definition pad :: "nat \<Rightarrow> int \<Rightarrow> string" where
  "pad w n = (let s = dec n in replicate (w - length s) (CHR ''0'') @ s)"

definition format_date :: "instant \<Rightarrow> string" where
  "format_date t =
     (case civil_from_days (t div second div 86400) of
        (y, m, d) \<Rightarrow> pad 4 y @ ''-'' @ pad 2 m @ ''-'' @ pad 2 d)"

definition format_clock :: "instant \<Rightarrow> string" where
  "format_clock t =
     (let s = (t div second) mod 86400
      in pad 2 (s div 3600) @ '':'' @ pad 2 (s div 60 mod 60) @ '':'' @ pad 2 (s mod 60))"

text \<open>Instants are formatted in UTC.\<close>

definition FormatRFC3339 :: "instant \<Rightarrow> string" where
  "FormatRFC3339 t = format_date t @ ''T'' @ format_clock t @ ''Z''"

definition FormatDateTime :: "instant \<Rightarrow> string" where
  "FormatDateTime t = format_date t @ '' '' @ format_clock t"

end
