(* ===== verification/AgentConfig.thy ===== *)
theory AgentConfig
  imports GoTime
begin

text \<open>
  The configuration records the agent core reads (\<^verbatim>\<open>internal/config/config_types.go\<close>) and the
  accessors with defaults it calls (\<^verbatim>\<open>internal/config/config_accessors.go\<close>). Thresholds are
  rationals: the decimal text of the configuration file, before it is rounded to a float.
\<close>

record ContextPruningConfig =
  TTL :: string
  KeepLastAssistants :: int

record SummarizationConfig =
  sum_Enabled :: bool
  sum_Model :: string
  sum_Threshold :: rat

record MemoryFlushConfig =
  mf_Prompt :: string
  mf_TTL :: string
  mf_GlobalTTL :: string
  mf_GlobalNamespacePatterns :: "string list"

record CompactionPolicyConfig =
  Strategy :: string
  MemoryFlush :: MemoryFlushConfig
  Summarization :: SummarizationConfig

definition DefaultSummarizationThreshold :: rat where
  "DefaultSummarizationThreshold = 7 / 10"

definition IsSummarizationEnabled :: "SummarizationConfig \<Rightarrow> bool" where
  "IsSummarizationEnabled s = sum_Enabled s"

definition SummarizationThreshold :: "SummarizationConfig \<Rightarrow> rat" where
  "SummarizationThreshold s = (if sum_Threshold s > 0 then sum_Threshold s else DefaultSummarizationThreshold)"

definition SummarizationModel :: "SummarizationConfig \<Rightarrow> string \<Rightarrow> string" where
  "SummarizationModel s defaultModel = (if sum_Model s \<noteq> [] then sum_Model s else defaultModel)"

end
