(* ===== verification/Compaction.thy ===== *)
theory Compaction
  imports Messages AgentConfig "HOL-Library.Multiset"
begin

text \<open>
  Trimming of the conversation history, \<^verbatim>\<open>internal/agent/compaction.go\<close>: \<^verbatim>\<open>CompactMessages\<close> and
  \<^verbatim>\<open>PruneMessages\<close> with their passes over the \<^verbatim>\<open>keep\<close> array. Slices are lists, the mutated
  \<^verbatim>\<open>keep\<close> slice is passed and returned. The theorems say what a trimmed history still has: the
  order, the newest messages, tool calls together with their responses, and every message that
  no rule allows to drop.
\<close>

section \<open>Definitions\<close>

definition DefaultMaxCompactionInputBytes :: nat where
  "DefaultMaxCompactionInputBytes = 512 * 1024"

definition is_assistant :: "StrategicMessage \<Rightarrow> bool" where
  "is_assistant m \<longleftrightarrow> Role m = RoleAssistant \<or> Role m = RoleModel"

definition select_kept :: "'a list \<Rightarrow> bool list \<Rightarrow> 'a list" where
  "select_kept xs keep = map fst (filter snd (zip xs keep))"

fun keep_assistants_loop ::
  "StrategicMessage list \<Rightarrow> int \<Rightarrow> nat \<Rightarrow> int \<Rightarrow> bool list \<Rightarrow> bool list" where
  "keep_assistants_loop messages n 0 found keep = keep"
| "keep_assistants_loop messages n (Suc i) found keep =
     (if is_assistant (messages ! i) \<and> found < n then
        let keep1 = keep[i := True];
            keep2 = (if i > 0 \<and> Role (messages ! (i - 1)) = RoleUser then keep1[i - 1 := True] else keep1)
        in keep_assistants_loop messages n i (found + 1) keep2
      else keep_assistants_loop messages n i found keep)"

definition applyKeepLastAssistants ::
  "StrategicMessage list \<Rightarrow> bool list \<Rightarrow> int \<Rightarrow> bool list" where
  "applyKeepLastAssistants messages keep keepLastAssistants =
     (if keepLastAssistants \<le> 0 then keep
      else keep_assistants_loop messages keepLastAssistants (length messages) 0 keep)"

definition buildToolCallMap :: "StrategicMessage list \<Rightarrow> (string \<rightharpoonup> nat)" where
  "buildToolCallMap messages =
     fold (\<lambda>i ids.
             if is_assistant (messages ! i) then
               fold (\<lambda>tc ids. if tc_ID tc \<noteq> [] then ids(tc_ID tc \<mapsto> i) else ids) (ToolCalls (messages ! i)) ids
             else ids)
       [0..<length messages] Map.empty"

definition backward_step ::
  "StrategicMessage list \<Rightarrow> (string \<rightharpoonup> nat) \<Rightarrow> nat \<Rightarrow> bool list \<Rightarrow> bool list" where
  "backward_step messages ids i keep =
     (if \<not> keep ! i then keep
      else if Role (messages ! i) = RoleTool then
        (case ToolCallID (messages ! i) of
           None \<Rightarrow> keep
         | Some respID \<Rightarrow>
             (case ids respID of
                None \<Rightarrow> keep
              | Some callIdx \<Rightarrow> if \<not> keep ! callIdx then keep[callIdx := True] else keep))
      else keep)"

definition completeChainsBackward ::
  "StrategicMessage list \<Rightarrow> bool list \<Rightarrow> (string \<rightharpoonup> nat) \<Rightarrow> bool list" where
  "completeChainsBackward messages keep ids =
     fold (backward_step messages ids) [0..<length messages] keep"

definition keep_response :: "StrategicMessage list \<Rightarrow> string \<Rightarrow> nat \<Rightarrow> bool list \<Rightarrow> bool list" where
  "keep_response messages callID j keep =
     (if Role (messages ! j) = RoleTool \<and> ToolCallID (messages ! j) = Some callID then keep[j := True] else keep)"

definition keepResponsesForCall ::
  "StrategicMessage list \<Rightarrow> bool list \<Rightarrow> ToolCall list \<Rightarrow> bool list" where
  "keepResponsesForCall messages keep toolCalls =
     fold (\<lambda>tc keep. if tc_ID tc = [] then keep
                      else fold (keep_response messages (tc_ID tc)) [0..<length messages] keep)
       toolCalls keep"

definition forward_step :: "StrategicMessage list \<Rightarrow> nat \<Rightarrow> bool list \<Rightarrow> bool list" where
  "forward_step messages i keep =
     (if \<not> keep ! i then keep
      else if is_assistant (messages ! i) then keepResponsesForCall messages keep (ToolCalls (messages ! i))
      else keep)"

definition completeChainsForward :: "StrategicMessage list \<Rightarrow> bool list \<Rightarrow> bool list" where
  "completeChainsForward messages keep = fold (forward_step messages) [0..<length messages] keep"

definition applyToolChainConsistency :: "StrategicMessage list \<Rightarrow> bool list \<Rightarrow> bool list" where
  "applyToolChainConsistency messages keep =
     completeChainsForward messages
       (completeChainsBackward messages keep (buildToolCallMap messages))"

definition hasKeptToolCalls :: "StrategicMessage list \<Rightarrow> bool" where
  "hasKeptToolCalls compacted =
     (case compacted of
        [] \<Rightarrow> False
      | m # rest \<Rightarrow>
          list_ex (\<lambda>tc. tc_ID tc \<noteq> [] \<and>
                        list_ex (\<lambda>r. Role r = RoleTool \<and> ToolCallID r = Some (tc_ID tc)) rest)
            (ToolCalls m))"

definition stripLeadingAssistantTurns :: "StrategicMessage list \<Rightarrow> StrategicMessage list" where
  "stripLeadingAssistantTurns compacted =
     (case compacted of
        [] \<Rightarrow> compacted
      | m # rest \<Rightarrow>
          if \<not> is_assistant m then compacted
          else if hasKeptToolCalls compacted then compacted
          else rest)"

text \<open>The clamped number of newest messages that compaction always keeps.\<close>

definition effective_keep :: "int \<Rightarrow> int \<Rightarrow> nat" where
  "effective_keep maxN keepN =
     (let k1 = (if keepN \<ge> maxN then maxN - 1 else keepN) in nat (if k1 < 1 then 1 else k1))"

definition initial_keep :: "nat \<Rightarrow> nat \<Rightarrow> bool list" where
  "initial_keep n keepN = map (\<lambda>i. n - keepN \<le> i) [0..<n]"

definition CompactMessages ::
  "StrategicMessage list \<Rightarrow> int \<Rightarrow> int \<Rightarrow> CompactionPolicyConfig \<Rightarrow> ContextPruningConfig
     \<Rightarrow> StrategicMessage list \<times> int \<times> bool list" where
  "CompactMessages messages maxN keepN policy pruning =
     (if maxN \<le> 0 \<or> keepN \<le> 0 then (messages, 0, [])
      else if int (length messages) \<le> maxN then (messages, 0, [])
      else
        let keep0 = initial_keep (length messages) (effective_keep maxN keepN);
            keep1 = applyKeepLastAssistants messages keep0 (KeepLastAssistants pruning);
            keep = applyToolChainConsistency messages keep1;
            compacted = stripLeadingAssistantTurns (select_kept messages keep)
        in (compacted, int (length messages) - int (length compacted), keep))"

definition parseTTL :: "string \<Rightarrow> duration \<times> bool" where
  "parseTTL ttlStr =
     (if ttlStr = [] then (0, True)
      else (case ParseDuration ttlStr of None \<Rightarrow> (0, False) | Some ttl \<Rightarrow> (ttl, True)))"

definition ttl_keeps :: "instant \<Rightarrow> StrategicMessage \<Rightarrow> bool" where
  "ttl_keeps cutoff msg \<longleftrightarrow>
     CreatedAt msg = [] \<or>
     (case ParseRFC3339 (CreatedAt msg) of None \<Rightarrow> True | Some t \<Rightarrow> t > cutoff)"

definition applyTTLPruning :: "StrategicMessage list \<Rightarrow> bool list \<Rightarrow> instant \<Rightarrow> bool list" where
  "applyTTLPruning messages keep cutoff =
     fold (\<lambda>i keep. if ttl_keeps cutoff (messages ! i) then keep[i := True] else keep)
       [0..<length messages] keep"

definition markLeadingAssistantsDropped :: "StrategicMessage list \<Rightarrow> bool list \<Rightarrow> bool list" where
  "markLeadingAssistantsDropped msgs keep =
     (let tempIndices = filter ((!) keep) [0..<length keep];
          removed = takeWhile (\<lambda>i. is_assistant (msgs ! i)) tempIndices
      in fold (\<lambda>i keep. keep[i := False]) removed keep)"

definition PruneMessages ::
  "instant \<Rightarrow> StrategicMessage list \<Rightarrow> ContextPruningConfig
     \<Rightarrow> StrategicMessage list \<times> StrategicMessage list" where
  "PruneMessages now messages cfg =
     (if TTL cfg = [] \<and> KeepLastAssistants cfg \<le> 0 then (messages, [])
      else
        (case parseTTL (TTL cfg) of
           (ttl, ok) \<Rightarrow>
             if \<not> ok \<or> ttl \<le> 0 then (messages, [])
             else
               let cutoff = now - ttl;
                   keep0 = replicate (length messages) False;
                   keep1 = applyKeepLastAssistants messages keep0 (KeepLastAssistants cfg);
                   keep2 = applyTTLPruning messages keep1 cutoff;
                   keep = markLeadingAssistantsDropped messages keep2
               in (select_kept messages keep, select_kept messages (map Not keep))))"

section \<open>Monotone passes over the keep array\<close>

definition keep_le :: "bool list \<Rightarrow> bool list \<Rightarrow> bool" where
  "keep_le k k' \<longleftrightarrow> length k' = length k \<and> (\<forall>i < length k. k ! i \<longrightarrow> k' ! i)"

lemma keep_le_refl [simp]: "keep_le k k"
  by (simp add: keep_le_def)

lemma keep_le_trans: "keep_le a b \<Longrightarrow> keep_le b c \<Longrightarrow> keep_le a c"
  by (simp add: keep_le_def)

lemma keep_le_update: "keep_le k (k[i := True])"
  by (auto simp: keep_le_def nth_list_update_True)

lemma keep_leD: "keep_le k k' \<Longrightarrow> i < length k \<Longrightarrow> k ! i \<Longrightarrow> k' ! i"
  by (simp add: keep_le_def)

lemma keep_le_length: "keep_le k k' \<Longrightarrow> length k' = length k"
  by (simp add: keep_le_def)

lemma fold_keep_le: "(\<And>x s. x \<in> set xs \<Longrightarrow> keep_le s (f x s)) \<Longrightarrow> keep_le k (fold f xs k)"
proof (induction xs arbitrary: k)
  case (Cons x xs)
  have "keep_le k (f x k)" using Cons.prems by simp
  moreover have "keep_le (f x k) (fold f xs (f x k))" using Cons.IH Cons.prems by simp
  ultimately show ?case by (simp add: keep_le_trans)
qed simp

text \<open>What each step of a monotone pass establishes, and monotone steps keep, holds at the end.\<close>

lemma fold_keep_establish:
  assumes mono: "\<And>x s. x \<in> set xs \<Longrightarrow> keep_le s (f x s)"
    and inv: "\<And>x s. x \<in> set xs \<Longrightarrow> I s \<Longrightarrow> I (f x s)"
    and est: "\<And>x s. x \<in> set xs \<Longrightarrow> I s \<Longrightarrow> Q x (f x s)"
    and up: "\<And>x s t. Q x s \<Longrightarrow> keep_le s t \<Longrightarrow> Q x t"
    and init: "I k"
  shows "I (fold f xs k) \<and> (\<forall>x \<in> set xs. Q x (fold f xs k))"
  using assms(1,2,3,5)
proof (induction xs arbitrary: k)
  case (Cons x xs)
  have ih: "I (fold f xs (f x k)) \<and> (\<forall>y \<in> set xs. Q y (fold f xs (f x k)))"
    using Cons by simp
  have "Q x (f x k)" using Cons.prems by simp
  moreover have "keep_le (f x k) (fold f xs (f x k))"
    by (rule fold_keep_le) (simp add: Cons.prems)
  ultimately have "Q x (fold f xs (f x k))" by (rule up)
  with ih show ?case by simp
qed simp

lemma keep_assistants_loop_le: "keep_le keep (keep_assistants_loop messages n i found keep)"
proof (induction messages n i found keep rule: keep_assistants_loop.induct)
  case (2 messages n i found keep)
  show ?case
  proof (cases "is_assistant (messages ! i) \<and> found < n")
    case True
    let ?k = "if i > 0 \<and> Role (messages ! (i - 1)) = RoleUser then keep[i := True, i - 1 := True] else keep[i := True]"
    have "keep_le keep (keep[i := True, i - 1 := True])"
      by (rule keep_le_trans [OF keep_le_update keep_le_update])
    then have "keep_le keep ?k" by (simp add: keep_le_update)
    from keep_le_trans [OF this 2(1) [OF True refl refl]] show ?thesis using True by (simp add: Let_def)
  next
    case False
    then show ?thesis using 2(2) by auto
  qed
qed simp

lemma applyKeepLastAssistants_le: "keep_le keep (applyKeepLastAssistants messages keep n)"
  by (simp add: applyKeepLastAssistants_def keep_assistants_loop_le)

lemma backward_step_le: "keep_le keep (backward_step messages ids i keep)"
  by (auto simp: backward_step_def keep_le_update split: option.split)

lemma completeChainsBackward_le: "keep_le keep (completeChainsBackward messages keep ids)"
  unfolding completeChainsBackward_def by (rule fold_keep_le) (rule backward_step_le)

lemma keep_response_le: "keep_le keep (keep_response messages callID j keep)"
  by (simp add: keep_response_def keep_le_update)

lemma keepResponsesForCall_le: "keep_le keep (keepResponsesForCall messages keep tcs)"
  unfolding keepResponsesForCall_def
  by (rule fold_keep_le) (simp add: fold_keep_le keep_response_le)

lemma forward_step_le: "keep_le keep (forward_step messages i keep)"
  by (simp add: forward_step_def keepResponsesForCall_le)

lemma completeChainsForward_le: "keep_le keep (completeChainsForward messages keep)"
  unfolding completeChainsForward_def by (rule fold_keep_le) (rule forward_step_le)

lemma applyToolChainConsistency_le: "keep_le keep (applyToolChainConsistency messages keep)"
  unfolding applyToolChainConsistency_def
  using completeChainsBackward_le completeChainsForward_le keep_le_trans by blast

section \<open>Tool chains\<close>

definition calls_id :: "StrategicMessage \<Rightarrow> string \<Rightarrow> bool" where
  "calls_id c i \<longleftrightarrow> is_assistant c \<and> i \<noteq> [] \<and> i \<in> tc_ID ` set (ToolCalls c)"

definition answers_id :: "StrategicMessage \<Rightarrow> string \<Rightarrow> bool" where
  "answers_id r i \<longleftrightarrow> Role r = RoleTool \<and> ToolCallID r = Some i"

text \<open>Call IDs are unique across messages: no two assistant turns issue the same ID.\<close>

definition unique_call_ids :: "StrategicMessage list \<Rightarrow> bool" where
  "unique_call_ids msgs \<longleftrightarrow>
     (\<forall>a < length msgs. \<forall>b < length msgs. \<forall>i \<in> tc_ID ` set (ToolCalls (msgs ! a)).
        calls_id (msgs ! a) i \<and> calls_id (msgs ! b) i \<longrightarrow> a = b)"

lemma tool_not_assistant: "Role m = RoleTool \<Longrightarrow> \<not> is_assistant m"
  by (simp add: is_assistant_def role_defs)

lemma buildToolCallMap_inner:
  "fold (\<lambda>tc ids. if tc_ID tc \<noteq> [] then ids(tc_ID tc \<mapsto> i) else ids) tcs ids r =
     (if r \<noteq> [] \<and> r \<in> tc_ID ` set tcs then Some i else ids r)"
  by (induction tcs arbitrary: ids) auto

text \<open>The map of call IDs has exactly the IDs some assistant turn issued, each with the last such
  turn.\<close>

lemma buildToolCallMap_upto:
  assumes "n \<le> length messages"
  shows "fold (\<lambda>i ids.
             if is_assistant (messages ! i) then
               fold (\<lambda>tc ids. if tc_ID tc \<noteq> [] then ids(tc_ID tc \<mapsto> i) else ids) (ToolCalls (messages ! i)) ids
             else ids) [0..<n] Map.empty r =
         (if \<exists>i < n. calls_id (messages ! i) r
          then Some (GREATEST i. i < n \<and> calls_id (messages ! i) r) else None)"
  using assms
proof (induction n)
  case (Suc n)
  have step: "(GREATEST i. i < Suc n \<and> calls_id (messages ! i) r) = n" if "calls_id (messages ! n) r"
    by (rule Greatest_equality) (use that in auto)
  have skip: "(i < Suc n \<and> calls_id (messages ! i) r) = (i < n \<and> calls_id (messages ! i) r)"
    if "\<not> calls_id (messages ! n) r" for i
    using that by (auto simp: less_Suc_eq)
  have ex: "(\<exists>i < Suc n. calls_id (messages ! i) r) \<longleftrightarrow>
      calls_id (messages ! n) r \<or> (\<exists>i < n. calls_id (messages ! i) r)"
    by (auto simp: less_Suc_eq)
  let ?f = "\<lambda>i ids. if is_assistant (messages ! i) then
      fold (\<lambda>tc ids. if tc_ID tc \<noteq> [] then ids(tc_ID tc \<mapsto> i) else ids) (ToolCalls (messages ! i)) ids
      else ids"
  have unfold: "fold ?f [0..<Suc n] Map.empty r =
      (if calls_id (messages ! n) r then Some n else fold ?f [0..<n] Map.empty r)"
    by (simp add: buildToolCallMap_inner calls_id_def)
  show ?case
  proof (cases "calls_id (messages ! n) r")
    case True
    then show ?thesis unfolding unfold by (simp add: step ex)
  next
    case False
    then show ?thesis unfolding unfold using Suc by (simp add: skip ex)
  qed
qed simp

lemma buildToolCallMap_Some:
  assumes "buildToolCallMap messages r = Some c"
  shows "c < length messages" and "calls_id (messages ! c) r"
proof -
  let ?P = "\<lambda>i. i < length messages \<and> calls_id (messages ! i) r"
  have "\<exists>i. ?P i" and c: "c = (GREATEST i. ?P i)"
    using assms buildToolCallMap_upto [of "length messages" messages r]
    by (auto simp: buildToolCallMap_def split: if_splits)
  then obtain i where "?P i" by blast
  then have "?P (GREATEST i. ?P i)"
    by (rule GreatestI_nat [where b = "length messages"]) auto
  with c show "c < length messages" and "calls_id (messages ! c) r" by auto
qed

lemma buildToolCallMap_ex:
  "i < length messages \<Longrightarrow> calls_id (messages ! i) r \<Longrightarrow> \<exists>c. buildToolCallMap messages r = Some c"
  using buildToolCallMap_upto [of "length messages" messages r]
  by (auto simp: buildToolCallMap_def)

subsection \<open>The backward pass\<close>

text \<open>The backward pass changes entries of assistant turns only, so a tool response that is kept
  at the end was kept at the start, and its call is kept.\<close>

lemma completeChainsBackward_closed:
  fixes messages :: "StrategicMessage list"
  defines "ids \<equiv> buildToolCallMap messages"
  assumes len: "length keep = length messages"
    and i: "i < length messages" "completeChainsBackward messages keep ids ! i"
    and ans: "answers_id (messages ! i) r" and c: "ids r = Some c"
  shows "completeChainsBackward messages keep ids ! c"
proof -
  define I where "I s \<longleftrightarrow> length s = length messages \<and>
      (\<forall>j < length messages. Role (messages ! j) = RoleTool \<longrightarrow> s ! j = keep ! j)" for s
  define Q where "Q j s \<longleftrightarrow> (length s = length messages \<and>
      (\<forall>r c. keep ! j \<longrightarrow> answers_id (messages ! j) r \<longrightarrow> ids r = Some c \<longrightarrow> s ! c))" for j s
  have idx: "c < length messages \<and> is_assistant (messages ! c)" if "ids r = Some c" for r c
    using that buildToolCallMap_Some [of messages r c] by (simp add: ids_def calls_id_def)
  have *: "I (fold (backward_step messages ids) [0..<length messages] keep) \<and>
      (\<forall>j \<in> set [0..<length messages]. Q j (fold (backward_step messages ids) [0..<length messages] keep))"
  proof (rule fold_keep_establish)
    show "keep_le s (backward_step messages ids x s)" for x s by (rule backward_step_le)
    show "I (backward_step messages ids x s)" if "I s" for x s
      using that idx tool_not_assistant
      by (auto simp: I_def backward_step_def nth_list_update split: option.split)
    show "Q x (backward_step messages ids x s)" if "x \<in> set [0..<length messages]" "I s" for x s
      using that idx
      by (auto simp: I_def Q_def answers_id_def backward_step_def split: option.split)
    show "Q x t" if "Q x s" "keep_le s t" for x s t
      using that idx by (auto simp: Q_def keep_le_def)
    show "I keep" using len by (simp add: I_def)
  qed
  with i(1) have "Q i (completeChainsBackward messages keep ids)"
    and "I (completeChainsBackward messages keep ids)"
    by (simp_all add: completeChainsBackward_def)
  then show ?thesis using i ans c by (auto simp: I_def Q_def answers_id_def)
qed

subsection \<open>The forward pass\<close>

lemma keep_response_eq:
  "j < length s \<Longrightarrow> keep_response messages callID i s ! j \<longleftrightarrow> s ! j \<or> (j = i \<and> answers_id (messages ! j) callID)"
  by (cases "i = j") (auto simp: keep_response_def answers_id_def)

lemma fold_keep_response_eq:
  assumes "length s = length messages" and "j < length messages"
  shows "fold (keep_response messages callID) [0..<n] s ! j \<longleftrightarrow>
      s ! j \<or> (j < n \<and> answers_id (messages ! j) callID)"
  using assms
proof (induction n)
  case (Suc n)
  have "length (fold (keep_response messages callID) [0..<n] s) = length s"
    using fold_keep_le [of "[0..<n]" "keep_response messages callID" s]
    by (simp add: keep_response_le keep_le_length)
  with Suc show ?case
    by (auto simp: keep_response_eq less_Suc_eq)
qed simp

lemma keepResponsesForCall_eq:
  assumes "length s = length messages" and "j < length messages"
  shows "keepResponsesForCall messages s tcs ! j \<longleftrightarrow>
      s ! j \<or> (\<exists>tc \<in> set tcs. tc_ID tc \<noteq> [] \<and> answers_id (messages ! j) (tc_ID tc))"
  using assms
proof (induction tcs arbitrary: s)
  case Nil
  then show ?case by (simp add: keepResponsesForCall_def)
next
  case (Cons tc tcs)
  let ?s = "if tc_ID tc = [] then s else fold (keep_response messages (tc_ID tc)) [0..<length messages] s"
  have len: "length ?s = length messages"
    using Cons.prems(1) fold_keep_le [of "[0..<length messages]" "keep_response messages (tc_ID tc)" s]
    by (simp add: keep_response_le keep_le_length)
  have "keepResponsesForCall messages s (tc # tcs) = keepResponsesForCall messages ?s tcs"
    by (simp add: keepResponsesForCall_def)
  also have "\<dots> ! j \<longleftrightarrow> ?s ! j \<or> (\<exists>tc \<in> set tcs. tc_ID tc \<noteq> [] \<and> answers_id (messages ! j) (tc_ID tc))"
    using Cons.IH [OF len Cons.prems(2)] .
  finally show ?case using Cons.prems
    by (auto simp: fold_keep_response_eq)
qed

lemma forward_step_assistant:
  assumes "length s = length messages" "j < length messages" "is_assistant (messages ! j)"
  shows "forward_step messages i s ! j = s ! j"
  using assms tool_not_assistant
  by (auto simp: forward_step_def keepResponsesForCall_eq answers_id_def)

text \<open>What the forward pass keeps: what was kept before, and the responses to the calls of the
  assistant turns that were kept before.\<close>

lemma completeChainsForward_eq:
  assumes len: "length keep = length messages" and j: "j < length messages"
  shows "completeChainsForward messages keep ! j \<longleftrightarrow>
     keep ! j \<or> (\<exists>i < length messages. keep ! i \<and> is_assistant (messages ! i) \<and>
        (\<exists>tc \<in> set (ToolCalls (messages ! i)). tc_ID tc \<noteq> [] \<and> answers_id (messages ! j) (tc_ID tc)))"
proof -
  have "length (fold (forward_step messages) [0..<n] keep) = length messages \<and>
     (\<forall>a < length messages. is_assistant (messages ! a) \<longrightarrow>
        fold (forward_step messages) [0..<n] keep ! a = keep ! a) \<and>
     (fold (forward_step messages) [0..<n] keep ! j \<longleftrightarrow>
      keep ! j \<or> (\<exists>i < n. keep ! i \<and> is_assistant (messages ! i) \<and>
        (\<exists>tc \<in> set (ToolCalls (messages ! i)). tc_ID tc \<noteq> [] \<and> answers_id (messages ! j) (tc_ID tc))))"
    if "n \<le> length messages" for n
    using that
  proof (induction n)
    case (Suc n)
    let ?s = "fold (forward_step messages) [0..<n] keep"
    have ih: "length ?s = length messages"
      "\<forall>a < length messages. is_assistant (messages ! a) \<longrightarrow> ?s ! a = keep ! a"
      "?s ! j \<longleftrightarrow> keep ! j \<or> (\<exists>i < n. keep ! i \<and> is_assistant (messages ! i) \<and>
        (\<exists>tc \<in> set (ToolCalls (messages ! i)). tc_ID tc \<noteq> [] \<and> answers_id (messages ! j) (tc_ID tc)))"
      using Suc by simp_all
    have "length (forward_step messages n ?s) = length messages"
      using ih(1) keep_le_length [OF forward_step_le] by metis
    moreover have "\<forall>a < length messages. is_assistant (messages ! a) \<longrightarrow>
        forward_step messages n ?s ! a = keep ! a"
      using ih(1,2) forward_step_assistant by simp
    moreover have "forward_step messages n ?s ! j \<longleftrightarrow> ?s ! j \<or>
        (keep ! n \<and> is_assistant (messages ! n) \<and>
         (\<exists>tc \<in> set (ToolCalls (messages ! n)). tc_ID tc \<noteq> [] \<and> answers_id (messages ! j) (tc_ID tc)))"
      using ih(1,2) j Suc.prems by (auto simp: forward_step_def keepResponsesForCall_eq)
    ultimately show ?case using ih(3) by (auto simp: less_Suc_eq)
  qed (simp add: len)
  from this [of "length messages"] show ?thesis by (simp add: completeChainsForward_def)
qed

lemma completeChainsForward_assistant:
  assumes "length keep = length messages" "j < length messages" "is_assistant (messages ! j)"
  shows "completeChainsForward messages keep ! j = keep ! j"
  using assms tool_not_assistant by (auto simp: completeChainsForward_eq answers_id_def)

section \<open>Selecting the kept messages\<close>

lemma set_select_kept:
  assumes "length keep = length xs"
  shows "x \<in> set (select_kept xs keep) \<longleftrightarrow> (\<exists>i < length xs. keep ! i \<and> xs ! i = x)"
  using assms by (force simp: select_kept_def in_set_zip image_iff)

lemma select_kept_subseq: "subseq (select_kept xs keep) xs"
proof (induction xs arbitrary: keep)
  case (Cons x xs)
  show ?case
  proof (cases keep)
    case (Cons k ks)
    then show ?thesis using Cons.IH [of ks] by (auto simp: select_kept_def)
  qed (simp add: select_kept_def)
qed (simp add: select_kept_def)

lemma select_kept_append:
  "length ks = length xs \<Longrightarrow> select_kept (xs @ ys) (ks @ ls) = select_kept xs ks @ select_kept ys ls"
  by (simp add: select_kept_def)

lemma select_kept_all: "length ks = length xs \<Longrightarrow> list_all (\<lambda>b. b) ks \<Longrightarrow> select_kept xs ks = xs"
  by (induction xs ks rule: list_induct2') (auto simp: select_kept_def)

text \<open>When every entry from position \<open>p\<close> on is kept, the selection ends with that whole part.\<close>

lemma select_kept_suffix:
  assumes len: "length keep = length xs" and kept: "\<And>i. p \<le> i \<Longrightarrow> i < length xs \<Longrightarrow> keep ! i"
  shows "select_kept xs keep = select_kept (take p xs) (take p keep) @ drop p xs"
proof -
  have "select_kept xs keep = select_kept (take p xs @ drop p xs) (take p keep @ drop p keep)"
    by simp
  also have "\<dots> = select_kept (take p xs) (take p keep) @ select_kept (drop p xs) (drop p keep)"
    by (rule select_kept_append) (simp add: len)
  also have "select_kept (drop p xs) (drop p keep) = drop p xs"
    by (rule select_kept_all) (auto simp: len list_all_length kept)
  finally show ?thesis .
qed

lemma stripLeadingAssistantTurns_cases:
  obtains "stripLeadingAssistantTurns l = l"
  | m where "l = m # stripLeadingAssistantTurns l" "is_assistant m" "\<not> hasKeptToolCalls l"
  by (cases l; cases "stripLeadingAssistantTurns l = l")
     (auto simp: stripLeadingAssistantTurns_def split: if_splits)

lemma strip_subseq: "subseq (stripLeadingAssistantTurns l) l"
  by (cases l) (auto simp: stripLeadingAssistantTurns_def)

lemma strip_set: "set (stripLeadingAssistantTurns l) \<subseteq> set l"
  by (cases l) (auto simp: stripLeadingAssistantTurns_def)

lemma strip_keeps_tool:
  "r \<in> set l \<Longrightarrow> Role r = RoleTool \<Longrightarrow> r \<in> set (stripLeadingAssistantTurns l)"
  using tool_not_assistant by (cases l) (auto simp: stripLeadingAssistantTurns_def)

lemma strip_keeps_call:
  assumes "c \<in> set l" "calls_id c i" "r \<in> set l" "answers_id r i"
  shows "c \<in> set (stripLeadingAssistantTurns l)"
proof (cases l rule: stripLeadingAssistantTurns_cases)
  case 1
  then show ?thesis using assms(1) by simp
next
  case (2 m)
  show ?thesis
  proof (cases "c = m")
    case True
    have "r \<in> set (stripLeadingAssistantTurns l)"
      using assms(3,4) by (simp add: strip_keeps_tool answers_id_def)
    then have "hasKeptToolCalls (m # stripLeadingAssistantTurns l)"
      using True assms(2,4)
      by (force simp: hasKeptToolCalls_def list_ex_iff calls_id_def answers_id_def)
    with 2(1,3) show ?thesis by simp
  next
    case False
    then show ?thesis using assms(1) 2(1) by (metis set_ConsD)
  qed
qed

section \<open>Properties of compaction\<close>

lemma effective_keep_bounds:
  assumes "maxN > 0" "keepN > 0" "int n > maxN"
  shows "1 \<le> effective_keep maxN keepN" and "effective_keep maxN keepN < n"
  using assms by (auto simp: effective_keep_def Let_def)

lemma initial_keep_nth: "i < n \<Longrightarrow> initial_keep n k ! i = (n - k \<le> i)"
  by (simp add: initial_keep_def)

text \<open>The keep array of a triggered compaction: its length, what it keeps of the newest messages,
  and how it relates to the output.\<close>

definition compaction_keep :: "StrategicMessage list \<Rightarrow> int \<Rightarrow> int \<Rightarrow> ContextPruningConfig \<Rightarrow> bool list" where
  "compaction_keep messages maxN keepN pruning =
     applyToolChainConsistency messages
       (applyKeepLastAssistants messages (initial_keep (length messages) (effective_keep maxN keepN))
          (KeepLastAssistants pruning))"

lemma compaction_keep_length: "length (compaction_keep messages maxN keepN pruning) = length messages"
  using keep_le_length [OF applyToolChainConsistency_le] keep_le_length [OF applyKeepLastAssistants_le]
  by (simp add: compaction_keep_def initial_keep_def)

lemma compaction_keep_recent:
  assumes "i < length messages" "length messages - effective_keep maxN keepN \<le> i"
  shows "compaction_keep messages maxN keepN pruning ! i"
proof -
  let ?k = "initial_keep (length messages) (effective_keep maxN keepN)"
  have "keep_le ?k (compaction_keep messages maxN keepN pruning)"
    unfolding compaction_keep_def
    using applyKeepLastAssistants_le applyToolChainConsistency_le keep_le_trans by blast
  from keep_leD [OF this, of i] assms show ?thesis by (simp add: initial_keep_def)
qed

lemma CompactMessages_cases:
  obtains "CompactMessages messages maxN keepN policy pruning = (messages, 0, [])"
  | "maxN > 0" "keepN > 0" "int (length messages) > maxN"
    "fst (CompactMessages messages maxN keepN policy pruning) =
       stripLeadingAssistantTurns (select_kept messages (compaction_keep messages maxN keepN pruning))"
  by (cases "maxN \<le> 0 \<or> keepN \<le> 0 \<or> int (length messages) \<le> maxN")
     (auto simp: CompactMessages_def Let_def compaction_keep_def)

lemma compaction_keep_backward:
  assumes "unique_call_ids messages"
    and j: "j < length messages" "compaction_keep messages maxN keepN pruning ! j"
    and ans: "answers_id (messages ! j) i" and c: "c < length messages" "calls_id (messages ! c) i"
  shows "compaction_keep messages maxN keepN pruning ! c"
proof -
  define k1 where "k1 = applyKeepLastAssistants messages
      (initial_keep (length messages) (effective_keep maxN keepN)) (KeepLastAssistants pruning)"
  define kb where "kb = completeChainsBackward messages k1 (buildToolCallMap messages)"
  have len1: "length k1 = length messages"
    using keep_le_length [OF applyKeepLastAssistants_le] by (simp add: k1_def initial_keep_def)
  then have lenb: "length kb = length messages"
    using keep_le_length [OF completeChainsBackward_le] by (simp add: kb_def)
  have eq: "compaction_keep messages maxN keepN pruning = completeChainsForward messages kb"
    by (simp add: compaction_keep_def applyToolChainConsistency_def k1_def kb_def)
  obtain c' where c': "buildToolCallMap messages i = Some c'"
    using buildToolCallMap_ex [OF c] by blast
  then have "c' < length messages" "calls_id (messages ! c') i"
    using buildToolCallMap_Some by blast+
  with assms(1) c have "c' = c" by (auto simp: unique_call_ids_def calls_id_def)
  have asst: "is_assistant (messages ! c)" using c(2) by (simp add: calls_id_def)
  consider "kb ! j"
    | a tc where "a < length messages" "kb ! a" "is_assistant (messages ! a)"
      "tc \<in> set (ToolCalls (messages ! a))" "tc_ID tc \<noteq> []" "answers_id (messages ! j) (tc_ID tc)"
    using j completeChainsForward_eq [OF lenb j(1)] by (auto simp: eq)
  then have "kb ! c"
  proof cases
    case 1
    then show ?thesis
      using completeChainsBackward_closed [OF len1 j(1) _ ans c'] \<open>c' = c\<close> by (simp add: kb_def)
  next
    case 2
    then have "tc_ID tc = i" using ans by (simp add: answers_id_def)
    then have "calls_id (messages ! a) i" using 2 by (auto simp: calls_id_def)
    with assms(1) 2(1) c have "a = c" by (auto simp: unique_call_ids_def calls_id_def)
    with 2 show ?thesis by simp
  qed
  then show ?thesis using lenb c(1) asst by (simp add: eq completeChainsForward_eq)
qed

lemma compaction_keep_forward:
  assumes c: "c < length messages" "compaction_keep messages maxN keepN pruning ! c" "calls_id (messages ! c) i"
    and j: "j < length messages" "answers_id (messages ! j) i"
  shows "compaction_keep messages maxN keepN pruning ! j"
proof -
  define kb where "kb = completeChainsBackward messages (applyKeepLastAssistants messages
      (initial_keep (length messages) (effective_keep maxN keepN)) (KeepLastAssistants pruning))
      (buildToolCallMap messages)"
  have eq: "compaction_keep messages maxN keepN pruning = completeChainsForward messages kb"
    by (simp add: compaction_keep_def applyToolChainConsistency_def kb_def)
  then have lenb: "length kb = length messages"
    using compaction_keep_length keep_le_length [OF completeChainsForward_le] by metis
  have "kb ! c"
    using c completeChainsForward_assistant [OF lenb c(1)] by (simp add: eq calls_id_def)
  then show ?thesis
    using c j by (auto simp: eq completeChainsForward_eq lenb calls_id_def)
qed

text \<open>
  \<^bold>\<open>C36.\<close> Compaction does not split a tool chain that is linked by a call ID: when the calls carry non-empty IDs
  and no two assistant turns issue the same one, the assistant turn that issued a call and a tool
  message that answers its ID are both in the compacted history or both dropped. The condition
  matters: calls of the Gemini client carry no IDs, and \<open>chains_without_ids_split\<close> shows such a chain cut in two.
\<close>

theorem CompactMessages_tool_chains:
  assumes "unique_call_ids messages"
    and c: "c \<in> set messages" "calls_id c i" and r: "r \<in> set messages" "answers_id r i"
  shows "c \<in> set (fst (CompactMessages messages maxN keepN policy pruning)) \<longleftrightarrow>
         r \<in> set (fst (CompactMessages messages maxN keepN policy pruning))"
proof (rule CompactMessages_cases [of messages maxN keepN policy pruning])
  assume "CompactMessages messages maxN keepN policy pruning = (messages, 0, [])"
  then show ?thesis using c r by simp
next
  let ?k = "compaction_keep messages maxN keepN pruning"
  let ?sel = "select_kept messages ?k"
  assume out: "fst (CompactMessages messages maxN keepN policy pruning) = stripLeadingAssistantTurns ?sel"
  have sel: "x \<in> set ?sel \<longleftrightarrow> (\<exists>a < length messages. ?k ! a \<and> messages ! a = x)" for x
    by (rule set_select_kept) (rule compaction_keep_length)
  have mono: "x \<in> set (stripLeadingAssistantTurns ?sel) \<Longrightarrow> x \<in> set ?sel" for x
    using strip_set by blast
  have fw: "r \<in> set ?sel" if "c \<in> set ?sel"
    using that c r unfolding sel by (metis compaction_keep_forward in_set_conv_nth)
  have bw: "c \<in> set ?sel" if "r \<in> set ?sel"
    using that c r unfolding sel by (metis compaction_keep_backward [OF assms(1)] in_set_conv_nth)
  show ?thesis
    unfolding out using mono fw bw strip_keeps_tool strip_keeps_call c(2) r(2)
    by (metis answers_id_def)
qed

text \<open>A conversation with one tool chain in its middle; the chain reaches over the cut-off.\<close>

definition sample_chain :: "StrategicMessage list" where
  "sample_chain =
     [text_message RoleUser ''u1'' ''2026-03-01T10:00:00Z'',
      text_message RoleAssistant ''a1'' ''2026-03-01T10:00:01Z'',
      text_message RoleUser ''u2'' ''2026-03-01T11:00:00Z'',
      (text_message RoleAssistant ''call'' ''2026-03-01T11:00:01Z'')
        \<lparr>ToolCalls := [\<lparr>tc_ID = ''c1'', tc_Name = ''ls'', tc_Args = None, tc_ThoughtSignature = []\<rparr>]\<rparr>,
      (text_message RoleTool ''out'' ''2026-03-01T11:00:02Z'')\<lparr>ToolCallID := Some ''c1''\<rparr>,
      text_message RoleAssistant ''done'' ''2026-03-01T11:00:03Z'']"

definition sample_policy :: CompactionPolicyConfig where
  "sample_policy =
     \<lparr>Strategy = [], MemoryFlush = \<lparr>mf_Prompt = [], mf_TTL = [], mf_GlobalTTL = [], mf_GlobalNamespacePatterns = []\<rparr>,
      Summarization = \<lparr>sum_Enabled = False, sum_Model = [], sum_Threshold = 0\<rparr>\<rparr>"

definition sample_pruning :: "string \<Rightarrow> int \<Rightarrow> ContextPruningConfig" where
  "sample_pruning ttl n = \<lparr>TTL = ttl, KeepLastAssistants = n\<rparr>"

lemma sample_chain_facts:
  "unique_call_ids sample_chain"
  "sample_chain ! 3 \<in> set sample_chain" "calls_id (sample_chain ! 3) ''c1''"
  "sample_chain ! 4 \<in> set sample_chain" "answers_id (sample_chain ! 4) ''c1''"
  by (simp_all add: sample_chain_def unique_call_ids_def calls_id_def answers_id_def is_assistant_def
    role_defs text_message_def empty_message_def less_Suc_eq)

lemma sample_chain_compacted:
  "map CreatedAt (fst (CompactMessages sample_chain 4 2 sample_policy (sample_pruning [] 0))) =
   map CreatedAt (drop 3 sample_chain)"
  by code_simp

lemma CompactMessages_tool_chains_witness:
  "sample_chain ! 3 \<in> set (fst (CompactMessages sample_chain 4 2 sample_policy (sample_pruning [] 0))) \<longleftrightarrow>
   sample_chain ! 4 \<in> set (fst (CompactMessages sample_chain 4 2 sample_policy (sample_pruning [] 0)))"
  by (rule CompactMessages_tool_chains [OF sample_chain_facts])

text \<open>The same conversation without the call ID: the answer is kept and the call that it answers is dropped.\<close>

definition sample_unlinked :: "StrategicMessage list" where
  "sample_unlinked = map (\<lambda>m. m\<lparr>ToolCalls := map (\<lambda>t. t\<lparr>tc_ID := []\<rparr>) (ToolCalls m), ToolCallID := None\<rparr>) sample_chain"

lemma chains_without_ids_split:
  "map CreatedAt (fst (CompactMessages sample_unlinked 4 2 sample_policy (sample_pruning [] 0))) =
     map CreatedAt (drop 4 sample_unlinked)"
  "Role (sample_unlinked ! 4) = RoleTool"
  "map tc_Name (ToolCalls (sample_unlinked ! 3)) = [''ls'']"
  by code_simp+

text \<open>
  What compaction keeps when it is triggered: the output is a subsequence of the history in
  its order, the returned count is the number of messages dropped, and the newest messages survive,
  all \<open>effective_keep\<close> of them, but for the first of those when it is an assistant turn.
\<close>

theorem CompactMessages_recent:
  assumes "maxN > 0" "keepN > 0" "int (length messages) > maxN"
    and out: "CompactMessages messages maxN keepN policy pruning = (compacted, dropped, keep)"
  shows "subseq compacted messages \<and>
    dropped = int (length messages) - int (length compacted) \<and>
    1 \<le> effective_keep maxN keepN \<and> effective_keep maxN keepN < length messages \<and>
    suffix (drop (Suc (length messages - effective_keep maxN keepN)) messages) compacted \<and>
    (\<not> is_assistant (messages ! (length messages - effective_keep maxN keepN)) \<longrightarrow>
     suffix (drop (length messages - effective_keep maxN keepN) messages) compacted)"
proof -
  let ?p = "length messages - effective_keep maxN keepN"
  let ?sel = "select_kept messages keep"
  have keep: "keep = compaction_keep messages maxN keepN pruning"
    and c: "compacted = stripLeadingAssistantTurns ?sel"
    and d: "dropped = int (length messages) - int (length compacted)"
    using assms by (auto simp: CompactMessages_def Let_def compaction_keep_def)
  have b: "1 \<le> effective_keep maxN keepN" "effective_keep maxN keepN < length messages"
    using effective_keep_bounds [OF assms(1-3)] by blast+
  have sub: "subseq compacted messages"
    using c strip_subseq select_kept_subseq subseq_order.trans by metis
  have sel: "?sel = select_kept (take ?p messages) (take ?p keep) @ drop ?p messages"
    by (rule select_kept_suffix) (simp_all add: keep compaction_keep_length compaction_keep_recent)
  have hd: "drop ?p messages = messages ! ?p # drop (Suc ?p) messages"
    using b by (intro Cons_nth_drop_Suc [symmetric]) simp
  have "suffix (drop (Suc ?p) messages) compacted \<and>
      (\<not> is_assistant (messages ! ?p) \<longrightarrow> suffix (drop ?p messages) compacted)"
  proof (cases ?sel rule: stripLeadingAssistantTurns_cases)
    case 1
    then show ?thesis using c sel hd by (auto simp: suffix_def)
  next
    case (2 m)
    then show ?thesis using c sel hd
      by (cases "select_kept (take ?p messages) (take ?p keep)") (auto simp: suffix_def)
  qed
  with sub d b show ?thesis by blast
qed

lemma CompactMessages_recent_witness:
  "suffix (drop 4 sample_chain) (fst (CompactMessages sample_chain 4 3 sample_policy (sample_pruning [] 0)))"
  using CompactMessages_recent [of 4 3 sample_chain sample_policy "sample_pruning [] 0"]
  by (cases "CompactMessages sample_chain 4 3 sample_policy (sample_pruning [] 0)")
     (simp add: sample_chain_def effective_keep_def)

text \<open>
  Compaction does not make the history start with a user turn: two adjacent assistant turns at
  the front of the kept part lose only the first, so the output may still start with an assistant.
\<close>

theorem CompactMessages_may_start_with_assistant:
  "\<exists>messages. \<exists>a rest. Role (hd messages) = RoleUser \<and>
     fst (CompactMessages messages 4 2 sample_policy (sample_pruning [] 0)) = a # rest \<and>
     is_assistant a \<and> \<not> hasKeptToolCalls (a # rest)"
proof -
  let ?m = "\<lambda>r s. text_message r s []"
  let ?ms = "[?m RoleUser ''u'', ?m RoleAssistant ''a1'', ?m RoleUser ''v'',
              ?m RoleAssistant ''a2'', ?m RoleAssistant ''a3'']"
  have "fst (CompactMessages ?ms 4 2 sample_policy (sample_pruning [] 0)) = [?m RoleAssistant ''a3'']"
    by code_simp
  moreover have "is_assistant (?m RoleAssistant ''a3'')" "\<not> hasKeptToolCalls [?m RoleAssistant ''a3'']"
    "Role (hd ?ms) = RoleUser" by code_simp+
  ultimately show ?thesis by blast
qed

section \<open>Properties of pruning\<close>

text \<open>Which messages the rule of the last assistants protects, without the loop: an assistant turn
  with fewer than \<open>n\<close> assistant turns after it, and the user turn just before such a turn.\<close>

definition assistants_after :: "StrategicMessage list \<Rightarrow> nat \<Rightarrow> int" where
  "assistants_after ms i = int (length (filter is_assistant (drop (Suc i) ms)))"

definition last_assistant :: "StrategicMessage list \<Rightarrow> int \<Rightarrow> nat \<Rightarrow> bool" where
  "last_assistant ms n i \<longleftrightarrow> i < length ms \<and> is_assistant (ms ! i) \<and> assistants_after ms i < n"

definition protected_turn :: "StrategicMessage list \<Rightarrow> int \<Rightarrow> nat \<Rightarrow> bool" where
  "protected_turn ms n i \<longleftrightarrow>
     last_assistant ms n i \<or> (Role (ms ! i) = RoleUser \<and> last_assistant ms n (Suc i))"

lemma assistants_after_step:
  "i < length ms \<Longrightarrow>
     int (length (filter is_assistant (drop i ms))) =
     assistants_after ms i + (if is_assistant (ms ! i) then 1 else 0)"
  by (simp add: assistants_after_def Cons_nth_drop_Suc [symmetric])

lemma keep_assistants_loop_eq:
  assumes "i \<le> length ms" "length keep = length ms" "j < length ms"
    and "found = min n (int (length (filter is_assistant (drop i ms))))"
  shows "keep_assistants_loop ms n i found keep ! j \<longleftrightarrow>
     keep ! j \<or> (j < i \<and> last_assistant ms n j) \<or>
     (Suc j < i \<and> Role (ms ! j) = RoleUser \<and> last_assistant ms n (Suc j))"
  using assms
proof (induction ms n i found keep rule: keep_assistants_loop.induct)
  case (2 ms n i found keep)
  have i: "i < length ms" using 2(3) by simp
  have found: "found = min n (assistants_after ms i)" using 2(6) by (simp add: assistants_after_def)
  have la: "last_assistant ms n i \<longleftrightarrow> is_assistant (ms ! i) \<and> found < n"
    using i by (auto simp: last_assistant_def found)
  show ?case
  proof (cases "is_assistant (ms ! i) \<and> found < n")
    case True
    let ?k = "if i > 0 \<and> Role (ms ! (i - 1)) = RoleUser then keep[i := True, i - 1 := True] else keep[i := True]"
    have f: "found + 1 = min n (int (length (filter is_assistant (drop i ms))))"
      using assistants_after_step [OF i] True found by auto
    have "keep_assistants_loop ms n (Suc i) found keep = keep_assistants_loop ms n i (found + 1) ?k"
      using True by (simp add: Let_def)
    also have "\<dots> ! j \<longleftrightarrow> ?k ! j \<or> (j < i \<and> last_assistant ms n j) \<or>
        (Suc j < i \<and> Role (ms ! j) = RoleUser \<and> last_assistant ms n (Suc j))"
      using 2(1) [OF True refl refl] 2(4,5) f i by simp
    also have "?k ! j \<longleftrightarrow> keep ! j \<or> j = i \<or> (Suc j = i \<and> Role (ms ! j) = RoleUser)"
      using 2(4,5) i by (auto simp: nth_list_update)
    finally show ?thesis using la True by (auto simp: less_Suc_eq)
  next
    case False
    have f: "found = min n (int (length (filter is_assistant (drop i ms))))"
      using assistants_after_step [OF i] False found by (auto split: if_splits)
    have "keep_assistants_loop ms n (Suc i) found keep = keep_assistants_loop ms n i found keep"
      using False by auto
    then show ?thesis using 2(2) [OF False] 2(4,5) f i la False by (auto simp: less_Suc_eq)
  qed
qed simp

lemma applyKeepLastAssistants_eq:
  assumes "length keep = length ms" "j < length ms"
  shows "applyKeepLastAssistants ms keep n ! j \<longleftrightarrow> keep ! j \<or> protected_turn ms n j"
proof (cases "n \<le> 0")
  case True
  then have "\<not> last_assistant ms n i" for i by (auto simp: last_assistant_def assistants_after_def)
  then show ?thesis using True by (simp add: applyKeepLastAssistants_def protected_turn_def)
next
  case False
  then show ?thesis
    using keep_assistants_loop_eq [of "length ms" ms keep j 0 n] assms
    by (auto simp: applyKeepLastAssistants_def protected_turn_def last_assistant_def)
qed

text \<open>The front of a strictly increasing index list.\<close>

lemma set_takeWhile_sorted:
  "sorted_wrt (<) (xs :: nat list) \<Longrightarrow>
     x \<in> set (takeWhile P xs) \<longleftrightarrow> x \<in> set xs \<and> (\<forall>y \<in> set xs. y \<le> x \<longrightarrow> P y)"
  by (induction xs) (auto dest: order.strict_trans2)

lemma fold_drop_eq: "i < length keep \<Longrightarrow> fold (\<lambda>i keep. keep[i := False]) is keep ! i \<longleftrightarrow> keep ! i \<and> i \<notin> set is"
  by (induction "is" arbitrary: keep) (auto simp: nth_list_update_in)

lemma length_fold_drop [simp]: "length (fold (\<lambda>i keep. keep[i := False]) is keep) = length keep"
  by (induction "is" arbitrary: keep) auto

lemma markLeadingAssistantsDropped_eq:
  assumes "i < length keep"
  shows "markLeadingAssistantsDropped msgs keep ! i \<longleftrightarrow>
     keep ! i \<and> (\<exists>j \<le> i. keep ! j \<and> \<not> is_assistant (msgs ! j))"
proof -
  let ?ix = "filter ((!) keep) [0..<length keep]"
  have "sorted_wrt (<) ?ix" by (rule sorted_wrt_filter) simp
  then show ?thesis
    using assms
    by (auto simp: markLeadingAssistantsDropped_def Let_def fold_drop_eq set_takeWhile_sorted
      intro: order.strict_trans1)
qed

lemma applyTTLPruning_upto:
  assumes "length keep = length ms" "j < length ms"
  shows "length (fold (\<lambda>i keep. if ttl_keeps cutoff (ms ! i) then keep[i := True] else keep) [0..<n] keep) = length ms \<and>
    (fold (\<lambda>i keep. if ttl_keeps cutoff (ms ! i) then keep[i := True] else keep) [0..<n] keep ! j \<longleftrightarrow>
     keep ! j \<or> (j < n \<and> ttl_keeps cutoff (ms ! j)))"
  using assms by (induction n) (auto simp: nth_list_update_in less_Suc_eq)

lemmas applyTTLPruning_facts =
  applyTTLPruning_upto [where n = "length ms" and ms = ms for ms, folded applyTTLPruning_def]

lemma select_kept_filter:
  "length keep = length xs \<Longrightarrow> select_kept xs keep = map ((!) xs) (filter ((!) keep) [0..<length xs])"
proof (induction xs arbitrary: keep rule: rev_induct)
  case (snoc x xs)
  then obtain ks k where keep: "keep = ks @ [k]" "length ks = length xs"
    by (cases keep rule: rev_cases) auto
  have "filter ((!) (ks @ [k])) [0..<length xs] = filter ((!) ks) [0..<length xs]"
    using keep(2) by (intro filter_cong) (auto simp: nth_append)
  moreover have "map ((!) (xs @ [x])) (filter ((!) ks) [0..<length xs]) =
      map ((!) xs) (filter ((!) ks) [0..<length xs])"
    by (auto simp: nth_append)
  moreover have "(ks @ [k]) ! length xs = k"
    using keep(2) by (metis nth_append_length)
  moreover have "select_kept [x] [k] = (if k then [x] else [])"
    by (simp add: select_kept_def)
  ultimately show ?case
    using snoc.IH [OF keep(2)] keep by (simp add: select_kept_append)
qed (simp add: select_kept_def)

text \<open>The declarative rule of pruning: a message survives when a rule keeps it and no run of
  assistant turns at the front of the survivors reaches it.\<close>

definition prune_rule :: "instant \<Rightarrow> StrategicMessage list \<Rightarrow> int \<Rightarrow> nat \<Rightarrow> bool" where
  "prune_rule cutoff ms n i \<longleftrightarrow> ttl_keeps cutoff (ms ! i) \<or> protected_turn ms n i"

definition prune_survives :: "instant \<Rightarrow> StrategicMessage list \<Rightarrow> int \<Rightarrow> nat \<Rightarrow> bool" where
  "prune_survives cutoff ms n i \<longleftrightarrow>
     prune_rule cutoff ms n i \<and> (\<exists>j \<le> i. prune_rule cutoff ms n j \<and> \<not> is_assistant (ms ! j))"

lemma prune_keep_eq:
  fixes ms cutoff n
  defines "keep \<equiv> markLeadingAssistantsDropped ms
      (applyTTLPruning ms (applyKeepLastAssistants ms (replicate (length ms) False) n) cutoff)"
  shows "length keep = length ms" and "i < length ms \<Longrightarrow> keep ! i = prune_survives cutoff ms n i"
proof -
  define k1 where "k1 = applyKeepLastAssistants ms (replicate (length ms) False) n"
  have l1: "length k1 = length ms"
    using keep_le_length [OF applyKeepLastAssistants_le] by (simp add: k1_def)
  have k1: "j < length ms \<Longrightarrow> k1 ! j = protected_turn ms n j" for j
    by (simp add: k1_def applyKeepLastAssistants_eq)
  define k2 where "k2 = applyTTLPruning ms k1 cutoff"
  have l2: "length k2 = length ms"
  proof (cases ms)
    case Nil
    then show ?thesis using l1 by (simp add: k2_def applyTTLPruning_def)
  next
    case Cons
    then show ?thesis using applyTTLPruning_facts [OF l1, of 0] by (simp add: k2_def)
  qed
  have k2: "j < length ms \<Longrightarrow> k2 ! j = prune_rule cutoff ms n j" for j
    using applyTTLPruning_facts [OF l1, of j] k1 by (auto simp: k2_def prune_rule_def)
  have keep: "keep = markLeadingAssistantsDropped ms k2" by (simp add: keep_def k2_def k1_def)
  show "length keep = length ms"
    using l2 by (simp add: keep markLeadingAssistantsDropped_def Let_def)
  show "keep ! i = prune_survives cutoff ms n i" if "i < length ms"
    using that k2 l2 by (auto simp: keep markLeadingAssistantsDropped_eq prune_survives_def)
qed

lemma prune_front:
  assumes "filter (prune_survives cutoff ms n) [0..<length ms] \<noteq> []"
  shows "\<not> is_assistant (ms ! hd (filter (prune_survives cutoff ms n) [0..<length ms]))"
proof -
  let ?S = "prune_survives cutoff ms n"
  obtain i js where f: "filter ?S [0..<length ms] = i # js" using assms by (cases "filter ?S [0..<length ms]") auto
  have sorted: "sorted_wrt (<) (i # js)"
    unfolding f [symmetric] by (rule sorted_wrt_filter) simp
  have "i \<in> set (filter ?S [0..<length ms])" using f by simp
  then have i: "i < length ms" "?S i" by auto
  then obtain j where j: "j \<le> i" "prune_rule cutoff ms n j" "\<not> is_assistant (ms ! j)"
    by (auto simp: prune_survives_def)
  then have "?S j" by (auto simp: prune_survives_def)
  then have "j \<in> set (i # js)" using j(1) i(1) unfolding f [symmetric] by simp
  with sorted j(1) have "j = i" by auto
  with f j(3) show ?thesis by simp
qed

lemma PruneMessages_rule:
  assumes "ParseDuration (TTL cfg) = Some ttl" "ttl > 0" "TTL cfg \<noteq> []"
  shows "PruneMessages now ms cfg =
    (let survives = prune_survives (now - ttl) ms (KeepLastAssistants cfg)
     in (map ((!) ms) (filter survives [0..<length ms]),
         map ((!) ms) (filter (\<lambda>i. \<not> survives i) [0..<length ms])))"
proof -
  let ?S = "prune_survives (now - ttl) ms (KeepLastAssistants cfg)"
  define keep where "keep = markLeadingAssistantsDropped ms
      (applyTTLPruning ms (applyKeepLastAssistants ms (replicate (length ms) False) (KeepLastAssistants cfg)) (now - ttl))"
  note k = prune_keep_eq [where ms = ms and cutoff = "now - ttl" and n = "KeepLastAssistants cfg", folded keep_def]
  have "PruneMessages now ms cfg = (select_kept ms keep, select_kept ms (map Not keep))"
    using assms by (simp add: PruneMessages_def parseTTL_def keep_def Let_def)
  moreover have "filter ((!) keep) [0..<length ms] = filter ?S [0..<length ms]"
    by (rule filter_cong) (simp_all add: k)
  moreover have "filter ((!) (map Not keep)) [0..<length ms] = filter (\<lambda>i. \<not> ?S i) [0..<length ms]"
    by (rule filter_cong) (simp_all add: k)
  ultimately show ?thesis by (simp add: k select_kept_filter Let_def)
qed

text \<open>
  \<^bold>\<open>C39.\<close> Pruning with a valid positive TTL computes the declarative rule: the survivors are, in
  order, the messages without a readable expired timestamp, the last \<open>KeepLastAssistants\<close> assistant
  turns and the user turns before those, less the assistant turns at the front of the survivors.
\<close>

theorem PruneMessages_exact:
  assumes "ParseDuration (TTL cfg) = Some ttl" "ttl > 0" "TTL cfg \<noteq> []"
  shows "PruneMessages now ms cfg =
    (let survives = prune_survives (now - ttl) ms (KeepLastAssistants cfg)
     in (map ((!) ms) (filter survives [0..<length ms]),
         map ((!) ms) (filter (\<lambda>i. \<not> survives i) [0..<length ms])))"
  using assms by (rule PruneMessages_rule)

lemma sample_prune_hyps:
  "ParseDuration (TTL (sample_pruning ''30m'' 0)) = Some (30 * minute)" "30 * minute > 0"
  "TTL (sample_pruning ''30m'' 0) \<noteq> []"
  by code_simp+

lemma PruneMessages_exact_witness:
  "PruneMessages 1772362802000000000 sample_chain (sample_pruning ''30m'' 0) =
    (let survives = prune_survives (1772362802000000000 - 30 * minute) sample_chain 0
     in (map ((!) sample_chain) (filter survives [0..<length sample_chain]),
         map ((!) sample_chain) (filter (\<lambda>i. \<not> survives i) [0..<length sample_chain])))"
  using PruneMessages_exact [OF sample_prune_hyps, of 1772362802000000000 sample_chain]
  by (simp add: sample_pruning_def)

lemma dropped_survivors_mset:
  "mset (map ((!) ms) (filter P [0..<length ms])) + mset (map ((!) ms) (filter (\<lambda>i. \<not> P i) [0..<length ms])) = mset ms"
proof -
  have "mset (map ((!) ms) (filter P is)) + mset (map ((!) ms) (filter (\<lambda>i. \<not> P i) is)) = mset (map ((!) ms) is)"
    for "is" by (induction "is") auto
  from this [of "[0..<length ms]"] show ?thesis by (simp add: map_nth)
qed

lemma PruneMessages_inactive:
  assumes "\<not> (\<exists>ttl. ParseDuration (TTL cfg) = Some ttl \<and> ttl > 0 \<and> TTL cfg \<noteq> [])"
  shows "PruneMessages now ms cfg = (ms, [])"
  using assms by (force simp: PruneMessages_def parseTTL_def not_le split: option.splits)

text \<open>
  Pruning loses nothing silently: the survivors and the dropped messages together are the
  history; a dropped message is either an assistant turn or has a readable timestamp at or before
  the cut-off; and when anything was dropped the survivors do not start with an assistant turn.
\<close>

theorem PruneMessages_safe:
  assumes "PruneMessages now ms cfg = (pruned, dropped)"
  shows "mset pruned + mset dropped = mset ms \<and>
    (\<forall>m \<in> set dropped. is_assistant m \<or>
       (\<exists>t ttl. ParseRFC3339 (CreatedAt m) = Some t \<and> ParseDuration (TTL cfg) = Some ttl \<and> t \<le> now - ttl)) \<and>
    (dropped \<noteq> [] \<longrightarrow> pruned = [] \<or> \<not> is_assistant (hd pruned))"
proof (cases "\<exists>ttl. ParseDuration (TTL cfg) = Some ttl \<and> ttl > 0 \<and> TTL cfg \<noteq> []")
  case False
  then show ?thesis using assms PruneMessages_inactive by fastforce
next
  case True
  then obtain ttl where ttl: "ParseDuration (TTL cfg) = Some ttl" "ttl > 0" "TTL cfg \<noteq> []" by blast
  let ?S = "prune_survives (now - ttl) ms (KeepLastAssistants cfg)"
  have out: "pruned = map ((!) ms) (filter ?S [0..<length ms])"
    "dropped = map ((!) ms) (filter (\<lambda>i. \<not> ?S i) [0..<length ms])"
    using PruneMessages_rule [OF ttl, of now ms] assms by (simp_all add: Let_def)
  have "is_assistant (ms ! i) \<or> (\<exists>t. ParseRFC3339 (CreatedAt (ms ! i)) = Some t \<and> t \<le> now - ttl)"
    if "\<not> ?S i" for i
    using that by (auto simp: prune_survives_def prune_rule_def ttl_keeps_def not_less split: option.splits)
  moreover have "\<not> is_assistant (hd pruned)" if "pruned \<noteq> []"
    using that prune_front [of "now - ttl" ms "KeepLastAssistants cfg"] by (simp add: out hd_map)
  ultimately show ?thesis
    using dropped_survivors_mset [of ms ?S] ttl(1) by (auto simp: out)
qed

lemma PruneMessages_safe_witness:
  "case PruneMessages 1772362802000000000 sample_chain (sample_pruning ''30m'' 0) of
     (pruned, dropped) \<Rightarrow> mset pruned + mset dropped = mset sample_chain"
  using PruneMessages_safe [of 1772362802000000000 sample_chain "sample_pruning ''30m'' 0"]
  by (simp split: prod.split)

end
