(* ===== verification/Hooks.thy ===== *)
theory Hooks
  imports Messages
begin

text \<open>
  The lifecycle hooks of \<^verbatim>\<open>internal/agent/hooks.go\<close>. A hook is a function that may act on the world
  \<open>'w\<close>; a \<^verbatim>\<open>Hooks\<close> value holds one list per kind, run in registration order. A tool's result of
  type \<^verbatim>\<open>any\<close> is a JSON value.
\<close>

type_synonym 'w PostToolFn = "string \<Rightarrow> json \<Rightarrow> 'w \<Rightarrow> json \<times> 'w"
type_synonym 'w PreToolFn = "string \<Rightarrow> string \<Rightarrow> json_object \<Rightarrow> 'w \<Rightarrow> string result \<times> 'w"
type_synonym 'w PostDispatchFn = "string \<Rightarrow> string \<Rightarrow> 'w \<Rightarrow> string \<times> 'w"
type_synonym 'w PreHistoryFn = "StrategicMessage list \<Rightarrow> 'w \<Rightarrow> StrategicMessage list \<times> 'w"
type_synonym 'w PrePromptFn = "string \<Rightarrow> 'w \<Rightarrow> string \<times> 'w"

record 'w Hooks =
  preHistory :: "'w PreHistoryFn list"
  prePrompt :: "'w PrePromptFn list"
  postTool :: "'w PostToolFn list"
  preTool :: "'w PreToolFn list"
  postDispatch :: "'w PostDispatchFn list"

definition empty_hooks :: "'w Hooks" where
  "empty_hooks = \<lparr>preHistory = [], prePrompt = [], postTool = [], preTool = [], postDispatch = []\<rparr>"

definition RegisterPostDispatch :: "'w PostDispatchFn \<Rightarrow> 'w Hooks \<Rightarrow> 'w Hooks" where
  "RegisterPostDispatch fn h = h\<lparr>postDispatch := postDispatch h @ [fn]\<rparr>"

definition RegisterPreHistory :: "'w PreHistoryFn \<Rightarrow> 'w Hooks \<Rightarrow> 'w Hooks" where
  "RegisterPreHistory fn h = h\<lparr>preHistory := preHistory h @ [fn]\<rparr>"

definition RegisterPrePrompt :: "'w PrePromptFn \<Rightarrow> 'w Hooks \<Rightarrow> 'w Hooks" where
  "RegisterPrePrompt fn h = h\<lparr>prePrompt := prePrompt h @ [fn]\<rparr>"

definition RegisterPreTool :: "'w PreToolFn \<Rightarrow> 'w Hooks \<Rightarrow> 'w Hooks" where
  "RegisterPreTool fn h = h\<lparr>preTool := preTool h @ [fn]\<rparr>"

definition RegisterPostTool :: "'w PostToolFn \<Rightarrow> 'w Hooks \<Rightarrow> 'w Hooks" where
  "RegisterPostTool fn h = h\<lparr>postTool := postTool h @ [fn]\<rparr>"

definition HasPreHistory :: "'w Hooks \<Rightarrow> bool" where
  "HasPreHistory h \<longleftrightarrow> length (preHistory h) > 0"

text \<open>A chain of transformers, each on the output of the one before.\<close>

fun run_chain :: "('a \<Rightarrow> 'w \<Rightarrow> 'a \<times> 'w) list \<Rightarrow> 'a \<Rightarrow> 'w \<Rightarrow> 'a \<times> 'w" where
  "run_chain [] a w = (a, w)"
| "run_chain (fn # fns) a w = (case fn a w of (a', w') \<Rightarrow> run_chain fns a' w')"

definition RunPostDispatch :: "'w Hooks \<Rightarrow> string \<Rightarrow> string \<Rightarrow> 'w \<Rightarrow> string \<times> 'w" where
  "RunPostDispatch h sessionKey = run_chain (map (\<lambda>fn. fn sessionKey) (postDispatch h))"

definition RunPreHistory :: "'w Hooks \<Rightarrow> StrategicMessage list \<Rightarrow> 'w \<Rightarrow> StrategicMessage list \<times> 'w" where
  "RunPreHistory h = run_chain (preHistory h)"

definition RunPrePrompt :: "'w Hooks \<Rightarrow> string \<Rightarrow> 'w \<Rightarrow> string \<times> 'w" where
  "RunPrePrompt h = run_chain (prePrompt h)"

definition RunPostTool :: "'w Hooks \<Rightarrow> string \<Rightarrow> json \<Rightarrow> 'w \<Rightarrow> json \<times> 'w" where
  "RunPostTool h toolName = run_chain (map (\<lambda>fn. fn toolName) (postTool h))"

fun run_pre_tools :: "'w PreToolFn list \<Rightarrow> string \<Rightarrow> string \<Rightarrow> json_object \<Rightarrow> 'w \<Rightarrow> string result \<times> 'w" where
  "run_pre_tools [] sessionKey toolName args w = (Inr [], w)"
| "run_pre_tools (fn # fns) sessionKey toolName args w =
     (case fn sessionKey toolName args w of
        (Inl e, w') \<Rightarrow> (Inl e, w')
      | (Inr result, w') \<Rightarrow>
          if result \<noteq> [] then (Inr result, w') else run_pre_tools fns sessionKey toolName args w')"

definition RunPreTool :: "'w Hooks \<Rightarrow> string \<Rightarrow> string \<Rightarrow> json_object \<Rightarrow> 'w \<Rightarrow> string result \<times> 'w" where
  "RunPreTool h = run_pre_tools (preTool h)"

lemma run_pre_tools_append:
  "run_pre_tools (fns @ gns) sk tn args w =
     (case run_pre_tools fns sk tn args w of
        (Inr [], w') \<Rightarrow> run_pre_tools gns sk tn args w'
      | r \<Rightarrow> r)"
  by (induction fns arbitrary: w) (auto split: prod.splits sum.splits list.splits)

lemma RunPreTool_registered_first:
  assumes "preTool h = []" "fn sk tn args w = (Inl e, w')"
  shows "RunPreTool (RegisterPreTool g (RegisterPreTool fn h)) sk tn args w = (Inl e, w')"
  using assms by (simp add: RunPreTool_def RegisterPreTool_def)

end
