(* ===== verification/Store_Interface.thy ===== *)
theory Store_Interface
  imports Messages GoTime
begin

text \<open>
  The interface between the session manager and the durable store, \<^verbatim>\<open>CheckpointStore\<close> of
  \<^verbatim>\<open>internal/agent/agent.go\<close>: the operations as a record of functions over a world state, and as a
  locale the laws a session relies on. The abstraction of the store is \<open>history\<close>, the iteration and
  the messages a reload of a thread finds (the saved ones as the JSON encoder writes them); \<open>live\<close> says of a thread that the laws hold for it.
\<close>

record ThreadSnapshot =
  Iteration :: int
  Messages :: "StrategicMessage list"
  Model :: string
  Metadata :: "json_object option"

record 'w CheckpointStore =
  st_LoadLatest :: "string \<Rightarrow> 'w \<Rightarrow> ThreadSnapshot option result \<times> 'w"
  st_SaveSnapshot :: "string \<Rightarrow> int \<Rightarrow> StrategicMessage list \<Rightarrow> 'w \<Rightarrow> (bool \<times> go_error option) \<times> 'w"
  st_CreateThread :: "string \<Rightarrow> string \<Rightarrow> json_object option \<Rightarrow> 'w \<Rightarrow> go_error option \<times> 'w"
  st_UpdateSessionTokens :: "string \<Rightarrow> int \<Rightarrow> instant option \<Rightarrow> 'w \<Rightarrow> go_error option \<times> 'w"
  st_GetSessionTokens :: "string \<Rightarrow> 'w \<Rightarrow> (int \<times> instant option) result \<times> 'w"

type_synonym history = "(int \<times> StrategicMessage list) option"

definition not_newer :: "history \<Rightarrow> int \<Rightarrow> bool" where
  "not_newer h it \<longleftrightarrow> (case h of None \<Rightarrow> True | Some (i, _) \<Rightarrow> i \<le> it)"

definition snapshot_of :: "history \<Rightarrow> ThreadSnapshot option \<Rightarrow> bool" where
  "snapshot_of h r \<longleftrightarrow> map_option (\<lambda>s. (Iteration s, Messages s)) r = h"

locale checkpoint_store =
  fixes store :: "'w CheckpointStore"
    and history :: "'w \<Rightarrow> string \<Rightarrow> history"
    and live :: "'w \<Rightarrow> string \<Rightarrow> bool"
  assumes load_result: "live w t \<Longrightarrow> st_LoadLatest store t w = (Inr r, w') \<Longrightarrow> snapshot_of (history w t) r"
    and load_keeps: "st_LoadLatest store t w = (lr, w') \<Longrightarrow> live w' = live w \<and> history w' = history w"
    and save_ok: "live w t \<Longrightarrow> list_all wf_message ms \<Longrightarrow> not_newer (history w t) it \<Longrightarrow>
      st_SaveSnapshot store t it ms w = ((True, e), w') \<Longrightarrow> live w' t \<and> history w' t = Some (it, map coerce_message ms)"
    and save_clean: "st_SaveSnapshot store t it ms w = ((True, e), w') \<Longrightarrow> e = None"
    and save_failed: "st_SaveSnapshot store t it ms w = ((False, e), w') \<Longrightarrow>
      e \<noteq> None \<and> live w' = live w \<and> history w' = history w"
    and save_other: "live w t' \<Longrightarrow> t' \<noteq> t \<Longrightarrow> st_SaveSnapshot store t it ms w = (sr, w') \<Longrightarrow>
      live w' t' \<and> history w' t' = history w t'"
    and create_keeps: "live w t' \<Longrightarrow> st_CreateThread store t model md w = (e, w') \<Longrightarrow>
      live w' t' \<and> history w' t' = history w t'"
    and update_keeps: "live w t' \<Longrightarrow> st_UpdateSessionTokens store t n c w = (e, w') \<Longrightarrow>
      live w' t' \<and> history w' t' = history w t'"
    and get_keeps: "st_GetSessionTokens store t w = (g, w') \<Longrightarrow> live w' = live w \<and> history w' = history w"
begin

lemma save_keeps:
  assumes "live w t" "list_all wf_message ms" "not_newer (history w t) it"
    and "st_SaveSnapshot store t it ms w = ((b, e), w')"
  shows "live w' t \<and> history w' t = (if b then Some (it, map coerce_message ms) else history w t)"
proof (cases b)
  case True
  with assms(4) have "st_SaveSnapshot store t it ms w = ((True, e), w')" by simp
  from save_ok [OF assms(1-3) this] True show ?thesis by simp
next
  case False
  with assms(4) have "st_SaveSnapshot store t it ms w = ((False, e), w')" by simp
  from save_failed [OF this] assms(1) False show ?thesis by simp
qed

text \<open>A save that succeeded is what the next successful load returns, as the encoder wrote it.\<close>

lemma load_after_save:
  assumes "live w t" "list_all wf_message ms" "not_newer (history w t) it"
    and "st_SaveSnapshot store t it ms w = ((True, e), w')"
    and "st_LoadLatest store t w' = (Inr r, w'')"
  shows "snapshot_of (Some (it, map coerce_message ms)) r"
  using save_ok [OF assms(1-4)] load_result [OF _ assms(5)] by simp

end

end
