(* ===== verification/Memory_Text.thy ===== *)
theory Memory_Text
  imports Messages
begin

text \<open>
  The text rules of memory, \<^verbatim>\<open>internal/memory/memory.go\<close>: which results of a search go into the prompt,
  how they are printed, and how the answer of a consolidation turn is read. A \<^verbatim>\<open>map[string]any\<close> is a JSON
  object with distinct keys. The text layer of JSON is the record \<open>json_text\<close>: reading a text as an
  object, where \<open>None\<close> is the nil map that the text null gives, and printing a value. \<^verbatim>\<open>%v\<close> of such a value only reaches the log.
\<close>

record json_text =
  jt_Unmarshal :: "string \<Rightarrow> json_object option result"
  jt_Marshal :: "json \<Rightarrow> string result"

section \<open>Helpers\<close>

definition stringVal :: "json_object \<Rightarrow> string \<Rightarrow> string" where
  "stringVal m key = (case map_of m key of Some (JStr s) \<Rightarrow> s | _ \<Rightarrow> [])"

fun firstNonEmpty :: "string list \<Rightarrow> string" where
  "firstNonEmpty [] = []"
| "firstNonEmpty (v # vals) = (if v \<noteq> [] then v else firstNonEmpty vals)"

definition truncateString :: "string \<Rightarrow> nat \<Rightarrow> string" where
  "truncateString s maxLen = (if length s \<le> maxLen then s else take maxLen s @ ''...'')"

text \<open>The match of \<^verbatim>\<open>(?s)(\{.*\})\<close>: from the first opening brace to the last closing one.\<close>

definition outer_braces :: "string \<Rightarrow> string" where
  "outer_braces s =
     rev (dropWhile (\<lambda>c. c \<noteq> CHR 0x7D) (rev (dropWhile (\<lambda>c. c \<noteq> CHR 0x7B) s)))"

section \<open>Consolidation\<close>

definition consolidation_line :: "json_object \<Rightarrow> string option" where
  "consolidation_line m =
     (case map_of m ''content'' of
        Some (JStr content) \<Rightarrow>
          if content = [] then None
          else
            (let ts = take 16 (stringVal m ''timestamp''); ts' = (if ts = [] then ''?'' else ts)
             in Some (''['' @ ts' @ ''] '' @ ToUpper (stringVal m ''role'') @ '': '' @ content))
      | _ \<Rightarrow> None)"

definition FormatConsolidationMessages :: "json_object list \<Rightarrow> string" where
  "FormatConsolidationMessages messages = Join (List.map_filter consolidation_line messages) [CHR 0x0A]"

definition extractJSON :: "json_text \<Rightarrow> string \<Rightarrow> json_object result" where
  "extractJSON lib s =
     (let m = outer_braces s in
      if m = [] then Inl (ErrorNew ''extractJSON: no JSON object found in string'')
      else (case jt_Unmarshal lib m of
              Inl e \<Rightarrow> Inl (wrap_err ''extractJSON: failed to unmarshal JSON'' e)
            | Inr out \<Rightarrow> Inr (case out of None \<Rightarrow> [] | Some m \<Rightarrow> m)))"

definition stringify :: "json_text \<Rightarrow> json \<Rightarrow> string" where
  "stringify lib content =
     (case content of JStr s \<Rightarrow> s | v \<Rightarrow> (case jt_Marshal lib v of Inr b \<Rightarrow> b | Inl _ \<Rightarrow> []))"

definition tryParseFromTool :: "json_text \<Rightarrow> bool \<Rightarrow> json \<Rightarrow> json_object result" where
  "tryParseFromTool lib hasToolCalls toolArguments =
     (if \<not> hasToolCalls then Inr []
      else
        (case toolArguments of
           JObj v \<Rightarrow> Inr v
         | JStr v \<Rightarrow> (case jt_Unmarshal lib v of Inl e \<Rightarrow> Inl (wrap_err ''unmarshal tool arguments'' e) | Inr args \<Rightarrow> Inr (case args of None \<Rightarrow> [] | Some m \<Rightarrow> m))
         | _ \<Rightarrow> Inr []))"

definition tryParseFromText :: "json_text \<Rightarrow> json \<Rightarrow> string \<Rightarrow> json_object result" where
  "tryParseFromText lib content currentMemory =
     (case extractJSON lib (stringify lib content) of
        Inl e \<Rightarrow> Inl (wrap_err ''consolidation: failed to parse LLM response as JSON'' e)
      | Inr candidate \<Rightarrow>
          Inr [(''history_entry'', JStr (firstNonEmpty
                  [stringVal candidate ''history_entry'', stringVal candidate ''summary'', ''No summary available.''])),
               (''memory_update'', JStr (firstNonEmpty
                  [stringVal candidate ''memory_update'', stringVal candidate ''facts'', currentMemory]))])"

definition validateConsolidationKeys :: "json_object \<Rightarrow> json_object result" where
  "validateConsolidationKeys args =
     (if args = [] then Inl (ErrorNew ''consolidation: no valid consolidation data found'')
      else if map_of args ''history_entry'' = None \<and> map_of args ''memory_update'' = None
      then Inl (ErrorNew ''consolidation: response missing required keys (history_entry/memory_update)'')
      else Inr args)"

definition ParseConsolidationResponse :: "json_text \<Rightarrow> json \<Rightarrow> bool \<Rightarrow> json \<Rightarrow> string \<Rightarrow> json_object result" where
  "ParseConsolidationResponse lib content hasToolCalls toolArguments currentMemory =
     (case tryParseFromTool lib hasToolCalls toolArguments of
        Inr (a # args) \<Rightarrow> validateConsolidationKeys (a # args)
      | _ \<Rightarrow>
          (case tryParseFromText lib content currentMemory of
             Inl e \<Rightarrow> Inl e
           | Inr args \<Rightarrow> validateConsolidationKeys args))"

section \<open>Search results in the prompt\<close>

definition genericSkipPatterns :: "string list" where
  "genericSkipPatterns =
     [''yes'', ''no'', ''ok'', ''okay'', ''hello'', ''hi'', ''thanks'', ''thank you'', ''confirmed'', ''ok.'',
      ''okay.'', ''confirmed.'', ''yes.'', ''no.'', ''thanks.'', ''hello.'', ''hi.'']"

definition ragNoisePatterns :: "string list" where
  "ragNoisePatterns =
     [''spawned subagent'', ''i have spawned'', ''specialist has been assigned id'', ''your turn is now over'',
      ''provide a single brief acknowledgement'']"

definition IsTrivialMessageForConsolidation :: "string \<Rightarrow> bool" where
  "IsTrivialMessageForConsolidation content \<longleftrightarrow>
     ToLower (TrimSpace content) \<in> set genericSkipPatterns \<or> content = ''[empty message]''"

definition ShouldSkipRAG :: "string \<Rightarrow> bool" where
  "ShouldSkipRAG content \<longleftrightarrow>
     length content \<le> 10 \<or> ToLower (TrimSpace content) \<in> set genericSkipPatterns \<or> content = ''[empty message]''"

definition rag_score :: "json_object \<Rightarrow> rat" where
  "rag_score r = (case map_of r ''score'' of Some (JNum s) \<Rightarrow> s | _ \<Rightarrow> 1)"

definition keeps_result :: "rat \<Rightarrow> json_object \<Rightarrow> bool" where
  "keeps_result threshold r \<longleftrightarrow>
     (let content = stringVal r ''content'' in
      content \<noteq> [] \<and> \<not> Contains content ''No summary available'' \<and> \<not> rag_score r < threshold \<and>
      \<not> list_ex (Contains (ToLower content)) ragNoisePatterns)"

definition FilterRAGResults :: "json_object list \<Rightarrow> rat \<Rightarrow> json_object list" where
  "FilterRAGResults results threshold = filter (keeps_result threshold) results"

text \<open>A result without a text panics in the type assertion, which is the value None.\<close>

fun rag_lines :: "json_object list \<Rightarrow> string list option" where
  "rag_lines [] = Some []"
| "rag_lines (r # rs) =
     (case map_of r ''content'' of
        Some (JStr s) \<Rightarrow> map_option (\<lambda>ls. (''- '' @ s) # ls) (rag_lines rs)
      | _ \<Rightarrow> None)"

definition FormatRAGBlock :: "json_object list \<Rightarrow> (string \<times> nat) option" where
  "FormatRAGBlock results =
     (if results = [] then Some ([], 0)
      else
        map_option (\<lambda>ls.
          (''### RETRIEVED HISTORICAL CONTEXT:'' @ [CHR 0x0A] @
           ''[STRATEGIC MEMORY - MAY BE STALE OR OUTDATED. USE RESEARCH TOOLS TO VERIFY.]'' @ [CHR 0x0A] @ [CHR 0x0A] @
           Join ls [CHR 0x0A], length results)) (rag_lines results))"

text \<open>Results that passed the filter can always be printed.\<close>

lemma FormatRAGBlock_filtered: "FormatRAGBlock (FilterRAGResults rs t) \<noteq> None"
proof -
  have "rag_lines (filter (keeps_result t) rs) \<noteq> None"
    by (induction rs) (auto simp: keeps_result_def stringVal_def Let_def split: option.splits json.splits)
  then show ?thesis by (simp add: FormatRAGBlock_def FilterRAGResults_def)
qed

end
