(* ===== verification/Session.thy ===== *)
theory Session
  imports Compaction Hooks Store_Interface Memory_Text
begin

text \<open>
  The session manager, \<^verbatim>\<open>internal/agent/agent.go\<close> and \<^verbatim>\<open>internal/agent/session_history.go\<close>: loading the
  history of a session, preparing it (hooks, pruning, summarization, compaction), running the turn,
  saving the result, and compaction against a token budget. The collaborators of the manager are
  records of functions over a world \<open>'w\<close>: the runner, the checkpoint store, the hooks, the logger,
  the consolidator. What the code takes from its surroundings is the record \<open>Env\<close>: the error of the
  request's context, the clock, the session lock, the journal file, the start of a background
  worker, and \<open>env_fl\<close>, rounding to the nearest 64-bit float. Every reading of the clock or the
  context may advance the world, so no two readings need agree.
\<close>

section \<open>Collaborators\<close>

record 'w Runner =
  ru_Run :: "string \<Rightarrow> string \<Rightarrow> StrategicMessage list \<Rightarrow> 'w \<Rightarrow> (string \<times> StrategicMessage list) result \<times> 'w"
  ru_RunText :: "string \<Rightarrow> string \<Rightarrow> string \<Rightarrow> 'w \<Rightarrow> string result \<times> 'w"

record 'w Env =
  env_ctxErr :: "'w \<Rightarrow> go_error option \<times> 'w"
  env_now :: "'w \<Rightarrow> instant \<times> 'w"
  env_stamp :: "'w \<Rightarrow> string \<times> 'w"
  env_acquireLock :: "string \<Rightarrow> duration \<Rightarrow> 'w \<Rightarrow> 'w"
  env_Lock :: "string \<Rightarrow> 'w \<Rightarrow> go_error option \<times> 'w"
  env_Unlock :: "string \<Rightarrow> 'w \<Rightarrow> 'w"
  env_release :: "string \<Rightarrow> 'w \<Rightarrow> 'w"
  env_journal :: "string \<Rightarrow> string \<Rightarrow> 'w \<Rightarrow> go_error option \<times> 'w"
  env_spawn_compaction :: "string \<Rightarrow> 'w CheckpointStore \<Rightarrow> 'w \<Rightarrow> 'w"
  env_fl :: "rat \<Rightarrow> rat"

type_synonym 'w tracer = "string \<Rightarrow> nat \<Rightarrow> ('w \<Rightarrow> string result \<times> 'w) \<Rightarrow> 'w \<Rightarrow> string result \<times> 'w"

record 'w SessionManager =
  sm_runner :: "'w Runner"
  sm_store :: "'w CheckpointStore option"
  sm_storeProvider :: "(string \<Rightarrow> 'w \<Rightarrow> 'w CheckpointStore result \<times> 'w) option"
  sm_model :: string
  sm_storageRoot :: string
  sm_logger :: "(string \<Rightarrow> int \<Rightarrow> StrategicMessage list \<Rightarrow> 'w \<Rightarrow> go_error option \<times> 'w) option"
  sm_consolidator :: "(string \<Rightarrow> string \<Rightarrow> 'w \<Rightarrow> 'w) option"
  sm_hooks :: "'w Hooks option"
  sm_tracer :: "'w tracer option"
  sm_memoryWindow :: int
  sm_lockTimeout :: duration
  sm_pruningPolicy :: ContextPruningConfig
  sm_compactionPolicy :: CompactionPolicyConfig
  sm_tokenBudget :: int
  sm_summaryTurns :: int

definition DefaultMaxContextMessages :: int where "DefaultMaxContextMessages = 50"
definition DefaultKeepContextMessages :: int where "DefaultKeepContextMessages = 20"

abbreviation (input) nl :: string where "nl \<equiv> [CHR 0x0A]"

definition summarizationPrompt :: string where
  "summarizationPrompt =
     ''You are a context summarization assistant. Condense the provided'' @ nl @
     ''conversation history into a concise summary. Preserve:'' @ nl @
     ''1. Key decisions made and agreed upon.'' @ nl @
     ''2. Active action items and their status.'' @ nl @
     ''3. User preferences and stylistic mandates.'' @ nl @
     ''4. Current task state and progress.'' @ nl @ nl @
     ''Format as a clear, bulleted list. If an existing <context_summary> block is provided,'' @ nl @
     ''integrate it hierarchically (do not discard prior summaries).'' @ nl @ nl @
     ''Conversation history:'' @ nl"

definition statelessWarning :: string where
  "statelessWarning =
     [CHR 0xE2, CHR 0x9A, CHR 0xA0, CHR 0xEF, CHR 0xB8, CHR 0x8F] @
     '' Warning: session history could not be initialized. This conversation will not be persisted.'' @ nl @ nl"

definition checkpointSaveWarning :: string where
  "checkpointSaveWarning =
     ''Warning: This turn could not be saved for future conversation context.'' @ nl @ nl"

section \<open>Construction and configuration\<close>

definition NewSessionManager :: "'w Runner \<Rightarrow> 'w CheckpointStore option \<Rightarrow> string \<Rightarrow> 'w SessionManager" where
  "NewSessionManager runner store model =
     \<lparr>sm_runner = runner, sm_store = store, sm_storeProvider = None, sm_model = model, sm_storageRoot = [],
      sm_logger = None, sm_consolidator = None, sm_hooks = None, sm_tracer = None,
      sm_memoryWindow = DefaultMaxContextMessages, sm_lockTimeout = 120 * second,
      sm_pruningPolicy = \<lparr>TTL = [], KeepLastAssistants = 0\<rparr>,
      sm_compactionPolicy = \<lparr>Strategy = [],
        MemoryFlush = \<lparr>mf_Prompt = [], mf_TTL = [], mf_GlobalTTL = [], mf_GlobalNamespacePatterns = []\<rparr>,
        Summarization = \<lparr>sum_Enabled = False, sum_Model = [], sum_Threshold = 0\<rparr>\<rparr>,
      sm_tokenBudget = 0, sm_summaryTurns = 0\<rparr>"

definition SetTracer :: "'w tracer option \<Rightarrow> 'w SessionManager \<Rightarrow> 'w SessionManager" where
  "SetTracer t m = m\<lparr>sm_tracer := t\<rparr>"

definition SetLockTimeout :: "duration \<Rightarrow> 'w SessionManager \<Rightarrow> 'w SessionManager" where
  "SetLockTimeout d m = (if d > 0 then m\<lparr>sm_lockTimeout := d\<rparr> else m)"

definition SetMemoryWindow :: "int \<Rightarrow> 'w SessionManager \<Rightarrow> 'w SessionManager" where
  "SetMemoryWindow n m = (if n > 0 then m\<lparr>sm_memoryWindow := n\<rparr> else m)"

definition SetPruningPolicy :: "ContextPruningConfig \<Rightarrow> 'w SessionManager \<Rightarrow> 'w SessionManager" where
  "SetPruningPolicy p m = m\<lparr>sm_pruningPolicy := p\<rparr>"

definition SetCompactionPolicy :: "CompactionPolicyConfig \<Rightarrow> 'w SessionManager \<Rightarrow> 'w SessionManager" where
  "SetCompactionPolicy p m = m\<lparr>sm_compactionPolicy := p\<rparr>"

definition SetStorageRoot :: "string \<Rightarrow> 'w SessionManager \<Rightarrow> 'w SessionManager" where
  "SetStorageRoot dir m = m\<lparr>sm_storageRoot := dir\<rparr>"

definition SetLogger ::
  "(string \<Rightarrow> int \<Rightarrow> StrategicMessage list \<Rightarrow> 'w \<Rightarrow> go_error option \<times> 'w) option \<Rightarrow> 'w SessionManager \<Rightarrow> 'w SessionManager" where
  "SetLogger l m = m\<lparr>sm_logger := l\<rparr>"

definition SetConsolidator :: "(string \<Rightarrow> string \<Rightarrow> 'w \<Rightarrow> 'w) option \<Rightarrow> 'w SessionManager \<Rightarrow> 'w SessionManager" where
  "SetConsolidator c m = m\<lparr>sm_consolidator := c\<rparr>"

definition SetHooks :: "'w Hooks option \<Rightarrow> 'w SessionManager \<Rightarrow> 'w SessionManager" where
  "SetHooks h m = m\<lparr>sm_hooks := h\<rparr>"

definition SetTokenBudget :: "int \<Rightarrow> 'w SessionManager \<Rightarrow> 'w SessionManager" where
  "SetTokenBudget b m = (if b > 0 then m\<lparr>sm_tokenBudget := b\<rparr> else m)"

definition SetSummaryTurns :: "int \<Rightarrow> 'w SessionManager \<Rightarrow> 'w SessionManager" where
  "SetSummaryTurns n m = (if n > 0 then m\<lparr>sm_summaryTurns := n\<rparr> else m)"

definition SetCheckpointStoreProvider ::
  "(string \<Rightarrow> 'w \<Rightarrow> 'w CheckpointStore result \<times> 'w) option \<Rightarrow> 'w SessionManager \<Rightarrow> 'w SessionManager" where
  "SetCheckpointStoreProvider fn m = m\<lparr>sm_storeProvider := fn\<rparr>"

section \<open>History\<close>

definition StripSilent :: "string \<Rightarrow> string \<times> bool" where
  "StripSilent message =
     (case CutPrefix message ''[SILENT]'' of
        (trimmed, True) \<Rightarrow> (TrimSpace trimmed, True)
      | (_, False) \<Rightarrow> (message, False))"

definition resolveStore :: "'w SessionManager \<Rightarrow> string \<Rightarrow> 'w \<Rightarrow> 'w CheckpointStore option \<times> 'w" where
  "resolveStore m userID w =
     (case sm_storeProvider m of
        Some provider \<Rightarrow>
          if userID \<noteq> [] then
            (case provider userID w of
               (Inr s, w') \<Rightarrow> (Some s, w')
             | (Inl e, w') \<Rightarrow> (sm_store m, w'))
          else (sm_store m, w)
      | None \<Rightarrow> (sm_store m, w))"

definition loadHistory ::
  "'w SessionManager \<Rightarrow> string \<Rightarrow> 'w CheckpointStore option \<Rightarrow> 'w \<Rightarrow>
     (StrategicMessage list \<times> int \<times> bool) result \<times> 'w" where
  "loadHistory m sessionKey store w =
     (case store of
        None \<Rightarrow> (Inr ([], 0, False), w)
      | Some st \<Rightarrow>
          (case st_LoadLatest st sessionKey w of
             (Inl e, w1) \<Rightarrow> (Inl (wrap_err ''load conversation checkpoint'' e), w1)
           | (Inr (Some snap), w1) \<Rightarrow> (Inr (Messages snap, Iteration snap, False), w1)
           | (Inr None, w1) \<Rightarrow>
               (case st_CreateThread st sessionKey (sm_model m) None w1 of
                  (Some e, w2) \<Rightarrow> (Inr ([], 0, True), w2)
                | (None, w2) \<Rightarrow> (Inr ([], 0, False), w2))))"

definition runPreHistoryHooks :: "'w Hooks \<Rightarrow> StrategicMessage list \<Rightarrow> 'w \<Rightarrow> StrategicMessage list \<times> 'w" where
  "runPreHistoryHooks hooks messages w =
     (case RunPreHistory hooks messages w of
        (messages', w') \<Rightarrow> if messages' = [] \<and> messages \<noteq> [] then (messages, w') else (messages', w'))"

definition message_line :: "StrategicMessage \<Rightarrow> string" where
  "message_line msg = Role msg @ '': '' @ content_string (Content msg) @ nl"

definition dropped_text :: "StrategicMessage list \<Rightarrow> string" where
  "dropped_text dropped =
     TrimSpace (concat (map message_line
       (filter (\<lambda>m. \<not> IsTrivialMessageForConsolidation (content_string (Content m))) dropped)))"

definition consolidateDropped :: "(string \<Rightarrow> string \<Rightarrow> 'w \<Rightarrow> 'w) \<Rightarrow> string \<Rightarrow> StrategicMessage list \<Rightarrow> 'w \<Rightarrow> 'w" where
  "consolidateDropped consolidateAsync sessionKey dropped w =
     (if dropped_text dropped \<noteq> [] then consolidateAsync sessionKey (dropped_text dropped) w else w)"

definition runConsolidation ::
  "(string \<Rightarrow> string \<Rightarrow> 'w \<Rightarrow> 'w) \<Rightarrow> string \<Rightarrow> StrategicMessage list \<Rightarrow> bool list \<Rightarrow> 'w \<Rightarrow> 'w" where
  "runConsolidation consolidateAsync sessionKey messages keep w =
     (let text = dropped_text (select_kept messages (map Not keep)) in
      if text \<noteq> [] then consolidateAsync sessionKey text w else w)"

definition getSummarizationKeepN :: "'w SessionManager \<Rightarrow> int" where
  "getSummarizationKeepN m =
     (if sm_memoryWindow m < DefaultKeepContextMessages * 2 then
        (let k = go_div (sm_memoryWindow m) 2 in if k < 1 then 1 else k)
      else DefaultKeepContextMessages)"

fun summarization_input :: "string \<Rightarrow> StrategicMessage list \<Rightarrow> string" where
  "summarization_input sb [] = sb"
| "summarization_input sb (msg # msgs) =
     (if length sb \<ge> DefaultMaxCompactionInputBytes then sb
      else summarization_input (sb @ message_line msg) msgs)"

definition runSummarization ::
  "'w SessionManager \<Rightarrow> string \<Rightarrow> StrategicMessage list \<Rightarrow> string \<Rightarrow> 'w \<Rightarrow> string result \<times> 'w" where
  "runSummarization m sessionKey messages model w =
     (case ru_RunText (sm_runner m) sessionKey (summarization_input summarizationPrompt messages) model w of
        (Inl e, w') \<Rightarrow> (Inl (wrap_err ''run text'' e), w')
      | (Inr result, w') \<Rightarrow> (Inr result, w'))"

definition summary_message :: "string \<Rightarrow> string \<Rightarrow> StrategicMessage" where
  "summary_message summary stamp = text_message RoleSystem summary stamp"

definition summarizeHistoryIfNeeded ::
  "'w Env \<Rightarrow> 'w SessionManager \<Rightarrow> string \<Rightarrow> StrategicMessage list \<Rightarrow> 'w \<Rightarrow> StrategicMessage list \<times> 'w" where
  "summarizeHistoryIfNeeded env m sessionKey messages w =
     (let summarization = Summarization (sm_compactionPolicy m);
          fl = env_fl env;
          limit = trunc_rat (fl (of_int (sm_memoryWindow m) * fl (SummarizationThreshold summarization))) in
      if \<not> IsSummarizationEnabled summarization \<or> int (length messages) \<le> limit then (messages, w)
      else
        let model = SummarizationModel summarization (sm_model m) in
        if model = [] then (messages, w)
        else
          let keepN = getSummarizationKeepN m in
          if int (length messages) \<le> keepN then (messages, w)
          else
            let cut = length messages - nat keepN in
            (case runSummarization m sessionKey (take cut messages) model w of
               (Inl e, w1) \<Rightarrow> (messages, w1)
             | (Inr summary, w1) \<Rightarrow>
                 (case env_stamp env w1 of
                    (stamp, w2) \<Rightarrow> (summary_message summary stamp # drop cut messages, w2))))"

definition compaction_entry :: "string \<Rightarrow> int \<Rightarrow> nat \<Rightarrow> string" where
  "compaction_entry sessionKey dropped kept =
     ''Session '' @ sessionKey @ '': compacted '' @ Itoa dropped @ '' messages (kept '' @ Itoa (int kept) @ '')''"

definition compactHistoryIfNeeded ::
  "'w Env \<Rightarrow> 'w SessionManager \<Rightarrow> string \<Rightarrow> StrategicMessage list \<Rightarrow> 'w \<Rightarrow> StrategicMessage list \<times> 'w" where
  "compactHistoryIfNeeded env m sessionKey messages w =
     (case CompactMessages messages (sm_memoryWindow m) DefaultKeepContextMessages (sm_compactionPolicy m) (sm_pruningPolicy m) of
        (compacted, dropped, keep) \<Rightarrow>
          if dropped \<le> 0 then (messages, w)
          else
            let w1 = (case sm_consolidator m of
                        Some c \<Rightarrow> if Strategy (sm_compactionPolicy m) = ''memoryFlush''
                                   then runConsolidation c sessionKey messages keep w else w
                      | None \<Rightarrow> w);
                w2 = (if sm_storageRoot m \<noteq> []
                      then snd (env_journal env (sm_storageRoot m)
                             (compaction_entry sessionKey dropped (length compacted)) w1)
                      else w1)
            in (compacted, w2))"

definition prepareHistory ::
  "'w Env \<Rightarrow> 'w SessionManager \<Rightarrow> string \<Rightarrow> StrategicMessage list \<Rightarrow> 'w \<Rightarrow> StrategicMessage list \<times> 'w" where
  "prepareHistory env m sessionKey messages w =
     (let (messages1, w1) = (case sm_hooks m of
                               None \<Rightarrow> (messages, w)
                             | Some h \<Rightarrow> runPreHistoryHooks h messages w);
          (now, w2) = env_now env w1;
          (pruned, droppedMsgs) = PruneMessages now messages1 (sm_pruningPolicy m);
          (messages2, w3) =
            (if length droppedMsgs > 0 then
               (pruned, case sm_consolidator m of
                          None \<Rightarrow> w2
                        | Some c \<Rightarrow> consolidateDropped c sessionKey droppedMsgs w2)
             else (messages1, w2));
          (messages3, w4) = summarizeHistoryIfNeeded env m sessionKey messages2 w3
      in compactHistoryIfNeeded env m sessionKey messages3 w4)"

section \<open>The turn\<close>

text \<open>Stamping goes from the newest message backwards and stops at the first message that has a
  timestamp; the list here is reversed.\<close>

fun stamp_newest :: "('w \<Rightarrow> string \<times> 'w) \<Rightarrow> StrategicMessage list \<Rightarrow> 'w \<Rightarrow> StrategicMessage list \<times> 'w" where
  "stamp_newest stamp [] w = ([], w)"
| "stamp_newest stamp (msg # msgs) w =
     (if CreatedAt msg = [] then
        (case stamp w of (t, w1) \<Rightarrow>
          (case stamp_newest stamp msgs w1 of (msgs', w2) \<Rightarrow> (msg\<lparr>CreatedAt := t\<rparr> # msgs', w2)))
      else (msg # msgs, w))"

definition addMissingTimestamps :: "'w Env \<Rightarrow> StrategicMessage list \<Rightarrow> 'w \<Rightarrow> StrategicMessage list \<times> 'w" where
  "addMissingTimestamps env updated w =
     (case stamp_newest (env_stamp env) (rev updated) w of (r, w') \<Rightarrow> (rev r, w'))"

text \<open>\<^verbatim>\<open>int(float64(words)*1.3)\<close>: the float product truncates to the same integer as the exact one for
  every word count a message can have (below \<open>2 ^ 48\<close>), as \<open>1.3\<close> is rounded up and an exact product
  that is not an integer is at least a tenth away from one.\<close>

definition estimateTokensForMessages :: "StrategicMessage list \<Rightarrow> int" where
  "estimateTokensForMessages messages =
     sum_list (map (\<lambda>msg. int (count_fields False (content_string (Content msg))) * 13 div 10 + 4) messages)"

definition persistResult ::
  "'w SessionManager \<Rightarrow> string \<Rightarrow> int \<Rightarrow> StrategicMessage list \<Rightarrow> bool \<Rightarrow> 'w CheckpointStore option \<Rightarrow> 'w
     \<Rightarrow> (bool \<times> bool) \<times> 'w" where
  "persistResult m sessionKey iteration updated stateless store w =
     (case store of
        None \<Rightarrow> ((False, False), w)
      | Some st \<Rightarrow>
          if stateless \<or> updated = [] then ((False, False), w)
          else
            (case st_SaveSnapshot st sessionKey (iteration + 1) updated w of
               ((saved, err), w1) \<Rightarrow>
                 let w2 = (case sm_logger m of
                             None \<Rightarrow> w1
                           | Some logfn \<Rightarrow> snd (logfn sessionKey (iteration + 1) updated w1))
                 in ((saved \<and> err = None, err \<noteq> None), w2)))"

definition updateTokenBudget ::
  "'w Env \<Rightarrow> 'w SessionManager \<Rightarrow> string \<Rightarrow> StrategicMessage list \<Rightarrow> 'w CheckpointStore option \<Rightarrow> 'w \<Rightarrow> 'w" where
  "updateTokenBudget env m sessionKey updated store w =
     (case store of
        None \<Rightarrow> w
      | Some st \<Rightarrow>
          if sm_tokenBudget m \<le> 0 then w
          else
            (case env_ctxErr env w of
               (Some e, w1) \<Rightarrow> w1
             | (None, w1) \<Rightarrow>
                 (case st_GetSessionTokens st sessionKey w1 of
                    (Inl e, w2) \<Rightarrow> w2
                  | (Inr (tokens, compactedAt), w2) \<Rightarrow>
                      (case env_ctxErr env w2 of
                         (Some e, w3) \<Rightarrow> w3
                       | (None, w3) \<Rightarrow>
                           let newTokens = estimateTokensForMessages updated in
                           (case st_UpdateSessionTokens st sessionKey newTokens compactedAt w3 of
                              (Some e, w4) \<Rightarrow> w4
                            | (None, w4) \<Rightarrow>
                                if newTokens > sm_tokenBudget m then
                                  (case env_ctxErr env w4 of
                                     (Some e, w5) \<Rightarrow> w5
                                   | (None, w5) \<Rightarrow> env_spawn_compaction env sessionKey st w5)
                                else w4)))))"

definition dispatch ::
  "'w Env \<Rightarrow> 'w SessionManager \<Rightarrow> string \<Rightarrow> string \<Rightarrow> string \<Rightarrow> StrategicMessage list \<Rightarrow> int \<Rightarrow> bool
     \<Rightarrow> 'w CheckpointStore option \<Rightarrow> 'w \<Rightarrow> string result \<times> 'w" where
  "dispatch env m sessionKey userID userMessage messages iteration stateless store w =
     (let cleaned = fst (StripSilent userMessage);
          (messages1, w1) = prepareHistory env m sessionKey messages w;
          (stamp, w2) = env_stamp env w1 in
      case ru_Run (sm_runner m) sessionKey userID (messages1 @ [text_message RoleUser cleaned stamp]) w2 of
        (Inl e, w3) \<Rightarrow> (Inl (wrap_err ''runner.Run'' e), w3)
      | (Inr (response, updated0), w3) \<Rightarrow>
          (let (updated, w4) = addMissingTimestamps env updated0 w3;
               ((persisted, checkpointSaveFailed), w5) =
                 persistResult m sessionKey iteration updated stateless store w4;
               w6 = (if persisted then updateTokenBudget env m sessionKey updated store w5 else w5);
               (response1, w7) = (case sm_hooks m of
                                    None \<Rightarrow> (response, w6)
                                  | Some h \<Rightarrow> RunPostDispatch h sessionKey response w6);
               response2 = (if stateless then statelessWarning @ response1 else response1);
               response3 = (if checkpointSaveFailed then checkpointSaveWarning @ response2 else response2)
           in (Inr response3, w7)))"

definition Dispatch ::
  "'w Env \<Rightarrow> 'w SessionManager \<Rightarrow> string \<Rightarrow> string \<Rightarrow> string \<Rightarrow> 'w \<Rightarrow> string result \<times> 'w" where
  "Dispatch env m sessionKey userID userMessage w =
     (let unlock = (\<lambda>w. env_release env sessionKey (env_Unlock env sessionKey w));
          w1 = env_acquireLock env sessionKey (sm_lockTimeout m) w in
      case env_Lock env sessionKey w1 of
        (Some e, w2) \<Rightarrow> (Inl e, env_release env sessionKey w2)
      | (None, w2) \<Rightarrow>
          (case resolveStore m userID w2 of
             (store, w3) \<Rightarrow>
               (case loadHistory m sessionKey store w3 of
                  (Inl e, w4) \<Rightarrow> (Inl e, unlock w4)
                | (Inr (messages, iteration, stateless), w4) \<Rightarrow>
                    (let run = dispatch env m sessionKey userID userMessage messages iteration stateless store in
                     case sm_tracer m of
                       None \<Rightarrow> (case run w4 of (r, w5) \<Rightarrow> (r, unlock w5))
                     | Some trace \<Rightarrow>
                         (case trace sessionKey (length messages) run w4 of
                            (Inl e, w5) \<Rightarrow> (Inl (wrap_err ''trace dispatch'' e), unlock w5)
                          | (Inr resp, w5) \<Rightarrow> (Inr resp, unlock w5))))))"

section \<open>Compaction against the token budget\<close>

definition buildCompactionSummary ::
  "'w Env \<Rightarrow> 'w SessionManager \<Rightarrow> string \<Rightarrow> StrategicMessage list \<Rightarrow> 'w \<Rightarrow> string result \<times> 'w" where
  "buildCompactionSummary env m sessionKey toSummarize w =
     (let model = SummarizationModel (Summarization (sm_compactionPolicy m)) (sm_model m);
          inputText = concat (map message_line toSummarize) in
      case env_ctxErr env w of
        (Some e, w1) \<Rightarrow> (Inl (wrap_err ''summarize cancelled'' e), w1)
      | (None, w1) \<Rightarrow>
          (case ru_RunText (sm_runner m) sessionKey (summarizationPrompt @ inputText) model w1 of
             (Inl e, w2) \<Rightarrow> (Inl (wrap_err ''summarize'' e), w2)
           | (Inr result, w2) \<Rightarrow> (Inr result, w2)))"

definition refreshCompactionTokens ::
  "'w Env \<Rightarrow> string \<Rightarrow> 'w CheckpointStore \<Rightarrow> int \<Rightarrow> 'w \<Rightarrow> bool \<times> 'w" where
  "refreshCompactionTokens env sessionKey st estimated w =
     (case st_GetSessionTokens st sessionKey w of
        (Inl e, w1) \<Rightarrow> (False, w1)
      | (Inr (tokens, compactedAt), w1) \<Rightarrow>
          (case env_ctxErr env w1 of
             (Some e, w2) \<Rightarrow> (False, w2)
           | (None, w2) \<Rightarrow>
               (case (if tokens \<noteq> estimated then st_UpdateSessionTokens st sessionKey estimated compactedAt w2
                      else (None, w2)) of
                  (Some e, w3) \<Rightarrow> (False, w3)
                | (None, w3) \<Rightarrow>
                    (case env_ctxErr env w3 of
                       (Some e, w4) \<Rightarrow> (False, w4)
                     | (None, w4) \<Rightarrow> (True, w4)))))"

definition loadCompactionSnapshot ::
  "'w Env \<Rightarrow> 'w SessionManager \<Rightarrow> string \<Rightarrow> 'w CheckpointStore option \<Rightarrow> 'w \<Rightarrow> ThreadSnapshot option \<times> 'w" where
  "loadCompactionSnapshot env m sessionKey store w =
     (case store of
        None \<Rightarrow> (None, w)
      | Some st \<Rightarrow>
          if sm_tokenBudget m \<le> 0 then (None, w)
          else
            (case env_ctxErr env w of
               (Some e, w1) \<Rightarrow> (None, w1)
             | (None, w1) \<Rightarrow>
                 (case st_LoadLatest st sessionKey w1 of
                    (Inl e, w2) \<Rightarrow> (None, w2)
                  | (Inr None, w2) \<Rightarrow> (None, w2)
                  | (Inr (Some snap), w2) \<Rightarrow>
                      (let estimated = estimateTokensForMessages (Messages snap) in
                       case refreshCompactionTokens env sessionKey st estimated w2 of
                         (False, w3) \<Rightarrow> (None, w3)
                       | (True, w3) \<Rightarrow>
                           if estimated \<le> sm_tokenBudget m \<or> Messages snap = [] then (None, w3)
                           else (Some snap, w3)))))"

definition publishCompaction ::
  "'w Env \<Rightarrow> string \<Rightarrow> 'w CheckpointStore \<Rightarrow> ThreadSnapshot \<Rightarrow> StrategicMessage list \<Rightarrow> 'w \<Rightarrow> 'w" where
  "publishCompaction env sessionKey st snap compacted w =
     (case env_ctxErr env w of
        (Some e, w1) \<Rightarrow> w1
      | (None, w1) \<Rightarrow>
          (case st_SaveSnapshot st sessionKey (Iteration snap) compacted w1 of
             ((saved, Some e), w2) \<Rightarrow> w2
           | ((saved, None), w2) \<Rightarrow>
               if \<not> saved then w2
               else
                 (case env_ctxErr env w2 of
                    (Some e, w3) \<Rightarrow> w3
                  | (None, w3) \<Rightarrow>
                      (case env_now env w3 of
                         (now, w4) \<Rightarrow>
                           snd (st_UpdateSessionTokens st sessionKey (estimateTokensForMessages compacted) (Some now) w4)))))"

definition compactSessionLocked ::
  "'w Env \<Rightarrow> 'w SessionManager \<Rightarrow> string \<Rightarrow> 'w CheckpointStore option \<Rightarrow> 'w \<Rightarrow> 'w" where
  "compactSessionLocked env m sessionKey store w =
     (case loadCompactionSnapshot env m sessionKey store w of
        (None, w1) \<Rightarrow> w1
      | (Some snap, w1) \<Rightarrow>
          (let summaryTurns = nat (if sm_summaryTurns m \<le> 0 then 20 else sm_summaryTurns m);
               n = length (Messages snap) in
           if n \<le> summaryTurns then w1
           else
             (case buildCompactionSummary env m sessionKey (take (n - summaryTurns) (Messages snap)) w1 of
                (Inl e, w2) \<Rightarrow> w2
              | (Inr summary, w2) \<Rightarrow>
                  (case env_stamp env w2 of
                     (stamp, w3) \<Rightarrow>
                       publishCompaction env sessionKey (the store) snap
                         (summary_message summary stamp # drop (n - summaryTurns) (Messages snap)) w3))))"

definition compactSessionAsync ::
  "'w Env \<Rightarrow> 'w SessionManager \<Rightarrow> string \<Rightarrow> 'w CheckpointStore option \<Rightarrow> 'w \<Rightarrow> 'w" where
  "compactSessionAsync env m sessionKey store w =
     (let w1 = env_acquireLock env sessionKey (sm_lockTimeout m) w in
      case env_Lock env sessionKey w1 of
        (Some e, w2) \<Rightarrow> env_release env sessionKey w2
      | (None, w2) \<Rightarrow>
          env_release env sessionKey (env_Unlock env sessionKey (compactSessionLocked env m sessionKey store w2)))"

end
