(* ===== verification/Database.thy ===== *)
theory Database
  imports Messages GoTime "HOL-Library.AList" "HOL-Library.Product_Lexorder"
begin

text \<open>
  The tables of \<^verbatim>\<open>checkpoints.db\<close> as \<^verbatim>\<open>internal/context/db.go\<close> and \<^verbatim>\<open>internal/context/pairing.go\<close>
  create them, and the calls into the SQL driver. The driver and SQLite are not part of the
  program: every call into them takes its outcome from \<open>script\<close>, a list of the clock value at that
  call and the error the call fails with, if any. A call that does not fail has the effect of its
  SQL text on the tables, a call that fails has none. The state a store works on is thus the tables
  with every possible behaviour of the driver still to come.
\<close>

section \<open>Tables\<close>

record thread_row =
  th_status :: string
  th_model :: string
  th_metadata :: json
  th_updated_at :: string
  th_estimated_tokens :: int
  th_last_compacted_at :: "string option"

record checkpoint_row =
  cp_id :: int
  cp_thread :: string
  cp_iteration :: int
  cp_state :: json
  cp_checksum :: "string option"

record hitl_row =
  h_session_key :: string
  h_tool_name :: string
  h_args :: json
  h_status :: string
  h_created_at :: string
  h_decided_at :: "string option"

record idempotency_row =
  ik_tool_name :: string
  ik_params_hash :: string
  ik_result :: string
  ik_session_key :: string
  ik_created_at :: string

record authorized_row =
  au_authorized_at :: string
  au_authorized_by :: string

record code_row =
  pc_chat_id :: int
  pc_created_at :: string
  pc_expires_at :: string

record db =
  threads :: "(string \<times> thread_row) list"
  checkpoints :: "checkpoint_row list"
  next_checkpoint_id :: int
  hitl_approvals :: "(string \<times> hitl_row) list"
  idempotency_keys :: "(string \<times> idempotency_row) list"
  authorized_users :: "(int \<times> authorized_row) list"
  pairing_codes :: "(string \<times> code_row) list"
  db_now :: instant
  script :: "(instant \<times> go_error option) list"

definition empty_db :: "instant \<Rightarrow> db" where
  "empty_db now =
     \<lparr>threads = [], checkpoints = [], next_checkpoint_id = 1, hitl_approvals = [], idempotency_keys = [],
      authorized_users = [], pairing_codes = [], db_now = now, script = []\<rparr>"

section \<open>Driver calls\<close>

definition driver_call :: "db \<Rightarrow> go_error option \<times> db" where
  "driver_call db =
     (case script db of
        [] \<Rightarrow> (None, db)
      | (t, e) # rest \<Rightarrow> (e, db\<lparr>db_now := t, script := rest\<rparr>))"

definition sql_exec :: "(db \<Rightarrow> db) \<Rightarrow> db \<Rightarrow> go_error option \<times> db" where
  "sql_exec stmt db =
     (case driver_call db of
        (Some e, db') \<Rightarrow> (Some e, db')
      | (None, db') \<Rightarrow> (None, stmt db'))"

definition sql_query :: "(db \<Rightarrow> 'a) \<Rightarrow> db \<Rightarrow> 'a result \<times> db" where
  "sql_query q db =
     (case driver_call db of
        (Some e, db') \<Rightarrow> (Inl e, db')
      | (None, db') \<Rightarrow> (Inr (q db'), db'))"

text \<open>Rolling back restores the tables as they were when the transaction began; what the driver was
  asked meanwhile stays asked.\<close>

definition sql_rollback :: "db \<Rightarrow> db \<Rightarrow> db" where
  "sql_rollback begun db = begun\<lparr>db_now := db_now db, script := script db\<rparr>"

definition CURRENT_TIMESTAMP :: "db \<Rightarrow> string" where
  "CURRENT_TIMESTAMP db = FormatDateTime (db_now db)"

text \<open>The part of the state a program can read back: everything but the driver's future.\<close>

definition tables :: "db \<Rightarrow> db" where
  "tables db = db\<lparr>db_now := 0, script := []\<rparr>"

section \<open>Lemmas\<close>

named_theorems sql_defs

lemmas [sql_defs] = sql_exec_def sql_query_def sql_rollback_def

lemma driver_call_tables [simp]: "driver_call db = (e, db') \<Longrightarrow> tables db' = tables db"
  by (auto simp: driver_call_def tables_def split: list.splits prod.splits)

lemma tables_eqD:
  assumes "tables d = tables d'"
  shows "threads d = threads d'" "checkpoints d = checkpoints d'" "next_checkpoint_id d = next_checkpoint_id d'"
    "hitl_approvals d = hitl_approvals d'" "idempotency_keys d = idempotency_keys d'"
    "authorized_users d = authorized_users d'" "pairing_codes d = pairing_codes d'"
  using assms by (cases d; cases d'; simp add: tables_def)+

lemma tables_rollback [simp]: "tables (sql_rollback begun db) = tables begun"
  by (simp add: sql_rollback_def tables_def)

lemma sql_query_tables: "sql_query q db = (r, db') \<Longrightarrow> tables db' = tables db"
  by (auto simp: sql_query_def split: prod.splits option.splits)

text \<open>A query reads the tables it is asked about: its answer does not depend on the driver call.\<close>

lemma sql_query_result:
  assumes "sql_query q db = (Inr a, db')"
  shows "a = q db' \<and> tables db' = tables db"
  using assms by (auto simp: sql_query_def split: prod.splits option.splits)

lemma sql_exec_cases:
  assumes "sql_exec stmt db = (r, db')"
  obtains (failed) e where "r = Some e" "tables db' = tables db"
  | (ok) d where "r = None" "tables d = tables db" "db' = stmt d"
proof (cases "driver_call db")
  case (Pair e d)
  then have t: "tables d = tables db" by (rule driver_call_tables)
  show thesis
  proof (cases e)
    case None
    then show thesis using Pair assms ok [OF _ t] by (simp add: sql_exec_def)
  next
    case Some
    then show thesis using Pair assms failed t by (auto simp: sql_exec_def)
  qed
qed

lemma driver_call_no_script [simp]: "script db = [] \<Longrightarrow> driver_call db = (None, db)"
  by (simp add: driver_call_def)

lemma sql_no_script [simp]:
  "script db = [] \<Longrightarrow> sql_exec stmt db = (None, stmt db)"
  "script db = [] \<Longrightarrow> sql_query q db = (Inr (q db), db)"
  by (simp_all add: sql_exec_def sql_query_def)

end
