(* ===== verification/Checkpoint_Store.thy ===== *)
theory Checkpoint_Store
  imports Database Store_Interface "HOL-Library.List_Lexorder" "HOL-Library.Multiset"
begin

text \<open>
  The durable store of conversations, \<^verbatim>\<open>internal/context/manager.go\<close>: threads, checkpoints with
  bounded retention, token budgets and the decisions of human approval. The store's state is the
  database of theory \<open>Database\<close>. The checksum of a saved state is a parameter \<open>sha\<close>, the hex form of
  the SHA-256 sum of a document's text; \<open>scan\<close> is what the driver hands back for a stored
  \<^verbatim>\<open>DATETIME\<close> value, and \<open>fmt\<close> is \<^verbatim>\<open>Format(time.RFC3339)\<close> in the time zone of the value.
\<close>

section \<open>Definitions\<close>

definition maxCheckpointsPerThread :: nat where
  "maxCheckpointsPerThread = 10"

record ResumableThread =
  rt_ThreadID :: string
  rt_Model :: string
  rt_UpdatedAt :: string
  rt_LatestIteration :: int

definition CreateThread :: "string \<Rightarrow> string \<Rightarrow> json_object option \<Rightarrow> db \<Rightarrow> go_error option \<times> db" where
  "CreateThread threadID model metadata db =
     (let metaJSON = JObj (case metadata of None \<Rightarrow> [] | Some m \<Rightarrow> coerce_object m) in
      case sql_exec (\<lambda>d. d\<lparr>threads := AList.update threadID
             \<lparr>th_status = ''active'', th_model = model, th_metadata = metaJSON,
              th_updated_at = CURRENT_TIMESTAMP d, th_estimated_tokens = 0, th_last_compacted_at = None\<rparr>
             (threads d)\<rparr>) db of
        (Some e, db') \<Rightarrow> (Some (wrap_err ''CreateThread: exec'' e), db')
      | (None, db') \<Rightarrow> (None, db'))"

text \<open>The rows of a thread in the order of \<^verbatim>\<open>ORDER BY iteration DESC, checkpoint_id DESC\<close>.\<close>

definition newest_first :: "string \<Rightarrow> checkpoint_row list \<Rightarrow> checkpoint_row list" where
  "newest_first threadID rows =
     rev (sort_key (\<lambda>r. (cp_iteration r, cp_id r)) (filter (\<lambda>r. cp_thread r = threadID) rows))"

definition insert_checkpoint :: "string \<Rightarrow> int \<Rightarrow> json \<Rightarrow> string \<Rightarrow> db \<Rightarrow> db" where
  "insert_checkpoint threadID iteration stateJSON checksum d =
     d\<lparr>checkpoints := checkpoints d @
         [\<lparr>cp_id = next_checkpoint_id d, cp_thread = threadID, cp_iteration = iteration,
           cp_state = stateJSON, cp_checksum = Some checksum\<rparr>],
       next_checkpoint_id := next_checkpoint_id d + 1\<rparr>"

definition prune_checkpoints :: "string \<Rightarrow> db \<Rightarrow> db" where
  "prune_checkpoints threadID d =
     (let kept = map cp_id (take maxCheckpointsPerThread (newest_first threadID (checkpoints d)))
      in d\<lparr>checkpoints := filter (\<lambda>r. \<not> (cp_thread r = threadID \<and> cp_id r \<notin> set kept)) (checkpoints d)\<rparr>)"

definition update_thread :: "string \<Rightarrow> (db \<Rightarrow> thread_row \<Rightarrow> thread_row) \<Rightarrow> db \<Rightarrow> db" where
  "update_thread threadID f d =
     d\<lparr>threads := map (\<lambda>(k, r). if k = threadID then (k, f d r) else (k, r)) (threads d)\<rparr>"

definition touch_thread :: "string \<Rightarrow> db \<Rightarrow> db" where
  "touch_thread threadID = update_thread threadID (\<lambda>d r. r\<lparr>th_updated_at := CURRENT_TIMESTAMP d\<rparr>)"

text \<open>The body of the save transaction, from \<^verbatim>\<open>BeginTx\<close> to \<^verbatim>\<open>Commit\<close>. The deferred rollback undoes
  it on every early return.\<close>

definition save_transaction :: "string \<Rightarrow> int \<Rightarrow> json \<Rightarrow> string \<Rightarrow> db \<Rightarrow> (bool \<times> go_error option) \<times> db" where
  "save_transaction threadID iteration stateJSON checksum db =
     (case driver_call db of
        (Some e, db1) \<Rightarrow> ((False, Some (wrap_err ''SaveSnapshot: begin tx'' e)), db1)
      | (None, db1) \<Rightarrow>
          (case sql_exec (insert_checkpoint threadID iteration stateJSON checksum) db1 of
             (Some e, db2) \<Rightarrow> ((False, Some (wrap_err ''SaveSnapshot: insert checkpoint'' e)), sql_rollback db1 db2)
           | (None, db2) \<Rightarrow>
               (case sql_exec (prune_checkpoints threadID) db2 of
                  (Some e, db3) \<Rightarrow> ((False, Some (wrap_err ''SaveSnapshot: prune checkpoints'' e)), sql_rollback db1 db3)
                | (None, db3) \<Rightarrow>
                    (case sql_exec (touch_thread threadID) db3 of
                       (Some e, db4) \<Rightarrow> ((False, Some (wrap_err ''SaveSnapshot: update thread'' e)), sql_rollback db1 db4)
                     | (None, db4) \<Rightarrow>
                         (case driver_call db4 of
                            (Some e, db5) \<Rightarrow> ((False, Some (wrap_err ''SaveSnapshot: commit'' e)), sql_rollback db1 db5)
                          | (None, db5) \<Rightarrow> ((True, None), db5))))))"

definition SaveSnapshot ::
  "(json \<Rightarrow> string) \<Rightarrow> string \<Rightarrow> int \<Rightarrow> StrategicMessage list \<Rightarrow> db \<Rightarrow> (bool \<times> go_error option) \<times> db" where
  "SaveSnapshot sha threadID iteration messages db =
     (case marshal_messages messages of
        Inl e \<Rightarrow> ((False, Some (wrap_err ''SaveSnapshot: marshal messages'' e)), db)
      | Inr stateJSON \<Rightarrow>
          (case unmarshal_messages stateJSON of
             Inl e \<Rightarrow> ((False, Some (wrap_err ''SaveSnapshot: validate round-trip'' e)), db)
           | Inr check \<Rightarrow> save_transaction threadID iteration stateJSON (sha stateJSON) db))"

definition parseMetadata :: "json option \<Rightarrow> json_object option" where
  "parseMetadata metaJSON =
     (case metaJSON of
        None \<Rightarrow> Some []
      | Some j \<Rightarrow> (case unmarshal_map (Some j) of Inl e \<Rightarrow> Some [] | Inr m \<Rightarrow> m))"

definition isCompleted :: "string \<Rightarrow> db \<Rightarrow> bool \<times> db" where
  "isCompleted threadID db =
     (case sql_query (\<lambda>d. map_option th_status (map_of (threads d) threadID)) db of
        (Inl e, db') \<Rightarrow> (False, db')
      | (Inr status, db') \<Rightarrow> (status = Some ''completed'', db'))"

definition checksum_matches :: "(json \<Rightarrow> string) \<Rightarrow> checkpoint_row \<Rightarrow> bool" where
  "checksum_matches sha row \<longleftrightarrow>
     (case cp_checksum row of None \<Rightarrow> True | Some c \<Rightarrow> c = [] \<or> sha (cp_state row) = c)"

definition LoadLatest :: "(json \<Rightarrow> string) \<Rightarrow> string \<Rightarrow> db \<Rightarrow> ThreadSnapshot option result \<times> db" where
  "LoadLatest sha threadID db =
     (case isCompleted threadID db of
        (True, db1) \<Rightarrow> (Inr None, db1)
      | (False, db1) \<Rightarrow>
          (case sql_query (\<lambda>d. newest_first threadID (checkpoints d)) db1 of
             (Inl e, db2) \<Rightarrow> (Inl (wrap_err ''LoadLatest: scan checkpoint'' e), db2)
           | (Inr [], db2) \<Rightarrow> (Inr None, db2)
           | (Inr (row # _), db2) \<Rightarrow>
               if \<not> checksum_matches sha row then
                 (Inl (ErrorNew (''LoadLatest: checksum mismatch for thread '' @ threadID @ '' (stored '' @
                    the (cp_checksum row) @ '', computed '' @ sha (cp_state row) @ '')'')), db2)
               else
                 (case unmarshal_messages (cp_state row) of
                    Inl e \<Rightarrow> (Inl (wrap_err ''LoadLatest: unmarshal state'' e), db2)
                  | Inr messages \<Rightarrow>
                      (case sql_query (\<lambda>d. map_of (threads d) threadID) db2 of
                         (Inl e, db3) \<Rightarrow> (Inl (wrap_err ''LoadLatest: scan thread'' e), db3)
                       | (Inr trow, db3) \<Rightarrow>
                           (Inr (Some \<lparr>Iteration = cp_iteration row, Messages = messages,
                              Model = (case trow of None \<Rightarrow> [] | Some r \<Rightarrow> th_model r),
                              Metadata = parseMetadata (map_option th_metadata trow)\<rparr>), db3)))))"

definition CompleteThread :: "string \<Rightarrow> db \<Rightarrow> go_error option \<times> db" where
  "CompleteThread threadID db =
     (case sql_exec (update_thread threadID
             (\<lambda>d r. r\<lparr>th_status := ''completed'', th_updated_at := CURRENT_TIMESTAMP d\<rparr>)) db of
        (Some e, db') \<Rightarrow> (Some (wrap_err ''CompleteThread: exec'' e), db')
      | (None, db') \<Rightarrow> (None, db'))"

definition UpdateSessionTokens :: "(instant \<Rightarrow> string) \<Rightarrow> string \<Rightarrow> int \<Rightarrow> instant option \<Rightarrow> db \<Rightarrow> go_error option \<times> db" where
  "UpdateSessionTokens fmt threadID tokens compactedAt db =
     (case sql_exec (update_thread threadID
             (\<lambda>d r. r\<lparr>th_estimated_tokens := tokens, th_last_compacted_at := map_option fmt compactedAt\<rparr>)) db of
        (Some e, db') \<Rightarrow> (Some (wrap_err ''UpdateSessionTokens: exec'' e), db')
      | (None, db') \<Rightarrow> (None, db'))"

definition parse_compacted :: "string \<Rightarrow> instant option" where
  "parse_compacted s = (case ParseRFC3339 s of Some t \<Rightarrow> Some t | None \<Rightarrow> ParseDateTime s)"

definition GetSessionTokens :: "(string \<Rightarrow> string) \<Rightarrow> string \<Rightarrow> db \<Rightarrow> (int \<times> instant option) result \<times> db" where
  "GetSessionTokens scan threadID db =
     (case sql_query (\<lambda>d. map_of (threads d) threadID) db of
        (Inl e, db') \<Rightarrow> (Inl (wrap_err ''GetSessionTokens: scan'' e), db')
      | (Inr None, db') \<Rightarrow> (Inr (0, None), db')
      | (Inr (Some r), db') \<Rightarrow>
          (Inr (th_estimated_tokens r,
                case th_last_compacted_at r of
                  None \<Rightarrow> None
                | Some s \<Rightarrow> if scan s \<noteq> [] then parse_compacted (scan s) else None), db'))"

definition GetHITLApproval :: "string \<Rightarrow> db \<Rightarrow> string result \<times> db" where
  "GetHITLApproval reqID db =
     (case sql_query (\<lambda>d. map_of (hitl_approvals d) reqID) db of
        (Inl e, db') \<Rightarrow> (Inl (wrap_err ''GetHITLApproval'' e), db')
      | (Inr None, db') \<Rightarrow> (Inr [], db')
      | (Inr (Some r), db') \<Rightarrow> (Inr (h_status r), db'))"

definition hitl_decided :: "string \<Rightarrow> bool" where
  "hitl_decided status \<longleftrightarrow> status = ''approved'' \<or> status = ''rejected''"

definition hitl_waiting :: "string \<Rightarrow> bool" where
  "hitl_waiting status \<longleftrightarrow> status = ''sending'' \<or> status = ''pending''"

definition upsert_approval ::
  "string \<Rightarrow> string \<Rightarrow> string \<Rightarrow> json \<Rightarrow> string \<Rightarrow> string option \<Rightarrow> db \<Rightarrow> db" where
  "upsert_approval reqID sessionKey toolName args status decidedAt d =
     (case map_of (hitl_approvals d) reqID of
        None \<Rightarrow>
          d\<lparr>hitl_approvals := AList.update reqID
              \<lparr>h_session_key = sessionKey, h_tool_name = toolName, h_args = args, h_status = status,
               h_created_at = CURRENT_TIMESTAMP d, h_decided_at = decidedAt\<rparr> (hitl_approvals d)\<rparr>
      | Some r \<Rightarrow>
          if \<not> hitl_waiting status \<or> \<not> hitl_decided (h_status r) then
            d\<lparr>hitl_approvals := AList.update reqID
                (r\<lparr>h_status := status,
                   h_decided_at := (case decidedAt of None \<Rightarrow> h_decided_at r | Some t \<Rightarrow> Some t)\<rparr>)
                (hitl_approvals d)\<rparr>
          else d)"

text \<open>\<open>local_now\<close> is \<^verbatim>\<open>time.Now()\<close> printed in local time.\<close>

definition SaveHITLApproval ::
  "string \<Rightarrow> string \<Rightarrow> string \<Rightarrow> string \<Rightarrow> json \<Rightarrow> string \<Rightarrow> db \<Rightarrow> go_error option \<times> db" where
  "SaveHITLApproval local_now reqID sessionKey toolName args status db =
     (let decidedAt = (if hitl_decided status then Some local_now else None) in
      case sql_exec (upsert_approval reqID sessionKey toolName args status decidedAt) db of
        (Some e, db') \<Rightarrow> (Some (wrap_err ''SaveHITLApproval'' e), db')
      | (None, db') \<Rightarrow> (None, db'))"

definition resumable_rows :: "(string \<Rightarrow> string) \<Rightarrow> db \<Rightarrow> ResumableThread list" where
  "resumable_rows scan d =
     (let active = filter (\<lambda>(k, r). th_status r \<noteq> ''completed'' \<and>
                           list_ex (\<lambda>c. cp_thread c = k) (checkpoints d)) (threads d)
      in map (\<lambda>(k, r). \<lparr>rt_ThreadID = k, rt_Model = th_model r, rt_UpdatedAt = scan (th_updated_at r),
                         rt_LatestIteration = cp_iteration (hd (newest_first k (checkpoints d)))\<rparr>)
           (rev (sort_key (\<lambda>(k, r). map (of_char :: char \<Rightarrow> nat) (th_updated_at r)) active)))"

definition ListResumable :: "(string \<Rightarrow> string) \<Rightarrow> db \<Rightarrow> ResumableThread list result \<times> db" where
  "ListResumable scan db =
     (case sql_query (resumable_rows scan) db of
        (Inl e, db') \<Rightarrow> (Inl (wrap_err ''ListResumable: query'' e), db')
      | (Inr rows, db1) \<Rightarrow>
          (case driver_call db1 of
             (Some e, db2) \<Rightarrow> (Inl (wrap_err ''ListResumable: final iteration'' e), db2)
           | (None, db2) \<Rightarrow> (Inr rows, db2)))"

section \<open>Ordering and retention\<close>

lemma set_newest_first [simp]: "set (newest_first t rows) = {r \<in> set rows. cp_thread r = t}"
  by (auto simp: newest_first_def)

lemma newest_first_filter: "newest_first t (filter P rows) = filter P (newest_first t rows)"
  by (simp add: newest_first_def rev_filter filter_sort [symmetric] conj_commute)

lemma newest_first_other: "cp_thread r \<noteq> t \<Longrightarrow> newest_first t (rows @ [r]) = newest_first t rows"
  by (simp add: newest_first_def)

lemma sort_key_snoc_max:
  assumes "\<And>y. y \<in> set xs \<Longrightarrow> f y < f x"
  shows "sort_key f (xs @ [x]) = sort_key f xs @ [x]"
proof (rule properties_for_sort_key)
  show "mset (sort_key f xs @ [x]) = mset (xs @ [x])" by simp
  show "sorted (map f (sort_key f xs @ [x]))"
    using assms by (auto simp: sorted_append intro: less_imp_le)
  show "filter (\<lambda>y. f k = f y) (sort_key f xs @ [x]) = filter (\<lambda>y. f k = f y) (xs @ [x])" for k
  proof -
    have "(\<lambda>y. f k = f y) = (\<lambda>y. f y = f k)" by auto
    then show ?thesis using sort_key_stable [of f "f k" xs] by simp
  qed
qed

text \<open>A row newer than every row of its thread is read first.\<close>

lemma newest_first_snoc:
  assumes "cp_thread r = t"
    and "\<And>r'. r' \<in> set rows \<Longrightarrow> cp_thread r' = t \<Longrightarrow> (cp_iteration r', cp_id r') < (cp_iteration r, cp_id r)"
  shows "newest_first t (rows @ [r]) = r # newest_first t rows"
proof -
  have "sort_key (\<lambda>r. (cp_iteration r, cp_id r)) (filter (\<lambda>r. cp_thread r = t) rows @ [r]) =
      sort_key (\<lambda>r. (cp_iteration r, cp_id r)) (filter (\<lambda>r. cp_thread r = t) rows) @ [r]"
    by (rule sort_key_snoc_max) (use assms in auto)
  then show ?thesis using assms(1) by (simp add: newest_first_def)
qed

lemma newest_first_hd_max:
  assumes "newest_first t rows = r # rs" "r' \<in> set rows" "cp_thread r' = t"
  shows "(cp_iteration r', cp_id r') \<le> (cp_iteration r, cp_id r)"
proof -
  let ?k = "\<lambda>r. (cp_iteration r, cp_id r)"
  have "sorted (map ?k (rev (r # rs)))"
    unfolding assms(1) [symmetric] by (simp add: newest_first_def)
  moreover have "r' \<in> set (r # rs)" using assms by (simp add: assms(1) [symmetric])
  ultimately show ?thesis by (auto simp: sorted_append)
qed

text \<open>A row older than the first one does not change which row is read first.\<close>

lemma newest_first_older:
  assumes "newest_first t rows = r # rs" "distinct (map cp_id rows)"
    and "(cp_iteration n, cp_id n) < (cp_iteration r, cp_id r)"
  shows "\<exists>rs'. newest_first t (rows @ [n]) = r # rs'"
proof -
  have r: "r \<in> set rows" "cp_thread r = t"
    using set_newest_first [of t rows] assms(1) by auto
  then have "r \<in> set (newest_first t (rows @ [n]))" by simp
  then obtain h hs where h: "newest_first t (rows @ [n]) = h # hs"
    by (cases "newest_first t (rows @ [n])") auto
  have hset: "h \<in> set (rows @ [n])" "cp_thread h = t"
    using set_newest_first [of t "rows @ [n]"] h by auto
  have ge: "(cp_iteration r, cp_id r) \<le> (cp_iteration h, cp_id h)"
    using newest_first_hd_max [OF h] r by simp
  with assms(3) have "h \<noteq> n" by auto
  with hset have hr: "h \<in> set rows" by simp
  with newest_first_hd_max [OF assms(1)] hset(2) ge have "cp_id h = cp_id r"
    by (metis order.antisym prod.inject)
  with assms(2) hr r(1) have "h = r" by (meson distinct_map inj_onD)
  with h show ?thesis by blast
qed

lemma filter_ids_take:
  "distinct (map f L) \<Longrightarrow> filter (\<lambda>r. f r \<in> set (map f (take n L))) L = take n L"
proof (induction L arbitrary: n)
  case (Cons x L)
  then show ?case
  proof (cases n)
    case (Suc m)
    have "filter (\<lambda>r. f r = f x \<or> f r \<in> f ` set (take m L)) L = filter (\<lambda>r. f r \<in> f ` set (take m L)) L"
      using Cons.prems by (intro filter_cong) (auto simp: rev_image_eqI)
    then show ?thesis using Cons Suc by simp
  qed simp
qed simp

lemma distinct_newest_first:
  assumes "distinct (map cp_id rows)"
  shows "distinct (map cp_id (newest_first t rows))"
proof -
  have "distinct (map cp_id (filter (\<lambda>r. cp_thread r = t) rows))"
    using assms by (rule distinct_map_filter)
  then show ?thesis
    by (simp add: newest_first_def distinct_map rev_map inj_on_def)
qed

text \<open>The delete statement of a save keeps of its thread the ten rows that are read first, and all of
  every other thread.\<close>

lemma newest_first_prune:
  assumes "distinct (map cp_id (checkpoints d))"
  shows "newest_first t (checkpoints (prune_checkpoints t d)) =
         take maxCheckpointsPerThread (newest_first t (checkpoints d))"
proof -
  let ?L = "newest_first t (checkpoints d)"
  have "newest_first t (checkpoints (prune_checkpoints t d)) =
      filter (\<lambda>r. \<not> (cp_thread r = t \<and> cp_id r \<notin> set (map cp_id (take maxCheckpointsPerThread ?L)))) ?L"
    by (simp add: prune_checkpoints_def newest_first_filter Let_def)
  also have "\<dots> = filter (\<lambda>r. cp_id r \<in> set (map cp_id (take maxCheckpointsPerThread ?L))) ?L"
    by (rule filter_cong) auto
  also have "\<dots> = take maxCheckpointsPerThread ?L"
    by (rule filter_ids_take) (rule distinct_newest_first [OF assms])
  finally show ?thesis .
qed

lemma newest_first_prune_other:
  "t' \<noteq> t \<Longrightarrow> newest_first t' (checkpoints (prune_checkpoints t d)) = newest_first t' (checkpoints d)"
  by (auto simp: prune_checkpoints_def newest_first_filter Let_def intro: filter_True)

section \<open>The state of the store\<close>

definition store_inv :: "db \<Rightarrow> bool" where
  "store_inv d \<longleftrightarrow>
     distinct (map cp_id (checkpoints d)) \<and>
     list_all (\<lambda>r. cp_id r < next_checkpoint_id d) (checkpoints d) \<and>
     distinct (map fst (threads d)) \<and> distinct (map fst (hitl_approvals d))"

definition status_of :: "db \<Rightarrow> string \<Rightarrow> string option" where
  "status_of d t = map_option th_status (map_of (threads d) t)"

text \<open>What a reload of a thread finds: the row that is read first, unless the thread is completed.\<close>

definition latest_row :: "db \<Rightarrow> string \<Rightarrow> checkpoint_row option" where
  "latest_row d t =
     (if status_of d t = Some ''completed'' then None
      else case newest_first t (checkpoints d) of [] \<Rightarrow> None | r # _ \<Rightarrow> Some r)"

lemma map_of_update_thread:
  "map_of (threads (update_thread t f d)) k =
     (if k = t then map_option (f d) (map_of (threads d) k) else map_of (threads d) k)"
proof -
  have "map_of (map (\<lambda>(k, r). if k = t then (k, f d r) else (k, r)) al) k =
      (if k = t then map_option (f d) (map_of al k) else map_of al k)" for al
    by (induction al) auto
  then show ?thesis by (simp add: update_thread_def)
qed

lemma fst_update_thread [simp]: "map fst (threads (update_thread t f d)) = map fst (threads d)"
  by (simp add: update_thread_def o_def split_def if_distrib cong: if_cong)

lemma update_thread_others [simp]:
  "checkpoints (update_thread t f d) = checkpoints d"
  "next_checkpoint_id (update_thread t f d) = next_checkpoint_id d"
  "hitl_approvals (update_thread t f d) = hitl_approvals d"
  by (simp_all add: update_thread_def)

lemma status_of_touch [simp]: "status_of (touch_thread t d) = status_of d"
  by (rule ext) (simp add: status_of_def touch_thread_def map_of_update_thread option.map_comp o_def)

section \<open>What each operation does to the state\<close>

text \<open>A save either fails and leaves every table as it was, or adds its row, prunes its thread and
  stamps the thread.\<close>

lemma save_transaction_cases:
  assumes "save_transaction t it st ck db = (res, db')"
  obtains (failed) e where "res = (False, Some e)" "tables db' = tables db"
  | (saved) d1 d2 d3 where "res = (True, None)" "tables d1 = tables db"
      "tables d2 = tables (insert_checkpoint t it st ck d1)" "tables d3 = tables (prune_checkpoints t d2)"
      "tables db' = tables (touch_thread t d3)"
proof (cases "driver_call db")
  case (Pair e1 db1)
  then have t1: "tables db1 = tables db" by (rule driver_call_tables)
  show thesis
  proof (cases e1)
    case Some
    then show thesis using assms Pair t1 failed by (auto simp: save_transaction_def)
  next
    case None
    note s1 = assms [unfolded save_transaction_def Pair None, simplified]
    obtain e2 db2 where x2: "sql_exec (insert_checkpoint t it st ck) db1 = (e2, db2)" by fastforce
    obtain e3 db3 where x3: "sql_exec (prune_checkpoints t) db2 = (e3, db3)" by fastforce
    obtain e4 db4 where x4: "sql_exec (touch_thread t) db3 = (e4, db4)" by fastforce
    obtain e5 db5 where x5: "driver_call db4 = (e5, db5)" by fastforce
    show thesis
    proof (cases "e2 = None \<and> e3 = None \<and> e4 = None \<and> e5 = None")
      case True
      then have ok: "e2 = None" "e3 = None" "e4 = None" "e5 = None" by auto
      obtain d1 where d1: "tables d1 = tables db1" "db2 = insert_checkpoint t it st ck d1"
        using x2 ok(1) by (auto elim: sql_exec_cases)
      obtain d2 where d2: "tables d2 = tables db2" "db3 = prune_checkpoints t d2"
        using x3 ok(2) by (auto elim: sql_exec_cases)
      obtain d3 where d3: "tables d3 = tables db3" "db4 = touch_thread t d3"
        using x4 ok(3) by (auto elim: sql_exec_cases)
      have "res = (True, None)" "db' = db5" using s1 x2 x3 x4 x5 ok by simp_all
      then show thesis
        using saved [of d1 d2 d3] d1 d2 d3 t1 driver_call_tables [OF x5] by simp
    next
      case False
      then have "\<exists>e. res = (False, Some e) \<and> tables db' = tables db1"
        using s1 x2 x3 x4 x5 by (auto split: option.splits)
      then show thesis using failed t1 by auto
    qed
  qed
qed

definition saved_row :: "string \<Rightarrow> int \<Rightarrow> json \<Rightarrow> string \<Rightarrow> db \<Rightarrow> checkpoint_row" where
  "saved_row t it st ck d =
     \<lparr>cp_id = next_checkpoint_id d, cp_thread = t, cp_iteration = it, cp_state = st, cp_checksum = Some ck\<rparr>"

lemma status_of_cong: "tables d = tables d' \<Longrightarrow> status_of d = status_of d'"
  by (rule ext) (drule tables_eqD(1), simp add: status_of_def)

lemma latest_row_cong:
  assumes "tables d = tables d'"
  shows "latest_row d = latest_row d'"
  using tables_eqD(2) [OF assms] status_of_cong [OF assms] by (simp add: latest_row_def fun_eq_iff)

lemma store_inv_cong:
  assumes "tables d = tables d'"
  shows "store_inv d = store_inv d'"
  using tables_eqD [OF assms] by (simp add: store_inv_def)

lemma prune_checkpoints_cong:
  "checkpoints d = checkpoints d' \<Longrightarrow> checkpoints (prune_checkpoints t d) = checkpoints (prune_checkpoints t d')"
  by (simp add: prune_checkpoints_def Let_def)

lemma touch_thread_others [simp]:
  "checkpoints (touch_thread t d) = checkpoints d"
  "next_checkpoint_id (touch_thread t d) = next_checkpoint_id d"
  "hitl_approvals (touch_thread t d) = hitl_approvals d"
  "map fst (threads (touch_thread t d)) = map fst (threads d)"
  by (simp_all add: touch_thread_def)

lemma prune_checkpoints_others [simp]:
  "threads (prune_checkpoints t d) = threads d"
  "next_checkpoint_id (prune_checkpoints t d) = next_checkpoint_id d"
  "hitl_approvals (prune_checkpoints t d) = hitl_approvals d"
  by (simp_all add: prune_checkpoints_def Let_def)

lemma insert_checkpoint_simps [simp]:
  "checkpoints (insert_checkpoint t it st ck d) = checkpoints d @ [saved_row t it st ck d]"
  "threads (insert_checkpoint t it st ck d) = threads d"
  "next_checkpoint_id (insert_checkpoint t it st ck d) = next_checkpoint_id d + 1"
  "hitl_approvals (insert_checkpoint t it st ck d) = hitl_approvals d"
  by (simp_all add: insert_checkpoint_def saved_row_def)

lemma save_transaction_saved:
  assumes "save_transaction t it st ck db = ((True, x), db')"
  shows "x = None"
    "checkpoints db' = checkpoints (prune_checkpoints t (insert_checkpoint t it st ck db))"
    "next_checkpoint_id db' = next_checkpoint_id db + 1"
    "status_of db' = status_of db" "map fst (threads db') = map fst (threads db)"
    "hitl_approvals db' = hitl_approvals db"
proof -
  from assms obtain d1 d2 d3 where d: "x = None" "tables d1 = tables db"
      "tables d2 = tables (insert_checkpoint t it st ck d1)" "tables d3 = tables (prune_checkpoints t d2)"
      "tables db' = tables (touch_thread t d3)"
    by (rule save_transaction_cases) auto
  note e1 = tables_eqD [OF d(2)] and e2 = tables_eqD [OF d(3)]
    and e3 = tables_eqD [OF d(4)] and e4 = tables_eqD [OF d(5)]
  show "x = None" by (rule d(1))
  have "checkpoints d2 = checkpoints (insert_checkpoint t it st ck db)"
    using e1 e2 by (simp add: saved_row_def)
  from prune_checkpoints_cong [OF this]
  show "checkpoints db' = checkpoints (prune_checkpoints t (insert_checkpoint t it st ck db))"
    using e3 e4 by simp
  show "next_checkpoint_id db' = next_checkpoint_id db + 1"
    and "hitl_approvals db' = hitl_approvals db"
    and "map fst (threads db') = map fst (threads db)"
    using e1 e2 e3 e4 by simp_all
  have "status_of db' = status_of d3" using status_of_cong [OF d(5)] by simp
  then show "status_of db' = status_of db" using e1 e2 e3 by (simp add: status_of_def fun_eq_iff)
qed

lemma insert_distinct:
  "store_inv d \<Longrightarrow> distinct (map cp_id (checkpoints (insert_checkpoint t it st ck d)))"
  by (auto simp: store_inv_def saved_row_def list_all_iff)

lemma prune_distinct:
  "distinct (map cp_id (checkpoints d)) \<Longrightarrow> distinct (map cp_id (checkpoints (prune_checkpoints t d)))"
  by (simp add: prune_checkpoints_def Let_def distinct_map_filter)

lemma save_transaction_inv:
  assumes "store_inv db" "save_transaction t it st ck db = (res, db')"
  shows "store_inv db'"
  using assms(2)
proof (rule save_transaction_cases)
  assume "tables db' = tables db" then show ?thesis using store_inv_cong assms(1) by blast
next
  fix d1 d2 d3
  assume "res = (True, None)"
  with assms(2) have "save_transaction t it st ck db = ((True, None), db')" by simp
  note s = save_transaction_saved [OF this]
  have "set (checkpoints db') \<subseteq> set (checkpoints (insert_checkpoint t it st ck db))"
    unfolding s(2) by (auto simp: prune_checkpoints_def Let_def)
  moreover have "distinct (map cp_id (checkpoints db'))"
    unfolding s(2) by (rule prune_distinct [OF insert_distinct [OF assms(1)]])
  ultimately show ?thesis
    using assms(1) s by (force simp: store_inv_def list_all_iff saved_row_def)
qed

text \<open>The rows of the thread after a save, newest first, when no stored iteration is higher.\<close>

lemma save_newest_first:
  assumes inv: "store_inv db" and save: "save_transaction t it st ck db = ((True, x), db')"
    and le: "\<And>r. r \<in> set (checkpoints db) \<Longrightarrow> cp_thread r = t \<Longrightarrow> cp_iteration r \<le> it"
  shows "newest_first t (checkpoints db') =
    saved_row t it st ck db # take (maxCheckpointsPerThread - 1) (newest_first t (checkpoints db))"
proof -
  have "newest_first t (checkpoints db @ [saved_row t it st ck db]) =
      saved_row t it st ck db # newest_first t (checkpoints db)"
  proof (rule newest_first_snoc)
    show "(cp_iteration r', cp_id r') < (cp_iteration (saved_row t it st ck db), cp_id (saved_row t it st ck db))"
      if "r' \<in> set (checkpoints db)" "cp_thread r' = t" for r'
      using that inv le [OF that] by (auto simp: saved_row_def store_inv_def list_all_iff less_prod_def')
  qed (simp add: saved_row_def)
  moreover have "maxCheckpointsPerThread = Suc (maxCheckpointsPerThread - 1)"
    by (simp add: maxCheckpointsPerThread_def)
  ultimately show ?thesis
    using newest_first_prune [OF insert_distinct [OF inv, of t it st ck], of t]
    by (simp add: save_transaction_saved(2) [OF save]) (metis take_Suc_Cons)
qed

lemma save_other_thread:
  assumes "save_transaction t it st ck db = ((b, x), db')" "t' \<noteq> t"
  shows "newest_first t' (checkpoints db') = newest_first t' (checkpoints db)"
proof (cases b)
  case True
  have "newest_first t' (checkpoints (insert_checkpoint t it st ck db)) = newest_first t' (checkpoints db)"
    using assms(2) by (simp add: newest_first_other saved_row_def)
  then show ?thesis
    using True assms(1) newest_first_prune_other [OF assms(2)] save_transaction_saved(2) [of t it st ck db x db']
    by simp
next
  case False
  then have "tables db' = tables db" using assms(1) by (auto elim: save_transaction_cases)
  from tables_eqD(2) [OF this] show ?thesis by simp
qed

section \<open>Loading\<close>

lemma isCompleted_tables: "isCompleted t db = (b, db') \<Longrightarrow> tables db' = tables db"
  by (auto simp: isCompleted_def split: prod.splits sum.splits dest: sql_query_tables)

lemma isCompleted_sound:
  assumes "isCompleted t db = (True, db')"
  shows "status_of db t = Some ''completed''"
proof -
  have "sql_query (\<lambda>d. map_option th_status (map_of (threads d) t)) db = (Inr (Some ''completed''), db')"
    using assms by (auto simp: isCompleted_def split: prod.splits sum.splits)
  from sql_query_result [OF this] show ?thesis
    by (auto simp: status_of_def dest: tables_eqD(1))
qed

lemma LoadLatest_tables:
  assumes "LoadLatest sha t db = (r, db')"
  shows "tables db' = tables db"
proof (cases "isCompleted t db")
  case (Pair b db1)
  then have t1: "tables db1 = tables db" by (rule isCompleted_tables)
  obtain q2 db2 where q2: "sql_query (\<lambda>d. newest_first t (checkpoints d)) db1 = (q2, db2)" by fastforce
  obtain q3 db3 where q3: "sql_query (\<lambda>d. map_of (threads d) t) db2 = (q3, db3)" by fastforce
  have "db' = db1 \<or> db' = db2 \<or> db' = db3"
    using assms Pair q2 q3
    by (auto simp: LoadLatest_def split: bool.splits sum.splits list.splits if_splits)
  then show ?thesis
    using t1 sql_query_tables [OF q2] sql_query_tables [OF q3] by auto
qed

text \<open>What a load of a thread that is not completed returns, if it returns.\<close>

lemma LoadLatest_result:
  assumes "LoadLatest sha t db = (Inr r, db')" and active: "status_of db t \<noteq> Some ''completed''"
  shows "case newest_first t (checkpoints db) of
      [] \<Rightarrow> r = None
    | row # _ \<Rightarrow> checksum_matches sha row \<and>
        (\<exists>s. r = Some s \<and> Iteration s = cp_iteration row \<and> unmarshal_messages (cp_state row) = Inr (Messages s))"
proof (cases "isCompleted t db")
  case (Pair b db1)
  have b: "\<not> b" using Pair isCompleted_sound active by (cases b) auto
  have t1: "tables db1 = tables db" using Pair by (rule isCompleted_tables)
  obtain q2 db2 where q2: "sql_query (\<lambda>d. newest_first t (checkpoints d)) db1 = (q2, db2)" by fastforce
  obtain q3 db3 where q3: "sql_query (\<lambda>d. map_of (threads d) t) db2 = (q3, db3)" by fastforce
  from assms(1) Pair b q2 obtain rows where rows: "q2 = Inr rows"
    by (cases q2) (auto simp: LoadLatest_def)
  then have "rows = newest_first t (checkpoints db)"
    using sql_query_result [OF q2 [unfolded rows]] t1 by (auto dest: tables_eqD(2))
  moreover have "case rows of [] \<Rightarrow> r = None
    | row # _ \<Rightarrow> checksum_matches sha row \<and>
        (\<exists>s. r = Some s \<and> Iteration s = cp_iteration row \<and> unmarshal_messages (cp_state row) = Inr (Messages s))"
    using assms(1) Pair b q2 q3 rows
    by (auto simp: LoadLatest_def split: list.splits sum.splits if_splits)
  ultimately show ?thesis by simp
qed

text \<open>Without driver faults a load of a thread that is not completed returns what its first row holds.\<close>

lemma LoadLatest_no_faults:
  assumes "script db = []" and "status_of db t \<noteq> Some ''completed''"
    and "newest_first t (checkpoints db) = row # rows"
    and "checksum_matches sha row" "unmarshal_messages (cp_state row) = Inr ms"
  shows "\<exists>s. LoadLatest sha t db = (Inr (Some s), db) \<and> Iteration s = cp_iteration row \<and> Messages s = ms"
proof -
  have "isCompleted t db = (False, db)"
    using assms(1,2) by (auto simp: isCompleted_def status_of_def)
  then show ?thesis using assms by (simp add: LoadLatest_def)
qed

section \<open>Properties of the store\<close>

lemma SaveSnapshot_saved:
  assumes "SaveSnapshot sha t it ms db = ((True, e), db')"
  obtains st where "marshal_messages ms = Inr st" "save_transaction t it st (sha st) db = ((True, e), db')"
  using assms by (auto simp: SaveSnapshot_def split: sum.splits)

lemma SaveSnapshot_failed:
  assumes "SaveSnapshot sha t it ms db = ((False, e), db')"
  shows "e \<noteq> None \<and> tables db' = tables db"
  using assms by (auto simp: SaveSnapshot_def split: sum.splits elim: save_transaction_cases)

lemma SaveSnapshot_reads_back:
  assumes "store_inv db" "SaveSnapshot sha t it ms db = ((True, e), db')" "list_all wf_message ms"
    and "\<And>r. r \<in> set (checkpoints db) \<Longrightarrow> cp_thread r = t \<Longrightarrow> cp_iteration r \<le> it"
  obtains row rows where "newest_first t (checkpoints db') = row # rows" "cp_iteration row = it"
    "checksum_matches sha row" "unmarshal_messages (cp_state row) = Inr (map coerce_message ms)"
proof -
  obtain st where st: "marshal_messages ms = Inr st" "save_transaction t it st (sha st) db = ((True, e), db')"
    using assms(2) by (rule SaveSnapshot_saved)
  have "unmarshal_messages st = Inr (map coerce_message ms)" using messages_roundtrip [OF assms(3)] st(1) by auto
  then show thesis
    using that save_newest_first [OF assms(1) st(2) assms(4)]
    by (simp add: saved_row_def checksum_matches_def)
qed

text \<open>Well-formed messages are saved whenever the driver does not fail.\<close>

lemma SaveSnapshot_no_faults:
  assumes "list_all wf_message ms" "script db = []"
  obtains db' where "SaveSnapshot sha t it ms db = ((True, None), db')" "script db' = []"
proof -
  obtain st where st: "marshal_messages ms = Inr st" "unmarshal_messages st = Inr (map coerce_message ms)"
    using messages_roundtrip [OF assms(1)] by blast
  have "script (insert_checkpoint t it st (sha st) db) = []"
    "script (prune_checkpoints t d) = script d" "script (touch_thread t d) = script d" for d
    using assms(2)
    by (simp_all add: insert_checkpoint_def prune_checkpoints_def touch_thread_def update_thread_def Let_def)
  then show thesis
    using that [of "touch_thread t (prune_checkpoints t (insert_checkpoint t it st (sha st) db))"] st assms(2)
    by (simp add: SaveSnapshot_def save_transaction_def)
qed

text \<open>
  \<^bold>\<open>C2.\<close> A saved conversation is the one a reload finds: for a thread that is not marked completed, messages
  that are well-formed and an iteration no lower than any stored one, a save that reported success
  makes a load without driver faults return exactly that iteration and those messages, each string
  with its invalid UTF-8 replaced by U+FFFD; messages of valid UTF-8 come back exactly.
\<close>

theorem SaveSnapshot_LoadLatest:
  assumes "store_inv db" "list_all wf_message ms" "status_of db t \<noteq> Some ''completed''"
    and "\<forall>r \<in> set (checkpoints db). cp_thread r = t \<longrightarrow> cp_iteration r \<le> it"
    and save: "SaveSnapshot sha t it ms db = ((True, e), db')" and "script db' = []"
  shows "\<exists>s. LoadLatest sha t db' = (Inr (Some s), db') \<and> Iteration s = it \<and>
    Messages s = map coerce_message ms \<and> ((\<forall>m \<in> set ms. coerce_message m = m) \<longrightarrow> Messages s = ms)"
proof -
  obtain row rows where row: "newest_first t (checkpoints db') = row # rows" "cp_iteration row = it"
    "checksum_matches sha row" "unmarshal_messages (cp_state row) = Inr (map coerce_message ms)"
    using SaveSnapshot_reads_back [OF assms(1) save assms(2)] assms(4) by blast
  have "status_of db' = status_of db"
    using save by (auto elim!: SaveSnapshot_saved dest: save_transaction_saved(4))
  with LoadLatest_no_faults [OF assms(6) _ row(1,3,4)] assms(3) row(2)
  obtain s where s: "LoadLatest sha t db' = (Inr (Some s), db')" "Iteration s = it" "Messages s = map coerce_message ms"
    by auto
  moreover have "Messages s = ms" if "\<forall>m \<in> set ms. coerce_message m = m"
    using s(3) that by (simp add: map_idI)
  ultimately show ?thesis by blast
qed

definition sample_db :: db where
  "sample_db = snd (CreateThread ''s'' ''gemini'' None (empty_db 1772362800000000000))"

lemma sample_db_facts:
  "store_inv sample_db" "status_of sample_db ''s'' = Some ''active''" "checkpoints sample_db = []"
  "script sample_db = []"
  by (simp_all add: sample_db_def CreateThread_def empty_db_def store_inv_def status_of_def)

lemma sample_items_wf: "list_all wf_message sample_items"
  using sample_wf by simp

lemma sample_save:
  "fst (SaveSnapshot sha ''s'' 1 sample_items sample_db) = (True, None)"
  "script (snd (SaveSnapshot sha ''s'' 1 sample_items sample_db)) = []"
  by (rule SaveSnapshot_no_faults [OF sample_items_wf sample_db_facts(4), of sha "''s''" 1]; simp)+

text \<open>The saved history holds a tool answer cut in the middle of a character.\<close>

lemma SaveSnapshot_LoadLatest_witness:
  "\<exists>db' s. SaveSnapshot (\<lambda>_. ''h'') ''s'' 1 (sample_cut # sample_items) sample_db = ((True, None), db') \<and>
     fst (LoadLatest (\<lambda>_. ''h'') ''s'' db') = Inr (Some s) \<and> Iteration s = 1 \<and>
     Messages s = coerce_message sample_cut # sample_items"
proof -
  obtain db' where db': "SaveSnapshot (\<lambda>_. ''h'') ''s'' 1 (sample_cut # sample_items) sample_db = ((True, None), db')"
    "script db' = []"
    using SaveSnapshot_no_faults [OF sample_wf sample_db_facts(4)] by blast
  have "status_of sample_db ''s'' \<noteq> Some ''completed''" using sample_db_facts(2) by simp
  moreover have "\<forall>r \<in> set (checkpoints sample_db). cp_thread r = ''s'' \<longrightarrow> cp_iteration r \<le> 1"
    using sample_db_facts(3) by simp
  ultimately show ?thesis
    using SaveSnapshot_LoadLatest [OF sample_db_facts(1) sample_wf _ _ db'] db'(1) sample_items_valid by auto
qed

text \<open>
  \<^bold>\<open>C3.\<close> Retention and atomicity of a save: it keeps the store's invariant and every row of the other
  threads; when it fails no table has changed; when it succeeds its thread holds the ten rows that
  are read first of the old rows and the new one, so never more than ten.
\<close>

theorem SaveSnapshot_retention:
  assumes "store_inv db" "SaveSnapshot sha t it ms db = ((saved, e), db')"
  shows "store_inv db' \<and>
    (\<forall>t'. t' \<noteq> t \<longrightarrow> newest_first t' (checkpoints db') = newest_first t' (checkpoints db)) \<and>
    (\<not> saved \<longrightarrow> e \<noteq> None \<and> tables db' = tables db) \<and>
    (saved \<longrightarrow> e = None \<and> length (newest_first t (checkpoints db')) \<le> 10 \<and>
       (\<exists>st. marshal_messages ms = Inr st \<and>
          newest_first t (checkpoints db') =
            take 10 (newest_first t (checkpoints db @ [saved_row t it st (sha st) db]))))"
proof (cases saved)
  case True
  with assms(2) obtain st where st: "marshal_messages ms = Inr st"
    "save_transaction t it st (sha st) db = ((True, e), db')"
    using SaveSnapshot_saved by metis
  note s = save_transaction_saved [OF st(2)]
  have "newest_first t (checkpoints db') = take 10 (newest_first t (checkpoints db @ [saved_row t it st (sha st) db]))"
    using newest_first_prune [OF insert_distinct [OF assms(1), of t it st "sha st"], of t]
    by (simp add: s(2) maxCheckpointsPerThread_def)
  then show ?thesis
    using True s(1) st save_transaction_inv [OF assms(1) st(2)] save_other_thread [OF st(2)] by auto
next
  case False
  then have f: "e \<noteq> None" "tables db' = tables db"
    using SaveSnapshot_failed assms(2) by auto
  then show ?thesis
    using False assms(1) store_inv_cong [OF f(2)] tables_eqD(2) [OF f(2)] by simp
qed

lemma SaveSnapshot_retention_witness:
  "store_inv (snd (SaveSnapshot (\<lambda>_. ''h'') ''s'' 1 sample_items sample_db))"
  using SaveSnapshot_retention [OF sample_db_facts(1),
      of "\<lambda>_. ''h''" "''s''" 1 sample_items True None "snd (SaveSnapshot (\<lambda>_. ''h'') ''s'' 1 sample_items sample_db)"]
    sample_save [of "\<lambda>_. ''h''"] by (auto simp: prod_eq_iff)

lemma CreateThread_no_faults:
  assumes "script db = []"
  shows "fst (CreateThread t model meta db) = None" "script (snd (CreateThread t model meta db)) = []"
    "checkpoints (snd (CreateThread t model meta db)) = checkpoints db"
    "status_of (snd (CreateThread t model meta db)) = (status_of db)(t \<mapsto> ''active'')"
    "store_inv db \<Longrightarrow> store_inv (snd (CreateThread t model meta db))"
  using assms
  by (auto simp: CreateThread_def status_of_def update_conv fun_eq_iff store_inv_def distinct_update)

lemma CompleteThread_no_faults:
  assumes "script db = []"
  shows "script (snd (CompleteThread t db)) = []" "checkpoints (snd (CompleteThread t db)) = checkpoints db"
    "status_of (snd (CompleteThread t db)) t = map_option (\<lambda>_. ''completed'') (status_of db t)"
    "store_inv db \<Longrightarrow> store_inv (snd (CompleteThread t db))"
  using assms
  by (auto simp: CompleteThread_def status_of_def map_of_update_thread store_inv_def option.map_comp o_def)
     (simp add: update_thread_def)

text \<open>
  A session marked completed comes back: the reload right after finds nothing, but the next turn
  recreates the thread and saves at iteration one, below the stored iterations, so that turn is
  reported saved and the following reload returns the old conversation instead.
\<close>

theorem completed_thread_comes_back:
  fixes db t model ms sha
  defines "db1 \<equiv> snd (CompleteThread t db)"
  defines "db2 \<equiv> snd (CreateThread t model None db1)"
  defines "db3 \<equiv> snd (SaveSnapshot sha t 1 ms db2)"
  assumes "store_inv db" "script db = []" "status_of db t = Some ''active''" "list_all wf_message ms"
    and row: "newest_first t (checkpoints db) = row # rows" "cp_iteration row > 1"
      "checksum_matches sha row" "unmarshal_messages (cp_state row) = Inr old"
  shows "fst (LoadLatest sha t db1) = Inr None \<and>
    fst (SaveSnapshot sha t 1 ms db2) = (True, None) \<and>
    (\<exists>s. fst (LoadLatest sha t db3) = Inr (Some s) \<and> Iteration s = cp_iteration row \<and> Messages s = old)"
proof -
  have c: "script db1 = []" "checkpoints db1 = checkpoints db" "status_of db1 t = Some ''completed''" "store_inv db1"
    using CompleteThread_no_faults [OF assms(5)] assms(4,6) by (simp_all add: db1_def)
  have n: "script db2 = []" "checkpoints db2 = checkpoints db" "status_of db2 t = Some ''active''" "store_inv db2"
    using CreateThread_no_faults [OF c(1)] c by (simp_all add: db2_def)
  have load1: "fst (LoadLatest sha t db1) = Inr None"
    using c(1,3) by (simp add: LoadLatest_def isCompleted_def status_of_def)
  obtain d3 where d3: "SaveSnapshot sha t 1 ms db2 = ((True, None), d3)" "script d3 = []"
    using SaveSnapshot_no_faults [OF assms(7) n(1)] by blast
  then have db3: "db3 = d3" by (simp add: db3_def)
  obtain st where st: "save_transaction t 1 st (sha st) db2 = ((True, None), d3)"
    using d3(1) by (rule SaveSnapshot_saved)
  have dist: "distinct (map cp_id (checkpoints db2))" using n(4) by (simp add: store_inv_def)
  obtain rs' where "newest_first t (checkpoints db2 @ [saved_row t 1 st (sha st) db2]) = row # rs'"
    using newest_first_older [of t "checkpoints db2" row rows "saved_row t 1 st (sha st) db2"] row(1,2) n(2) dist
    by (auto simp: saved_row_def less_prod_def')
  then obtain rs where rs: "newest_first t (checkpoints d3) = row # rs"
    using newest_first_prune [OF insert_distinct [OF n(4), of t 1 st "sha st"], of t]
    by (simp add: save_transaction_saved(2) [OF st] maxCheckpointsPerThread_def)
  have "status_of d3 t = Some ''active''" using save_transaction_saved(4) [OF st] n(3) by simp
  from LoadLatest_no_faults [OF d3(2) _ rs row(3,4)] this
  show ?thesis using load1 d3 db3 by auto
qed

lemma sample_saved_twice:
  obtains row rows db where
    "store_inv db" "script db = []" "status_of db ''s'' = Some ''active''"
    "newest_first ''s'' (checkpoints db) = row # rows" "cp_iteration row = 2"
    "checksum_matches (\<lambda>_. ''h'') row" "unmarshal_messages (cp_state row) = Inr sample_items"
proof -
  obtain db where db: "SaveSnapshot (\<lambda>_. ''h'') ''s'' 2 sample_items sample_db = ((True, None), db)" "script db = []"
    using SaveSnapshot_no_faults [OF sample_items_wf sample_db_facts(4)] by blast
  then obtain st where st: "save_transaction ''s'' 2 st ''h'' sample_db = ((True, None), db)"
    by (auto elim: SaveSnapshot_saved)
  show thesis
    using SaveSnapshot_reads_back [OF sample_db_facts(1) db(1) sample_items_wf, unfolded sample_items_valid] sample_db_facts
      save_transaction_inv [OF _ st] save_transaction_saved(4) [OF st] db(2) that by fastforce
qed

lemma completed_thread_comes_back_witness:
  "\<exists>db s. status_of db ''s'' = Some ''active'' \<and>
     fst (LoadLatest (\<lambda>_. ''h'') ''s'' (snd (SaveSnapshot (\<lambda>_. ''h'') ''s'' 1 (drop 1 sample_items)
       (snd (CreateThread ''s'' ''m'' None (snd (CompleteThread ''s'' db))))))) = Inr (Some s) \<and>
     Messages s = sample_items"
proof (rule sample_saved_twice)
  fix row rows db
  assume a: "store_inv db" "script db = []" "status_of db ''s'' = Some ''active''"
    "newest_first ''s'' (checkpoints db) = row # rows" "cp_iteration row = 2"
    "checksum_matches (\<lambda>_. ''h'') row" "unmarshal_messages (cp_state row) = Inr sample_items"
  have "list_all wf_message (drop 1 sample_items)"
    using sample_items_wf by (simp add: sample_items_def)
  from completed_thread_comes_back [OF a(1-3) this a(4) _ a(6,7), of "''m''"] a(3,5)
  show ?thesis by auto
qed

section \<open>Approvals\<close>

definition approval_status :: "db \<Rightarrow> string \<Rightarrow> string option" where
  "approval_status d req = map_option h_status (map_of (hitl_approvals d) req)"

lemma approval_status_cong: "tables d = tables d' \<Longrightarrow> approval_status d = approval_status d'"
  by (rule ext) (drule tables_eqD(4), simp add: approval_status_def)

lemma upsert_approval_status:
  "approval_status (upsert_approval req sk tn args st dcd d) =
     (if hitl_waiting st \<and> (\<exists>old. approval_status d req = Some old \<and> hitl_decided old) then approval_status d
      else (approval_status d)(req \<mapsto> st))"
  by (auto simp: upsert_approval_def approval_status_def update_conv fun_eq_iff split: option.splits)

text \<open>
  \<^bold>\<open>C38.\<close> A decision of a human is durable: saving a status either fails and changes nothing, or sets the
  status of exactly that request, except that a request already approved or rejected never goes
  back to sending or pending.
\<close>

theorem SaveHITLApproval_no_downgrade:
  "case SaveHITLApproval now req sk tn args st db of
     (Some e, db') \<Rightarrow> approval_status db' = approval_status db
   | (None, db') \<Rightarrow>
       approval_status db' =
         (if hitl_waiting st \<and> (case approval_status db req of None \<Rightarrow> False | Some old \<Rightarrow> hitl_decided old)
          then approval_status db else (approval_status db)(req \<mapsto> st))"
proof -
  let ?f = "upsert_approval req sk tn args st (if hitl_decided st then Some now else None)"
  obtain r db' where x: "sql_exec ?f db = (r, db')" by fastforce
  then show ?thesis
  proof (cases rule: sql_exec_cases)
    case (failed e)
    then show ?thesis using x approval_status_cong [OF failed(2)] by (simp add: SaveHITLApproval_def Let_def)
  next
    case (ok d)
    have "approval_status db' =
      (if hitl_waiting st \<and> (\<exists>old. approval_status d req = Some old \<and> hitl_decided old) then approval_status d
       else (approval_status d)(req \<mapsto> st))"
      unfolding ok(3) by (rule upsert_approval_status)
    then show ?thesis using x ok approval_status_cong [OF ok(2)]
      by (auto simp: SaveHITLApproval_def Let_def split: option.splits)
  qed
qed

section \<open>The store implements the session's interface\<close>

text \<open>The manager works on its database inside a larger world, whose other part it does not touch.\<close>

definition on_db :: "(db \<Rightarrow> 'a \<times> db) \<Rightarrow> db \<times> 'e \<Rightarrow> 'a \<times> (db \<times> 'e)" where
  "on_db f w = (case f (fst w) of (a, d) \<Rightarrow> (a, (d, snd w)))"

definition CheckpointManager ::
  "(json \<Rightarrow> string) \<Rightarrow> (string \<Rightarrow> string) \<Rightarrow> (instant \<Rightarrow> string) \<Rightarrow> (db \<times> 'e) CheckpointStore" where
  "CheckpointManager sha scan fmt =
     \<lparr>st_LoadLatest = \<lambda>t. on_db (LoadLatest sha t),
      st_SaveSnapshot = \<lambda>t it ms. on_db (SaveSnapshot sha t it ms),
      st_CreateThread = \<lambda>t model md. on_db (CreateThread t model md),
      st_UpdateSessionTokens = \<lambda>t n c. on_db (UpdateSessionTokens fmt t n c),
      st_GetSessionTokens = \<lambda>t. on_db (GetSessionTokens scan t)\<rparr>"

definition row_messages :: "checkpoint_row \<Rightarrow> StrategicMessage list" where
  "row_messages row = (case unmarshal_messages (cp_state row) of Inl e \<Rightarrow> [] | Inr ms \<Rightarrow> ms)"

definition db_history :: "db \<Rightarrow> string \<Rightarrow> history" where
  "db_history d t =
     (case newest_first t (checkpoints d) of [] \<Rightarrow> None | row # _ \<Rightarrow> Some (cp_iteration row, row_messages row))"

definition db_live :: "db \<Rightarrow> string \<Rightarrow> bool" where
  "db_live d t \<longleftrightarrow> store_inv d \<and> status_of d t \<noteq> Some ''completed''"

lemma db_history_cong: "tables d = tables d' \<Longrightarrow> db_history d = db_history d'"
  by (rule ext) (drule tables_eqD(2), simp add: db_history_def)

lemma db_live_cong:
  assumes "tables d = tables d'"
  shows "db_live d = db_live d'"
  using store_inv_cong [OF assms] status_of_cong [OF assms] by (simp add: db_live_def fun_eq_iff)

lemma LoadLatest_history:
  assumes "db_live d t" "LoadLatest sha t d = (Inr r, d')"
  shows "snapshot_of (db_history d t) r"
  using LoadLatest_result [OF assms(2)] assms(1)
  by (auto simp: db_live_def db_history_def snapshot_of_def row_messages_def split: list.splits)

lemma SaveSnapshot_history:
  assumes live: "db_live d t" and "list_all wf_message ms" "not_newer (db_history d t) it"
    and save: "SaveSnapshot sha t it ms d = ((True, e), d')"
  shows "db_live d' t \<and> db_history d' t = Some (it, map coerce_message ms)"
proof -
  have le: "cp_iteration r \<le> it" if "r \<in> set (checkpoints d)" "cp_thread r = t" for r
  proof (cases "newest_first t (checkpoints d)")
    case Nil
    then show ?thesis using that set_newest_first [of t "checkpoints d"] by auto
  next
    case (Cons row rows)
    then show ?thesis
      using newest_first_hd_max [OF Cons that] assms(3) by (auto simp: not_newer_def db_history_def less_eq_prod_def)
  qed
  obtain row rows where row: "newest_first t (checkpoints d') = row # rows" "cp_iteration row = it"
      "unmarshal_messages (cp_state row) = Inr (map coerce_message ms)"
    using SaveSnapshot_reads_back [OF _ save assms(2) le] live unfolding db_live_def by metis
  obtain st where st: "save_transaction t it st (sha st) d = ((True, e), d')"
    using save by (rule SaveSnapshot_saved)
  show ?thesis
    using row live save_transaction_inv [OF _ st] save_transaction_saved(4) [OF st]
    by (simp add: db_live_def db_history_def row_messages_def)
qed

lemma SaveSnapshot_other:
  assumes "db_live d t'" "t' \<noteq> t" "SaveSnapshot sha t it ms d = ((b, e), d')"
  shows "db_live d' t' \<and> db_history d' t' = db_history d t'"
proof (cases b)
  case True
  then obtain st where st: "save_transaction t it st (sha st) d = ((True, e), d')"
    using assms(3) SaveSnapshot_saved by metis
  show ?thesis
    using assms(1) save_other_thread [OF st assms(2)] save_transaction_inv [OF _ st] save_transaction_saved(4) [OF st]
    by (simp add: db_live_def db_history_def)
next
  case False
  then have "tables d' = tables d" using SaveSnapshot_failed [of sha t it ms d e d'] assms(3) by simp
  from db_live_cong [OF this] db_history_cong [OF this] assms(1) show ?thesis by simp
qed

text \<open>Statements on the thread table that keep its keys and complete no thread.\<close>

lemma exec_threads_keeps:
  assumes "sql_exec stmt d = (r, d')" and live: "db_live d t"
    and stmt: "\<And>d. checkpoints (stmt d) = checkpoints d \<and> next_checkpoint_id (stmt d) = next_checkpoint_id d \<and>
      hitl_approvals (stmt d) = hitl_approvals d"
    and keys: "\<And>d. distinct (map fst (threads d)) \<Longrightarrow> distinct (map fst (threads (stmt d)))"
    and status: "\<And>d. status_of (stmt d) t = Some ''completed'' \<Longrightarrow> status_of d t = Some ''completed''"
  shows "db_live d' t \<and> db_history d' t = db_history d t"
  using assms(1)
proof (cases rule: sql_exec_cases)
  case failed
  from db_live_cong [OF failed(2)] db_history_cong [OF failed(2)] live show ?thesis by simp
next
  case (ok d0)
  have "db_live d0 t" using live db_live_cong [OF ok(2)] by simp
  then have "db_live (stmt d0) t"
    using stmt [of d0] keys [of d0] status [of d0] by (auto simp: db_live_def store_inv_def)
  moreover have "db_history (stmt d0) t = db_history d0 t" using stmt [of d0] by (simp add: db_history_def)
  ultimately show ?thesis using ok db_history_cong [OF ok(2)] by simp
qed

lemma CreateThread_keeps:
  assumes "db_live d t'" "CreateThread t model md d = (e, d')"
  shows "db_live d' t' \<and> db_history d' t' = db_history d t'"
proof -
  let ?stmt = "\<lambda>d. d\<lparr>threads := AList.update t
     \<lparr>th_status = ''active'', th_model = model, th_metadata = JObj (case md of None \<Rightarrow> [] | Some m \<Rightarrow> coerce_object m),
      th_updated_at = CURRENT_TIMESTAMP d, th_estimated_tokens = 0, th_last_compacted_at = None\<rparr> (threads d)\<rparr>"
  obtain r where x: "sql_exec ?stmt d = (r, d')"
    using assms(2) by (auto simp: CreateThread_def Let_def split: prod.splits option.splits)
  show ?thesis
    by (rule exec_threads_keeps [OF x assms(1)])
       (auto simp: distinct_update status_of_def update_conv split: if_splits)
qed

lemma UpdateSessionTokens_keeps:
  assumes "db_live d t'" "UpdateSessionTokens fmt t n c d = (e, d')"
  shows "db_live d' t' \<and> db_history d' t' = db_history d t'"
proof -
  let ?stmt = "update_thread t
     (\<lambda>d r. r\<lparr>th_estimated_tokens := n, th_last_compacted_at := map_option fmt c\<rparr>)"
  obtain r where x: "sql_exec ?stmt d = (r, d')"
    using assms(2) by (auto simp: UpdateSessionTokens_def split: prod.splits option.splits)
  show ?thesis
    by (rule exec_threads_keeps [OF x assms(1)])
       (auto simp: status_of_def map_of_update_thread option.map_comp o_def split: if_splits)
qed

lemma GetSessionTokens_tables: "GetSessionTokens scan t d = (g, d') \<Longrightarrow> tables d' = tables d"
  by (auto simp: GetSessionTokens_def split: prod.splits sum.splits option.splits dest: sql_query_tables)

lemma on_db_eq: "on_db f w = (a, w') \<longleftrightarrow> f (fst w) = (a, fst w') \<and> snd w' = snd w"
  by (cases "f (fst w)"; cases w') (auto simp: on_db_def)

lemma CheckpointManager_simps:
  "st_LoadLatest (CheckpointManager sha scan fmt) t w = (lr, w') \<longleftrightarrow>
     LoadLatest sha t (fst w) = (lr, fst w') \<and> snd w' = snd w"
  "st_SaveSnapshot (CheckpointManager sha scan fmt) t it ms w = (sr, w') \<longleftrightarrow>
     SaveSnapshot sha t it ms (fst w) = (sr, fst w') \<and> snd w' = snd w"
  "st_CreateThread (CheckpointManager sha scan fmt) t model md w = (e, w') \<longleftrightarrow>
     CreateThread t model md (fst w) = (e, fst w') \<and> snd w' = snd w"
  "st_UpdateSessionTokens (CheckpointManager sha scan fmt) t n c w = (e, w') \<longleftrightarrow>
     UpdateSessionTokens fmt t n c (fst w) = (e, fst w') \<and> snd w' = snd w"
  "st_GetSessionTokens (CheckpointManager sha scan fmt) t w = (g, w') \<longleftrightarrow>
     GetSessionTokens scan t (fst w) = (g, fst w') \<and> snd w' = snd w"
  by (simp_all add: CheckpointManager_def on_db_eq)

lemma tables_keep: "tables d' = tables d \<Longrightarrow> db_live d' = db_live d \<and> db_history d' = db_history d"
  using db_live_cong db_history_cong by blast

interpretation cm: checkpoint_store "CheckpointManager sha scan fmt" "\<lambda>w. db_history (fst w)" "\<lambda>w. db_live (fst w)"
  for sha scan fmt
proof (unfold_locales, unfold CheckpointManager_simps)
  fix w w' :: "db \<times> 'a" and t t' r it ms e model md n c g lr b and sr :: "bool \<times> go_error option"
  show "db_live (fst w) t \<Longrightarrow> LoadLatest sha t (fst w) = (Inr r, fst w') \<and> snd w' = snd w \<Longrightarrow>
      snapshot_of (db_history (fst w) t) r"
    by (blast intro: LoadLatest_history)
  show "LoadLatest sha t (fst w) = (lr, fst w') \<and> snd w' = snd w \<Longrightarrow>
      db_live (fst w') = db_live (fst w) \<and> db_history (fst w') = db_history (fst w)"
    using LoadLatest_tables tables_keep by blast
  show "db_live (fst w) t \<Longrightarrow> list_all wf_message ms \<Longrightarrow> not_newer (db_history (fst w) t) it \<Longrightarrow>
      SaveSnapshot sha t it ms (fst w) = ((True, e), fst w') \<and> snd w' = snd w \<Longrightarrow>
      db_live (fst w') t \<and> db_history (fst w') t = Some (it, map coerce_message ms)"
    using SaveSnapshot_history by blast
  show "SaveSnapshot sha t it ms (fst w) = ((True, e), fst w') \<and> snd w' = snd w \<Longrightarrow> e = None"
    using SaveSnapshot_saved save_transaction_saved(1) by metis
  show "SaveSnapshot sha t it ms (fst w) = ((False, e), fst w') \<and> snd w' = snd w \<Longrightarrow>
      e \<noteq> None \<and> db_live (fst w') = db_live (fst w) \<and> db_history (fst w') = db_history (fst w)"
    using SaveSnapshot_failed tables_keep by blast
  show "db_live (fst w) t' \<Longrightarrow> t' \<noteq> t \<Longrightarrow> SaveSnapshot sha t it ms (fst w) = (sr, fst w') \<and> snd w' = snd w \<Longrightarrow>
      db_live (fst w') t' \<and> db_history (fst w') t' = db_history (fst w) t'"
    using SaveSnapshot_other by (cases sr) blast
  show "db_live (fst w) t' \<Longrightarrow> CreateThread t model md (fst w) = (e, fst w') \<and> snd w' = snd w \<Longrightarrow>
      db_live (fst w') t' \<and> db_history (fst w') t' = db_history (fst w) t'"
    using CreateThread_keeps by blast
  show "db_live (fst w) t' \<Longrightarrow> UpdateSessionTokens fmt t n c (fst w) = (e, fst w') \<and> snd w' = snd w \<Longrightarrow>
      db_live (fst w') t' \<and> db_history (fst w') t' = db_history (fst w) t'"
    using UpdateSessionTokens_keeps by blast
  show "GetSessionTokens scan t (fst w) = (g, fst w') \<and> snd w' = snd w \<Longrightarrow>
      db_live (fst w') = db_live (fst w) \<and> db_history (fst w') = db_history (fst w)"
    using GetSessionTokens_tables tables_keep by blast
qed

end
