(* ===== verification/Session_Laws.thy ===== *)
theory Session_Laws
  imports Session Checkpoint_Store
begin

text \<open>
  What a turn of the session manager does to the stored history, proved once for every store that
  meets the laws of \<^verbatim>\<open>CheckpointStore\<close> (locale \<open>checkpoint_store\<close>) and read off for
  \<^verbatim>\<open>CheckpointManager\<close> through its interpretation. The collaborators that are not the store are only
  assumed to leave the store alone.
\<close>

section \<open>Collaborators that keep a property of the world\<close>

definition hooks_keep :: "('w \<Rightarrow> bool) \<Rightarrow> 'w Hooks \<Rightarrow> bool" where
  "hooks_keep P h \<longleftrightarrow>
     (\<forall>fn \<in> set (preHistory h). \<forall>ms w. P w \<longrightarrow> P (snd (fn ms w))) \<and>
     (\<forall>fn \<in> set (postDispatch h). \<forall>sk r w. P w \<longrightarrow> P (snd (fn sk r w)))"

definition env_keep :: "('w \<Rightarrow> bool) \<Rightarrow> 'w Env \<Rightarrow> bool" where
  "env_keep P env \<longleftrightarrow>
     (\<forall>w. P w \<longrightarrow> P (snd (env_ctxErr env w))) \<and> (\<forall>w. P w \<longrightarrow> P (snd (env_now env w))) \<and>
     (\<forall>w. P w \<longrightarrow> P (snd (env_stamp env w))) \<and> (\<forall>k d w. P w \<longrightarrow> P (env_acquireLock env k d w)) \<and>
     (\<forall>k w. P w \<longrightarrow> P (snd (env_Lock env k w))) \<and> (\<forall>k w. P w \<longrightarrow> P (env_Unlock env k w)) \<and>
     (\<forall>k w. P w \<longrightarrow> P (env_release env k w)) \<and> (\<forall>d s w. P w \<longrightarrow> P (snd (env_journal env d s w))) \<and>
     (\<forall>k st w. P w \<longrightarrow> P (env_spawn_compaction env k st w))"

definition runner_keep :: "('w \<Rightarrow> bool) \<Rightarrow> 'w Runner \<Rightarrow> bool" where
  "runner_keep P r \<longleftrightarrow>
     (\<forall>sk u ms w. P w \<longrightarrow> P (snd (ru_Run r sk u ms w))) \<and> (\<forall>sk p md w. P w \<longrightarrow> P (snd (ru_RunText r sk p md w)))"

definition manager_keep :: "('w \<Rightarrow> bool) \<Rightarrow> 'w SessionManager \<Rightarrow> bool" where
  "manager_keep P m \<longleftrightarrow>
     runner_keep P (sm_runner m) \<and>
     (\<forall>l. sm_logger m = Some l \<longrightarrow> (\<forall>sk i ms w. P w \<longrightarrow> P (snd (l sk i ms w)))) \<and>
     (\<forall>c. sm_consolidator m = Some c \<longrightarrow> (\<forall>sk s w. P w \<longrightarrow> P (c sk s w))) \<and>
     (\<forall>h. sm_hooks m = Some h \<longrightarrow> hooks_keep P h)"

text \<open>The runner hands back messages that can be stored.\<close>

definition runner_wf :: "'w Runner \<Rightarrow> bool" where
  "runner_wf r \<longleftrightarrow> (\<forall>sk u ms w resp out w'. ru_Run r sk u ms w = (Inr (resp, out), w') \<longrightarrow> list_all wf_message out)"

lemma keep_bind:
  "P (snd x) \<Longrightarrow> (\<And>a w'. P w' \<Longrightarrow> P (snd (g a w'))) \<Longrightarrow> P (snd (case x of (a, w') \<Rightarrow> g a w'))"
  by (cases x) simp

lemma keep_bind_world:
  "P (snd x) \<Longrightarrow> (\<And>a w'. P w' \<Longrightarrow> P (g a w')) \<Longrightarrow> P (case x of (a, w') \<Rightarrow> g a w')"
  by (cases x) simp

lemma keep_option:
  "P (snd n) \<Longrightarrow> (\<And>a. P (snd (s a))) \<Longrightarrow> P (snd (case x of None \<Rightarrow> n | Some a \<Rightarrow> s a))"
  by (cases x) simp_all

lemma keep_option_world:
  "P n \<Longrightarrow> (\<And>a. x = Some a \<Longrightarrow> P (s a)) \<Longrightarrow> P (case x of None \<Rightarrow> n | Some a \<Rightarrow> s a)"
  by (cases x) simp_all

lemma keep_sum:
  "(\<And>e. P (snd (l e))) \<Longrightarrow> (\<And>a. P (snd (r a))) \<Longrightarrow> P (snd (case x of Inl e \<Rightarrow> l e | Inr a \<Rightarrow> r a))"
  by (cases x) simp_all

lemma keep_sum_world:
  "(\<And>e. P (l e)) \<Longrightarrow> (\<And>a. P (r a)) \<Longrightarrow> P (case x of Inl e \<Rightarrow> l e | Inr a \<Rightarrow> r a)"
  by (cases x) simp_all

lemma keep_tokens_world: "(\<And>a b. P (g a b)) \<Longrightarrow> P (case (x :: int \<times> instant option) of (a, b) \<Rightarrow> g a b)"
  by (cases x) simp

lemma keep_tokens: "(\<And>a b. P (snd (g a b))) \<Longrightarrow> P (snd (case (x :: int \<times> instant option) of (a, b) \<Rightarrow> g a b))"
  by (cases x) simp

lemma keep_if: "(c \<Longrightarrow> P (snd a)) \<Longrightarrow> (\<not> c \<Longrightarrow> P (snd b)) \<Longrightarrow> P (snd (if c then a else b))"
  by simp

lemma keep_if_world: "(c \<Longrightarrow> P a) \<Longrightarrow> (\<not> c \<Longrightarrow> P b) \<Longrightarrow> P (if c then a else b)"
  by simp

lemma env_keepD:
  assumes "env_keep P env" "P w"
  shows "P (snd (env_ctxErr env w))" "P (snd (env_now env w))" "P (snd (env_stamp env w))"
    "P (env_acquireLock env k d w)" "P (snd (env_Lock env k w))" "P (env_Unlock env k w)"
    "P (env_release env k w)" "P (snd (env_journal env dir s w))" "P (env_spawn_compaction env k st w)"
  using assms by (auto simp: env_keep_def)

lemma run_chain_keep:
  "(\<And>fn a w. fn \<in> set fns \<Longrightarrow> P w \<Longrightarrow> P (snd (fn a w))) \<Longrightarrow> P w \<Longrightarrow> P (snd (run_chain fns a w))"
proof (induction fns arbitrary: a w)
  case (Cons fn fns)
  obtain a' w' where f: "fn a w = (a', w')" by fastforce
  then have "P w'" using Cons.prems(1) [of fn w a] Cons.prems(2) by simp
  then show ?case using Cons f by simp
qed simp

lemma stamp_newest_keep:
  "(\<And>w. P w \<Longrightarrow> P (snd (stamp w))) \<Longrightarrow> P w \<Longrightarrow> P (snd (stamp_newest stamp ms w))"
proof (induction ms arbitrary: w)
  case (Cons m ms)
  obtain t w1 where t: "stamp w = (t, w1)" by fastforce
  obtain r w2 where r: "stamp_newest stamp ms w1 = (r, w2)" by fastforce
  have "P w1" using Cons.prems t by (metis snd_conv)
  then have "P w2" using Cons.IH [of w1] Cons.prems(1) r by simp
  then show ?case using t r Cons.prems(2) by simp
qed simp

lemma addMissingTimestamps_keep:
  assumes "env_keep P env" "P w"
  shows "P (snd (addMissingTimestamps env ms w))"
proof -
  have "P (snd (stamp_newest (env_stamp env) (rev ms) w))"
    by (rule stamp_newest_keep [of P]) (use assms in \<open>auto simp: env_keep_def\<close>)
  then show ?thesis
    by (cases "stamp_newest (env_stamp env) (rev ms) w") (simp add: addMissingTimestamps_def)
qed

section \<open>Preparing the history leaves the store alone\<close>

lemma runPreHistoryHooks_keep:
  assumes "hooks_keep P h" "P w"
  shows "P (snd (runPreHistoryHooks h ms w))"
proof -
  have "P (snd (RunPreHistory h ms w))"
    unfolding RunPreHistory_def by (rule run_chain_keep [of _ P]) (use assms in \<open>auto simp: hooks_keep_def\<close>)
  then show ?thesis by (auto simp: runPreHistoryHooks_def split: prod.splits)
qed

lemma RunPostDispatch_keep:
  assumes "hooks_keep P h" "P w"
  shows "P (snd (RunPostDispatch h sk r w))"
  unfolding RunPostDispatch_def by (rule run_chain_keep [of _ P]) (use assms in \<open>auto simp: hooks_keep_def\<close>)

lemma runSummarization_keep:
  assumes "manager_keep P m" "P w"
  shows "P (snd (runSummarization m sk ms md w))"
  unfolding runSummarization_def
  by (rule keep_bind [where P = P], use assms in \<open>simp add: manager_keep_def runner_keep_def\<close>)
     (simp split: sum.split)

lemma summarizeHistoryIfNeeded_keep:
  assumes "env_keep P env" "manager_keep P m" "P w"
  shows "P (snd (summarizeHistoryIfNeeded env m sk ms w))"
  unfolding summarizeHistoryIfNeeded_def Let_def
  using assms
  by (intro keep_if [where P = P] keep_bind [where P = P] keep_sum [where P = P])
     (simp_all add: runSummarization_keep env_keepD)

lemma compactHistoryIfNeeded_keep:
  assumes "env_keep P env" "manager_keep P m" "P w"
  shows "P (snd (compactHistoryIfNeeded env m sk ms w))"
proof -
  obtain compacted dropped keep where c:
    "CompactMessages ms (sm_memoryWindow m) DefaultKeepContextMessages (sm_compactionPolicy m) (sm_pruningPolicy m) =
     (compacted, dropped, keep)" by (rule prod_cases3)
  have "P (case sm_consolidator m of None \<Rightarrow> w
      | Some c \<Rightarrow> if Strategy (sm_compactionPolicy m) = ''memoryFlush'' then runConsolidation c sk ms keep w else w)"
    using assms by (auto simp: manager_keep_def runConsolidation_def Let_def split: option.split)
  with assms(1,3) show ?thesis
    by (simp add: compactHistoryIfNeeded_def c Let_def env_keepD(8))
qed

lemma prepareHistory_keep:
  assumes "env_keep P env" "manager_keep P m" "P w"
  shows "P (snd (prepareHistory env m sk ms w))"
proof -
  obtain ms1 w1 where 1: "(case sm_hooks m of None \<Rightarrow> (ms, w) | Some h \<Rightarrow> runPreHistoryHooks h ms w) = (ms1, w1)"
    by fastforce
  then have p1: "P w1"
    using assms runPreHistoryHooks_keep [of P "the (sm_hooks m)" w ms]
    by (auto simp: manager_keep_def split: option.splits)
  obtain now w2 where 2: "env_now env w1 = (now, w2)" by fastforce
  have p2: "P w2" using env_keepD(2) [OF assms(1) p1] 2 by simp
  obtain pruned dropped where 3: "PruneMessages now ms1 (sm_pruningPolicy m) = (pruned, dropped)" by fastforce
  obtain ms2 w3 where 4: "(if length dropped > 0 then
       (pruned, case sm_consolidator m of None \<Rightarrow> w2 | Some c \<Rightarrow> consolidateDropped c sk dropped w2)
     else (ms1, w2)) = (ms2, w3)" by fastforce
  then have p3: "P w3"
    using assms(2) p2 by (auto simp: manager_keep_def consolidateDropped_def split: if_splits option.splits)
  obtain ms3 w4 where 5: "summarizeHistoryIfNeeded env m sk ms2 w3 = (ms3, w4)" by fastforce
  have "P w4" using summarizeHistoryIfNeeded_keep [OF assms(1,2) p3, of sk ms2] 5 by simp
  from compactHistoryIfNeeded_keep [OF assms(1,2) this] show ?thesis
    by (simp only: prepareHistory_def Let_def 1 2 3 4 5 prod.case)
qed

section \<open>What a turn does to the stored history\<close>

definition stored_iteration :: "history \<Rightarrow> int" where
  "stored_iteration h = (case h of None \<Rightarrow> 0 | Some (i, _) \<Rightarrow> i)"

definition stored_messages :: "history \<Rightarrow> StrategicMessage list" where
  "stored_messages h = (case h of None \<Rightarrow> [] | Some (_, ms) \<Rightarrow> ms)"

text \<open>The observable effect of a turn on a thread whose history was \<open>h\<close>. A failed turn changes nothing.
  A turn that answers ran the runner once on the prepared stored messages followed by the user's message,
  and what the runner handed back, timestamps added, is exactly what is stored one iteration further;
  or nothing is stored, because the runner handed back no messages or with a warning at the front of
  the answer.\<close>

definition turn_ran ::
  "'w Env \<Rightarrow> 'w SessionManager \<Rightarrow> string \<Rightarrow> string \<Rightarrow> string \<Rightarrow> StrategicMessage list \<Rightarrow> StrategicMessage list \<Rightarrow> bool" where
  "turn_ran env m sk u msg messages updated \<longleftrightarrow>
     (\<exists>w0 prepared w1 stamp w2 resp0 out w3 w4.
        prepareHistory env m sk messages w0 = (prepared, w1) \<and> env_stamp env w1 = (stamp, w2) \<and>
        ru_Run (sm_runner m) sk u (prepared @ [text_message RoleUser (fst (StripSilent msg)) stamp]) w2 =
          (Inr (resp0, out), w3) \<and>
        addMissingTimestamps env out w3 = (updated, w4))"

definition turn_effect ::
  "'w Env \<Rightarrow> 'w SessionManager \<Rightarrow> string \<Rightarrow> string \<Rightarrow> string \<Rightarrow> history \<Rightarrow> string result \<Rightarrow> history \<Rightarrow> bool" where
  "turn_effect env m sk u msg h r h' \<longleftrightarrow>
     (case r of
        Inl e \<Rightarrow> h' = h
      | Inr resp \<Rightarrow>
          (\<exists>updated. turn_ran env m sk u msg (stored_messages h) updated \<and>
             (updated \<noteq> [] \<and> h' = Some (stored_iteration h + 1, map coerce_message updated) \<or>
              h' = h \<and> (updated = [] \<or> HasPrefix resp statelessWarning \<or> HasPrefix resp checkpointSaveWarning))))"

text \<open>A tracer runs the traced function once, hands back its answer, and keeps what \<open>K\<close> relates.\<close>

definition tracer_once :: "('w \<Rightarrow> 'w \<Rightarrow> bool) \<Rightarrow> 'w tracer \<Rightarrow> bool" where
  "tracer_once K trace \<longleftrightarrow>
     (\<forall>sk n f w r w'. trace sk n f w = (r, w') \<longrightarrow>
        (\<exists>w1 r1 w2. K w w1 \<and> f w1 = (r1, w2) \<and> K w2 w' \<and> (case r1 of Inl e \<Rightarrow> isl r | Inr x \<Rightarrow> r = Inr x)))"

lemma turn_effect_isl: "turn_effect env m sk u msg h (Inl e) h' \<Longrightarrow> isl r \<Longrightarrow> turn_effect env m sk u msg h r h'"
  by (cases r) (auto simp: turn_effect_def)

lemma stamp_newest_facts:
  "stamp_newest stamp ms w = (r, w') \<Longrightarrow> list_all wf_message ms = list_all wf_message r \<and> (r = [] \<longleftrightarrow> ms = [])"
  by (induction ms arbitrary: w r w') (auto simp: wf_message_def split: prod.splits if_splits)

lemma addMissingTimestamps_facts:
  assumes "addMissingTimestamps env ms w = (r, w')"
  shows "list_all wf_message r = list_all wf_message ms" and "r = [] \<longleftrightarrow> ms = []"
  using assms stamp_newest_facts [of "env_stamp env" "rev ms" w]
  by (auto simp: addMissingTimestamps_def split: prod.splits)

context checkpoint_store
begin

definition stored :: "string \<Rightarrow> history \<Rightarrow> 'w \<Rightarrow> bool" where
  "stored t h w \<longleftrightarrow> live w t \<and> history w t = h"

lemma load_at: "stored t h w \<Longrightarrow> stored t h (snd (st_LoadLatest store t' w))"
  using load_keeps by (cases "st_LoadLatest store t' w") (force simp: stored_def)

lemma create_at: "stored t h w \<Longrightarrow> stored t h (snd (st_CreateThread store t' md x w))"
  using create_keeps by (cases "st_CreateThread store t' md x w") (force simp: stored_def)

lemma update_at: "stored t h w \<Longrightarrow> stored t h (snd (st_UpdateSessionTokens store t' n c w))"
  using update_keeps by (cases "st_UpdateSessionTokens store t' n c w") (force simp: stored_def)

lemma get_at: "stored t h w \<Longrightarrow> stored t h (snd (st_GetSessionTokens store t' w))"
  using get_keeps by (cases "st_GetSessionTokens store t' w") (force simp: stored_def)

lemma updateTokenBudget_stored:
  assumes "env_keep (stored t h) env" "stored t h w"
  shows "stored t h (updateTokenBudget env m sk ms (Some store) w)"
  unfolding updateTokenBudget_def Let_def
  using assms
  by (simp only: option.case)
     (intro keep_if_world [where P = "stored t h"] keep_bind_world [where P = "stored t h"]
        keep_option_world [where P = "stored t h"] keep_sum_world [where P = "stored t h"]
        keep_tokens_world [where P = "stored t h"]
      | simp add: env_keepD [where P = "stored t h"] get_at update_at)+

lemma persistResult_stored:
  assumes "manager_keep (stored t h) m" "manager_keep (stored t (Some (i + 1, map coerce_message ms))) m"
    and "stored t h w" "not_newer h (i + 1)" "list_all wf_message ms"
    and "persistResult m t i ms stateless (Some store) w = ((persisted, failed), w')"
  shows "if persisted then ms \<noteq> [] \<and> \<not> stateless \<and> \<not> failed \<and> stored t (Some (i + 1, map coerce_message ms)) w'
    else (failed \<or> stateless \<or> ms = []) \<and> stored t h w'"
proof (cases "stateless \<or> ms = []")
  case True
  then show ?thesis using assms by (auto simp: persistResult_def)
next
  case False
  obtain saved err w1 where save: "st_SaveSnapshot store t (i + 1) ms w = ((saved, err), w1)"
    by (metis prod.collapse)
  let ?w2 = "case sm_logger m of None \<Rightarrow> w1 | Some l \<Rightarrow> snd (l t (i + 1) ms w1)"
  have res: "persisted = (saved \<and> err = None)" "failed = (err \<noteq> None)" "w' = ?w2"
    using assms(6) False save by (auto simp: persistResult_def Let_def)
  have w1: "stored t (if saved then Some (i + 1, map coerce_message ms) else h) w1"
    using save_keeps [OF _ assms(5) _ save] assms(3,4) by (simp add: stored_def)
  then have "stored t (if saved then Some (i + 1, map coerce_message ms) else h) w'"
    unfolding res(3) using assms(1,2) by (auto simp: manager_keep_def split: option.split if_splits)
  then show ?thesis
    using res False save save_failed [of t "i + 1" ms w err w1] save_clean [of t "i + 1" ms w err w1]
    by (cases saved) auto
qed

lemma dispatch_effect:
  assumes env: "\<And>h. env_keep (stored t h) env" and mgr: "\<And>h. manager_keep (stored t h) m"
    and wf: "runner_wf (sm_runner m)" and w: "stored t h w" and i: "i = stored_iteration h" and ms: "ms = stored_messages h"
    and d: "dispatch env m t u msg ms i stateless (Some store) w = (r, w')"
  shows "\<exists>h'. stored t h' w' \<and> turn_effect env m t u msg h r h'"
proof -
  obtain ms1 w1 where 1: "prepareHistory env m t ms w = (ms1, w1)" by fastforce
  have p1: "stored t h w1" using prepareHistory_keep [OF env mgr w, of t ms] 1 by simp
  obtain st w2 where 2: "env_stamp env w1 = (st, w2)" by fastforce
  have p2: "stored t h w2" using env_keepD(3) [OF env p1] 2 by simp
  let ?in = "ms1 @ [text_message RoleUser (fst (StripSilent msg)) st]"
  obtain res w3 where 3: "ru_Run (sm_runner m) t u ?in w2 = (res, w3)" by fastforce
  have "stored t h (snd (ru_Run (sm_runner m) t u ?in w2))"
    using mgr [of h] p2 by (simp add: manager_keep_def runner_keep_def)
  then have p3: "stored t h w3" by (simp add: 3)
  show ?thesis
  proof (cases res)
    case (Inl e)
    then have "r = Inl (wrap_err ''runner.Run'' e)" "w' = w3"
      using d 1 2 3 by (simp_all add: dispatch_def Let_def)
    then show ?thesis using p3 by (auto simp: turn_effect_def)
  next
    case (Inr out)
    obtain resp upd0 where out: "out = (resp, upd0)" by fastforce
    obtain upd w4 where 4: "addMissingTimestamps env upd0 w3 = (upd, w4)" by fastforce
    have p4: "stored t h w4" using addMissingTimestamps_keep [OF env p3, of upd0] 4 by simp
    have "list_all wf_message upd0" using wf 3 Inr out unfolding runner_wf_def by blast
    then have upd: "list_all wf_message upd" "upd = [] \<longleftrightarrow> upd0 = []"
      using addMissingTimestamps_facts [OF 4] by simp_all
    obtain persisted failed w5 where 5: "persistResult m t i upd stateless (Some store) w4 = ((persisted, failed), w5)"
      by (metis prod.collapse)
    have nn: "not_newer h (i + 1)" by (auto simp: not_newer_def i stored_iteration_def split: option.split)
    let ?h = "if persisted then Some (i + 1, map coerce_message upd) else h"
    have p5: "if persisted then upd \<noteq> [] \<and> \<not> stateless \<and> \<not> failed \<and> stored t (Some (i + 1, map coerce_message upd)) w5
        else (failed \<or> stateless \<or> upd = []) \<and> stored t h w5"
      by (rule persistResult_stored [OF mgr mgr p4 nn upd(1) 5])
    let ?w6 = "if persisted then updateTokenBudget env m t upd (Some store) w5 else w5"
    have p6: "stored t ?h ?w6"
      using p5 updateTokenBudget_stored [OF env, of "?h" w5 m t upd] by (auto split: if_splits)
    obtain resp1 w7 where 7: "(case sm_hooks m of None \<Rightarrow> (resp, ?w6) | Some hk \<Rightarrow> RunPostDispatch hk t resp ?w6) = (resp1, w7)"
      by fastforce
    have p7: "stored t ?h w7"
    proof (cases "sm_hooks m")
      case None
      then show ?thesis using 7 p6 by simp
    next
      case (Some hk)
      then have "hooks_keep (stored t ?h) hk" using mgr [of ?h] by (simp add: manager_keep_def)
      from RunPostDispatch_keep [OF this p6, of t resp] show ?thesis using 7 Some by simp
    qed
    let ?resp2 = "if stateless then statelessWarning @ resp1 else resp1"
    have r: "r = Inr (if failed then checkpointSaveWarning @ ?resp2 else ?resp2)" "w' = w7"
      using d Inr out 1 2 3 4 5 7 by (simp_all add: dispatch_def Let_def)
    have ran: "turn_ran env m t u msg (stored_messages h) upd"
      unfolding turn_ran_def by (intro exI conjI) (rule 1 [unfolded ms] 2 3 [unfolded Inr out] 4)+
    have "upd \<noteq> [] \<and> ?h = Some (stored_iteration h + 1, map coerce_message upd) \<or> ?h = h \<and> (upd = [] \<or>
        HasPrefix (if failed then checkpointSaveWarning @ ?resp2 else ?resp2) statelessWarning \<or>
        HasPrefix (if failed then checkpointSaveWarning @ ?resp2 else ?resp2) checkpointSaveWarning)"
      using p5 i by (cases persisted) auto
    then have "turn_effect env m t u msg h r ?h"
      unfolding turn_effect_def r(1) sum.case using ran by blast
    then show ?thesis using p7 r(2) by blast
  qed
qed

lemma loadHistory_stored:
  assumes "stored t h w" "loadHistory m t (Some store) w = (r, w')"
  shows "stored t h w' \<and> (\<forall>ms i b. r = Inr (ms, i, b) \<longrightarrow> i = stored_iteration h \<and> ms = stored_messages h)"
proof -
  obtain lr w1 where 1: "st_LoadLatest store t w = (lr, w1)" by fastforce
  have p1: "stored t h w1" using load_at [OF assms(1), of t] 1 by simp
  show ?thesis
  proof (cases lr)
    case (Inl e)
    then show ?thesis using assms(2) 1 p1 by (auto simp: loadHistory_def)
  next
    case (Inr snap)
    have snap: "snapshot_of h snap" using load_result [of w t snap w1] assms(1) 1 Inr by (simp add: stored_def)
    obtain e w2 where 2: "st_CreateThread store t (sm_model m) None w1 = (e, w2)" by fastforce
    have p2: "stored t h w2" using create_at [OF p1] 2 by (metis snd_conv)
    show ?thesis
      using assms(2) 1 Inr 2 p1 p2 snap
      by (cases snap; cases e) (auto simp: loadHistory_def snapshot_of_def stored_iteration_def stored_messages_def)
  qed
qed

lemma Dispatch_effect:
  assumes env: "\<And>h. env_keep (stored t h) env" and mgr: "\<And>h. manager_keep (stored t h) m"
    and wf: "runner_wf (sm_runner m)" and w: "stored t h w"
    and st: "sm_store m = Some store" "sm_storeProvider m = None"
    and tr: "\<And>trace. sm_tracer m = Some trace \<Longrightarrow> tracer_once (\<lambda>w w'. \<forall>h. stored t h w \<longrightarrow> stored t h w') trace"
    and d: "Dispatch env m t u msg w = (r, w')"
  shows "\<exists>h'. stored t h' w' \<and> turn_effect env m t u msg h r h'"
proof -
  let ?w1 = "env_acquireLock env t (sm_lockTimeout m) w"
  have p1: "stored t h ?w1" using env_keepD(4) [OF env w] .
  obtain le w2 where 2: "env_Lock env t ?w1 = (le, w2)" by fastforce
  have p2: "stored t h w2" using env_keepD(5) [OF env p1, of t] 2 by simp
  have unl: "stored t h' (env_release env t (env_Unlock env t x))" if "stored t h' x" for h' x
    by (rule env_keepD(7) [OF env], rule env_keepD(6) [OF env that])
  have rs: "resolveStore m u w2 = (Some store, w2)" using st by (simp add: resolveStore_def)
  obtain lh w3 where 3: "loadHistory m t (Some store) w2 = (lh, w3)" by fastforce
  note p3 = loadHistory_stored [OF p2 3]
  show ?thesis
  proof (cases le)
    case (Some e)
    then have "r = Inl e" "w' = env_release env t w2" using d 2 by (simp_all add: Dispatch_def Let_def)
    then show ?thesis using env_keepD(7) [OF env p2, of t] by (auto simp: turn_effect_def)
  next
    case None
    show ?thesis
    proof (cases lh)
      case (Inl e)
      then have "r = Inl e" "w' = env_release env t (env_Unlock env t w3)"
        using d 2 3 None rs by (simp_all add: Dispatch_def Let_def)
      then show ?thesis using unl p3 by (auto simp: turn_effect_def)
    next
      case (Inr l)
      obtain ms i b where l: "l = (ms, i, b)" by (rule prod_cases3)
      have im: "i = stored_iteration h" "ms = stored_messages h" using p3 Inr l by blast+
      let ?run = "dispatch env m t u msg ms i b (Some store)"
      have run: "\<exists>h'. stored t h' x' \<and> turn_effect env m t u msg h r' h'"
        if "stored t h x" "?run x = (r', x')" for x r' x'
        by (rule dispatch_effect [OF env mgr wf that(1) im that(2)])
      have "\<exists>h' w4. stored t h' w4 \<and> turn_effect env m t u msg h r h' \<and>
          w' = env_release env t (env_Unlock env t w4)"
      proof (cases "sm_tracer m")
        case notrace: None
        then show ?thesis using d 2 3 None rs Inr l run [of w3] p3
          by (cases "?run w3") (force simp: Dispatch_def Let_def)
      next
        case (Some trace)
        obtain r1 w4 where 4: "trace t (length ms) ?run w3 = (r1, w4)" by fastforce
        from tr [OF Some] 4 obtain x1 r2 x2 where x: "\<forall>h. stored t h w3 \<longrightarrow> stored t h x1" "?run x1 = (r2, x2)"
          "\<forall>h. stored t h x2 \<longrightarrow> stored t h w4" "case r2 of Inl e \<Rightarrow> isl r1 | Inr y \<Rightarrow> r1 = Inr y"
          unfolding tracer_once_def by blast
        have "stored t h x1" using x(1) p3 by blast
        from run [OF this x(2)] x(3) obtain h' where h': "stored t h' w4" "turn_effect env m t u msg h r2 h'"
          by blast
        have "w' = env_release env t (env_Unlock env t w4)" "r = r1 \<or> (isl r \<and> isl r1)"
          using d 2 3 4 None rs Inr l Some by (auto simp: Dispatch_def Let_def split: sum.splits)
        moreover have "turn_effect env m t u msg h r h'"
          using h'(2) x(4) calculation(2) by (cases r2; cases r1) (auto intro: turn_effect_isl)
        ultimately show ?thesis using h'(1) by blast
      qed
      then show ?thesis using unl by blast
    qed
  qed
qed

lemma refreshCompactionTokens_stored:
  assumes "env_keep (stored t h) env" "stored t h w"
  shows "stored t h (snd (refreshCompactionTokens env sk store est w))"
  unfolding refreshCompactionTokens_def
  using assms
  by (intro keep_if [where P = "stored t h"] keep_bind [where P = "stored t h"]
        keep_option [where P = "stored t h"] keep_sum [where P = "stored t h"] keep_tokens [where P = "stored t h"]
      | simp add: env_keepD [where P = "stored t h"] get_at update_at)+

lemma loadCompactionSnapshot_stored:
  assumes "env_keep (stored t h) env" "stored t h w"
    and "loadCompactionSnapshot env m t (Some store) w = (r, w')"
  shows "stored t h w' \<and> (\<forall>snap. r = Some snap \<longrightarrow> h = Some (Iteration snap, Messages snap))"
proof (cases "sm_tokenBudget m \<le> 0")
  case True
  then show ?thesis using assms by (simp add: loadCompactionSnapshot_def)
next
  case False
  obtain ce w1 where 1: "env_ctxErr env w = (ce, w1)" by fastforce
  have p1: "stored t h w1" using env_keepD(1) [OF assms(1,2)] 1 by simp
  obtain lr w2 where 2: "st_LoadLatest store t w1 = (lr, w2)" by fastforce
  have p2: "stored t h w2" using load_at [OF p1, of t] 2 by simp
  show ?thesis
  proof (cases "\<exists>snap. ce = None \<and> lr = Inr (Some snap)")
    case True
    then obtain snap where s: "ce = None" "lr = Inr (Some snap)" by blast
    have h: "h = Some (Iteration snap, Messages snap)"
      using load_result [of w1 t "Some snap" w2] p1 2 s by (simp add: stored_def snapshot_of_def)
    obtain ok w3 where 3: "refreshCompactionTokens env t store (estimateTokensForMessages (Messages snap)) w2 = (ok, w3)"
      by fastforce
    have "stored t h w3" using refreshCompactionTokens_stored [OF assms(1) p2, of t] 3 by (metis snd_conv)
    then show ?thesis using assms(3) False 1 2 3 s h
      by (auto simp: loadCompactionSnapshot_def Let_def split: bool.splits if_splits)
  next
    case none: False
    then show ?thesis using assms(3) False 1 2 p1 p2
      by (auto simp: loadCompactionSnapshot_def split: option.splits sum.splits)
  qed
qed

lemma publishCompaction_stored:
  assumes env: "\<And>h. env_keep (stored t h) env" and w: "stored t (Some (Iteration snap, old)) w"
    and wf: "list_all wf_message ms"
  shows "stored t (Some (Iteration snap, old)) (publishCompaction env t store snap ms w) \<or>
    stored t (Some (Iteration snap, map coerce_message ms)) (publishCompaction env t store snap ms w)"
proof -
  let ?h = "Some (Iteration snap, old)"
  obtain ce w1 where 1: "env_ctxErr env w = (ce, w1)" by fastforce
  have p1: "stored t ?h w1" using env_keepD(1) [OF env w] 1 by simp
  obtain saved err w2 where 2: "st_SaveSnapshot store t (Iteration snap) ms w1 = ((saved, err), w2)"
    by (metis prod.collapse)
  let ?h2 = "if saved then Some (Iteration snap, map coerce_message ms) else ?h"
  have p2: "stored t ?h2 w2"
    using save_keeps [OF _ wf _ 2] p1 by (simp add: stored_def not_newer_def)
  obtain ce' w3 where 3: "env_ctxErr env w2 = (ce', w3)" by fastforce
  have p3: "stored t ?h2 w3" using env_keepD(1) [OF env p2] 3 by simp
  obtain now w4 where 4: "env_now env w3 = (now, w4)" by fastforce
  have p4: "stored t ?h2 w4" using env_keepD(2) [OF env p3] 4 by simp
  have p5: "stored t ?h2 (snd (st_UpdateSessionTokens store t (estimateTokensForMessages ms) (Some now) w4))"
    by (rule update_at [OF p4])
  have "stored t ?h (publishCompaction env t store snap ms w) \<or>
      stored t ?h2 (publishCompaction env t store snap ms w)"
    using 1 2 3 4 p1 p2 p3 p5 by (auto simp: publishCompaction_def split: option.split)
  then show ?thesis by (cases saved) auto
qed

text \<open>Compaction against the token budget either leaves the stored history as it is or replaces, at
  the same iteration, the older part by one summary message and keeps the newest turns unchanged.\<close>

lemma compactSessionLocked_effect:
  assumes env: "\<And>h. env_keep (stored t h) env" and mgr: "\<And>h. manager_keep (stored t h) m"
    and w: "stored t h w" and wf: "\<And>i ms. h = Some (i, ms) \<Longrightarrow> list_all wf_message ms"
  defines "w' \<equiv> compactSessionLocked env m t (Some store) w"
    and "turns \<equiv> nat (if sm_summaryTurns m \<le> 0 then 20 else sm_summaryTurns m)"
  shows "stored t h w' \<or>
    (\<exists>i ms summary stamp. h = Some (i, ms) \<and> turns < length ms \<and>
       stored t (Some (i, map coerce_message (summary_message summary stamp # drop (length ms - turns) ms))) w')"
proof -
  obtain r w1 where 1: "loadCompactionSnapshot env m t (Some store) w = (r, w1)" by fastforce
  note p1 = loadCompactionSnapshot_stored [OF env w 1]
  show ?thesis
  proof (cases "\<exists>snap. r = Some snap \<and> turns < length (Messages snap)")
    case False
    then have "w' = w1" using 1 by (auto simp: w'_def turns_def compactSessionLocked_def Let_def split: option.split)
    then show ?thesis using p1 by simp
  next
    case True
    then obtain snap where snap: "r = Some snap" "turns < length (Messages snap)" by blast
    have h: "h = Some (Iteration snap, Messages snap)" using p1 snap by simp
    let ?n = "length (Messages snap) - turns"
    obtain bs w2 where 2: "buildCompactionSummary env m t (take ?n (Messages snap)) w1 = (bs, w2)" by fastforce
    have "stored t h (snd (buildCompactionSummary env m t (take ?n (Messages snap)) w1))"
      unfolding buildCompactionSummary_def Let_def
      using p1 env [of h] mgr [of h]
      by (intro keep_bind [where P = "stored t h"] keep_option [where P = "stored t h"] keep_sum [where P = "stored t h"])
         (simp_all add: env_keepD [where P = "stored t h"] manager_keep_def runner_keep_def)
    then have p2: "stored t h w2" using 2 by simp
    show ?thesis
    proof (cases bs)
      case (Inl e)
      then have "w' = w2" using 1 2 snap by (simp add: w'_def turns_def compactSessionLocked_def Let_def)
      then show ?thesis using p2 by simp
    next
      case (Inr summary)
      obtain st w3 where 3: "env_stamp env w2 = (st, w3)" by fastforce
      have p3: "stored t h w3" using env_keepD(3) [OF env p2] 3 by simp
      let ?ms = "summary_message summary st # drop ?n (Messages snap)"
      have "list_all wf_message (drop ?n (Messages snap))"
        using wf [OF h] by (meson in_set_dropD list_all_iff)
      then have "list_all wf_message ?ms"
        by (simp add: summary_message_def text_message_def wf_message_def wf_content_def)
      from publishCompaction_stored [OF env p3 [unfolded h] this]
      have stored_ms: "stored t h w' \<or> stored t (Some (Iteration snap, map coerce_message ?ms)) w'"
        using 1 2 3 Inr snap h by (simp add: w'_def turns_def compactSessionLocked_def Let_def)
      then show ?thesis using h snap(2) by blast
    qed
  qed
qed

end

section \<open>Turns on the checkpoint manager\<close>

text \<open>A thread of the world's database is in use by sessions and a reload finds \<open>h\<close>.\<close>

definition history_is :: "string \<Rightarrow> history \<Rightarrow> db \<times> 'e \<Rightarrow> bool" where
  "history_is t h w \<longleftrightarrow> db_live (fst w) t \<and> db_history (fst w) t = h"

lemma cm_stored: "cm.stored = history_is"
  by (intro ext) (simp add: cm.stored_def history_is_def)

text \<open>
  \<^bold>\<open>C1.\<close> A turn of a session with the checkpoint manager as its store. If it returns an error the stored
  history is unchanged. If it returns an answer then the runner was run on the prepared form of
  the stored messages followed by the user's message, and exactly the messages it handed back, with
  the missing timestamps added and as the JSON encoder writes them, are stored at the next
  iteration; or the history is unchanged because there were no messages to store or the answer
  starts with a warning that says so. This holds for every behaviour of the driver, the context, the
  clock, the lock and the runner, as long as only the store writes the thread's history, the thread
  is not marked completed and the runner's messages are well-formed.
\<close>

theorem Dispatch_stores_turn:
  assumes "sm_store m = Some (CheckpointManager sha scan fmt)" "sm_storeProvider m = None"
    and "\<forall>h. env_keep (history_is t h) env" "\<forall>h. manager_keep (history_is t h) m" "runner_wf (sm_runner m)"
    and "\<forall>trace. sm_tracer m = Some trace \<longrightarrow>
      tracer_once (\<lambda>w w'. \<forall>h. history_is t h w \<longrightarrow> history_is t h w') trace"
    and "history_is t h w" "Dispatch env m t u msg w = (r, w')"
  shows "\<exists>h'. history_is t h' w' \<and> turn_effect env m t u msg h r h'"
  by (rule cm.Dispatch_effect [where sha = sha and scan = scan and fmt = fmt, unfolded cm_stored])
     (use assms in auto)

text \<open>A session world with nothing but the database: the context is never cancelled, the clock stands
  still, the lock is free; the runner echoes.\<close>

definition sample_env :: "(db \<times> unit) Env" where
  "sample_env =
     \<lparr>env_ctxErr = \<lambda>w. (None, w), env_now = \<lambda>w. (0, w), env_stamp = \<lambda>w. (''2026-03-01T10:00:00Z'', w),
      env_acquireLock = \<lambda>k d w. w, env_Lock = \<lambda>k w. (None, w), env_Unlock = \<lambda>k w. w, env_release = \<lambda>k w. w,
      env_journal = \<lambda>d s w. (None, w), env_spawn_compaction = \<lambda>k st w. w, env_fl = \<lambda>x. x\<rparr>"

definition sample_runner :: "(db \<times> unit) Runner" where
  "sample_runner =
     \<lparr>ru_Run = \<lambda>sk u ms w. (Inr (''pong'', [text_message RoleUser ''ping'' [], text_message RoleAssistant ''pong'' []]), w),
      ru_RunText = \<lambda>sk p md w. (Inr ''summary'', w)\<rparr>"

definition sample_manager :: "(db \<times> unit) SessionManager" where
  "sample_manager =
     NewSessionManager sample_runner (Some (CheckpointManager (\<lambda>_. ''h'') (\<lambda>s. s) (\<lambda>_. ''t''))) ''gemini''"

lemma sample_keep: "env_keep P sample_env" "manager_keep P sample_manager" "runner_wf (sm_runner sample_manager)"
  by (auto simp: env_keep_def sample_env_def manager_keep_def sample_manager_def NewSessionManager_def
      runner_keep_def runner_wf_def sample_runner_def text_message_def wf_message_def wf_content_def)

lemma sample_history: "history_is ''s'' None (sample_db, ())"
  using sample_db_facts by (simp add: history_is_def db_live_def db_history_def newest_first_def)

definition sample_turn_stamp :: string where "sample_turn_stamp = ''2026-03-01T10:00:00Z''"

definition sample_exchange :: "StrategicMessage list" where
  "sample_exchange = [text_message RoleUser ''ping'' sample_turn_stamp, text_message RoleAssistant ''pong'' sample_turn_stamp]"

lemma sample_exchange_valid: "map coerce_message sample_exchange = sample_exchange"
  by (simp add: sample_exchange_def sample_turn_stamp_def coerce_message_def text_message_def empty_message_def
      coerce_content_def RoleUser_def RoleAssistant_def coerce_utf8_ascii)

lemma sample_exchange_ran:
  assumes "turn_ran sample_env sample_manager t u msg ms updated"
  shows "updated = sample_exchange"
  using assms
  by (auto simp: turn_ran_def sample_manager_def NewSessionManager_def sample_runner_def addMissingTimestamps_def
      sample_env_def sample_exchange_def sample_turn_stamp_def text_message_def empty_message_def)

lemma sample_parts:
  "sm_store sample_manager = Some (CheckpointManager (\<lambda>_. ''h'') (\<lambda>s. s) (\<lambda>_. ''t''))"
  "sm_storeProvider sample_manager = None" "sm_tracer sample_manager = None" "sm_hooks sample_manager = None"
  "sm_logger sample_manager = None" "sm_model sample_manager = ''gemini''" "sm_runner sample_manager = sample_runner"
  "sm_tokenBudget sample_manager = 0"
  by (simp_all add: sample_manager_def NewSessionManager_def)

lemma sample_env_parts:
  "env_stamp sample_env w = (sample_turn_stamp, w)" "env_Lock sample_env k w = (None, w)"
  "env_acquireLock sample_env k d w = w" "env_Unlock sample_env k w = w" "env_release sample_env k w = w"
  "env_ctxErr sample_env w = (None, w)" "env_now sample_env w = (0, w)"
  by (simp_all add: sample_env_def sample_turn_stamp_def)

lemma sample_prepared: "prepareHistory sample_env sample_manager t [] w = ([], w)"
  by (simp add: prepareHistory_def sample_parts PruneMessages_def summarizeHistoryIfNeeded_def
      compactHistoryIfNeeded_def CompactMessages_def Let_def sample_env_def)
     (simp add: sample_manager_def NewSessionManager_def IsSummarizationEnabled_def)

lemma sample_load: "loadHistory sample_manager ''s'' (sm_store sample_manager) (sample_db, ()) =
    (Inr ([], 0, False), (snd (CreateThread ''s'' ''gemini'' None sample_db), ()))"
proof -
  have "isCompleted ''s'' sample_db = (False, sample_db)"
    using sample_db_facts by (auto simp: isCompleted_def status_of_def)
  then have l: "LoadLatest sha ''s'' sample_db = (Inr None, sample_db)" for sha
    using sample_db_facts by (simp add: LoadLatest_def newest_first_def)
  have c: "CreateThread ''s'' ''gemini'' None sample_db = (None, snd (CreateThread ''s'' ''gemini'' None sample_db))"
    using CreateThread_no_faults(1) [OF sample_db_facts(4)] by (metis prod.collapse)
  show ?thesis
    by (simp add: loadHistory_def sample_parts CheckpointManager_def on_db_def l) (subst c, simp)
qed

lemma sample_exchange_wf: "list_all wf_message sample_exchange"
  by (simp add: sample_exchange_def text_message_def wf_message_def wf_content_def)

lemma sample_session_run:
  assumes "script db = []"
  shows "fst (dispatch sample_env sample_manager ''s'' ''u'' ''ping'' [] 0 False (sm_store sample_manager) (db, ())) = Inr ''pong''"
proof -
  have stamped: "addMissingTimestamps sample_env
      [text_message RoleUser ''ping'' [], text_message RoleAssistant ''pong'' []] w = (sample_exchange, w)" for w
    by (simp add: addMissingTimestamps_def sample_env_def sample_exchange_def sample_turn_stamp_def text_message_def empty_message_def)
  obtain db' where saved: "SaveSnapshot (\<lambda>_. ''h'') ''s'' 1 sample_exchange db = ((True, None), db')"
    using SaveSnapshot_no_faults [OF sample_exchange_wf assms] by blast
  have stored: "persistResult sample_manager ''s'' 0 sample_exchange False (sm_store sample_manager) (db, ()) = ((True, False), (db', ()))"
    by (simp add: persistResult_def sample_parts CheckpointManager_def on_db_def saved sample_exchange_def [symmetric])
       (simp add: sample_exchange_def)
  show ?thesis
    by (simp add: dispatch_def sample_prepared sample_parts(4,7) sample_runner_def stamped stored Let_def sample_env_parts)
qed

lemma sample_answers: "fst (Dispatch sample_env sample_manager ''s'' ''u'' ''ping'' (sample_db, ())) = Inr ''pong''"
proof -
  have "script (snd (CreateThread ''s'' ''gemini'' None sample_db)) = []"
    using CreateThread_no_faults(2) [OF sample_db_facts(4)] .
  note run = sample_session_run [OF this]
  have rs: "resolveStore sample_manager ''u'' w = (sm_store sample_manager, w)" for w
    by (simp add: resolveStore_def sample_parts)
  show ?thesis
    using run by (simp add: Dispatch_def rs sample_parts(3) sample_load sample_env_parts Let_def case_prod_beta)
qed

text \<open>The turn answers and the store then holds exactly what the runner handed back, with timestamps.\<close>

lemma Dispatch_stores_turn_witness:
  "\<exists>w'. Dispatch sample_env sample_manager ''s'' ''u'' ''ping'' (sample_db, ()) = (Inr ''pong'', w') \<and>
     history_is ''s'' (Some (1, sample_exchange)) w'"
proof -
  obtain w' where d: "Dispatch sample_env sample_manager ''s'' ''u'' ''ping'' (sample_db, ()) = (Inr ''pong'', w')"
    using sample_answers by (metis prod.collapse)
  have tr: "\<forall>trace. sm_tracer sample_manager = Some trace \<longrightarrow>
      tracer_once (\<lambda>w w'. \<forall>h. history_is ''s'' h w \<longrightarrow> history_is ''s'' h w') trace"
    by (simp add: sample_parts)
  obtain h' where h': "history_is ''s'' h' w'"
    "turn_effect sample_env sample_manager ''s'' ''u'' ''ping'' None (Inr ''pong'') h'"
    using Dispatch_stores_turn [OF sample_parts(1,2) _ _ sample_keep(3) tr sample_history d] sample_keep(1,2) by blast
  obtain updated where u: "turn_ran sample_env sample_manager ''s'' ''u'' ''ping'' (stored_messages None) updated"
    "updated \<noteq> [] \<and> h' = Some (stored_iteration None + 1, map coerce_message updated) \<or>
     h' = None \<and> (updated = [] \<or> HasPrefix ''pong'' statelessWarning \<or> HasPrefix ''pong'' checkpointSaveWarning)"
    using h'(2) unfolding turn_effect_def sum.case by blast
  have "updated = sample_exchange" using u(1) by (rule sample_exchange_ran)
  moreover have "\<not> HasPrefix ''pong'' statelessWarning" "\<not> HasPrefix ''pong'' checkpointSaveWarning" "sample_exchange \<noteq> []"
    by (simp_all add: HasPrefix_def statelessWarning_def checkpointSaveWarning_def sample_exchange_def)
  ultimately have "h' = Some (1, sample_exchange)"
    using u(2) sample_exchange_valid by (simp add: stored_iteration_def)
  with d h'(1) show ?thesis by blast
qed

text \<open>
  \<^bold>\<open>C37.\<close> Compaction against the token budget never loses the newest turns and never moves the iteration. On a
  thread that is not marked completed and holds well-formed messages it leaves the stored history as
  it is, or replaces it at the same iteration by one summary message followed by the newest messages
  as the JSON encoder writes them (unchanged when their text is valid UTF-8, as after any save), and
  that only when there are more of them than it keeps.
\<close>

theorem compactSessionLocked_keeps_recent:
  assumes "\<forall>h. env_keep (history_is t h) env" "\<forall>h. manager_keep (history_is t h) m"
    and "history_is t h w" "\<forall>i ms. h = Some (i, ms) \<longrightarrow> list_all wf_message ms"
    and "w' = compactSessionLocked env m t (Some (CheckpointManager sha scan fmt)) w"
    and "turns = nat (if sm_summaryTurns m \<le> 0 then 20 else sm_summaryTurns m)"
  shows "history_is t h w' \<or>
    (\<exists>i ms summary stamp. h = Some (i, ms) \<and> turns < length ms \<and>
       history_is t (Some (i, map coerce_message (summary_message summary stamp # drop (length ms - turns) ms))) w')"
  unfolding assms(5,6)
  by (rule cm.compactSessionLocked_effect [where sha = sha and scan = scan and fmt = fmt, unfolded cm_stored])
     (use assms in auto)

text \<open>A budget of one token and one turn to keep: the two stored messages become a summary and the newest.\<close>

definition compacting_manager :: "(db \<times> unit) SessionManager" where
  "compacting_manager = SetTokenBudget 1 (SetSummaryTurns 1 sample_manager)"

definition compacted_items :: "StrategicMessage list" where
  "compacted_items = summary_message ''summary'' sample_turn_stamp # drop 1 sample_items"

lemma compacting_parts:
  "sm_tokenBudget compacting_manager = 1" "sm_summaryTurns compacting_manager = 1"
  "sm_runner compacting_manager = sample_runner" "manager_keep P compacting_manager"
  using sample_keep(2) [of P]
  by (simp_all add: compacting_manager_def SetTokenBudget_def SetSummaryTurns_def sample_parts manager_keep_def)

lemma compacted_items_facts:
  "list_all wf_message compacted_items" "map coerce_message compacted_items = compacted_items"
  "compacted_items \<noteq> sample_items" "length sample_items = 2" "1 < estimateTokensForMessages sample_items"
proof -
  show "list_all wf_message compacted_items"
    by (simp add: compacted_items_def sample_items_def summary_message_def text_message_def empty_message_def
        wf_message_def wf_content_def)
  show "map coerce_message compacted_items = compacted_items"
    by (simp add: compacted_items_def summary_message_def sample_items_def coerce_message_def text_message_def
        empty_message_def coerce_content_def coerce_call_def coerce_object_def RoleSystem_def RoleAssistant_def
        sample_turn_stamp_def coerce_utf8_ascii)
  show "compacted_items \<noteq> sample_items" "length sample_items = 2"
    by (simp_all add: compacted_items_def sample_items_def summary_message_def text_message_def empty_message_def
        RoleSystem_def RoleUser_def)
  show "1 < estimateTokensForMessages sample_items"
    by (simp add: estimateTokensForMessages_def sample_items_def)
qed

lemma UpdateSessionTokens_no_faults:
  assumes "script d = []"
  obtains d' where "UpdateSessionTokens fmt t n c d = (None, d')" "script d' = []"
  using assms by (auto simp: UpdateSessionTokens_def update_thread_def)

lemma compaction_runs:
  assumes d: "script d = []" "db_live d ''s''" "newest_first ''s'' (checkpoints d) = row # rows" "cp_iteration row = 2"
    and row: "checksum_matches (\<lambda>_. ''h'') row" "unmarshal_messages (cp_state row) = Inr sample_items"
  shows "history_is ''s'' (Some (2, compacted_items))
    (compactSessionLocked sample_env compacting_manager ''s''
       (Some (CheckpointManager (\<lambda>_. ''h'') (\<lambda>s. s) (\<lambda>_. ''t''))) (d, ()))"
proof -
  let ?st = "CheckpointManager (\<lambda>_. ''h'') (\<lambda>s. s) (\<lambda>_. ''t'') :: (db \<times> unit) CheckpointStore"
  obtain snap where snap: "LoadLatest (\<lambda>_. ''h'') ''s'' d = (Inr (Some snap), d)" "Iteration snap = 2"
    "Messages snap = sample_items"
    using LoadLatest_no_faults [OF d(1) _ d(3) row] d(2,4) unfolding db_live_def by metis
  obtain tokens c where g: "GetSessionTokens (\<lambda>s. s) ''s'' d = (Inr (tokens, c), d)"
    using d(1) by (cases "map_of (threads d) ''s''") (auto simp: GetSessionTokens_def)
  obtain d1 where u: "UpdateSessionTokens (\<lambda>_. ''t'') ''s'' (estimateTokensForMessages sample_items) c d = (None, d1)"
    "script d1 = []" using UpdateSessionTokens_no_faults [OF d(1)] by blast
  let ?d2 = "if tokens \<noteq> estimateTokensForMessages sample_items then d1 else d"
  have refresh: "refreshCompactionTokens sample_env ''s'' ?st (estimateTokensForMessages sample_items) (d, ()) = (True, (?d2, ()))"
    using g u by (simp add: refreshCompactionTokens_def CheckpointManager_def on_db_def sample_env_parts)
  have d2: "script ?d2 = []" "db_live ?d2 ''s''" "db_history ?d2 ''s'' = Some (2, sample_items)"
  proof -
    have "db_live d1 ''s'' \<and> db_history d1 ''s'' = db_history d ''s''" by (rule UpdateSessionTokens_keeps [OF d(2) u(1)])
    then show "script ?d2 = []" "db_live ?d2 ''s''" "db_history ?d2 ''s'' = Some (2, sample_items)"
      using d u(2) row(2) by (simp_all add: db_history_def row_messages_def)
  qed
  have load: "loadCompactionSnapshot sample_env compacting_manager ''s'' (Some ?st) (d, ()) = (Some snap, (?d2, ()))"
    using snap refresh compacted_items_facts(5) compacted_items_facts(4)
    by (auto simp: loadCompactionSnapshot_def compacting_parts CheckpointManager_def on_db_def sample_env_parts Let_def)
  obtain d3 where s: "SaveSnapshot (\<lambda>_. ''h'') ''s'' 2 compacted_items ?d2 = ((True, None), d3)" "script d3 = []"
    using SaveSnapshot_no_faults [OF compacted_items_facts(1) d2(1)] by blast
  have h3: "db_live d3 ''s'' \<and> db_history d3 ''s'' = Some (2, compacted_items)"
    using SaveSnapshot_history [OF d2(2) compacted_items_facts(1) _ s(1)] d2(3) compacted_items_facts(2)
    by (simp add: not_newer_def)
  obtain d4 where t: "UpdateSessionTokens (\<lambda>_. ''t'') ''s'' (estimateTokensForMessages compacted_items) (Some 0) d3 = (None, d4)"
    using UpdateSessionTokens_no_faults [OF s(2)] by blast
  have "db_live d4 ''s'' \<and> db_history d4 ''s'' = db_history d3 ''s''"
    by (rule UpdateSessionTokens_keeps [OF _ t]) (use h3 in simp)
  moreover have publish: "publishCompaction sample_env ''s'' ?st snap compacted_items (?d2, ()) = (d4, ())"
    using s t snap(2) by (simp add: publishCompaction_def CheckpointManager_def on_db_def sample_env_parts)
  moreover have "compactSessionLocked sample_env compacting_manager ''s'' (Some ?st) (d, ()) =
      publishCompaction sample_env ''s'' ?st snap compacted_items (?d2, ())"
    using load compacted_items_facts(4) snap(3)
    by (simp add: compactSessionLocked_def compacting_parts buildCompactionSummary_def sample_env_parts
        sample_runner_def compacted_items_def Let_def)
  ultimately show ?thesis using h3 by (simp add: history_is_def)
qed

lemma compactSessionLocked_keeps_recent_witness:
  "\<exists>w w' summary stamp. history_is ''s'' (Some (2, sample_items)) w \<and>
     w' = compactSessionLocked sample_env compacting_manager ''s''
       (Some (CheckpointManager (\<lambda>_. ''h'') (\<lambda>s. s) (\<lambda>_. ''t''))) w \<and>
     \<not> history_is ''s'' (Some (2, sample_items)) w' \<and>
     history_is ''s'' (Some (2, map coerce_message (summary_message summary stamp # drop 1 sample_items))) w'"
proof (rule sample_saved_twice)
  fix row rows d
  assume a: "store_inv d" "script d = []" "status_of d ''s'' = Some ''active''"
    "newest_first ''s'' (checkpoints d) = row # rows" "cp_iteration row = 2"
    "checksum_matches (\<lambda>_. ''h'') row" "unmarshal_messages (cp_state row) = Inr sample_items"
  let ?w = "(d, ())"
  let ?w' = "compactSessionLocked sample_env compacting_manager ''s''
       (Some (CheckpointManager (\<lambda>_. ''h'') (\<lambda>s. s) (\<lambda>_. ''t''))) ?w"
  have live: "db_live d ''s''" using a(1,3) by (simp add: db_live_def)
  have old: "history_is ''s'' (Some (2, sample_items)) ?w"
    using a live by (simp add: history_is_def db_history_def row_messages_def)
  have "history_is ''s'' (Some (2, compacted_items)) ?w'"
    by (rule compaction_runs [OF a(2) live a(4-7)])
  then have new: "\<not> history_is ''s'' (Some (2, sample_items)) ?w'"
    using compacted_items_facts(3) by (simp add: history_is_def)
  have "\<exists>i ms summary stamp. Some (2, sample_items) = Some (i, ms) \<and> nat 1 < length ms \<and>
      history_is ''s'' (Some (i, map coerce_message (summary_message summary stamp # drop (length ms - nat 1) ms))) ?w'"
    using compactSessionLocked_keeps_recent [OF _ _ old _ refl refl, of sample_env compacting_manager
        "\<lambda>_. ''h''" "\<lambda>s. s" "\<lambda>_. ''t''"] new sample_keep(1) compacting_parts sample_items_wf by simp
  then obtain summary stamp where
    "history_is ''s'' (Some (2, map coerce_message (summary_message summary stamp # drop 1 sample_items))) ?w'"
    using compacted_items_facts(4) by auto
  with old new show ?thesis by blast
qed

end
