(* ===== verification/Bot.thy ===== *)
theory Bot
  imports GoTime
begin

text \<open>
  The Telegram runtime of \<^verbatim>\<open>internal/bot/bot.go\<close>: message types, session keys and user IDs, the
  classification of transient errors, the handling of one message, and the two polling loops as one
  state machine with its retry delay. The client API and the message handler are records of
  functions over a world.
\<close>

section \<open>Messages and keys\<close>

definition SessionPrefixTelegram :: string where "SessionPrefixTelegram = ''telegram:''"
definition SessionPrefixCron :: string where "SessionPrefixCron = ''cron:''"

definition IsCronSession :: "string \<Rightarrow> bool" where
  "IsCronSession key = HasPrefix key SessionPrefixCron"

definition IsTelegramSession :: "string \<Rightarrow> bool" where
  "IsTelegramSession key = HasPrefix key SessionPrefixTelegram"

record InboundMessage =
  im_ChatID :: int
  im_MessageID :: int
  im_ThreadID :: int
  im_SenderID :: int
  im_Text :: string

definition Validate :: "InboundMessage \<Rightarrow> go_error option" where
  "Validate m =
     (if im_ChatID m = 0 then Some (ErrorNew ''missing ChatID'')
      else if im_SenderID m = 0 then Some (ErrorNew ''missing SenderID'')
      else if im_ThreadID m < 0 then Some (ErrorNew ''negative ThreadID'')
      else None)"

record Button =
  bu_Text :: string
  bu_Data :: string

record InboundCallback =
  cb_ChatID :: int
  cb_MessageID :: int
  cb_SenderID :: int
  cb_Data :: string
  cb_SessionKey :: string

record OutboundMessage =
  om_ChatID :: int
  om_ThreadID :: int
  om_ReplyToID :: int
  om_Text :: string

definition UserID :: "int \<Rightarrow> int \<Rightarrow> string" where
  "UserID chatID senderID = (if chatID > 0 then Itoa chatID else Itoa senderID)"

definition SessionKey :: "int \<Rightarrow> int \<Rightarrow> int \<Rightarrow> string" where
  "SessionKey chatID threadID senderID =
     (if chatID < 0 then
        (if senderID > 0 then SessionPrefixTelegram @ Itoa chatID @ '':'' @ Itoa senderID
         else SessionPrefixTelegram @ Itoa chatID)
      else if threadID > 0 then SessionPrefixTelegram @ Itoa chatID @ '':'' @ Itoa threadID
      else SessionPrefixTelegram @ Itoa chatID)"

definition IsTransientError :: "go_error option \<Rightarrow> bool" where
  "IsTransientError err =
     (case err of
        None \<Rightarrow> False
      | Some e \<Rightarrow>
          if error_is e EOF \<or> error_is e DeadlineExceeded then True
          else list_ex (Contains (ToLower (error_msg e)))
                 [''readerror'', ''remoteprotocolerror'', ''timed out'', ''connecterror'',
                  ''connection reset by peer'', ''connection reset'', ''network'', ''closed connection'',
                  ''server closed'', ''no choices returned''])"

section \<open>Handling one message\<close>

record 'w API =
  api_Send :: "OutboundMessage \<Rightarrow> 'w \<Rightarrow> go_error option \<times> 'w"
  api_SendWithButtons :: "OutboundMessage \<Rightarrow> Button list list \<Rightarrow> 'w \<Rightarrow> go_error option \<times> 'w"
  api_Typing :: "int \<Rightarrow> int \<Rightarrow> 'w \<Rightarrow> 'w"
  api_StopTyping :: "int \<Rightarrow> int \<Rightarrow> 'w \<Rightarrow> 'w"

record 'w Handler =
  ha_Handle :: "string \<Rightarrow> InboundMessage \<Rightarrow> 'w \<Rightarrow> string result \<times> 'w"
  ha_HandleCallback :: "InboundCallback \<Rightarrow> 'w \<Rightarrow> go_error option \<times> 'w"

definition failure_notice :: string where
  "failure_notice =
     ''I couldn'' @ [CHR 0x27] @
     ''t finish processing your message. Some actions may already have completed. Please check before trying again.''"

text \<open>\<open>ctxErr\<close> is \<^verbatim>\<open>ctx.Err()\<close> when the handler has failed.\<close>

definition handleAndSend ::
  "'w API \<Rightarrow> 'w Handler \<Rightarrow> ('w \<Rightarrow> go_error option) \<Rightarrow> string \<Rightarrow> InboundMessage \<Rightarrow> 'w \<Rightarrow> go_error option \<times> 'w" where
  "handleAndSend api handler ctxErr sessionKey msg w =
     (case ha_Handle handler sessionKey msg w of
        (Inl err, w1) \<Rightarrow>
          (let handleErr = wrap_err ''handle'' err in
           if ctxErr w1 = None then
             (case api_Send api \<lparr>om_ChatID = im_ChatID msg, om_ThreadID = im_ThreadID msg,
                                 om_ReplyToID = im_MessageID msg, om_Text = failure_notice\<rparr> w1 of
                (Some sendErr, w2) \<Rightarrow> (Some (ErrorJoin handleErr (wrap_err ''send failure notice'' sendErr)), w2)
              | (None, w2) \<Rightarrow> (Some handleErr, w2))
           else (Some handleErr, w1))
      | (Inr reply, w1) \<Rightarrow>
          if reply = [] then (None, w1)
          else
            (case api_Send api \<lparr>om_ChatID = im_ChatID msg, om_ThreadID = im_ThreadID msg,
                                om_ReplyToID = 0, om_Text = reply\<rparr> w1 of
               (Some err, w2) \<Rightarrow> (Some (wrap_err ''send error'' err), w2)
             | (None, w2) \<Rightarrow> (None, w2)))"

definition dispatch_message ::
  "'w API \<Rightarrow> 'w Handler \<Rightarrow> ('w \<Rightarrow> go_error option) \<Rightarrow> InboundMessage \<Rightarrow> 'w \<Rightarrow> 'w" where
  "dispatch_message api handler ctxErr msg w =
     (case Validate msg of
        Some e \<Rightarrow> w
      | None \<Rightarrow>
          (let sessionKey = SessionKey (im_ChatID msg) (im_ThreadID msg) (im_SenderID msg);
               w1 = api_Typing api (im_ChatID msg) (im_ThreadID msg) w;
               w2 = snd (handleAndSend api handler ctxErr sessionKey msg w1)
           in api_StopTyping api (im_ChatID msg) (im_ThreadID msg) w2))"

definition bot_Send :: "'w API \<Rightarrow> OutboundMessage \<Rightarrow> 'w \<Rightarrow> go_error option \<times> 'w" where
  "bot_Send api msg w =
     (case api_Send api msg w of
        (Some e, w') \<Rightarrow> (Some (wrap_err ''api send'' e), w')
      | (None, w') \<Rightarrow> (None, w'))"

definition bot_SendWithButtons :: "'w API \<Rightarrow> OutboundMessage \<Rightarrow> Button list list \<Rightarrow> 'w \<Rightarrow> go_error option \<times> 'w" where
  "bot_SendWithButtons api msg buttons w =
     (case api_SendWithButtons api msg buttons w of
        (Some e, w') \<Rightarrow> (Some (wrap_err ''api send with buttons'' e), w')
      | (None, w') \<Rightarrow> (None, w'))"

section \<open>The polling loops\<close>

text \<open>One loop, for updates or for callbacks. It is connecting with a retry delay, waiting out that
  delay, draining a channel, or it has returned. What happens to it comes as events: the API call
  fails or connects, the delay elapses, an item arrives, the channel closes, the context ends.\<close>

definition initialDelay :: duration where "initialDelay = 5 * second"
definition maxDelay :: duration where "maxDelay = 60 * second"

datatype poll_state =
    Connecting duration
  | Waiting duration
  | Draining
  | Returned go_error

datatype 'a poll_event =
    ApiFailed go_error
  | ApiConnected
  | DelayElapsed
  | Received 'a
  | ChannelClosed
  | CtxDone go_error

definition next_delay :: "duration \<Rightarrow> duration" where
  "next_delay delay = (let d = wrap64 (delay * 2) in if d > maxDelay then maxDelay else d)"

text \<open>The step of a loop named \<open>op\<close>, with the items it hands to a new goroutine. \<open>None\<close>: the loop does
  not react to the event in this state.\<close>

fun poll_step :: "string \<Rightarrow> poll_state \<Rightarrow> 'a poll_event \<Rightarrow> (poll_state \<times> 'a list) option" where
  "poll_step op (Connecting d) (ApiFailed e) = Some (Waiting d, [])"
| "poll_step op (Connecting d) ApiConnected = Some (Draining, [])"
| "poll_step op (Waiting d) (CtxDone e) = Some (Returned (wrap_err ''wait retry'' e), [])"
| "poll_step op (Waiting d) DelayElapsed = Some (Connecting (next_delay d), [])"
| "poll_step op Draining (CtxDone e) = Some (Returned (wrap_err (''drain '' @ op) e), [])"
| "poll_step op Draining (Received x) = Some (Draining, [x])"
| "poll_step op Draining ChannelClosed = Some (Connecting initialDelay, [])"
| "poll_step op _ _ = None"

definition poll_start :: poll_state where "poll_start = Connecting initialDelay"

fun poll_run :: "string \<Rightarrow> poll_state \<Rightarrow> 'a poll_event list \<Rightarrow> (poll_state \<times> 'a list) option" where
  "poll_run op s [] = Some (s, [])"
| "poll_run op s (ev # evs) =
     (case poll_step op s ev of
        None \<Rightarrow> None
      | Some (s1, xs) \<Rightarrow>
          (case poll_run op s1 evs of None \<Rightarrow> None | Some (s2, ys) \<Rightarrow> Some (s2, xs @ ys)))"

section \<open>Lemmas\<close>

lemma Itoa_inj: "int64 a \<Longrightarrow> int64 b \<Longrightarrow> Itoa a = Itoa b \<longleftrightarrow> a = b"
  by (metis ParseInt_Itoa sum.inject(2))

lemma colon_split:
  assumes "CHR '':'' \<notin> set a" "CHR '':'' \<notin> set b"
  shows "a @ CHR '':'' # x = b @ CHR '':'' # y \<longleftrightarrow> a = b \<and> x = y"
  using assms
proof (induction a arbitrary: b)
  case Nil
  then show ?case by (cases b) auto
next
  case (Cons z a)
  then show ?case by (cases b) auto
qed

lemma Itoa_colon_neq [simp]: "Itoa c @ CHR '':'' # x \<noteq> Itoa d" "Itoa d \<noteq> Itoa c @ CHR '':'' # x"
  using colon_notin_Itoa [of d] by (metis in_set_conv_decomp)+

text \<open>The part of a key after the chat: the sender in a group, the topic in a direct chat.\<close>

definition key_part :: "int \<Rightarrow> int \<Rightarrow> int \<Rightarrow> int option" where
  "key_part chatID threadID senderID =
     (if chatID < 0 then if senderID > 0 then Some senderID else None
      else if threadID > 0 then Some threadID else None)"

lemma SessionKey_alt:
  "SessionKey c t s = SessionPrefixTelegram @ Itoa c @
     (case key_part c t s of None \<Rightarrow> [] | Some p \<Rightarrow> CHR '':'' # Itoa p)"
  by (simp add: SessionKey_def key_part_def)

text \<open>
  Session keys separate conversations: two messages get the same key exactly when they come from
  the same chat and, in a group, from the same sender, or, in a direct chat, from the same topic.
\<close>

theorem SessionKey_eq_iff:
  assumes "int64 c" "int64 t" "int64 s" "int64 c'" "int64 t'" "int64 s'"
  shows "SessionKey c t s = SessionKey c' t' s' \<longleftrightarrow> c = c' \<and> key_part c t s = key_part c' t' s'"
proof -
  have parts: "int64 p" if "key_part a b d = Some p" "int64 b" "int64 d" for a b d p
    using that by (auto simp: key_part_def split: if_splits)
  show ?thesis
    using assms parts [of c t s] parts [of c' t' s']
    by (auto simp: SessionKey_alt Itoa_inj colon_split colon_notin_Itoa split: option.splits)
qed

lemma SessionKey_eq_iff_witness:
  "SessionKey (- 100) 7 42 \<noteq> SessionKey (- 100) 7 43 \<and> SessionKey (- 100) 7 42 = SessionKey (- 100) 8 42"
  using SessionKey_eq_iff [of "- 100" 7 42 "- 100" 7 43] SessionKey_eq_iff [of "- 100" 7 42 "- 100" 8 42]
  by (simp add: int64_def key_part_def)

section \<open>Retry delays\<close>

definition delay_ok :: "duration \<Rightarrow> bool" where
  "delay_ok d \<longleftrightarrow> initialDelay \<le> d \<and> d \<le> maxDelay"

lemma next_delay_min: "delay_ok d \<Longrightarrow> next_delay d = min (2 * d) maxDelay"
  by (auto simp: delay_ok_def next_delay_def Let_def initialDelay_def maxDelay_def second_def min_def wrap64_id int64_def)

fun poll_inv :: "poll_state \<Rightarrow> bool" where
  "poll_inv (Connecting d) = delay_ok d"
| "poll_inv (Waiting d) = delay_ok d"
| "poll_inv _ = True"

lemma poll_step_inv: "poll_inv s \<Longrightarrow> poll_step op s ev = Some (s', xs) \<Longrightarrow> poll_inv s'"
  by (cases "(op, s, ev)" rule: poll_step.cases)
     (auto simp: next_delay_min delay_ok_def initialDelay_def maxDelay_def second_def)

text \<open>The events of \<open>n\<close> failed attempts in a row.\<close>

definition failures :: "go_error list \<Rightarrow> 'a poll_event list" where
  "failures es = concat (map (\<lambda>e. [ApiFailed e, DelayElapsed]) es)"

lemma poll_run_append:
  "poll_run op s (xs @ ys) =
     (case poll_run op s xs of
        None \<Rightarrow> None
      | Some (s1, a) \<Rightarrow> (case poll_run op s1 ys of None \<Rightarrow> None | Some (s2, b) \<Rightarrow> Some (s2, a @ b)))"
  by (induction xs arbitrary: s) (auto split: option.splits prod.splits)

lemma poll_run_inv: "poll_inv s \<Longrightarrow> poll_run op s evs = Some (s', xs) \<Longrightarrow> poll_inv s'"
  by (induction evs arbitrary: s xs) (auto split: option.splits prod.splits dest: poll_step_inv)

lemma backoff_min:
  "min (2 * min (initialDelay * 2 ^ n) maxDelay) maxDelay = min (initialDelay * 2 ^ Suc n) maxDelay"
  by (auto simp: min_def maxDelay_def initialDelay_def second_def)

lemma poll_run_failures:
  "poll_run op poll_start (failures es) =
     Some (Connecting (min (initialDelay * 2 ^ length es) maxDelay), [] :: 'a list)"
proof (induction es rule: rev_induct)
  case (snoc e es)
  let ?d = "min (initialDelay * 2 ^ length es) maxDelay"
  have ok: "delay_ok ?d"
    using poll_run_inv [OF _ snoc] by (simp add: poll_start_def delay_ok_def initialDelay_def maxDelay_def second_def)
  have "(failures (es @ [e]) :: 'a poll_event list) = failures es @ [ApiFailed e, DelayElapsed]"
    by (simp add: failures_def)
  then show ?case
    using next_delay_min [OF ok] backoff_min [of "length es"] by (simp add: poll_run_append snoc)
qed (simp add: failures_def poll_start_def initialDelay_def maxDelay_def second_def)

text \<open>
  The retry delay of a polling loop: in every reachable state it is between five and sixty
  seconds; after \<open>n\<close> failed connections in a row it is five seconds doubled \<open>n\<close> times, capped at sixty;
  a connection that drops resets it.
\<close>

theorem poll_backoff:
  "(poll_run op poll_start evs = Some (s, out) \<longrightarrow> poll_inv s) \<and>
   (\<forall>es. poll_run op poll_start (failures es) =
      Some (Connecting (min (initialDelay * 2 ^ length es) maxDelay), [] :: 'a list)) \<and>
   (poll_run op poll_start evs = Some (Draining, out) \<longrightarrow>
    poll_run op poll_start (evs @ [ChannelClosed]) = Some (poll_start, out :: 'a list))"
  using poll_run_inv [of poll_start op evs s out]
  by (auto simp: poll_run_failures poll_run_append) (auto simp: poll_start_def delay_ok_def initialDelay_def maxDelay_def second_def)

lemma poll_backoff_witness:
  "poll_run ''updates'' poll_start [ApiFailed EOF, DelayElapsed, ApiConnected, Received (1 :: int), ChannelClosed] =
     Some (poll_start, [1])"
  using poll_backoff [of "''updates''" "[ApiFailed EOF, DelayElapsed, ApiConnected, Received (1 :: int)]" Draining "[1]"]
  by (simp add: poll_start_def)

end
