(* ===== verification/HITL.thy ===== *)
theory HITL
  imports Bot Messages
begin

text \<open>
  Human approval of tool calls, \<^verbatim>\<open>internal/agent/hitl.go\<close>. The manager keeps a map from request IDs
  to waiting channels of capacity one; requests and callbacks run in different goroutines. A request
  is modelled with the points at which other goroutines can run: at point \<open>k\<close> the callbacks \<open>sched k\<close>
  are handled, each as one step, and \<open>pick\<close> says which ready case the final \<^verbatim>\<open>select\<close> takes. The
  store and the Telegram client act on the rest of the world, \<open>hw_rest\<close>. The hash and the two JSON
  texts are parameters. A manager without a client gets no callbacks, since the client delivers them;
  the reply to a callback is then skipped.
\<close>

section \<open>State\<close>

record 'w HITLStore =
  hs_Get :: "string \<Rightarrow> 'w \<Rightarrow> string result \<times> 'w"
  hs_Save :: "string \<Rightarrow> string \<Rightarrow> string \<Rightarrow> json \<Rightarrow> string \<Rightarrow> 'w \<Rightarrow> go_error option \<times> 'w"

record 'w HITLManager =
  hm_api :: "'w API option"
  hm_store :: "'w HITLStore option"
  hm_highRiskTools :: "string list"
  hm_channelEnabled :: bool
  hm_sideEffecting :: "(string \<Rightarrow> bool) option"
  hm_approvalTimeout :: duration

record 'w hitl_world =
  hw_pending :: "string \<rightharpoonup> nat"
  hw_chans :: "nat \<Rightarrow> bool option"
  hw_next :: nat
  hw_rest :: 'w

definition NewHITLManager :: "'w API option \<Rightarrow> 'w HITLStore option \<Rightarrow> string list \<Rightarrow> 'w HITLManager" where
  "NewHITLManager api store tools =
     \<lparr>hm_api = api, hm_store = store, hm_highRiskTools = tools, hm_channelEnabled = False,
      hm_sideEffecting = None, hm_approvalTimeout = 10 * minute\<rparr>"

definition ConfigureChannelApproval :: "bool \<Rightarrow> (string \<Rightarrow> bool) option \<Rightarrow> 'w HITLManager \<Rightarrow> 'w HITLManager" where
  "ConfigureChannelApproval enabled sideEffecting m =
     m\<lparr>hm_channelEnabled := enabled, hm_sideEffecting := sideEffecting\<rparr>"

definition on_rest :: "('w \<Rightarrow> 'a \<times> 'w) \<Rightarrow> 'w hitl_world \<Rightarrow> 'a \<times> 'w hitl_world" where
  "on_rest f hw = (case f (hw_rest hw) of (a, w) \<Rightarrow> (a, hw\<lparr>hw_rest := w\<rparr>))"

section \<open>Waiters\<close>

definition registerWaiter :: "string \<Rightarrow> 'w hitl_world \<Rightarrow> nat result \<times> 'w hitl_world" where
  "registerWaiter reqID hw =
     (if hw_pending hw reqID \<noteq> None
      then (Inl (ErrorNew (''HITL: request '' @ reqID @ '' already pending'')), hw)
      else (Inr (hw_next hw),
            hw\<lparr>hw_pending := (hw_pending hw)(reqID \<mapsto> hw_next hw),
               hw_chans := (hw_chans hw)(hw_next hw := None), hw_next := hw_next hw + 1\<rparr>))"

definition releaseWaiter :: "string \<Rightarrow> nat \<Rightarrow> 'w hitl_world \<Rightarrow> 'w hitl_world" where
  "releaseWaiter reqID ch hw =
     (if hw_pending hw reqID = Some ch then hw\<lparr>hw_pending := (hw_pending hw)(reqID := None)\<rparr> else hw)"

definition notifyHITLWaiter :: "nat \<Rightarrow> bool \<Rightarrow> 'w hitl_world \<Rightarrow> 'w hitl_world" where
  "notifyHITLWaiter ch approved hw =
     (case hw_chans hw ch of
        None \<Rightarrow> hw\<lparr>hw_chans := (hw_chans hw)(ch := Some approved)\<rparr>
      | Some _ \<Rightarrow> hw)"

definition try_receive :: "nat \<Rightarrow> 'w hitl_world \<Rightarrow> bool option \<times> 'w hitl_world" where
  "try_receive ch hw = (hw_chans hw ch, hw\<lparr>hw_chans := (hw_chans hw)(ch := None)\<rparr>)"

definition persistedStatus :: "'w HITLManager \<Rightarrow> string \<Rightarrow> 'w hitl_world \<Rightarrow> string result \<times> 'w hitl_world" where
  "persistedStatus m reqID hw =
     (case hm_store m of
        None \<Rightarrow> (Inr [], hw)
      | Some st \<Rightarrow>
          (case on_rest (hs_Get st reqID) hw of
             (Inl e, hw') \<Rightarrow> (Inl (wrap_err ''HITL: read approval status'' e), hw')
           | (Inr status, hw') \<Rightarrow> (Inr status, hw')))"

definition persistLifecycle ::
  "'w HITLManager \<Rightarrow> string \<Rightarrow> string \<Rightarrow> string \<Rightarrow> json \<Rightarrow> string \<Rightarrow> 'w hitl_world \<Rightarrow> 'w hitl_world" where
  "persistLifecycle m reqID sessionKey toolName args status hw =
     (case hm_store m of
        None \<Rightarrow> hw
      | Some st \<Rightarrow> snd (on_rest (hs_Save st reqID sessionKey toolName args status) hw))"

section \<open>Callbacks\<close>

text \<open>What a callback's data asks for: a request ID and whether to approve it.\<close>

definition callback_target :: "InboundCallback \<Rightarrow> (string \<times> bool) option" where
  "callback_target cb =
     (if \<not> HasPrefix (cb_Data cb) ''hitl:'' then None
      else (case SplitC (CHR '':'') (cb_Data cb) of
              _ # action # reqID # _ \<Rightarrow> Some (reqID, action = ''approve'')
            | _ \<Rightarrow> None))"

definition callback_reply :: "bool \<Rightarrow> bool \<Rightarrow> string" where
  "callback_reply approved live =
     ''Request '' @ (if approved then ''Approved'' else ''Rejected'') @ (if live then ''.'' else '' (persisted).'')"

definition HandleCallback :: "'w HITLManager \<Rightarrow> InboundCallback \<Rightarrow> 'w hitl_world \<Rightarrow> 'w hitl_world" where
  "HandleCallback m cb hw =
     (case callback_target cb of
        None \<Rightarrow> hw
      | Some (reqID, approved) \<Rightarrow>
          (let status = (if approved then ''approved'' else ''rejected'');
               hw1 = persistLifecycle m reqID [] [] JNull status hw;
               reply = (\<lambda>live hw. case hm_api m of
                          None \<Rightarrow> hw
                        | Some api \<Rightarrow> snd (on_rest (api_Send api \<lparr>om_ChatID = cb_ChatID cb, om_ThreadID = 0,
                            om_ReplyToID = 0, om_Text = callback_reply approved live\<rparr>) hw)) in
           case hw_pending hw1 reqID of
             None \<Rightarrow> reply False hw1
           | Some ch \<Rightarrow> reply True (notifyHITLWaiter ch approved hw1)))"

definition handle_callbacks :: "'w HITLManager \<Rightarrow> InboundCallback list \<Rightarrow> 'w hitl_world \<Rightarrow> 'w hitl_world" where
  "handle_callbacks m cbs hw = fold (HandleCallback m) cbs hw"

section \<open>Requests\<close>

definition protect :: "string \<Rightarrow> string" where
  "protect v = concat (map (\<lambda>c. if c = CHR 0x60 then [CHR 0x5C] @ ''u0060'' else [c]) v)"

definition fence :: string where "fence = [CHR 0x60, CHR 0x60, CHR 0x60]"

definition renderHITLApproval :: "(string \<Rightarrow> string) \<Rightarrow> (json_object \<Rightarrow> string) \<Rightarrow> string \<Rightarrow> json_object \<Rightarrow> string" where
  "renderHITLApproval quoteJSON indentJSON toolName args =
     (let nl = [CHR 0x0A] in
      ''**Approval Required**'' @ nl @ ''Tool:'' @ nl @ fence @ nl @ protect (quoteJSON toolName) @ nl @ fence @ nl @
      ''Args:'' @ nl @ fence @ nl @ protect (indentJSON args) @ nl @ fence)"

definition createRequestID :: "(string \<Rightarrow> string) \<Rightarrow> (json_object \<Rightarrow> string) \<Rightarrow> string \<Rightarrow> string \<Rightarrow> json_object \<Rightarrow> string" where
  "createRequestID sha256hex marshalJSON sessionKey toolName args =
     take 12 (sha256hex (sessionKey @ toolName @ marshalJSON args))"

definition parseTelegramChatID :: "string \<Rightarrow> string \<Rightarrow> int result" where
  "parseTelegramChatID sessionKey toolName =
     (let parts = SplitC (CHR '':'') sessionKey in
      if \<not> IsTelegramSession sessionKey then
        (let channel = (if parts \<noteq> [] \<and> hd parts \<noteq> [] then hd parts else ''unknown'') in
         Inl (ErrorNew (''HITL: high-risk tool '' @ Quote toolName @
           '' requires human approval, but session channel '' @ Quote channel @ '' is unsupported for HITL'')))
      else
        (case ParseInt (parts ! 1) of
           Inl e \<Rightarrow> Inl (wrap_err (''HITL: failed to parse chat ID from session key '' @ Quote sessionKey) e)
         | Inr chatID \<Rightarrow> Inr chatID))"

datatype wait_pick = PickCtx go_error | PickReceive | PickTimeout

definition waitForApproval ::
  "'w HITLManager \<Rightarrow> (nat \<Rightarrow> InboundCallback list) \<Rightarrow> wait_pick \<Rightarrow> string \<Rightarrow> nat \<Rightarrow> 'w hitl_world
     \<Rightarrow> bool result \<times> 'w hitl_world" where
  "waitForApproval m sched pick reqID ch hw =
     (case try_receive ch (handle_callbacks m (sched 3) hw) of
        (Some approved, hw1) \<Rightarrow> (Inr approved, hw1)
      | (None, hw1) \<Rightarrow>
          (case persistedStatus m reqID hw1 of
             (Inl e, hw2) \<Rightarrow> (Inl e, hw2)
           | (Inr status, hw2) \<Rightarrow>
               if status = ''approved'' \<or> status = ''rejected'' then (Inr (status = ''approved''), hw2)
               else
                 (let hw3 = handle_callbacks m (sched 4) hw2 in
                  case pick of
                    PickCtx e \<Rightarrow> (Inl (wrap_err ''context done'' e), hw3)
                  | PickTimeout \<Rightarrow> (Inl (ErrorNew ''HITL: approval timeout''), hw3)
                  | PickReceive \<Rightarrow>
                      (case try_receive ch hw3 of
                         (Some approved, hw4) \<Rightarrow> (Inr approved, hw4)
                       | (None, hw4) \<Rightarrow> (Inl (ErrorNew ''HITL: approval timeout''), hw4)))))"

record hitl_text =
  tx_sha :: "string \<Rightarrow> string"
  tx_args :: "json_object \<Rightarrow> string"
  tx_quote :: "string \<Rightarrow> string"
  tx_indent :: "json_object \<Rightarrow> string"

definition approval_buttons :: "string \<Rightarrow> Button list list" where
  "approval_buttons reqID =
     [[\<lparr>bu_Text = [CHR 0xE2, CHR 0x9C, CHR 0x85] @ '' Approve'', bu_Data = ''hitl:approve:'' @ reqID\<rparr>,
       \<lparr>bu_Text = [CHR 0xE2, CHR 0x9D, CHR 0x8C] @ '' Reject'', bu_Data = ''hitl:reject:'' @ reqID\<rparr>]]"

text \<open>The part of a request between registering its waiter and the deferred release.\<close>

definition request_registered ::
  "hitl_text \<Rightarrow> 'w HITLManager \<Rightarrow> 'w API \<Rightarrow> (nat \<Rightarrow> InboundCallback list) \<Rightarrow> wait_pick \<Rightarrow> int \<Rightarrow> string \<Rightarrow> string
     \<Rightarrow> json_object \<Rightarrow> string \<Rightarrow> nat \<Rightarrow> 'w hitl_world \<Rightarrow> bool result \<times> 'w hitl_world" where
  "request_registered tx m api sched pick chatID sessionKey toolName args reqID ch hw =
     (case persistedStatus m reqID (handle_callbacks m (sched 0) hw) of
        (Inl e, hw1) \<Rightarrow> (Inl e, hw1)
      | (Inr status, hw1) \<Rightarrow>
          if status = ''approved'' \<or> status = ''rejected'' then (Inr (status = ''approved''), hw1)
          else if status = ''pending'' then waitForApproval m sched pick reqID ch hw1
          else
            (let hw2 = handle_callbacks m (sched 1)
                         (persistLifecycle m reqID sessionKey toolName (JObj args) ''sending'' hw1) in
             case on_rest (api_SendWithButtons api
                      \<lparr>om_ChatID = chatID, om_ThreadID = 0, om_ReplyToID = 0,
                       om_Text = renderHITLApproval (tx_quote tx) (tx_indent tx) toolName args\<rparr>
                      (approval_buttons reqID)) hw2 of
               (Some e, hw3) \<Rightarrow> (Inl (wrap_err ''HITL: failed to send request'' e), hw3)
             | (None, hw3) \<Rightarrow>
                 waitForApproval m sched pick reqID ch
                   (persistLifecycle m reqID sessionKey toolName (JObj args) ''pending''
                     (handle_callbacks m (sched 2) hw3))))"

definition RequestApproval ::
  "hitl_text \<Rightarrow> 'w HITLManager \<Rightarrow> (nat \<Rightarrow> InboundCallback list) \<Rightarrow> wait_pick \<Rightarrow> string \<Rightarrow> string \<Rightarrow> json_object
     \<Rightarrow> 'w hitl_world \<Rightarrow> bool result \<times> 'w hitl_world" where
  "RequestApproval tx m sched pick sessionKey toolName args hw =
     (if IsCronSession sessionKey then (Inr True, hw)
      else
        (case parseTelegramChatID sessionKey toolName of
           Inl e \<Rightarrow> (Inl e, hw)
         | Inr chatID \<Rightarrow>
             (case hm_api m of
                None \<Rightarrow> (Inl (ErrorNew ''HITL: approval requires an available Telegram API''), hw)
              | Some api \<Rightarrow>
                  (let reqID = createRequestID (tx_sha tx) (tx_args tx) sessionKey toolName args in
                   case registerWaiter reqID hw of
                     (Inl e, hw1) \<Rightarrow> (Inl e, hw1)
                   | (Inr ch, hw1) \<Rightarrow>
                       (case request_registered tx m api sched pick chatID sessionKey toolName args reqID ch hw1 of
                          (r, hw2) \<Rightarrow> (r, releaseWaiter reqID ch hw2))))))"

definition needs_approval :: "'w HITLManager \<Rightarrow> string \<Rightarrow> string \<Rightarrow> bool" where
  "needs_approval m sessionKey toolName \<longleftrightarrow>
     toolName \<in> set (hm_highRiskTools m) \<or>
     (hm_channelEnabled m \<and> IsTelegramSession sessionKey \<and>
      (case hm_sideEffecting m of None \<Rightarrow> False | Some f \<Rightarrow> f toolName))"

definition HITL_PreToolHook ::
  "hitl_text \<Rightarrow> 'w HITLManager \<Rightarrow> (nat \<Rightarrow> InboundCallback list) \<Rightarrow> wait_pick \<Rightarrow> string \<Rightarrow> string \<Rightarrow> json_object
     \<Rightarrow> 'w hitl_world \<Rightarrow> string result \<times> 'w hitl_world" where
  "HITL_PreToolHook tx m sched pick sessionKey toolName args hw =
     (if \<not> needs_approval m sessionKey toolName then (Inr [], hw)
      else if IsCronSession sessionKey then (Inr [], hw)
      else
        (case RequestApproval tx m sched pick sessionKey toolName args hw of
           (Inl e, hw') \<Rightarrow> (Inl e, hw')
         | (Inr approved, hw') \<Rightarrow>
             if \<not> approved then (Inl (Errorf [] ErrToolDenied '': permission denied by user''), hw')
             else (Inr [], hw')))"

section \<open>Who can approve\<close>

definition waiters_inv :: "'w hitl_world \<Rightarrow> bool" where
  "waiters_inv hw \<longleftrightarrow>
     (\<forall>r ch. hw_pending hw r = Some ch \<longrightarrow> ch < hw_next hw) \<and>
     (\<forall>r r' ch. hw_pending hw r = Some ch \<longrightarrow> hw_pending hw r' = Some ch \<longrightarrow> r = r')"

text \<open>An approval of \<open>reqID\<close> by a human: a callback handled while the request was under way, or the
  decision the store answers with.\<close>

definition approving_callback :: "(nat \<Rightarrow> InboundCallback list) \<Rightarrow> string \<Rightarrow> bool" where
  "approving_callback sched reqID \<longleftrightarrow> (\<exists>k \<le> 4. \<exists>cb \<in> set (sched k). callback_target cb = Some (reqID, True))"

definition stored_approval :: "'w HITLManager \<Rightarrow> string \<Rightarrow> bool" where
  "stored_approval m reqID \<longleftrightarrow> (\<exists>st w w'. hm_store m = Some st \<and> hs_Get st reqID w = (Inr ''approved'', w'))"

text \<open>What the owner of channel \<open>ch\<close> knows at every point of its request.\<close>

definition owner_inv :: "(nat \<Rightarrow> InboundCallback list) \<Rightarrow> string \<Rightarrow> nat \<Rightarrow> 'w hitl_world \<Rightarrow> bool" where
  "owner_inv sched reqID ch hw \<longleftrightarrow>
     waiters_inv hw \<and> hw_pending hw reqID = Some ch \<and>
     (hw_chans hw ch = Some True \<longrightarrow> approving_callback sched reqID)"

lemma on_rest_keeps:
  "on_rest f hw = (a, hw') \<Longrightarrow>
     hw_pending hw' = hw_pending hw \<and> hw_chans hw' = hw_chans hw \<and> hw_next hw' = hw_next hw"
  by (auto simp: on_rest_def split: prod.splits)

lemma owner_inv_cong:
  "hw_pending hw' = hw_pending hw \<and> hw_chans hw' = hw_chans hw \<and> hw_next hw' = hw_next hw \<Longrightarrow>
     owner_inv sched reqID ch hw' = owner_inv sched reqID ch hw"
  by (simp add: owner_inv_def waiters_inv_def)

lemma on_rest_owner:
  assumes "owner_inv sched reqID ch hw" "on_rest f hw = (a, hw')"
  shows "owner_inv sched reqID ch hw'"
  using owner_inv_cong [OF on_rest_keeps [OF assms(2)]] assms(1) by simp

lemma persistedStatus_owner:
  assumes "owner_inv sched reqID ch hw" "persistedStatus m req hw = (r, hw')"
  shows "owner_inv sched reqID ch hw'"
proof (cases "hm_store m")
  case None
  then show ?thesis using assms by (simp add: persistedStatus_def)
next
  case (Some st)
  obtain g hw1 where g: "on_rest (hs_Get st req) hw = (g, hw1)" by fastforce
  then have "hw' = hw1" using assms(2) Some by (auto simp: persistedStatus_def split: sum.splits)
  then show ?thesis using on_rest_owner [OF assms(1) g] by simp
qed

lemma persistedStatus_approved:
  assumes "persistedStatus m reqID hw = (Inr ''approved'', hw')"
  shows "stored_approval m reqID"
proof -
  obtain st where st: "hm_store m = Some st" using assms by (cases "hm_store m") (auto simp: persistedStatus_def)
  obtain g w where g: "hs_Get st reqID (hw_rest hw) = (g, w)" by fastforce
  then have "g = Inr ''approved''" using assms st by (auto simp: persistedStatus_def on_rest_def split: sum.splits)
  then show ?thesis using st g by (auto simp: stored_approval_def)
qed

lemma persistLifecycle_owner:
  assumes "owner_inv sched reqID ch hw"
  shows "owner_inv sched reqID ch (persistLifecycle m req sk tn args st hw)"
proof (cases "hm_store m")
  case (Some x)
  obtain e hw' where x: "on_rest (hs_Save x req sk tn args st) hw = (e, hw')" by fastforce
  then show ?thesis using Some on_rest_owner [OF assms x] by (simp add: persistLifecycle_def)
qed (use assms in \<open>simp add: persistLifecycle_def\<close>)

lemma notify_owner:
  assumes "owner_inv sched reqID ch hw" "hw_pending hw req = Some c"
    and "req = reqID \<Longrightarrow> b \<Longrightarrow> approving_callback sched reqID"
  shows "owner_inv sched reqID ch (notifyHITLWaiter c b hw)"
proof -
  have "c = ch \<longrightarrow> req = reqID" using assms(1,2) by (auto simp: owner_inv_def waiters_inv_def)
  then show ?thesis using assms
    by (auto simp: owner_inv_def notifyHITLWaiter_def waiters_inv_def split: option.split)
qed

lemma HandleCallback_owner:
  assumes "owner_inv sched reqID ch hw" "k \<le> 4" "cb \<in> set (sched k)"
  shows "owner_inv sched reqID ch (HandleCallback m cb hw)"
proof (cases "callback_target cb")
  case None
  then show ?thesis using assms(1) by (simp add: HandleCallback_def)
next
  case (Some tgt)
  obtain req b where t: "tgt = (req, b)" by fastforce
  let ?hw1 = "persistLifecycle m req [] [] JNull (if b then ''approved'' else ''rejected'') hw"
  have reply: "owner_inv sched reqID ch (case hm_api m of None \<Rightarrow> h | Some api \<Rightarrow> snd (on_rest (f api) h))"
    if "owner_inv sched reqID ch h" for f and h :: "'a hitl_world"
  proof (cases "hm_api m")
    case (Some api)
    show ?thesis using on_rest_owner [OF that, of "f api"] Some by (cases "on_rest (f api) h") simp
  qed (use that in simp)
  have p1: "owner_inv sched reqID ch ?hw1" by (rule persistLifecycle_owner [OF assms(1)])
  let ?reply = "\<lambda>live h. case hm_api m of None \<Rightarrow> h
      | Some api \<Rightarrow> snd (on_rest (api_Send api \<lparr>om_ChatID = cb_ChatID cb, om_ThreadID = 0, om_ReplyToID = 0,
          om_Text = callback_reply b live\<rparr>) h)"
  have eq: "HandleCallback m cb hw = (case hw_pending ?hw1 req of
      None \<Rightarrow> ?reply False ?hw1 | Some c \<Rightarrow> ?reply True (notifyHITLWaiter c b ?hw1))"
    by (simp only: HandleCallback_def Some t option.case prod.case Let_def)
  show ?thesis
  proof (cases "hw_pending ?hw1 req")
    case None
    show ?thesis unfolding eq None option.case(1) by (rule reply [OF p1])
  next
    case pend: (Some c)
    have "owner_inv sched reqID ch (notifyHITLWaiter c b ?hw1)"
      by (rule notify_owner [OF p1 pend]) (use assms(2,3) Some t in \<open>auto simp: approving_callback_def\<close>)
    from reply [OF this] show ?thesis unfolding eq pend option.case(2) .
  qed
qed

lemma handle_callbacks_owner:
  assumes "owner_inv sched reqID ch hw" "k \<le> 4"
  shows "owner_inv sched reqID ch (handle_callbacks m (sched k) hw)"
proof -
  have "owner_inv sched reqID ch (fold (HandleCallback m) cbs hw)" if "set cbs \<subseteq> set (sched k)" for cbs
    using that assms(1)
    by (induction cbs arbitrary: hw) (auto intro: HandleCallback_owner [OF _ assms(2)])
  then show ?thesis by (simp add: handle_callbacks_def)
qed

lemma try_receive_owner:
  "owner_inv sched reqID ch hw \<Longrightarrow> try_receive ch hw = (r, hw') \<Longrightarrow>
     owner_inv sched reqID ch hw' \<and> (r = Some True \<longrightarrow> approving_callback sched reqID)"
  by (auto simp: try_receive_def owner_inv_def waiters_inv_def)

lemma waitForApproval_owner:
  assumes "owner_inv sched reqID ch hw" "waitForApproval m sched pick reqID ch hw = (r, hw')"
  shows "owner_inv sched reqID ch hw' \<and> (r = Inr True \<longrightarrow> approving_callback sched reqID \<or> stored_approval m reqID)"
proof -
  obtain rc hw1 where 1: "try_receive ch (handle_callbacks m (sched 3) hw) = (rc, hw1)" by fastforce
  have p1: "owner_inv sched reqID ch hw1" "rc = Some True \<longrightarrow> approving_callback sched reqID"
    using try_receive_owner [OF handle_callbacks_owner [OF assms(1), of 3] 1] by simp_all
  obtain st hw2 where 2: "persistedStatus m reqID hw1 = (st, hw2)" by fastforce
  have p2: "owner_inv sched reqID ch hw2" by (rule persistedStatus_owner [OF p1(1) 2])
  have st: "st = Inr ''approved'' \<longrightarrow> stored_approval m reqID" using persistedStatus_approved 2 by blast
  let ?hw3 = "handle_callbacks m (sched 4) hw2"
  have p3: "owner_inv sched reqID ch ?hw3" by (rule handle_callbacks_owner [OF p2]) simp
  obtain rc' hw4 where 4: "try_receive ch ?hw3 = (rc', hw4)" by fastforce
  have p4: "owner_inv sched reqID ch hw4" "rc' = Some True \<longrightarrow> approving_callback sched reqID"
    using try_receive_owner [OF p3 4] by simp_all
  show ?thesis
    using assms(2) 1 2 4 p1 p2 p3 p4 st
    by (auto simp: waitForApproval_def Let_def split: option.splits sum.splits wait_pick.splits if_splits)
qed

lemma request_registered_owner:
  assumes "owner_inv sched reqID ch hw"
    and "request_registered tx m api sched pick chatID sk tn args reqID ch hw = (r, hw')"
  shows "owner_inv sched reqID ch hw' \<and> (r = Inr True \<longrightarrow> approving_callback sched reqID \<or> stored_approval m reqID)"
proof -
  obtain st hw1 where 1: "persistedStatus m reqID (handle_callbacks m (sched 0) hw) = (st, hw1)" by fastforce
  have p1: "owner_inv sched reqID ch hw1"
    by (rule persistedStatus_owner [OF handle_callbacks_owner [OF assms(1), of 0] 1]) simp
  have st: "st = Inr ''approved'' \<longrightarrow> stored_approval m reqID" using persistedStatus_approved 1 by blast
  let ?hw2 = "handle_callbacks m (sched 1) (persistLifecycle m reqID sk tn (JObj args) ''sending'' hw1)"
  have p2: "owner_inv sched reqID ch ?hw2"
    by (rule handle_callbacks_owner [OF persistLifecycle_owner [OF p1]]) simp
  obtain e hw3 where 3: "on_rest (api_SendWithButtons api
      \<lparr>om_ChatID = chatID, om_ThreadID = 0, om_ReplyToID = 0,
       om_Text = renderHITLApproval (tx_quote tx) (tx_indent tx) tn args\<rparr> (approval_buttons reqID)) ?hw2 = (e, hw3)"
    by fastforce
  have p3: "owner_inv sched reqID ch hw3" by (rule on_rest_owner [OF p2 3])
  let ?hw4 = "persistLifecycle m reqID sk tn (JObj args) ''pending'' (handle_callbacks m (sched 2) hw3)"
  have p4: "owner_inv sched reqID ch ?hw4"
    by (rule persistLifecycle_owner [OF handle_callbacks_owner [OF p3]]) simp
  show ?thesis
    using assms(2) 1 3 p1 p3 st waitForApproval_owner [OF p1] waitForApproval_owner [OF p4]
    by (auto simp: request_registered_def Let_def split: option.splits sum.splits if_splits)
qed

lemma RequestApproval_sound:
  assumes "waiters_inv hw" "\<not> IsCronSession sk"
    and "RequestApproval tx m sched pick sk tn args hw = (r, hw')"
    and "reqID = createRequestID (tx_sha tx) (tx_args tx) sk tn args"
  shows "waiters_inv hw' \<and> hw_pending hw' reqID = hw_pending hw reqID \<and>
    (r = Inr True \<longrightarrow>
       IsTelegramSession sk \<and> hm_api m \<noteq> None \<and> hw_pending hw reqID = None \<and>
       (approving_callback sched reqID \<or> stored_approval m reqID))"
proof (cases "\<exists>chatID api. parseTelegramChatID sk tn = Inr chatID \<and> hm_api m = Some api \<and> hw_pending hw reqID = None")
  case False
  then show ?thesis using assms
    by (auto simp: RequestApproval_def registerWaiter_def Let_def split: sum.splits option.splits if_splits)
next
  case True
  then obtain chatID api where c: "parseTelegramChatID sk tn = Inr chatID" "hm_api m = Some api"
    and free: "hw_pending hw reqID = None" by blast
  let ?ch = "hw_next hw"
  let ?hw1 = "hw\<lparr>hw_pending := (hw_pending hw)(reqID \<mapsto> ?ch), hw_chans := (hw_chans hw)(?ch := None),
      hw_next := ?ch + 1\<rparr>"
  have reg: "registerWaiter reqID hw = (Inr ?ch, ?hw1)" using free by (simp add: registerWaiter_def)
  have own: "owner_inv sched reqID ?ch ?hw1"
    using assms(1) by (fastforce simp: owner_inv_def waiters_inv_def split: if_splits)
  obtain hw2 where 2: "request_registered tx m api sched pick chatID sk tn args reqID ?ch ?hw1 = (r, hw2)"
    "hw' = releaseWaiter reqID ?ch hw2"
    using assms(2,3,4) c reg by (auto simp: RequestApproval_def Let_def split: prod.splits)
  note own2 = request_registered_owner [OF own 2(1)]
  have "IsTelegramSession sk" using c(1) by (auto simp: parseTelegramChatID_def Let_def split: if_splits)
  then show ?thesis
    using own2 2(2) free c(2) by (auto simp: owner_inv_def releaseWaiter_def waiters_inv_def split: if_splits)
qed

text \<open>
  \<^bold>\<open>C8.\<close> Approval fails closed: outside scheduled sessions a request is granted only in a Telegram
  session, with a client, and when a human approved exactly this request, by a callback handled
  while it was under way or by a stored decision. Whatever the answer, no waiter is left behind.
\<close>

theorem RequestApproval_fails_closed:
  assumes "waiters_inv hw" "\<not> IsCronSession sk"
    and "RequestApproval tx m sched pick sk tn args hw = (r, hw')"
    and "reqID = createRequestID (tx_sha tx) (tx_args tx) sk tn args"
  shows "waiters_inv hw' \<and> hw_pending hw' reqID = hw_pending hw reqID \<and>
    (r = Inr True \<longrightarrow>
       IsTelegramSession sk \<and> hm_api m \<noteq> None \<and> hw_pending hw reqID = None \<and>
       (approving_callback sched reqID \<or> stored_approval m reqID))"
  using assms by (rule RequestApproval_sound)

text \<open>A world with a store that knows one approved request, and a client that always delivers.\<close>

definition sample_hitl :: "unit HITLManager" where
  "sample_hitl = NewHITLManager
     (Some \<lparr>api_Send = \<lambda>_ w. (None, w), api_SendWithButtons = \<lambda>_ _ w. (None, w),
            api_Typing = \<lambda>_ _ w. w, api_StopTyping = \<lambda>_ _ w. w\<rparr>)
     (Some \<lparr>hs_Get = \<lambda>r w. (Inr [], w), hs_Save = \<lambda>_ _ _ _ _ w. (None, w)\<rparr>)
     [''shell_exec'']"

definition sample_text :: hitl_text where
  "sample_text = \<lparr>tx_sha = \<lambda>s. ''0123456789abcdef'', tx_args = \<lambda>_. ''{}'', tx_quote = \<lambda>s. s, tx_indent = \<lambda>_. ''{}''\<rparr>"

definition sample_sched :: "nat \<Rightarrow> InboundCallback list" where
  "sample_sched k =
     (if k = 4 then [\<lparr>cb_ChatID = 7, cb_MessageID = 1, cb_SenderID = 7, cb_Data = ''hitl:approve:0123456789ab'', cb_SessionKey = []\<rparr>]
      else [])"

definition sample_hw :: "unit hitl_world" where
  "sample_hw = \<lparr>hw_pending = Map.empty, hw_chans = \<lambda>_. None, hw_next = 0, hw_rest = ()\<rparr>"

lemma sample_request:
  "fst (RequestApproval sample_text sample_hitl sample_sched PickReceive ''telegram:7'' ''shell_exec'' [] sample_hw) = Inr True"
  by code_simp

lemma RequestApproval_fails_closed_witness:
  "approving_callback sample_sched ''0123456789ab'' \<or> stored_approval sample_hitl ''0123456789ab''"
proof -
  have "createRequestID (tx_sha sample_text) (tx_args sample_text) ''telegram:7'' ''shell_exec'' [] = ''0123456789ab''"
    "\<not> IsCronSession ''telegram:7''" "waiters_inv sample_hw"
    by (simp_all add: createRequestID_def sample_text_def IsCronSession_def SessionPrefixCron_def HasPrefix_def
        waiters_inv_def sample_hw_def)
  then show ?thesis
    using RequestApproval_fails_closed [of sample_hw "''telegram:7''" sample_text sample_hitl sample_sched PickReceive
        "''shell_exec''" "[]" "Inr True"
        "snd (RequestApproval sample_text sample_hitl sample_sched PickReceive ''telegram:7'' ''shell_exec'' [] sample_hw)"]
      sample_request by (simp add: prod_eq_iff)
qed

text \<open>
  Every session key of a chat leads back to that chat: the approval prompt for a tool call in any
  direct, topic or group session goes to the chat the message came from.
\<close>

theorem parseTelegramChatID_SessionKey:
  assumes "int64 c"
  shows "parseTelegramChatID (SessionKey c t s) tool = Inr c"
proof -
  have tail: "SplitC (CHR '':'') (Itoa c @ rest) = Itoa c # tl (SplitC (CHR '':'') (CHR ''x'' # rest))"
    if "rest = [] \<or> hd rest = CHR '':''" for rest
    using that SplitC_append [OF colon_notin_Itoa] SplitC_no_sep [OF colon_notin_Itoa]
    by (cases rest) auto
  have "SplitC (CHR '':'') (SessionKey c t s) ! 1 = Itoa c"
    by (auto simp: SessionKey_alt SessionPrefixTelegram_def tail split: option.split)
  moreover have "IsTelegramSession (SessionKey c t s)"
    by (simp add: SessionKey_alt IsTelegramSession_def)
  ultimately show ?thesis
    using ParseInt_Itoa [OF assms] by (simp add: parseTelegramChatID_def Let_def)
qed

lemma parseTelegramChatID_SessionKey_witness:
  "parseTelegramChatID (SessionKey (- 1001234567890) 0 42) ''shell_exec'' = Inr (- 1001234567890)"
  by (rule parseTelegramChatID_SessionKey) (simp add: int64_def)

end
