(* ===== verification/Policy.thy ===== *)
theory Policy
  imports HITL Hooks
begin

text \<open>
  The tool policy, \<^verbatim>\<open>internal/agent/policy.go\<close>, and how \<^verbatim>\<open>SetupHooks\<close> of \<^verbatim>\<open>internal/app/app_setup.go\<close>
  puts it in front of human approval. The YAML library is a parameter: \<open>yparse data k\<close> is what the
  \<open>k\<close>-th \<^verbatim>\<open>Decode\<close> of a decoder over \<open>data\<close> gives into a node, \<open>ydecode\<close> the typed decoding with known
  fields; \<open>readFile\<close> is \<^verbatim>\<open>os.ReadFile\<close> and \<open>pathJoin\<close> \<^verbatim>\<open>filepath.Join\<close>.
\<close>

section \<open>Policies\<close>

datatype PolicyDecision = PolicyAllow | PolicyDeny | PolicyRequireHITL

definition policyAllowValue :: string where "policyAllowValue = ''allow''"
definition policyDenyValue :: string where "policyDenyValue = ''deny''"
definition policyHITLValue :: string where "policyHITLValue = ''require_hitl''"
definition yamlStringTag :: string where "yamlStringTag = ''!!str''"

fun decision_string :: "PolicyDecision \<Rightarrow> string" where
  "decision_string PolicyAllow = policyAllowValue"
| "decision_string PolicyDeny = policyDenyValue"
| "decision_string PolicyRequireHITL = policyHITLValue"

record PolicyContext =
  pc_ToolName :: string
  pc_Args :: json_object
  pc_SessionKey :: string

record policyRule =
  pr_Tool :: string
  pr_Decision :: string

datatype Policy = AllowAllPolicy | FilePolicy "policyRule list"

definition matchTool :: "string \<Rightarrow> string \<Rightarrow> bool" where
  "matchTool pattern toolName = (if pattern = ''*'' then True else if pattern = toolName then True else False)"

fun evaluate_rules :: "policyRule list \<Rightarrow> string \<Rightarrow> PolicyDecision" where
  "evaluate_rules [] toolName = PolicyAllow"
| "evaluate_rules (rule # rules) toolName =
     (if matchTool (pr_Tool rule) toolName then
        (if pr_Decision rule = policyDenyValue then PolicyDeny
         else if pr_Decision rule = policyHITLValue then PolicyRequireHITL
         else if pr_Decision rule = policyAllowValue then PolicyAllow
         else PolicyDeny)
      else evaluate_rules rules toolName)"

fun Evaluate :: "Policy \<Rightarrow> PolicyContext \<Rightarrow> PolicyDecision" where
  "Evaluate AllowAllPolicy pc = PolicyAllow"
| "Evaluate (FilePolicy rules) pc = evaluate_rules rules (pc_ToolName pc)"

section \<open>Policy files\<close>

datatype yaml_kind = DocumentNode | SequenceNode | MappingNode | ScalarNode | AliasNode

datatype yaml_node = YNode (y_kind: yaml_kind) (y_tag: string) (y_value: string) (y_content: "yaml_node list")

definition isPolicyRoot :: "yaml_node \<Rightarrow> bool" where
  "isPolicyRoot node \<longleftrightarrow>
     y_kind node = MappingNode \<and> length (y_content node) = 2 \<and>
     y_tag (y_content node ! 0) = yamlStringTag \<and> y_value (y_content node ! 0) = ''rules''"

definition validatePolicyValue :: "string \<Rightarrow> yaml_node \<Rightarrow> go_error option" where
  "validatePolicyValue field v =
     (if y_kind v \<noteq> ScalarNode \<or> y_tag v \<noteq> yamlStringTag then Some (ErrorNew (field @ '' must be a string''))
      else if field = ''tool'' \<and> TrimSpace (y_value v) = [] then Some (ErrorNew ''tool must not be blank'')
      else if field = ''decision'' \<and> y_value v \<noteq> policyAllowValue \<and> y_value v \<noteq> policyDenyValue \<and> y_value v \<noteq> policyHITLValue
        then Some (ErrorNew ''decision must be allow, deny, or require_hitl'')
      else None)"

fun validate_fields :: "string list \<Rightarrow> yaml_node list \<Rightarrow> go_error option" where
  "validate_fields seen (key # v # rest) =
     (if y_tag key \<noteq> yamlStringTag \<or> (y_value key \<noteq> ''tool'' \<and> y_value key \<noteq> ''decision'') \<or> y_value key \<in> set seen
      then Some (ErrorNew ''expected unique tool and decision fields'')
      else (case validatePolicyValue (y_value key) v of
              Some e \<Rightarrow> Some e
            | None \<Rightarrow> validate_fields (y_value key # seen) rest))"
| "validate_fields seen _ = None"

definition validatePolicyRule :: "yaml_node \<Rightarrow> go_error option" where
  "validatePolicyRule rule =
     (if y_kind rule \<noteq> MappingNode \<or> length (y_content rule) \<noteq> 4
      then Some (ErrorNew ''rule must contain only tool and decision'')
      else validate_fields [] (y_content rule))"

fun validate_rules :: "int \<Rightarrow> yaml_node list \<Rightarrow> go_error option" where
  "validate_rules i [] = None"
| "validate_rules i (rule # rules) =
     (case validatePolicyRule rule of
        Some e \<Rightarrow> Some (wrap_err (''rules['' @ Itoa i @ '']'') e)
      | None \<Rightarrow> validate_rules (i + 1) rules)"

definition validatePolicyDocument :: "(string \<Rightarrow> nat \<Rightarrow> yaml_node result) \<Rightarrow> string \<Rightarrow> go_error option" where
  "validatePolicyDocument yparse data =
     (case yparse data 0 of
        Inl e \<Rightarrow> Some (wrap_err ''expected policy document'' e)
      | Inr doc \<Rightarrow>
          if \<not> (case yparse data 1 of Inl e \<Rightarrow> error_is e EOF | Inr _ \<Rightarrow> False)
          then Some (ErrorNew ''expected exactly one YAML document'')
          else if length (y_content doc) \<noteq> 1 then Some (ErrorNew ''expected mapping root with rules'')
          else
            (let rootNode = y_content doc ! 0 in
             if \<not> isPolicyRoot rootNode then Some (ErrorNew ''root must contain only rules'')
             else
               (let rules = y_content rootNode ! 1 in
                if y_kind rules \<noteq> SequenceNode then Some (ErrorNew ''rules must be a sequence'')
                else validate_rules 0 (y_content rules))))"

definition NewFilePolicy ::
  "(string \<Rightarrow> string result) \<Rightarrow> (string \<Rightarrow> nat \<Rightarrow> yaml_node result) \<Rightarrow> (string \<Rightarrow> policyRule list result)
     \<Rightarrow> string \<Rightarrow> Policy result" where
  "NewFilePolicy readFile yparse ydecode path =
     (if path = [] then Inr AllowAllPolicy
      else
        (case readFile path of
           Inl e \<Rightarrow> Inl (wrap_err (''read policy file '' @ Quote path) e)
         | Inr data \<Rightarrow>
             (case validatePolicyDocument yparse data of
                Some e \<Rightarrow> Inl (wrap_err (''validate policy file '' @ Quote path) e)
              | None \<Rightarrow>
                  (case ydecode data of
                     Inl e \<Rightarrow> Inl (wrap_err (''decode policy file '' @ Quote path) e)
                   | Inr rules \<Rightarrow> Inr (FilePolicy rules)))))"

definition ResolvePolicyFilePath :: "(string \<Rightarrow> string \<Rightarrow> string) \<Rightarrow> string \<Rightarrow> string \<Rightarrow> string" where
  "ResolvePolicyFilePath pathJoin configPath storageRoot =
     (if configPath \<noteq> [] then configPath else pathJoin storageRoot ''tool_policy.yaml'')"

section \<open>The hook and its place\<close>

definition Policy_PreToolHook ::
  "hitl_text \<Rightarrow> Policy \<Rightarrow> 'w HITLManager option \<Rightarrow> (nat \<Rightarrow> InboundCallback list) \<Rightarrow> wait_pick
     \<Rightarrow> string \<Rightarrow> string \<Rightarrow> json_object \<Rightarrow> 'w hitl_world \<Rightarrow> string result \<times> 'w hitl_world" where
  "Policy_PreToolHook tx policy hitl sched pick sessionKey toolName args hw =
     (case Evaluate policy \<lparr>pc_ToolName = toolName, pc_Args = args, pc_SessionKey = sessionKey\<rparr> of
        PolicyDeny \<Rightarrow> (Inl (Errorf [] ErrToolDenied '': tool is not permitted''), hw)
      | PolicyRequireHITL \<Rightarrow>
          (case hitl of
             Some m \<Rightarrow>
               (case RequestApproval tx m sched pick sessionKey toolName args hw of
                  (Inl e, hw') \<Rightarrow> (Inl e, hw')
                | (Inr approved, hw') \<Rightarrow>
                    if \<not> approved then (Inl (Errorf [] ErrToolDenied '': approval not granted''), hw')
                    else (Inr [], hw'))
           | None \<Rightarrow> (Inl (Errorf [] ErrToolDenied '': HITL not configured''), hw))
      | PolicyAllow \<Rightarrow> (Inr [], hw))"

text \<open>The policy of a configuration: a missing file is allowed only when no path is configured.\<close>

definition setup_policy ::
  "(string \<Rightarrow> string result) \<Rightarrow> (string \<Rightarrow> nat \<Rightarrow> yaml_node result) \<Rightarrow> (string \<Rightarrow> policyRule list result)
     \<Rightarrow> (string \<Rightarrow> string \<Rightarrow> string) \<Rightarrow> string \<Rightarrow> string \<Rightarrow> Policy result" where
  "setup_policy readFile yparse ydecode pathJoin policyFilePath storageRoot =
     (case NewFilePolicy readFile yparse ydecode (ResolvePolicyFilePath pathJoin policyFilePath storageRoot) of
        Inl e \<Rightarrow>
          if policyFilePath = [] \<and> error_is_not_exist e then Inr AllowAllPolicy
          else Inl (wrap_err ''setup hooks'' e)
      | Inr p \<Rightarrow> Inr p)"

text \<open>The hooks \<^verbatim>\<open>SetupHooks\<close> registers, policy first. What other goroutines do during the request of
  each of the two hooks is \<open>(sched1, pick1)\<close> and \<open>(sched2, pick2)\<close>.\<close>

definition SetupHooks ::
  "hitl_text \<Rightarrow> Policy \<Rightarrow> 'w HITLManager \<Rightarrow> (nat \<Rightarrow> InboundCallback list) \<times> wait_pick
     \<Rightarrow> (nat \<Rightarrow> InboundCallback list) \<times> wait_pick \<Rightarrow> ('w hitl_world) Hooks" where
  "SetupHooks tx policy hitl during1 during2 =
     RegisterPreTool (HITL_PreToolHook tx hitl (fst during2) (snd during2))
       (RegisterPreTool (Policy_PreToolHook tx policy (Some hitl) (fst during1) (snd during1)) empty_hooks)"

section \<open>Loading fails closed\<close>

text \<open>The value of a field of a mapping node.\<close>

fun node_field :: "yaml_node list \<Rightarrow> string \<Rightarrow> string" where
  "node_field (key # v # rest) f = (if y_value key = f then y_value v else node_field rest f)"
| "node_field _ f = []"

definition node_rule :: "yaml_node \<Rightarrow> policyRule" where
  "node_rule n = \<lparr>pr_Tool = node_field (y_content n) ''tool'', pr_Decision = node_field (y_content n) ''decision''\<rparr>"

text \<open>The YAML library decodes a sequence of mappings of strings into the structs with these values.\<close>

definition decode_follows_nodes ::
  "(string \<Rightarrow> nat \<Rightarrow> yaml_node result) \<Rightarrow> (string \<Rightarrow> policyRule list result) \<Rightarrow> bool" where
  "decode_follows_nodes yparse ydecode \<longleftrightarrow>
     (\<forall>data doc rules. yparse data 0 = Inr doc \<longrightarrow> ydecode data = Inr rules \<longrightarrow>
        rules = map node_rule (y_content (y_content (y_content doc ! 0) ! 1)))"

definition valid_rule :: "policyRule \<Rightarrow> bool" where
  "valid_rule r \<longleftrightarrow> TrimSpace (pr_Tool r) \<noteq> [] \<and> pr_Decision r \<in> decision_string ` UNIV"

lemma range_decision_string: "decision_string ` UNIV = {policyAllowValue, policyDenyValue, policyHITLValue}"
proof -
  have "UNIV = {PolicyAllow, PolicyDeny, PolicyRequireHITL}" using PolicyDecision.exhaust by auto
  then have "decision_string ` UNIV = decision_string ` {PolicyAllow, PolicyDeny, PolicyRequireHITL}" by metis
  then show ?thesis by simp
qed

lemma validatePolicyRule_ok:
  assumes "validatePolicyRule n = None"
  shows "valid_rule (node_rule n)"
proof -
  obtain a b c d where cont: "y_content n = [a, b, c, d]"
    using assms by (auto simp: validatePolicyRule_def eval_nat_numeral length_Suc_conv split: if_splits)
  have "validate_fields [] [a, b, c, d] = None"
    using assms cont by (simp add: validatePolicyRule_def split: if_splits)
  then show ?thesis
    by (auto simp: valid_rule_def node_rule_def cont range_decision_string validatePolicyValue_def
        split: if_splits option.splits)
qed

lemma validate_rules_ok: "validate_rules i ns = None \<Longrightarrow> n \<in> set ns \<Longrightarrow> validatePolicyRule n = None"
  by (induction ns arbitrary: i) (auto split: option.splits)

text \<open>
  A policy file is all or nothing: from a configured path the result is an error or the policy of
  that file, never a policy that allows everything by default; and every rule of a loaded policy has
  a tool that is not blank and one of the three decisions, so no rule falls into the default branch.
\<close>

theorem setup_policy_strict:
  assumes "decode_follows_nodes yparse ydecode" "path \<noteq> []"
  shows "(\<exists>e. setup_policy readFile yparse ydecode pathJoin path storageRoot = Inl e) \<or>
    (\<exists>data rules. readFile path = Inr data \<and> ydecode data = Inr rules \<and> (\<forall>r \<in> set rules. valid_rule r) \<and>
       setup_policy readFile yparse ydecode pathJoin path storageRoot = Inr (FilePolicy rules))"
proof (cases "setup_policy readFile yparse ydecode pathJoin path storageRoot")
  case (Inr p)
  then obtain data rules where d: "readFile path = Inr data" "validatePolicyDocument yparse data = None"
    "ydecode data = Inr rules" "p = FilePolicy rules"
    using assms(2)
    by (auto simp: setup_policy_def NewFilePolicy_def ResolvePolicyFilePath_def split: sum.splits option.splits if_splits)
  obtain doc where doc: "yparse data 0 = Inr doc"
    "validate_rules 0 (y_content (y_content (y_content doc ! 0) ! 1)) = None"
    using d(2) by (auto simp: validatePolicyDocument_def Let_def split: sum.splits if_splits)
  have "rules = map node_rule (y_content (y_content (y_content doc ! 0) ! 1))"
    using assms(1) doc(1) d(3) by (auto simp: decode_follows_nodes_def)
  then have "\<forall>r \<in> set rules. valid_rule r"
    using validate_rules_ok [OF doc(2)] validatePolicyRule_ok by auto
  then show ?thesis using Inr d by blast
qed blast

text \<open>A reader with one file and a parser of one document, for the rule that denies \<^verbatim>\<open>shell_exec\<close>.\<close>

definition sample_yaml :: yaml_node where
  "sample_yaml =
     (let str = YNode ScalarNode yamlStringTag in
      YNode DocumentNode [] [] [YNode MappingNode ''!!map'' []
        [str ''rules'' [], YNode SequenceNode ''!!seq'' []
           [YNode MappingNode ''!!map'' [] [str ''tool'' [], str ''shell_exec'' [], str ''decision'' [], str ''deny'' []]]]])"

definition sample_parse :: "string \<Rightarrow> nat \<Rightarrow> yaml_node result" where
  "sample_parse data k = (if k = 0 then Inr sample_yaml else Inl EOF)"

definition sample_decode :: "string \<Rightarrow> policyRule list result" where
  "sample_decode data = Inr [\<lparr>pr_Tool = ''shell_exec'', pr_Decision = ''deny''\<rparr>]"

lemma setup_policy_strict_witness:
  "setup_policy (\<lambda>_. Inr ''data'') sample_parse sample_decode (\<lambda>a b. a @ b) ''/p.yaml'' [] =
     Inr (FilePolicy [\<lparr>pr_Tool = ''shell_exec'', pr_Decision = ''deny''\<rparr>]) \<and>
   valid_rule \<lparr>pr_Tool = ''shell_exec'', pr_Decision = ''deny''\<rparr>"
proof -
  have "decode_follows_nodes sample_parse sample_decode"
    by (simp add: decode_follows_nodes_def sample_parse_def sample_decode_def sample_yaml_def node_rule_def Let_def)
  from setup_policy_strict [OF this, of "''/p.yaml''" "\<lambda>_. Inr ''data''" "\<lambda>a b. a @ b" "[]"]
  have "valid_rule \<lparr>pr_Tool = ''shell_exec'', pr_Decision = ''deny''\<rparr> \<or>
      (\<exists>e. setup_policy (\<lambda>_. Inr ''data'') sample_parse sample_decode (\<lambda>a b. a @ b) ''/p.yaml'' [] = Inl e)"
    by (auto simp: sample_decode_def)
  moreover have "setup_policy (\<lambda>_. Inr ''data'') sample_parse sample_decode (\<lambda>a b. a @ b) ''/p.yaml'' [] =
     Inr (FilePolicy [\<lparr>pr_Tool = ''shell_exec'', pr_Decision = ''deny''\<rparr>])"
    by code_simp
  ultimately show ?thesis by simp
qed

section \<open>The gate in front of every tool\<close>

lemma RequestApproval_inv:
  assumes "waiters_inv hw" "RequestApproval tx m sched pick sk tn args hw = (r, hw')"
  shows "waiters_inv hw'"
proof (cases "IsCronSession sk")
  case True
  then show ?thesis using assms by (simp add: RequestApproval_def)
next
  case False
  then show ?thesis using RequestApproval_sound [OF assms(1) False assms(2) refl] by simp
qed

definition human_approved ::
  "hitl_text \<Rightarrow> 'w HITLManager \<Rightarrow> (nat \<Rightarrow> InboundCallback list) \<Rightarrow> string \<Rightarrow> string \<Rightarrow> json_object \<Rightarrow> bool" where
  "human_approved tx m sched sk tn args \<longleftrightarrow>
     (let reqID = createRequestID (tx_sha tx) (tx_args tx) sk tn args in
      IsTelegramSession sk \<and> hm_api m \<noteq> None \<and> (approving_callback sched reqID \<or> stored_approval m reqID))"

lemma RequestApproval_True:
  assumes "waiters_inv hw" "\<not> IsCronSession sk" "RequestApproval tx m sched pick sk tn args hw = (Inr True, hw')"
  shows "human_approved tx m sched sk tn args"
  using RequestApproval_sound [OF assms refl] by (simp add: human_approved_def Let_def)

text \<open>
  \<^bold>\<open>C9.\<close> No tool runs against the policy or without the approval it needs: a denied tool is refused
  before any prompt, in every session and with nothing changed; a tool that passes was not denied,
  and outside scheduled sessions a human approved it if the policy asks for that, and also if the
  tool is high-risk or needs channel approval, whatever the policy says.
\<close>

theorem tool_gate:
  fixes policy sk tn args
  defines "decision \<equiv> Evaluate policy \<lparr>pc_ToolName = tn, pc_Args = args, pc_SessionKey = sk\<rparr>"
  assumes "waiters_inv hw"
    and run: "RunPreTool (SetupHooks tx policy m (sched1, pick1) (sched2, pick2)) sk tn args hw = (r, hw')"
  shows "(decision = PolicyDeny \<longrightarrow> (\<exists>e. r = Inl e \<and> error_is e ErrToolDenied) \<and> hw' = hw) \<and>
    (\<forall>out. r = Inr out \<longrightarrow>
       out = [] \<and> decision \<noteq> PolicyDeny \<and>
       (decision = PolicyRequireHITL \<and> \<not> IsCronSession sk \<longrightarrow> human_approved tx m sched1 sk tn args) \<and>
       (needs_approval m sk tn \<and> \<not> IsCronSession sk \<longrightarrow> human_approved tx m sched2 sk tn args))"
proof -
  obtain r1 hw1 where 1: "Policy_PreToolHook tx policy (Some m) sched1 pick1 sk tn args hw = (r1, hw1)" by fastforce
  obtain r2 hw2 where 2: "HITL_PreToolHook tx m sched2 pick2 sk tn args hw1 = (r2, hw2)" by fastforce
  have r: "(r, hw') = (case r1 of Inl e \<Rightarrow> (Inl e, hw1)
      | Inr out \<Rightarrow> if out \<noteq> [] then (Inr out, hw1) else (case r2 of Inl e \<Rightarrow> (Inl e, hw2) | Inr out \<Rightarrow> (Inr out, hw2)))"
    using run 1 2 by (auto simp: RunPreTool_def SetupHooks_def RegisterPreTool_def empty_hooks_def
        split: sum.splits if_splits)
  have deny: "r1 = Inl (Errorf [] ErrToolDenied '': tool is not permitted'') \<and> hw1 = hw" if "decision = PolicyDeny"
    using 1 that by (simp add: Policy_PreToolHook_def decision_def)
  have pol: "out = [] \<and> waiters_inv hw1 \<and> decision \<noteq> PolicyDeny \<and>
      (decision = PolicyRequireHITL \<and> \<not> IsCronSession sk \<longrightarrow> human_approved tx m sched1 sk tn args)" if "r1 = Inr out" for out
  proof (cases decision)
    case PolicyRequireHITL
    obtain a h where a: "RequestApproval tx m sched1 pick1 sk tn args hw = (a, h)" by fastforce
    then have "a = Inr True" "h = hw1" "out = []"
      using 1 that PolicyRequireHITL
      by (auto simp: Policy_PreToolHook_def decision_def split: sum.splits if_splits)
    then show ?thesis
      using a PolicyRequireHITL RequestApproval_True [OF assms(2) _ a [unfolded \<open>a = Inr True\<close>]]
        RequestApproval_inv [OF assms(2) a] by auto
  qed (use 1 that assms(2) in \<open>auto simp: Policy_PreToolHook_def decision_def\<close>)
  have hitl: "out = [] \<and> (needs_approval m sk tn \<and> \<not> IsCronSession sk \<longrightarrow> human_approved tx m sched2 sk tn args)"
    if "r2 = Inr out" "waiters_inv hw1" for out
  proof (cases "needs_approval m sk tn \<and> \<not> IsCronSession sk")
    case True
    obtain a h where a: "RequestApproval tx m sched2 pick2 sk tn args hw1 = (a, h)" by fastforce
    then have "a = Inr True" "out = []"
      using 2 that(1) True by (auto simp: HITL_PreToolHook_def split: sum.splits if_splits)
    then show ?thesis using RequestApproval_True [OF that(2) _ a [unfolded \<open>a = Inr True\<close>]] True by simp
  qed (use 2 that in \<open>auto simp: HITL_PreToolHook_def split: if_splits\<close>)
  show ?thesis
    using r deny pol hitl by (cases r1; cases r2) (auto split: if_splits)
qed

lemma sample_gate:
  "fst (RunPreTool (SetupHooks sample_text AllowAllPolicy sample_hitl (\<lambda>_. [], PickTimeout) (sample_sched, PickReceive))
     ''telegram:7'' ''shell_exec'' [] sample_hw) = Inr []"
  by code_simp

lemma tool_gate_witness:
  "human_approved sample_text sample_hitl sample_sched ''telegram:7'' ''shell_exec'' []"
proof -
  have "waiters_inv sample_hw" by (simp add: waiters_inv_def sample_hw_def)
  moreover have "needs_approval sample_hitl ''telegram:7'' ''shell_exec''" "\<not> IsCronSession ''telegram:7''"
    by (simp_all add: needs_approval_def sample_hitl_def NewHITLManager_def IsCronSession_def SessionPrefixCron_def HasPrefix_def)
  ultimately show ?thesis
    using tool_gate [of sample_hw sample_text AllowAllPolicy sample_hitl "\<lambda>_. []" PickTimeout sample_sched PickReceive
        "''telegram:7''" "''shell_exec''" "[]" "Inr []"
        "snd (RunPreTool (SetupHooks sample_text AllowAllPolicy sample_hitl (\<lambda>_. [], PickTimeout) (sample_sched, PickReceive))
           ''telegram:7'' ''shell_exec'' [] sample_hw)"] sample_gate
    by (simp add: prod_eq_iff)
qed

end
