(* ===== verification/Session_Lock.thy ===== *)
theory Session_Lock
  imports GoTime
begin

text \<open>
  The per-session lock of \<^verbatim>\<open>internal/agent/lock_metrics.go\<close>: a global map from session keys to lock
  objects with reference counts, a channel of capacity one that holds the token of a free lock, and
  the metrics. Lock objects live in a heap, so that an object deleted from the map and a new one for
  the same key are different objects. The goroutines that use a lock as \<^verbatim>\<open>Dispatch\<close> and
  \<^verbatim>\<open>compactSessionAsync\<close> do are the threads of a step relation. A step does the channel operation and the
  metrics update next to it at once; the metrics have a mutex of their own and no step reads them to
  decide what it does, so only what \<^verbatim>\<open>GetLockMetrics\<close> sees in between differs.
\<close>

section \<open>State\<close>

record LockStatus =
  ls_SessionKey :: string
  ls_IsLocked :: bool
  ls_HolderStack :: string
  ls_AcquiredAt :: "instant option"
  ls_WaitCount :: int
  ls_TotalWaitTime :: duration
  ls_TotalHoldTime :: duration
  ls_ContentionCount :: int
  ls_MaxWaitTime :: duration

definition new_status :: "string \<Rightarrow> LockStatus" where
  "new_status key = \<lparr>ls_SessionKey = key, ls_IsLocked = False, ls_HolderStack = [], ls_AcquiredAt = None,
     ls_WaitCount = 0, ls_TotalWaitTime = 0, ls_TotalHoldTime = 0, ls_ContentionCount = 0, ls_MaxWaitTime = 0\<rparr>"

definition StaleLockThreshold :: duration where "StaleLockThreshold = 60 * second"

definition CurrentHoldDuration :: "LockStatus \<Rightarrow> instant \<Rightarrow> duration" where
  "CurrentHoldDuration s now =
     (case ls_AcquiredAt s of
        None \<Rightarrow> 0
      | Some at' \<Rightarrow> if \<not> ls_IsLocked s \<or> now < at' then 0 else now - at')"

definition IsStale :: "LockStatus \<Rightarrow> instant \<Rightarrow> duration \<Rightarrow> bool" where
  "IsStale s now threshold \<longleftrightarrow>
     CurrentHoldDuration s now > (if threshold \<le> 0 then StaleLockThreshold else threshold)"

record sessionLock =
  sl_sessionKey :: string
  sl_token :: bool
  sl_metrics :: LockStatus
  sl_deadlockDur :: duration
  sl_refCount :: int

datatype thread_state =
    Idle
  | Referenced nat
  | Queued nat instant
  | Holding nat
  | Finished nat

record lock_world =
  allLocks :: "string \<rightharpoonup> nat"
  heap :: "nat \<Rightarrow> sessionLock"
  next_lock :: nat
  threads_of :: "nat \<Rightarrow> thread_state"

section \<open>Operations\<close>

definition GetLockMetrics :: "lock_world \<Rightarrow> (string \<rightharpoonup> LockStatus)" where
  "GetLockMetrics s key = map_option (\<lambda>l. sl_metrics (heap s l)) (allLocks s key)"

definition update_lock :: "nat \<Rightarrow> (sessionLock \<Rightarrow> sessionLock) \<Rightarrow> lock_world \<Rightarrow> lock_world" where
  "update_lock l f s = s\<lparr>heap := (heap s)(l := f (heap s l))\<rparr>"

definition acquireLock :: "string \<Rightarrow> duration \<Rightarrow> lock_world \<Rightarrow> nat \<times> lock_world" where
  "acquireLock key timeout s =
     (case allLocks s key of
        Some l \<Rightarrow> (l, update_lock l (\<lambda>x. x\<lparr>sl_refCount := sl_refCount x + 1\<rparr>) s)
      | None \<Rightarrow>
          (let l = next_lock s;
               obj = \<lparr>sl_sessionKey = key, sl_token = True, sl_metrics = new_status key,
                      sl_deadlockDur = (if timeout \<le> 0 then 120 * second else timeout), sl_refCount = 0\<rparr>
           in (l, update_lock l (\<lambda>x. x\<lparr>sl_refCount := sl_refCount x + 1\<rparr>)
                    (s\<lparr>allLocks := (allLocks s)(key \<mapsto> l), heap := (heap s)(l := obj), next_lock := l + 1\<rparr>))))"

definition release :: "nat \<Rightarrow> lock_world \<Rightarrow> lock_world" where
  "release l s =
     (let s1 = update_lock l (\<lambda>x. x\<lparr>sl_refCount := sl_refCount x - 1\<rparr>) s in
      if sl_refCount (heap s1 l) \<le> 0
      then s1\<lparr>allLocks := (allLocks s1)(sl_sessionKey (heap s1 l) := None)\<rparr> else s1)"

text \<open>\<^verbatim>\<open>Lock\<close> before its \<^verbatim>\<open>select\<close>, and its case for a received token. \<open>stack\<close> is the trace recorded
  after a long wait.\<close>

definition lock_enter :: "LockStatus \<Rightarrow> LockStatus" where
  "lock_enter m =
     (if ls_IsLocked m then m\<lparr>ls_WaitCount := ls_WaitCount m + 1, ls_ContentionCount := ls_ContentionCount m + 1\<rparr> else m)"

definition lock_taken :: "instant \<Rightarrow> instant \<Rightarrow> string \<Rightarrow> LockStatus \<Rightarrow> LockStatus" where
  "lock_taken start now stack m =
     (let elapsed = now - start in
      m\<lparr>ls_IsLocked := True, ls_AcquiredAt := Some now, ls_TotalWaitTime := ls_TotalWaitTime m + elapsed,
        ls_MaxWaitTime := (if elapsed > ls_MaxWaitTime m then elapsed else ls_MaxWaitTime m),
        ls_HolderStack := (if elapsed > 5 * second then stack else [])\<rparr>)"

definition take_token :: "instant \<Rightarrow> instant \<Rightarrow> string \<Rightarrow> sessionLock \<Rightarrow> sessionLock" where
  "take_token start now stack x = x\<lparr>sl_token := False, sl_metrics := lock_taken start now stack (sl_metrics x)\<rparr>"

datatype lock_failure = LockCancelled go_error | LockTimeout

definition lock_error :: "sessionLock \<Rightarrow> lock_failure \<Rightarrow> go_error" where
  "lock_error x f =
     (case f of
        LockCancelled e \<Rightarrow> wrap_err ''session lock cancelled'' e
      | LockTimeout \<Rightarrow> ErrorNew (''session lock timeout: possible deadlock in session '' @ sl_sessionKey x))"

definition unlock_metrics :: "instant \<Rightarrow> LockStatus \<Rightarrow> LockStatus" where
  "unlock_metrics now m =
     (if ls_IsLocked m then
        m\<lparr>ls_TotalHoldTime := ls_TotalHoldTime m + (now - (case ls_AcquiredAt m of None \<Rightarrow> 0 | Some t \<Rightarrow> t)),
          ls_IsLocked := False, ls_HolderStack := []\<rparr>
      else m)"

definition Unlock :: "instant \<Rightarrow> sessionLock \<Rightarrow> sessionLock" where
  "Unlock now x = x\<lparr>sl_metrics := unlock_metrics now (sl_metrics x), sl_token := True\<rparr>"

section \<open>Threads\<close>

definition set_thread :: "nat \<Rightarrow> thread_state \<Rightarrow> lock_world \<Rightarrow> lock_world" where
  "set_thread t ts s = s\<lparr>threads_of := (threads_of s)(t := ts)\<rparr>"

inductive lock_step :: "lock_world \<Rightarrow> lock_world \<Rightarrow> bool" where
  acquire: "threads_of s t = Idle \<Longrightarrow> acquireLock key timeout s = (l, s') \<Longrightarrow>
    lock_step s (set_thread t (Referenced l) s')"
| enter: "threads_of s t = Referenced l \<Longrightarrow>
    lock_step s (set_thread t (Queued l start) (update_lock l (\<lambda>x. x\<lparr>sl_metrics := lock_enter (sl_metrics x)\<rparr>) s))"
| locked: "threads_of s t = Queued l start \<Longrightarrow> sl_token (heap s l) \<Longrightarrow>
    lock_step s (set_thread t (Holding l) (update_lock l (take_token start now stack) s))"
| failed: "threads_of s t = Queued l start \<Longrightarrow> lock_step s (set_thread t (Finished l) s)"
| unlocked: "threads_of s t = Holding l \<Longrightarrow> \<not> sl_token (heap s l) \<Longrightarrow>
    lock_step s (set_thread t (Finished l) (update_lock l (Unlock now) s))"
| released: "threads_of s t = Finished l \<Longrightarrow> lock_step s (set_thread t Idle (release l s))"

definition lock_start :: lock_world where
  "lock_start = \<lparr>allLocks = Map.empty, heap = (\<lambda>_. \<lparr>sl_sessionKey = [], sl_token = True, sl_metrics = new_status [],
     sl_deadlockDur = 0, sl_refCount = 0\<rparr>), next_lock = 0, threads_of = (\<lambda>_. Idle)\<rparr>"

abbreviation lock_reachable :: "lock_world \<Rightarrow> bool" where
  "lock_reachable s \<equiv> lock_step\<^sup>*\<^sup>* lock_start s"

section \<open>Invariant\<close>

fun ref_of :: "thread_state \<Rightarrow> nat option" where
  "ref_of Idle = None"
| "ref_of (Referenced l) = Some l"
| "ref_of (Queued l _) = Some l"
| "ref_of (Holding l) = Some l"
| "ref_of (Finished l) = Some l"

definition users :: "lock_world \<Rightarrow> nat \<Rightarrow> nat set" where
  "users s l = {t. ref_of (threads_of s t) = Some l}"

definition holders :: "lock_world \<Rightarrow> nat \<Rightarrow> nat set" where
  "holders s l = {t. threads_of s t = Holding l}"

text \<open>The map has exactly the locks in use, under their keys, and the counts are the numbers of users.\<close>

definition map_inv :: "lock_world \<Rightarrow> bool" where
  "map_inv s \<longleftrightarrow>
     finite {t. threads_of s t \<noteq> Idle} \<and>
     (\<forall>key l. allLocks s key = Some l \<longrightarrow> l < next_lock s \<and> sl_sessionKey (heap s l) = key \<and> users s l \<noteq> {}) \<and>
     (\<forall>l. users s l \<noteq> {} \<longrightarrow>
        allLocks s (sl_sessionKey (heap s l)) = Some l \<and> sl_refCount (heap s l) = int (card (users s l)))"

text \<open>A lock has its token in the channel and no holder, or no token and exactly one holder.\<close>

definition token_ok :: "sessionLock \<Rightarrow> nat set \<Rightarrow> bool" where
  "token_ok x hs \<longleftrightarrow> (if sl_token x then hs = {} else ls_IsLocked (sl_metrics x) \<and> (\<exists>t. hs = {t}))"

definition token_inv :: "lock_world \<Rightarrow> bool" where
  "token_inv s \<longleftrightarrow> (\<forall>l. users s l \<noteq> {} \<longrightarrow> token_ok (heap s l) (holders s l))"

definition lock_inv :: "lock_world \<Rightarrow> bool" where
  "lock_inv s \<longleftrightarrow> map_inv s \<and> token_inv s"

lemma lock_inv_start: "lock_inv lock_start"
  by (simp add: lock_inv_def map_inv_def token_inv_def users_def lock_start_def)

lemma holders_users: "holders s l \<subseteq> users s l"
  by (auto simp: holders_def users_def)

lemma users_finite: "map_inv s \<Longrightarrow> finite (users s l)"
  by (rule finite_subset [of _ "{t. threads_of s t \<noteq> Idle}"]) (auto simp: map_inv_def users_def)

lemma map_inv_user:
  "map_inv s \<Longrightarrow> users s l \<noteq> {} \<Longrightarrow>
     allLocks s (sl_sessionKey (heap s l)) = Some l \<and> sl_refCount (heap s l) = int (card (users s l))"
  by (simp add: map_inv_def)

lemma token_invD: "token_inv s \<Longrightarrow> users s l \<noteq> {} \<Longrightarrow> token_ok (heap s l) (holders s l)"
  by (simp add: token_inv_def)

lemma set_thread_simps [simp]:
  "threads_of (set_thread t ts s) = (threads_of s)(t := ts)" "allLocks (set_thread t ts s) = allLocks s"
  "heap (set_thread t ts s) = heap s" "next_lock (set_thread t ts s) = next_lock s"
  by (simp_all add: set_thread_def)

lemma update_lock_simps [simp]:
  "threads_of (update_lock l f s) = threads_of s" "allLocks (update_lock l f s) = allLocks s"
  "heap (update_lock l f s) = (heap s)(l := f (heap s l))" "next_lock (update_lock l f s) = next_lock s"
  by (simp_all add: update_lock_def)

lemma busy_finite:
  "finite {t. threads_of s t \<noteq> Idle} \<Longrightarrow> finite {t'. ((threads_of s)(t := ts)) t' \<noteq> Idle}"
  by (rule finite_subset [of _ "insert t {t'. threads_of s t' \<noteq> Idle}"]) auto

text \<open>A thread moves on with the lock it references, and the lock keeps its key and count.\<close>

lemma lock_inv_move:
  assumes inv: "lock_inv s" and t: "ref_of (threads_of s t) = Some l" "ref_of ts = Some l"
    and f: "sl_sessionKey (f (heap s l)) = sl_sessionKey (heap s l)" "sl_refCount (f (heap s l)) = sl_refCount (heap s l)"
    and tok: "token_ok (heap s l) (holders s l) \<Longrightarrow>
      token_ok (f (heap s l)) (if ts = Holding l then insert t (holders s l) else holders s l - {t})"
  shows "lock_inv (set_thread t ts (update_lock l f s))"
proof -
  let ?s = "set_thread t ts (update_lock l f s)"
  have users: "users ?s = users s" using t by (auto simp: users_def fun_eq_iff)
  have hold: "holders ?s l' =
      (if l' = l then if ts = Holding l then insert t (holders s l) else holders s l - {t} else holders s l')" for l'
    using t by (auto simp: holders_def split: if_splits)
  have "users s l \<noteq> {}" using t(1) by (auto simp: users_def)
  then have "token_inv ?s" using inv tok by (auto simp: lock_inv_def token_inv_def users hold)
  moreover have "map_inv ?s" using inv f busy_finite [of s t ts] by (auto simp: lock_inv_def map_inv_def users)
  ultimately show ?thesis by (simp add: lock_inv_def)
qed

text \<open>A thread that takes its first reference.\<close>

lemma lock_inv_reference:
  assumes inv: "lock_inv s" and t: "threads_of s t = Idle" and l: "allLocks s key = Some l"
  shows "lock_inv (set_thread t (Referenced l) (update_lock l (\<lambda>x. x\<lparr>sl_refCount := sl_refCount x + 1\<rparr>) s))"
    (is "lock_inv ?s")
proof -
  have users: "users ?s l' = (if l' = l then insert t (users s l) else users s l')" for l'
    using t by (auto simp: users_def)
  have hold: "holders ?s = holders s" using t by (auto simp: holders_def fun_eq_iff)
  have u: "users s l \<noteq> {}" "t \<notin> users s l" using inv l t by (auto simp: lock_inv_def map_inv_def users_def)
  then have "card (users ?s l) = card (users s l) + 1"
    using users_finite [of s l] inv by (simp add: users lock_inv_def)
  then have "map_inv ?s"
    using inv u l busy_finite [of s t "Referenced l"] by (auto simp: lock_inv_def map_inv_def users)
  moreover have "token_inv ?s"
    using inv u(1) by (auto simp: lock_inv_def token_inv_def users hold token_ok_def)
  ultimately show ?thesis by (simp add: lock_inv_def)
qed

lemma lock_inv_create:
  assumes inv: "lock_inv s" and t: "threads_of s t = Idle" and key: "allLocks s key = None" and l: "l = next_lock s"
    and s': "threads_of s' = (threads_of s)(t := Referenced l)" "allLocks s' = (allLocks s)(key \<mapsto> l)"
      "heap s' = (heap s)(l := obj)" "next_lock s' = Suc l"
    and obj: "sl_sessionKey obj = key" "sl_token obj" "sl_refCount obj = 1"
  shows "lock_inv s'"
proof -
  have entry: "l' < l \<and> sl_sessionKey (heap s l') = k \<and> users s l' \<noteq> {}" if "allLocks s k = Some l'" for k l'
    using inv that unfolding l lock_inv_def map_inv_def by blast
  have old: "l' < l \<and> sl_sessionKey (heap s l') \<noteq> key" if "users s l' \<noteq> {}" for l'
  proof -
    have "allLocks s (sl_sessionKey (heap s l')) = Some l'" using map_inv_user [of s l'] inv that by (simp add: lock_inv_def)
    with entry [OF this] key show ?thesis by auto
  qed
  have users: "users s' l' = (if l' = l then {t} else users s l')" for l'
    using t old [of l] by (auto simp: users_def s')
  have hold: "holders s' = holders s" using t by (auto simp: holders_def s' fun_eq_iff)
  have h: "holders s l = {}" using holders_users [of s l] old [of l] by auto
  have "token_inv s'"
    unfolding token_inv_def hold
  proof (intro allI impI)
    fix l' assume "users s' l' \<noteq> {}"
    then show "token_ok (heap s' l') (holders s l')"
      using inv obj(2) h token_invD [of s l'] by (cases "l' = l") (simp_all add: users s' lock_inv_def token_ok_def)
  qed
  moreover have "map_inv s'"
    unfolding map_inv_def
  proof (intro conjI allI impI)
    show "finite {t'. threads_of s' t' \<noteq> Idle}"
      using inv busy_finite [of s t "Referenced l"] by (simp add: lock_inv_def map_inv_def s')
    fix k l' assume a: "allLocks s' k = Some l'"
    show "l' < next_lock s'" "sl_sessionKey (heap s' l') = k" "users s' l' \<noteq> {}"
      using a entry [of k l'] obj(1) by (auto simp: users s' split: if_splits)
  next
    fix l' assume "users s' l' \<noteq> {}"
    then show "allLocks s' (sl_sessionKey (heap s' l')) = Some l'" "sl_refCount (heap s' l') = int (card (users s' l'))"
      using inv obj old [of l'] map_inv_user [of s l'] by (auto simp: users s' lock_inv_def split: if_splits)
  qed
  ultimately show ?thesis by (simp add: lock_inv_def)
qed

text \<open>A thread that drops its reference, with the lock removed from the map after its last user.\<close>

lemma lock_inv_drop:
  assumes inv: "lock_inv s" and t: "threads_of s t = Finished l"
    and s': "threads_of s' = (threads_of s)(t := Idle)" "next_lock s' = next_lock s"
      "heap s' = (heap s)(l := (heap s l)\<lparr>sl_refCount := sl_refCount (heap s l) - 1\<rparr>)"
      "allLocks s' = (if sl_refCount (heap s l) - 1 \<le> 0 then (allLocks s)(sl_sessionKey (heap s l) := None) else allLocks s)"
  shows "lock_inv s'"
proof -
  have users: "users s' l' = (if l' = l then users s l - {t} else users s l')" for l'
    using t by (auto simp: users_def s')
  have hold: "holders s' = holders s" using t by (auto simp: holders_def s' fun_eq_iff)
  have u: "t \<in> users s l" using t by (simp add: users_def)
  then have l: "allLocks s (sl_sessionKey (heap s l)) = Some l" "sl_refCount (heap s l) = int (card (users s l))"
    using map_inv_user [of s l] inv by (auto simp: lock_inv_def)
  have fin: "finite (users s l)" using users_finite inv by (simp add: lock_inv_def)
  have c: "int (card (users s l - {t})) = int (card (users s l)) - 1"
    using card_Suc_Diff1 [OF fin u] by simp
  have "card (users s l - {t}) = 0 \<longleftrightarrow> users s l - {t} = {}" using fin by (intro card_0_eq) simp
  then have empty: "sl_refCount (heap s l) - 1 \<le> 0 \<longleftrightarrow> users s l - {t} = {}" using c l(2) by linarith
  have uniq: "sl_sessionKey (heap s l') \<noteq> sl_sessionKey (heap s l)" if "users s l' \<noteq> {}" "l' \<noteq> l" for l'
    using map_inv_user [of s l'] inv that l(1) by (auto simp: lock_inv_def)
  have entry: "l' < next_lock s \<and> sl_sessionKey (heap s l') = k \<and> users s l' \<noteq> {}" if "allLocks s k = Some l'" for k l'
    using inv that unfolding lock_inv_def map_inv_def by blast
  have "map_inv s'"
    unfolding map_inv_def
  proof (intro conjI allI impI)
    show "finite {t'. threads_of s' t' \<noteq> Idle}"
      using inv busy_finite [of s t Idle] by (simp add: lock_inv_def map_inv_def s')
    fix k l' assume a: "allLocks s' k = Some l'"
    then have "allLocks s k = Some l'" by (auto simp: s' split: if_splits)
    from entry [OF this] a show "l' < next_lock s'" "sl_sessionKey (heap s' l') = k" "users s' l' \<noteq> {}"
      unfolding users s' empty by (auto split: if_splits)
  next
    fix l' assume n: "users s' l' \<noteq> {}"
    then have "users s l' \<noteq> {}" by (auto simp: users split: if_splits)
    from map_inv_user [OF _ this] uniq [OF this] inv n c l
    show "allLocks s' (sl_sessionKey (heap s' l')) = Some l'" "sl_refCount (heap s' l') = int (card (users s' l'))"
      unfolding users s' empty by (auto simp: lock_inv_def split: if_splits)
  qed
  moreover have "token_inv s'"
    unfolding token_inv_def hold
  proof (intro allI impI)
    fix l' assume "users s' l' \<noteq> {}"
    moreover have "users s l \<noteq> {}" using u by auto
    ultimately show "token_ok (heap s' l') (holders s l')"
      using inv token_invD [of s l'] token_invD [of s l]
      by (cases "l' = l") (simp_all add: users s' lock_inv_def token_ok_def)
  qed
  ultimately show ?thesis by (simp add: lock_inv_def)
qed

lemma lock_step_inv:
  assumes "lock_step s s'" "lock_inv s"
  shows "lock_inv s'"
  using assms
proof cases
  case (acquire t key timeout l s1)
  show ?thesis
  proof (cases "allLocks s key")
    case None
    show ?thesis unfolding acquire(1)
      by (rule lock_inv_create [OF assms(2) acquire(2) None refl])
         (use acquire(3) None in \<open>auto simp: acquireLock_def Let_def\<close>)
  next
    case (Some k)
    then show ?thesis using acquire lock_inv_reference [OF assms(2) acquire(2) Some]
      by (auto simp: acquireLock_def)
  qed
next
  case (enter t l start)
  then show ?thesis
    using lock_inv_move [OF assms(2), of t l "Queued l start"]
    by (auto simp: token_ok_def lock_enter_def holders_def)
next
  case (locked t l start now stack)
  then show ?thesis
    using lock_inv_move [OF assms(2), of t l "Holding l" "take_token start now stack"]
    by (auto simp: token_ok_def take_token_def lock_taken_def Let_def)
next
  case (failed t l start)
  have "t \<notin> holders s l" using failed by (simp add: holders_def)
  then show ?thesis
    using failed lock_inv_move [OF assms(2), of t l "Finished l" "\<lambda>x. x"]
    by (simp add: update_lock_def)
next
  case (unlocked t l now)
  have "t \<in> holders s l" using unlocked by (simp add: holders_def)
  then have tok: "token_ok (heap s l) (holders s l) \<Longrightarrow> token_ok (Unlock now (heap s l)) (holders s l - {t})"
    using unlocked(3) by (auto simp: token_ok_def Unlock_def)
  show ?thesis unfolding unlocked(1)
    by (rule lock_inv_move [OF assms(2)]) (use unlocked tok in \<open>simp_all add: Unlock_def\<close>)
next
  case (released t l)
  show ?thesis unfolding released(1)
    by (rule lock_inv_drop [OF assms(2) released(2)]) (auto simp: release_def Let_def)
qed

lemma lock_reachable_inv: "lock_reachable s \<Longrightarrow> lock_inv s"
  by (induction rule: rtranclp_induct) (auto intro: lock_inv_start lock_step_inv)

text \<open>
  \<^bold>\<open>C16.\<close> One turn at a time: in every reachable state two threads that hold the lock of the same session
  are the same thread; a holder's unlock never blocks, because its channel is empty; every lock a
  thread refers to is the one the map has for its session; and when no thread uses a lock the map is
  empty, so locks do not pile up.
\<close>

theorem session_lock_exclusive:
  assumes "lock_reachable s"
  shows "(\<forall>t t' l l'. threads_of s t = Holding l \<longrightarrow> threads_of s t' = Holding l' \<longrightarrow>
        sl_sessionKey (heap s l) = sl_sessionKey (heap s l') \<longrightarrow> t = t') \<and>
    (\<forall>t l. threads_of s t = Holding l \<longrightarrow> \<not> sl_token (heap s l)) \<and>
    (\<forall>t l. ref_of (threads_of s t) = Some l \<longrightarrow> allLocks s (sl_sessionKey (heap s l)) = Some l) \<and>
    ((\<forall>t. threads_of s t = Idle) \<longrightarrow> allLocks s = Map.empty)"
proof -
  have inv: "map_inv s" "token_inv s" using lock_reachable_inv [OF assms] by (simp_all add: lock_inv_def)
  have ref: "allLocks s (sl_sessionKey (heap s l)) = Some l" if "ref_of (threads_of s t) = Some l" for t l
    using inv(1) that unfolding map_inv_def users_def by blast
  have tok: "\<not> sl_token (heap s l) \<and> (\<exists>h. holders s l = {h})" if "threads_of s t = Holding l" for t l
  proof -
    have "t \<in> holders s l" "t \<in> users s l" using that by (simp_all add: holders_def users_def)
    then have "token_ok (heap s l) (holders s l)" "holders s l \<noteq> {}" using token_invD [OF inv(2), of l] by auto
    then show ?thesis by (auto simp: token_ok_def split: if_splits)
  qed
  have same: "t = t'" if "threads_of s t = Holding l" "threads_of s t' = Holding l'"
    "sl_sessionKey (heap s l) = sl_sessionKey (heap s l')" for t t' l l'
  proof -
    have "allLocks s (sl_sessionKey (heap s l)) = Some l" by (rule ref [of t]) (simp add: that(1))
    moreover have "allLocks s (sl_sessionKey (heap s l')) = Some l'" by (rule ref [of t']) (simp add: that(2))
    ultimately have "l = l'" unfolding that(3) by simp
    then have "t \<in> holders s l" "t' \<in> holders s l" using that by (simp_all add: holders_def)
    moreover have "\<exists>h. holders s l = {h}" using tok [OF that(1)] by simp
    ultimately show ?thesis by auto
  qed
  have excl: "\<forall>t t' l l'. threads_of s t = Holding l \<longrightarrow> threads_of s t' = Holding l' \<longrightarrow>
      sl_sessionKey (heap s l) = sl_sessionKey (heap s l') \<longrightarrow> t = t'" by (intro allI impI) (rule same)
  have empty: "(\<forall>t. threads_of s t = Idle) \<longrightarrow> allLocks s = Map.empty"
  proof
    assume idle: "\<forall>t. threads_of s t = Idle"
    have "allLocks s k = None" for k
    proof (rule ccontr)
      assume "allLocks s k \<noteq> None"
      then obtain l where l: "allLocks s k = Some l" by auto
      have "users s l \<noteq> {}" using inv(1) l unfolding map_inv_def by blast
      then show False using idle by (simp add: users_def)
    qed
    then show "allLocks s = Map.empty" by (rule ext)
  qed
  have free: "\<forall>t l. threads_of s t = Holding l \<longrightarrow> \<not> sl_token (heap s l)" using tok by simp
  have known: "\<forall>t l. ref_of (threads_of s t) = Some l \<longrightarrow> allLocks s (sl_sessionKey (heap s l)) = Some l"
    using ref by simp
  show ?thesis by (intro conjI excl free known empty)
qed

text \<open>Two threads of the same session: the first holds the lock, the second waits for it.\<close>

theorem session_lock_exclusive_witness:
  "\<exists>s. lock_reachable s \<and> threads_of s 1 = Holding 0 \<and> threads_of s 2 = Queued 0 5 \<and> allLocks s ''k'' = Some 0 \<and>
     (\<forall>t l. threads_of s t = Holding l \<longrightarrow> \<not> sl_token (heap s l))"
proof -
  define s1 where "s1 = set_thread 1 (Referenced 0) (snd (acquireLock ''k'' 0 lock_start))"
  define s2 where "s2 = set_thread 1 (Queued 0 1) (update_lock 0 (\<lambda>x. x\<lparr>sl_metrics := lock_enter (sl_metrics x)\<rparr>) s1)"
  define s3 where "s3 = set_thread 1 (Holding 0) (update_lock 0 (take_token 1 2 []) s2)"
  define s4 where "s4 = set_thread 2 (Referenced 0) (snd (acquireLock ''k'' 0 s3))"
  define s5 where "s5 = set_thread 2 (Queued 0 5) (update_lock 0 (\<lambda>x. x\<lparr>sl_metrics := lock_enter (sl_metrics x)\<rparr>) s4)"
  note defs = s1_def s2_def s3_def s4_def s5_def acquireLock_def lock_start_def Let_def
  have "lock_step lock_start s1" unfolding s1_def
    by (rule lock_step.acquire [where key = "''k''" and timeout = 0]) (simp_all add: acquireLock_def lock_start_def Let_def)
  then have "lock_reachable s1" by (rule r_into_rtranclp)
  moreover have "lock_step s1 s2" unfolding s2_def by (rule lock_step.enter) (simp add: s1_def)
  moreover have "lock_step s2 s3" unfolding s3_def by (rule lock_step.locked) (simp_all add: s2_def s1_def acquireLock_def lock_start_def Let_def)
  moreover have "lock_step s3 s4" unfolding s4_def
    by (rule lock_step.acquire [where key = "''k''" and timeout = 0]) (simp_all add: defs)
  moreover have "lock_step s4 s5" unfolding s5_def by (rule lock_step.enter) (simp add: s4_def)
  ultimately have reach: "lock_reachable s5" by (auto intro: rtranclp.rtrancl_into_rtrancl)
  have "threads_of s5 1 = Holding 0" "threads_of s5 2 = Queued 0 5" "allLocks s5 ''k'' = Some 0" by (simp_all add: defs)
  with reach session_lock_exclusive [OF reach] show ?thesis by blast
qed

end
