(* ===== verification/GoCalendar.thy ===== *)
theory GoCalendar
  imports GoTime
begin

text \<open>
  The civil calendar of \<^verbatim>\<open>time\<close>: the dates are a bijection with the day numbers, and their order is
  the order of the days.
\<close>

section \<open>Calendar years\<close>

text \<open>Years start in March, so the leap day is the last day of a year; \<open>year_start y\<close> is the first day
  of year \<open>y\<close> of a 400-year era.\<close>

definition year_start :: "int \<Rightarrow> int" where
  "year_start y = (if y = 400 then 146097 else 365 * y + y div 4 - y div 100)"

lemma year_parts:
  assumes "0 \<le> (y :: int)" "y < 400"
  obtains c q s where "y = 100 * c + 4 * q + s" "0 \<le> c" "c \<le> 3" "0 \<le> q" "q \<le> 24" "0 \<le> s" "s \<le> 3"
proof
  show "y = 100 * (y div 100) + 4 * (y mod 100 div 4) + y mod 100 mod 4" by simp
qed (use assms in auto)

lemma next_year_parts:
  assumes y: "y = 100 * c + 4 * q + s" and b: "0 \<le> c" "c \<le> 3" "0 \<le> q" "q \<le> 24" "0 \<le> s" "s \<le> 3"
  shows "y div 4 = 25 * c + q" "y div 100 = c"
    "(y + 1) div 4 = 25 * c + q + (if s = 3 then 1 else 0)" "(y + 1) div 100 = c + (if s = 3 \<and> q = 24 then 1 else 0)"
    "is_leap (y + 1) \<longleftrightarrow> s = 3 \<and> (q = 24 \<longrightarrow> c = 3)" "y + 1 = 400 \<longleftrightarrow> s = 3 \<and> q = 24 \<and> c = 3"
proof -
  show "y div 4 = 25 * c + q" by (rule int_div_pos_eq [where r = s]) (use y b in auto)
  show "y div 100 = c" by (rule int_div_pos_eq [where r = "4 * q + s"]) (use y b in auto)
  show "(y + 1) div 4 = 25 * c + q + (if s = 3 then 1 else 0)"
    by (rule int_div_pos_eq [where r = "if s = 3 then 0 else s + 1"]) (use y b in auto)
  show "(y + 1) div 100 = c + (if s = 3 \<and> q = 24 then 1 else 0)"
    by (rule int_div_pos_eq [where r = "if s = 3 \<and> q = 24 then 0 else 4 * q + s + 1"]) (use y b in auto)
  have "(y + 1) mod 4 = (if s = 3 then 0 else s + 1)"
    by (rule int_mod_pos_eq [where q = "25 * c + q + (if s = 3 then 1 else 0)"]) (use y b in auto)
  moreover have "(y + 1) mod 100 = (if s = 3 \<and> q = 24 then 0 else 4 * q + s + 1)"
    by (rule int_mod_pos_eq [where q = "c + (if s = 3 \<and> q = 24 then 1 else 0)"]) (use y b in auto)
  moreover have "(y + 1) mod 400 = (if s = 3 \<and> q = 24 \<and> c = 3 then 0 else 100 * c + 4 * q + s + 1)"
    by (rule int_mod_pos_eq [where q = "if s = 3 \<and> q = 24 \<and> c = 3 then 1 else 0"]) (use y b in auto)
  ultimately show "is_leap (y + 1) \<longleftrightarrow> s = 3 \<and> (q = 24 \<longrightarrow> c = 3)" using b unfolding is_leap_def by auto
  show "y + 1 = 400 \<longleftrightarrow> s = 3 \<and> q = 24 \<and> c = 3"
  proof
    assume e: "y + 1 = 400"
    then have c: "c = 3" using y b by linarith
    then have q: "q = 24" using e y b by linarith
    then have "s = 3" using e c y by linarith
    then show "s = 3 \<and> q = 24 \<and> c = 3" using c q by simp
  qed (use y in simp)
qed

lemma year_length:
  assumes "0 \<le> y" "y < 400"
  shows "year_start (y + 1) - year_start y = (if is_leap (y + 1) then 366 else 365)"
proof -
  obtain c q s where y: "y = 100 * c + 4 * q + s" "0 \<le> c" "c \<le> 3" "0 \<le> q" "q \<le> 24" "0 \<le> s" "s \<le> 3"
    using year_parts [OF assms] .
  have "y \<noteq> 400" using assms by simp
  then show ?thesis unfolding year_start_def next_year_parts [OF y] using y by auto
qed

definition month_of :: "int \<Rightarrow> int" where
  "month_of doy = (let mp = (5 * doy + 2) div 153 in if mp < 10 then mp + 3 else mp - 9)"

definition day_of :: "int \<Rightarrow> int" where
  "day_of doy = doy - (153 * ((5 * doy + 2) div 153) + 2) div 5 + 1"

definition doy_ok :: "int \<Rightarrow> bool" where
  "doy_ok doy \<longleftrightarrow> 1 \<le> month_of doy \<and> month_of doy \<le> 12 \<and> 1 \<le> day_of doy \<and>
     day_of doy \<le> (if month_of doy = 2 then if doy = 365 then 29 else 28 else days_in (month_of doy) 1) \<and>
     (153 * (if month_of doy > 2 then month_of doy - 3 else month_of doy + 9) + 2) div 5 + day_of doy - 1 = doy"

lemma doy_ok_all: "list_all doy_ok [0..365]"
  by code_simp

text \<open>The day \<open>doy\<close> of year \<open>y\<close> of an era.\<close>

definition year_day :: "int \<Rightarrow> int \<Rightarrow> bool" where
  "year_day y doy \<longleftrightarrow> 0 \<le> y \<and> y < 400 \<and> 0 \<le> doy \<and> doy < year_start (y + 1) - year_start y"

lemma year_day_doy: "year_day y doy \<Longrightarrow> 0 \<le> doy \<and> doy \<le> 365 \<and> (doy = 365 \<longrightarrow> is_leap (y + 1))"
  using year_length [of y] by (auto simp: year_day_def split: if_splits)

lemma doy_table:
  assumes "0 \<le> doy" "doy \<le> 365"
  shows "1 \<le> month_of doy" "month_of doy \<le> 12" "1 \<le> day_of doy"
    "day_of doy \<le> (if month_of doy = 2 then if doy = 365 then 29 else 28 else days_in (month_of doy) 1)"
    "(153 * (if month_of doy > 2 then month_of doy - 3 else month_of doy + 9) + 2) div 5 + day_of doy - 1 = doy"
proof -
  have "doy_ok doy" using doy_ok_all assms by (simp add: list_all_iff)
  note ok = this [unfolded doy_ok_def]
  show "1 \<le> month_of doy" "month_of doy \<le> 12" "1 \<le> day_of doy"
    "day_of doy \<le> (if month_of doy = 2 then if doy = 365 then 29 else 28 else days_in (month_of doy) 1)"
    "(153 * (if month_of doy > 2 then month_of doy - 3 else month_of doy + 9) + 2) div 5 + day_of doy - 1 = doy"
    using ok by blast+
qed

lemma doe_of_year:
  assumes "0 \<le> doe" "doe < year_start (int n)" "n \<le> 400"
  shows "\<exists>y doy. year_day y doy \<and> y < int n \<and> doe = year_start y + doy"
  using assms
proof (induction n)
  case 0
  then show ?case by (simp add: year_start_def)
next
  case (Suc n)
  show ?case
  proof (cases "doe < year_start (int n)")
    case True
    then obtain y doy where "year_day y doy" "y < int n" "doe = year_start y + doy" using Suc by auto
    then show ?thesis by (intro exI [of _ y] exI [of _ doy]) simp
  next
    case False
    then show ?thesis using Suc.prems
      by (intro exI [of _ "int n"] exI [of _ "doe - year_start (int n)"]) (auto simp: year_day_def add.commute)
  qed
qed

text \<open>The year computed from a day of an era.\<close>

lemma year_of_doe:
  assumes yd: "year_day y doy" and doe: "doe = year_start y + doy"
  shows "(doe - doe div 1460 + doe div 36524 - doe div 146096) div 365 = y" (is "?n div 365 = y")
proof (cases "doe = 146096")
  case True
  have "y = 399"
    using True doe year_day_doy [OF yd] yd by (auto simp: year_day_def year_start_def)
  then show ?thesis unfolding True by simp
next
  case False
  have y0: "0 \<le> y" "y < 400" using yd by (simp_all add: year_day_def)
  obtain c q s where y: "y = 100 * c + 4 * q + s" and b: "0 \<le> c" "c \<le> 3" "0 \<le> q" "q \<le> 24" "0 \<le> s" "s \<le> 3"
    using year_parts [OF y0] .
  have ys: "year_start y = 36524 * c + 1461 * q + 365 * s"
    using next_year_parts(1,2) [OF y b] y0 y by (simp add: year_start_def)
  have doy: "0 \<le> doy" "doy \<le> 365" using year_day_doy [OF yd] by auto
  have leap: "doy = 365 \<Longrightarrow> s = 3 \<and> (q = 24 \<longrightarrow> c = 3)"
    using year_day_doy [OF yd] next_year_parts(5) [OF y b] by blast
  have d: "doe = 36524 * c + (1461 * q + 365 * s + doy)" using doe ys by simp
  have e: "0 \<le> 1461 * q + 365 * s + doy" "1461 * q + 365 * s + doy < 36524"
    using b doy leap False d by (cases "doy = 365"; cases "q = 24"; cases "s = 3"; linarith)+
  have d2: "doe div 36524 = c" using d e by (intro int_div_pos_eq) auto
  have d3: "doe div 146096 = 0" using d e b by (intro div_pos_pos_trivial) linarith+
  define k where "k = 24 * c + q + 365 * s + doy"
  have k: "doe = 1460 * (25 * c + q) + k" "0 \<le> k" "k < 2920" using d b doy by (simp_all add: k_def)
  have d1: "doe div 1460 = 25 * c + q + (if k < 1460 then 0 else 1)"
    by (rule int_div_pos_eq [where r = "if k < 1460 then k else k - 1460"]) (use k in auto)
  have "?n = 365 * y + (doy - (if k < 1460 then 0 else 1))" using d d1 d2 d3 y by simp
  moreover have "0 \<le> doy - (if k < 1460 then 0 else 1)" "doy - (if k < 1460 then 0 else 1) < 365"
    using doy leap b by (cases "doy = 365"; auto simp: k_def)+
  ultimately show ?thesis by (intro int_div_pos_eq)
qed

lemma year_start_mono:
  assumes "0 \<le> y" "y \<le> 400"
  shows "0 \<le> year_start y \<and> year_start y \<le> 146097"
  using assms by (auto simp: year_start_def)

lemma era_day:
  assumes "year_day y doy"
  shows "0 \<le> year_start y + doy \<and> year_start y + doy < 146097"
  using year_start_mono [of y] year_start_mono [of "y + 1"] assms by (auto simp: year_day_def)

lemma civil_from_year_day:
  assumes "year_day y doy"
  shows "civil_from_days (era * 146097 + year_start y + doy - 719468) =
    (y + era * 400 + (if month_of doy \<le> 2 then 1 else 0), month_of doy, day_of doy)"
proof -
  let ?doe = "year_start y + doy"
  have e: "(era * 146097 + year_start y + doy) div 146097 = era" "(era * 146097 + year_start y + doy) mod 146097 = ?doe"
    using era_day [OF assms] by (simp_all add: add.assoc)
  have y: "(?doe - ?doe div 1460 + ?doe div 36524 - ?doe div 146096) div 365 = y"
    by (rule year_of_doe [OF assms refl])
  have d: "?doe - (365 * y + y div 4 - y div 100) = doy" using assms by (simp add: year_start_def year_day_def)
  show ?thesis unfolding civil_from_days_def Let_def by (simp add: e y d month_of_def day_of_def Let_def)
qed

lemma days_cases:
  obtains y doy era where "year_day y doy" "z = era * 146097 + year_start y + doy - 719468"
proof -
  let ?z = "z + 719468"
  have "0 \<le> ?z mod 146097" "?z mod 146097 < year_start (int 400)" by (simp_all add: year_start_def)
  then obtain y doy where "year_day y doy" "?z mod 146097 = year_start y + doy" using doe_of_year [of "?z mod 146097" 400] by auto
  moreover have "?z = ?z div 146097 * 146097 + ?z mod 146097" by simp
  ultimately show thesis by (intro that [of y doy "?z div 146097"]) linarith+
qed

lemma is_leap_era: "is_leap (y + era * 400) = is_leap y"
proof -
  have "y + era * 400 = y + 4 * (100 * era)" "y + era * 400 = y + 100 * (4 * era)" by simp_all
  then have "(y + era * 400) mod 4 = y mod 4" "(y + era * 400) mod 100 = y mod 100" by (metis mod_mult_self2)+
  then show ?thesis by (simp add: is_leap_def)
qed

text \<open>Every day number has a valid date, and the date determines it.\<close>

lemma civil_valid:
  assumes "civil_from_days z = (y, m, d)"
  shows "1 \<le> m \<and> m \<le> 12 \<and> 1 \<le> d \<and> d \<le> days_in m y \<and> days_from_civil y m d = z"
proof (cases rule: days_cases [of z])
  case (1 y0 doy era)
  note c = assms [unfolded 1(2) civil_from_year_day [OF 1(1)]]
  note doy = year_day_doy [OF 1(1)]
  note t = doy_table [of doy]
  have y0: "0 \<le> y0" "y0 < 400" using 1(1) by (simp_all add: year_day_def)
  have "d \<le> days_in m y"
  proof -
    have "is_leap (y0 + era * 400 + 1) = is_leap (y0 + 1)" using is_leap_era [of "y0 + 1" era] by (simp add: algebra_simps)
    then show ?thesis using c t(4) doy by (auto simp: days_in_def split: if_splits)
  qed
  moreover have "days_from_civil y m d = z"
  proof -
    have "(if m \<le> 2 then y - 1 else y) = y0 + era * 400" using c by auto
    moreover have "(y0 + era * 400) div 400 = era" "(y0 + era * 400) mod 400 = y0" using y0 by simp_all
    moreover have "(153 * (if m > 2 then m - 3 else m + 9) + 2) div 5 + d - 1 = doy" using t(5) c doy by auto
    ultimately show ?thesis
      using y0 unfolding days_from_civil_def Let_def 1(2) by (simp add: year_start_def)
  qed
  ultimately show ?thesis using c t(1-3) doy by auto
qed

section \<open>Order of dates\<close>

definition march_start :: "int \<Rightarrow> int" where
  "march_start y = y div 400 * 146097 + year_start (y mod 400)"

lemma march_start_next: "march_start (y + 1) = march_start y + (year_start (y mod 400 + 1) - year_start (y mod 400))"
proof -
  define e m where "e = y div 400" and "m = y mod 400"
  have y: "y = 400 * e + m" "0 \<le> m" "m < 400" by (simp_all add: e_def m_def)
  have "(y + 1) div 400 = e + (if m = 399 then 1 else 0)"
    by (rule int_div_pos_eq [where r = "if m = 399 then 0 else m + 1"]) (use y in auto)
  moreover have "(y + 1) mod 400 = (if m = 399 then 0 else m + 1)"
    by (rule int_mod_pos_eq [where q = "e + (if m = 399 then 1 else 0)"]) (use y in auto)
  ultimately show ?thesis by (cases "m = 399") (simp_all add: march_start_def year_start_def e_def [symmetric] m_def [symmetric])
qed

lemma march_start_step: "march_start y < march_start (y + 1)"
  using year_length [of "y mod 400"] by (simp add: march_start_next)

lemma march_start_mono: "march_start (y + int n) \<ge> march_start y"
proof (induction n)
  case (Suc n)
  have "march_start (y + int n) < march_start (y + int n + 1)" by (rule march_start_step)
  also have "y + int n + 1 = y + int (Suc n)" by simp
  finally show ?case using Suc by linarith
qed simp

definition civil_less :: "int \<times> int \<times> int \<Rightarrow> int \<times> int \<times> int \<Rightarrow> bool" where
  "civil_less = (\<lambda>(y, m, d) (y', m', d'). y < y' \<or> y = y' \<and> (m < m' \<or> m = m' \<and> d < d'))"

lemma month_day_order:
  assumes "0 \<le> a" "a < b" "b \<le> 365"
  shows "civil_less (if month_of a \<le> 2 then 1 else 0, month_of a, day_of a) (if month_of b \<le> 2 then 1 else 0, month_of b, day_of b)"
proof -
  let ?m = "\<lambda>n. (5 * n + 2) div 153"
  have m: "0 \<le> ?m a" "?m a \<le> ?m b" "?m b \<le> 11" using assms by (auto intro: zdiv_mono1)
  have le2: "month_of n \<le> 2 \<longleftrightarrow> 10 \<le> ?m n" if "0 \<le> ?m n" "?m n \<le> 11" for n using that by (auto simp: month_of_def Let_def)
  show ?thesis
  proof (cases "?m a = ?m b")
    case True
    then have "month_of a = month_of b" "day_of a < day_of b" using assms by (simp_all add: month_of_def day_of_def)
    then show ?thesis by (simp add: civil_less_def)
  next
    case False
    then have "?m a < ?m b" using m(2) by simp
    then show ?thesis using m le2 [of a] le2 [of b] by (auto simp: civil_less_def month_of_def Let_def)
  qed
qed

lemma civil_from_days_order:
  assumes "z < z'"
  shows "civil_less (civil_from_days z) (civil_from_days z')"
proof (cases rule: days_cases [of z])
  case (1 y doy era)
  show ?thesis
  proof (cases rule: days_cases [of z'])
    case (1 y' doy' era')
    note z = \<open>year_day y doy\<close> \<open>z = _\<close> and z' = 1
    let ?Y = "y + era * 400" and ?Y' = "y' + era' * 400"
    have s: "z = march_start ?Y + doy - 719468" "z' = march_start ?Y' + doy' - 719468"
      using z z' by (auto simp: march_start_def year_day_def)
    have b: "march_start ?Y + doy < march_start (?Y + 1)" "march_start ?Y' + doy' < march_start (?Y' + 1)"
      using z(1) z'(1) by (auto simp: march_start_next year_day_def)
    have doy: "0 \<le> doy" "0 \<le> doy'" "doy' \<le> 365"
      using year_day_doy [OF z(1)] year_day_doy [OF z'(1)] by simp_all
    have "\<not> ?Y' < ?Y"
    proof
      assume "?Y' < ?Y"
      then obtain n where "?Y = ?Y' + 1 + int n" using zle_iff_zadd [of "?Y' + 1" ?Y] by auto
      then have "march_start (?Y' + 1) \<le> march_start ?Y" using march_start_mono by simp
      then show False using s b doy assms by linarith
    qed
    moreover have "doy < doy'" if "?Y = ?Y'" using s that assms by simp
    ultimately consider "?Y < ?Y'" | "?Y = ?Y'" "doy < doy'" by linarith
    then show ?thesis
    proof cases
      case 1
      moreover have "month_of doy \<le> 2 \<Longrightarrow> \<not> month_of doy' \<le> 2 \<Longrightarrow> month_of doy < month_of doy'" by linarith
      ultimately show ?thesis
        unfolding z(2) z'(2) civil_from_year_day [OF z(1)] civil_from_year_day [OF z'(1)] civil_less_def by auto
    next
      case 2
      then show ?thesis using month_day_order [OF doy(1) 2(2) doy(3)]
        unfolding z(2) z'(2) civil_from_year_day [OF z(1)] civil_from_year_day [OF z'(1)] civil_less_def by auto
    qed
  qed
qed

end
