(* ===== verification/GoTime_Laws.thy ===== *)
theory GoTime_Laws
  imports GoCalendar
begin

text \<open>
  Laws of the timestamp text of \<^verbatim>\<open>time\<close>: formatting an instant and parsing it back gives the instant to
  the second, and the byte order of formatted instants is the order of the seconds they stand for. The
  stores that keep their timestamps as text rest on these facts.
\<close>

section \<open>Digits\<close>

fun digits :: "nat \<Rightarrow> int \<Rightarrow> string" where
  "digits 0 n = []"
| "digits (Suc w) n = digits w (n div 10) @ [digit_char (n mod 10)]"

lemma digits_zero: "digits w 0 = replicate w (CHR ''0'')"
proof (induction w)
  case (Suc w)
  have "digit_char 0 = CHR ''0''" by code_simp
  then show ?case using Suc by (simp add: replicate_append_same)
qed simp

lemma pad_digits: "0 \<le> n \<Longrightarrow> n < 10 ^ w \<Longrightarrow> 0 < w \<Longrightarrow> pad w n = digits w n"
proof (induction w arbitrary: n)
  case (Suc w)
  show ?case
  proof (cases "n < 10")
    case True
    then show ?thesis using Suc.prems by (simp add: pad_def dec.simps [of n] digits_zero Let_def)
  next
    case False
    then have w: "0 < w" using Suc.prems by (cases w) auto
    have "pad w (n div 10) = digits w (n div 10)" using Suc False w by auto
    then show ?thesis using False by (simp add: pad_def dec.simps [of n] Let_def)
  qed
qed simp

lemma digits2: "digits 2 n = [digit_char (n div 10 mod 10), digit_char (n mod 10)]"
  by (simp add: numeral_2_eq_2)

lemma digits4:
  "digits 4 n = [digit_char (n div 10 div 10 div 10 mod 10), digit_char (n div 10 div 10 mod 10),
     digit_char (n div 10 mod 10), digit_char (n mod 10)]"
  by (simp add: numeral_eq_Suc)

lemma of_char_digit: "0 \<le> a \<Longrightarrow> a < 10 \<Longrightarrow> (of_char (digit_char a) :: int) = 48 + a"
  using digit_char_roundtrip(2) [of a] by (simp add: digit_val_def)

lemma digit_char_inj: "0 \<le> a \<Longrightarrow> a < 10 \<Longrightarrow> 0 \<le> b \<Longrightarrow> b < 10 \<Longrightarrow> digit_char a = digit_char b \<longleftrightarrow> a = b"
  by (metis digit_char_roundtrip(2))

lemma div_mod_less:
  fixes a b k :: int
  assumes "0 < k"
  shows "a < b \<longleftrightarrow> a div k < b div k \<or> a div k = b div k \<and> a mod k < b mod k"
proof (cases "a < b")
  case True
  then have "a div k \<le> b div k" using assms by (intro zdiv_mono1) simp_all
  moreover have "a mod k < b mod k" if "a div k = b div k"
    using True mult_div_mod_eq [of k a] mult_div_mod_eq [of k b] unfolding that by linarith
  ultimately show ?thesis using True by linarith
next
  case False
  then have "b div k \<le> a div k" using assms by (intro zdiv_mono1) simp_all
  moreover have "b mod k \<le> a mod k" if "a div k = b div k"
    using False mult_div_mod_eq [of k a] mult_div_mod_eq [of k b] unfolding that by linarith
  ultimately show ?thesis using False by auto
qed

lemma div_mod_eq_iff: "a = b \<longleftrightarrow> a div k = b div k \<and> a mod k = (b mod k :: int)"
  by (metis mult_div_mod_eq)

text \<open>The byte order of texts.\<close>

fun text_less :: "string \<Rightarrow> string \<Rightarrow> bool" where
  "text_less [] [] = False"
| "text_less [] (_ # _) = True"
| "text_less (_ # _) [] = False"
| "text_less (a # x) (b # y) = ((of_char a :: int) < of_char b \<or> a = b \<and> text_less x y)"

lemma text_less_irrefl [simp]: "\<not> text_less x x"
  by (induction x) auto

lemma text_less_asym: "text_less x y \<Longrightarrow> \<not> text_less y x"
  by (induction x y rule: text_less.induct) auto

lemma text_less_digits:
  "0 \<le> a \<Longrightarrow> a < 10 ^ w \<Longrightarrow> 0 \<le> b \<Longrightarrow> b < 10 ^ w \<Longrightarrow>
   text_less (digits w a @ x) (digits w b @ y) \<longleftrightarrow> a < b \<or> a = b \<and> text_less x y"
proof (induction w arbitrary: a b x y)
  case (Suc w)
  have "a div 10 < 10 ^ w" "b div 10 < 10 ^ w" using Suc.prems by simp_all
  then show ?case
    using Suc.IH [of "a div 10" "b div 10"] Suc.prems div_mod_less [of 10 a b] div_mod_eq_iff [of a b 10]
    by (auto simp: of_char_digit digit_char_inj pos_imp_zdiv_nonneg_iff)
qed auto

lemma div_3600: "x div 3600 = x div 60 div (60 :: int)"
  using zdiv_zmult2_eq [of 60 x 60] by simp

lemma mod60_less_100: "x mod 60 < (100 :: int)"
  by (rule less_trans [OF pos_mod_bound]) simp_all

section \<open>Formatted instants\<close>

text \<open>The years that fit four digits.\<close>

definition stamp_ok :: "instant \<Rightarrow> bool" where
  "stamp_ok t \<longleftrightarrow> (case civil_from_days (t div second div 86400) of (y, _) \<Rightarrow> 0 \<le> y \<and> y \<le> 9999)"

lemma format_digits:
  assumes "stamp_ok t" "civil_from_days (t div second div 86400) = (y, m, d)" "s = t div second mod 86400"
  shows "format_date t = digits 4 y @ ''-'' @ digits 2 m @ ''-'' @ digits 2 d"
    "format_clock t = digits 2 (s div 3600) @ '':'' @ digits 2 (s div 60 mod 60) @ '':'' @ digits 2 (s mod 60)"
    "0 \<le> y" "y < 10 ^ 4" "1 \<le> m" "m \<le> 12" "1 \<le> d" "d \<le> days_in m y" "d < 10 ^ 2" "0 \<le> s" "s < 86400"
proof -
  note c = civil_valid [OF assms(2)]
  show y: "0 \<le> y" "y < 10 ^ 4" using assms by (simp_all add: stamp_ok_def)
  show "1 \<le> m" "m \<le> 12" "1 \<le> d" "d \<le> days_in m y" using c by simp_all
  then show d: "d < 10 ^ 2" by (auto simp: days_in_def split: if_splits)
  show s: "0 \<le> s" "s < 86400" using assms by simp_all
  show "format_date t = digits 4 y @ ''-'' @ digits 2 m @ ''-'' @ digits 2 d"
    using assms y d c by (simp add: format_date_def pad_digits)
  have "s div 3600 < 10 ^ 2" using s by simp
  then show "format_clock t = digits 2 (s div 3600) @ '':'' @ digits 2 (s div 60 mod 60) @ '':'' @ digits 2 (s mod 60)"
    using s assms(3) by (simp add: format_clock_def Let_def pad_digits pos_imp_zdiv_nonneg_iff)
qed

lemma clock_order:
  assumes "s < (s' :: int)"
  shows "s div 3600 < s' div 3600 \<or> s div 3600 = s' div 3600 \<and>
    (s div 60 mod 60 < s' div 60 mod 60 \<or> s div 60 mod 60 = s' div 60 mod 60 \<and> s mod 60 < s' mod 60)"
proof -
  have k: "(0 :: int) < 60" by simp
  show ?thesis
    using assms unfolding div_3600 div_mod_less [OF k, of s s'] div_mod_less [OF k, of "s div 60" "s' div 60"]
      div_mod_eq_iff [of "s div 60" "s' div 60" 60] by blast
qed

lemma stamp_text_less:
  assumes "0 \<le> y" "y < 10000" "0 \<le> y'" "y' < 10000" "0 \<le> m" "m < 100" "0 \<le> m'" "m' < 100"
    "0 \<le> d" "d < 100" "0 \<le> d'" "d' < 100" "0 \<le> hr" "hr < 100" "0 \<le> hr'" "hr' < 100"
    "0 \<le> mi" "mi < 100" "0 \<le> mi'" "mi' < 100" "0 \<le> sc" "sc < 100" "0 \<le> sc'" "sc' < 100"
  shows "text_less (digits 4 y @ ''-'' @ digits 2 m @ ''-'' @ digits 2 d @ '' '' @ digits 2 hr @ '':'' @ digits 2 mi @ '':'' @ digits 2 sc)
      (digits 4 y' @ ''-'' @ digits 2 m' @ ''-'' @ digits 2 d' @ '' '' @ digits 2 hr' @ '':'' @ digits 2 mi' @ '':'' @ digits 2 sc') \<longleftrightarrow>
    y < y' \<or> y = y' \<and> (m < m' \<or> m = m' \<and> (d < d' \<or> d = d' \<and> (hr < hr' \<or> hr = hr' \<and> (mi < mi' \<or> mi = mi' \<and> sc < sc'))))"
proof -
  have last: "text_less (digits 2 sc) (digits 2 sc') \<longleftrightarrow> sc < sc'" using text_less_digits [of sc 2 sc' "[]" "[]"] assms by simp
  have d2: "text_less (digits 2 a @ c # x) (digits 2 b @ c # y) \<longleftrightarrow> a < b \<or> a = b \<and> text_less x y"
    if "0 \<le> a" "a < 100" "0 \<le> b" "b < 100" for a b c x y using text_less_digits [of a 2 b "c # x" "c # y"] that by simp
  have d4: "text_less (digits 4 a @ c # x) (digits 4 b @ c # y) \<longleftrightarrow> a < b \<or> a = b \<and> text_less x y"
    if "0 \<le> a" "a < 10000" "0 \<le> b" "b < 10000" for a b c x y using text_less_digits [of a 4 b "c # x" "c # y"] that by simp
  show ?thesis using assms by (simp add: d2 d4 last)
qed

lemma text_order_second:
  assumes "stamp_ok a" "stamp_ok b" "a div second < b div second"
  shows "text_less (FormatDateTime a) (FormatDateTime b)"
proof -
  obtain y m d where c: "civil_from_days (a div second div 86400) = (y, m, d)" by (cases "civil_from_days (a div second div 86400)")
  obtain y' m' d' where c': "civil_from_days (b div second div 86400) = (y', m', d')" by (cases "civil_from_days (b div second div 86400)")
  note f = format_digits [OF assms(1) c refl] and f' = format_digits [OF assms(2) c' refl]
  let ?s = "a div second mod 86400" and ?s' = "b div second mod 86400"
  let ?u = "a div second" and ?v = "b div second"
  have lex: "civil_less (y, m, d) (y', m', d') \<or> (y, m, d) = (y', m', d') \<and> ?s < ?s'"
  proof (cases "?u div 86400 < ?v div 86400")
    case True
    then show ?thesis using civil_from_days_order [of "?u div 86400" "?v div 86400"] c c' by simp
  next
    case False
    have "?u div 86400 \<le> ?v div 86400" using assms(3) zdiv_mono1 [of ?u ?v 86400] by simp
    then have "?u div 86400 = ?v div 86400" using False by simp
    moreover from this have "?s < ?s'" using assms(3) by (simp add: minus_mult_div_eq_mod [symmetric])
    ultimately show ?thesis using c c' by simp
  qed
  have b: "0 \<le> x div 3600 \<and> x div 3600 < 100 \<and> 0 \<le> x div 60 mod 60 \<and> x div 60 mod 60 < 100 \<and> 0 \<le> x mod 60 \<and> x mod 60 < 100"
    if "0 \<le> x" "x < 86400" for x :: int using that by (simp add: pos_imp_zdiv_nonneg_iff mod60_less_100)
  have "FormatDateTime a = digits 4 y @ ''-'' @ digits 2 m @ ''-'' @ digits 2 d @ '' '' @
      digits 2 (?s div 3600) @ '':'' @ digits 2 (?s div 60 mod 60) @ '':'' @ digits 2 (?s mod 60)"
    "FormatDateTime b = digits 4 y' @ ''-'' @ digits 2 m' @ ''-'' @ digits 2 d' @ '' '' @
      digits 2 (?s' div 3600) @ '':'' @ digits 2 (?s' div 60 mod 60) @ '':'' @ digits 2 (?s' mod 60)"
    unfolding FormatDateTime_def f(1,2) f'(1,2) append_assoc by (rule refl)+
  moreover have "0 \<le> m" "m < 100" "0 \<le> m'" "m' < 100" "0 \<le> d" "d < 100" "0 \<le> d'" "d' < 100" "y < 10000" "y' < 10000"
    using f(4-9) f'(4-9) by auto
  ultimately have "text_less (FormatDateTime a) (FormatDateTime b) \<longleftrightarrow>
      y < y' \<or> y = y' \<and> (m < m' \<or> m = m' \<and> (d < d' \<or> d = d' \<and> (?s div 3600 < ?s' div 3600 \<or> ?s div 3600 = ?s' div 3600 \<and>
        (?s div 60 mod 60 < ?s' div 60 mod 60 \<or> ?s div 60 mod 60 = ?s' div 60 mod 60 \<and> ?s mod 60 < ?s' mod 60))))"
    using b [OF f(10,11)] b [OF f'(10,11)] f(3) f'(3) by (simp only: stamp_text_less)
  then show ?thesis using lex clock_order [of ?s ?s'] unfolding civil_less_def by blast
qed

text \<open>The texts of two instants compare as the seconds do.\<close>

lemma FormatDateTime_order:
  assumes "stamp_ok a" "stamp_ok b"
  shows "text_less (FormatDateTime a) (FormatDateTime b) \<longleftrightarrow> a div second < b div second"
proof (cases "a div second" "b div second" rule: linorder_cases)
  case less
  then show ?thesis using text_order_second [OF assms] by simp
next
  case equal
  then have "FormatDateTime a = FormatDateTime b" by (simp add: FormatDateTime_def format_date_def format_clock_def)
  then show ?thesis using equal by simp
next
  case greater
  then show ?thesis using text_order_second [OF assms(2,1)] text_less_asym by auto
qed

lemma foldl_digits:
  "0 \<le> n \<Longrightarrow> n < 10 ^ w \<Longrightarrow> foldl (\<lambda>n c. n * 10 + digit_val c) a (digits w n) = a * 10 ^ w + n"
proof (induction w arbitrary: n)
  case (Suc w)
  then have "foldl (\<lambda>n c. n * 10 + digit_val c) a (digits w (n div 10)) = a * 10 ^ w + n div 10" by simp
  then show ?case by (simp add: digit_char_roundtrip algebra_simps)
qed simp

lemma num_digits:
  "0 \<le> n \<Longrightarrow> n < 100 \<Longrightarrow> num2 (digits 2 n) = Some n" "0 \<le> n \<Longrightarrow> n < 10000 \<Longrightarrow> num4 (digits 4 n) = Some n"
proof -
  show "num2 (digits 2 n) = Some n" if "0 \<le> n" "n < 100"
    using foldl_digits [of n 2 0] that by (simp add: num2_def digits2 digit_char_roundtrip)
  show "num4 (digits 4 n) = Some n" if "0 \<le> n" "n < 10000"
    using foldl_digits [of n 4 0] that by (simp add: num4_def digits4 digit_char_roundtrip)
qed

lemma is_digit_digit: "is_digit (digit_char (n mod 10))" "digit_val (digit_char (n mod 10)) = n mod 10"
  by (simp_all add: digit_char_roundtrip)

lemma parse_stamp_digits:
  assumes y: "0 \<le> y" "y < 10000" and m: "1 \<le> m" "m \<le> 12" and d: "1 \<le> d" "d \<le> days_in m y" "d < 100"
    and hr: "0 \<le> hr" "hr < 24" and mi: "0 \<le> mi" "mi < 60" and sc: "0 \<le> sc" "sc < 60"
    and zone: "zone z = Some 0" "length z < 2"
  shows "parse_stamp sep zone (digits 4 y @ ''-'' @ digits 2 m @ ''-'' @ digits 2 d @ sep #
      digits 2 hr @ '':'' @ digits 2 mi @ '':'' @ digits 2 sc @ z) =
    Some ((days_from_civil y m d * 86400 + hr * 3600 + mi * 60 + sc) * second)"
proof -
  have n: "num4 (digits 4 y) = Some y" "num2 (digits 2 m) = Some m" "num2 (digits 2 d) = Some d"
    "num2 (digits 2 mi) = Some mi" "num2 (digits 2 sc) = Some sc"
    using assms by (simp_all add: num_digits)
  have h: "get_hour (digits 2 hr @ r) = Some (hr, r)" for r
  proof -
    have "0 \<le> hr div 10" "hr div 10 < 10" using hr by simp_all
    then show ?thesis by (simp add: get_hour_def digits2 is_digit_digit digit_char_roundtrip)
  qed
  have frac: "parse_fraction z = (0, z)" using zone(2) by (simp add: parse_fraction_def)
  have len: "length (digits 2 k) = 2" "length (digits 4 k) = 4" for k by (simp_all add: digits2 digits4)
  show ?thesis unfolding parse_stamp_def using n h m d hr mi sc frac zone(1) by (simp add: len nth_append)
qed

text \<open>Parsing a formatted instant gives its second, with either separator and any zone text that stands
  for UTC.\<close>

lemma parse_stamp_format:
  assumes ok: "stamp_ok t" and zone: "zone z = Some 0" "length z < 2"
  shows "parse_stamp sep zone (format_date t @ sep # format_clock t @ z) = Some (t div second * second)"
proof -
  obtain y m d where c: "civil_from_days (t div second div 86400) = (y, m, d)" by (cases "civil_from_days (t div second div 86400)")
  define s where "s = t div second mod 86400"
  note f = format_digits [OF ok c s_def]
  have b: "0 \<le> s div 3600" "s div 3600 < 24" "0 \<le> s div 60 mod 60" "s div 60 mod 60 < 60" "0 \<le> s mod 60" "s mod 60 < 60"
    using f(10,11) by (simp_all add: pos_imp_zdiv_nonneg_iff)
  have A: "D * 86400 + A + B + C = T" if "A + B + C = S" "D * 86400 + S = T" for A B C D S T :: int using that by simp
  have "hr * 3600 + mi * 60 + sc = s" if "60 * q + sc = s" "60 * hr + mi = q" for hr mi sc q :: int using that by simp
  from this [OF mult_div_mod_eq mult_div_mod_eq] have "s div 3600 * 3600 + s div 60 mod 60 * 60 + s mod 60 = s"
    by (simp only: div_3600)
  moreover have "t div second div 86400 * 86400 + s = t div second" unfolding s_def by (rule div_mult_mod_eq)
  ultimately have total: "days_from_civil y m d * 86400 + s div 3600 * 3600 + s div 60 mod 60 * 60 + s mod 60 = t div second"
    using civil_valid [OF c] A by metis
  have "y < 10000" "d < 100" using f(4,9) by simp_all
  from parse_stamp_digits [where zone = zone and z = z and sep = sep, OF f(3) this(1) f(5-8) this(2) b zone] show ?thesis
    unfolding total f(1,2) by simp
qed

lemma ParseDateTime_Format: "stamp_ok t \<Longrightarrow> ParseDateTime (FormatDateTime t) = Some (t div second * second)"
  using parse_stamp_format [of t "\<lambda>r. if r = [] then Some 0 else None" "[]"]
  by (simp add: ParseDateTime_def FormatDateTime_def)

lemma ParseRFC3339_Format: "stamp_ok t \<Longrightarrow> ParseRFC3339 (FormatRFC3339 t) = Some (t div second * second)"
  using parse_stamp_format [of t parse_zone "''Z''"]
  by (simp add: ParseRFC3339_def FormatRFC3339_def parse_zone_def)

lemma ParseRFC3339_FormatDateTime: "stamp_ok t \<Longrightarrow> ParseRFC3339 (FormatDateTime t) = None"
proof -
  assume ok: "stamp_ok t"
  obtain y m d where c: "civil_from_days (t div second div 86400) = (y, m, d)" by (cases "civil_from_days (t div second div 86400)")
  note f = format_digits [OF ok c refl]
  have "FormatDateTime t ! 10 = CHR '' ''"
    by (simp add: FormatDateTime_def f(1,2) nth_append digits2 digits4)
  then show ?thesis by (simp add: ParseRFC3339_def parse_stamp_def)
qed

end
