(* ===== verification/Idempotency.thy ===== *)
theory Idempotency
  imports Database GoTime_Laws
begin

text \<open>
  The idempotency keys of side-effecting tool calls, \<^verbatim>\<open>internal/context/idempotency.go\<close>. The table is
  part of \<open>db\<close>. The JSON encoder and SHA-256 are parameters of \<open>HashParams\<close>; \<open>scan\<close> is what the SQL
  driver hands to \<^verbatim>\<open>Scan\<close> for the text of a \<^verbatim>\<open>DATETIME\<close> column, \<open>constraint\<close> the error it reports for
  a second row with the same primary key, and \<open>zone\<close> the offset of \<^verbatim>\<open>time.Local\<close> from UTC in seconds.
\<close>

section \<open>Operations\<close>

record IdempotencyStore =
  is_ttl :: duration

definition NewIdempotencyStore :: "duration \<Rightarrow> IdempotencyStore" where
  "NewIdempotencyStore ttl = \<lparr>is_ttl = ttl\<rparr>"

definition HashParams :: "('p \<Rightarrow> string result) \<Rightarrow> (string \<Rightarrow> string) \<Rightarrow> 'p \<Rightarrow> string result" where
  "HashParams marshal sha256_hex params =
     (case marshal params of
        Inl e \<Rightarrow> Inl (wrap_err ''hash params: marshal JSON'' e)
      | Inr data \<Rightarrow> Inr (sha256_hex data))"

record CheckResult =
  Found :: bool
  CachedResult :: string
  HashMismatch :: bool

definition no_result :: CheckResult where
  "no_result = \<lparr>Found = False, CachedResult = [], HashMismatch = False\<rparr>"

definition parse_created :: "string \<Rightarrow> instant option" where
  "parse_created createdAt =
     (case ParseRFC3339 createdAt of Some t \<Rightarrow> Some t | None \<Rightarrow> ParseDateTime createdAt)"

definition delete_key :: "string \<Rightarrow> db \<Rightarrow> db" where
  "delete_key key d = d\<lparr>idempotency_keys := filter (\<lambda>(k, r). k \<noteq> key) (idempotency_keys d)\<rparr>"

definition Check ::
  "(string \<Rightarrow> string) \<Rightarrow> (string \<Rightarrow> go_error) \<Rightarrow> IdempotencyStore \<Rightarrow> instant \<Rightarrow> string \<Rightarrow> string \<Rightarrow> db \<Rightarrow>
   (CheckResult \<times> go_error option) \<times> db" where
  "Check scan parse_error s now key paramsHash d =
     (case sql_query (\<lambda>d. map_of (idempotency_keys d) key) d of
        (Inl e, d1) \<Rightarrow> ((no_result, Some (wrap_err ''check idempotency key'' e)), d1)
      | (Inr None, d1) \<Rightarrow> ((no_result, None), d1)
      | (Inr (Some row), d1) \<Rightarrow>
          if ik_params_hash row \<noteq> paramsHash then
            ((no_result\<lparr>Found := True, HashMismatch := True\<rparr>,
              Some (ErrorNew (''idempotency key '' @ key @ '' reused with different parameters''))), d1)
          else
            (case parse_created (scan (ik_created_at row)) of
               None \<Rightarrow> ((no_result, Some (wrap_err ''parse created_at'' (parse_error (scan (ik_created_at row))))), d1)
             | Some createdTime \<Rightarrow>
                 if time_Sub now createdTime > is_ttl s
                 then ((no_result, None), snd (sql_exec (delete_key key) d1))
                 else ((no_result\<lparr>Found := True, CachedResult := ik_result row\<rparr>, None), d1)))"

definition insert_key :: "string \<Rightarrow> string \<Rightarrow> string \<Rightarrow> string \<Rightarrow> string \<Rightarrow> db \<Rightarrow> db" where
  "insert_key key toolName paramsHash res sessionKey d =
     d\<lparr>idempotency_keys := idempotency_keys d @
        [(key, \<lparr>ik_tool_name = toolName, ik_params_hash = paramsHash, ik_result = res,
                ik_session_key = sessionKey, ik_created_at = CURRENT_TIMESTAMP d\<rparr>)]\<rparr>"

definition Store ::
  "go_error \<Rightarrow> string \<Rightarrow> string \<Rightarrow> string \<Rightarrow> string \<Rightarrow> string \<Rightarrow> db \<Rightarrow> go_error option \<times> db" where
  "Store constraint key toolName paramsHash res sessionKey d =
     (case driver_call d of
        (Some e, d1) \<Rightarrow> (Some (wrap_err ''store idempotency key'' e), d1)
      | (None, d1) \<Rightarrow>
          if map_of (idempotency_keys d1) key \<noteq> None
          then (Some (wrap_err ''store idempotency key'' constraint), d1)
          else (None, insert_key key toolName paramsHash res sessionKey d1))"

definition cutoff_text :: "(instant \<Rightarrow> int) \<Rightarrow> instant \<Rightarrow> string" where
  "cutoff_text zone cutoff = FormatDateTime (cutoff + zone cutoff * second)"

definition delete_before :: "string \<Rightarrow> db \<Rightarrow> db" where
  "delete_before cutoffStr d =
     d\<lparr>idempotency_keys := filter (\<lambda>(k, r). \<not> text_less (ik_created_at r) cutoffStr) (idempotency_keys d)\<rparr>"

definition CleanupExpired :: "(instant \<Rightarrow> int) \<Rightarrow> IdempotencyStore \<Rightarrow> instant \<Rightarrow> db \<Rightarrow> int result \<times> db" where
  "CleanupExpired zone s now d =
     (case driver_call d of
        (Some e, d1) \<Rightarrow> (Inl (wrap_err ''cleanup expired idempotency keys'' e), d1)
      | (None, d1) \<Rightarrow>
          (let d2 = delete_before (cutoff_text zone (now - is_ttl s)) d1;
               affected = int (length (idempotency_keys d1)) - int (length (idempotency_keys d2))
           in case driver_call d2 of
                (Some e, d3) \<Rightarrow> (Inl (wrap_err ''get rows affected'' e), d3)
              | (None, d3) \<Rightarrow> (Inr affected, d3)))"

definition IsIdempotencyHashMismatch :: "go_error option \<Rightarrow> bool" where
  "IsIdempotencyHashMismatch err =
     (case err of None \<Rightarrow> False | Some e \<Rightarrow> Contains (error_msg e) ''reused with different parameters'')"

section \<open>Laws\<close>

text \<open>What the SQL driver documents of \<^verbatim>\<open>DATETIME\<close> columns: their text is handed over as stored or in the
  form of RFC 3339.\<close>

definition scans_datetime :: "(string \<Rightarrow> string) \<Rightarrow> bool" where
  "scans_datetime scan \<longleftrightarrow> (\<forall>t. scan (FormatDateTime t) \<in> {FormatDateTime t, FormatRFC3339 t})"

lemma parse_created_scan:
  assumes "scans_datetime scan" "stamp_ok t"
  shows "parse_created (scan (FormatDateTime t)) = Some (t div second * second)"
proof -
  have "scan (FormatDateTime t) = FormatDateTime t \<or> scan (FormatDateTime t) = FormatRFC3339 t"
    using assms(1) unfolding scans_datetime_def by blast
  then show ?thesis
    using assms(2) by (auto simp: parse_created_def ParseRFC3339_Format ParseRFC3339_FormatDateTime ParseDateTime_Format)
qed

text \<open>A row is live when its key is stored under this hash, with this result, at this second.\<close>

definition key_stored :: "db \<Rightarrow> string \<Rightarrow> string \<Rightarrow> string \<Rightarrow> instant \<Rightarrow> bool" where
  "key_stored d key paramsHash res t \<longleftrightarrow>
     (\<exists>row. map_of (idempotency_keys d) key = Some row \<and> ik_params_hash row = paramsHash \<and> ik_result row = res \<and>
        ik_created_at row = FormatDateTime t)"

lemma Store_result:
  assumes "Store constraint key toolName paramsHash res sessionKey d = (r, d')"
  shows "case r of None \<Rightarrow> key_stored d' key paramsHash res (db_now d') \<and> map_of (idempotency_keys d) key = None \<and>
      (\<forall>k. k \<noteq> key \<longrightarrow> map_of (idempotency_keys d') k = map_of (idempotency_keys d) k)
    | Some e \<Rightarrow> idempotency_keys d' = idempotency_keys d"
proof (cases "driver_call d")
  case (Pair e d1)
  have same: "idempotency_keys d1 = idempotency_keys d" using tables_eqD(5) [OF driver_call_tables [OF Pair]] .
  show ?thesis
    using assms Pair same
    by (auto simp: Store_def key_stored_def insert_key_def CURRENT_TIMESTAMP_def map_add_def split: option.splits if_splits)
qed

lemma Check_stored:
  assumes st: "key_stored d key h res t" and scan: "scans_datetime scan" "stamp_ok t"
    and ck: "Check scan perr s now key paramsHash d = ((c, e), d')"
  shows "(e = None \<and> \<not> Found c \<and> time_Sub now (t div second * second) > is_ttl s \<and> h = paramsHash) \<or>
    (e = None \<and> Found c \<and> \<not> HashMismatch c \<and> CachedResult c = res \<and>
       \<not> time_Sub now (t div second * second) > is_ttl s \<and> h = paramsHash \<and> tables d' = tables d) \<or>
    (e \<noteq> None \<and> CachedResult c = [] \<and> tables d' = tables d \<and> (h \<noteq> paramsHash \<or> fst (driver_call d) \<noteq> None))"
proof -
  obtain row where row: "map_of (idempotency_keys d) key = Some row" "ik_params_hash row = h" "ik_result row = res"
    "ik_created_at row = FormatDateTime t" using st unfolding key_stored_def by blast
  obtain e1 d1 where dc: "driver_call d = (e1, d1)" by (cases "driver_call d")
  have t1: "tables d1 = tables d" using driver_call_tables [OF dc] .
  then have k1: "idempotency_keys d1 = idempotency_keys d" by (rule tables_eqD(5))
  show ?thesis
    using ck row k1 t1 dc parse_created_scan [OF scan]
    by (cases e1) (auto simp: Check_def sql_query_def no_result_def split: if_splits)
qed

lemma mismatch_text:
  "Contains (''idempotency key '' @ key @ '' reused with different parameters'') ''reused with different parameters''"
  unfolding Contains_iff by (rule exI [of _ "''idempotency key '' @ key @ '' ''"], rule exI [of _ "[]"]) simp

text \<open>
  \<^bold>\<open>C19.\<close> A stored result is replayed: after a store that reported success, and as long as the row of
  the key has not been removed or changed in between (the periodic cleanup removes rows, and east of
  Greenwich it removes some before their time, as \<open>CleanupExpired_exact\<close> below makes precise), a check that reaches the database returns the stored result when the hash
  agrees and the time to live has not passed, treats the key as new when it has passed, and reports the
  mismatch, and never the cached result, when the hash differs; a store for a key that has a row fails
  and changes nothing.
\<close>

theorem Store_Check:
  assumes st: "Store constraint key toolName h res sessionKey d = (None, d1)" and "stamp_ok (db_now d1)"
    and scan: "scans_datetime scan" and same: "map_of (idempotency_keys d2) key = map_of (idempotency_keys d1) key"
    and up: "fst (driver_call d2) = None"
    and ck: "Check scan perr s now key paramsHash d2 = ((c, e), d3)"
    and age: "age = time_Sub now (db_now d1 div second * second)"
  shows "(h = paramsHash \<and> age \<le> is_ttl s \<longrightarrow> e = None \<and> Found c \<and> \<not> HashMismatch c \<and> CachedResult c = res \<and> tables d3 = tables d2) \<and>
    (h = paramsHash \<and> age > is_ttl s \<longrightarrow> e = None \<and> \<not> Found c) \<and>
    (h \<noteq> paramsHash \<longrightarrow> IsIdempotencyHashMismatch e \<and> CachedResult c = [] \<and> tables d3 = tables d2) \<and>
    (\<forall>c' tn h' r' sk' e' d4. Store c' key tn h' r' sk' d2 = (e', d4) \<longrightarrow> e' \<noteq> None \<and> tables d4 = tables d2)"
proof -
  have k: "key_stored d2 key h res (db_now d1)"
    using Store_result [OF st] same by (simp add: key_stored_def)
  note c = Check_stored [OF k scan assms(2) ck]
  obtain d2' where dc: "driver_call d2 = (None, d2')" using up by (cases "driver_call d2") auto
  have t: "tables d2' = tables d2" using driver_call_tables [OF dc] .
  note k2 = tables_eqD(5) [OF t]
  have mis: "IsIdempotencyHashMismatch e" if "h \<noteq> paramsHash"
  proof -
    have "e = Some (ErrorNew (''idempotency key '' @ key @ '' reused with different parameters''))"
      using ck k that dc k2 by (auto simp: Check_def sql_query_def key_stored_def)
    then show ?thesis unfolding IsIdempotencyHashMismatch_def using mismatch_text by (simp only: option.case error_msg.simps)
  qed
  have store: "e' \<noteq> None \<and> tables d4 = tables d2" if "Store c' key tn h' r' sk' d2 = (e', d4)" for c' tn h' r' sk' e' d4
    using that k dc k2 t by (auto simp: Store_def key_stored_def split: if_splits)
  have "e = None \<and> Found c \<and> \<not> HashMismatch c \<and> CachedResult c = res \<and> tables d3 = tables d2" if "h = paramsHash" "age \<le> is_ttl s"
    using c that up unfolding age by simp
  moreover have "e = None \<and> \<not> Found c" if "h = paramsHash" "age > is_ttl s" using c that up unfolding age by simp
  moreover have "CachedResult c = [] \<and> tables d3 = tables d2" if "h \<noteq> paramsHash" using c that by simp
  ultimately show ?thesis using mis store by blast
qed

text \<open>A session that stores a result on the first of January 2026 and checks it an hour later.\<close>

definition sample_idem :: db where
  "sample_idem = empty_db (1767225600 * second)"

definition sample_idem_stored :: db where
  "sample_idem_stored = snd (Store EOF ''k1'' ''send_email'' ''h'' ''sent'' ''telegram:1'' sample_idem)"

lemma sample_stamp: "stamp_ok (1767225600 * second)"
  by code_simp

lemma Store_Check_witness:
  "CachedResult (fst (fst (Check id (\<lambda>_. EOF) (NewIdempotencyStore (24 * hour)) (1767229200 * second) ''k1'' ''h'' sample_idem_stored))) = ''sent'' \<and>
   IsIdempotencyHashMismatch (snd (fst (Check id (\<lambda>_. EOF) (NewIdempotencyStore (24 * hour)) (1767229200 * second) ''k1'' ''x'' sample_idem_stored)))"
proof -
  let ?s = "NewIdempotencyStore (24 * hour)" and ?now = "1767229200 * second"
  have st: "Store EOF ''k1'' ''send_email'' ''h'' ''sent'' ''telegram:1'' sample_idem = (None, sample_idem_stored)"
    by (simp add: sample_idem_stored_def sample_idem_def Store_def empty_db_def)
  have now: "db_now sample_idem_stored = 1767225600 * second" and up: "fst (driver_call sample_idem_stored) = None"
    by (simp_all add: sample_idem_stored_def sample_idem_def Store_def empty_db_def insert_key_def driver_call_def)
  have scan: "scans_datetime id" by (simp add: scans_datetime_def)
  have ok: "stamp_ok (db_now sample_idem_stored)" using sample_stamp now by simp
  obtain c e d where c: "Check id (\<lambda>_. EOF) ?s ?now ''k1'' ''h'' sample_idem_stored = ((c, e), d)" by (metis surj_pair)
  obtain c' e' d' where c': "Check id (\<lambda>_. EOF) ?s ?now ''k1'' ''x'' sample_idem_stored = ((c', e'), d')" by (metis surj_pair)
  have age: "time_Sub ?now (db_now sample_idem_stored div second * second) \<le> is_ttl ?s"
    unfolding now by (simp add: NewIdempotencyStore_def time_Sub_def second_def hour_def minute_def)
  show ?thesis
    using Store_Check [OF st ok scan refl up c refl] Store_Check [OF st ok scan refl up c' refl] age c c' by simp
qed

lemma CleanupExpired_subset:
  assumes "CleanupExpired zone s now d = (r, d')"
  shows "set (idempotency_keys d') \<subseteq> set (idempotency_keys d)"
proof -
  obtain e d1 where dc: "driver_call d = (e, d1)" by (cases "driver_call d")
  note k1 = tables_eqD(5) [OF driver_call_tables [OF dc]]
  let ?d2 = "delete_before (cutoff_text zone (now - is_ttl s)) d1"
  obtain e2 d3 where dc2: "driver_call ?d2 = (e2, d3)" by (cases "driver_call ?d2")
  note k2 = tables_eqD(5) [OF driver_call_tables [OF dc2]]
  show ?thesis
    using assms dc dc2 k1 k2
    by (auto simp: CleanupExpired_def delete_before_def Let_def split: option.splits)
qed

text \<open>
  What a cleanup deletes. The cutoff is formatted in local time and compared with timestamps in
  UTC, so the rows kept are exactly those of the second \<open>(now - ttl) + zone\<close> or later. West of UTC no
  row is deleted before it expires; east of UTC the rows of the last \<open>zone\<close> seconds before their expiry
  are deleted although a check would still replay them.
\<close>

theorem CleanupExpired_exact:
  assumes run: "CleanupExpired zone s now d = (r, d')" and up: "fst (driver_call d) = None"
    and cut: "cutoff = now - is_ttl s" "stamp_ok (cutoff + zone cutoff * second)" and ttl: "int64 (is_ttl s)" "is_ttl s \<noteq> 2 ^ 63 - 1"
    and row: "(k, row) \<in> set (idempotency_keys d)" "ik_created_at row = FormatDateTime t" "stamp_ok t"
  shows "((k, row) \<in> set (idempotency_keys d') \<longleftrightarrow> cutoff div second + zone cutoff \<le> t div second) \<and>
    (zone cutoff \<le> 0 \<longrightarrow> (k, row) \<notin> set (idempotency_keys d') \<longrightarrow> time_Sub now (t div second * second) > is_ttl s) \<and>
    (cutoff div second < t div second \<longrightarrow> t div second < cutoff div second + zone cutoff \<longrightarrow>
       (k, row) \<notin> set (idempotency_keys d') \<and> \<not> time_Sub now (t div second * second) > is_ttl s) \<and>
    (\<forall>n. r = Inr n \<longrightarrow> n = int (length (idempotency_keys d)) - int (length (idempotency_keys d')))"
proof -
  have pos: "0 < second" by (simp add: second_def)
  obtain d1 where dc: "driver_call d = (None, d1)" using up by (cases "driver_call d") auto
  note k1 = tables_eqD(5) [OF driver_call_tables [OF dc]]
  let ?d2 = "delete_before (cutoff_text zone cutoff) d1"
  obtain e2 d3 where dc2: "driver_call ?d2 = (e2, d3)" by (cases "driver_call ?d2")
  note k2 = tables_eqD(5) [OF driver_call_tables [OF dc2]]
  have d': "idempotency_keys d' = idempotency_keys ?d2" "\<forall>n. r = Inr n \<longrightarrow> n = int (length (idempotency_keys d)) - int (length (idempotency_keys d'))"
    using run dc dc2 k1 k2 unfolding CleanupExpired_def cut(1) [symmetric] by (auto simp: Let_def split: option.splits)
  have sec: "(cutoff + zone cutoff * second) div second = cutoff div second + zone cutoff" using pos by simp
  have kept: "(k, row) \<in> set (idempotency_keys d') \<longleftrightarrow> cutoff div second + zone cutoff \<le> t div second"
    using row k1 FormatDateTime_order [OF row(3) cut(2)] by (auto simp: d' delete_before_def cutoff_text_def sec)
  have exp: "time_Sub now (t div second * second) > is_ttl s \<longleftrightarrow> t div second * second < cutoff"
    using ttl by (auto simp: time_Sub_def cut(1) int64_def)
  have le: "c div second * second \<le> c" "c < (c div second + 1) * second" for c
    using div_mult_mod_eq [of c second] pos_mod_sign [OF pos, of c] pos_mod_bound [OF pos, of c]
    unfolding distrib_right by linarith+
  have old: "t div second * second < cutoff" if "t div second < cutoff div second"
  proof -
    have "(t div second + 1) * second \<le> cutoff div second * second" using that pos by (intro mult_right_mono) simp_all
    then show ?thesis using le [of cutoff] pos by (simp add: algebra_simps)
  qed
  have new: "\<not> t div second * second < cutoff" if "cutoff div second < t div second"
  proof -
    have "(cutoff div second + 1) * second \<le> t div second * second" using that pos by (intro mult_right_mono) simp_all
    then show ?thesis using le [of cutoff] by linarith
  qed
  show ?thesis using kept exp old new d'(2) by auto
qed

text \<open>Berlin in winter: a row stored half an hour before its expiry is deleted.\<close>

definition sample_idem_new :: db where
  "sample_idem_new = sample_idem_stored\<lparr>db_now := 1767310200 * second\<rparr>"

lemma CleanupExpired_exact_witness:
  "map_of (idempotency_keys (snd (CleanupExpired (\<lambda>_. 3600) (NewIdempotencyStore (24 * hour)) (1767310200 * second) sample_idem_new))) ''k1'' = None \<and>
   \<not> time_Sub (1767310200 * second) (1767225600 * second) > 24 * hour"
proof -
  let ?s = "NewIdempotencyStore (24 * hour)" and ?now = "1767310200 * second"
  define row where "row = \<lparr>ik_tool_name = ''send_email'', ik_params_hash = ''h'', ik_result = ''sent'',
    ik_session_key = ''telegram:1'', ik_created_at = FormatDateTime (1767225600 * second)\<rparr>"
  have keys: "idempotency_keys sample_idem_new = [(''k1'', row)]" and up: "fst (driver_call sample_idem_new) = None"
    by (simp_all add: sample_idem_new_def sample_idem_stored_def sample_idem_def Store_def empty_db_def insert_key_def
        CURRENT_TIMESTAMP_def row_def driver_call_def)
  obtain r d where run: "CleanupExpired (\<lambda>_. 3600) ?s ?now sample_idem_new = (r, d)" by (metis surj_pair)
  have ok: "stamp_ok ((?now - is_ttl ?s) + (\<lambda>_. 3600) (?now - is_ttl ?s) * second)" by code_simp
  have sec: "?now div second = 1767310200" "(1767225600 * second) div second = 1767225600" "(?now - 24 * hour) div second = 1767223800"
    by (simp_all add: second_def hour_def minute_def)
  have "(''k1'', row) \<notin> set (idempotency_keys d) \<and> \<not> time_Sub ?now (1767225600 * second div second * second) > is_ttl ?s"
    using CleanupExpired_exact [OF run up refl ok, of "''k1''" row "1767225600 * second"] sample_stamp keys sec
    by (simp add: NewIdempotencyStore_def row_def second_def hour_def minute_def int64_def)
  moreover have "set (idempotency_keys d) \<subseteq> {(''k1'', row)}"
  proof -
    have "set (idempotency_keys d) \<subseteq> set (idempotency_keys sample_idem_new)" by (rule CleanupExpired_subset [OF run])
    then show ?thesis using keys by simp
  qed
  ultimately have "idempotency_keys d = []" by (cases "idempotency_keys d") auto
  then show ?thesis using run \<open>_ \<and> _\<close> sec by (simp add: NewIdempotencyStore_def time_Sub_def second_def hour_def minute_def)
qed

end
