(* ===== verification/Pairing.thy ===== *)
theory Pairing
  imports Bot Database GoTime_Laws
begin

text \<open>
  The gate for unknown chats: the store of authorized chats and pairing codes of
  \<^verbatim>\<open>internal/context/pairing.go\<close>, the handler that guards another handler with it,
  \<^verbatim>\<open>internal/bot/pairing_handler.go\<close>, the promotion of the configured whitelist at the start
  (\<^verbatim>\<open>internal/app/app_setup.go\<close>) and the operator's command \<^verbatim>\<open>gobot authorize\<close>
  (\<^verbatim>\<open>cmd/gobot/auth.go\<close>). \<open>rand\<close> is the number drawn from \<^verbatim>\<open>crypto/rand\<close> or its error, \<open>constraint\<close> the
  driver's error for a second row with the same primary key, and \<open>pick\<close> the row a \<^verbatim>\<open>LIMIT 1\<close> without an
  order returns.
\<close>

section \<open>Store\<close>

definition NewPairingStore :: "db \<Rightarrow> go_error option \<times> db" where
  "NewPairingStore d =
     (case sql_exec id d of
        (Some e, d1) \<Rightarrow> (Some (wrap_err ''init pairing schema'' e), d1)
      | (None, d1) \<Rightarrow> (None, d1))"

definition IsAuthorized :: "int \<Rightarrow> db \<Rightarrow> bool result \<times> db" where
  "IsAuthorized chatID d =
     (case sql_query (\<lambda>d. length (filter (\<lambda>(c, r). c = chatID) (authorized_users d))) d of
        (Inl e, d1) \<Rightarrow> (Inl (wrap_err ''query authorized users'' e), d1)
      | (Inr count, d1) \<Rightarrow> (Inr (count > 0), d1))"

definition CountAuthorized :: "db \<Rightarrow> int result \<times> db" where
  "CountAuthorized d =
     (case sql_query (\<lambda>d. int (length (authorized_users d))) d of
        (Inl e, d1) \<Rightarrow> (Inl (wrap_err ''count authorized users'' e), d1)
      | (Inr count, d1) \<Rightarrow> (Inr count, d1))"

text \<open>A code is valid while \<^verbatim>\<open>expires_at > datetime('now')\<close>, a comparison of texts.\<close>

definition code_valid :: "db \<Rightarrow> code_row \<Rightarrow> bool" where
  "code_valid d r \<longleftrightarrow> text_less (CURRENT_TIMESTAMP d) (pc_expires_at r)"

definition valid_codes :: "int \<Rightarrow> db \<Rightarrow> string list" where
  "valid_codes chatID d = map fst (filter (\<lambda>(c, r). pc_chat_id r = chatID \<and> code_valid d r) (pairing_codes d))"

definition delete_expired :: "int \<Rightarrow> db \<Rightarrow> db" where
  "delete_expired chatID d =
     d\<lparr>pairing_codes := filter (\<lambda>(c, r). \<not> (pc_chat_id r = chatID \<and> \<not> code_valid d r)) (pairing_codes d)\<rparr>"

definition insert_code :: "string \<Rightarrow> int \<Rightarrow> db \<Rightarrow> db" where
  "insert_code code chatID d =
     d\<lparr>pairing_codes := pairing_codes d @
        [(code, \<lparr>pc_chat_id = chatID, pc_created_at = CURRENT_TIMESTAMP d,
                 pc_expires_at = FormatDateTime (db_now d + 24 * hour)\<rparr>)]\<rparr>"

definition new_code :: "go_error \<Rightarrow> int result \<Rightarrow> int \<Rightarrow> db \<Rightarrow> string result \<times> db" where
  "new_code constraint rand chatID d =
     (case rand of
        Inl e \<Rightarrow> (Inl (wrap_err ''pairing: generate code'' e), d)
      | Inr n \<Rightarrow>
          (case driver_call d of
             (Some e, d1) \<Rightarrow> (Inl (wrap_err ''insert pairing code'' e), d1)
           | (None, d1) \<Rightarrow>
               if map_of (pairing_codes d1) (pad 6 n) \<noteq> None
               then (Inl (wrap_err ''insert pairing code'' constraint), d1)
               else (Inr (pad 6 n), insert_code (pad 6 n) chatID d1)))"

definition GetOrCreateCode ::
  "(string list \<Rightarrow> string) \<Rightarrow> go_error \<Rightarrow> int result \<Rightarrow> int \<Rightarrow> db \<Rightarrow> string result \<times> db" where
  "GetOrCreateCode pick constraint rand chatID d =
     (case sql_query (valid_codes chatID) d of
        (Inl e, d1) \<Rightarrow> (Inl (wrap_err ''query pairing code'' e), d1)
      | (Inr codes, d1) \<Rightarrow>
          if codes \<noteq> [] then (Inr (pick codes), d1)
          else
            (case sql_exec (delete_expired chatID) d1 of
               (Some e, d2) \<Rightarrow> (Inl (wrap_err ''delete expired codes'' e), d2)
             | (None, d2) \<Rightarrow> new_code constraint rand chatID d2))"

definition authorize_chat :: "int \<Rightarrow> string \<Rightarrow> db \<Rightarrow> db" where
  "authorize_chat chatID by' d =
     d\<lparr>authorized_users := AList.update chatID \<lparr>au_authorized_at = CURRENT_TIMESTAMP d, au_authorized_by = by'\<rparr>
        (authorized_users d)\<rparr>"

definition delete_code :: "string \<Rightarrow> db \<Rightarrow> db" where
  "delete_code code d = d\<lparr>pairing_codes := filter (\<lambda>(c, r). c \<noteq> code) (pairing_codes d)\<rparr>"

definition code_chat :: "string \<Rightarrow> db \<Rightarrow> int option" where
  "code_chat code d =
     (case map_of (pairing_codes d) code of
        None \<Rightarrow> None
      | Some r \<Rightarrow> if code_valid d r then Some (pc_chat_id r) else None)"

definition AuthorizeByCode :: "string \<Rightarrow> db \<Rightarrow> int result \<times> db" where
  "AuthorizeByCode code d =
     (case sql_query (code_chat code) d of
        (Inl e, d1) \<Rightarrow> (Inl (wrap_err ''query chat id by code'' e), d1)
      | (Inr None, d1) \<Rightarrow> (Inl (ErrorNew (''pairing: code '' @ Quote code @ '' not found or expired'')), d1)
      | (Inr (Some chatID), d1) \<Rightarrow>
          (case sql_exec (authorize_chat chatID []) d1 of
             (Some e, d2) \<Rightarrow> (Inl (wrap_err ''insert authorized user'' e), d2)
           | (None, d2) \<Rightarrow> (Inr chatID, snd (sql_exec (delete_code code) d2))))"

definition AuthorizeByChatID :: "int \<Rightarrow> string \<Rightarrow> db \<Rightarrow> go_error option \<times> db" where
  "AuthorizeByChatID chatID by' d =
     (case sql_exec (authorize_chat chatID by') d of
        (Some e, d1) \<Rightarrow> (Some (wrap_err ''authorize by chat id'' e), d1)
      | (None, d1) \<Rightarrow> (None, d1))"

section \<open>Gate\<close>

record 'w PairingStorer =
  ps_IsAuthorized :: "int \<Rightarrow> 'w \<Rightarrow> bool result \<times> 'w"
  ps_GetOrCreateCode :: "int \<Rightarrow> 'w \<Rightarrow> string result \<times> 'w"

definition nl :: char where "nl = CHR 0x0A"

definition pairing_reply :: "string \<Rightarrow> string" where
  "pairing_reply code =
     ''You are not authorized to use this bot.'' @ [nl, nl] @ ''Your pairing code is: '' @ code @ [nl, nl] @
     ''Give this code to the operator to request access.''"

definition Pairing_Handle ::
  "'w PairingStorer \<Rightarrow> 'w Handler \<Rightarrow> string \<Rightarrow> InboundMessage \<Rightarrow> 'w \<Rightarrow> string result \<times> 'w" where
  "Pairing_Handle store inner sessionKey msg w =
     (case ps_IsAuthorized store (im_ChatID msg) w of
        (Inl e, w1) \<Rightarrow> (Inl (wrap_err ''is authorized'' e), w1)
      | (Inr True, w1) \<Rightarrow>
          (case ha_Handle inner sessionKey msg w1 of
             (Inl e, w2) \<Rightarrow> (Inl (wrap_err ''inner handle'' e), w2)
           | (Inr resp, w2) \<Rightarrow> (Inr resp, w2))
      | (Inr False, w1) \<Rightarrow>
          (case ps_GetOrCreateCode store (im_ChatID msg) w1 of
             (Inl e, w2) \<Rightarrow> (Inl (wrap_err ''get or create code'' e), w2)
           | (Inr code, w2) \<Rightarrow> (Inr (pairing_reply code), w2)))"

definition Pairing_HandleCallback ::
  "'w PairingStorer \<Rightarrow> 'w Handler \<Rightarrow> InboundCallback \<Rightarrow> 'w \<Rightarrow> go_error option \<times> 'w" where
  "Pairing_HandleCallback store inner cb w =
     (case ps_IsAuthorized store (cb_ChatID cb) w of
        (Inl e, w1) \<Rightarrow> (Some (wrap_err ''check authorization'' e), w1)
      | (Inr False, w1) \<Rightarrow> (Some (ErrorNew (''unauthorized callback from '' @ Itoa (cb_ChatID cb))), w1)
      | (Inr True, w1) \<Rightarrow>
          (case ha_HandleCallback inner cb w1 of
             (Some e, w2) \<Rightarrow> (Some (wrap_err ''inner callback'' e), w2)
           | (None, w2) \<Rightarrow> (None, w2)))"

definition NewPairingHandler :: "'w PairingStorer \<Rightarrow> 'w Handler \<Rightarrow> 'w Handler" where
  "NewPairingHandler store inner =
     \<lparr>ha_Handle = Pairing_Handle store inner, ha_HandleCallback = Pairing_HandleCallback store inner\<rparr>"

text \<open>A program state is the database with the rest of the world; \<open>on_db\<close> runs a store operation on it.\<close>

definition on_db :: "(db \<Rightarrow> 'a \<times> db) \<Rightarrow> db \<times> 'w \<Rightarrow> 'a \<times> (db \<times> 'w)" where
  "on_db f w = (case f (fst w) of (a, d) \<Rightarrow> (a, d, snd w))"

definition PairingStore ::
  "(string list \<Rightarrow> string) \<Rightarrow> go_error \<Rightarrow> ('w \<Rightarrow> int result) \<Rightarrow> (db \<times> 'w) PairingStorer" where
  "PairingStore pick constraint rand =
     \<lparr>ps_IsAuthorized = (\<lambda>c. on_db (IsAuthorized c)),
      ps_GetOrCreateCode = (\<lambda>c w. on_db (GetOrCreateCode pick constraint (rand (snd w)) c) w)\<rparr>"

section \<open>Start and operator\<close>

text \<open>\<open>has_manager\<close> is whether the process has a checkpoint manager as its store.\<close>

definition SetupGateHandler ::
  "bool \<Rightarrow> (db \<times> 'w) PairingStorer \<Rightarrow> (db \<times> 'w) Handler \<Rightarrow> db \<times> 'w \<Rightarrow> (db \<times> 'w) Handler \<times> (db \<times> 'w)" where
  "SetupGateHandler has_manager store handler w =
     (if \<not> has_manager then (handler, w)
      else (case on_db NewPairingStore w of
              (Some e, w1) \<Rightarrow> (handler, w1)
            | (None, w1) \<Rightarrow> (NewPairingHandler store handler, w1)))"

definition ParseTelegramChatID :: "string \<Rightarrow> int result" where
  "ParseTelegramChatID raw =
     (case ParseInt raw of
        Inl e \<Rightarrow> Inl (wrap_err ''channels.telegram.allowFrom: invalid chat ID'' e)
      | Inr id' \<Rightarrow> if id' = 0 then Inl (ErrorNew ''channels.telegram.allowFrom: chat ID must be nonzero'') else Inr id')"

fun reconcile_ids :: "string list \<Rightarrow> int \<Rightarrow> db \<Rightarrow> int \<times> db" where
  "reconcile_ids [] reconciled d = (reconciled, d)"
| "reconcile_ids (raw # raws) reconciled d =
     (case ParseTelegramChatID raw of
        Inl e \<Rightarrow> reconcile_ids raws reconciled d
      | Inr chatID \<Rightarrow>
          (case IsAuthorized chatID d of
             (Inl e, d1) \<Rightarrow> reconcile_ids raws reconciled d1
           | (Inr True, d1) \<Rightarrow> reconcile_ids raws reconciled d1
           | (Inr False, d1) \<Rightarrow>
               (case AuthorizeByChatID chatID ''allowFrom-reconcile'' d1 of
                  (Some e, d2) \<Rightarrow> reconcile_ids raws reconciled d2
                | (None, d2) \<Rightarrow> reconcile_ids raws (reconciled + 1) d2)))"

definition ReconcileAuthorizedFromAllowFrom :: "bool \<Rightarrow> string list \<Rightarrow> db \<Rightarrow> int \<times> db" where
  "ReconcileAuthorizedFromAllowFrom has_manager allowFrom d =
     (if \<not> has_manager then (0, d)
      else (case NewPairingStore d of
              (Some e, d1) \<Rightarrow> (0, d1)
            | (None, d1) \<Rightarrow> reconcile_ids allowFrom 0 d1))"

text \<open>\<^verbatim>\<open>gobot authorize\<close> after the store has been opened.\<close>

definition cmdAuthorize :: "string \<Rightarrow> db \<Rightarrow> go_error option \<times> db" where
  "cmdAuthorize arg d =
     (case NewPairingStore d of
        (Some e, d1) \<Rightarrow> (Some (wrap_err ''pairing store'' e), d1)
      | (None, d1) \<Rightarrow>
          (case AuthorizeByCode arg d1 of
             (Inr chatID, d2) \<Rightarrow> (None, d2)
           | (Inl _, d2) \<Rightarrow>
               (case ParseInt arg of
                  Inl _ \<Rightarrow> (Some (ErrorNew (''authorize: '' @ Quote arg @ '' is not a valid pairing code or numeric chat ID'')), d2)
                | Inr chatID \<Rightarrow>
                    (case AuthorizeByChatID chatID ''operator'' d2 of
                       (Some e, d3) \<Rightarrow> (Some (wrap_err ''authorize'' e), d3)
                     | (None, d3) \<Rightarrow> (None, d3)))))"

section \<open>Laws of the store\<close>

definition authorized :: "db \<Rightarrow> int \<Rightarrow> bool" where
  "authorized d chatID \<longleftrightarrow> chatID \<in> fst ` set (authorized_users d)"

lemma authorized_tables: "tables d = tables d' \<Longrightarrow> authorized d = authorized d'"
  by (simp add: authorized_def fun_eq_iff tables_eqD(6) [of d d'])

lemma authorized_update [simp]:
  "authorized (authorize_chat chatID by' d) c \<longleftrightarrow> c = chatID \<or> authorized d c"
  "pairing_codes (authorize_chat chatID by' d) = pairing_codes d"
  by (auto simp: authorize_chat_def authorized_def dom_update)

lemma authorized_codes [simp]: "authorized (d\<lparr>pairing_codes := cs\<rparr>) = authorized d"
  by (simp add: authorized_def fun_eq_iff)

text \<open>A statement that only deletes pairing codes.\<close>

lemma delete_codes_law:
  assumes "sql_exec f d = (e, d')" and "\<And>d. authorized (f d) = authorized d"
    and "\<And>d. set (pairing_codes (f d)) \<subseteq> set (pairing_codes d)"
  shows "authorized d' = authorized d \<and> set (pairing_codes d') \<subseteq> set (pairing_codes d)"
  using assms(1)
proof (cases rule: sql_exec_cases)
  case (failed e')
  then show ?thesis using tables_eqD(7) [OF failed(2)] authorized_tables [OF failed(2)] by simp
next
  case (ok d0)
  then show ?thesis using assms(2,3) tables_eqD(7) [OF ok(2)] authorized_tables [OF ok(2)] by metis
qed

lemma IsAuthorized_law:
  assumes "IsAuthorized chatID d = (r, d')"
  shows "tables d' = tables d" "r = Inr b \<Longrightarrow> b = authorized d chatID"
proof -
  obtain q d1 where q: "sql_query (\<lambda>d. length (filter (\<lambda>(c, r). c = chatID) (authorized_users d))) d = (q, d1)"
    by (cases "sql_query (\<lambda>d. length (filter (\<lambda>(c, r). c = chatID) (authorized_users d))) d")
  then have t: "tables d1 = tables d" by (rule sql_query_tables)
  then show "tables d' = tables d" using assms q by (cases q) (auto simp: IsAuthorized_def)
  show "b = authorized d chatID" if "r = Inr b"
  proof (cases q)
    case (Inr n)
    then have "n = length (filter (\<lambda>(c, r). c = chatID) (authorized_users d))"
      using sql_query_result [OF q [unfolded Inr]] tables_eqD(6) [OF t] by simp
    then have "b \<longleftrightarrow> filter (\<lambda>(c, r). c = chatID) (authorized_users d) \<noteq> []"
      using assms q Inr that by (auto simp: IsAuthorized_def)
    then show ?thesis by (force simp: authorized_def filter_empty_conv)
  qed (use assms q that in \<open>simp add: IsAuthorized_def\<close>)
qed

lemma new_code_law:
  assumes "new_code constraint rand chatID d = (r, d')"
  shows "authorized d' = authorized d \<and>
    (pairing_codes d' = pairing_codes d \<or>
     (\<exists>code row. r = Inr code \<and> pairing_codes d' = pairing_codes d @ [(code, row)] \<and> pc_chat_id row = chatID \<and>
        pc_expires_at row = FormatDateTime (db_now d' + 24 * hour)))"
proof -
  obtain e d1 where dc: "driver_call d = (e, d1)" by (cases "driver_call d")
  have t: "tables d1 = tables d" using driver_call_tables [OF dc] .
  show ?thesis
    using assms dc tables_eqD(7) [OF t] authorized_tables [OF t]
    by (auto simp: new_code_def insert_code_def split: sum.splits option.splits if_splits)
qed

lemma GetOrCreateCode_law:
  assumes "GetOrCreateCode pick constraint rand chatID d = (r, d')"
  shows "authorized d' = authorized d \<and> (\<forall>p \<in> set (pairing_codes d'). p \<in> set (pairing_codes d) \<or>
     (r = Inr (fst p) \<and> pc_chat_id (snd p) = chatID \<and> pc_expires_at (snd p) = FormatDateTime (db_now d' + 24 * hour)))"
proof -
  obtain q d1 where q: "sql_query (valid_codes chatID) d = (q, d1)" by (cases "sql_query (valid_codes chatID) d")
  note t1 = sql_query_tables [OF q]
  note k1 = tables_eqD(7) [OF t1] and a1 = authorized_tables [OF t1]
  obtain e d2 where x: "sql_exec (delete_expired chatID) d1 = (e, d2)" by (cases "sql_exec (delete_expired chatID) d1")
  have 2: "authorized d2 = authorized d1 \<and> set (pairing_codes d2) \<subseteq> set (pairing_codes d1)"
    by (rule delete_codes_law [OF x]) (auto simp: delete_expired_def)
  show ?thesis
  proof (cases "(\<exists>codes. q = Inr codes \<and> codes = []) \<and> e = None")
    case True
    then have n: "new_code constraint rand chatID d2 = (r, d')" using assms q x by (auto simp: GetOrCreateCode_def)
    show ?thesis using new_code_law [OF n] 2 k1 a1 by auto
  next
    case False
    then have "d' = d1 \<or> d' = d2" using assms q x by (auto simp: GetOrCreateCode_def split: sum.splits if_splits option.splits)
    then show ?thesis using 2 k1 a1 by auto
  qed
qed

lemma AuthorizeByCode_law:
  assumes "AuthorizeByCode code d = (r, d')"
  shows "set (pairing_codes d') \<subseteq> set (pairing_codes d) \<and>
    (\<forall>c. authorized d' c \<longrightarrow> authorized d c \<or> (r = Inr c \<and> (\<exists>row. (code, row) \<in> set (pairing_codes d) \<and> pc_chat_id row = c \<and>
       text_less (FormatDateTime (db_now (snd (driver_call d)))) (pc_expires_at row))))"
proof -
  obtain q d1 where q: "sql_query (code_chat code) d = (q, d1)" by (cases "sql_query (code_chat code) d")
  note t1 = sql_query_tables [OF q]
  note k1 = tables_eqD(7) [OF t1] and a1 = authorized_tables [OF t1]
  have now: "db_now d1 = db_now (snd (driver_call d))" using q by (auto simp: sql_query_def split: prod.splits option.splits)
  show ?thesis
  proof (cases "\<exists>c. q = Inr (Some c)")
    case False
    then have "d' = d1" using assms q by (auto simp: AuthorizeByCode_def split: sum.splits option.splits)
    then show ?thesis using k1 a1 by simp
  next
    case True
    then obtain c where c: "q = Inr (Some c)" by auto
    then have "code_chat code d1 = Some c" using sql_query_result q by metis
    then obtain row where row: "map_of (pairing_codes d1) code = Some row" "code_valid d1 row" "pc_chat_id row = c"
      by (auto simp: code_chat_def split: option.splits if_splits)
    have mem: "(code, row) \<in> set (pairing_codes d)" using map_of_SomeD [OF row(1)] k1 by simp
    obtain e d2 where x: "sql_exec (authorize_chat c []) d1 = (e, d2)" by (cases "sql_exec (authorize_chat c []) d1")
    obtain e3 d3 where y: "sql_exec (delete_code code) d2 = (e3, d3)" by (cases "sql_exec (delete_code code) d2")
    have d3: "authorized d3 = authorized d2 \<and> set (pairing_codes d3) \<subseteq> set (pairing_codes d2)"
      by (rule delete_codes_law [OF y]) (auto simp: delete_code_def)
    from x show ?thesis
    proof (cases rule: sql_exec_cases)
      case (failed e')
      then have "d' = d2" using assms q c x by (auto simp: AuthorizeByCode_def)
      then show ?thesis using tables_eqD(7) [OF failed(2)] authorized_tables [OF failed(2)] k1 a1 by simp
    next
      case (ok d0)
      then have r: "r = Inr c" "d' = d3" using assms q c x y by (auto simp: AuthorizeByCode_def)
      have "authorized d2 c' \<longleftrightarrow> c' = c \<or> authorized d c'" for c' using ok authorized_tables [OF ok(2)] a1 by simp
      moreover have "pairing_codes d2 = pairing_codes d" using ok tables_eqD(7) [OF ok(2)] k1 by simp
      moreover have "text_less (FormatDateTime (db_now (snd (driver_call d)))) (pc_expires_at row)"
        using row(2) now by (simp add: code_valid_def CURRENT_TIMESTAMP_def)
      ultimately show ?thesis using r d3 mem row(3) by auto
    qed
  qed
qed

lemma AuthorizeByChatID_law:
  assumes "AuthorizeByChatID chatID by' d = (r, d')"
  shows "pairing_codes d' = pairing_codes d \<and>
    (case r of None \<Rightarrow> (\<forall>c. authorized d' c \<longleftrightarrow> c = chatID \<or> authorized d c) | Some _ \<Rightarrow> authorized d' = authorized d)"
proof -
  obtain e d1 where x: "sql_exec (authorize_chat chatID by') d = (e, d1)" by (cases "sql_exec (authorize_chat chatID by') d")
  then show ?thesis
  proof (cases rule: sql_exec_cases)
    case (failed e')
    then show ?thesis using assms x tables_eqD(7) [OF failed(2)] authorized_tables [OF failed(2)]
      by (auto simp: AuthorizeByChatID_def)
  next
    case (ok d0)
    then show ?thesis using assms x tables_eqD(7) [OF ok(2)] authorized_tables [OF ok(2)]
      by (auto simp: AuthorizeByChatID_def)
  qed
qed

section \<open>Who is authorized\<close>

text \<open>The history of a store: the codes handed out, the codes used and the chats authorized by number.\<close>

datatype pairing_event =
    Issued int "string result" instant
  | UsedCode string "int result" instant
  | Direct int string "go_error option"

inductive pairing_trace :: "pairing_event list \<Rightarrow> db \<Rightarrow> bool" where
  start: "authorized_users d = [] \<Longrightarrow> pairing_codes d = [] \<Longrightarrow> pairing_trace [] d"
| issued: "pairing_trace evs d \<Longrightarrow> GetOrCreateCode pick constraint rand chatID d = (r, d') \<Longrightarrow>
    pairing_trace (Issued chatID r (db_now d') # evs) d'"
| used: "pairing_trace evs d \<Longrightarrow> AuthorizeByCode code d = (r, d') \<Longrightarrow>
    pairing_trace (UsedCode code r (db_now (snd (driver_call d))) # evs) d'"
| direct: "pairing_trace evs d \<Longrightarrow> AuthorizeByChatID chatID by' d = (r, d') \<Longrightarrow>
    pairing_trace (Direct chatID by' r # evs) d'"

definition codes_issued :: "pairing_event list \<Rightarrow> db \<Rightarrow> bool" where
  "codes_issued evs d \<longleftrightarrow> (\<forall>p \<in> set (pairing_codes d). \<exists>t. Issued (pc_chat_id (snd p)) (Inr (fst p)) t \<in> set evs \<and>
     pc_expires_at (snd p) = FormatDateTime (t + 24 * hour))"

definition chat_granted :: "pairing_event list \<Rightarrow> int \<Rightarrow> bool" where
  "chat_granted evs c \<longleftrightarrow> (\<exists>by'. Direct c by' None \<in> set evs) \<or>
     (\<exists>code t0 t. UsedCode code (Inr c) t \<in> set evs \<and> Issued c (Inr code) t0 \<in> set evs \<and>
        text_less (FormatDateTime t) (FormatDateTime (t0 + 24 * hour)))"

lemma chat_granted_more: "chat_granted evs c \<Longrightarrow> chat_granted (e # evs) c"
  unfolding chat_granted_def by auto

lemma codes_issued_more: "codes_issued evs d \<Longrightarrow> set (pairing_codes d') \<subseteq> set (pairing_codes d) \<Longrightarrow> codes_issued (e # evs) d'"
  unfolding codes_issued_def by (meson list.set_intros(2) subsetD)

lemma pairing_trace_granted:
  "pairing_trace evs d \<Longrightarrow> codes_issued evs d \<and> (\<forall>c. authorized d c \<longrightarrow> chat_granted evs c)"
proof (induction rule: pairing_trace.induct)
  case (start d)
  then show ?case by (simp add: codes_issued_def authorized_def)
next
  case (issued evs d pick constraint rand chatID r d')
  note law = GetOrCreateCode_law [OF issued(2)]
  have "codes_issued (Issued chatID r (db_now d') # evs) d'"
    unfolding codes_issued_def
  proof
    fix p assume "p \<in> set (pairing_codes d')"
    with law consider "p \<in> set (pairing_codes d)"
      | "r = Inr (fst p)" "pc_chat_id (snd p) = chatID" "pc_expires_at (snd p) = FormatDateTime (db_now d' + 24 * hour)" by blast
    then show "\<exists>t. Issued (pc_chat_id (snd p)) (Inr (fst p)) t \<in> set (Issued chatID r (db_now d') # evs) \<and>
        pc_expires_at (snd p) = FormatDateTime (t + 24 * hour)"
    proof cases
      case 1
      then show ?thesis using issued.IH unfolding codes_issued_def by (meson list.set_intros(2))
    next
      case 2
      then show ?thesis by auto
    qed
  qed
  then show ?case using issued.IH law chat_granted_more by metis
next
  case (used evs d code r d')
  let ?t = "db_now (snd (driver_call d))"
  note law = AuthorizeByCode_law [OF used(2)]
  have "chat_granted (UsedCode code r ?t # evs) c" if "authorized d' c" for c
  proof (cases "authorized d c")
    case True
    then show ?thesis using used.IH chat_granted_more by blast
  next
    case False
    then obtain row where row: "r = Inr c" "(code, row) \<in> set (pairing_codes d)" "pc_chat_id row = c"
      "text_less (FormatDateTime ?t) (pc_expires_at row)" using law \<open>authorized d' c\<close> by blast
    then obtain t0 where "Issued c (Inr code) t0 \<in> set evs" "pc_expires_at row = FormatDateTime (t0 + 24 * hour)"
      using used.IH unfolding codes_issued_def by fastforce
    then show ?thesis using row unfolding chat_granted_def by auto
  qed
  then show ?case using codes_issued_more [of evs d d'] used.IH law by blast
next
  case (direct evs d chatID by' r d')
  note law = AuthorizeByChatID_law [OF direct(2)]
  have "chat_granted (Direct chatID by' r # evs) c" if "authorized d' c" for c
  proof (cases "authorized d c")
    case True
    then show ?thesis using direct.IH chat_granted_more by blast
  next
    case False
    then have "c = chatID" "r = None" using law that by (auto split: option.splits)
    then show ?thesis unfolding chat_granted_def by auto
  qed
  moreover have "set (pairing_codes d') \<subseteq> set (pairing_codes d)" using law by simp
  ultimately show ?case using codes_issued_more [of evs d d'] direct.IH by blast
qed

text \<open>
  \<^bold>\<open>C17.\<close> Who can talk to the bot: whatever the sequence of messages, commands and database failures,
  a chat is in the table of authorized chats only if it was authorized by its number, or by a code that
  was handed out to that very chat less than 24 hours (counted in seconds) before the code was used.
\<close>

theorem authorized_by_operator:
  assumes "pairing_trace evs d" "authorized d c"
  shows "(\<exists>by'. Direct c by' None \<in> set evs) \<or>
    (\<exists>code t0 t. UsedCode code (Inr c) t \<in> set evs \<and> Issued c (Inr code) t0 \<in> set evs \<and>
       (stamp_ok t \<and> stamp_ok (t0 + 24 * hour) \<longrightarrow> t div second < (t0 + 24 * hour) div second))"
  using pairing_trace_granted [OF assms(1)] assms(2) FormatDateTime_order unfolding chat_granted_def by blast

text \<open>A chat asks, and the operator uses its code an hour later.\<close>

definition sample_pair0 :: db where "sample_pair0 = empty_db (1767225600 * second)"

lemma sample_code:
  "GetOrCreateCode hd EOF (Inr 4711) 77 sample_pair0 = (Inr ''004711'', insert_code ''004711'' 77 sample_pair0)"
proof -
  have "pad 6 4711 = ''004711''" by code_simp
  then show ?thesis
    by (simp add: GetOrCreateCode_def sample_pair0_def empty_db_def valid_codes_def delete_expired_def new_code_def)
qed

definition sample_pair2 :: db where
  "sample_pair2 = snd (AuthorizeByCode ''004711'' (insert_code ''004711'' 77 sample_pair0))"

lemma sample_use: "AuthorizeByCode ''004711'' (insert_code ''004711'' 77 sample_pair0) = (Inr 77, sample_pair2)"
proof -
  let ?d = "insert_code ''004711'' 77 sample_pair0"
  have "text_less (FormatDateTime (1767225600 * second)) (FormatDateTime (1767225600 * second + 24 * hour))" by code_simp
  then have "code_chat ''004711'' ?d = Some 77"
    by (simp add: code_chat_def insert_code_def sample_pair0_def empty_db_def code_valid_def CURRENT_TIMESTAMP_def)
  moreover have "script ?d = []" by (simp add: insert_code_def sample_pair0_def empty_db_def)
  moreover have "script (authorize_chat 77 [] ?d) = []" by (simp add: authorize_chat_def insert_code_def sample_pair0_def empty_db_def)
  ultimately show ?thesis unfolding sample_pair2_def by (simp add: AuthorizeByCode_def)
qed

lemma authorized_by_operator_witness:
  "\<exists>evs d. pairing_trace evs d \<and> authorized d 77 \<and> (\<forall>by'. Direct 77 by' None \<notin> set evs) \<and>
     (\<exists>code t. UsedCode code (Inr 77) t \<in> set evs)"
proof -
  let ?d1 = "insert_code ''004711'' 77 sample_pair0"
  have "pairing_trace [] sample_pair0" by (rule pairing_trace.start) (simp_all add: sample_pair0_def empty_db_def)
  from pairing_trace.used [OF pairing_trace.issued [OF this sample_code] sample_use]
  have tr: "pairing_trace [UsedCode ''004711'' (Inr 77) (db_now (snd (driver_call ?d1))), Issued 77 (Inr ''004711'') (db_now ?d1)] sample_pair2" .
  moreover have "authorized sample_pair2 77"
  proof -
    have "script ?d1 = []" "script (authorize_chat 77 [] ?d1) = []"
      by (simp_all add: authorize_chat_def insert_code_def sample_pair0_def empty_db_def)
    then have e: "sample_pair2 = delete_code ''004711'' (authorize_chat 77 [] ?d1)"
      using sample_use by (simp add: AuthorizeByCode_def split: option.splits)
    show ?thesis unfolding e by (simp add: delete_code_def)
  qed
  moreover note authorized_by_operator [OF tr this]
  ultimately show ?thesis by (intro exI conjI) auto
qed

section \<open>The gate\<close>

text \<open>
  What the gate relies on: the check tells whether a chat is authorized, and neither the check nor
  handing out a code changes who is authorized or the world behind the gate.
\<close>

locale authorization_gate =
  fixes store :: "'w PairingStorer" and auth :: "'w \<Rightarrow> int \<Rightarrow> bool" and behind :: "'w \<Rightarrow> 'r"
  assumes check_reads: "ps_IsAuthorized store c w = (r, w') \<Longrightarrow> auth w' = auth w \<and> behind w' = behind w"
    and check_right: "ps_IsAuthorized store c w = (Inr b, w') \<Longrightarrow> b = auth w c"
    and code_keeps: "ps_GetOrCreateCode store c w = (code, w') \<Longrightarrow> auth w' = auth w \<and> behind w' = behind w"
begin

lemma message_blocked:
  assumes "\<not> auth w (im_ChatID msg)" "Pairing_Handle store inner key msg w = (r, w')"
  shows "behind w' = behind w \<and> auth w' = auth w \<and> Pairing_Handle store inner' key msg w = (r, w')"
proof -
  obtain a w1 where a: "ps_IsAuthorized store (im_ChatID msg) w = (a, w1)" by (cases "ps_IsAuthorized store (im_ChatID msg) w")
  obtain c w2 where c: "ps_GetOrCreateCode store (im_ChatID msg) w1 = (c, w2)" by (cases "ps_GetOrCreateCode store (im_ChatID msg) w1")
  have "a \<noteq> Inr True" using check_right [of "im_ChatID msg" w True w1] a assms(1) by auto
  then show ?thesis using assms(2) a c check_reads [OF a] code_keeps [OF c]
    by (cases a) (auto simp: Pairing_Handle_def split: sum.splits)
qed

lemma callback_blocked:
  assumes "\<not> auth w (cb_ChatID cb)" "Pairing_HandleCallback store inner cb w = (r, w')"
  shows "r \<noteq> None \<and> behind w' = behind w \<and> auth w' = auth w"
proof -
  obtain a w1 where a: "ps_IsAuthorized store (cb_ChatID cb) w = (a, w1)" by (cases "ps_IsAuthorized store (cb_ChatID cb) w")
  have "a \<noteq> Inr True" using check_right [of "cb_ChatID cb" w True w1] a assms(1) by auto
  then show ?thesis using assms(2) a check_reads [OF a]
    by (cases a) (auto simp: Pairing_HandleCallback_def split: bool.splits)
qed

lemma message_passed:
  assumes "auth w (im_ChatID msg)" "ps_IsAuthorized store (im_ChatID msg) w = (Inr b, w1)"
    "ha_Handle inner key msg w1 = (Inr resp, w2)"
  shows "Pairing_Handle store inner key msg w = (Inr resp, w2) \<and> behind w1 = behind w"
  using assms check_right [OF assms(2)] check_reads [OF assms(2)] by (simp add: Pairing_Handle_def)

end

interpretation pg: authorization_gate "PairingStore pick constraint rand" "\<lambda>w. authorized (fst w)" "snd"
  for pick constraint rand
proof
  fix c w r w' assume a: "ps_IsAuthorized (PairingStore pick constraint rand) c w = (r, w')"
  obtain x d where x: "IsAuthorized c (fst w) = (x, d)" by (cases "IsAuthorized c (fst w)")
  show "authorized (fst w') = authorized (fst w) \<and> snd w' = snd w"
    using a x authorized_tables [OF IsAuthorized_law(1) [OF x]] by (auto simp: PairingStore_def on_db_def)
next
  fix c w b w' assume a: "ps_IsAuthorized (PairingStore pick constraint rand) c w = (Inr b, w')"
  obtain x d where x: "IsAuthorized c (fst w) = (x, d)" by (cases "IsAuthorized c (fst w)")
  then show "b = authorized (fst w) c"
    using a IsAuthorized_law(2) [OF x] by (simp add: PairingStore_def on_db_def)
next
  fix c w code w' assume a: "ps_GetOrCreateCode (PairingStore pick constraint rand) c w = (code, w')"
  obtain x d where x: "GetOrCreateCode pick constraint (rand (snd w)) c (fst w) = (x, d)"
    by (cases "GetOrCreateCode pick constraint (rand (snd w)) c (fst w)")
  then show "authorized (fst w') = authorized (fst w) \<and> snd w' = snd w"
    using a GetOrCreateCode_law [OF x] by (auto simp: PairingStore_def on_db_def)
qed

text \<open>
  \<^bold>\<open>C18.\<close> The gate is closed for unknown chats: a message or button press of a chat that is not
  authorized leaves the world behind the gate and the table of authorized chats unchanged, whatever
  fails; its reply does not depend on the guarded handler, and a button press is always refused.
\<close>

theorem gate_closed:
  assumes "\<not> authorized (fst w) (im_ChatID msg)" "\<not> authorized (fst w) (cb_ChatID cb)"
    and gate: "gate = NewPairingHandler (PairingStore pick constraint rand) inner"
    and "ha_Handle gate key msg w = (r, w1)" "ha_HandleCallback gate cb w = (e, w2)"
  shows "snd w1 = snd w \<and> authorized (fst w1) = authorized (fst w) \<and>
    (\<forall>inner'. ha_Handle (NewPairingHandler (PairingStore pick constraint rand) inner') key msg w = (r, w1)) \<and>
    e \<noteq> None \<and> snd w2 = snd w \<and> authorized (fst w2) = authorized (fst w)"
proof -
  let ?store = "PairingStore pick constraint rand"
  have h: "Pairing_Handle ?store inner key msg w = (r, w1)" and c: "Pairing_HandleCallback ?store inner cb w = (e, w2)"
    using assms(4,5) by (simp_all add: gate NewPairingHandler_def)
  have "Pairing_Handle ?store inner' key msg w = (r, w1)" for inner'
    using pg.message_blocked [OF assms(1) h] by blast
  then have "ha_Handle (NewPairingHandler ?store inner') key msg w = (r, w1)" for inner'
    by (simp add: NewPairingHandler_def)
  then show ?thesis using pg.message_blocked [OF assms(1) h] pg.callback_blocked [OF assms(2) c] by blast
qed

definition sample_inner :: "(db \<times> nat) Handler" where
  "sample_inner = \<lparr>ha_Handle = (\<lambda>k m (d, n). (Inr ''secret'', d, n + 1)), ha_HandleCallback = (\<lambda>cb (d, n). (None, d, n + 1))\<rparr>"

definition sample_gate :: "(db \<times> nat) Handler" where
  "sample_gate = NewPairingHandler (PairingStore hd EOF (\<lambda>_. Inr 4711)) sample_inner"

lemma gate_closed_witness:
  "\<exists>r d1 e d2. ha_Handle sample_gate ''telegram:77'' \<lparr>im_ChatID = 77, im_MessageID = 1, im_ThreadID = 0, im_SenderID = 77, im_Text = ''hi''\<rparr>
      (sample_pair0, 5) = (r, d1, 5) \<and>
    ha_HandleCallback sample_gate \<lparr>cb_ChatID = 77, cb_MessageID = 1, cb_SenderID = 77, cb_Data = ''x'', cb_SessionKey = ''telegram:77''\<rparr>
      (sample_pair0, 5) = (e, d2, 5) \<and> e \<noteq> None"
proof -
  let ?m = "\<lparr>im_ChatID = 77, im_MessageID = 1, im_ThreadID = 0, im_SenderID = 77, im_Text = ''hi''\<rparr>"
  let ?c = "\<lparr>cb_ChatID = 77, cb_MessageID = 1, cb_SenderID = 77, cb_Data = ''x'', cb_SessionKey = ''telegram:77''\<rparr>"
  let ?w = "(sample_pair0, 5 :: nat)"
  obtain r w1 where h: "ha_Handle sample_gate ''telegram:77'' ?m ?w = (r, w1)" by (metis surj_pair)
  obtain e w2 where c: "ha_HandleCallback sample_gate ?c ?w = (e, w2)" by (metis surj_pair)
  have no: "\<not> authorized (fst ?w) 77" by (simp add: authorized_def sample_pair0_def empty_db_def)
  from gate_closed [OF _ _ sample_gate_def h c] no have "snd w1 = 5" "snd w2 = 5" "e \<noteq> None" by simp_all
  then show ?thesis using h c by (metis prod.collapse)
qed

section \<open>The operator's command\<close>

text \<open>
  \<^verbatim>\<open>gobot authorize\<close> with a code that is unknown or has expired does not report an error when the
  code is a number, which every code is: it authorizes the chat that has this number as its id.
\<close>

theorem authorize_unknown_code:
  assumes "script d = []" "code_chat arg d = None" "ParseInt arg = Inr n"
  shows "\<exists>d'. cmdAuthorize arg d = (None, d') \<and> authorized d' n \<and> (\<forall>c. authorized d' c \<longrightarrow> c = n \<or> authorized d c)"
  using assms by (simp add: cmdAuthorize_def NewPairingStore_def AuthorizeByCode_def AuthorizeByChatID_def)

lemma authorize_unknown_code_witness:
  "\<exists>d'. cmdAuthorize ''004711'' sample_pair0 = (None, d') \<and> authorized d' 4711"
proof -
  have "ParseInt ''004711'' = Inr 4711" by code_simp
  then show ?thesis
    using authorize_unknown_code [of sample_pair0 "''004711''" 4711]
    by (auto simp: sample_pair0_def empty_db_def code_chat_def)
qed

end
