(* ===== verification/Migrations.thy ===== *)
theory Migrations
  imports GoPrelude
begin

text \<open>
  The schema of \<^verbatim>\<open>checkpoints.db\<close> and its versioned migrations, \<^verbatim>\<open>internal/context/db.go\<close>. A schema is the
  list of tables with their columns, the indices, the number stored in \<^verbatim>\<open>user_version\<close> and the number of
  free pages. Every call into the driver takes its outcome from \<open>outcomes\<close>, so a failure at any point is
  covered; \<open>bad_sql\<close> is the error SQLite reports for a statement that does not fit the schema.
\<close>

section \<open>Schema\<close>

record schema =
  tabs :: "(string \<times> string list) list"
  indices :: "string list"
  user_version :: int
  free_pages :: int
  outcomes :: "go_error option list"

definition call :: "schema \<Rightarrow> go_error option \<times> schema" where
  "call s = (case outcomes s of [] \<Rightarrow> (None, s) | e # es \<Rightarrow> (e, s\<lparr>outcomes := es\<rparr>))"

text \<open>A statement, or its own complaint about the schema.\<close>

definition exec :: "(schema \<Rightarrow> schema result) \<Rightarrow> schema \<Rightarrow> go_error option \<times> schema" where
  "exec stmt s =
     (case call s of
        (Some e, s1) \<Rightarrow> (Some e, s1)
      | (None, s1) \<Rightarrow> (case stmt s1 of Inl e \<Rightarrow> (Some e, s1) | Inr s2 \<Rightarrow> (None, s2)))"

definition create_table :: "string \<Rightarrow> string list \<Rightarrow> schema \<Rightarrow> schema result" where
  "create_table name cols s =
     (if map_of (tabs s) name \<noteq> None then Inr s else Inr (s\<lparr>tabs := tabs s @ [(name, cols)]\<rparr>))"

definition create_index :: "go_error \<Rightarrow> string \<Rightarrow> string \<Rightarrow> string list \<Rightarrow> schema \<Rightarrow> schema result" where
  "create_index bad_sql name table cols s =
     (if name \<in> set (indices s) then Inr s
      else case map_of (tabs s) table of
             None \<Rightarrow> Inl bad_sql
           | Some have \<Rightarrow> if set cols \<subseteq> set have then Inr (s\<lparr>indices := indices s @ [name]\<rparr>) else Inl bad_sql)"

definition add_column :: "go_error \<Rightarrow> string \<Rightarrow> string \<Rightarrow> schema \<Rightarrow> schema result" where
  "add_column bad_sql table col s =
     (case map_of (tabs s) table of
        None \<Rightarrow> Inl bad_sql
      | Some have \<Rightarrow>
          if col \<in> set have then Inl bad_sql
          else Inr (s\<lparr>tabs := map (\<lambda>(t, cs). if t = table then (t, cs @ [col]) else (t, cs)) (tabs s)\<rparr>))"

definition table_info :: "string \<Rightarrow> schema \<Rightarrow> string list" where
  "table_info table s = (case map_of (tabs s) table of None \<Rightarrow> [] | Some cols \<Rightarrow> cols)"

section \<open>Statements of the migrations\<close>

text \<open>The loop over \<^verbatim>\<open>rows\<close>: every \<^verbatim>\<open>Next\<close> and every \<^verbatim>\<open>Scan\<close> is a driver call; a failing \<^verbatim>\<open>Next\<close> ends the
  loop and shows up in \<^verbatim>\<open>rows.Err\<close>.\<close>

fun find_column :: "string \<Rightarrow> string \<Rightarrow> string \<Rightarrow> string list \<Rightarrow> schema \<Rightarrow> bool result \<times> schema" where
  "find_column scan_text iter_text col [] s =
     (case call s of (Some e, s1) \<Rightarrow> (Inl (wrap_err iter_text e), s1) | (None, s1) \<Rightarrow> (Inr False, s1))"
| "find_column scan_text iter_text col (c # cs) s =
     (case call s of
        (Some e, s1) \<Rightarrow> (Inl (wrap_err iter_text e), s1)
      | (None, s1) \<Rightarrow>
          (case call s1 of
             (Some e, s2) \<Rightarrow> (Inl (wrap_err scan_text e), s2)
           | (None, s2) \<Rightarrow> if c = col then (Inr True, s2) else find_column scan_text iter_text col cs s2))"

definition addChecksumColumnIfMissing :: "go_error \<Rightarrow> schema \<Rightarrow> go_error option \<times> schema" where
  "addChecksumColumnIfMissing bad_sql s =
     (case call s of
        (Some e, s1) \<Rightarrow> (Some (wrap_err ''query checkpoints table info'' e), s1)
      | (None, s1) \<Rightarrow>
          (case find_column ''scan table info'' ''iterate table info rows'' ''checksum'' (table_info ''checkpoints'' s1) s1 of
             (Inl e, s2) \<Rightarrow> (Some e, s2)
           | (Inr True, s2) \<Rightarrow> (None, s2)
           | (Inr False, s2) \<Rightarrow>
               (case exec (add_column bad_sql ''checkpoints'' ''checksum'') s2 of
                  (Some e, s3) \<Rightarrow> (Some (wrap_err ''alter checkpoints table'' e), s3)
                | (None, s3) \<Rightarrow> (None, s3))))"

definition checkColumnExists :: "string list \<Rightarrow> string \<Rightarrow> schema \<Rightarrow> bool result \<times> schema" where
  "checkColumnExists rows colName s =
     find_column ''scan threads table info'' ''iterate threads table info rows'' colName rows s"

definition hasColumn :: "string \<Rightarrow> schema \<Rightarrow> bool result \<times> schema" where
  "hasColumn colName s =
     (case call s of
        (Some e, s1) \<Rightarrow> (Inl (wrap_err ''query threads table info'' e), s1)
      | (None, s1) \<Rightarrow> checkColumnExists (table_info ''threads'' s1) colName s1)"

definition add_thread_column :: "go_error \<Rightarrow> string \<Rightarrow> schema \<Rightarrow> go_error option \<times> schema" where
  "add_thread_column bad_sql col s =
     (case hasColumn col s of
        (Inl e, s1) \<Rightarrow> (Some (wrap_err (''check '' @ col) e), s1)
      | (Inr True, s1) \<Rightarrow> (None, s1)
      | (Inr False, s1) \<Rightarrow>
          (case exec (add_column bad_sql ''threads'' col) s1 of
             (Some e, s2) \<Rightarrow> (Some (wrap_err (''addTokenColumnsIfMissing: '' @ col) e), s2)
           | (None, s2) \<Rightarrow> (None, s2)))"

text \<open>Steps in order, up to the first error.\<close>

fun steps :: "(schema \<Rightarrow> go_error option \<times> schema) list \<Rightarrow> schema \<Rightarrow> go_error option \<times> schema" where
  "steps [] s = (None, s)"
| "steps (f # fs) s = (case f s of (Some e, s1) \<Rightarrow> (Some e, s1) | (None, s1) \<Rightarrow> steps fs s1)"

definition wrapped :: "string \<Rightarrow> (schema \<Rightarrow> go_error option \<times> schema) \<Rightarrow> schema \<Rightarrow> go_error option \<times> schema" where
  "wrapped text f s = (case f s of (Some e, s1) \<Rightarrow> (Some (wrap_err text e), s1) | (None, s1) \<Rightarrow> (None, s1))"

definition addTokenColumnsIfMissing :: "go_error \<Rightarrow> schema \<Rightarrow> go_error option \<times> schema" where
  "addTokenColumnsIfMissing bad_sql =
     steps [add_thread_column bad_sql ''estimated_tokens'', add_thread_column bad_sql ''last_compacted_at'']"

definition createHITLApprovalsTable :: "schema \<Rightarrow> go_error option \<times> schema" where
  "createHITLApprovalsTable =
     wrapped ''create hitl_approvals'' (exec (create_table ''hitl_approvals''
       [''request_id'', ''session_key'', ''tool_name'', ''args'', ''status'', ''created_at'', ''decided_at'']))"

definition createBaseTables :: "schema \<Rightarrow> go_error option \<times> schema" where
  "createBaseTables =
     steps [wrapped ''initSchema: create threads'' (exec (create_table ''threads''
              [''thread_id'', ''status'', ''model'', ''metadata'', ''updated_at'', ''estimated_tokens'', ''last_compacted_at''])),
            wrapped ''initSchema: create checkpoints'' (exec (create_table ''checkpoints''
              [''checkpoint_id'', ''thread_id'', ''iteration'', ''state'', ''created_at'']))]"

definition createIndices :: "go_error \<Rightarrow> schema \<Rightarrow> go_error option \<times> schema" where
  "createIndices bad_sql =
     wrapped ''initSchema: create idx_checkpoints_thread_iteration''
       (exec (create_index bad_sql ''idx_checkpoints_thread_iteration'' ''checkpoints'' [''thread_id'', ''iteration'']))"

definition createIdempotencyTable :: "go_error \<Rightarrow> schema \<Rightarrow> go_error option \<times> schema" where
  "createIdempotencyTable bad_sql =
     steps [wrapped ''initSchema: create idempotency_keys'' (exec (create_table ''idempotency_keys''
              [''key'', ''tool_name'', ''params_hash'', ''result'', ''session_key'', ''created_at''])),
            wrapped ''initSchema: create idx_idempotency_session''
              (exec (create_index bad_sql ''idx_idempotency_session'' ''idempotency_keys'' [''session_key''])),
            wrapped ''initSchema: create idx_idempotency_created''
              (exec (create_index bad_sql ''idx_idempotency_created'' ''idempotency_keys'' [''created_at'']))]"

section \<open>Migrations\<close>

record migration =
  version :: int
  mig_name :: string
  apply_mig :: "schema \<Rightarrow> go_error option \<times> schema"

definition baseline :: "go_error \<Rightarrow> schema \<Rightarrow> go_error option \<times> schema" where
  "baseline bad_sql =
     steps [wrapped ''create base tables'' createBaseTables,
            wrapped ''create indices'' (createIndices bad_sql),
            wrapped ''create idempotency table'' (createIdempotencyTable bad_sql),
            wrapped ''add checksum column'' (addChecksumColumnIfMissing bad_sql),
            wrapped ''add token columns'' (addTokenColumnsIfMissing bad_sql),
            createHITLApprovalsTable]"

definition schemaMigrations :: "go_error \<Rightarrow> migration list" where
  "schemaMigrations bad_sql = [\<lparr>version = 1, mig_name = ''baseline schema'', apply_mig = baseline bad_sql\<rparr>]"

definition rollback :: "schema \<Rightarrow> schema \<Rightarrow> schema" where
  "rollback begun s = begun\<lparr>outcomes := outcomes s\<rparr>"

definition applyMigration :: "migration \<Rightarrow> schema \<Rightarrow> go_error option \<times> schema" where
  "applyMigration m s =
     (case call s of
        (Some e, s1) \<Rightarrow> (Some (wrap_err ''begin tx'' e), s1)
      | (None, begun) \<Rightarrow>
          (case apply_mig m begun of
             (Some e, s2) \<Rightarrow> (Some e, rollback begun s2)
           | (None, s2) \<Rightarrow>
               (case exec (\<lambda>s. Inr (s\<lparr>user_version := version m\<rparr>)) s2 of
                  (Some e, s3) \<Rightarrow> (Some (wrap_err ''stamp user_version'' e), rollback begun s3)
                | (None, s3) \<Rightarrow>
                    (case call s3 of
                       (Some e, s4) \<Rightarrow> (Some (wrap_err ''commit'' e), rollback begun s4)
                     | (None, s4) \<Rightarrow> (None, s4)))))"

fun migrate :: "int \<Rightarrow> migration list \<Rightarrow> schema \<Rightarrow> go_error option \<times> schema" where
  "migrate current [] s = (None, s)"
| "migrate current (m # ms) s =
     (if version m \<le> current then migrate current ms s
      else case applyMigration m s of
             (Some e, s1) \<Rightarrow> (Some (wrap_err (''migration '' @ Itoa (version m) @ '' ('' @ mig_name m @ '')'') e), s1)
           | (None, s1) \<Rightarrow> migrate current ms s1)"

definition runMigrations :: "migration list \<Rightarrow> schema \<Rightarrow> go_error option \<times> schema" where
  "runMigrations migs s =
     (case call s of
        (Some e, s1) \<Rightarrow> (Some (wrap_err ''read user_version'' e), s1)
      | (None, s1) \<Rightarrow> migrate (user_version s1) migs s1)"

definition initSchema :: "go_error \<Rightarrow> schema \<Rightarrow> go_error option \<times> schema" where
  "initSchema bad_sql = wrapped ''initSchema'' (runMigrations (schemaMigrations bad_sql))"

definition vacuumFreelistThreshold :: int where "vacuumFreelistThreshold = 256"

definition reclaimIfBloated :: "schema \<Rightarrow> go_error option \<times> schema" where
  "reclaimIfBloated s =
     (case call s of
        (Some e, s1) \<Rightarrow> (Some (wrap_err ''reclaimIfBloated: read freelist_count'' e), s1)
      | (None, s1) \<Rightarrow>
          if free_pages s1 \<le> vacuumFreelistThreshold then (None, s1)
          else (case exec (\<lambda>s. Inr (s\<lparr>free_pages := 0\<rparr>)) s1 of
                  (Some e, s2) \<Rightarrow> (Some (wrap_err ''reclaimIfBloated: vacuum'' e), s2)
                | (None, s2) \<Rightarrow> (None, s2)))"

section \<open>Laws\<close>

text \<open>What is stored: everything but the outcomes still to come.\<close>

definition stored :: "schema \<Rightarrow> schema" where
  "stored s = s\<lparr>outcomes := []\<rparr>"

lemma call_stored: "call s = (e, s') \<Longrightarrow> stored s' = stored s"
  by (auto simp: call_def stored_def split: list.splits)

lemma rollback_stored [simp]: "stored (rollback begun s) = stored begun"
  by (simp add: rollback_def stored_def)

lemma stored_fields:
  assumes "stored s = stored s'"
  shows "tabs s = tabs s'" "indices s = indices s'" "user_version s = user_version s'" "free_pages s = free_pages s'"
  using assms by (cases s; cases s'; simp add: stored_def)+

text \<open>A migration that fails leaves the stored schema alone, one that succeeds stamps its version.\<close>

lemma applyMigration_atomic:
  assumes "applyMigration m s = (r, s')"
  shows "case r of Some e \<Rightarrow> stored s' = stored s | None \<Rightarrow> user_version s' = version m"
proof -
  obtain e1 s1 where c1: "call s = (e1, s1)" by (cases "call s")
  obtain e2 s2 where c2: "apply_mig m s1 = (e2, s2)" by (cases "apply_mig m s1")
  let ?stamp = "\<lambda>s. Inr (s\<lparr>user_version := version m\<rparr>)"
  obtain e3 s3 where c3: "exec ?stamp s2 = (e3, s3)" by (cases "exec ?stamp s2")
  obtain e4 s4 where c4: "call s3 = (e4, s4)" by (cases "call s3")
  have v: "user_version s4 = version m" if "e3 = None"
  proof -
    have "user_version s3 = version m" using c3 that by (auto simp: exec_def split: prod.splits option.splits)
    then show ?thesis using stored_fields(3) [OF call_stored [OF c4]] by simp
  qed
  have st: "stored s1 = stored s" using call_stored [OF c1] .
  have "(r = None \<and> e3 = None \<and> s' = s4) \<or> (r \<noteq> None \<and> stored s' = stored s1)"
    using assms unfolding applyMigration_def c1 prod.case
    by (cases e1; cases e2; cases e3; cases e4) (auto simp: c2 c3 c4)
  then show ?thesis using v st by (cases r) auto
qed

text \<open>Which migrations of a list a run reaches, and how far it got: \<open>migrated ms s t\<close> holds when each of
  \<open>ms\<close> was applied and committed in this order.\<close>

inductive migrated :: "migration list \<Rightarrow> schema \<Rightarrow> schema \<Rightarrow> bool" where
  none: "stored s = stored t \<Longrightarrow> migrated [] s t"
| one: "stored s = stored s1 \<Longrightarrow> applyMigration m s1 = (None, s2) \<Longrightarrow> migrated ms s2 t \<Longrightarrow> migrated (m # ms) s t"

lemma migrated_start: "migrated ms s' t \<Longrightarrow> stored s = stored s' \<Longrightarrow> migrated ms s t"
proof (induction rule: migrated.induct)
  case (none s' t)
  show ?case by (rule migrated.none) (use none in simp)
next
  case (one s' s1 m s2 ms t)
  show ?case by (rule migrated.one [OF _ one(2,3)]) (use one in simp)
qed

lemma migrated_version: "migrated ms s t \<Longrightarrow> user_version t = (if ms = [] then user_version s else version (last ms))"
proof (induction rule: migrated.induct)
  case (none s t)
  then show ?case using stored_fields(3) [OF none] by simp
next
  case (one s s1 m s2 ms t)
  then show ?case using applyMigration_atomic [OF one(2)] by auto
qed

lemma migrate_prefix:
  assumes "migrate current ms s = (r, t)"
  shows "\<exists>k. migrated (take k (filter (\<lambda>m. current < version m) ms)) s t \<and>
    (r = None \<longrightarrow> take k (filter (\<lambda>m. current < version m) ms) = filter (\<lambda>m. current < version m) ms)"
  using assms
proof (induction ms arbitrary: s)
  case Nil
  then show ?case by (auto intro: migrated.none)
next
  case (Cons m ms)
  show ?case
  proof (cases "version m \<le> current")
    case True
    then have "migrate current ms s = (r, t)" using Cons.prems by simp
    from Cons.IH [OF this] True show ?thesis by simp
  next
    case False
    obtain e s1 where a: "applyMigration m s = (e, s1)" by (cases "applyMigration m s")
    show ?thesis
    proof (cases e)
      case None
      then have "migrate current ms s1 = (r, t)" using Cons.prems False a by simp
      from Cons.IH [OF this] obtain k where k: "migrated (take k (filter (\<lambda>m. current < version m) ms)) s1 t"
        "r = None \<longrightarrow> take k (filter (\<lambda>m. current < version m) ms) = filter (\<lambda>m. current < version m) ms" by blast
      have "migrated (m # take k (filter (\<lambda>m. current < version m) ms)) s t"
        using migrated.one [OF refl a [unfolded None] k(1)] .
      then show ?thesis using k(2) False by (intro exI [of _ "Suc k"]) simp
    next
      case (Some x)
      then have "t = s1" "r \<noteq> None" using Cons.prems False a by auto
      moreover have "stored s1 = stored s" using applyMigration_atomic [OF a] Some by simp
      ultimately have "migrated [] s t" by (intro migrated.none) simp
      then show ?thesis using \<open>r \<noteq> None\<close> by (intro exI [of _ 0]) auto
    qed
  qed
qed

text \<open>
  \<^bold>\<open>C35.\<close> Migrations are applied one by one and never by halves: whatever the driver does, a run ends with
  a prefix of the pending migrations committed, in order, and the version of the last one stamped; when
  it reports success the prefix is all of them; and a database that has every version executes nothing.
\<close>

theorem runMigrations_prefix:
  assumes "runMigrations migs s = (r, t)" and pending: "pending = filter (\<lambda>m. user_version s < version m) migs"
  shows "\<exists>ms rest. pending = ms @ rest \<and> migrated ms s t \<and> (r = None \<longrightarrow> rest = []) \<and>
      user_version t = (if ms = [] then user_version s else version (last ms)) \<and>
      (pending = [] \<longrightarrow> stored t = stored s)"
proof -
  obtain e s1 where c: "call s = (e, s1)" by (cases "call s")
  note st = call_stored [OF c]
  note v = stored_fields(3) [OF st]
  show ?thesis
  proof (cases e)
    case None
    then have "migrate (user_version s1) migs s1 = (r, t)" using assms(1) c by (simp add: runMigrations_def)
    from migrate_prefix [OF this] obtain k where k: "migrated (take k pending) s1 t" "r = None \<longrightarrow> take k pending = pending"
      unfolding pending v by blast
    have m: "migrated (take k pending) s t" 
      by (rule migrated_start [OF k(1)]) (simp add: st)
    moreover have "stored t = stored s" if "pending = []" using m that by (auto elim: migrated.cases)
    ultimately show ?thesis using k(2) migrated_version [OF m]
      by (intro exI [of _ "take k pending"] exI [of _ "drop k pending"]) auto
  next
    case (Some x)
    then have "t = s1" "r \<noteq> None" using assms(1) c by (auto simp: runMigrations_def)
    then show ?thesis using st v by (intro exI [of _ "[]"] exI [of _ pending]) (auto intro: migrated.none)
  qed
qed

section \<open>The baseline schema\<close>

text \<open>A table, or a column of it, is there.\<close>

fun has :: "schema \<Rightarrow> string \<times> string option \<Rightarrow> bool" where
  "has s (table, None) = (map_of (tabs s) table \<noteq> None)"
| "has s (table, Some col) = (\<exists>cols. map_of (tabs s) table = Some cols \<and> col \<in> set cols)"

text \<open>Tables and columns are only added, at the end.\<close>

definition grows :: "schema \<Rightarrow> schema \<Rightarrow> bool" where
  "grows s t \<longleftrightarrow> (\<forall>table cols. map_of (tabs s) table = Some cols \<longrightarrow> (\<exists>more. map_of (tabs t) table = Some (cols @ more)))"

lemma grows_refl [simp]: "grows s s"
  by (simp add: grows_def)

lemma grows_trans: "grows s t \<Longrightarrow> grows t u \<Longrightarrow> grows s u"
  unfolding grows_def by (metis append.assoc)

lemma grows_tabs: "tabs s = tabs t \<Longrightarrow> grows s t"
  by (simp add: grows_def)

lemma has_grows: "has s x \<Longrightarrow> grows s t \<Longrightarrow> has t x"
  by (cases x; cases "snd x") (fastforce simp: grows_def)+

text \<open>A step only adds, and when it succeeds the things in \<open>A\<close> are there.\<close>

definition ensures :: "(schema \<Rightarrow> go_error option \<times> schema) \<Rightarrow> (string \<times> string option) set \<Rightarrow> bool" where
  "ensures f A \<longleftrightarrow> (\<forall>s r t. f s = (r, t) \<longrightarrow> grows s t \<and> (r = None \<longrightarrow> (\<forall>x \<in> A. has t x)))"

lemma ensuresD: "ensures f A \<Longrightarrow> f s = (r, t) \<Longrightarrow> grows s t \<and> (r = None \<longrightarrow> (\<forall>x \<in> A. has t x))"
  unfolding ensures_def by blast

lemma ensures_wrapped: "ensures f A \<Longrightarrow> ensures (wrapped text f) A"
  unfolding ensures_def wrapped_def by (auto split: prod.splits option.splits)

lemma ensures_Nil: "ensures (steps []) {}"
  by (simp add: ensures_def)

lemma ensures_Cons:
  assumes f: "ensures f A" and fs: "ensures (steps fs) B"
  shows "ensures (steps (f # fs)) (A \<union> B)"
  unfolding ensures_def
proof (intro allI impI)
  fix s r t assume run: "steps (f # fs) s = (r, t)"
  obtain e s1 where a: "f s = (e, s1)" by (cases "f s")
  note 1 = ensuresD [OF f a]
  show "grows s t \<and> (r = None \<longrightarrow> (\<forall>x \<in> A \<union> B. has t x))"
  proof (cases e)
    case None
    then have "steps fs s1 = (r, t)" using run a by simp
    from ensuresD [OF fs this] 1 None show ?thesis using grows_trans [of s s1 t] has_grows [of s1 _ t] by blast
  qed (use run a 1 in auto)
qed

lemma call_grows: "call s = (e, s1) \<Longrightarrow> grows s s1"
  using stored_fields(1) [OF call_stored] by (auto intro: grows_tabs)

lemma ensures_exec:
  assumes "\<And>s t. stmt s = Inr t \<Longrightarrow> grows s t \<and> (\<forall>x \<in> A. has t x)"
  shows "ensures (exec stmt) A"
  unfolding ensures_def
proof (intro allI impI)
  fix s r t assume run: "exec stmt s = (r, t)"
  obtain e s1 where c: "call s = (e, s1)" by (cases "call s")
  then show "grows s t \<and> (r = None \<longrightarrow> (\<forall>x \<in> A. has t x))"
    using run assms [of s1] call_grows [OF c] grows_trans [of s s1]
    by (auto simp: exec_def split: option.splits sum.splits)
qed

lemma ensures_create_table: "ensures (exec (create_table name cols)) {(name, None)}"
  by (rule ensures_exec) (auto simp: create_table_def grows_def map_add_def split: if_splits option.splits)

lemma ensures_create_index: "ensures (exec (create_index bad_sql name table cols)) {}"
  by (rule ensures_exec) (auto simp: create_index_def grows_def split: if_splits option.splits)

lemma add_column_result:
  assumes "add_column bad_sql table col s = Inr t"
  shows "map_of (tabs t) = (\<lambda>tb. map_option (\<lambda>cs. if tb = table then cs @ [col] else cs) (map_of (tabs s) tb)) \<and>
    map_of (tabs s) table \<noteq> None"
proof -
  have t: "tabs t = map (\<lambda>(t, cs). if t = table then (t, cs @ [col]) else (t, cs)) (tabs s)" "map_of (tabs s) table \<noteq> None"
    using assms by (auto simp: add_column_def split: option.splits if_splits)
  have "map_of (map (\<lambda>(t, cs). if t = table then (t, cs @ [col]) else (t, cs)) xs) tb =
      map_option (\<lambda>cs. if tb = table then cs @ [col] else cs) (map_of xs tb)" for xs tb
    by (induction xs) auto
  then show ?thesis using t by auto
qed

lemma ensures_add_column: "ensures (exec (add_column bad_sql table col)) {(table, Some col)}"
proof (rule ensures_exec)
  fix s t assume "add_column bad_sql table col s = Inr t"
  note r = add_column_result [OF this]
  then have "grows s t" unfolding grows_def by auto
  moreover have "has t (table, Some col)" using r by auto
  ultimately show "grows s t \<and> (\<forall>x \<in> {(table, Some col)}. has t x)" by simp
qed

lemma find_column_law:
  "find_column x y col cols s = (r, t) \<Longrightarrow> stored t = stored s \<and> (r = Inr True \<longrightarrow> col \<in> set cols)"
proof (induction cols arbitrary: s)
  case Nil
  then show ?case using call_stored [of s] by (auto split: prod.splits option.splits)
next
  case (Cons c cs)
  obtain e1 s1 where 1: "call s = (e1, s1)" by (cases "call s")
  obtain e2 s2 where 2: "call s1 = (e2, s2)" by (cases "call s1")
  note st = call_stored [OF 1] call_stored [OF 2]
  show ?case
  proof (cases "e1 = None \<and> e2 = None \<and> c \<noteq> col")
    case True
    then have "find_column x y col cs s2 = (r, t)" using Cons.prems 1 2 by simp
    from Cons.IH [OF this] st show ?thesis by simp
  next
    case False
    then show ?thesis using Cons.prems 1 2 st by (auto split: option.splits if_splits)
  qed
qed

text \<open>Both column migrations look the column up and add it when it is missing.\<close>

lemma ensures_column:
  assumes f: "\<And>s. f s = (case call s of
      (Some e, s1) \<Rightarrow> (Some (wq e), s1)
    | (None, s1) \<Rightarrow> (case find_column x y col (table_info table s1) s1 of
         (Inl e, s2) \<Rightarrow> (Some (wg e), s2)
       | (Inr True, s2) \<Rightarrow> (None, s2)
       | (Inr False, s2) \<Rightarrow> (case exec (add_column bad_sql table col) s2 of
            (Some e, s3) \<Rightarrow> (Some (wa e), s3)
          | (None, s3) \<Rightarrow> (None, s3))))"
  shows "ensures f {(table, Some col)}"
  unfolding ensures_def
proof (intro allI impI)
  fix s r t assume run: "f s = (r, t)"
  obtain e1 s1 where 1: "call s = (e1, s1)" by (cases "call s")
  obtain e2 s2 where 2: "find_column x y col (table_info table s1) s1 = (e2, s2)" by (cases "find_column x y col (table_info table s1) s1")
  obtain e3 s3 where 3: "exec (add_column bad_sql table col) s2 = (e3, s3)" by (cases "exec (add_column bad_sql table col) s2")
  note law = find_column_law [OF 2]
  have t2: "tabs s2 = tabs s1" using stored_fields(1) law by blast
  have g1: "grows s s1" using call_grows [OF 1] .
  have g2: "grows s s2" using grows_trans [OF g1 grows_tabs [OF t2 [symmetric]]] .
  have g3: "grows s s3" "e3 = None \<Longrightarrow> has s3 (table, Some col)"
    using ensuresD [OF ensures_add_column 3] grows_trans [OF g2, of s3] by auto
  have found: "has s2 (table, Some col)" if "e2 = Inr True"
    using law that t2 by (cases "map_of (tabs s1) table") (auto simp: table_info_def)
  show "grows s t \<and> (r = None \<longrightarrow> (\<forall>x \<in> {(table, Some col)}. has t x))"
  proof (cases e1)
    case None
    then show ?thesis using run g2 g3 found unfolding f 1 prod.case option.case 2
      by (cases e2 rule: sum.exhaust) (auto simp: 3 split: option.splits bool.splits if_splits)
  next
    case (Some e)
    then show ?thesis using run g1 by (auto simp: f 1)
  qed
qed

lemma ensures_checksum: "ensures (addChecksumColumnIfMissing bad_sql) {(''checkpoints'', Some ''checksum'')}"
  by (rule ensures_column [where wg = "\<lambda>e. e" and bad_sql = bad_sql and x = "''scan table info''" and y = "''iterate table info rows''"])
    (simp add: addChecksumColumnIfMissing_def)

lemma ensures_thread_column: "ensures (add_thread_column bad_sql col) {(''threads'', Some col)}"
  by (rule ensures_column [where wq = "\<lambda>e. wrap_err (''check '' @ col) (wrap_err ''query threads table info'' e)"
        and wg = "wrap_err (''check '' @ col)" and bad_sql = bad_sql
        and x = "''scan threads table info''" and y = "''iterate threads table info rows''"
        and wa = "wrap_err (''addTokenColumnsIfMissing: '' @ col)"])
    (simp add: add_thread_column_def hasColumn_def checkColumnExists_def split: prod.split option.split)

lemmas ensures_steps = ensures_Nil ensures_Cons ensures_wrapped ensures_create_table ensures_create_index
  ensures_checksum ensures_thread_column

definition baseline_schema :: "(string \<times> string option) set" where
  "baseline_schema = {(''threads'', None), (''checkpoints'', None), (''idempotency_keys'', None), (''hitl_approvals'', None),
     (''checkpoints'', Some ''checksum''), (''threads'', Some ''estimated_tokens''), (''threads'', Some ''last_compacted_at'')}"

lemma ensures_subset: "ensures f A \<Longrightarrow> B \<subseteq> A \<Longrightarrow> ensures f B"
  unfolding ensures_def by blast

lemma ensures_baseline: "ensures (baseline bad_sql) baseline_schema"
proof -
  have base: "ensures createBaseTables ({(''threads'', None)} \<union> ({(''checkpoints'', None)} \<union> {}))"
    unfolding createBaseTables_def by (intro ensures_steps)
  have idem: "ensures (createIdempotencyTable bad_sql) ({(''idempotency_keys'', None)} \<union> ({} \<union> ({} \<union> {})))"
    unfolding createIdempotencyTable_def by (intro ensures_steps)
  have ind: "ensures (createIndices bad_sql) {}" unfolding createIndices_def by (intro ensures_steps)
  have hitl: "ensures createHITLApprovalsTable {(''hitl_approvals'', None)}"
    unfolding createHITLApprovalsTable_def by (intro ensures_steps)
  have tok: "ensures (addTokenColumnsIfMissing bad_sql)
      ({(''threads'', Some ''estimated_tokens'')} \<union> ({(''threads'', Some ''last_compacted_at'')} \<union> {}))"
    unfolding addTokenColumnsIfMissing_def by (intro ensures_steps)
  note all = ensures_Cons [OF ensures_wrapped [OF base] ensures_Cons [OF ensures_wrapped [OF ind] ensures_Cons [OF ensures_wrapped [OF idem]
    ensures_Cons [OF ensures_wrapped [OF ensures_checksum] ensures_Cons [OF ensures_wrapped [OF tok] ensures_Cons [OF hitl ensures_Nil]]]]]]
  show ?thesis unfolding baseline_def by (rule ensures_subset [OF all]) (auto simp: baseline_schema_def)
qed

lemma ensures_applyMigration:
  assumes "ensures (apply_mig m) A"
  shows "ensures (applyMigration m) A"
  unfolding ensures_def
proof (intro allI impI)
  fix s r t assume run: "applyMigration m s = (r, t)"
  obtain e1 s1 where 1: "call s = (e1, s1)" by (cases "call s")
  obtain e2 s2 where 2: "apply_mig m s1 = (e2, s2)" by (cases "apply_mig m s1")
  let ?stamp = "\<lambda>s. Inr (s\<lparr>user_version := version m\<rparr>)"
  obtain e3 s3 where 3: "exec ?stamp s2 = (e3, s3)" by (cases "exec ?stamp s2")
  obtain e4 s4 where 4: "call s3 = (e4, s4)" by (cases "call s3")
  have st: "ensures (exec ?stamp) {}" by (rule ensures_exec) (auto simp: grows_def)
  have g: "grows s s1" "grows s s2" "grows s s3" "grows s s4" "grows s2 s4"
  proof -
    show 1: "grows s s1" using call_grows [OF 1] .
    have "grows s1 s2" using ensuresD [OF assms 2] by simp
    from grows_trans [OF 1 this] show 2: "grows s s2" .
    have a: "grows s2 s3" using ensuresD [OF st 3] by simp
    from grows_trans [OF 2 a] show 3: "grows s s3" .
    have b: "grows s3 s4" using call_grows [OF 4] .
    from grows_trans [OF 3 b] show "grows s s4" .
    from grows_trans [OF a b] show "grows s2 s4" .
  qed
  have ok: "\<forall>x \<in> A. has s4 x" if "e2 = None" using ensuresD [OF assms 2] that has_grows [OF _ g(5)] by blast
  have rb: "grows s (rollback s1 x)" for x using g(1) by (simp add: grows_def rollback_def)
  show "grows s t \<and> (r = None \<longrightarrow> (\<forall>x \<in> A. has t x))"
    using run g ok rb unfolding applyMigration_def 1 prod.case
    by (cases e1; cases e2; cases e3; cases e4) (auto simp: 2 3 4)
qed

text \<open>
  Bringing a database of version 0 up to date, empty or left by a release without versions: no table
  and no column is ever lost or moved, whether the run succeeds or not; after success all tables and the
  columns added later are there; a failed run changes nothing.
\<close>

theorem initSchema_baseline:
  assumes run: "initSchema bad_sql s = (r, t)" and v: "user_version s = 0"
  shows "grows s t \<and> (r = None \<longrightarrow> (\<forall>x \<in> baseline_schema. has t x) \<and> user_version t = 1) \<and> (r \<noteq> None \<longrightarrow> stored t = stored s)"
proof -
  obtain e t' where m: "runMigrations (schemaMigrations bad_sql) s = (e, t')" by (cases "runMigrations (schemaMigrations bad_sql) s")
  have r: "t' = t" "r = None \<longleftrightarrow> e = None" using run m by (auto simp: initSchema_def wrapped_def split: option.splits)
  obtain e1 s1 where c: "call s = (e1, s1)" by (cases "call s")
  note st = call_stored [OF c]
  let ?m = "\<lparr>version = 1, mig_name = ''baseline schema'', apply_mig = baseline bad_sql\<rparr>"
  show ?thesis
  proof (cases e1)
    case (Some x)
    then have "t = s1" "e \<noteq> None" using m c r(1) by (auto simp: runMigrations_def)
    then show ?thesis using st r(2) call_grows [OF c] by auto
  next
    case None
    have v1: "user_version s1 = 0" using stored_fields(3) [OF st] v by simp
    obtain e2 s2 where a: "applyMigration ?m s1 = (e2, s2)" by (cases "applyMigration ?m s1")
    have e2: "e = None \<longleftrightarrow> e2 = None" "t = s2"
      using m c None v1 a r(1) by (auto simp: runMigrations_def schemaMigrations_def split: option.splits)
    note at = applyMigration_atomic [OF a]
    show ?thesis
    proof (cases e2)
      case None
      have b: "ensures (applyMigration ?m) baseline_schema" by (rule ensures_applyMigration) (simp add: ensures_baseline)
      show ?thesis using ensuresD [OF b a] None e2 r grows_trans [OF call_grows [OF c]] at by auto
    next
      case (Some y)
      then have "stored s2 = stored s" using at st by simp
      then show ?thesis using e2 r Some stored_fields(1) by (metis grows_tabs option.distinct(1))
    qed
  qed
qed

text \<open>A database of an early release, brought up to date; and the same run with a failing driver.\<close>

definition old_schema :: "go_error option list \<Rightarrow> schema" where
  "old_schema es = \<lparr>tabs = [(''threads'', [''thread_id'', ''status'']), (''checkpoints'', [''checkpoint_id'', ''thread_id'', ''iteration''])],
     indices = [], user_version = 0, free_pages = 0, outcomes = es\<rparr>"

lemma initSchema_baseline_witness:
  "fst (initSchema EOF (old_schema [])) = None \<and> has (snd (initSchema EOF (old_schema []))) (''checkpoints'', Some ''checksum'') \<and>
   user_version (snd (initSchema EOF (old_schema []))) = 1"
proof -
  have ok: "fst (initSchema EOF (old_schema [])) = None" by code_simp
  have "user_version (old_schema []) = 0" by (simp add: old_schema_def)
  from initSchema_baseline [OF prod.collapse [symmetric] this, of EOF] ok show ?thesis
    by (auto simp: baseline_schema_def)
qed

lemma runMigrations_prefix_witness:
  "user_version (snd (runMigrations (schemaMigrations EOF) (old_schema []))) = 1 \<and>
   stored (snd (runMigrations (schemaMigrations EOF) (old_schema [None, None, Some EOF]))) = stored (old_schema [])"
proof -
  let ?ms = "schemaMigrations EOF"
  have pend: "filter (\<lambda>m. user_version (old_schema es) < version m) ?ms = ?ms" for es
    by (simp add: old_schema_def schemaMigrations_def)
  have ok: "fst (runMigrations ?ms (old_schema [])) = None" by code_simp
  have v: "user_version (snd (runMigrations ?ms (old_schema []))) = 1"
    using runMigrations_prefix [OF prod.collapse [symmetric] pend [symmetric], of "[]"] ok
    by (auto simp: schemaMigrations_def)
  have uv: "user_version (snd (runMigrations ?ms (old_schema [None, None, Some EOF]))) = 0" by code_simp
  obtain ms rest where ms: "?ms = ms @ rest" "migrated ms (old_schema [None, None, Some EOF]) (snd (runMigrations ?ms (old_schema [None, None, Some EOF])))"
    "user_version (snd (runMigrations ?ms (old_schema [None, None, Some EOF]))) =
       (if ms = [] then user_version (old_schema [None, None, Some EOF]) else version (last ms))"
    using runMigrations_prefix [OF prod.collapse [symmetric] pend [symmetric], of "[None, None, Some EOF]"] by blast
  have "ms = []" using ms(1,3) uv by (cases ms) (auto simp: schemaMigrations_def split: if_splits)
  then have "stored (snd (runMigrations ?ms (old_schema [None, None, Some EOF]))) = stored (old_schema [None, None, Some EOF])"
    using ms(2) by (auto elim: migrated.cases)
  then show ?thesis using v by (simp add: stored_def old_schema_def)
qed

end
