(* ===== verification/Cron_Jobs.thy ===== *)
theory Cron_Jobs
  imports GoTime
begin

text \<open>
  Scheduled jobs, \<^verbatim>\<open>internal/cron/cron.go\<close>, \<^verbatim>\<open>batch.go\<close>, \<^verbatim>\<open>seed.go\<close> and the schedule arithmetic of
  \<^verbatim>\<open>scheduler.go\<close>: the job data, the next run of a schedule, the text form of job files, and merging jobs
  from files into the store. A Go pointer to a number is an option. The cron expression library and the
  time zone database are the record \<open>cron_lib\<close>; \<open>lib_Next\<close> takes and returns Unix milliseconds.
\<close>

section \<open>Data\<close>

definition KindAt :: string where "KindAt = ''at''"
definition KindEvery :: string where "KindEvery = ''every''"
definition KindCron :: string where "KindCron = ''cron''"
definition fallbackChannel :: string where "fallbackChannel = ''telegram''"
definition sourceModular :: string where "sourceModular = ''modular''"

record Schedule =
  sc_Kind :: string
  sc_AtMS :: "int option"
  sc_EveryMS :: "int option"
  sc_Expr :: string
  sc_TZ :: string

record Payload =
  pl_ID :: string
  pl_Channel :: string
  pl_Agent :: string
  pl_To :: string
  pl_Subject :: string
  pl_Message :: string

record JobState =
  LastRunAtMS :: int
  NextRunAtMS :: int
  RunCount :: int
  SuccessCount :: int
  FailureCount :: int

record Job =
  job_ID :: string
  job_Source :: string
  job_Name :: string
  job_Enabled :: bool
  job_Schedule :: Schedule
  job_Payload :: Payload
  job_State :: JobState

definition no_schedule :: Schedule where
  "no_schedule = \<lparr>sc_Kind = [], sc_AtMS = None, sc_EveryMS = None, sc_Expr = [], sc_TZ = []\<rparr>"

definition no_state :: JobState where
  "no_state = \<lparr>LastRunAtMS = 0, NextRunAtMS = 0, RunCount = 0, SuccessCount = 0, FailureCount = 0\<rparr>"

section \<open>Next run\<close>

record ('l, 'c) cron_lib =
  lib_LoadLocation :: "string \<Rightarrow> 'l option"
  lib_UTC :: 'l
  lib_Parse :: "string \<Rightarrow> 'c option"
  lib_Next :: "'c \<Rightarrow> 'l \<Rightarrow> int \<Rightarrow> int"

definition computeNextRunAt :: "Schedule \<Rightarrow> int \<Rightarrow> int" where
  "computeNextRunAt s nowMS = (case sc_AtMS s of Some at' \<Rightarrow> if at' > nowMS then at' else 0 | None \<Rightarrow> 0)"

definition computeNextRunEvery :: "Schedule \<Rightarrow> int \<Rightarrow> int" where
  "computeNextRunEvery s nowMS = (case sc_EveryMS s of Some ms \<Rightarrow> if ms > 0 then wrap64 (nowMS + ms) else 0 | None \<Rightarrow> 0)"

definition computeNextRunCron :: "('l, 'c) cron_lib \<Rightarrow> Schedule \<Rightarrow> int \<Rightarrow> int" where
  "computeNextRunCron lib s nowMS =
     (if sc_Expr s = [] then 0
      else
        let loc = (if sc_TZ s \<noteq> [] then (case lib_LoadLocation lib (sc_TZ s) of Some l \<Rightarrow> l | None \<Rightarrow> lib_UTC lib) else lib_UTC lib)
        in case lib_Parse lib (sc_Expr s) of
             None \<Rightarrow> 0
           | Some schedule \<Rightarrow> lib_Next lib schedule loc nowMS)"

definition ComputeNextRun :: "('l, 'c) cron_lib \<Rightarrow> Schedule \<Rightarrow> int \<Rightarrow> int" where
  "ComputeNextRun lib s nowMS =
     (if sc_Kind s = KindAt then computeNextRunAt s nowMS
      else if sc_Kind s = KindEvery then computeNextRunEvery s nowMS
      else if sc_Kind s = KindCron then computeNextRunCron lib s nowMS
      else 0)"

definition ShouldReload :: "int \<Rightarrow> int \<Rightarrow> int \<Rightarrow> int \<Rightarrow> bool" where
  "ShouldReload currentMtime lastMtime currentSize lastSize \<longleftrightarrow> currentMtime \<noteq> lastMtime \<or> currentSize \<noteq> lastSize"

definition ResolveRoutableChannel :: "Payload \<Rightarrow> string \<times> string \<times> bool" where
  "ResolveRoutableChannel p =
     (if Contains (pl_Message p) ''[SILENT]'' then ([], [], True)
      else if pl_Channel p = [] \<or> pl_Channel p = ''cli'' then (fallbackChannel, [], False)
      else (pl_Channel p, pl_To p, False))"

section \<open>Merging jobs from files\<close>

definition take_over :: "Job \<Rightarrow> Job \<Rightarrow> Job" where
  "take_over mj existing =
     existing\<lparr>job_Schedule := job_Schedule mj, job_Payload := job_Payload mj, job_Name := job_Name mj,
       job_Enabled := job_Enabled mj, job_Source := sourceModular\<rparr>"

fun update_first :: "Job \<Rightarrow> Job list \<Rightarrow> Job list option" where
  "update_first mj [] = None"
| "update_first mj (j # js) =
     (if job_ID j \<noteq> job_ID mj then map_option (Cons j) (update_first mj js) else Some (take_over mj j # js))"

fun MergeModularJobs :: "Job list \<Rightarrow> Job list \<Rightarrow> (string \<rightharpoonup> JobState) \<Rightarrow> Job list" where
  "MergeModularJobs storeJobs [] stateCache = storeJobs"
| "MergeModularJobs storeJobs (mj # mjs) stateCache =
     (let mj' = mj\<lparr>job_Source := sourceModular,
                   job_State := (case stateCache (job_ID mj) of Some st \<Rightarrow> st | None \<Rightarrow> job_State mj)\<rparr>
      in MergeModularJobs
           (case update_first mj storeJobs of Some js \<Rightarrow> js | None \<Rightarrow> storeJobs @ [mj']) mjs stateCache)"

definition reconcileModularJobs :: "Job list \<Rightarrow> Job list \<Rightarrow> bool \<Rightarrow> Job list" where
  "reconcileModularJobs storeJobs modularJobs isComplete =
     (let present = job_ID ` set modularJobs;
          retained = filter (\<lambda>job. \<not> isComplete \<or> job_Source job \<noteq> sourceModular \<or> job_ID job \<in> present) storeJobs;
          stateCache = map_of (rev (map (\<lambda>job. (job_ID job, job_State job)) storeJobs))
      in MergeModularJobs retained modularJobs stateCache)"

section \<open>Job files\<close>

definition stripBOM :: "string \<Rightarrow> string" where
  "stripBOM data = (if length data \<ge> 3 \<and> take 3 data = [CHR 0xEF, CHR 0xBB, CHR 0xBF] then drop 3 data else data)"

fun split_lines :: "nat \<Rightarrow> string list \<Rightarrow> nat \<times> string list \<times> string list" where
  "split_lines count [] = (count, [], [])"
| "split_lines count (line # lines) =
     (if TrimSpace line = ''---'' \<and> count < 2 then split_lines (count + 1) lines
      else (case split_lines count lines of
              (n, front, body) \<Rightarrow>
                if count = 1 then (n, line # front, body)
                else if count \<ge> 2 then (n, front, line # body)
                else (n, front, body)))"

definition splitModularFile :: "string \<Rightarrow> (string list \<times> string list) result" where
  "splitModularFile content =
     (case scan_lines content of
        Inl e \<Rightarrow> Inl (wrap_err ''scan modular file'' e)
      | Inr lines \<Rightarrow>
          (case split_lines 0 lines of
             (n, front, body) \<Rightarrow>
               if n < 2 then Inl (ErrorNew ''missing front-matter delimiters'') else Inr (front, body)))"

definition parseFrontMatterLine :: "string \<Rightarrow> string \<times> string" where
  "parseFrontMatterLine line =
     (case SplitN2 (CHR '':'') line of
        (k, None) \<Rightarrow> ([], [])
      | (k, Some v) \<Rightarrow> (ToLower (TrimSpace k), TrimSpace v))"

definition applyFrontMatterField :: "Job \<Rightarrow> string \<Rightarrow> string \<Rightarrow> Job" where
  "applyFrontMatterField job key val =
     (if key = ''id'' then job\<lparr>job_ID := val\<rparr>
      else if key = ''name'' then job\<lparr>job_Name := val\<rparr>
      else if key = ''specialist'' \<or> key = ''channel'' then job\<lparr>job_Payload := (job_Payload job)\<lparr>pl_Channel := val\<rparr>\<rparr>
      else if key = ''agent'' then job\<lparr>job_Payload := (job_Payload job)\<lparr>pl_Agent := val\<rparr>\<rparr>
      else if key = ''to'' then job\<lparr>job_Payload := (job_Payload job)\<lparr>pl_To := val\<rparr>\<rparr>
      else if key = ''subject'' then job\<lparr>job_Payload := (job_Payload job)\<lparr>pl_Subject := val\<rparr>\<rparr>
      else if key = ''enabled'' then job\<lparr>job_Enabled := (ToLower val = ''true'')\<rparr>
      else job)"

fun parseFrontMatter :: "string list \<Rightarrow> Job \<Rightarrow> string \<Rightarrow> string \<times> Job" where
  "parseFrontMatter [] job scheduleStr = (scheduleStr, job)"
| "parseFrontMatter (line # lines) job scheduleStr =
     (case parseFrontMatterLine line of
        (key, val) \<Rightarrow>
          if key = [] \<or> val = [] then parseFrontMatter lines job scheduleStr
          else if key = ''schedule'' then parseFrontMatter lines job val
          else parseFrontMatter lines (applyFrontMatterField job key val) scheduleStr)"

definition unit_ms :: "string \<Rightarrow> int option" where
  "unit_ms u = map_of [(''s'', 1000), (''m'', 60 * 1000), (''h'', 3600 * 1000), (''d'', 86400 * 1000)] u"

definition parseDurationToMS :: "string \<Rightarrow> int result" where
  "parseDurationToMS s =
     (case ParseInt s of
        Inr ms \<Rightarrow> Inr ms
      | Inl _ \<Rightarrow>
          if length s < 2 then Inl (ErrorNew (''invalid duration: '' @ s))
          else
            (case ParseInt (butlast s) of
               Inl _ \<Rightarrow> Inl (ErrorNew (''invalid duration value: '' @ butlast s))
             | Inr val \<Rightarrow>
                 (case unit_ms [last s] of
                    Some ms \<Rightarrow> Inr (wrap64 (val * ms))
                  | None \<Rightarrow> Inl (ErrorNew (''unknown duration unit: '' @ [last s])))))"

definition inside :: "nat \<Rightarrow> string \<Rightarrow> string" where
  "inside n s = butlast (drop n s)"

definition parseScheduleString :: "string \<Rightarrow> Schedule result" where
  "parseScheduleString s0 =
     (let s = TrimSpace s0 in
      if HasPrefix s ''cron('' \<and> HasSuffix s '')'' then
        (let parts = SplitC (CHR '','') (inside 5 s)
         in Inr (no_schedule\<lparr>sc_Kind := KindCron, sc_Expr := TrimSpace (parts ! 0),
                             sc_TZ := (if length parts > 1 then TrimSpace (parts ! 1) else [])\<rparr>))
      else if HasPrefix s ''every('' \<and> HasSuffix s '')'' then
        (case parseDurationToMS (inside 6 s) of
           Inl e \<Rightarrow> Inl e
         | Inr ms \<Rightarrow> Inr (no_schedule\<lparr>sc_Kind := KindEvery, sc_EveryMS := Some ms\<rparr>))
      else if HasPrefix s ''at('' \<and> HasSuffix s '')'' then
        (case ParseInt (inside 3 s) of
           Inl e \<Rightarrow> Inl (wrap_err ''invalid at timestamp'' e)
         | Inr ms \<Rightarrow> Inr (no_schedule\<lparr>sc_Kind := KindAt, sc_AtMS := Some ms\<rparr>))
      else Inl (ErrorNew (''unknown schedule format: '' @ s)))"

text \<open>\<^verbatim>\<open>filepath.Ext\<close> of a file name: from its last dot.\<close>

definition Ext :: "string \<Rightarrow> string" where
  "Ext name = (if CHR ''.'' \<in> set name then CHR ''.'' # rev (takeWhile (\<lambda>c. c \<noteq> CHR ''.'') (rev name)) else [])"

definition default_job :: "string \<Rightarrow> Job" where
  "default_job base =
     \<lparr>job_ID = TrimSuffix base (Ext base), job_Source = [], job_Name = [], job_Enabled = True, job_Schedule = no_schedule,
      job_Payload = \<lparr>pl_ID = [], pl_Channel = ''telegram'', pl_Agent = [], pl_To = [], pl_Subject = [], pl_Message = []\<rparr>,
      job_State = no_state\<rparr>"

definition ParseModularJobFile :: "string \<Rightarrow> string result \<Rightarrow> Job result" where
  "ParseModularJobFile base contents =
     (case contents of
        Inl e \<Rightarrow> Inl (wrap_err ''read file'' e)
      | Inr data \<Rightarrow>
          (case splitModularFile (stripBOM data) of
             Inl e \<Rightarrow> Inl e
           | Inr (front, body) \<Rightarrow>
               (case parseFrontMatter front (default_job base) [] of
                  (scheduleStr, job) \<Rightarrow>
                    if job_ID job = [] then Inl (ErrorNew ''job id is empty'')
                    else if scheduleStr = [] then Inl (ErrorNew ''missing schedule field'')
                    else
                      (case parseScheduleString scheduleStr of
                         Inl e \<Rightarrow> Inl (wrap_err ''parse schedule'' e)
                       | Inr sched \<Rightarrow>
                           Inr (job\<lparr>job_Name := (if job_Name job = [] then job_ID job else job_Name job),
                                    job_Schedule := sched,
                                    job_Payload := (job_Payload job)\<lparr>pl_Message := TrimSpace (Join body [CHR 0x0A])\<rparr>\<rparr>)))))"

text \<open>A directory entry: its name, whether it is a directory, size and modification time or the error of
  asking for them, and its contents or the error of reading it.\<close>

record dir_entry =
  de_Name :: string
  de_IsDir :: bool
  de_Info :: "(int \<times> int) result"
  de_Data :: "string result"

record modularSnapshot =
  ms_jobs :: "Job list"
  ms_fingerprint :: string
  ms_complete :: bool

definition is_job_file :: "dir_entry \<Rightarrow> bool" where
  "is_job_file e \<longleftrightarrow> \<not> de_IsDir e \<and> HasSuffix (ToLower (de_Name e)) ''.md''"

fun add_entry :: "modularSnapshot \<Rightarrow> dir_entry \<Rightarrow> modularSnapshot" where
  "add_entry snap e =
     (if \<not> is_job_file e then snap
      else
        (case de_Info e of
           Inl _ \<Rightarrow> snap\<lparr>ms_complete := False\<rparr>
         | Inr (size', mtime) \<Rightarrow>
             (let snap1 = snap\<lparr>ms_fingerprint := ms_fingerprint snap @
                    Quote (de_Name e) @ '':'' @ Itoa size' @ '':'' @ Itoa mtime @ '';''\<rparr>
              in case ParseModularJobFile (de_Name e) (de_Data e) of
                   Inl _ \<Rightarrow> snap1\<lparr>ms_complete := False\<rparr>
                 | Inr job \<Rightarrow> snap1\<lparr>ms_jobs := ms_jobs snap1 @ [job]\<rparr>)))"

definition loadModularSnapshot :: "string \<Rightarrow> dir_entry list result \<Rightarrow> modularSnapshot result" where
  "loadModularSnapshot itemsDir entries =
     (case entries of
        Inl e \<Rightarrow> Inl (wrap_err (''read items dir '' @ Quote itemsDir) e)
      | Inr es \<Rightarrow> Inr (foldl add_entry \<lparr>ms_jobs = [], ms_fingerprint = [], ms_complete = True\<rparr> es))"

definition LoadModularJobs :: "string \<Rightarrow> dir_entry list result \<Rightarrow> Job list \<times> go_error option" where
  "LoadModularJobs itemsDir entries =
     (case loadModularSnapshot itemsDir entries of
        Inl e \<Rightarrow> ([], Some e)
      | Inr snap \<Rightarrow> (ms_jobs snap, None))"

text \<open>The sum of the modification times of the job files that can be asked for them, in 64 bits.\<close>

definition DetectModularChange :: "dir_entry list result \<Rightarrow> int \<Rightarrow> bool \<times> int" where
  "DetectModularChange entries lastItemsMtime =
     (case entries of
        Inl _ \<Rightarrow> (False, 0)
      | Inr es \<Rightarrow>
          (let mtimes = [mtime. Inr (size', mtime) \<leftarrow> map de_Info (filter is_job_file es)];
               totalMtime = foldl (\<lambda>t m. wrap64 (t + m)) 0 mtimes
           in if mtimes = [] then (lastItemsMtime \<noteq> 0, 0)
              else if totalMtime \<noteq> lastItemsMtime then (True, totalMtime)
              else (False, lastItemsMtime)))"

section \<open>Seeding\<close>

text \<open>The JSON form of the store is the pair of functions \<open>enc\<close> and \<open>dcd\<close>; \<open>file\<close> is the result of reading
  the store's file and \<open>written\<close> the error of writing it. The result has the text written, if any.\<close>

definition loadStoreForSeed :: "(string \<Rightarrow> Job list result) \<Rightarrow> string result \<Rightarrow> Job list result" where
  "loadStoreForSeed dcd file =
     (case file of
        Inl e \<Rightarrow> if IsNotExist e then Inr [] else Inl (wrap_err ''read jobs.json'' e)
      | Inr data \<Rightarrow> (case dcd data of Inl e \<Rightarrow> Inl (wrap_err ''decode jobs json'' e) | Inr jobs \<Rightarrow> Inr jobs))"

definition SeedJob ::
  "(string \<Rightarrow> Job list result) \<Rightarrow> (Job list \<Rightarrow> string result) \<Rightarrow> Job \<Rightarrow> go_error option \<Rightarrow> string result \<Rightarrow>
   bool result \<times> string result" where
  "SeedJob dcd enc job written file =
     (case loadStoreForSeed dcd file of
        Inl e \<Rightarrow> (Inl e, file)
      | Inr jobs \<Rightarrow>
          if list_ex (\<lambda>j. job_ID j = job_ID job) jobs then (Inr False, file)
          else
            (case enc (jobs @ [job]) of
               Inl e \<Rightarrow> (Inl (wrap_err ''encode jobs json'' e), file)
             | Inr data \<Rightarrow>
                 (case written of
                    Some e \<Rightarrow> (Inl (wrap_err ''write jobs.json'' e), file)
                  | None \<Rightarrow> (Inr True, Inr data))))"

definition EveryJob :: "string \<Rightarrow> string \<Rightarrow> string \<Rightarrow> int \<Rightarrow> Job" where
  "EveryJob id' name message intervalMS =
     \<lparr>job_ID = id', job_Source = [], job_Name = name, job_Enabled = True,
      job_Schedule = no_schedule\<lparr>sc_Kind := KindEvery, sc_EveryMS := Some intervalMS\<rparr>,
      job_Payload = \<lparr>pl_ID = id', pl_Channel = [], pl_Agent = [], pl_To = [], pl_Subject = [], pl_Message = message\<rparr>,
      job_State = no_state\<rparr>"

end
