(* ===== verification/Cron_Scheduler.thy ===== *)
theory Cron_Scheduler
  imports Cron_Jobs
begin

text \<open>
  The polling scheduler, \<^verbatim>\<open>internal/cron/scheduler.go\<close>. The scheduler's fields are a record; its files are
  the record \<open>cron_fs\<close>: the store's file with its modification time and contents, the directory of job
  files, the clock, and a script that gives for every access to the store's file the time at which it
  ends and the error it fails with, if any. The JSON form of the store is the pair of functions \<open>dcd\<close> and
  \<open>enc\<close>. The dispatcher is a function from payloads to errors; the goroutines of a poll finish in an
  order that is a parameter, and the calls of different jobs may interleave in any way.
\<close>

section \<open>State\<close>

record Scheduler =
  s_itemsDir :: string
  s_pollInterval :: duration
  s_jobTimeout :: duration
  s_store :: "Job list option"
  lastMtime :: int
  lastSize :: int
  modularFingerprint :: string
  modularCommitted :: bool
  modularDirty :: bool
  lastReloadErr :: "go_error option"
  lastReloadErrAt :: instant

record cron_fs =
  jobs_file :: "(int \<times> string) option"
  items :: "dir_entry list result"
  fs_now :: instant
  fs_script :: "(instant \<times> go_error option) list"

record store_codec =
  dcd :: "string \<Rightarrow> Job list result"
  enc :: "Job list \<Rightarrow> string result"

record dispatcher =
  di_Dispatch :: "Payload \<Rightarrow> go_error option"
  di_Alert :: "(Payload \<Rightarrow> go_error option) option"

datatype dispatch_call = DispatchCall Payload | AlertCall Payload

section \<open>Files\<close>

definition fs_call :: "cron_fs \<Rightarrow> go_error option \<times> cron_fs" where
  "fs_call fs = (case fs_script fs of [] \<Rightarrow> (None, fs) | (t, e) # rest \<Rightarrow> (e, fs\<lparr>fs_now := t, fs_script := rest\<rparr>))"

definition stat_file :: "cron_fs \<Rightarrow> (int \<times> int) result \<times> cron_fs" where
  "stat_file fs =
     (case fs_call fs of
        (Some e, fs1) \<Rightarrow> (Inl e, fs1)
      | (None, fs1) \<Rightarrow>
          (case jobs_file fs1 of
             None \<Rightarrow> (Inl (NotExist ''jobs.json''), fs1)
           | Some (mtime, data) \<Rightarrow> (Inr (mtime, int (length data)), fs1)))"

definition read_file :: "cron_fs \<Rightarrow> string result \<times> cron_fs" where
  "read_file fs =
     (case fs_call fs of
        (Some e, fs1) \<Rightarrow> (Inl e, fs1)
      | (None, fs1) \<Rightarrow>
          (case jobs_file fs1 of None \<Rightarrow> (Inl (NotExist ''jobs.json''), fs1) | Some (mtime, data) \<Rightarrow> (Inr data, fs1)))"

text \<open>\<^verbatim>\<open>state.WriteFileAtomic\<close>: the whole contents or nothing.\<close>

definition write_file :: "string \<Rightarrow> cron_fs \<Rightarrow> go_error option \<times> cron_fs" where
  "write_file data fs =
     (case fs_call fs of
        (Some e, fs1) \<Rightarrow> (Some e, fs1)
      | (None, fs1) \<Rightarrow> (None, fs1\<lparr>jobs_file := Some (fs_now fs1, data)\<rparr>))"

section \<open>Operations\<close>

definition NewScheduler :: "store_codec \<Rightarrow> string \<Rightarrow> cron_fs \<Rightarrow> Scheduler \<times> cron_fs" where
  "NewScheduler codec itemsDir fs =
     (let s = \<lparr>s_itemsDir = itemsDir, s_pollInterval = 30 * second, s_jobTimeout = 10 * minute, s_store = None,
               lastMtime = 0, lastSize = 0, modularFingerprint = [], modularCommitted = False, modularDirty = False,
               lastReloadErr = None, lastReloadErrAt = 0\<rparr>
      in case stat_file fs of
           (Inl _, fs1) \<Rightarrow> (s, fs1)
         | (Inr (mtime, size'), fs1) \<Rightarrow>
             (let s1 = s\<lparr>lastMtime := mtime, lastSize := size'\<rparr> in
              case read_file fs1 of
                (Inl _, fs2) \<Rightarrow> (s1, fs2)
              | (Inr data, fs2) \<Rightarrow>
                  (case dcd codec data of Inl _ \<Rightarrow> (s1, fs2) | Inr jobs \<Rightarrow> (s1\<lparr>s_store := Some jobs\<rparr>, fs2))))"

definition Jobs :: "Scheduler \<Rightarrow> Job list" where
  "Jobs s = (case s_store s of None \<Rightarrow> [] | Some jobs \<Rightarrow> jobs)"

definition WithJobTimeout :: "duration \<Rightarrow> Scheduler \<Rightarrow> Scheduler" where
  "WithJobTimeout d s = s\<lparr>s_jobTimeout := d\<rparr>"

definition recordReloadError :: "instant \<Rightarrow> go_error \<Rightarrow> Scheduler \<Rightarrow> Scheduler" where
  "recordReloadError now err s =
     (if lastReloadErr s = None then s\<lparr>lastReloadErr := Some err, lastReloadErrAt := now\<rparr>
      else s\<lparr>lastReloadErr := Some err\<rparr>)"

definition clearReloadError :: "Scheduler \<Rightarrow> Scheduler" where
  "clearReloadError s = (if lastReloadErr s \<noteq> None then s\<lparr>lastReloadErr := None, lastReloadErrAt := 0\<rparr> else s)"

definition checkPersistentReloadFailure :: "instant \<Rightarrow> Scheduler \<Rightarrow> Scheduler" where
  "checkPersistentReloadFailure now s =
     (if lastReloadErr s \<noteq> None \<and> time_Sub now (lastReloadErrAt s) \<ge> 5 * minute then s\<lparr>lastReloadErrAt := now\<rparr> else s)"

definition writeStore :: "store_codec \<Rightarrow> Scheduler \<Rightarrow> cron_fs \<Rightarrow> go_error option \<times> Scheduler \<times> cron_fs" where
  "writeStore codec s fs =
     (case enc codec (Jobs s) of
        Inl e \<Rightarrow> (Some (wrap_err ''encode jobs store'' (wrap_err ''encode jobs json'' e)), s, fs)
      | Inr data \<Rightarrow>
          (case write_file data fs of
             (Some e, fs1) \<Rightarrow> (Some (wrap_err ''save jobs store'' e), s, fs1)
           | (None, fs1) \<Rightarrow>
               (let s1 = s\<lparr>modularDirty := False\<rparr> in
                case stat_file fs1 of
                  (Inl _, fs2) \<Rightarrow> (None, s1, fs2)
                | (Inr (mtime, size'), fs2) \<Rightarrow> (None, s1\<lparr>lastMtime := mtime, lastSize := size'\<rparr>, fs2))))"

definition saveStore :: "store_codec \<Rightarrow> Scheduler \<Rightarrow> cron_fs \<Rightarrow> Scheduler \<times> cron_fs" where
  "saveStore codec s fs = snd (writeStore codec s fs)"

definition reload_contents :: "store_codec \<Rightarrow> int \<Rightarrow> int \<Rightarrow> Scheduler \<Rightarrow> cron_fs \<Rightarrow> Scheduler \<times> cron_fs" where
  "reload_contents codec mtime size' s fs =
     (case read_file fs of
        (Inl e, fs1) \<Rightarrow> (recordReloadError (fs_now fs1) (wrap_err ''read jobs.json'' e) s, fs1)
      | (Inr data, fs1) \<Rightarrow>
          (case dcd codec data of
             Inl e \<Rightarrow> (recordReloadError (fs_now fs1) (wrap_err ''decode jobs.json'' (wrap_err ''decode jobs json'' e)) s, fs1)
           | Inr jobs \<Rightarrow>
               (clearReloadError (s\<lparr>s_store := Some jobs, modularCommitted := False, lastMtime := mtime, lastSize := size'\<rparr>), fs1)))"

definition reloadJobsJSON :: "store_codec \<Rightarrow> Scheduler \<Rightarrow> cron_fs \<Rightarrow> Scheduler \<times> cron_fs" where
  "reloadJobsJSON codec s fs =
     (if modularDirty s then (s, fs)
      else
        (case stat_file fs of
           (Inl e, fs1) \<Rightarrow>
             (checkPersistentReloadFailure (fs_now fs1)
                (if lastMtime s \<noteq> 0 then recordReloadError (fs_now fs1) (wrap_err ''stat jobs.json'' e) s else s), fs1)
         | (Inr (mtime, size'), fs1) \<Rightarrow>
             if \<not> ShouldReload mtime (lastMtime s) size' (lastSize s)
             then (checkPersistentReloadFailure (fs_now fs1) s, fs1)
             else
               (case reload_contents codec mtime size' s fs1 of
                  (s1, fs2) \<Rightarrow> (checkPersistentReloadFailure (fs_now fs2) s1, fs2))))"

definition reconcileSnapshot :: "store_codec \<Rightarrow> modularSnapshot \<Rightarrow> Scheduler \<Rightarrow> cron_fs \<Rightarrow> Scheduler \<times> cron_fs" where
  "reconcileSnapshot codec snapshot s0 fs =
     (let s = (if s_store s0 = None then s0\<lparr>s_store := Some []\<rparr> else s0);
          jobs = reconcileModularJobs (Jobs s) (ms_jobs snapshot) (ms_complete snapshot);
          s1 = (if Jobs s \<noteq> jobs \<and> (Jobs s \<noteq> [] \<or> jobs \<noteq> []) then s\<lparr>s_store := Some jobs, modularDirty := True\<rparr> else s);
          commit = (\<lambda>s. if ms_complete snapshot then s\<lparr>modularFingerprint := ms_fingerprint snapshot, modularCommitted := True\<rparr> else s)
      in if modularDirty s1 then
           (case writeStore codec s1 fs of
              (Some _, s2, fs1) \<Rightarrow> (s2, fs1)
            | (None, s2, fs1) \<Rightarrow> (commit s2, fs1))
         else (commit s1, fs))"

definition reloadModularJobs :: "store_codec \<Rightarrow> Scheduler \<Rightarrow> cron_fs \<Rightarrow> Scheduler \<times> cron_fs" where
  "reloadModularJobs codec s fs =
     (if s_itemsDir s = [] then (s, fs)
      else
        (case loadModularSnapshot (s_itemsDir s) (items fs) of
           Inl _ \<Rightarrow> if modularDirty s then saveStore codec s fs else (s, fs)
         | Inr snapshot \<Rightarrow>
             if ms_complete snapshot \<and> modularCommitted s \<and> \<not> modularDirty s \<and> ms_fingerprint snapshot = modularFingerprint s
             then (s, fs)
             else reconcileSnapshot codec snapshot s fs))"

section \<open>Running jobs\<close>

record dueJob =
  dj_index :: nat
  dj_id :: string
  dj_name :: string
  dj_payload :: Payload
  dj_sched :: Schedule

type_synonym dispatchResult = "nat \<times> go_error option"

definition is_due :: "int \<Rightarrow> Job \<Rightarrow> bool" where
  "is_due nowMS job \<longleftrightarrow> job_Enabled job \<and> NextRunAtMS (job_State job) > 0 \<and> nowMS \<ge> NextRunAtMS (job_State job)"

fun identifyDueJobs :: "('l, 'c) cron_lib \<Rightarrow> int \<Rightarrow> nat \<Rightarrow> Job list \<Rightarrow> Job list \<times> dueJob list \<times> bool" where
  "identifyDueJobs lib nowMS i [] = ([], [], False)"
| "identifyDueJobs lib nowMS i (job # rest) =
     (case identifyDueJobs lib nowMS (Suc i) rest of
        (jobs, due, changed) \<Rightarrow>
          if \<not> job_Enabled job then (job # jobs, due, changed)
          else if NextRunAtMS (job_State job) = 0 then
            (job\<lparr>job_State := (job_State job)\<lparr>NextRunAtMS := ComputeNextRun lib (job_Schedule job) nowMS\<rparr>\<rparr> # jobs, due, True)
          else if is_due nowMS job then
            (job\<lparr>job_State := (job_State job)\<lparr>RunCount := RunCount (job_State job) + 1, LastRunAtMS := nowMS\<rparr>\<rparr> # jobs,
             \<lparr>dj_index = i, dj_id = job_ID job, dj_name = job_Name job, dj_payload = job_Payload job,
              dj_sched = job_Schedule job\<rparr> # due, True)
          else (job # jobs, due, changed))"

definition alert_payload :: "dueJob \<Rightarrow> go_error \<Rightarrow> Payload" where
  "alert_payload dj err =
     \<lparr>pl_ID = [], pl_Channel = pl_Channel (dj_payload dj), pl_Agent = [], pl_To = pl_To (dj_payload dj), pl_Subject = [],
      pl_Message = ''Job '' @ Quote (dj_name dj) @ '' failed: '' @ error_msg err\<rparr>"

definition sendFailureAlert :: "dispatcher \<Rightarrow> dueJob \<Rightarrow> go_error \<Rightarrow> dispatch_call list" where
  "sendFailureAlert d dj err =
     (if as_already_notified err then []
      else if di_Alert d \<noteq> None then [AlertCall (alert_payload dj err)]
      else [DispatchCall (alert_payload dj err)])"

definition executeJob :: "dispatcher \<Rightarrow> dueJob \<Rightarrow> go_error option \<times> dispatch_call list" where
  "executeJob d dj =
     (let p = (dj_payload dj)\<lparr>pl_ID := dj_id dj\<rparr> in
      case di_Dispatch d p of
        Some err \<Rightarrow> (Some (wrap_err ''dispatch job'' err), DispatchCall p # sendFailureAlert d dj err)
      | None \<Rightarrow> (None, [DispatchCall p]))"

definition runJobsConcurrently ::
  "dispatcher \<Rightarrow> (dispatchResult list \<Rightarrow> dispatchResult list) \<Rightarrow> dueJob list \<Rightarrow> dispatchResult list \<times> dispatch_call list" where
  "runJobsConcurrently d order due =
     (order (map (\<lambda>dj. (dj_index dj, fst (executeJob d dj))) due), concat (map (\<lambda>dj. snd (executeJob d dj)) due))"

definition set_state :: "nat \<Rightarrow> (Job \<Rightarrow> JobState) \<Rightarrow> Job list \<Rightarrow> Job list" where
  "set_state i f jobs = jobs[i := (jobs ! i)\<lparr>job_State := f (jobs ! i)\<rparr>]"

definition record_result :: "('l, 'c) cron_lib \<Rightarrow> int \<Rightarrow> Job list \<Rightarrow> dispatchResult \<Rightarrow> Job list" where
  "record_result lib completionMS jobs r =
     set_state (fst r)
       (\<lambda>j. (case snd r of
               Some _ \<Rightarrow> (job_State j)\<lparr>FailureCount := FailureCount (job_State j) + 1\<rparr>
             | None \<Rightarrow> (job_State j)\<lparr>SuccessCount := SuccessCount (job_State j) + 1\<rparr>)
            \<lparr>NextRunAtMS := ComputeNextRun lib (job_Schedule j) completionMS\<rparr>) jobs"

text \<open>One poll; \<open>finish\<close> is the clock when the last job of the poll has ended.\<close>

definition poll ::
  "('l, 'c) cron_lib \<Rightarrow> store_codec \<Rightarrow> dispatcher option \<Rightarrow> (dispatchResult list \<Rightarrow> dispatchResult list) \<Rightarrow> instant \<Rightarrow>
   Scheduler \<Rightarrow> cron_fs \<Rightarrow> dispatch_call list \<times> Scheduler \<times> cron_fs" where
  "poll lib codec disp order finish s fs =
     (case reloadJobsJSON codec s fs of (s1, fs1) \<Rightarrow>
      case reloadModularJobs codec s1 fs1 of (s2, fs2) \<Rightarrow>
        (case s_store s2 of
           None \<Rightarrow> ([], s2, fs2)
         | Some jobs \<Rightarrow>
             (let nowMS = fs_now fs2 div millisecond in
              case identifyDueJobs lib nowMS 0 jobs of (jobs', due, changed) \<Rightarrow>
                (let s3 = s2\<lparr>s_store := Some jobs'\<rparr> in
                 if due = [] then ([], if changed then saveStore codec s3 fs2 else (s3, fs2))
                 else
                   (case disp of
                      None \<Rightarrow>
                        ([], saveStore codec
                               (s3\<lparr>s_store := Some (foldl (\<lambda>js dj. set_state (dj_index dj)
                                  (\<lambda>j. (job_State j)\<lparr>NextRunAtMS := ComputeNextRun lib (dj_sched dj) nowMS\<rparr>) js) jobs' due)\<rparr>) fs2)
                    | Some d \<Rightarrow>
                        (case runJobsConcurrently d order due of (results, calls) \<Rightarrow>
                           (calls, saveStore codec
                              (s3\<lparr>s_store := Some (foldl (record_result lib (finish div millisecond)) jobs' results)\<rparr>)
                              (fs2\<lparr>fs_now := finish\<rparr>))))))))"

end
