(* ===== verification/Cron_Laws.thy ===== *)
theory Cron_Laws
  imports Cron_Scheduler "HOL-Library.Multiset"
begin

text \<open>
  What a poll of the scheduler does to the jobs, stated job by job: \<open>job_after\<close> is the reference that the
  indices, the concurrent runs and the write-back of \<^verbatim>\<open>poll\<close> amount to. Histories of polls follow from it:
  one-shot jobs run once, interval jobs keep their distance and do run; and jobs whose next run is
  negative never run again.
\<close>

section \<open>One poll\<close>

definition outcome :: "dispatcher \<Rightarrow> Job \<Rightarrow> go_error option" where
  "outcome d j = di_Dispatch d ((job_Payload j)\<lparr>pl_ID := job_ID j\<rparr>)"

definition job_after :: "('l, 'c) cron_lib \<Rightarrow> dispatcher \<Rightarrow> int \<Rightarrow> int \<Rightarrow> Job \<Rightarrow> Job" where
  "job_after lib d nowMS completionMS j =
     (let st = job_State j in
      if job_Enabled j \<and> NextRunAtMS st = 0 then
        j\<lparr>job_State := st\<lparr>NextRunAtMS := ComputeNextRun lib (job_Schedule j) nowMS\<rparr>\<rparr>
      else if is_due nowMS j then
        j\<lparr>job_State := \<lparr>LastRunAtMS = nowMS, NextRunAtMS = ComputeNextRun lib (job_Schedule j) completionMS,
           RunCount = RunCount st + 1, SuccessCount = SuccessCount st + (if outcome d j = None then 1 else 0),
           FailureCount = FailureCount st + (if outcome d j = None then 0 else 1)\<rparr>\<rparr>
      else j)"

definition due_of :: "nat \<Rightarrow> Job \<Rightarrow> dueJob" where
  "due_of i j = \<lparr>dj_index = i, dj_id = job_ID j, dj_name = job_Name j, dj_payload = job_Payload j, dj_sched = job_Schedule j\<rparr>"

definition marked :: "('l, 'c) cron_lib \<Rightarrow> int \<Rightarrow> Job \<Rightarrow> Job" where
  "marked lib nowMS j =
     (let st = job_State j in
      if job_Enabled j \<and> NextRunAtMS st = 0 then
        j\<lparr>job_State := st\<lparr>NextRunAtMS := ComputeNextRun lib (job_Schedule j) nowMS\<rparr>\<rparr>
      else if is_due nowMS j then j\<lparr>job_State := st\<lparr>RunCount := RunCount st + 1, LastRunAtMS := nowMS\<rparr>\<rparr>
      else j)"

definition due_list :: "int \<Rightarrow> nat \<Rightarrow> Job list \<Rightarrow> dueJob list" where
  "due_list nowMS i jobs = map (\<lambda>(k, j). due_of k j) (filter (\<lambda>(k, j). is_due nowMS j) (enumerate i jobs))"

lemma due_list_Cons:
  "due_list nowMS i (j # js) = (if is_due nowMS j then due_of i j # due_list nowMS (Suc i) js else due_list nowMS (Suc i) js)"
  by (simp add: due_list_def)

lemma identifyDueJobs_eq:
  "fst (identifyDueJobs lib nowMS i jobs) = map (marked lib nowMS) jobs \<and>
   fst (snd (identifyDueJobs lib nowMS i jobs)) = due_list nowMS i jobs"
proof (induction jobs arbitrary: i)
  case Nil
  then show ?case by (simp add: due_list_def)
next
  case (Cons j js)
  obtain x y z where x: "identifyDueJobs lib nowMS (Suc i) js = (x, y, z)" by (metis prod_cases3)
  then have "x = map (marked lib nowMS) js" "y = due_list nowMS (Suc i) js" using Cons.IH [of "Suc i"] by simp_all
  moreover have "is_due nowMS j \<Longrightarrow> job_Enabled j \<and> NextRunAtMS (job_State j) \<noteq> 0" by (auto simp: is_due_def)
  ultimately show ?case by (auto simp: x due_list_Cons marked_def due_of_def Let_def)
qed

lemma due_list_index: "map dj_index (due_list nowMS i jobs) = map fst (filter (\<lambda>(k, j). is_due nowMS j) (enumerate i jobs))"
  by (auto simp: due_list_def due_of_def intro: map_cong)

lemma distinct_due_index: "distinct (map dj_index (due_list nowMS i jobs))"
  unfolding due_list_index by (rule distinct_map_filter) simp

lemma due_list_Nil_iff: "due_list nowMS i jobs = [] \<longleftrightarrow> (\<forall>j \<in> set jobs. \<not> is_due nowMS j)"
  by (induction jobs arbitrary: i) (simp_all add: due_list_Cons, simp add: due_list_def)

lemma record_result_same:
  "js ! i = js' ! i \<Longrightarrow> i < length js \<Longrightarrow> i < length js' \<Longrightarrow> record_result lib c js (i, e) ! i = record_result lib c js' (i, e) ! i"
  by (cases e) (simp_all add: record_result_def set_state_def)

text \<open>Results at different indices can be written back in any order.\<close>

lemma record_results_nth:
  assumes "distinct (map fst rs)" "i < length jobs"
  shows "length (foldl (record_result lib c) jobs rs) = length jobs \<and>
    foldl (record_result lib c) jobs rs ! i =
      (case map_of rs i of None \<Rightarrow> jobs ! i | Some e \<Rightarrow> record_result lib c jobs (i, e) ! i)"
  using assms
proof (induction rs arbitrary: jobs)
  case (Cons r rs)
  let ?js = "record_result lib c jobs r"
  have len: "length ?js = length jobs" by (simp add: record_result_def set_state_def)
  have IH: "length (foldl (record_result lib c) ?js rs) = length ?js \<and> foldl (record_result lib c) ?js rs ! i =
      (case map_of rs i of None \<Rightarrow> ?js ! i | Some e \<Rightarrow> record_result lib c ?js (i, e) ! i)"
    using Cons len by simp
  show ?case
  proof (cases "fst r = i")
    case True
    then have "map_of rs i = None" using Cons.prems by (auto simp: map_of_eq_None_iff)
    then show ?thesis using IH True len by (cases r) simp
  next
    case False
    then have same: "?js ! i = jobs ! i" by (simp add: record_result_def set_state_def)
    then have "record_result lib c ?js (i, e) ! i = record_result lib c jobs (i, e) ! i" for e
      using record_result_same Cons.prems(2) len by metis
    then show ?thesis using IH False len same by (cases r) (simp split: option.splits)
  qed
qed simp

lemma distinct_fst_perm: "mset xs = mset ys \<Longrightarrow> distinct (map fst xs) = distinct (map fst ys)"
  by (rule mset_eq_imp_distinct_iff) simp

lemma map_of_perm:
  assumes "mset xs = mset ys" "distinct (map fst xs)"
  shows "map_of xs = map_of ys"
proof -
  have "distinct (map fst ys)" using distinct_fst_perm [OF assms(1)] assms(2) by simp
  moreover have "set xs = set ys" using assms(1) by (rule mset_eq_setD)
  ultimately show ?thesis using map_of_inject_set [OF assms(2)] by blast
qed

lemma map_of_due:
  assumes "i < length jobs"
  shows "map_of (map (\<lambda>dj. (dj_index dj, f dj)) (due_list nowMS 0 jobs)) i =
    (if is_due nowMS (jobs ! i) then Some (f (due_of i (jobs ! i))) else None)"
proof -
  let ?ps = "filter (\<lambda>(k, j). is_due nowMS j) (enumerate 0 jobs)"
  have eq: "map (\<lambda>dj. (dj_index dj, f dj)) (due_list nowMS 0 jobs) = map (\<lambda>(k, j). (k, f (due_of k j))) ?ps"
    by (auto simp: due_list_def due_of_def intro: map_cong)
  have d: "distinct (map fst (map (\<lambda>(k, j). (k, f (due_of k j))) ?ps))"
  proof -
    have "map fst (map (\<lambda>(k, j). (k, f (due_of k j))) ?ps) = map fst ?ps" 
      by (simp add: comp_def case_prod_beta)
    then show ?thesis using distinct_map_filter [of fst "enumerate 0 jobs" "\<lambda>(k, j). is_due nowMS j"]
      by (simp only: distinct_enumerate map_fst_enumerate distinct_upt)
  qed
  show ?thesis
  proof (cases "is_due nowMS (jobs ! i)")
    case True
    then have "(i, f (due_of i (jobs ! i))) \<in> set (map (\<lambda>(k, j). (k, f (due_of k j))) ?ps)"
      using assms by (force simp: in_set_enumerate_eq image_iff)
    then show ?thesis using True eq map_of_is_SomeI [OF d] by simp
  next
    case False
    have "i \<notin> fst ` set (map (\<lambda>(k, j). (k, f (due_of k j))) ?ps)"
      using False by (auto simp: in_set_enumerate_eq)
    then show ?thesis using False eq by (simp add: map_of_eq_None_iff)
  qed
qed

lemma saveStore_store: "saveStore codec s fs = (s', fs') \<Longrightarrow> s_store s' = s_store s"
  by (auto simp: saveStore_def writeStore_def Let_def split: sum.splits prod.splits option.splits)

text \<open>The state after the two reloads of a poll, and the clock then.\<close>

definition reloaded :: "store_codec \<Rightarrow> Scheduler \<Rightarrow> cron_fs \<Rightarrow> Scheduler \<times> cron_fs" where
  "reloaded codec s fs = (case reloadJobsJSON codec s fs of (s1, fs1) \<Rightarrow> reloadModularJobs codec s1 fs1)"

definition poll_now :: "store_codec \<Rightarrow> Scheduler \<Rightarrow> cron_fs \<Rightarrow> int" where
  "poll_now codec s fs = fs_now (snd (reloaded codec s fs)) div millisecond"

lemma results_after:
  assumes "mset (order (map (\<lambda>dj. (dj_index dj, fst (executeJob d dj))) (due_list nowMS 0 jobs))) =
      mset (map (\<lambda>dj. (dj_index dj, fst (executeJob d dj))) (due_list nowMS 0 jobs))"
  shows "foldl (record_result lib c) (map (marked lib nowMS) jobs)
      (order (map (\<lambda>dj. (dj_index dj, fst (executeJob d dj))) (due_list nowMS 0 jobs))) = map (job_after lib d nowMS c) jobs"
    (is "foldl ?f ?js ?rs = _")
proof (rule nth_equalityI)
  let ?us = "map (\<lambda>dj. (dj_index dj, fst (executeJob d dj))) (due_list nowMS 0 jobs)"
  have du: "distinct (map fst ?us)" using distinct_due_index [of nowMS 0 jobs] by (simp add: comp_def)
  then have dr: "distinct (map fst ?rs)" using distinct_fst_perm [OF assms] by simp
  have m: "map_of ?rs = map_of ?us" using map_of_perm [OF assms dr] .
  show len: "length (foldl ?f ?js ?rs) = length (map (job_after lib d nowMS c) jobs)"
  proof (cases jobs)
    case Nil
    then have "?us = []" by (simp add: due_list_def)
    then have "?rs = []" using assms by simp
    then show ?thesis using Nil by simp
  next
    case (Cons a list)
    then show ?thesis using record_results_nth [OF dr, of 0 ?js lib c] by simp
  qed
  fix i assume "i < length (foldl ?f ?js ?rs)"
  then have i: "i < length jobs" using len by simp
  have exec: "fst (executeJob d (due_of i (jobs ! i))) = None \<longleftrightarrow> outcome d (jobs ! i) = None"
    by (simp add: executeJob_def outcome_def due_of_def Let_def split: option.splits)
  show "foldl ?f ?js ?rs ! i = map (job_after lib d nowMS c) jobs ! i"
    using record_results_nth [OF dr, of i ?js lib c] i exec
    unfolding m map_of_due [OF i]
    by (auto simp: record_result_def set_state_def marked_def job_after_def Let_def is_due_def split: option.splits)
qed

lemma calls_due:
  "concat (map (\<lambda>dj. snd (executeJob d dj)) (due_list nowMS i jobs)) =
   concat (map (\<lambda>j. snd (executeJob d (due_of 0 j))) (filter (is_due nowMS) jobs))"
proof -
  have "snd (executeJob d (due_of k j)) = snd (executeJob d (due_of 0 j))" for k j
    by (simp add: executeJob_def due_of_def sendFailureAlert_def alert_payload_def Let_def split: option.splits)
  then show ?thesis
    by (induction jobs arbitrary: i) (auto simp: due_list_def)
qed

lemma poll_reference:
  assumes re: "reloaded codec s fs = (s2, fs2)" "s_store s2 = Some jobs"
    and order: "\<forall>rs. mset (order rs) = mset rs"
    and run: "poll lib codec (Some d) order finish s fs = (calls, s', fs')"
  shows "s_store s' = Some (map (job_after lib d (poll_now codec s fs) (finish div millisecond)) jobs) \<and>
    calls = concat (map (\<lambda>j. snd (executeJob d (due_of 0 j))) (filter (is_due (poll_now codec s fs)) jobs))"
proof -
  obtain s1 fs1 where r1: "reloadJobsJSON codec s fs = (s1, fs1)" by (cases "reloadJobsJSON codec s fs")
  have r2: "reloadModularJobs codec s1 fs1 = (s2, fs2)" using re(1) r1 by (simp add: reloaded_def)
  have now: "poll_now codec s fs = fs_now fs2 div millisecond" using re(1) by (simp add: poll_now_def)
  obtain js due ch where id: "identifyDueJobs lib (fs_now fs2 div millisecond) 0 jobs = (js, due, ch)"
    by (metis prod_cases3)
  then have js: "js = map (marked lib (fs_now fs2 div millisecond)) jobs" "due = due_list (fs_now fs2 div millisecond) 0 jobs"
    using identifyDueJobs_eq [of lib "fs_now fs2 div millisecond" 0 jobs] by simp_all
  show ?thesis
  proof (cases "due = []")
    case True
    then have nd: "\<not> is_due (fs_now fs2 div millisecond) j" if "j \<in> set jobs" for j
      using js(2) that by (simp add: due_list_Nil_iff)
    then have "marked lib (fs_now fs2 div millisecond) j = job_after lib d (fs_now fs2 div millisecond) (finish div millisecond) j"
      if "j \<in> set jobs" for j using nd [OF that] by (simp add: marked_def job_after_def Let_def)
    then have "js = map (job_after lib d (fs_now fs2 div millisecond) (finish div millisecond)) jobs" using js(1) by simp
    moreover have "filter (is_due (fs_now fs2 div millisecond)) jobs = []" using nd by (simp add: filter_empty_conv)
    ultimately show ?thesis
      using run r1 r2 re(2) id True by (auto simp: poll_def now Let_def dest: saveStore_store split: if_splits)
  next
    case False
    then show ?thesis
      using run r1 r2 re(2) id js results_after [of order d "fs_now fs2 div millisecond" jobs lib "finish div millisecond"] order
        calls_due [of d "fs_now fs2 div millisecond" 0 jobs]
      by (auto simp: poll_def now Let_def runJobsConcurrently_def dest: saveStore_store)
  qed
qed

definition counted :: "Job \<Rightarrow> bool" where
  "counted j \<longleftrightarrow> RunCount (job_State j) = SuccessCount (job_State j) + FailureCount (job_State j)"

lemma job_after_counted: "counted j \<Longrightarrow> counted (job_after lib d n c j)"
  by (simp add: counted_def job_after_def Let_def)

lemma job_after_simps [simp]:
  "job_ID (job_after lib d n c j) = job_ID j" "job_Enabled (job_after lib d n c j) = job_Enabled j"
  "job_Schedule (job_after lib d n c j) = job_Schedule j" "job_Payload (job_after lib d n c j) = job_Payload j"
  by (simp_all add: job_after_def Let_def)

text \<open>
  \<^bold>\<open>C29.\<close> What a poll does, whatever the order in which its concurrent jobs finish: every enabled job
  whose time has come is dispatched exactly once, its counters and times are updated from its own
  outcome with the next run counted from the completion; a job with no next run gets one; every other
  job is left as it is. Runs stay the sum of successes and failures, and a completion order has no
  influence on the result.
\<close>

theorem poll_exact:
  assumes re: "reloaded codec s fs = (s2, fs2)" "s_store s2 = Some jobs"
    and order: "\<forall>rs. mset (order rs) = mset rs" "\<forall>rs. mset (order' rs) = mset rs"
    and run: "poll lib codec (Some d) order finish s fs = (calls, s', fs')"
      "poll lib codec (Some d) order' finish s fs = (calls', s'', fs'')"
  shows "s_store s' = Some (map (job_after lib d (poll_now codec s fs) (finish div millisecond)) jobs) \<and>
    calls = concat (map (\<lambda>j. snd (executeJob d (due_of 0 j))) (filter (is_due (poll_now codec s fs)) jobs)) \<and>
    s_store s'' = s_store s' \<and> calls' = calls \<and>
    (\<forall>j \<in> set jobs. counted j \<longrightarrow> counted (job_after lib d (poll_now codec s fs) (finish div millisecond) j))"
  using poll_reference [OF re order(1) run(1)] poll_reference [OF re order(2) run(2)] job_after_counted by metis

section \<open>Histories\<close>

text \<open>
  A history of \<open>N\<close> polls: \<open>S n\<close> is the scheduler and \<open>F n\<close> the files when poll \<open>n\<close> starts, \<open>fin n\<close> the clock
  when its jobs have ended, \<open>C n\<close> its calls. Between the polls the files may change as they like, but the
  reloads of these polls bring no new jobs; the clock does not run backwards.
\<close>

definition history ::
  "('l, 'c) cron_lib \<Rightarrow> store_codec \<Rightarrow> dispatcher \<Rightarrow> (dispatchResult list \<Rightarrow> dispatchResult list) \<Rightarrow> nat \<Rightarrow>
   (nat \<Rightarrow> instant) \<Rightarrow> (nat \<Rightarrow> Scheduler) \<Rightarrow> (nat \<Rightarrow> cron_fs) \<Rightarrow> (nat \<Rightarrow> dispatch_call list) \<Rightarrow> bool" where
  "history lib codec d order N fin S F C \<longleftrightarrow>
     (\<forall>rs. mset (order rs) = mset rs) \<and> s_store (S 0) \<noteq> None \<and>
     (\<forall>n < N. (\<exists>fs'. poll lib codec (Some d) order (fin n) (S n) (F n) = (C n, S (Suc n), fs')) \<and>
        s_store (fst (reloaded codec (S n) (F n))) = s_store (S n) \<and>
        poll_now codec (S n) (F n) \<le> fin n div millisecond \<and>
        (Suc n < N \<longrightarrow> fin n div millisecond \<le> poll_now codec (S (Suc n)) (F (Suc n))))"

lemma history_step:
  assumes h: "history lib codec d order N fin S F C" and n: "n < N" and st: "s_store (S n) = Some js"
  shows "s_store (S (Suc n)) = Some (map (job_after lib d (poll_now codec (S n) (F n)) (fin n div millisecond)) js) \<and>
    C n = concat (map (\<lambda>j. snd (executeJob d (due_of 0 j))) (filter (is_due (poll_now codec (S n) (F n))) js))"
proof -
  obtain s2 fs2 where re: "reloaded codec (S n) (F n) = (s2, fs2)" by (cases "reloaded codec (S n) (F n)")
  have "s_store s2 = Some js" using h n st re by (auto simp: history_def)
  moreover obtain fs' where "poll lib codec (Some d) order (fin n) (S n) (F n) = (C n, S (Suc n), fs')"
    using h n unfolding history_def by blast
  ultimately show ?thesis using poll_reference [OF re] h unfolding history_def by blast
qed

text \<open>Job \<open>i\<close> when poll \<open>n\<close> starts.\<close>

definition job_of :: "(nat \<Rightarrow> Scheduler) \<Rightarrow> nat \<Rightarrow> nat \<Rightarrow> Job" where
  "job_of S i n = Jobs (S n) ! i"

lemma history_jobs:
  assumes h: "history lib codec d order N fin S F C" and i: "i < length (Jobs (S 0))"
  shows "n \<le> N \<Longrightarrow> (\<exists>js. s_store (S n) = Some js \<and> length js = length (Jobs (S 0))) \<and>
    job_Enabled (job_of S i n) = job_Enabled (job_of S i 0) \<and> job_Schedule (job_of S i n) = job_Schedule (job_of S i 0)"
proof (induction n)
  case 0
  then show ?case using h by (auto simp: history_def Jobs_def)
next
  case (Suc n)
  then obtain js where js: "s_store (S n) = Some js" "length js = length (Jobs (S 0))" by auto
  have "n < N" using Suc.prems by simp
  from history_step [OF h this js(1)] Suc js i show ?case by (simp add: job_of_def Jobs_def)
qed

lemma history_job_step:
  assumes h: "history lib codec d order N fin S F C" and i: "i < length (Jobs (S 0))" and n: "n < N"
  shows "job_of S i (Suc n) = job_after lib d (poll_now codec (S n) (F n)) (fin n div millisecond) (job_of S i n) \<and>
    (is_due (poll_now codec (S n) (F n)) (job_of S i n) \<longrightarrow>
       DispatchCall ((job_Payload (job_of S i n))\<lparr>pl_ID := job_ID (job_of S i n)\<rparr>) \<in> set (C n))"
proof -
  obtain js where js: "s_store (S n) = Some js" "length js = length (Jobs (S 0))"
    using history_jobs [OF h i, of n] n by auto
  have m: "js ! i \<in> set js" using i js(2) by simp
  have call: "DispatchCall ((job_Payload j)\<lparr>pl_ID := job_ID j\<rparr>) \<in> set (snd (executeJob d (due_of 0 j)))" for j
    by (simp add: executeJob_def due_of_def Let_def split: option.splits)
  note st = history_step [OF h n js(1)]
  have "DispatchCall ((job_Payload (js ! i))\<lparr>pl_ID := job_ID (js ! i)\<rparr>) \<in> set (C n)"
    if "is_due (poll_now codec (S n) (F n)) (js ! i)"
    using st m that call [of "js ! i"] by auto
  then show ?thesis using st js i by (auto simp: job_of_def Jobs_def)
qed

lemma history_times:
  assumes h: "history lib codec d order N fin S F C" and "m < n" "n < N"
  shows "fin m div millisecond \<le> poll_now codec (S n) (F n)"
  using assms(2,3)
proof (induction n)
  case (Suc n)
  have step: "fin n div millisecond \<le> poll_now codec (S (Suc n)) (F (Suc n))" "poll_now codec (S n) (F n) \<le> fin n div millisecond"
    using h Suc.prems unfolding history_def by simp_all
  show ?case using Suc step by (cases "m = n") auto
qed simp

abbreviation next_run :: "(nat \<Rightarrow> Scheduler) \<Rightarrow> nat \<Rightarrow> nat \<Rightarrow> int" where
  "next_run S i n \<equiv> NextRunAtMS (job_State (job_of S i n))"

lemma next_run_step:
  assumes h: "history lib codec d order N fin S F C" and i: "i < length (Jobs (S 0))" and n: "n < N"
  shows "next_run S i (Suc n) =
    (if job_Enabled (job_of S i 0) \<and> next_run S i n = 0 then ComputeNextRun lib (job_Schedule (job_of S i 0)) (poll_now codec (S n) (F n))
     else if is_due (poll_now codec (S n) (F n)) (job_of S i n) then ComputeNextRun lib (job_Schedule (job_of S i 0)) (fin n div millisecond)
     else next_run S i n)"
  using history_job_step [OF h i n] history_jobs [OF h i, of n] n by (auto simp: job_after_def Let_def)


lemma every_next:
  assumes "sc_Kind sch = KindEvery" "sc_EveryMS sch = Some ms" "0 < ms" "int64 (t + ms)"
  shows "ComputeNextRun lib sch t = t + ms"
  using assms by (simp add: ComputeNextRun_def computeNextRunEvery_def KindEvery_def KindAt_def wrap64_id)

text \<open>
  An interval job keeps its distance: two runs are at least its interval apart, counted from the end of
  the first one, so a slow job is never started again right away.
\<close>

theorem every_job_distance:
  assumes h: "history lib codec d order N fin S F C" and i: "i < length (Jobs (S 0))"
    and kind: "sc_Kind (job_Schedule (job_of S i 0)) = KindEvery" "sc_EveryMS (job_Schedule (job_of S i 0)) = Some ms" "0 < ms"
    and range: "\<forall>k < N. 0 \<le> fin k \<and> int64 (fin k div millisecond + ms) \<and> int64 (poll_now codec (S k) (F k) + ms)"
    and m: "m < n" "n < N"
    and due: "is_due (poll_now codec (S m) (F m)) (job_of S i m)" "is_due (poll_now codec (S n) (F n)) (job_of S i n)"
  shows "fin m div millisecond + ms \<le> poll_now codec (S n) (F n)"
proof -
  let ?x = "fin m div millisecond + ms"
  have next': "ComputeNextRun lib (job_Schedule (job_of S i 0)) (fin k div millisecond) = fin k div millisecond + ms" if "k < N" for k
    using every_next [OF kind, of "fin k div millisecond" lib] range that by simp
  have pos: "0 < ?x" using range m kind(3) by (simp add: millisecond_def pos_imp_zdiv_nonneg_iff add_nonneg_pos)
  have "?x \<le> next_run S i k" if "m < k" "k \<le> n" for k
    using that
  proof (induction k)
    case (Suc k)
    have k: "k < N" using Suc.prems m by simp
    show ?case
    proof (cases "k = m")
      case True
      then show ?thesis using next_run_step [OF h i k] due(1) next' [OF k] by (auto simp: is_due_def)
    next
      case False
      then have IH: "?x \<le> next_run S i k" using Suc by simp
      have "fin m div millisecond \<le> fin k div millisecond"
        using history_times [OF h, of m k] False Suc.prems k h unfolding history_def by fastforce
      then show ?thesis using next_run_step [OF h i k] IH pos next' [OF k] by auto
    qed
  qed simp
  then have "?x \<le> next_run S i n" using m by simp
  then show ?thesis using due(2) by (simp add: is_due_def)
qed

text \<open>
  \<^bold>\<open>C30.\<close> An enabled interval job does run, as long as its next run is not negative and the reloads of the polls
  leave the store as it is. A job whose next run is set has been dispatched by the time a poll finds that
  time passed; a job that is new, with next run 0, by the time a poll finds its interval passed since the
  first poll, provided that sum fits 64 bits. (What a negative next run does is \<open>negative_next_run_stuck\<close>;
  a changed interval takes effect after the next run already set.)
\<close>

theorem every_job_runs:
  assumes h: "history lib codec d order N fin S F C" and i: "i < length (Jobs (S 0))"
    and kind: "sc_Kind (job_Schedule (job_of S i 0)) = KindEvery" "sc_EveryMS (job_Schedule (job_of S i 0)) = Some ms" "0 < ms"
    and start: "job_Enabled (job_of S i 0)" "0 \<le> next_run S i 0"
    and range: "next_run S i 0 = 0 \<longrightarrow> 0 \<le> poll_now codec (S 0) (F 0) \<and> int64 (poll_now codec (S 0) (F 0) + ms)"
    and n: "n < N" "(if next_run S i 0 = 0 then poll_now codec (S 0) (F 0) + ms else next_run S i 0) \<le> poll_now codec (S n) (F n)"
  shows "\<exists>k \<le> n. is_due (poll_now codec (S k) (F k)) (job_of S i k) \<and>
    DispatchCall ((job_Payload (job_of S i k))\<lparr>pl_ID := job_ID (job_of S i k)\<rparr>) \<in> set (C k)"
proof -
  let ?x = "if next_run S i 0 = 0 then poll_now codec (S 0) (F 0) + ms else next_run S i 0"
  have pos: "0 < ?x" using start(2) range kind(3) by auto
  have first: "ComputeNextRun lib (job_Schedule (job_of S i 0)) (poll_now codec (S 0) (F 0)) = poll_now codec (S 0) (F 0) + ms"
    if "next_run S i 0 = 0" using every_next [OF kind] range that by blast
  have "\<exists>k \<le> n. is_due (poll_now codec (S k) (F k)) (job_of S i k)"
  proof (rule ccontr)
    assume none: "\<not> ?thesis"
    have nd: "\<not> is_due (poll_now codec (S k) (F k)) (job_of S i k)" if "k \<le> n" for k using none that by blast
    have later: "next_run S i k = ?x" if "0 < k" "k \<le> n" for k
      using that
    proof (induction k)
      case (Suc k)
      have k: "k < N" using Suc.prems n by simp
      show ?case
      proof (cases k)
        case 0
        then show ?thesis using next_run_step [OF h i k] start(1) nd [of k] first by simp
      next
        case (Suc k')
        then have "next_run S i k = ?x" "?x \<noteq> 0" "\<not> is_due (poll_now codec (S k) (F k)) (job_of S i k)"
          using Suc.IH Suc.prems nd [of k] pos by auto
        then show ?thesis using next_run_step [OF h i k] by simp
      qed
    qed simp
    have "next_run S i n = ?x"
    proof (cases "n = 0")
      case True
      then have "next_run S i 0 \<noteq> 0" using n(2) kind(3) by auto
      then show ?thesis using True by simp
    next
      case False
      then show ?thesis using later by simp
    qed
    moreover have "job_Enabled (job_of S i n)" using history_jobs [OF h i, of n] n start by simp
    ultimately have "is_due (poll_now codec (S n) (F n)) (job_of S i n)"
      using n(2) pos by (simp add: is_due_def)
    then show False using none by blast
  qed
  then obtain k where k: "k \<le> n" "is_due (poll_now codec (S k) (F k)) (job_of S i k)" by blast
  then have "k < N" using n by simp
  from history_job_step [OF h i this] k show ?thesis by blast
qed

section \<open>Jobs from files\<close>

text \<open>The merge as a closed form: jobs of the store take over the file of their id, and the files without a
  job follow in order.\<close>

definition file_of :: "Job list \<Rightarrow> Job \<Rightarrow> Job option" where
  "file_of mods j = find (\<lambda>m. job_ID m = job_ID j) mods"

definition merged :: "Job list \<Rightarrow> Job \<Rightarrow> Job" where
  "merged mods j = (case file_of mods j of None \<Rightarrow> j | Some m \<Rightarrow> take_over m j)"

definition fresh_job :: "(string \<rightharpoonup> JobState) \<Rightarrow> Job \<Rightarrow> Job" where
  "fresh_job cache m = m\<lparr>job_Source := sourceModular,
     job_State := (case cache (job_ID m) of Some st \<Rightarrow> st | None \<Rightarrow> job_State m)\<rparr>"

lemma update_first_eq:
  assumes "distinct (map job_ID js)"
  shows "update_first m js =
    (if job_ID m \<in> job_ID ` set js then Some (map (\<lambda>j. if job_ID j = job_ID m then take_over m j else j) js) else None)"
  using assms
proof (induction js)
  case (Cons j js)
  have "map (\<lambda>j. if job_ID j = job_ID m then take_over m j else j) js = js" if "job_ID j = job_ID m"
    using Cons.prems that by (intro map_idI) (auto simp: image_iff)
  then show ?case using Cons by auto
qed simp

lemma take_over_ID [simp]: "job_ID (take_over m j) = job_ID j" "job_State (take_over m j) = job_State j"
  by (simp_all add: take_over_def)

lemma same_ID: "distinct (map job_ID js) \<Longrightarrow> a \<in> set js \<Longrightarrow> b \<in> set js \<Longrightarrow> job_ID a = job_ID b \<Longrightarrow> a = b"
  by (auto simp: distinct_map inj_on_def)

lemma MergeModularJobs_eq:
  assumes "distinct (map job_ID store)" "distinct (map job_ID mods)"
  shows "MergeModularJobs store mods cache =
    map (merged mods) store @ map (fresh_job cache) (filter (\<lambda>m. job_ID m \<notin> job_ID ` set store) mods)"
  using assms
proof (induction mods arbitrary: store)
  case Nil
  then show ?case by (simp add: merged_def file_of_def)
next
  case (Cons m mods)
  have no: "file_of mods j = None" if "job_ID j = job_ID m" for j
    using Cons.prems(2) that by (auto simp: file_of_def find_None_iff image_iff)
  show ?case
  proof (cases "job_ID m \<in> job_ID ` set store")
    case True
    let ?store = "map (\<lambda>j. if job_ID j = job_ID m then take_over m j else j) store"
    have ids: "map job_ID ?store = map job_ID store" by simp
    then have ids': "job_ID ` set ?store = job_ID ` set store" by (metis set_map)
    have "merged mods (if job_ID j = job_ID m then take_over m j else j) = merged (m # mods) j" for j
      using no [of j] no [of "take_over m j"] by (auto simp: merged_def file_of_def)
    then have "map (merged mods) ?store = map (merged (m # mods)) store" by simp
    moreover have "distinct (map job_ID ?store)" using Cons.prems(1) by (simp only: ids)
    ultimately show ?thesis
      using Cons.IH [of ?store] Cons.prems True unfolding ids' by (simp add: update_first_eq Let_def)
  next
    case False
    have "distinct (map job_ID (store @ [fresh_job cache m]))" using Cons.prems False by (auto simp: fresh_job_def)
    moreover have "merged mods (fresh_job cache m) = fresh_job cache m" using no by (simp add: merged_def fresh_job_def)
    moreover have "map (merged mods) store = map (merged (m # mods)) store"
      using False by (auto simp: merged_def file_of_def)
    moreover have "filter (\<lambda>x. job_ID x \<notin> job_ID ` set (store @ [fresh_job cache m])) mods =
        filter (\<lambda>x. job_ID x \<notin> job_ID ` set store) mods"
      using Cons.prems(2) by (intro filter_cong) (auto simp: fresh_job_def image_iff)
    ultimately show ?thesis
      using Cons.IH [of "store @ [fresh_job cache m]"] Cons.prems False
      by (simp add: update_first_eq fresh_job_def Let_def)
  qed
qed

lemma state_cache:
  assumes "distinct (map job_ID js)"
  shows "map_of (rev (map (\<lambda>job. (job_ID job, job_State job)) js)) (job_ID m) =
    map_option job_State (find (\<lambda>j. job_ID j = job_ID m) js)"
proof -
  have "distinct (map fst (map (\<lambda>job. (job_ID job, job_State job)) js))" using assms by (simp add: comp_def)
  then have "map_of (rev (map (\<lambda>job. (job_ID job, job_State job)) js)) = map_of (map (\<lambda>job. (job_ID job, job_State job)) js)"
    by (intro map_of_perm [symmetric]) simp_all
  moreover have "map_of (map (\<lambda>job. (job_ID job, job_State job)) js) k = map_option job_State (find (\<lambda>j. job_ID j = k) js)" for k
    by (induction js) auto
  ultimately show ?thesis by simp
qed

lemma merged_simps [simp]: "job_ID (merged mods j) = job_ID j" "job_State (merged mods j) = job_State j"
  by (simp_all add: merged_def split: option.splits)

lemma reconcile_eq:
  assumes "distinct (map job_ID store)" "distinct (map job_ID mods)"
  shows "reconcileModularJobs store mods whole =
    map (merged mods) (filter (\<lambda>j. \<not> whole \<or> job_Source j \<noteq> sourceModular \<or> job_ID j \<in> job_ID ` set mods) store) @
    map (\<lambda>m. m\<lparr>job_Source := sourceModular\<rparr>) (filter (\<lambda>m. job_ID m \<notin> job_ID ` set store) mods)"
proof -
  let ?keep = "\<lambda>j. \<not> whole \<or> job_Source j \<noteq> sourceModular \<or> job_ID j \<in> job_ID ` set mods"
  let ?cache = "map_of (rev (map (\<lambda>job. (job_ID job, job_State job)) store))"
  have d: "distinct (map job_ID (filter ?keep store))" using assms(1) by (rule distinct_map_filter)
  have new: "job_ID m \<notin> job_ID ` set (filter ?keep store) \<longleftrightarrow> job_ID m \<notin> job_ID ` set store" if "m \<in> set mods" for m
  proof -
    have "j \<in> set (filter ?keep store)" if "j \<in> set store" "job_ID j = job_ID m" for j
      using that imageI [OF \<open>m \<in> set mods\<close>, of job_ID] by simp
    then show ?thesis by (auto simp: image_iff)
  qed
  have "fresh_job ?cache m = m\<lparr>job_Source := sourceModular\<rparr>" if "job_ID m \<notin> job_ID ` set store" for m
  proof -
    have "find (\<lambda>j. job_ID j = job_ID m) store = None" using that by (auto simp: find_None_iff image_iff)
    then show ?thesis using state_cache [OF assms(1), of m] by (simp add: fresh_job_def)
  qed
  then have "map (fresh_job ?cache) (filter (\<lambda>m. job_ID m \<notin> job_ID ` set store) mods) =
      map (\<lambda>m. m\<lparr>job_Source := sourceModular\<rparr>) (filter (\<lambda>m. job_ID m \<notin> job_ID ` set store) mods)" by auto
  moreover have "filter (\<lambda>m. job_ID m \<notin> job_ID ` set (filter ?keep store)) mods = filter (\<lambda>m. job_ID m \<notin> job_ID ` set store) mods"
    using new by (rule filter_cong [OF refl])
  ultimately show ?thesis
    unfolding reconcileModularJobs_def Let_def using MergeModularJobs_eq [OF d assms(2), of ?cache] by simp
qed

text \<open>
  \<^bold>\<open>C34.\<close> Reconciling the store with the job files, when ids are unique: the result is the closed form above.
  So a job that did not come from a file is never removed, a job from a file is removed only when a
  complete reading of the directory no longer has its file, every file ends up as exactly one job with
  the file's schedule, payload, name and switch, and no job loses its run history.
\<close>

theorem reconcile_exact:
  assumes ids: "distinct (map job_ID store)" "distinct (map job_ID mods)"
    and run: "reconcileModularJobs store mods whole = js"
  shows "js = map (merged mods) (filter (\<lambda>j. \<not> whole \<or> job_Source j \<noteq> sourceModular \<or> job_ID j \<in> job_ID ` set mods) store) @
      map (\<lambda>m. m\<lparr>job_Source := sourceModular\<rparr>) (filter (\<lambda>m. job_ID m \<notin> job_ID ` set store) mods) \<and>
    distinct (map job_ID js) \<and>
    (\<forall>j \<in> set store. job_Source j \<noteq> sourceModular \<longrightarrow> merged mods j \<in> set js) \<and>
    (\<forall>j \<in> set js. \<forall>j0 \<in> set store. job_ID j = job_ID j0 \<longrightarrow> job_State j = job_State j0) \<and>
    (\<forall>m \<in> set mods. \<exists>j \<in> set js. job_ID j = job_ID m \<and> job_Schedule j = job_Schedule m \<and>
       job_Payload j = job_Payload m \<and> job_Name j = job_Name m \<and> job_Enabled j = job_Enabled m)"
proof -
  let ?keep = "\<lambda>j. \<not> whole \<or> job_Source j \<noteq> sourceModular \<or> job_ID j \<in> job_ID ` set mods"
  let ?old = "filter ?keep store" and ?new = "filter (\<lambda>m. job_ID m \<notin> job_ID ` set store) mods"
  have js: "js = map (merged mods) ?old @ map (\<lambda>m. m\<lparr>job_Source := sourceModular\<rparr>) ?new"
    using reconcile_eq [OF ids] run by simp
  have "map job_ID js = map job_ID ?old @ map job_ID ?new" unfolding js by simp
  moreover have "distinct (map job_ID ?old @ map job_ID ?new)"
    using distinct_map_filter [OF ids(1), of ?keep] distinct_map_filter [OF ids(2)] by (auto simp: image_iff)
  ultimately have dist: "distinct (map job_ID js)" by simp
  have kept: "merged mods j \<in> set js" if "j \<in> set store" "job_Source j \<noteq> sourceModular" for j using that js by auto
  have same: "job_State j = job_State j0" if j: "j \<in> set js" "j0 \<in> set store" "job_ID j = job_ID j0" for j j0
  proof -
    have "j \<notin> (\<lambda>m. m\<lparr>job_Source := sourceModular\<rparr>) ` set ?new" using j by auto
    then obtain j1 where "j1 \<in> set store" "j = merged mods j1" using j(1) js by auto
    then show ?thesis using same_ID [OF ids(1)] j by (metis merged_simps)
  qed
  have all: "\<exists>j \<in> set js. job_ID j = job_ID m \<and> job_Schedule j = job_Schedule m \<and> job_Payload j = job_Payload m \<and> job_Name j = job_Name m \<and> job_Enabled j = job_Enabled m"
    if m: "m \<in> set mods" for m
  proof (cases "job_ID m \<in> job_ID ` set store")
    case True
    then obtain j where j: "j \<in> set store" "job_ID j = job_ID m" by auto
    obtain m' where f: "file_of mods j = Some m'" using m j by (cases "file_of mods j") (auto simp: file_of_def find_None_iff)
    then have "m' \<in> set mods" "job_ID m' = job_ID m" using j by (auto simp: file_of_def find_Some_iff)
    then have "m' = m" using same_ID [OF ids(2)] m by blast
    then have "merged mods j = take_over m j" using f by (simp add: merged_def)
    moreover have "job_ID j \<in> job_ID ` set mods" using j(2) imageI [OF m, of job_ID] by simp
    then have "merged mods j \<in> set js" using js j by auto
    ultimately show ?thesis using j by (intro bexI [of _ "merged mods j"]) (simp_all add: take_over_def)
  next
    case False
    then have "m\<lparr>job_Source := sourceModular\<rparr> \<in> set js" using js m by auto
    then show ?thesis by (intro bexI [of _ "m\<lparr>job_Source := sourceModular\<rparr>"]) simp_all
  qed
  show ?thesis using js dist kept same all by blast
qed

text \<open>
  A job whose next run has become negative never runs again: no poll dispatches or changes it, and
  correcting its schedule in its file keeps the stored next run. An interval that overflows 64 bits
  gives such a value, and so does a cron expression with no future match, for which the library answers
  with the zero time.
\<close>

theorem negative_next_run_stuck:
  assumes neg: "NextRunAtMS (job_State j) < 0"
    and ids: "distinct (map job_ID store)" "distinct (map job_ID mods)"
    and fix': "j \<in> set store" "m \<in> set mods" "job_ID m = job_ID j"
  shows "\<not> is_due now j \<and> job_after lib d now c j = j \<and>
    (\<exists>j' \<in> set (reconcileModularJobs store mods whole). job_ID j' = job_ID j \<and> job_Schedule j' = job_Schedule m \<and>
       \<not> is_due now j' \<and> job_after lib d now c j' = j') \<and>
    (0 < t \<and> t < 2 ^ 62 \<longrightarrow> ComputeNextRun lib (no_schedule\<lparr>sc_Kind := KindEvery, sc_EveryMS := Some (2 ^ 63 - 1)\<rparr>) t < 0)"
proof -
  have stuck: "\<not> is_due now x \<and> job_after lib d now c x = x" if "NextRunAtMS (job_State x) < 0" for x
    using that by (simp add: is_due_def job_after_def Let_def)
  obtain m' where f: "file_of mods j = Some m'" using fix' by (cases "file_of mods j") (auto simp: file_of_def find_None_iff)
  then have "m' \<in> set mods" "job_ID m' = job_ID m" using fix' by (auto simp: file_of_def find_Some_iff)
  then have "m' = m" using same_ID [OF ids(2)] fix' by blast
  then have e: "merged mods j = take_over m j" using f by (simp add: merged_def)
  have "job_ID j \<in> job_ID ` set mods" using fix'(3) imageI [OF fix'(2), of job_ID] by simp
  then have mem: "merged mods j \<in> set (reconcileModularJobs store mods whole)"
    unfolding reconcile_eq [OF ids] using fix'(1) by auto
  have new: "job_Schedule (merged mods j) = job_Schedule m" "NextRunAtMS (job_State (merged mods j)) < 0"
    using neg by (simp_all add: e, simp add: take_over_def)
  have ex: "\<exists>j' \<in> set (reconcileModularJobs store mods whole). job_ID j' = job_ID j \<and> job_Schedule j' = job_Schedule m \<and>
       \<not> is_due now j' \<and> job_after lib d now c j' = j'"
    using stuck [OF new(2)] new(1) by (intro bexI [OF _ mem]) simp
  have "wrap64 (t + (2 ^ 63 - 1)) < 0" if "0 < t" "t < 2 ^ 62"
  proof -
    have "(18446744073709551615 + t) mod 18446744073709551616 = t - 1"
      by (rule int_mod_pos_eq [where q = 1]) (use that in simp_all)
    then show ?thesis using that by (simp add: wrap64_def)
  qed
  then have "0 < t \<and> t < 2 ^ 62 \<longrightarrow> ComputeNextRun lib (no_schedule\<lparr>sc_Kind := KindEvery, sc_EveryMS := Some (2 ^ 63 - 1)\<rparr>) t < 0"
    by (simp add: ComputeNextRun_def computeNextRunEvery_def KindAt_def KindEvery_def no_schedule_def)
  with ex stuck [OF neg] show ?thesis by simp
qed

section \<open>Schedules as text\<close>

lemma trim_with_stop: "\<forall>r \<in> set rs. r \<noteq> [] \<longrightarrow> hd r \<noteq> c \<Longrightarrow> trim_with rs (c # cs) = c # cs"
proof -
  assume a: "\<forall>r \<in> set rs. r \<noteq> [] \<longrightarrow> hd r \<noteq> c"
  have "find (\<lambda>r. r \<noteq> [] \<and> HasPrefix (c # cs) r) rs = None"
    unfolding find_None_iff
  proof (intro notI, elim exE conjE)
    fix r assume r: "r \<in> set rs" "r \<noteq> []" "HasPrefix (c # cs) r"
    have "hd r = c" using r(2,3) by (cases r) (simp_all add: HasPrefix_def)
    then show False using a r by blast
  qed
  then show ?thesis by (simp add: trim_with.simps)
qed

text \<open>Text between visible ASCII characters is not trimmed.\<close>

definition visible :: "char \<Rightarrow> bool" where
  "visible c \<longleftrightarrow> c \<notin> hd ` set space_runes \<and> c \<notin> last ` set space_runes"

lemma TrimSpace_visible:
  assumes "visible a" "visible b" "s = a # x" "s = y @ [b]"
  shows "TrimSpace s = s"
proof -
  have 1: "trim_with space_runes s = s"
    unfolding assms(3) by (rule trim_with_stop) (use assms(1) in \<open>auto simp: visible_def\<close>)
  have "trim_with (map rev space_runes) (b # rev y) = b # rev y"
    by (rule trim_with_stop) (use assms(2) in \<open>auto simp: visible_def hd_rev\<close>)
  then show ?thesis unfolding TrimSpace_def 1 using assms(4) by simp
qed

lemma visible_letters: "visible (CHR ''a'')" "visible (CHR ''c'')" "visible (CHR ''e'')" "visible (CHR '')'')"
  by (simp_all add: visible_def space_runes_def)

lemma TrimSpace_call:
  assumes "visible c"
  shows "TrimSpace ((c # k) @ x @ '')'') = (c # k) @ x @ '')''"
  by (rule TrimSpace_visible [of c "CHR '')''" _ "k @ x @ '')''" "(c # k) @ x"]) (simp_all add: assms visible_letters)

lemma inside_call: "inside (length k) (k @ x @ '')'') = x"
  by (simp add: inside_def)

lemma HasSuffix_snoc: "HasSuffix (x @ [c]) [c]"
  by (simp add: HasSuffix_def)

lemma parse_call:
  "parseScheduleString (''every('' @ x @ '')'') =
     (case parseDurationToMS x of Inl e \<Rightarrow> Inl e | Inr ms \<Rightarrow> Inr (no_schedule\<lparr>sc_Kind := KindEvery, sc_EveryMS := Some ms\<rparr>))"
  "parseScheduleString (''at('' @ x @ '')'') =
     (case ParseInt x of Inl e \<Rightarrow> Inl (wrap_err ''invalid at timestamp'' e) | Inr ms \<Rightarrow> Inr (no_schedule\<lparr>sc_Kind := KindAt, sc_AtMS := Some ms\<rparr>))"
  "parseScheduleString (''cron('' @ x @ '')'') =
     Inr (no_schedule\<lparr>sc_Kind := KindCron, sc_Expr := TrimSpace (SplitC (CHR '','') x ! 0),
       sc_TZ := (if length (SplitC (CHR '','') x) > 1 then TrimSpace (SplitC (CHR '','') x ! 1) else [])\<rparr>)"
proof -
  have t: "TrimSpace (''every('' @ x @ '')'') = ''every('' @ x @ '')''" "TrimSpace (''at('' @ x @ '')'') = ''at('' @ x @ '')''"
    "TrimSpace (''cron('' @ x @ '')'') = ''cron('' @ x @ '')''"
    using TrimSpace_call [OF visible_letters(3), of "''very(''" x] TrimSpace_call [OF visible_letters(1), of "''t(''" x]
      TrimSpace_call [OF visible_letters(2), of "''ron(''" x] by simp_all
  have suf: "HasSuffix (k @ x @ '')'') '')''" for k using HasSuffix_snoc [of "k @ x"] by simp
  have ins: "inside 6 (''every('' @ x @ '')'') = x" "inside 3 (''at('' @ x @ '')'') = x" "inside 5 (''cron('' @ x @ '')'') = x"
    using inside_call [of "''every(''" x] inside_call [of "''at(''" x] inside_call [of "''cron(''" x]
    by (simp_all only: list.size numeral_eq_Suc pred_numeral_simps BitM.simps add_Suc_right add_0_right One_nat_def add_0)
  show "parseScheduleString (''every('' @ x @ '')'') =
     (case parseDurationToMS x of Inl e \<Rightarrow> Inl e | Inr ms \<Rightarrow> Inr (no_schedule\<lparr>sc_Kind := KindEvery, sc_EveryMS := Some ms\<rparr>))"
    unfolding parseScheduleString_def Let_def t(1) ins using suf [of "''every(''"] by (simp add: HasPrefix_def)
  show "parseScheduleString (''at('' @ x @ '')'') =
     (case ParseInt x of Inl e \<Rightarrow> Inl (wrap_err ''invalid at timestamp'' e) | Inr ms \<Rightarrow> Inr (no_schedule\<lparr>sc_Kind := KindAt, sc_AtMS := Some ms\<rparr>))"
    unfolding parseScheduleString_def Let_def t(2) ins using suf [of "''at(''"] by (simp add: HasPrefix_def)
  show "parseScheduleString (''cron('' @ x @ '')'') =
     Inr (no_schedule\<lparr>sc_Kind := KindCron, sc_Expr := TrimSpace (SplitC (CHR '','') x ! 0),
       sc_TZ := (if length (SplitC (CHR '','') x) > 1 then TrimSpace (SplitC (CHR '','') x ! 1) else [])\<rparr>)"
    unfolding parseScheduleString_def Let_def t(3) ins using suf [of "''cron(''"] by (simp add: HasPrefix_def)
qed


lemma parse_uint_bad: "c \<in> set s \<Longrightarrow> \<not> is_digit c \<Longrightarrow> \<exists>f. parse_uint n s = Inl f"
  by (induction s arbitrary: n) auto

lemma ParseInt_bad:
  assumes "c \<in> set (tl s)" "\<not> is_digit c"
  shows "\<exists>e. ParseInt s = Inl e"
proof -
  obtain a r where s: "s = a # r" using assms(1) by (cases s) auto
  obtain f g where "parse_uint 0 s = Inl f" "parse_uint 0 r = Inl g"
    using parse_uint_bad [of c s 0] parse_uint_bad [of c r 0] assms s by auto
  then show ?thesis using s assms(1) by (auto simp: ParseInt_def Let_def)
qed

lemma parseDuration_unit:
  assumes "int64 n" "unit_ms [u] = Some k"
  shows "parseDurationToMS (Itoa n @ [u]) = Inr (wrap64 (n * k))"
proof -
  have "u \<in> {CHR ''s'', CHR ''m'', CHR ''h'', CHR ''d''}"
    using assms(2) by (auto simp: unit_ms_def split: if_splits)
  then have "\<not> is_digit u" by (auto simp: is_digit_def)
  moreover have "u \<in> set (tl (Itoa n @ [u]))" by (cases "Itoa n") simp_all
  ultimately obtain e where "ParseInt (Itoa n @ [u]) = Inl e" using ParseInt_bad by blast
  moreover have "\<not> length (Itoa n @ [u]) < 2" by (cases "Itoa n") simp_all
  ultimately show ?thesis using assms by (simp add: parseDurationToMS_def ParseInt_Itoa)
qed

lemma parseDuration_plain: "int64 n \<Longrightarrow> parseDurationToMS (Itoa n) = Inr n"
  by (simp add: parseDurationToMS_def ParseInt_Itoa)

text \<open>
  The schedules of job files are read back as they are written: intervals and times as decimal
  milliseconds over the whole 64-bit range, intervals with a unit (where the product wraps around), and
  cron expressions with or without a time zone.
\<close>

theorem schedule_text_roundtrip:
  assumes "int64 n" "unit_ms [u] = Some k"
    and "CHR '','' \<notin> set e" "CHR '','' \<notin> set z" "TrimSpace e = e" "TrimSpace z = z"
  shows "parseScheduleString (''every('' @ Itoa n @ '')'') = Inr (no_schedule\<lparr>sc_Kind := KindEvery, sc_EveryMS := Some n\<rparr>) \<and>
    parseScheduleString (''every('' @ (Itoa n @ [u]) @ '')'') =
      Inr (no_schedule\<lparr>sc_Kind := KindEvery, sc_EveryMS := Some (wrap64 (n * k))\<rparr>) \<and>
    parseScheduleString (''at('' @ Itoa n @ '')'') = Inr (no_schedule\<lparr>sc_Kind := KindAt, sc_AtMS := Some n\<rparr>) \<and>
    parseScheduleString (''cron('' @ e @ '')'') = Inr (no_schedule\<lparr>sc_Kind := KindCron, sc_Expr := e, sc_TZ := []\<rparr>) \<and>
    parseScheduleString (''cron('' @ (e @ CHR '','' # z) @ '')'') =
      Inr (no_schedule\<lparr>sc_Kind := KindCron, sc_Expr := e, sc_TZ := z\<rparr>)"
  unfolding parse_call
  using assms by (simp add: parseDuration_unit parseDuration_plain ParseInt_Itoa SplitC_no_sep SplitC_append)


theorem schedule_text_roundtrip_witness:
  "parseScheduleString (''every('' @ (Itoa 30 @ ''m'') @ '')'') =
    Inr (no_schedule\<lparr>sc_Kind := KindEvery, sc_EveryMS := Some 1800000\<rparr>)"
proof -
  have "int64 30" "unit_ms ''m'' = Some 60000" "CHR '','' \<notin> set ''0 9 * * *''" "CHR '','' \<notin> set ''UTC''"
    "TrimSpace ''0 9 * * *'' = ''0 9 * * *''" "TrimSpace ''UTC'' = ''UTC''"
    by (code_simp, code_simp, code_simp, code_simp, code_simp, code_simp)
  from schedule_text_roundtrip [OF this] show ?thesis by (simp add: wrap64_def)
qed

section \<open>A sample scheduler\<close>

text \<open>
  A scheduler with one job, no directory of job files and a store that cannot be written, polled every
  second.
\<close>

definition sample_lib :: "(unit, unit) cron_lib" where
  "sample_lib = \<lparr>lib_LoadLocation = (\<lambda>_. Some ()), lib_UTC = (), lib_Parse = (\<lambda>_. Some ()), lib_Next = (\<lambda>_ _ t. t + 1)\<rparr>"

definition sample_codec :: store_codec where
  "sample_codec = \<lparr>dcd = (\<lambda>_. Inl EOF), enc = (\<lambda>_. Inl EOF)\<rparr>"

definition sample_dispatcher :: dispatcher where
  "sample_dispatcher = \<lparr>di_Dispatch = (\<lambda>_. None), di_Alert = None\<rparr>"

definition sample_scheduler :: "Job list \<Rightarrow> Scheduler" where
  "sample_scheduler jobs =
     \<lparr>s_itemsDir = [], s_pollInterval = 30 * second, s_jobTimeout = 10 * minute, s_store = Some jobs, lastMtime = 0, lastSize = 0,
      modularFingerprint = [], modularCommitted = False, modularDirty = False, lastReloadErr = None, lastReloadErrAt = 0\<rparr>"

definition sample_clock :: "nat \<Rightarrow> int" where
  "sample_clock n = (1 + int n) * 1000 * millisecond"

definition sample_files :: "nat \<Rightarrow> cron_fs" where
  "sample_files n = \<lparr>jobs_file = None, items = Inr [], fs_now = sample_clock n, fs_script = []\<rparr>"

definition sample_job :: "Schedule \<Rightarrow> Job" where
  "sample_job sch = (default_job ''digest.md'')\<lparr>job_Schedule := sch\<rparr>"

primrec sample_jobs :: "Schedule \<Rightarrow> nat \<Rightarrow> Job list" where
  "sample_jobs sch 0 = [sample_job sch]"
| "sample_jobs sch (Suc n) = map (job_after sample_lib sample_dispatcher (1000 * (1 + int n)) (1000 * (1 + int n))) (sample_jobs sch n)"

lemma sample_reloaded: "reloaded sample_codec (sample_scheduler jobs) (sample_files n) = (sample_scheduler jobs, sample_files n)"
  by (simp add: reloaded_def reloadJobsJSON_def stat_file_def fs_call_def sample_files_def sample_scheduler_def
      checkPersistentReloadFailure_def reloadModularJobs_def)

lemma sample_now: "poll_now sample_codec (sample_scheduler jobs) (sample_files n) = 1000 * (1 + int n)"
  by (simp add: poll_now_def sample_reloaded) (simp add: sample_files_def sample_clock_def millisecond_def)

lemma sample_saved: "saveStore sample_codec s fs = (s, fs)"
  by (simp add: saveStore_def writeStore_def sample_codec_def)

lemma sample_poll:
  "\<exists>calls fs'. poll sample_lib sample_codec (Some sample_dispatcher) id (sample_clock n) (sample_scheduler jobs) (sample_files n) =
    (calls, sample_scheduler (map (job_after sample_lib sample_dispatcher (1000 * (1 + int n)) (1000 * (1 + int n))) jobs), fs')"
proof -
  let ?s = "sample_scheduler jobs"
  obtain calls s' fs' where run: "poll sample_lib sample_codec (Some sample_dispatcher) id (sample_clock n) ?s (sample_files n) = (calls, s', fs')"
    by (metis prod_cases3)
  have st: "s_store ?s = Some jobs" by (simp add: sample_scheduler_def)
  have c: "sample_clock n div millisecond = 1000 * (1 + int n)" by (simp add: sample_clock_def millisecond_def)
  have "s_store s' = Some (map (job_after sample_lib sample_dispatcher (1000 * (1 + int n)) (1000 * (1 + int n))) jobs)"
    using poll_reference [OF sample_reloaded st _ run] by (simp add: sample_now c)
  moreover obtain s1 fs1 where re: "reloadJobsJSON sample_codec ?s (sample_files n) = (s1, fs1)" by fastforce
  then have "reloadModularJobs sample_codec s1 fs1 = (?s, sample_files n)" using sample_reloaded [of jobs n] by (simp add: reloaded_def)
  then have "\<exists>x. s' = ?s\<lparr>s_store := x\<rparr>"
    using run re by (auto simp: poll_def sample_saved st Let_def split: prod.splits if_splits)
  ultimately have "s' = sample_scheduler (map (job_after sample_lib sample_dispatcher (1000 * (1 + int n)) (1000 * (1 + int n))) jobs)"
    by (auto simp: sample_scheduler_def)
  then show ?thesis using run by blast
qed

definition sample_calls :: "Schedule \<Rightarrow> nat \<Rightarrow> dispatch_call list" where
  "sample_calls sch n =
     fst (poll sample_lib sample_codec (Some sample_dispatcher) id (sample_clock n) (sample_scheduler (sample_jobs sch n)) (sample_files n))"

definition sample_states :: "Schedule \<Rightarrow> nat \<Rightarrow> Scheduler" where
  "sample_states sch n = sample_scheduler (sample_jobs sch n)"

lemma sample_polls:
  "history sample_lib sample_codec sample_dispatcher id N sample_clock (sample_states sch) sample_files (sample_calls sch)"
proof -
  have "\<exists>fs'. poll sample_lib sample_codec (Some sample_dispatcher) id (sample_clock n) (sample_states sch n) (sample_files n) =
      (sample_calls sch n, sample_states sch (Suc n), fs')" for n
    using sample_poll [of n "sample_jobs sch n"] by (auto simp: sample_states_def sample_calls_def)
  moreover have "sample_clock n div millisecond = 1000 * (1 + int n)" for n by (simp add: sample_clock_def millisecond_def)
  moreover have "s_store (sample_states sch 0) \<noteq> None" by (simp add: sample_states_def sample_scheduler_def)
  ultimately show ?thesis
    by (simp add: history_def) (simp add: sample_states_def sample_now sample_reloaded)
qed

lemma sample_states_simps:
  "Jobs (sample_states sch n) = sample_jobs sch n" "poll_now sample_codec (sample_states sch n) (sample_files n) = 1000 * (1 + int n)"
  by (simp_all add: Jobs_def sample_states_def sample_now) (simp add: sample_scheduler_def)


definition sample_at :: Schedule where
  "sample_at = no_schedule\<lparr>sc_Kind := KindAt, sc_AtMS := Some 2500\<rparr>"

definition sample_every :: Schedule where
  "sample_every = no_schedule\<lparr>sc_Kind := KindEvery, sc_EveryMS := Some 1500\<rparr>"

lemmas sample_run_simps = sample_states_simps job_of_def job_after_def is_due_def sample_job_def default_job_def no_state_def
  ComputeNextRun_def computeNextRunAt_def computeNextRunEvery_def KindAt_def KindEvery_def no_schedule_def wrap64_def
  numeral_eq_Suc Let_def



lemma sample_every_due:
  "is_due 3000 (job_of (sample_states sample_every) 0 2)" "is_due 5000 (job_of (sample_states sample_every) 0 4)"
  by (simp_all add: sample_run_simps sample_every_def)

lemma sample_every_job:
  "sc_Kind (job_Schedule (job_of (sample_states sample_every) 0 0)) = KindEvery"
  "sc_EveryMS (job_Schedule (job_of (sample_states sample_every) 0 0)) = Some 1500" "(0::int) < 1500"
  "job_Enabled (job_of (sample_states sample_every) 0 0)" "next_run (sample_states sample_every) 0 0 = 0"
  "0 < length (Jobs (sample_states sample_every 0))"
  by (simp_all add: job_of_def sample_states_simps sample_job_def default_job_def no_state_def sample_every_def)

theorem every_job_distance_witness:
  "is_due 3000 (job_of (sample_states sample_every) 0 2) \<and> is_due 5000 (job_of (sample_states sample_every) 0 4) \<and>
    sample_clock 2 div millisecond + 1500 \<le> 5000"
proof -
  have "\<forall>k < (5::nat). 0 \<le> sample_clock k \<and> int64 (sample_clock k div millisecond + 1500) \<and>
      int64 (poll_now sample_codec (sample_states sample_every k) (sample_files k) + 1500)"
    by (auto simp: sample_states_simps sample_clock_def millisecond_def int64_def)
  from every_job_distance [OF sample_polls sample_every_job(6,1,2,3) this, of 2 4] sample_every_due show ?thesis
    by (simp add: sample_states_simps)
qed

theorem every_job_runs_witness:
  "\<exists>k \<le> 2. DispatchCall ((job_Payload (job_of (sample_states sample_every) 0 k))\<lparr>pl_ID := job_ID (job_of (sample_states sample_every) 0 k)\<rparr>)
      \<in> set (sample_calls sample_every k)"
proof -
  have "0 \<le> next_run (sample_states sample_every) 0 0" using sample_every_job(5) by simp
  from every_job_runs [OF sample_polls sample_every_job(6,1,2,3,4) this, where n = 2 and N = 3]
  show ?thesis using sample_every_job(5) by (auto simp: sample_states_simps int64_def)
qed

theorem poll_exact_witness:
  "\<exists>calls s' fs'. poll sample_lib sample_codec (Some sample_dispatcher) rev (sample_clock 2) (sample_states sample_at 2) (sample_files 2) =
      (calls, s', fs') \<and> calls = [DispatchCall ((job_Payload (sample_job sample_at))\<lparr>pl_ID := ''digest''\<rparr>)]"
proof -
  obtain calls s' fs' where run: "poll sample_lib sample_codec (Some sample_dispatcher) rev (sample_clock 2)
      (sample_states sample_at 2) (sample_files 2) = (calls, s', fs')" by (metis prod_cases3)
  have st: "s_store (sample_scheduler (sample_jobs sample_at 2)) = Some (sample_jobs sample_at 2)" by (simp add: sample_scheduler_def)
  have p: "\<forall>rs. mset (rev rs) = mset rs" by simp
  have due: "filter (is_due 3000) (sample_jobs sample_at 2) = sample_jobs sample_at 2"
    "map (\<lambda>j. snd (executeJob sample_dispatcher (due_of 0 j))) (sample_jobs sample_at 2) =
      [[DispatchCall ((job_Payload (sample_job sample_at))\<lparr>pl_ID := ''digest''\<rparr>)]]"
    by (simp add: sample_run_simps sample_at_def)
      (simp add: sample_run_simps sample_at_def executeJob_def due_of_def sample_dispatcher_def TrimSuffix_def Ext_def HasSuffix_def)
  from poll_exact [OF sample_reloaded st p p run [unfolded sample_states_def] run [unfolded sample_states_def]] due run show ?thesis
    by (simp add: sample_now)
qed

theorem reconcile_exact_witness:
  "reconcileModularJobs [sample_job sample_at] [sample_job sample_every] True = [take_over (sample_job sample_every) (sample_job sample_at)]"
proof -
  have "distinct (map job_ID [sample_job sample_at])" "distinct (map job_ID [sample_job sample_every])" by simp_all
  from reconcile_exact [OF this refl, of True] show ?thesis
    by (simp add: sample_job_def default_job_def merged_def file_of_def sourceModular_def)
qed

theorem negative_next_run_stuck_witness:
  "\<not> is_due 7 ((sample_job sample_at)\<lparr>job_State := no_state\<lparr>NextRunAtMS := - 1\<rparr>\<rparr>) \<and>
   ComputeNextRun sample_lib (no_schedule\<lparr>sc_Kind := KindEvery, sc_EveryMS := Some (2 ^ 63 - 1)\<rparr>) 7 < 0"
proof -
  let ?j = "(sample_job sample_at)\<lparr>job_State := no_state\<lparr>NextRunAtMS := - 1\<rparr>\<rparr>"
  have "NextRunAtMS (job_State ?j) < 0" "distinct (map job_ID [?j])" "distinct (map job_ID [sample_job sample_every])"
    "?j \<in> set [?j]" "sample_job sample_every \<in> set [sample_job sample_every]" "job_ID (sample_job sample_every) = job_ID ?j"
    by (simp_all add: sample_job_def default_job_def)
  from negative_next_run_stuck [OF this, where now = 7 and lib = sample_lib and t = 7] show ?thesis by simp
qed

end
