(* ===== verification/Resilience.thy ===== *)
theory Resilience
  imports GoTime
begin

text \<open>
  Retries and circuit breakers, \<^verbatim>\<open>internal/resilience\<close>. The breaker itself is the package gobreaker, a
  parameter of the model: the record \<open>gobreaker\<close> gives what \<^verbatim>\<open>Execute\<close> does before it accepts a call (an
  error means that the call is refused) and after the call has ended. The package-wide tables are the
  record \<open>breaker_world\<close>, whose further fields are the rest of the world; a pointer to a breaker or to the
  library's object is an index. Floats are rationals, with \<open>fl\<close> the rounding to the nearest 64-bit
  float; the tables of one call are not interleaved with those of another.
\<close>

section \<open>Retries\<close>

record RetryConfig =
  rc_MaxAttempts :: int
  rc_InitialDelay :: duration
  rc_MaxDelay :: duration
  rc_Multiplier :: rat
  rc_JitterFactor :: rat

definition DefaultRetryConfig :: RetryConfig where
  "DefaultRetryConfig =
     \<lparr>rc_MaxAttempts = 3, rc_InitialDelay = 500 * millisecond, rc_MaxDelay = 10 * second, rc_Multiplier = 2, rc_JitterFactor = 1 / 5\<rparr>"

record 'w retry_env =
  re_rand :: "'w \<Rightarrow> rat \<times> 'w"
  re_wait :: "duration \<Rightarrow> 'w \<Rightarrow> go_error option \<times> 'w"
  re_fl :: "rat \<Rightarrow> rat"

definition normalizeConfig :: "RetryConfig \<Rightarrow> RetryConfig" where
  "normalizeConfig cfg =
     (let cfg1 = (if rc_MaxAttempts cfg \<le> 0 then cfg\<lparr>rc_MaxAttempts := 3\<rparr> else cfg);
          cfg2 = (if rc_Multiplier cfg1 \<le> 0 then cfg1\<lparr>rc_Multiplier := 2\<rparr> else cfg1)
      in if rc_JitterFactor cfg2 \<le> 0 then cfg2\<lparr>rc_JitterFactor := 1 / 5\<rparr> else cfg2)"

definition calculateSleep :: "(rat \<Rightarrow> rat) \<Rightarrow> rat \<Rightarrow> duration \<Rightarrow> RetryConfig \<Rightarrow> duration" where
  "calculateSleep fl r delay cfg =
     (let jitterAmt = fl (fl (fl (of_int delay) * rc_JitterFactor cfg) * fl (2 * r - 1));
          sleep = trunc_rat (fl (fl (of_int delay) + jitterAmt));
          sleep' = (if sleep < 0 then 0 else sleep)
      in if rc_MaxDelay cfg > 0 \<and> sleep' > rc_MaxDelay cfg then rc_MaxDelay cfg else sleep')"

definition nextDelay :: "(rat \<Rightarrow> rat) \<Rightarrow> duration \<Rightarrow> RetryConfig \<Rightarrow> duration" where
  "nextDelay fl current cfg =
     (let delay = trunc_rat (fl (fl (of_int current) * rc_Multiplier cfg))
      in if rc_MaxDelay cfg > 0 \<and> delay > rc_MaxDelay cfg then rc_MaxDelay cfg else delay)"

definition wait :: "'w retry_env \<Rightarrow> duration \<Rightarrow> 'w \<Rightarrow> go_error option \<times> 'w" where
  "wait env sleep w =
     (case re_wait env sleep w of (Some e, w1) \<Rightarrow> (Some (wrap_err ''wait'' e), w1) | (None, w1) \<Rightarrow> (None, w1))"

text \<open>The loop of \<^verbatim>\<open>Do\<close>, from the given attempt on.\<close>

function retry_loop ::
  "'w retry_env \<Rightarrow> RetryConfig \<Rightarrow> (go_error \<Rightarrow> bool) \<Rightarrow> ('w \<Rightarrow> go_error option \<times> 'w) \<Rightarrow>
   int \<Rightarrow> duration \<Rightarrow> go_error option \<Rightarrow> 'w \<Rightarrow> go_error option \<times> 'w" where
  "retry_loop env cfg shouldRetry fn attempt delay lastErr w =
     (if attempt > rc_MaxAttempts cfg then (lastErr, w)
      else
        (case fn w of
           (None, w1) \<Rightarrow> (None, w1)
         | (Some e, w1) \<Rightarrow>
             if \<not> shouldRetry e \<or> attempt = rc_MaxAttempts cfg then (Some e, w1)
             else
               (case re_rand env w1 of (r, w2) \<Rightarrow>
                  (case wait env (calculateSleep (re_fl env) r delay cfg) w2 of
                     (Some err, w3) \<Rightarrow> (Some err, w3)
                   | (None, w3) \<Rightarrow>
                       retry_loop env cfg shouldRetry fn (attempt + 1) (nextDelay (re_fl env) delay cfg) (Some e) w3))))"
  by pat_completeness auto
termination
  by (relation "measure (\<lambda>(env, cfg, sr, fn, attempt, delay, le, w). nat (rc_MaxAttempts cfg + 1 - attempt))") auto

declare retry_loop.simps [simp del]

definition Do ::
  "'w retry_env \<Rightarrow> RetryConfig \<Rightarrow> (go_error \<Rightarrow> bool) \<Rightarrow> ('w \<Rightarrow> go_error option \<times> 'w) \<Rightarrow> 'w \<Rightarrow> go_error option \<times> 'w" where
  "Do env cfg0 shouldRetry fn w =
     (let cfg = normalizeConfig cfg0 in retry_loop env cfg shouldRetry fn 1 (rc_InitialDelay cfg) None w)"

definition transient_patterns :: "string list" where
  "transient_patterns =
     [''timeout'', ''timed out'', ''deadline exceeded'', ''connection reset'', ''connection refused'', ''eof'',
      ''network'', ''temporary'']"

definition IsRetryable :: "go_error option \<Rightarrow> bool" where
  "IsRetryable err =
     (case err of
        None \<Rightarrow> False
      | Some e \<Rightarrow>
          (case as_http_status e of
             Some (code, body) \<Rightarrow> code = 429 \<or> (code \<ge> 500 \<and> code < 600)
           | None \<Rightarrow> list_ex (Contains (ToLower (error_msg e))) transient_patterns))"

section \<open>Circuit breakers\<close>

record gb_settings =
  gb_Name :: string
  gb_MaxRequests :: int
  gb_Interval :: duration
  gb_Timeout :: duration
  gb_ReadyToTrip :: "int \<Rightarrow> bool"

record 'c gobreaker =
  gb_New :: "gb_settings \<Rightarrow> 'c"
  gb_before :: "'c \<Rightarrow> instant \<Rightarrow> go_error option \<times> 'c"
  gb_after :: "'c \<Rightarrow> instant \<Rightarrow> bool \<Rightarrow> 'c"
  gb_State :: "'c \<Rightarrow> instant \<Rightarrow> string"

record BreakerStats =
  Successes :: int
  Failures :: int
  Rejections :: int

record Breaker =
  b_cb :: nat
  b_settings :: gb_settings

record 'c breaker_world =
  bw_cbs :: "'c list"
  bw_breakers :: "Breaker list"
  bw_registry :: "string \<rightharpoonup> nat"
  bw_stats :: "string \<rightharpoonup> BreakerStats"
  bw_now :: instant

definition getStats :: "string \<Rightarrow> ('c, 'x) breaker_world_scheme \<Rightarrow> BreakerStats" where
  "getStats name w = (case bw_stats w name of Some s \<Rightarrow> s | None \<Rightarrow> \<lparr>Successes = 0, Failures = 0, Rejections = 0\<rparr>)"

definition RecordSuccess :: "string \<Rightarrow> ('c, 'x) breaker_world_scheme \<Rightarrow> ('c, 'x) breaker_world_scheme" where
  "RecordSuccess name w =
     w\<lparr>bw_stats := (bw_stats w)(name \<mapsto> (getStats name w)\<lparr>Successes := (Successes (getStats name w) + 1) mod 2 ^ 64\<rparr>)\<rparr>"

definition RecordFailure :: "string \<Rightarrow> ('c, 'x) breaker_world_scheme \<Rightarrow> ('c, 'x) breaker_world_scheme" where
  "RecordFailure name w =
     w\<lparr>bw_stats := (bw_stats w)(name \<mapsto> (getStats name w)\<lparr>Failures := (Failures (getStats name w) + 1) mod 2 ^ 64\<rparr>)\<rparr>"

definition RecordRejection :: "string \<Rightarrow> ('c, 'x) breaker_world_scheme \<Rightarrow> ('c, 'x) breaker_world_scheme" where
  "RecordRejection name w =
     w\<lparr>bw_stats := (bw_stats w)(name \<mapsto> (getStats name w)\<lparr>Rejections := (Rejections (getStats name w) + 1) mod 2 ^ 64\<rparr>)\<rparr>"

definition GetStats :: "string \<Rightarrow> ('c, 'x) breaker_world_scheme \<Rightarrow> BreakerStats \<times> ('c, 'x) breaker_world_scheme" where
  "GetStats name w = (getStats name w, w\<lparr>bw_stats := (bw_stats w)(name \<mapsto> getStats name w)\<rparr>)"

definition Register :: "string \<Rightarrow> nat \<Rightarrow> ('c, 'x) breaker_world_scheme \<Rightarrow> ('c, 'x) breaker_world_scheme" where
  "Register name b w = w\<lparr>bw_registry := (bw_registry w)(name \<mapsto> b)\<rparr>"

definition Unregister :: "string \<Rightarrow> ('c, 'x) breaker_world_scheme \<Rightarrow> ('c, 'x) breaker_world_scheme" where
  "Unregister name w = w\<lparr>bw_registry := (bw_registry w)(name := None)\<rparr>"

definition Get :: "string \<Rightarrow> ('c, 'x) breaker_world_scheme \<Rightarrow> nat option" where
  "Get name w = bw_registry w name"

definition All :: "('c, 'x) breaker_world_scheme \<Rightarrow> (string \<rightharpoonup> nat)" where
  "All w = bw_registry w"

definition breaker_settings :: "string \<Rightarrow> int \<Rightarrow> duration \<Rightarrow> duration \<Rightarrow> gb_settings" where
  "breaker_settings name maxConsecutiveFailures countWindow openTimeout =
     \<lparr>gb_Name = name, gb_MaxRequests = 1, gb_Interval = countWindow, gb_Timeout = openTimeout,
      gb_ReadyToTrip = (\<lambda>consecutive. consecutive \<ge> maxConsecutiveFailures)\<rparr>"

definition New ::
  "'c gobreaker \<Rightarrow> string \<Rightarrow> int \<Rightarrow> duration \<Rightarrow> duration \<Rightarrow> ('c, 'x) breaker_world_scheme \<Rightarrow> nat \<times> ('c, 'x) breaker_world_scheme" where
  "New lib name maxConsecutiveFailures countWindow openTimeout w =
     (let settings = breaker_settings name maxConsecutiveFailures countWindow openTimeout;
          b = length (bw_breakers w);
          w1 = w\<lparr>bw_cbs := bw_cbs w @ [gb_New lib settings],
                 bw_breakers := bw_breakers w @ [\<lparr>b_cb = length (bw_cbs w), b_settings = settings\<rparr>]\<rparr>
      in (b, Register name b w1))"

definition set_cb :: "nat \<Rightarrow> 'c \<Rightarrow> ('c, 'x) breaker_world_scheme \<Rightarrow> ('c, 'x) breaker_world_scheme" where
  "set_cb i c w = w\<lparr>bw_cbs := (bw_cbs w)[i := c]\<rparr>"

text \<open>
  The call of \<^verbatim>\<open>cb.Execute\<close> with the counting function inside. The called function also returns what it leaves in
  the variables it captures, which keep the value \<open>a\<close> when it is not called.
\<close>

definition guarded_call ::
  "'c gobreaker \<Rightarrow> nat \<Rightarrow> string \<Rightarrow> 'a \<Rightarrow>
   (('c, 'x) breaker_world_scheme \<Rightarrow> (go_error option \<times> 'a) \<times> ('c, 'x) breaker_world_scheme) \<Rightarrow>
   ('c, 'x) breaker_world_scheme \<Rightarrow> (go_error option \<times> 'a) \<times> ('c, 'x) breaker_world_scheme" where
  "guarded_call lib cb name a fn w =
     (case gb_before lib (bw_cbs w ! cb) (bw_now w) of
        (Some e, c) \<Rightarrow> ((Some e, a), set_cb cb c w)
      | (None, c) \<Rightarrow>
          (case fn (set_cb cb c w) of
             ((err, a'), w1) \<Rightarrow>
               (let w2 = (if err = None then RecordSuccess name w1 else RecordFailure name w1)
                in ((err, a'), set_cb cb (gb_after lib (bw_cbs w2 ! cb) (bw_now w2) (err = None)) w2))))"

definition Breaker_Execute ::
  "'c gobreaker \<Rightarrow> nat \<Rightarrow> 'a \<Rightarrow>
   (('c, 'x) breaker_world_scheme \<Rightarrow> (go_error option \<times> 'a) \<times> ('c, 'x) breaker_world_scheme) \<Rightarrow>
   ('c, 'x) breaker_world_scheme \<Rightarrow> (go_error option \<times> 'a) \<times> ('c, 'x) breaker_world_scheme" where
  "Breaker_Execute lib b a fn w =
     (let br = bw_breakers w ! b; name = gb_Name (b_settings br) in
      case guarded_call lib (b_cb br) name a fn w of
        ((None, a'), w1) \<Rightarrow> ((None, a'), w1)
      | ((Some e, a'), w1) \<Rightarrow>
          if error_is e ErrOpenState \<or> error_is e ErrTooManyRequests then ((Some ErrCircuitOpen, a'), RecordRejection name w1)
          else ((Some (wrap_err ''circuit breaker execute'' e), a'), w1))"

definition Breaker_State :: "'c gobreaker \<Rightarrow> nat \<Rightarrow> ('c, 'x) breaker_world_scheme \<Rightarrow> string" where
  "Breaker_State lib b w = gb_State lib (bw_cbs w ! b_cb (bw_breakers w ! b)) (bw_now w)"

definition Reset :: "'c gobreaker \<Rightarrow> nat \<Rightarrow> ('c, 'x) breaker_world_scheme \<Rightarrow> ('c, 'x) breaker_world_scheme" where
  "Reset lib b w =
     w\<lparr>bw_cbs := bw_cbs w @ [gb_New lib (b_settings (bw_breakers w ! b))],
       bw_breakers := (bw_breakers w)[b := (bw_breakers w ! b)\<lparr>b_cb := length (bw_cbs w)\<rparr>]\<rparr>"

definition Stop :: "nat \<Rightarrow> ('c, 'x) breaker_world_scheme \<Rightarrow> ('c, 'x) breaker_world_scheme" where
  "Stop b w = Unregister (gb_Name (b_settings (bw_breakers w ! b))) w"

text \<open>The registered breakers in the order in which the map is walked, which is arbitrary.\<close>

definition ResetAll :: "'c gobreaker \<Rightarrow> string list \<Rightarrow> ('c, 'x) breaker_world_scheme \<Rightarrow> ('c, 'x) breaker_world_scheme" where
  "ResetAll lib names w =
     fold (\<lambda>name w. case Get name w of None \<Rightarrow> w | Some b \<Rightarrow> Reset lib b w) names w"

section \<open>Laws\<close>

lemma normalize_positive: "rc_MaxAttempts (normalizeConfig cfg) > 0" "rc_MaxDelay (normalizeConfig cfg) = rc_MaxDelay cfg"
  by (simp_all add: normalizeConfig_def Let_def)

lemma calculateSleep_bounds:
  "0 \<le> calculateSleep fl r delay cfg" "rc_MaxDelay cfg > 0 \<Longrightarrow> calculateSleep fl r delay cfg \<le> rc_MaxDelay cfg"
  by (simp_all add: calculateSleep_def Let_def)

text \<open>A counter of the calls of \<open>fn\<close> that drawing a number and waiting leave alone.\<close>

definition counts_calls :: "'w retry_env \<Rightarrow> ('w \<Rightarrow> go_error option \<times> 'w) \<Rightarrow> ('w \<Rightarrow> int) \<Rightarrow> bool" where
  "counts_calls env fn calls \<longleftrightarrow>
     (\<forall>w. calls (snd (fn w)) = calls w + 1) \<and> (\<forall>w. calls (snd (re_rand env w)) = calls w) \<and>
     (\<forall>d w. calls (snd (re_wait env d w)) = calls w)"

lemma wait_calls:
  assumes "counts_calls env fn calls" "wait env d w = (r, w')"
  shows "calls w' = calls w"
proof -
  have "snd (wait env d w) = snd (re_wait env d w)" by (simp add: wait_def split: prod.splits option.splits)
  then show ?thesis using assms by (simp add: counts_calls_def)
qed

lemma retry_loop_calls:
  assumes c: "counts_calls env fn calls"
  shows "retry_loop env cfg sr fn attempt delay le w = (r, w') \<Longrightarrow> attempt \<le> rc_MaxAttempts cfg \<Longrightarrow>
    calls w < calls w' \<and> calls w' \<le> calls w + (rc_MaxAttempts cfg + 1 - attempt)"
proof (induction "nat (rc_MaxAttempts cfg - attempt)" arbitrary: attempt delay le w)
  case 0
  then have "attempt = rc_MaxAttempts cfg" by simp
  then have "w' = snd (fn w)" using 0(2) by (subst (asm) retry_loop.simps) (auto split: option.splits prod.splits)
  then show ?case using c 0 by (simp add: counts_calls_def)
next
  case (Suc n)
  obtain e wb where f: "fn w = (e, wb)" by (cases "fn w")
  obtain x wc where r: "re_rand env wb = (x, wc)" by (cases "re_rand env wb")
  obtain v wd where v: "wait env (calculateSleep (re_fl env) x delay cfg) wc = (v, wd)" by fastforce
  have b: "calls wb = calls w + 1" "calls wc = calls wb" "calls wd = calls wc"
    using c f r wait_calls [OF c v] by (metis counts_calls_def snd_conv)+
  have lt: "attempt < rc_MaxAttempts cfg" using Suc(2) by simp
  show ?case
  proof (cases "\<exists>er. e = Some er \<and> sr er \<and> v = None")
    case False
    then have "w' \<in> {wb, wd}" using Suc(3) lt f r v by (subst (asm) retry_loop.simps) (auto split: option.splits if_splits)
    then show ?thesis using b lt by auto
  next
    case True
    then obtain er where "e = Some er" "sr er" "v = None" by blast
    then have "retry_loop env cfg sr fn (attempt + 1) (nextDelay (re_fl env) delay cfg) (Some er) wd = (r, w')"
      using Suc(3) lt f r v by (subst (asm) retry_loop.simps) simp
    then have "calls wd < calls w' \<and> calls w' \<le> calls wd + (rc_MaxAttempts cfg + 1 - (attempt + 1))"
      using Suc(1) [of "attempt + 1"] Suc(2) lt by simp
    then show ?thesis using b by simp
  qed
qed

text \<open>Only the waits for a duration between 0 and the configured maximum matter.\<close>

lemma retry_loop_cong:
  assumes "\<And>d w. 0 \<le> d \<Longrightarrow> d \<le> rc_MaxDelay cfg \<Longrightarrow> re_wait env d w = f d w" "rc_MaxDelay cfg > 0"
  shows "retry_loop (env\<lparr>re_wait := f\<rparr>) cfg sr fn attempt delay le w = retry_loop env cfg sr fn attempt delay le w"
proof (induction "nat (rc_MaxAttempts cfg + 1 - attempt)" arbitrary: attempt delay le w)
  case 0
  then show ?case by (simp add: retry_loop.simps)
next
  case (Suc n)
  have w: "wait (env\<lparr>re_wait := f\<rparr>) (calculateSleep fl x delay cfg) = wait env (calculateSleep fl x delay cfg)" for fl x
    using assms calculateSleep_bounds by (intro ext) (simp add: wait_def)
  have IH: "retry_loop (env\<lparr>re_wait := f\<rparr>) cfg sr fn (attempt + 1) = retry_loop env cfg sr fn (attempt + 1)"
    using Suc(1) [of "attempt + 1"] Suc(2) by (intro ext) simp
  show ?case by (subst (1 2) retry_loop.simps) (simp add: w IH cong: option.case_cong prod.case_cong if_cong)
qed

text \<open>An error that is reported is the error of the last call or of a wait.\<close>

lemma retry_loop_result:
  "retry_loop env cfg sr fn attempt delay le w = (r, w') \<Longrightarrow> attempt \<le> rc_MaxAttempts cfg \<Longrightarrow>
    (\<exists>wz. fn wz = (r, w')) \<or> (\<exists>d wz. wait env d wz = (r, w') \<and> r \<noteq> None)"
proof (induction "nat (rc_MaxAttempts cfg + 1 - attempt)" arbitrary: attempt delay le w)
  case (Suc n)
  obtain e wb where f: "fn w = (e, wb)" by (cases "fn w")
  obtain x wc where r: "re_rand env wb = (x, wc)" by (cases "re_rand env wb")
  obtain v wd where v: "wait env (calculateSleep (re_fl env) x delay cfg) wc = (v, wd)" by fastforce
  show ?case
  proof (cases "\<exists>er. e = Some er \<and> sr er \<and> attempt \<noteq> rc_MaxAttempts cfg \<and> v = None")
    case False
    then have "(e, wb) = (r, w') \<or> (v, wd) = (r, w') \<and> v \<noteq> None"
      using Suc(3,4) f r v by (subst (asm) retry_loop.simps) (auto split: option.splits if_splits)
    then show ?thesis using f v by blast
  next
    case True
    then obtain er where "e = Some er" "sr er" "attempt \<noteq> rc_MaxAttempts cfg" "v = None" by blast
    then have "retry_loop env cfg sr fn (attempt + 1) (nextDelay (re_fl env) delay cfg) (Some er) wd = (r, w')"
      "attempt + 1 \<le> rc_MaxAttempts cfg"
      using Suc(3,4) f r v by (subst (asm) retry_loop.simps, simp, simp)
    then show ?thesis using Suc(1) [of "attempt + 1"] Suc(2) by simp
  qed
qed simp

text \<open>
  Retrying ends after at least one and at most the configured number of calls (three when none is
  configured), whatever the calls, the clock and the random numbers do; success is reported only when the
  last call succeeded, an error is that of the last call or of an interrupted wait; an error that is not
  retryable is returned after the first call; and with a maximum delay no wait is longer than it.
\<close>

theorem Do_contract:
  assumes calls: "counts_calls env fn calls" and run: "Do env cfg sr fn w = (r, w')"
  shows "calls w < calls w' \<and> calls w' \<le> calls w + (if rc_MaxAttempts cfg \<le> 0 then 3 else rc_MaxAttempts cfg) \<and>
    (r = None \<longrightarrow> (\<exists>wz. fn wz = (None, w'))) \<and>
    (\<forall>e. r = Some e \<longrightarrow> (\<exists>wz. fn wz = (Some e, w')) \<or> (\<exists>d wz. wait env d wz = (Some e, w'))) \<and>
    (\<forall>e wz. fn w = (Some e, wz) \<and> \<not> sr e \<longrightarrow> r = Some e \<and> w' = wz) \<and>
    (\<forall>f. rc_MaxDelay cfg > 0 \<and> (\<forall>d w. 0 \<le> d \<and> d \<le> rc_MaxDelay cfg \<longrightarrow> re_wait env d w = f d w) \<longrightarrow>
       Do (env\<lparr>re_wait := f\<rparr>) cfg sr fn w = (r, w'))"
proof -
  let ?cfg = "normalizeConfig cfg"
  have run': "retry_loop env ?cfg sr fn 1 (rc_InitialDelay ?cfg) None w = (r, w')" using run by (simp add: Do_def Let_def)
  have one: "1 \<le> rc_MaxAttempts ?cfg" using normalize_positive(1) [of cfg] by simp
  have "rc_MaxAttempts ?cfg = (if rc_MaxAttempts cfg \<le> 0 then 3 else rc_MaxAttempts cfg)"
    by (simp add: normalizeConfig_def Let_def)
  then have "calls w < calls w' \<and> calls w' \<le> calls w + (if rc_MaxAttempts cfg \<le> 0 then 3 else rc_MaxAttempts cfg)"
    using retry_loop_calls [OF calls run' one] by simp
  moreover have "(\<exists>wz. fn wz = (r, w')) \<or> (\<exists>d wz. wait env d wz = (r, w') \<and> r \<noteq> None)"
    by (rule retry_loop_result [OF run' one])
  moreover have "r = Some e \<and> w' = wz" if "fn w = (Some e, wz)" "\<not> sr e" for e wz
    using run' that one by (subst (asm) retry_loop.simps) simp
  moreover have "Do (env\<lparr>re_wait := f\<rparr>) cfg sr fn w = (r, w')"
    if "rc_MaxDelay cfg > 0" "\<forall>d w. 0 \<le> d \<and> d \<le> rc_MaxDelay cfg \<longrightarrow> re_wait env d w = f d w" for f
    using retry_loop_cong [of ?cfg env f] that run' by (simp add: Do_def Let_def normalize_positive(2))
  ultimately show ?thesis by blast
qed

text \<open>A call that fails twice, then succeeds; the world is the number of calls so far.\<close>

definition sample_call :: "int \<Rightarrow> go_error option \<times> int" where
  "sample_call n = (if n < 2 then Some EOF else None, n + 1)"

definition sample_retry :: "int retry_env" where
  "sample_retry = \<lparr>re_rand = (\<lambda>n. (1 / 2, n)), re_wait = (\<lambda>d n. (None, n)), re_fl = (\<lambda>x. x)\<rparr>"

theorem Do_contract_witness: "\<exists>r. Do sample_retry DefaultRetryConfig (\<lambda>e. IsRetryable (Some e)) sample_call 0 = (r, 3) \<and> 3 \<le> (0::int) + 3"
proof -
  have c: "counts_calls sample_retry sample_call (\<lambda>n. n)"
    by (simp add: counts_calls_def sample_retry_def sample_call_def)
  have eof: "IsRetryable (Some EOF)" by code_simp
  have run: "Do sample_retry DefaultRetryConfig (\<lambda>e. IsRetryable (Some e)) sample_call 0 = (None, 3)"
    by (simp add: Do_def retry_loop.simps sample_call_def sample_retry_def wait_def DefaultRetryConfig_def normalizeConfig_def
        Let_def eof)
  from Do_contract [OF c run] run show ?thesis by (simp add: DefaultRetryConfig_def)
qed

text \<open>
  A call through a breaker: when the breaker refuses, the function does not run and the answer is
  \<^verbatim>\<open>ErrCircuitOpen\<close>.
\<close>

lemma Breaker_Execute_refused:
  assumes "gb_before lib (bw_cbs w ! b_cb (bw_breakers w ! b)) (bw_now w) = (Some e, c)"
    and "error_is e ErrOpenState \<or> error_is e ErrTooManyRequests"
  shows "fst (Breaker_Execute lib b a fn w) = (Some ErrCircuitOpen, a)" "Breaker_Execute lib b a fn w = Breaker_Execute lib b a fn' w"
  using assms by (simp_all add: Breaker_Execute_def guarded_call_def Let_def)

end
