(* ===== verification/Reflection.thy ===== *)
theory Reflection
  imports Memory_Text
begin

text \<open>
  Rubric-driven reflection, \<^verbatim>\<open>internal/reflection/reflection.go\<close>: the prompts, the extraction of a JSON
  object from an answer, and the weighted score. Numbers of a report are rationals and \<open>fl\<close> rounds to
  the nearest 64-bit float after every operation; \<open>indent\<close> is \<^verbatim>\<open>json.MarshalIndent\<close>.
\<close>

abbreviation (input) nl :: string where "nl \<equiv> [CHR 0x0A]"

definition GenerateRubricPrompt :: "string \<Rightarrow> string" where
  "GenerateRubricPrompt task =
     ''### '' @ [CHR 0xF0] @ [CHR 0x9F] @ [CHR 0x9B] @ [CHR 0xA1] @ [CHR 0xEF] @ [CHR 0xB8] @ [CHR 0x8F] @
     '' TASK VALIDATION RUBRIC GENERATION'' @ nl @
     ''You are a high-precision architect. Before executing the following task, you must define th'' @
     ''e measurable criteria for success.'' @ nl @ nl @ ''**TASK:** '' @ task @ nl @ nl @ ''**YOUR JOB:**'' @ nl @
     ''Generate a JSON object representing a '' @ [CHR 0x27] @ ''ValidationRubric'' @ [CHR 0x27] @ ''.'' @ nl @
     ''Identify 3-5 specific, measurable criteria that would prove this task was completed correct'' @
     ''ly and without hallucinations.'' @ nl @ nl @ ''**JSON SCHEMA:**'' @ nl @ ''{'' @ nl @ ''  '' @ [CHR 0x22] @
     ''task_goal'' @ [CHR 0x22] @ '': '' @ [CHR 0x22] @ ''A concise summary of the end state'' @ [CHR 0x22] @ '','' @
     nl @ ''  '' @ [CHR 0x22] @ ''criteria'' @ [CHR 0x22] @ '': ['' @ nl @ ''    { '' @ [CHR 0x22] @ ''name'' @
     [CHR 0x22] @ '': '' @ [CHR 0x22] @ ''Criterion Name'' @ [CHR 0x22] @ '', '' @ [CHR 0x22] @ ''description'' @
     [CHR 0x22] @ '': '' @ [CHR 0x22] @ ''How to verify this specifically'' @ [CHR 0x22] @ '', '' @ [CHR 0x22] @
     ''weight'' @ [CHR 0x22] @ '': 1.0 }'' @ nl @ ''  ],'' @ nl @ ''  '' @ [CHR 0x22] @ ''success_threshold'' @
     [CHR 0x22] @ '': 0.9'' @ nl @ ''}'' @ nl @ nl @ ''**OUTPUT ONLY THE JSON OBJECT.**'' @ nl"

definition GenerateCriticPrompt :: "(json_object \<Rightarrow> string) \<Rightarrow> string \<Rightarrow> json_object \<Rightarrow> string \<Rightarrow> string" where
  "GenerateCriticPrompt indent task rubric proposedAnswer =
     ''### '' @ [CHR 0xF0] @ [CHR 0x9F] @ [CHR 0x9B] @ [CHR 0xA1] @ [CHR 0xEF] @ [CHR 0xB8] @ [CHR 0x8F] @
     '' STRATEGIC CRITIC TURN'' @ nl @ ''You are a high-reasoning auditor. You must evaluate the Specialist'' @
     [CHR 0x27] @ ''s performance against the provided Validation Rubric.'' @ nl @ nl @ ''**ORIGINAL TASK:**'' @ nl @
     task @ nl @ nl @ ''**VALIDATION RUBRIC:**'' @ nl @ indent rubric @ nl @ nl @ ''**PROPOSED ANSWER / OUTPUT:**'' @
     nl @ proposedAnswer @ nl @ nl @ ''**YOUR JOB:**'' @ nl @
     ''1. Audit the proposed answer against EVERY criterion in the rubric.'' @ nl @
     ''2. Be extremely critical. Penalize missing evidence, hallucinations, or '' @ [CHR 0x22] @ ''vibes-based'' @
     [CHR 0x22] @ '' plans instead of execution.'' @ nl @
     ''3. Calculate an overall_score (0.0 to 1.0) as a weighted average.'' @ nl @ ''4. Identify '' @ [CHR 0x27] @
     ''required_corrections'' @ [CHR 0x27] @ '' if any criteria score below 0.8.'' @ nl @ nl @
     ''**OUTPUT ONLY A JSON OBJECT matching this schema:**'' @ nl @ ''{'' @ nl @ ''  '' @ [CHR 0x22] @
     ''overall_score'' @ [CHR 0x22] @ '': 0.85,'' @ nl @ ''  '' @ [CHR 0x22] @ ''scores'' @ [CHR 0x22] @ '': ['' @ nl @
     ''    { '' @ [CHR 0x22] @ ''criterion_name'' @ [CHR 0x22] @ '': '' @ [CHR 0x22] @ ''Name'' @ [CHR 0x22] @ '', '' @
     [CHR 0x22] @ ''score'' @ [CHR 0x22] @ '': 0.7, '' @ [CHR 0x22] @ ''reasoning'' @ [CHR 0x22] @ '': '' @ [CHR 0x22] @
     ''Why this score?'' @ [CHR 0x22] @ '' }'' @ nl @ ''  ],'' @ nl @ ''  '' @ [CHR 0x22] @ ''passed'' @ [CHR 0x22] @
     '': false,'' @ nl @ ''  '' @ [CHR 0x22] @ ''feedback'' @ [CHR 0x22] @ '': '' @ [CHR 0x22] @
     ''Concise summary of quality'' @ [CHR 0x22] @ '','' @ nl @ ''  '' @ [CHR 0x22] @ ''required_corrections'' @
     [CHR 0x22] @ '': ['' @ [CHR 0x22] @ ''Specific thing to fix'' @ [CHR 0x22] @ '', '' @ [CHR 0x22] @
     ''Another fix'' @ [CHR 0x22] @ '']'' @ nl @ ''}'' @ nl"

text \<open>
  The trimmed text of the first code block, the trimmed first group of
  \<^verbatim>\<open>(?s)```(?:json)?\s*([\s\S]*?)\s*```\<close>: between the first fence, with the word json after it
  dropped, and the next one.
\<close>

definition fence :: string where "fence = replicate 3 (CHR 0x60)"

fun cut_at :: "string \<Rightarrow> string \<Rightarrow> (string \<times> string) option" where
  "cut_at sep [] = (if sep = [] then Some ([], []) else None)"
| "cut_at sep (c # cs) =
     (if HasPrefix (c # cs) sep then Some ([], drop (length sep) (c # cs))
      else map_option (\<lambda>(a, b). (c # a, b)) (cut_at sep cs))"

definition code_block :: "string \<Rightarrow> string option" where
  "code_block text =
     (case cut_at fence text of
        None \<Rightarrow> None
      | Some (_, rest) \<Rightarrow> map_option (\<lambda>(body, _). TrimSpace body) (cut_at fence (fst (CutPrefix rest ''json''))))"

text \<open>The result is \<open>None\<close> on failure; a map that is nil is \<open>Some None\<close>.\<close>

definition ParseJSONResponse :: "json_text \<Rightarrow> string \<Rightarrow> json_object option option" where
  "ParseJSONResponse lib text =
     (if TrimSpace text = [] then None
      else
        (case jt_Unmarshal lib (TrimSpace text) of
           Inr m \<Rightarrow> Some m
         | Inl _ \<Rightarrow>
             (case Option.bind (code_block text) (\<lambda>b. case jt_Unmarshal lib b of Inr m \<Rightarrow> Some m | Inl _ \<Rightarrow> None) of
                Some m \<Rightarrow> Some m
              | None \<Rightarrow>
                  if outer_braces text = [] then None
                  else (case jt_Unmarshal lib (TrimSpace (outer_braces text)) of Inr m \<Rightarrow> Some m | Inl _ \<Rightarrow> None))))"

definition arr_field :: "json_object \<Rightarrow> string \<Rightarrow> json list" where
  "arr_field m key = (case map_of m key of Some (JArr xs) \<Rightarrow> xs | _ \<Rightarrow> [])"

definition num_field :: "json_object \<Rightarrow> string \<Rightarrow> rat option" where
  "num_field m key = (case map_of m key of Some (JNum x) \<Rightarrow> Some x | _ \<Rightarrow> None)"

fun collect_weights :: "(rat \<Rightarrow> rat) \<Rightarrow> json list \<Rightarrow> (string \<rightharpoonup> rat) \<times> rat \<Rightarrow> (string \<rightharpoonup> rat) \<times> rat" where
  "collect_weights fl [] (weights, totalWeight) = (weights, totalWeight)"
| "collect_weights fl (JObj cm # cs) (weights, totalWeight) =
     (let weight = (case num_field cm ''weight'' of Some w \<Rightarrow> w | None \<Rightarrow> 1)
      in collect_weights fl cs (weights(stringVal cm ''name'' \<mapsto> weight), fl (totalWeight + weight)))"
| "collect_weights fl (_ # cs) acc = collect_weights fl cs acc"

fun weighted_sum :: "(rat \<Rightarrow> rat) \<Rightarrow> (string \<rightharpoonup> rat) \<Rightarrow> json list \<Rightarrow> rat \<Rightarrow> rat" where
  "weighted_sum fl weights [] acc = acc"
| "weighted_sum fl weights (JObj sm # ss) acc =
     (let score = (case num_field sm ''score'' of Some x \<Rightarrow> x | None \<Rightarrow> 0);
          w = (case weights (stringVal sm ''criterion_name'') of Some fw \<Rightarrow> fw | None \<Rightarrow> 1)
      in weighted_sum fl weights ss (fl (acc + fl (score * w))))"
| "weighted_sum fl weights (_ # ss) acc = weighted_sum fl weights ss acc"

definition CalculateTotalScore :: "(rat \<Rightarrow> rat) \<Rightarrow> json_object \<Rightarrow> json_object \<Rightarrow> rat" where
  "CalculateTotalScore fl report rubric =
     (case collect_weights fl (arr_field rubric ''criteria'') (Map.empty, 0) of
        (weights, totalWeight) \<Rightarrow>
          if totalWeight = 0 then 0
          else
            (let result = fl (weighted_sum fl weights (arr_field report ''scores'') 0 / totalWeight)
             in fl (of_int (trunc_rat (fl (fl (result * 1000) + 1 / 2))) / 1000)))"

end
