(* ===== verification/Runner.thy ===== *)
theory Runner
  imports Session Resilience Reflection Idempotency Bot "HOL-Library.AList"
begin

text \<open>
  The agent runner, \<^verbatim>\<open>internal/app/runner*.go\<close>: the loop of provider calls and tool calls that answers one
  turn. The world is the world of the circuit breakers with further fields. The runner's collaborators
  are records of functions over it: the provider, the tools, the memory stores. What the code takes from
  its surroundings is the record \<open>runner_env\<close>: the rate limiter, the timer and the request's context,
  random text, the clock, the database, the hash of tool arguments, the text layer of JSON and \<^verbatim>\<open>%v\<close>. A
  Go map is an association list in the order in which it is walked.
\<close>

section \<open>Data\<close>

record ToolDeclaration =
  td_Name :: string
  td_Description :: string
  td_Parameters :: json_object
  td_SideEffecting :: bool

record ChatRequest =
  cq_Model :: string
  cq_Messages :: "StrategicMessage list"
  cq_SystemInstruction :: string
  cq_Tools :: "ToolDeclaration list"
  cq_MaxTokens :: int

record TokenUsage =
  PromptTokens :: int
  CompletionTokens :: int
  TotalTokens :: int

record ChatResponse =
  cp_Message :: StrategicMessage
  cp_Usage :: TokenUsage

record 'w Provider =
  pr_Name :: string
  pr_Chat :: "ChatRequest \<Rightarrow> 'w \<Rightarrow> ChatResponse result \<times> 'w"

text \<open>A tool returns a text and perhaps an error, or panics; on the way it may set metadata.\<close>

datatype tool_return = ToolReturned string "go_error option" | ToolPanicked string

type_synonym ToolMeta = "(string \<times> string) list"

record 'w Tool =
  to_Declaration :: ToolDeclaration
  to_Execute :: "string \<Rightarrow> string \<Rightarrow> json_object option \<Rightarrow> 'w \<Rightarrow> (tool_return \<times> ToolMeta) \<times> 'w"

type_synonym 'w search = "string \<Rightarrow> string \<Rightarrow> int \<Rightarrow> 'w \<Rightarrow> json_object list result \<times> 'w"

record 'w AgentRunner =
  ar_Prov :: "'w Provider"
  ar_Model :: string
  ar_SystemPrompt :: string
  ar_MemStore :: "'w search option"
  ar_MemStoreProvider :: "(string \<Rightarrow> 'w \<Rightarrow> 'w search option \<times> 'w) option"
  ar_Hybrid :: "'w search option"
  ar_ToolsByName :: "(string \<times> 'w Tool) list"
  ar_Breaker :: nat
  ar_Hooks :: "'w Hooks option"
  ar_Tracer :: "bool option"
  ar_IdempStore :: "IdempotencyStore option"
  ar_SideEffectingTools :: "string list"
  ar_MaxToolIterations :: int
  ar_MaxTokens :: int
  ar_MaxToolResultBytes :: int
  ar_EnableReflection :: bool
  ar_MaxReflectionRounds :: int

record ('c, 'w) runner_env =
  rv_breaker :: "'c gobreaker"
  rv_LimiterWait :: "'w \<Rightarrow> go_error option \<times> 'w"
  rv_After :: "duration \<Rightarrow> 'w \<Rightarrow> go_error option \<times> 'w"
  rv_randText :: "'w \<Rightarrow> string \<times> 'w"
  rv_now :: "'w \<Rightarrow> instant \<times> 'w"
  rv_db :: "'w \<Rightarrow> db"
  rv_set_db :: "db \<Rightarrow> 'w \<Rightarrow> 'w"
  rv_scan :: "string \<Rightarrow> string"
  rv_parse_error :: "string \<Rightarrow> go_error"
  rv_constraint :: go_error
  rv_HashParams :: "json_object option \<Rightarrow> string result"
  rv_json :: json_text
  rv_indent :: "json_object \<Rightarrow> string"
  rv_printv :: "json \<Rightarrow> string"
  rv_fl :: "rat \<Rightarrow> rat"

text \<open>A field \<open>ar_Tracer\<close> of \<open>Some d\<close> is a tracer, with a tracing provider when \<open>d\<close> holds. Tracing runs the
  traced function once and may add to the text of its error.\<close>

section \<open>Tracing\<close>

definition TraceToolExecution :: "bool \<Rightarrow> ('w \<Rightarrow> (tool_return \<times> 'm) \<times> 'w) \<Rightarrow> 'w \<Rightarrow> (tool_return \<times> 'm) \<times> 'w" where
  "TraceToolExecution d fn w =
     (case fn w of
        ((ToolReturned res (Some e), m), w1) \<Rightarrow>
          ((ToolReturned res (Some (if d then wrap_err ''tool execution'' e else e)), m), w1)
      | x \<Rightarrow> x)"

definition TraceProviderCall :: "bool \<Rightarrow> ('w \<Rightarrow> (go_error option \<times> 'a) \<times> 'w) \<Rightarrow> 'w \<Rightarrow> (go_error option \<times> 'a) \<times> 'w" where
  "TraceProviderCall d fn w =
     (case fn w of
        ((Some e, a), w1) \<Rightarrow> ((Some (if d then wrap_err ''provider call'' e else e), a), w1)
      | x \<Rightarrow> x)"

definition TraceMemorySearch :: "bool \<Rightarrow> string \<Rightarrow> ('w \<Rightarrow> 'a result \<times> 'w) \<Rightarrow> 'w \<Rightarrow> 'a result \<times> 'w" where
  "TraceMemorySearch d searchType fn w =
     (case fn w of
        (Inl e, w1) \<Rightarrow> (Inl (if d then wrap_err (''memory search ('' @ searchType @ '')'') e else e), w1)
      | x \<Rightarrow> x)"

section \<open>Text\<close>

definition ExtractText :: "StrategicMessage \<Rightarrow> string" where
  "ExtractText msg =
     (case Content msg of
        None \<Rightarrow> []
      | Some c \<Rightarrow>
          (case Str c of
             Some s \<Rightarrow> s
           | None \<Rightarrow> concat (map (\<lambda>item. case CI_Text item of Some t \<Rightarrow> TextContent_Text t | None \<Rightarrow> [])
                              (case Items c of None \<Rightarrow> [] | Some xs \<Rightarrow> xs))))"

definition user_text :: "StrategicMessage \<Rightarrow> string option" where
  "user_text m = (if Role m = RoleUser then Option.bind (Content m) Str else None)"

definition LastUserText :: "StrategicMessage list \<Rightarrow> string" where
  "LastUserText messages = (case List.map_filter user_text (rev messages) of [] \<Rightarrow> [] | t # _ \<Rightarrow> t)"

fun correction_lines :: "int \<Rightarrow> json list \<Rightarrow> string" where
  "correction_lines i [] = []"
| "correction_lines i (JStr s # cs) = Itoa (i + 1) @ ''. '' @ s @ [CHR 0x0A] @ correction_lines (i + 1) cs"
| "correction_lines i (_ # cs) = correction_lines (i + 1) cs"

definition BuildCorrectionMessage :: "json_object \<Rightarrow> string" where
  "BuildCorrectionMessage report =
     ''The previous response did not fully satisfy the task requirements.'' @ [CHR 0x0A] @
     (if stringVal report ''feedback'' \<noteq> [] then ''Critic feedback: '' @ stringVal report ''feedback'' @ [CHR 0x0A] else []) @
     (if arr_field report ''required_corrections'' \<noteq> []
      then ''Required corrections:'' @ [CHR 0x0A] @ correction_lines 0 (arr_field report ''required_corrections'') else []) @
     ''Please revise your response to address the above.''"

definition RuneStart :: "char \<Rightarrow> bool" where
  "RuneStart c \<longleftrightarrow> (of_char c :: nat) div 64 \<noteq> 2"

fun rune_cut :: "string \<Rightarrow> nat \<Rightarrow> nat" where
  "rune_cut s 0 = 0"
| "rune_cut s (Suc idx) = (if RuneStart (s ! Suc idx) then Suc idx else rune_cut s idx)"

definition truncationNotice :: "int \<Rightarrow> string" where
  "truncationNotice maxBytes =
     [CHR 0x0A, CHR 0x0A] @ ''[... truncated: result exceeded '' @ Itoa maxBytes @ '' bytes ...]''"

definition TruncateToolResult :: "string \<Rightarrow> int \<Rightarrow> string" where
  "TruncateToolResult result maxBytes =
     (if maxBytes \<le> 0 \<or> int (length result) \<le> maxBytes then result
      else take (rune_cut result (nat maxBytes)) result @ truncationNotice maxBytes)"

definition metaKeys :: "string list" where
  "metaKeys = [''agent_type'', ''fallback_key'', ''model'', ''provider'', ''elapsed_ms'', ''iterations'']"

definition formatToolMetaBlock :: "string \<Rightarrow> ToolMeta \<Rightarrow> string" where
  "formatToolMetaBlock result meta =
     (if meta = [] then result
      else result @ [CHR 0x0A, CHR 0x0A] @ ''[tool_meta]'' @ [CHR 0x0A] @
        concat (map (\<lambda>k. case map_of (rev meta) k of Some v \<Rightarrow> k @ '': '' @ v @ [CHR 0x0A] | None \<Rightarrow> []) metaKeys) @
        ''[/tool_meta]'')"


section \<open>Construction\<close>

record runner_config =
  rcfg_MaxToolIterations :: int
  rcfg_MaxTokens :: int
  rcfg_MaxToolResultBytes :: int
  rcfg_Breakers :: "string \<rightharpoonup> int \<times> string \<times> string"

definition EffectiveMaxToolIterations :: "runner_config \<Rightarrow> int" where
  "EffectiveMaxToolIterations c = (if rcfg_MaxToolIterations c > 0 then rcfg_MaxToolIterations c else 25)"

definition cfg_MaxTokens :: "runner_config \<Rightarrow> int" where
  "cfg_MaxTokens c = (if rcfg_MaxTokens c > 0 then rcfg_MaxTokens c else 0)"

definition cfg_MaxToolResultBytes :: "runner_config \<Rightarrow> int" where
  "cfg_MaxToolResultBytes c = (if rcfg_MaxToolResultBytes c \<noteq> 0 then rcfg_MaxToolResultBytes c else 32768)"

definition parseDurationOrDefault :: "string \<Rightarrow> duration \<Rightarrow> duration" where
  "parseDurationOrDefault s defaultVal =
     (if s = [] then defaultVal
      else (case ParseDuration s of Some d \<Rightarrow> if d \<le> 0 then defaultVal else d | None \<Rightarrow> defaultVal))"

definition cfg_Breaker :: "runner_config \<Rightarrow> string \<Rightarrow> int \<times> duration \<times> duration" where
  "cfg_Breaker c name =
     (case rcfg_Breakers c name of
        Some (maxFail, window, timeout) \<Rightarrow>
          (maxFail, parseDurationOrDefault window (60 * second), parseDurationOrDefault timeout (30 * second))
      | None \<Rightarrow> (5, 60 * second, 30 * second))"

definition NewAgentRunner ::
  "'c gobreaker \<Rightarrow> ('c, 'x) breaker_world_scheme Provider \<Rightarrow> string \<Rightarrow> string \<Rightarrow> runner_config \<Rightarrow> ('c, 'x) breaker_world_scheme \<Rightarrow>
   ('c, 'x) breaker_world_scheme AgentRunner \<times> ('c, 'x) breaker_world_scheme" where
  "NewAgentRunner lib prov model systemPrompt cfg w =
     (case cfg_Breaker cfg (pr_Name prov) of
        (maxFail, window, timeout) \<Rightarrow>
          (case New lib (pr_Name prov) maxFail window timeout w of
             (b, w1) \<Rightarrow>
               (\<lparr>ar_Prov = prov, ar_Model = model, ar_SystemPrompt = systemPrompt, ar_MemStore = None, ar_MemStoreProvider = None,
                 ar_Hybrid = None, ar_ToolsByName = [], ar_Breaker = b, ar_Hooks = None, ar_Tracer = None, ar_IdempStore = None,
                 ar_SideEffectingTools = [], ar_MaxToolIterations = EffectiveMaxToolIterations cfg,
                 ar_MaxTokens = cfg_MaxTokens cfg, ar_MaxToolResultBytes = cfg_MaxToolResultBytes cfg,
                 ar_EnableReflection = False, ar_MaxReflectionRounds = 1\<rparr>, w1)))"

definition set_tool :: "'w Tool \<Rightarrow> (string \<times> 'w Tool) list \<times> string list \<Rightarrow> (string \<times> 'w Tool) list \<times> string list" where
  "set_tool t acc =
     (let name = td_Name (to_Declaration t) in
      (AList.update name t (fst acc), if td_SideEffecting (to_Declaration t) then List.insert name (snd acc) else snd acc))"

definition SetTools :: "'w Tool list \<Rightarrow> 'w AgentRunner \<Rightarrow> 'w AgentRunner" where
  "SetTools tools r =
     (case fold set_tool tools ([], []) of (m, se) \<Rightarrow> r\<lparr>ar_ToolsByName := m, ar_SideEffectingTools := se\<rparr>)"

section \<open>Provider calls\<close>

definition isRateLimitError :: "go_error \<Rightarrow> bool" where
  "isRateLimitError err =
     (let msg = ToLower (error_msg err)
      in Contains msg ''429'' \<or> Contains msg ''resource_exhausted'' \<or> Contains msg ''rate limit'')"

definition shouldRetry :: "go_error option \<Rightarrow> bool" where
  "shouldRetry err =
     (case err of
        None \<Rightarrow> False
      | Some e \<Rightarrow>
          if error_is e ErrCircuitOpen then False
          else if isRateLimitError e then True
          else IsTransientError (Some e))"

definition nil_deref :: go_error where
  "nil_deref = ErrorNew ''runtime error: invalid memory address or nil pointer dereference''"

text \<open>The closure that \<^verbatim>\<open>attemptChat\<close> hands to the breaker; it leaves the response in the captured variable.\<close>

definition provider_call :: "'w Provider \<Rightarrow> ChatRequest \<Rightarrow> 'w \<Rightarrow> (go_error option \<times> ChatResponse option) \<times> 'w" where
  "provider_call prov req w =
     (case pr_Chat prov req w of
        (Inl e, w1) \<Rightarrow> ((Some (wrap_err ''provider chat'' e), None), w1)
      | (Inr resp, w1) \<Rightarrow> ((None, Some resp), w1))"

definition attemptChat ::
  "('c, ('c, 'x) breaker_world_scheme) runner_env \<Rightarrow> ('c, 'x) breaker_world_scheme AgentRunner \<Rightarrow> ChatRequest \<Rightarrow>
   ('c, 'x) breaker_world_scheme \<Rightarrow> ChatResponse result \<times> ('c, 'x) breaker_world_scheme" where
  "attemptChat env r req w =
     (case rv_LimiterWait env w of
        (Some e, w1) \<Rightarrow> (Inl (wrap_err ''rate limit wait'' e), w1)
      | (None, w1) \<Rightarrow>
          (let fn = Breaker_Execute (rv_breaker env) (ar_Breaker r) None (provider_call (ar_Prov r) req) in
           case (case ar_Tracer r of Some d \<Rightarrow> TraceProviderCall d fn w1 | None \<Rightarrow> fn w1) of
             ((Some e, _), w2) \<Rightarrow> (Inl e, w2)
           | ((None, Some resp), w2) \<Rightarrow> (Inr resp, w2)
           | ((None, None), w2) \<Rightarrow> (Inl nil_deref, w2)))"

definition waitBeforeRetry ::
  "('c, 'w) runner_env \<Rightarrow> duration \<Rightarrow> duration \<Rightarrow> 'w \<Rightarrow> duration result \<times> 'w" where
  "waitBeforeRetry env cap delay w =
     (case rv_After env delay w of
        (Some e, w1) \<Rightarrow> (Inl (wrap_err ''context'' e), w1)
      | (None, w1) \<Rightarrow> (Inr (if delay * 2 > cap then cap else delay * 2), w1))"

text \<open>The attempts that are left of \<^verbatim>\<open>RetryChat\<close>; \<open>lastErr\<close> is None before the first attempt only.\<close>

definition maxGenRetries :: nat where "maxGenRetries = 3"

fun retry_chat ::
  "('c, ('c, 'x) breaker_world_scheme) runner_env \<Rightarrow> ('c, 'x) breaker_world_scheme AgentRunner \<Rightarrow> ChatRequest \<Rightarrow>
   nat \<Rightarrow> duration \<Rightarrow> go_error option \<Rightarrow> ('c, 'x) breaker_world_scheme \<Rightarrow> ChatResponse result \<times> ('c, 'x) breaker_world_scheme" where
  "retry_chat env r req 0 delay lastErr w =
     (Inl (case lastErr of
             Some e \<Rightarrow> Errorf (Itoa (int maxGenRetries) @ '' retries exhausted: '') e []
           | None \<Rightarrow> ErrorNew (Itoa (int maxGenRetries) @ '' retries exhausted: %!w(<nil>)'')), w)"
| "retry_chat env r req (Suc n) delay lastErr w =
     (case (if lastErr = None then (Inr delay, w) else waitBeforeRetry env (30 * second) delay w) of
        (Inl e, w1) \<Rightarrow> (Inl e, w1)
      | (Inr delay', w1) \<Rightarrow>
          (case attemptChat env r req w1 of
             (Inr resp, w2) \<Rightarrow> (Inr resp, w2)
           | (Inl e, w2) \<Rightarrow>
               if \<not> shouldRetry (Some e) then (Inl e, w2) else retry_chat env r req n delay' (Some e) w2))"

definition RetryChat ::
  "('c, ('c, 'x) breaker_world_scheme) runner_env \<Rightarrow> ('c, 'x) breaker_world_scheme AgentRunner \<Rightarrow> ChatRequest \<Rightarrow>
   ('c, 'x) breaker_world_scheme \<Rightarrow> ChatResponse result \<times> ('c, 'x) breaker_world_scheme" where
  "RetryChat env r req w = retry_chat env r req (Suc maxGenRetries) second None w"

definition plain_message :: "MessageRole \<Rightarrow> string \<Rightarrow> StrategicMessage" where
  "plain_message role s = empty_message\<lparr>Role := role, Content := Some \<lparr>Str = Some s, Items = None\<rparr>\<rparr>"

definition RunText ::
  "('c, ('c, 'x) breaker_world_scheme) runner_env \<Rightarrow> ('c, 'x) breaker_world_scheme AgentRunner \<Rightarrow> string \<Rightarrow> string \<Rightarrow>
   ('c, 'x) breaker_world_scheme \<Rightarrow> string result \<times> ('c, 'x) breaker_world_scheme" where
  "RunText env r prompt modelOverride w =
     (case RetryChat env r
             \<lparr>cq_Model = (if modelOverride \<noteq> [] then modelOverride else ar_Model r), cq_Messages = [plain_message RoleUser prompt],
              cq_SystemInstruction = [], cq_Tools = [], cq_MaxTokens = 0\<rparr> w of
        (Inl e, w1) \<Rightarrow> (Inl (wrap_err ''RunText'' e), w1)
      | (Inr resp, w1) \<Rightarrow> (Inr (ExtractText (cp_Message resp)), w1))"


section \<open>Tool calls\<close>

record toolCallState =
  tcs_invocationID :: string
  tcs_sessionKey :: string
  tcs_userID :: string
  tcs_name :: string
  tcs_args :: "json_object option"
  tcs_iter :: nat
  tcs_seqLen :: nat
  tcs_paramsHash :: string
  tcs_hashFailed :: bool
  tcs_idemKey :: string

type_synonym tool_result = "(string \<times> go_error option) \<times> ToolMeta"

definition executeToolInner ::
  "'w AgentRunner \<Rightarrow> string \<Rightarrow> string \<Rightarrow> string \<Rightarrow> json_object option \<Rightarrow> 'w \<Rightarrow> tool_result \<times> 'w" where
  "executeToolInner r sessionKey userID name args w =
     (case map_of (ar_ToolsByName r) name of
        None \<Rightarrow> ((([], Some (Errorf [] ErrUnknownTool ('': '' @ name))), []), w)
      | Some t \<Rightarrow>
          (let fn = to_Execute t sessionKey userID args;
               prefix = (case ar_Tracer r of Some d \<Rightarrow> ''trace tool execution'' | None \<Rightarrow> ''execute tool'')
           in case (case ar_Tracer r of Some d \<Rightarrow> TraceToolExecution d fn w | None \<Rightarrow> fn w) of
                ((ToolPanicked v, m), w1) \<Rightarrow> ((([], Some (ErrorNew (''tool '' @ name @ '' panicked: '' @ v))), m), w1)
              | ((ToolReturned res (Some e), m), w1) \<Rightarrow> (((res, Some (wrap_err prefix e)), m), w1)
              | ((ToolReturned res None, m), w1) \<Rightarrow> (((res, None), m), w1)))"

text \<open>The two accesses to the idempotency store, on the database of the world.\<close>

definition idem_check ::
  "('c, 'w) runner_env \<Rightarrow> IdempotencyStore \<Rightarrow> string \<Rightarrow> string \<Rightarrow> 'w \<Rightarrow> (CheckResult \<times> go_error option) \<times> 'w" where
  "idem_check env st key paramsHash w =
     (case rv_now env w of
        (now, w1) \<Rightarrow>
          (case Check (rv_scan env) (rv_parse_error env) st now key paramsHash (rv_db env w1) of
             (res, d) \<Rightarrow> (res, rv_set_db env d w1)))"

definition idem_store ::
  "('c, 'w) runner_env \<Rightarrow> string \<Rightarrow> string \<Rightarrow> string \<Rightarrow> string \<Rightarrow> string \<Rightarrow> 'w \<Rightarrow> 'w" where
  "idem_store env key name paramsHash res sessionKey w =
     rv_set_db env (snd (Store (rv_constraint env) key name paramsHash res sessionKey (rv_db env w))) w"

definition executeToolCall :: "('c, 'w) runner_env \<Rightarrow> 'w AgentRunner \<Rightarrow> toolCallState \<Rightarrow> 'w \<Rightarrow> tool_result \<times> 'w" where
  "executeToolCall env r call w =
     (let run = executeToolInner r (tcs_sessionKey call) (tcs_userID call) (tcs_name call) (tcs_args call) in
      case (if tcs_name call \<in> set (ar_SideEffectingTools r) then ar_IdempStore r else None) of
        None \<Rightarrow> run w
      | Some st \<Rightarrow>
          (case (if tcs_paramsHash call = [] then rv_HashParams env (tcs_args call) else Inr (tcs_paramsHash call)) of
             Inl e \<Rightarrow> ((([], Some (wrap_err ''executeTool: hash params'' e)), []), w)
           | Inr paramsHash \<Rightarrow>
               (case idem_check env st (tcs_idemKey call) paramsHash w of
                  ((_, Some e), w1) \<Rightarrow> ((([], Some (wrap_err ''executeTool'' e)), []), w1)
                | ((res, None), w1) \<Rightarrow>
                    if Found res then (((CachedResult res, None), []), w1)
                    else
                      (case run w1 of
                         (((result, None), m), w2) \<Rightarrow>
                           (((result, None), m), idem_store env (tcs_idemKey call) (tcs_name call) paramsHash result (tcs_sessionKey call) w2)
                       | (((result, Some e), m), w2) \<Rightarrow> (((result, Some e), m), w2)))))"

definition call_key :: "toolCallState \<Rightarrow> string" where
  "call_key call =
     ''auto-v2:'' @ tcs_invocationID call @ '':'' @ tcs_sessionKey call @ '':'' @ Itoa (int (tcs_iter call)) @ '':'' @
     Itoa (int (tcs_seqLen call)) @ '':'' @ tcs_name call @ '':'' @ tcs_paramsHash call"

definition mainToolStep :: "('c, 'w) runner_env \<Rightarrow> 'w AgentRunner \<Rightarrow> toolCallState \<Rightarrow> 'w \<Rightarrow> tool_result \<times> 'w" where
  "mainToolStep env r call w =
     executeToolCall env r (if tcs_hashFailed call then call else call\<lparr>tcs_idemKey := call_key call\<rparr>) w"

definition preToolStep :: "'w AgentRunner \<Rightarrow> toolCallState \<Rightarrow> 'w \<Rightarrow> string result \<times> 'w" where
  "preToolStep r call w =
     (case ar_Hooks r of
        None \<Rightarrow> (Inr [], w)
      | Some h \<Rightarrow>
          (case RunPreTool h (tcs_sessionKey call) (tcs_name call) (case tcs_args call of None \<Rightarrow> [] | Some a \<Rightarrow> a) w of
             (Inl e, w1) \<Rightarrow> (Inl (wrap_err ''pre tool hook'' e), w1)
           | (Inr override, w1) \<Rightarrow> (Inr override, w1)))"

definition runPostToolHooks :: "('c, 'w) runner_env \<Rightarrow> 'w AgentRunner \<Rightarrow> string \<Rightarrow> string \<Rightarrow> 'w \<Rightarrow> string \<times> 'w" where
  "runPostToolHooks env r name result w =
     (case ar_Hooks r of
        None \<Rightarrow> (result, w)
      | Some h \<Rightarrow>
          (case RunPostTool h name (JStr result) w of
             (JStr s, w1) \<Rightarrow> (s, w1)
           | (v, w1) \<Rightarrow> (rv_printv env v, w1)))"

definition handleCategoryAError :: "string \<Rightarrow> string \<Rightarrow> go_error \<Rightarrow> string" where
  "handleCategoryAError name result err =
     (if result \<noteq> [] then result @ [CHR 0x0A] else []) @ ''TOOL_ERROR ['' @ name @ '']: '' @ error_msg err @ [CHR 0x0A, CHR 0x0A] @
     ''CRITICAL INSTRUCTION: The tool failed to provide the requested information. You MUST NOT use your internal'' @
     '' training data, previous knowledge, or memory to '' @ [CHR 0x27] @ ''guess'' @ [CHR 0x27] @ '' or '' @ [CHR 0x27] @
     ''hallucinate'' @ [CHR 0x27] @ '' the missing data. If the information was essential, simply inform the user that it'' @
     '' is currently unavailable due to a technical error. Do NOT invent results or model names.''"

definition stops_run :: "go_error \<Rightarrow> bool" where
  "stops_run e \<longleftrightarrow> error_is e Canceled \<or> error_is e DeadlineExceeded \<or> error_is e ErrToolDenied"

definition runToolWithHooks ::
  "('c, 'w) runner_env \<Rightarrow> 'w AgentRunner \<Rightarrow> toolCallState \<Rightarrow> 'w \<Rightarrow> (string result \<times> ToolMeta) \<times> 'w" where
  "runToolWithHooks env r call w =
     (case preToolStep r call w of
        (Inl e, w1) \<Rightarrow> ((Inl (wrap_err ''pre-tool hook'' e), []), w1)
      | (Inr override, w1) \<Rightarrow>
          if override \<noteq> [] then ((Inr override, []), w1)
          else
            (case mainToolStep env r call w1 of
               (((result, Some e), m), w2) \<Rightarrow>
                 if stops_run e then ((Inl e, m), w2)
                 else if IsCronSession (tcs_sessionKey call)
                 then ((Inl (Errorf (''tool failure in fail-closed cron session ['' @ tcs_name call @ '']: '') e []), m), w2)
                 else ((Inr (handleCategoryAError (tcs_name call) result e), m), w2)
             | (((result, None), m), w2) \<Rightarrow>
                 (case runPostToolHooks env r (tcs_name call) result w2 of (s, w3) \<Rightarrow> ((Inr s, m), w3))))"

definition executeToolCallState ::
  "('c, 'w) runner_env \<Rightarrow> 'w AgentRunner \<Rightarrow> toolCallState \<Rightarrow> 'w \<Rightarrow> (string result \<times> ToolMeta) \<times> 'w" where
  "executeToolCallState env r call w =
     (let call' = (case rv_HashParams env (tcs_args call) of
                     Inr h \<Rightarrow> call\<lparr>tcs_paramsHash := h, tcs_hashFailed := False\<rparr>
                   | Inl _ \<Rightarrow> call\<lparr>tcs_paramsHash := [], tcs_hashFailed := True\<rparr>)
      in case runToolWithHooks env r call' w of
           ((Inl e, m), w1) \<Rightarrow> ((Inl e, m), w1)
         | ((Inr result, m), w1) \<Rightarrow> ((Inr (TruncateToolResult result (ar_MaxToolResultBytes r)), m), w1))"

definition new_call :: "string \<Rightarrow> string \<Rightarrow> string \<Rightarrow> string \<Rightarrow> json_object option \<Rightarrow> nat \<Rightarrow> nat \<Rightarrow> toolCallState" where
  "new_call invocationID sessionKey userID name args iter seqLen =
     \<lparr>tcs_invocationID = invocationID, tcs_sessionKey = sessionKey, tcs_userID = userID, tcs_name = name, tcs_args = args,
      tcs_iter = iter, tcs_seqLen = seqLen, tcs_paramsHash = [], tcs_hashFailed = False, tcs_idemKey = []\<rparr>"

definition executeSingleToolCall ::
  "('c, 'w) runner_env \<Rightarrow> 'w AgentRunner \<Rightarrow> string \<Rightarrow> string \<Rightarrow> string \<Rightarrow> json_object option \<Rightarrow> nat \<Rightarrow> nat \<Rightarrow> 'w \<Rightarrow>
   (string result \<times> ToolMeta) \<times> 'w" where
  "executeSingleToolCall env r sessionKey userID name args iter seqLen w =
     (case rv_randText env w of
        (invocationID, w1) \<Rightarrow> executeToolCallState env r (new_call invocationID sessionKey userID name args iter seqLen) w1)"

definition tool_message :: "ToolCall \<Rightarrow> string \<Rightarrow> StrategicMessage" where
  "tool_message tc result =
     (plain_message RoleTool result)\<lparr>msg_Name := Some (tc_Name tc), ToolCallID := (if tc_ID tc \<noteq> [] then Some (tc_ID tc) else None)\<rparr>"

fun processToolCalls ::
  "('c, 'w) runner_env \<Rightarrow> 'w AgentRunner \<Rightarrow> string \<Rightarrow> string \<Rightarrow> string \<Rightarrow> nat \<Rightarrow> ToolCall list \<Rightarrow> string list \<Rightarrow> 'w \<Rightarrow>
   (StrategicMessage list result \<times> string list) \<times> 'w" where
  "processToolCalls env r invocationID sessionKey userID iter [] toolSeq w = ((Inr [], toolSeq), w)"
| "processToolCalls env r invocationID sessionKey userID iter (tc # tcs) toolSeq w =
     (let toolSeq' = toolSeq @ [tc_Name tc] in
      case executeToolCallState env r
             (new_call invocationID sessionKey userID (tc_Name tc) (tc_Args tc) iter (length toolSeq')) w of
        ((Inl e, m), w1) \<Rightarrow> ((Inl e, toolSeq'), w1)
      | ((Inr result, m), w1) \<Rightarrow>
          (case processToolCalls env r invocationID sessionKey userID iter tcs toolSeq' w1 of
             ((Inl e, sq), w2) \<Rightarrow> ((Inl e, sq), w2)
           | ((Inr msgs, sq), w2) \<Rightarrow> ((Inr (tool_message tc (formatToolMetaBlock result m) # msgs), sq), w2)))"


section \<open>The system prompt\<close>

definition ftsSearch :: "'w AgentRunner \<Rightarrow> string \<Rightarrow> string \<Rightarrow> 'w search \<Rightarrow> 'w \<Rightarrow> json_object list \<times> 'w" where
  "ftsSearch r userText sessionKey memStore w =
     (case (case ar_Tracer r of
              Some d \<Rightarrow>
                TraceMemorySearch d ''fts''
                  (\<lambda>w. case memStore userText sessionKey 10 w of
                         (Inl e, w1) \<Rightarrow> (Inl (wrap_err ''fts search'' e), w1) | x \<Rightarrow> x) w
            | None \<Rightarrow> memStore userText sessionKey 10 w) of
        (Inl _, w1) \<Rightarrow> ([], w1)
      | (Inr results, w1) \<Rightarrow> (if results \<noteq> [] then FilterRAGResults results 0 else [], w1))"

definition hybrid_entry :: "json_object \<Rightarrow> json_object" where
  "hybrid_entry res = [(''content'', JStr (stringVal res ''content'')), (''score'', JNum (rag_score res))]"

definition hybridRagSearch ::
  "'w AgentRunner \<Rightarrow> 'w search \<Rightarrow> string \<Rightarrow> string \<Rightarrow> 'w search \<Rightarrow> 'w \<Rightarrow> json_object list \<times> 'w" where
  "hybridRagSearch r hybrid sessionKey userText memStore w =
     (let fn = (\<lambda>w. case hybrid userText sessionKey 5 w of (Inl e, w1) \<Rightarrow> (Inl (wrap_err ''hybrid search'' e), w1) | x \<Rightarrow> x) in
      case (case ar_Tracer r of Some d \<Rightarrow> TraceMemorySearch d ''hybrid'' fn w | None \<Rightarrow> fn w) of
        (Inr results, w1) \<Rightarrow> (map hybrid_entry results, w1)
      | (Inl _, w1) \<Rightarrow> ftsSearch r userText sessionKey memStore w1)"

definition getRagBlock :: "'w AgentRunner \<Rightarrow> string \<Rightarrow> string \<Rightarrow> 'w search \<Rightarrow> 'w \<Rightarrow> string \<times> 'w" where
  "getRagBlock r sessionKey userText memStore w =
     (case (case ar_Hybrid r of
              Some hybrid \<Rightarrow> hybridRagSearch r hybrid sessionKey userText memStore w
            | None \<Rightarrow> ftsSearch r userText sessionKey memStore w) of
        (filtered, w1) \<Rightarrow>
          (case FormatRAGBlock filtered of
             Some (block, n) \<Rightarrow> (if n > 0 then block else [], w1)
           | None \<Rightarrow> ([], w1)))"

definition buildSystemPrompt ::
  "'w AgentRunner \<Rightarrow> string \<Rightarrow> StrategicMessage list \<Rightarrow> 'w search option \<Rightarrow> 'w \<Rightarrow> string \<times> 'w" where
  "buildSystemPrompt r sessionKey messages memStore w =
     (case (case memStore of
              Some ms \<Rightarrow>
                if ShouldSkipRAG (LastUserText messages) then ([], w)
                else getRagBlock r sessionKey (LastUserText messages) ms w
            | None \<Rightarrow> ([], w)) of
        (ragBlock, w1) \<Rightarrow>
          (let sysPrompt = (if ragBlock = [] then ar_SystemPrompt r
                            else if ar_SystemPrompt r \<noteq> [] then ragBlock @ [CHR 0x0A, CHR 0x0A] @ ar_SystemPrompt r
                            else ragBlock)
           in case ar_Hooks r of Some h \<Rightarrow> RunPrePrompt h sysPrompt w1 | None \<Rightarrow> (sysPrompt, w1)))"

section \<open>Reflection\<close>

text \<open>A rubric is None for the nil map.\<close>

definition generateReflectionRubric ::
  "('c, ('c, 'x) breaker_world_scheme) runner_env \<Rightarrow> ('c, 'x) breaker_world_scheme AgentRunner \<Rightarrow> string \<Rightarrow>
   ('c, 'x) breaker_world_scheme \<Rightarrow> json_object option \<times> ('c, 'x) breaker_world_scheme" where
  "generateReflectionRubric env r userText w =
     (if \<not> ar_EnableReflection r \<or> userText = [] then (None, w)
      else
        (case RunText env r (GenerateRubricPrompt userText) [] w of
           (Inl _, w1) \<Rightarrow> (None, w1)
         | (Inr planStr, w1) \<Rightarrow>
             (case ParseJSONResponse (rv_json env) planStr of None \<Rightarrow> (None, w1) | Some parsed \<Rightarrow> (parsed, w1))))"

definition performReflectionAudit ::
  "('c, ('c, 'x) breaker_world_scheme) runner_env \<Rightarrow> ('c, 'x) breaker_world_scheme AgentRunner \<Rightarrow> string \<Rightarrow> json_object \<Rightarrow> string \<Rightarrow>
   int \<Rightarrow> ('c, 'x) breaker_world_scheme \<Rightarrow> (StrategicMessage option \<times> int) \<times> ('c, 'x) breaker_world_scheme" where
  "performReflectionAudit env r userText rubric text rounds w =
     (case RunText env r (GenerateCriticPrompt (rv_indent env) userText rubric text) [] w of
        (Inl _, w1) \<Rightarrow> ((None, rounds), w1)
      | (Inr criticStr, w1) \<Rightarrow>
          (case ParseJSONResponse (rv_json env) criticStr of
             None \<Rightarrow> ((None, rounds), w1)
           | Some report0 \<Rightarrow>
               (let report = (case report0 of None \<Rightarrow> [] | Some m \<Rightarrow> m);
                    score = CalculateTotalScore (rv_fl env) report rubric;
                    threshold = (case num_field rubric ''success_threshold'' of Some t \<Rightarrow> t | None \<Rightarrow> rv_fl env (7 / 10))
                in if score < threshold
                   then ((Some (plain_message RoleUser (BuildCorrectionMessage report)), rounds + 1), w1)
                   else ((None, 0), w1))))"

text \<open>The result is the final text, or the correction to go on with.\<close>

definition handleTerminalResponse ::
  "('c, ('c, 'x) breaker_world_scheme) runner_env \<Rightarrow> ('c, 'x) breaker_world_scheme AgentRunner \<Rightarrow> string \<Rightarrow> json_object option \<Rightarrow>
   StrategicMessage \<Rightarrow> int \<Rightarrow> ('c, 'x) breaker_world_scheme \<Rightarrow>
   (string + StrategicMessage) \<times> int \<times> ('c, 'x) breaker_world_scheme" where
  "handleTerminalResponse env r userText rubric respMsg rounds w =
     (let text = ExtractText respMsg in
      case (if ar_EnableReflection r then rubric else None) of
        None \<Rightarrow> (Inl text, rounds, w)
      | Some rb \<Rightarrow>
          if rounds \<ge> ar_MaxReflectionRounds r then (Inl text, rounds, w)
          else
            (case performReflectionAudit env r userText rb text rounds w of
               ((Some msg, rounds'), w1) \<Rightarrow> (Inr msg, rounds', w1)
             | ((None, rounds'), w1) \<Rightarrow> (Inl text, rounds', w1)))"

section \<open>The loop\<close>

definition run_exceeded :: "'w AgentRunner \<Rightarrow> go_error" where
  "run_exceeded r = ErrorNew (''runner: tool dispatch loop exceeded '' @ Itoa (ar_MaxToolIterations r) @ '' iterations'')"

record run_context =
  rx_invocationID :: string
  rx_sessionKey :: string
  rx_userID :: string
  rx_sysPrompt :: string
  rx_userText :: string
  rx_rubric :: "json_object option"

definition run_request :: "'w AgentRunner \<Rightarrow> run_context \<Rightarrow> StrategicMessage list \<Rightarrow> ChatRequest" where
  "run_request r rx messages =
     \<lparr>cq_Model = ar_Model r, cq_Messages = messages, cq_SystemInstruction = rx_sysPrompt rx,
      cq_Tools = map (to_Declaration \<circ> snd) (ar_ToolsByName r), cq_MaxTokens = ar_MaxTokens r\<rparr>"

text \<open>\<open>n\<close> iterations are left, of which \<open>iter\<close> is the next.\<close>

fun run_loop ::
  "('c, ('c, 'x) breaker_world_scheme) runner_env \<Rightarrow> ('c, 'x) breaker_world_scheme AgentRunner \<Rightarrow> run_context \<Rightarrow> nat \<Rightarrow> nat \<Rightarrow>
   StrategicMessage list \<Rightarrow> string list \<Rightarrow> int \<Rightarrow> ('c, 'x) breaker_world_scheme \<Rightarrow>
   (string \<times> StrategicMessage list) result \<times> ('c, 'x) breaker_world_scheme" where
  "run_loop env r rx 0 iter messages toolSeq rounds w = (Inl (run_exceeded r), w)"
| "run_loop env r rx (Suc n) iter messages toolSeq rounds w =
     (case RetryChat env r (run_request r rx messages) w of
        (Inl e, w1) \<Rightarrow> (Inl (wrap_err ''chat'' e), w1)
      | (Inr resp, w1) \<Rightarrow>
          (let messages1 = messages @ [cp_Message resp] in
           if ToolCalls (cp_Message resp) = [] then
             (case handleTerminalResponse env r (rx_userText rx) (rx_rubric rx) (cp_Message resp) rounds w1 of
                (Inl text, _, w2) \<Rightarrow> (Inr (text, messages1), w2)
              | (Inr msg, rounds', w2) \<Rightarrow> run_loop env r rx n (Suc iter) (messages1 @ [msg]) toolSeq rounds' w2)
           else
             (case processToolCalls env r (rx_invocationID rx) (rx_sessionKey rx) (rx_userID rx) iter
                     (ToolCalls (cp_Message resp)) toolSeq w1 of
                ((Inl e, _), w2) \<Rightarrow> (Inl e, w2)
              | ((Inr newMsgs, toolSeq'), w2) \<Rightarrow>
                  run_loop env r rx n (Suc iter) (messages1 @ newMsgs) toolSeq' rounds w2)))"

definition Run ::
  "('c, ('c, 'x) breaker_world_scheme) runner_env \<Rightarrow> ('c, 'x) breaker_world_scheme AgentRunner \<Rightarrow> string \<Rightarrow> string \<Rightarrow>
   StrategicMessage list \<Rightarrow> ('c, 'x) breaker_world_scheme \<Rightarrow>
   (string \<times> StrategicMessage list) result \<times> ('c, 'x) breaker_world_scheme" where
  "Run env r sessionKey userID messages w =
     (case rv_randText env w of (invocationID, w1) \<Rightarrow>
      case (case ar_MemStoreProvider r of
              Some f \<Rightarrow> if userID \<noteq> [] then f userID w1 else (ar_MemStore r, w1)
            | None \<Rightarrow> (ar_MemStore r, w1)) of (memStore, w2) \<Rightarrow>
      case buildSystemPrompt r sessionKey messages memStore w2 of (sysPrompt, w3) \<Rightarrow>
      case generateReflectionRubric env r (LastUserText messages) w3 of (rubric, w4) \<Rightarrow>
        run_loop env r
          \<lparr>rx_invocationID = invocationID, rx_sessionKey = sessionKey, rx_userID = userID, rx_sysPrompt = sysPrompt,
           rx_userText = LastUserText messages, rx_rubric = rubric\<rparr>
          (nat (ar_MaxToolIterations r)) 0 messages [] 0 w4)"

text \<open>The runner as the session manager sees it.\<close>

definition as_runner ::
  "('c, ('c, 'x) breaker_world_scheme) runner_env \<Rightarrow> ('c, 'x) breaker_world_scheme AgentRunner \<Rightarrow>
   ('c, 'x) breaker_world_scheme Session.Runner" where
  "as_runner env r =
     \<lparr>ru_Run = Run env r, ru_RunText = (\<lambda>sessionKey prompt modelOverride w. RunText env r prompt modelOverride w)\<rparr>"

end
