(* ===== verification/Runner_Laws.thy ===== *)
theory Runner_Laws
  imports Runner
begin

text \<open>
  What a turn of the agent does: how often it calls the provider, which tools it can run, what it adds to
  the conversation, and that a replayed tool call returns the stored result.
\<close>

section \<open>Effects\<close>

text \<open>
  \<open>G n w w'\<close> relates the worlds before and after a part of the program that costs at most \<open>n\<close>. Two
  relations are of interest: the number of provider calls, and the preservation of an invariant.
\<close>

definition graded :: "(nat \<Rightarrow> 'w \<Rightarrow> 'w \<Rightarrow> bool) \<Rightarrow> bool" where
  "graded G \<longleftrightarrow> (\<forall>w. G 0 w w) \<and> (\<forall>m n a b c. G m a b \<longrightarrow> G n b c \<longrightarrow> G (m + n) a c) \<and>
     (\<forall>m n a b. G m a b \<longrightarrow> m \<le> n \<longrightarrow> G n a b)"

definition hooks_grade :: "(nat \<Rightarrow> 'w \<Rightarrow> 'w \<Rightarrow> bool) \<Rightarrow> 'w Hooks \<Rightarrow> bool" where
  "hooks_grade G h \<longleftrightarrow>
     (\<forall>fn \<in> set (prePrompt h). \<forall>s w. G 0 w (snd (fn s w))) \<and>
     (\<forall>fn \<in> set (preTool h). \<forall>sk tn args w. G 0 w (snd (fn sk tn args w))) \<and>
     (\<forall>fn \<in> set (postTool h). \<forall>tn v w. G 0 w (snd (fn tn v w)))"

definition search_grade :: "(nat \<Rightarrow> 'w \<Rightarrow> 'w \<Rightarrow> bool) \<Rightarrow> 'w search option \<Rightarrow> bool" where
  "search_grade G ms \<longleftrightarrow> (\<forall>f. ms = Some f \<longrightarrow> (\<forall>q sk n w. G 0 w (snd (f q sk n w))))"

text \<open>The pre-tool hooks can let a call of this tool with these arguments pass.\<close>

definition permitted :: "'w AgentRunner \<Rightarrow> string \<Rightarrow> string \<Rightarrow> json_object option \<Rightarrow> bool" where
  "permitted r sk name args \<longleftrightarrow>
     (case ar_Hooks r of
        None \<Rightarrow> True
      | Some h \<Rightarrow> \<exists>wa wb. RunPreTool h sk name (case args of None \<Rightarrow> [] | Some a \<Rightarrow> a) wa = (Inr [], wb))"

text \<open>A provider call costs one and an execution of a tool at most \<open>c\<close>, everything else nothing; of the tools
  only permitted calls matter.\<close>

definition tool_grade ::
  "nat \<Rightarrow> (nat \<Rightarrow> ('c, 'x) breaker_world_scheme \<Rightarrow> ('c, 'x) breaker_world_scheme \<Rightarrow> bool) \<Rightarrow>
   ('c, ('c, 'x) breaker_world_scheme) runner_env \<Rightarrow> ('c, 'x) breaker_world_scheme AgentRunner \<Rightarrow> bool" where
  "tool_grade c G env r \<longleftrightarrow>
     graded G \<and> (\<forall>w. G 0 w (snd (rv_LimiterWait env w))) \<and> (\<forall>d w. G 0 w (snd (rv_After env d w))) \<and>
     (\<forall>w. G 0 w (snd (rv_randText env w))) \<and> (\<forall>w. G 0 w (snd (rv_now env w))) \<and> (\<forall>d w. G 0 w (rv_set_db env d w)) \<and>
     (\<forall>cbs w. G 0 w (w\<lparr>bw_cbs := cbs\<rparr>)) \<and> (\<forall>st w. G 0 w (w\<lparr>bw_stats := st\<rparr>)) \<and>
     (\<forall>q w. G 1 w (snd (pr_Chat (ar_Prov r) q w))) \<and>
     search_grade G (ar_MemStore r) \<and> search_grade G (ar_Hybrid r) \<and>
     (\<forall>f. ar_MemStoreProvider r = Some f \<longrightarrow> (\<forall>u w. G 0 w (snd (f u w)) \<and> search_grade G (fst (f u w)))) \<and>
     (\<forall>h. ar_Hooks r = Some h \<longrightarrow> hooks_grade G h) \<and>
     (\<forall>name t sk u args w. map_of (ar_ToolsByName r) name = Some t \<longrightarrow> permitted r sk name args \<longrightarrow>
        G c w (snd (to_Execute t sk u args w)))"

abbreviation world_grade where "world_grade \<equiv> tool_grade 0"

text \<open>No answer of the provider has more than \<open>k\<close> tool calls.\<close>

definition answer_width :: "nat \<Rightarrow> 'w Provider \<Rightarrow> bool" where
  "answer_width k p \<longleftrightarrow> (\<forall>q w resp w'. pr_Chat p q w = (Inr resp, w') \<longrightarrow> length (ToolCalls (cp_Message resp)) \<le> k)"

lemma graded_refl: "graded G \<Longrightarrow> G 0 w w"
  by (simp add: graded_def)

lemma graded_trans:
  assumes "graded G" "G m a b" "G n b c"
  shows "G (m + n) a c"
proof -
  have "\<forall>m n a b c. G m a b \<longrightarrow> G n b c \<longrightarrow> G (m + n) a c" using assms(1) unfolding graded_def by (elim conjE)
  then show ?thesis using assms(2,3) by blast
qed

lemma graded_mono:
  assumes "graded G" "G m a b" "m \<le> n"
  shows "G n a b"
proof -
  have "\<forall>m n a b. G m a b \<longrightarrow> m \<le> n \<longrightarrow> G n a b" using assms(1) unfolding graded_def by (elim conjE)
  then show ?thesis using assms(2,3) by blast
qed

lemma graded_bind:
  assumes "graded G" "G m w (snd x)" "\<And>a w'. x = (a, w') \<Longrightarrow> G n w' (snd (g a w'))"
  shows "G (m + n) w (snd (case x of (a, w') \<Rightarrow> g a w'))"
  using graded_trans [OF assms(1,2)] assms(3) by (cases x) simp

lemma graded_keep:
  assumes "graded G" "G 0 w (snd x)" "\<And>a w'. x = (a, w') \<Longrightarrow> G n w' (snd (g a w'))"
  shows "G n w (snd (case x of (a, w') \<Rightarrow> g a w'))"
  using graded_bind [OF assms(1,2), where n = n and g = g] assms(3) by simp

lemma graded_same: "G n w (snd x) \<Longrightarrow> (\<And>a w'. snd (g a w') = w') \<Longrightarrow> G n w (snd (case x of (a, w') \<Rightarrow> g a w'))"
  by (cases x) simp

lemma run_chain_grade:
  assumes "graded G"
  shows "\<forall>fn \<in> set fns. \<forall>a w. G 0 w (snd (fn a w)) \<Longrightarrow> G 0 w (snd (run_chain fns a w))"
proof (induction fns arbitrary: a w)
  case (Cons fn fns)
  then show ?case unfolding run_chain.simps by (intro graded_keep [OF assms]) simp_all
qed (simp add: graded_refl [of G, OF assms])

lemma run_pre_tools_grade:
  assumes "graded G"
  shows "\<forall>fn \<in> set fns. \<forall>sk tn args w. G 0 w (snd (fn sk tn args w)) \<Longrightarrow> G 0 w (snd (run_pre_tools fns sk tn args w))"
proof (induction fns arbitrary: w)
  case (Cons fn fns)
  have "G 0 w' (snd (case a of Inl e \<Rightarrow> (Inl e, w') | Inr result \<Rightarrow> if result \<noteq> [] then (Inr result, w') else run_pre_tools fns sk tn args w'))"
    for a w' using Cons graded_refl [of G, OF assms] by (cases a) simp_all
  then show ?case unfolding run_pre_tools.simps using Cons.prems
    by (intro graded_keep [OF assms, where x = "fn sk tn args w"]) (auto split: sum.splits)
qed (simp add: graded_refl [of G, OF assms])


lemma world_gradeD:
  assumes "tool_grade c G env r"
  shows "graded G" "G 0 w (snd (rv_LimiterWait env w))" "G 0 w (snd (rv_After env d w))" "G 0 w (snd (rv_randText env w))"
    "G 0 w (snd (rv_now env w))" "G 0 w (rv_set_db env db w)" "G 0 w (w\<lparr>bw_cbs := cbs\<rparr>)" "G 0 w (w\<lparr>bw_stats := st\<rparr>)"
    "G 1 w (snd (pr_Chat (ar_Prov r) q w))" "search_grade G (ar_MemStore r)" "search_grade G (ar_Hybrid r)"
    "ar_MemStoreProvider r = Some f \<Longrightarrow> G 0 w (snd (f u w)) \<and> search_grade G (fst (f u w))"
    "ar_Hooks r = Some h \<Longrightarrow> hooks_grade G h"
    "map_of (ar_ToolsByName r) name = Some t \<Longrightarrow> permitted r sk name args \<Longrightarrow> G c w (snd (to_Execute t sk us args w))"
  using assms by (simp_all add: tool_grade_def)

text \<open>Steps without cost before and after a part.\<close>

lemma graded_after:
  assumes "graded G" "G n a b" "G 0 b c"
  shows "G n a c"
  using graded_trans [OF assms] by simp

lemma graded_before:
  assumes "graded G" "G 0 a b" "G n b c"
  shows "G n a c"
  using graded_trans [OF assms] by simp

lemma Breaker_Execute_grade:
  assumes W: "tool_grade tc G env r" and fn: "\<And>w. G n w (snd (fn w))"
  shows "G n w (snd (Breaker_Execute lib b a fn w))"
proof -
  note g = world_gradeD(1) [OF W]
  let ?cb = "b_cb (bw_breakers w ! b)" and ?name = "gb_Name (b_settings (bw_breakers w ! b))"
  have cb: "G 0 v (set_cb i c v)" for i c v using world_gradeD(7) [OF W] by (simp add: set_cb_def)
  have st: "G 0 v (RecordSuccess x v)" "G 0 v (RecordFailure x v)" "G 0 v (RecordRejection x v)" for x v
    using world_gradeD(8) [OF W] by (simp_all add: RecordSuccess_def RecordFailure_def RecordRejection_def)
  have call: "G n w (snd (guarded_call lib ?cb ?name a fn w))"
  proof (cases "gb_before lib (bw_cbs w ! ?cb) (bw_now w)")
    case (Pair e c)
    obtain err a' wb where f: "fn (set_cb ?cb c w) = ((err, a'), wb)" by (metis prod.collapse)
    let ?wc = "if err = None then RecordSuccess ?name wb else RecordFailure ?name wb"
    have "G n w wb" using graded_before [of G w, OF g cb fn] f by (metis snd_conv)
    moreover have "G 0 wb ?wc" using st by simp
    ultimately have "G n w ?wc" by (rule graded_after [OF g])
    then have "G n w (set_cb i x ?wc)" for i x using graded_after [OF g] cb by blast
    moreover have "G n w (set_cb ?cb c w)" using graded_mono [OF g cb] by blast
    ultimately show ?thesis using Pair f by (cases e) (simp_all add: guarded_call_def Let_def)
  qed
  obtain e a' wb where p: "guarded_call lib ?cb ?name a fn w = ((e, a'), wb)" by (metis prod.collapse)
  have "G n w (RecordRejection ?name wb)" using graded_after [OF g _ st(3)] call p by simp
  then show ?thesis using call p by (cases e) (simp_all add: Breaker_Execute_def Let_def)
qed

lemma attemptChat_grade:
  assumes W: "tool_grade tc G env r"
  shows "G 1 w (snd (attemptChat env r req w))"
proof -
  note g = world_gradeD(1) [OF W]
  have "G 1 v (snd (provider_call (ar_Prov r) req v))" for v
    unfolding provider_call_def by (rule graded_same [of G], rule world_gradeD(9) [OF W]) (simp split: sum.splits)
  note B = Breaker_Execute_grade [OF W this]
  obtain e wb where l: "rv_LimiterWait env w = (e, wb)" by fastforce
  have lw: "G 0 w wb" using world_gradeD(2) [OF W, of w] l by simp
  let ?fn = "Breaker_Execute (rv_breaker env) (ar_Breaker r) None (provider_call (ar_Prov r) req)"
  have T: "snd (case ar_Tracer r of Some d \<Rightarrow> TraceProviderCall d ?fn wb | None \<Rightarrow> ?fn wb) = snd (?fn wb)"
    by (simp add: TraceProviderCall_def split: option.splits prod.splits)
  obtain e2 a2 wc where c: "(case ar_Tracer r of Some d \<Rightarrow> TraceProviderCall d ?fn wb | None \<Rightarrow> ?fn wb) = ((e2, a2), wc)"
    by (metis prod.collapse)
  have "G 1 w wc" using graded_before [OF g lw B] T c by (metis snd_conv)
  moreover have "G 1 w wb" using graded_mono [OF g lw] by simp
  ultimately show ?thesis using l c
    by (cases e; cases e2; cases a2) (simp_all add: attemptChat_def Let_def)
qed

lemma retry_chat_grade:
  assumes W: "tool_grade tc G env r"
  shows "G n w (snd (retry_chat env r req n delay le w))"
proof (induction n arbitrary: delay le w)
  case 0
  then show ?case by (simp add: graded_refl [OF world_gradeD(1) [OF W]])
next
  case (Suc n)
  note g = world_gradeD(1) [OF W]
  obtain x wb where x: "(if le = None then (Inr delay, w) else waitBeforeRetry env (30 * second) delay w) = (x, wb)" by fastforce
  have "snd (waitBeforeRetry env c delay w) = snd (rv_After env delay w)" for c
    by (simp add: waitBeforeRetry_def split: prod.splits option.splits)
  then have wb: "G 0 w wb"
    using x world_gradeD(3) [OF W, of w delay] graded_refl [OF g] by (metis snd_conv)
  show ?case
  proof (cases x)
    case (Inl e)
    then show ?thesis using x graded_mono [OF g wb] by simp
  next
    case (Inr d)
    obtain y wc where y: "attemptChat env r req wb = (y, wc)" by fastforce
    have wc: "G 1 w wc" using graded_before [OF g wb attemptChat_grade [OF W, of wb req]] y by simp
    then have "G (1 + n) w (snd (retry_chat env r req n d (Some e) wc))" for e by (rule graded_trans [OF g]) (rule Suc)
    moreover have "G (1 + n) w wc" using graded_mono [OF g wc] by simp
    ultimately show ?thesis using x y Inr by (cases y) simp_all
  qed
qed

lemma RetryChat_grade: "tool_grade tc G env r \<Longrightarrow> G 4 w (snd (RetryChat env r req w))"
  unfolding RetryChat_def using retry_chat_grade [of tc G env r "Suc maxGenRetries"] by (simp add: maxGenRetries_def)

lemma RunText_grade: "tool_grade tc G env r \<Longrightarrow> G 4 w (snd (RunText env r prompt md w))"
  unfolding RunText_def by (rule graded_same [of G], rule RetryChat_grade) (simp_all split: sum.splits)


lemma executeToolInner_grade:
  assumes W: "tool_grade c G env r" and ok: "permitted r sk name args"
  shows "G c w (snd (executeToolInner r sk u name args w))"
proof (cases "map_of (ar_ToolsByName r) name")
  case None
  then show ?thesis using graded_mono [OF world_gradeD(1) [OF W] graded_refl [OF world_gradeD(1) [OF W]]] by (simp add: executeToolInner_def)
next
  case (Some t)
  let ?fn = "to_Execute t sk u args"
  have T: "snd (case ar_Tracer r of Some d \<Rightarrow> TraceToolExecution d ?fn w | None \<Rightarrow> ?fn w) = snd (?fn w)"
    by (simp add: TraceToolExecution_def split: option.splits prod.splits tool_return.splits)
  have "G c w (snd (case ar_Tracer r of Some d \<Rightarrow> TraceToolExecution d ?fn w | None \<Rightarrow> ?fn w))"
    unfolding T by (rule world_gradeD(14) [OF W Some ok])
  then show ?thesis unfolding executeToolInner_def Let_def using Some
    by (simp, intro graded_same [of G]) (auto split: prod.splits tool_return.splits option.splits)
qed

lemma idem_grade:
  assumes W: "tool_grade c G env r"
  shows "G 0 w (snd (idem_check env st key h w))" "G 0 w (idem_store env key name h res sk w)"
proof -
  note g = world_gradeD(1) [OF W]
  show "G 0 w (snd (idem_check env st key h w))" unfolding idem_check_def
    by (rule graded_keep [OF g], rule world_gradeD(5) [OF W]) (simp add: world_gradeD(6) [OF W] split: prod.splits)
  show "G 0 w (idem_store env key name h res sk w)" by (simp add: idem_store_def world_gradeD(6) [OF W])
qed

lemma executeToolCall_grade:
  assumes W: "tool_grade tc G env r" and ok: "permitted r (tcs_sessionKey call) (tcs_name call) (tcs_args call)"
  shows "G tc w (snd (executeToolCall env r call w))"
proof -
  note g = world_gradeD(1) [OF W]
  let ?run = "executeToolInner r (tcs_sessionKey call) (tcs_userID call) (tcs_name call) (tcs_args call)"
  note run = executeToolInner_grade [OF W ok]
  show ?thesis
  proof (cases "if tcs_name call \<in> set (ar_SideEffectingTools r) then ar_IdempStore r else None")
    case None
    then show ?thesis by (simp add: executeToolCall_def Let_def run)
  next
    case (Some st)
    show ?thesis
    proof (cases "if tcs_paramsHash call = [] then rv_HashParams env (tcs_args call) else Inr (tcs_paramsHash call)")
      case (Inl e)
      then show ?thesis using Some graded_mono [OF g graded_refl [OF g]] by (simp add: executeToolCall_def Let_def)
    next
      case (Inr h)
      obtain res e wb where c: "idem_check env st (tcs_idemKey call) h w = ((res, e), wb)" by (metis prod.collapse)
      have wb: "G 0 w wb" using idem_grade(1) [OF W, of w st "tcs_idemKey call" h] c by simp
      obtain x e2 m wc where x: "?run wb = (((x, e2), m), wc)" by (metis prod.collapse)
      have wb': "G tc w wb" by (rule graded_mono [OF g wb]) simp
      have "G tc wb wc" using run [of wb "tcs_userID call"] x by simp
      then have wc: "G tc w wc" by (rule graded_before [OF g wb])
      have "G tc w (idem_store env k nm h x sk wc)" for k nm sk by (rule graded_after [OF g wc]) (rule idem_grade(2) [OF W])
      then show ?thesis using Some Inr c x wb' wc by (cases e; cases e2) (simp_all add: executeToolCall_def Let_def)
    qed
  qed
qed

lemma preToolStep_grade:
  assumes W: "tool_grade c G env r"
  shows "G 0 w (snd (preToolStep r call w))"
proof (cases "ar_Hooks r")
  case None
  then show ?thesis by (simp add: preToolStep_def graded_refl [OF world_gradeD(1) [OF W]])
next
  case (Some h)
  have "G 0 w (snd (RunPreTool h sk nm args w))" for sk nm args
    unfolding RunPreTool_def using world_gradeD(13) [OF W Some]
    by (intro run_pre_tools_grade [OF world_gradeD(1) [OF W]]) (simp add: hooks_grade_def)
  then show ?thesis unfolding preToolStep_def using Some
    by (simp, intro graded_same [of G]) (auto split: sum.splits)
qed

lemma preToolStep_permitted:
  "preToolStep r call w = (Inr [], w') \<Longrightarrow> permitted r (tcs_sessionKey call) (tcs_name call) (tcs_args call)"
  by (auto simp: preToolStep_def permitted_def split: option.splits prod.splits sum.splits)

lemma runPostToolHooks_grade:
  assumes W: "tool_grade c G env r"
  shows "G 0 w (snd (runPostToolHooks env r name res w))"
proof (cases "ar_Hooks r")
  case None
  then show ?thesis by (simp add: runPostToolHooks_def graded_refl [OF world_gradeD(1) [OF W]])
next
  case (Some h)
  have "G 0 w (snd (RunPostTool h name v w))" for v
    unfolding RunPostTool_def using world_gradeD(13) [OF W Some]
    by (intro run_chain_grade [OF world_gradeD(1) [OF W]]) (simp add: hooks_grade_def)
  then show ?thesis unfolding runPostToolHooks_def using Some
    by (simp, intro graded_same [of G]) (auto split: json.splits)
qed

lemma executeToolCallState_grade:
  assumes W: "tool_grade tc G env r"
  shows "G tc w (snd (executeToolCallState env r call w))"
proof -
  note g = world_gradeD(1) [OF W]
  have run: "G tc w (snd (runToolWithHooks env r c w))" for c
  proof -
    obtain x wb where x: "preToolStep r c w = (x, wb)" by fastforce
    have wb: "G 0 w wb" using preToolStep_grade [OF W, of w c] x by simp
    have wb': "G tc w wb" by (rule graded_mono [OF g wb]) simp
    show ?thesis
    proof (cases "x = Inr []")
      case True
      obtain res e m wc where y: "mainToolStep env r c wb = (((res, e), m), wc)" by (metis prod.collapse)
      have "G tc wb (snd (mainToolStep env r c wb))"
        unfolding mainToolStep_def using preToolStep_permitted [of r c w wb] x True by (intro executeToolCall_grade [OF W]) auto
      then have wc: "G tc w wc" using graded_before [OF g wb] y by simp
      obtain s wd where z: "runPostToolHooks env r (tcs_name c) res wc = (s, wd)" by fastforce
      have "G tc w wd" using graded_after [OF g wc] runPostToolHooks_grade [OF W, of wc "tcs_name c" res] z by simp
      then show ?thesis using x True y z wc by (cases e) (simp_all add: runToolWithHooks_def)
    next
      case False
      then show ?thesis using x wb' by (cases x) (auto simp: runToolWithHooks_def)
    qed
  qed
  show ?thesis unfolding executeToolCallState_def Let_def
    by (rule graded_same [of G], rule run) (auto split: prod.splits sum.splits)
qed

lemma processToolCalls_grade:
  assumes W: "tool_grade c G env r"
  shows "G (c * length tcs) w (snd (processToolCalls env r iv sk u iter tcs sq w))"
proof (induction tcs arbitrary: sq w)
  case Nil
  then show ?case by (simp add: graded_refl [OF world_gradeD(1) [OF W]])
next
  case (Cons tc tcs)
  note g = world_gradeD(1) [OF W]
  let ?sq = "sq @ [tc_Name tc]" and ?c = "new_call iv sk u (tc_Name tc) (tc_Args tc) iter (length (sq @ [tc_Name tc]))"
  obtain x m wb where x: "executeToolCallState env r ?c w = ((x, m), wb)" by (metis prod.collapse)
  have wb: "G c w wb" using executeToolCallState_grade [OF W, of w ?c] x by simp
  obtain y sq' wc where y: "processToolCalls env r iv sk u iter tcs ?sq wb = ((y, sq'), wc)" by (metis prod.collapse)
  have "G (c * length (tc # tcs)) w wc" using graded_trans [OF g wb] Cons [of wb ?sq] y by simp
  moreover have "G (c * length (tc # tcs)) w wb" by (rule graded_mono [OF g wb]) simp
  ultimately show ?case using x y wb by (cases x; cases y) simp_all
qed


lemma TraceMemorySearch_snd: "snd (TraceMemorySearch d ty fn w) = snd (fn w)"
  by (simp add: TraceMemorySearch_def split: prod.splits sum.splits)

lemma ftsSearch_grade:
  assumes "graded G" "search_grade G (Some ms)"
  shows "G 0 w (snd (ftsSearch r q sk ms w))"
proof -
  have "snd (case ms q sk 10 w of (Inl e, w1) \<Rightarrow> (Inl (f e), w1) | x \<Rightarrow> x) = snd (ms q sk 10 w)" for f
    by (simp split: prod.splits sum.splits)
  then have e: "snd (case ar_Tracer r of
      Some d \<Rightarrow> TraceMemorySearch d ''fts'' (\<lambda>w. case ms q sk 10 w of (Inl e, w1) \<Rightarrow> (Inl (wrap_err ''fts search'' e), w1) | x \<Rightarrow> x) w
    | None \<Rightarrow> ms q sk 10 w) = snd (ms q sk 10 w)"
    by (simp add: TraceMemorySearch_snd split: option.splits)
  have s: "G 0 w (snd (ms q sk 10 w))" using assms(2) by (simp add: search_grade_def)
  show ?thesis unfolding ftsSearch_def by (rule graded_same [of G], subst e, rule s) (simp split: sum.splits)
qed

lemma getRagBlock_grade:
  assumes W: "tool_grade tc G env r" and ms: "search_grade G (Some ms)"
  shows "G 0 w (snd (getRagBlock r sk q ms w))"
proof -
  note g = world_gradeD(1) [OF W]
  have hybrid: "G 0 w (snd (hybridRagSearch r f sk q ms w))" if "ar_Hybrid r = Some f" for f
  proof -
    define fn where "fn = (\<lambda>w. case f q sk 5 w of (Inl e, w1) \<Rightarrow> (Inl (wrap_err ''hybrid search'' e), w1) | x \<Rightarrow> x)"
    have fn: "snd (fn w) = snd (f q sk 5 w)" by (simp add: fn_def split: prod.splits sum.splits)
    obtain x wb where x: "(case ar_Tracer r of Some d \<Rightarrow> TraceMemorySearch d ''hybrid'' fn w | None \<Rightarrow> fn w) = (x, wb)" by fastforce
    have "snd (case ar_Tracer r of Some d \<Rightarrow> TraceMemorySearch d ''hybrid'' fn w | None \<Rightarrow> fn w) = snd (fn w)"
      by (simp add: TraceMemorySearch_snd split: option.splits)
    then have "wb = snd (fn w)" unfolding x by simp
    then have wb: "G 0 w wb" using world_gradeD(11) [OF W] that unfolding fn by (simp add: search_grade_def)
    then have "G 0 w (snd (ftsSearch r q sk ms wb))" by (rule graded_after [OF g]) (rule ftsSearch_grade [OF g ms])
    then show ?thesis unfolding hybridRagSearch_def Let_def fn_def [symmetric] x using wb by (cases x) simp_all
  qed
  have "G 0 w (snd (case ar_Hybrid r of Some hybrid \<Rightarrow> hybridRagSearch r hybrid sk q ms w | None \<Rightarrow> ftsSearch r q sk ms w))"
    using hybrid ftsSearch_grade [OF g ms] by (cases "ar_Hybrid r") simp_all
  then show ?thesis unfolding getRagBlock_def by (rule graded_same [of G]) (auto split: option.splits prod.splits)
qed

lemma buildSystemPrompt_grade:
  assumes W: "tool_grade tc G env r" and ms: "search_grade G ms"
  shows "G 0 w (snd (buildSystemPrompt r sk msgs ms w))"
proof -
  note g = world_gradeD(1) [OF W]
  have "G 0 w (snd (case ms of Some m \<Rightarrow> if ShouldSkipRAG q then ([], w) else getRagBlock r sk q m w | None \<Rightarrow> ([], w)))" for q
    using getRagBlock_grade [OF W] ms graded_refl [OF g] by (cases ms) simp_all
  moreover have "G 0 v (snd (RunPrePrompt h s v))" if "ar_Hooks r = Some h" for h s v
    unfolding RunPrePrompt_def using world_gradeD(13) [OF W that] by (intro run_chain_grade [OF g]) (simp add: hooks_grade_def)
  ultimately show ?thesis unfolding buildSystemPrompt_def
    by (intro graded_keep [OF g]) (auto simp: Let_def graded_refl [OF g] split: option.splits)
qed

lemma generateReflectionRubric_grade:
  assumes W: "tool_grade tc G env r"
  shows "G (if ar_EnableReflection r then 4 else 0) w (snd (generateReflectionRubric env r q w))"
proof -
  note g = world_gradeD(1) [OF W]
  have "G 4 w (snd (case RunText env r p md w of (Inl _, w1) \<Rightarrow> (None, w1)
      | (Inr s, w1) \<Rightarrow> (case ParseJSONResponse (rv_json env) s of None \<Rightarrow> (None, w1) | Some parsed \<Rightarrow> (parsed, w1))))" for p md
    by (rule graded_same [of G], rule RunText_grade [OF W]) (auto split: sum.splits option.splits)
  then show ?thesis using graded_refl [OF g] graded_mono [OF g graded_refl [OF g]]
    by (simp add: generateReflectionRubric_def)
qed

lemma handleTerminalResponse_grade:
  assumes W: "tool_grade tc G env r"
  shows "G (if ar_EnableReflection r then 4 else 0) w (snd (snd (handleTerminalResponse env r q rb m k w)))"
proof -
  note g = world_gradeD(1) [OF W]
  have zero: "G n w w" for n by (rule graded_mono [OF g graded_refl [OF g]]) simp
  have audit: "G 4 w (snd (performReflectionAudit env r q b t k w))" for b t
    unfolding performReflectionAudit_def
    by (rule graded_same [of G], rule RunText_grade [OF W]) (auto simp: Let_def split: sum.splits option.splits)
  have "G 4 w (snd (snd (case performReflectionAudit env r q b t k w of
      ((Some msg, k'), w1) \<Rightarrow> (Inr msg, k', w1) | ((None, k'), w1) \<Rightarrow> (Inl t, k', w1))))" for b t
    using audit [of b t] by (cases "performReflectionAudit env r q b t k w") (auto split: option.splits prod.splits)
  then show ?thesis using zero by (auto simp: handleTerminalResponse_def Let_def split: option.splits)
qed

text \<open>An answer that a turn works on is one that the provider gave.\<close>

lemma Breaker_Execute_answer:
  assumes "Breaker_Execute lib b None fn w = ((e, Some x), w')"
  shows "\<exists>v e' v'. fn v = ((e', Some x), v')"
proof -
  let ?cb = "b_cb (bw_breakers w ! b)" and ?name = "gb_Name (b_settings (bw_breakers w ! b))"
  obtain e1 a1 w1 where g: "guarded_call lib ?cb ?name None fn w = ((e1, a1), w1)" by (metis prod.collapse)
  with assms have "a1 = Some x" by (auto simp: Breaker_Execute_def Let_def split: option.splits if_splits)
  with g show ?thesis
    by (auto simp: guarded_call_def Let_def split: option.splits prod.splits)
qed

lemma attemptChat_answer:
  assumes "attemptChat env r req w = (Inr resp, w')"
  shows "\<exists>v v'. pr_Chat (ar_Prov r) req v = (Inr resp, v')"
proof -
  obtain w1 w2 e where "Breaker_Execute (rv_breaker env) (ar_Breaker r) None (provider_call (ar_Prov r) req) w1 = ((e, Some resp), w2)"
    using assms
    by (auto simp: attemptChat_def TraceProviderCall_def Let_def split: prod.splits option.splits sum.splits)
  from Breaker_Execute_answer [OF this] obtain v e' v' where
    "provider_call (ar_Prov r) req v = ((e', Some resp), v')" by blast
  then show ?thesis by (auto simp: provider_call_def split: prod.splits sum.splits)
qed

lemma RetryChat_answer:
  assumes "RetryChat env r req w = (Inr resp, w')"
  shows "\<exists>v v'. pr_Chat (ar_Prov r) req v = (Inr resp, v')"
proof -
  have "retry_chat env r req n delay le w = (Inr resp, w') \<Longrightarrow> \<exists>v v'. pr_Chat (ar_Prov r) req v = (Inr resp, v')" for n delay le w
    by (induction n arbitrary: delay le w)
       (auto split: prod.splits sum.splits if_splits dest: attemptChat_answer)
  from this [OF assms [unfolded RetryChat_def]] show ?thesis .
qed

definition turn_cost :: "'w AgentRunner \<Rightarrow> nat" where
  "turn_cost r = (if ar_EnableReflection r then 8 else 4)"

lemma run_loop_grade:
  assumes W: "tool_grade c G env r" and k: "c = 0 \<or> answer_width k (ar_Prov r)"
  shows "G ((turn_cost r + k * c) * n) w (snd (run_loop env r rx n iter msgs sq rd w))"
proof (induction n arbitrary: iter msgs sq rd w)
  case 0
  then show ?case by (simp add: graded_refl [OF world_gradeD(1) [OF W]])
next
  case (Suc n)
  note g = world_gradeD(1) [OF W]
  obtain x wb where x: "RetryChat env r (run_request r rx msgs) w = (x, wb)" by fastforce
  have wb: "G 4 w wb" using RetryChat_grade [OF W, of w "run_request r rx msgs"] x by simp
  show ?case
  proof (cases x)
    case (Inl e)
    then show ?thesis using x graded_mono [OF g wb] by (simp add: turn_cost_def)
  next
    case (Inr resp)
    let ?m = "cp_Message resp"
    obtain t rd' wc where t: "handleTerminalResponse env r (rx_userText rx) (rx_rubric rx) ?m rd wb = (t, rd', wc)" by (metis prod.collapse)
    have "G (if ar_EnableReflection r then 4 else 0) wb wc" using handleTerminalResponse_grade [OF W] t by (metis snd_conv)
    from graded_trans [OF g wb this] have "G (turn_cost r) w wc" by (simp add: turn_cost_def split: if_splits)
    then have wc: "G (turn_cost r + k * c) w wc" by (rule graded_mono [OF g]) simp
    obtain y sq' wd where y: "processToolCalls env r (rx_invocationID rx) (rx_sessionKey rx) (rx_userID rx) iter (ToolCalls ?m) sq wb =
        ((y, sq'), wd)" by (metis prod.collapse)
    have width: "c * length (ToolCalls ?m) \<le> k * c"
      using k RetryChat_answer [OF x [unfolded Inr]] by (cases "c = 0") (auto simp: answer_width_def mult.commute)
    have four: "4 \<le> turn_cost r" by (simp add: turn_cost_def)
    have cost: "4 + c * length (ToolCalls ?m) \<le> turn_cost r + k * c" by (rule add_mono [OF four width])
    have "G (c * length (ToolCalls ?m)) wb wd" using processToolCalls_grade [OF W] y by (metis snd_conv)
    note both = graded_trans [OF g wb this]
    have wd: "G (turn_cost r + k * c) w wd"
      by (rule graded_mono [OF g both cost])
    have more: "G ((turn_cost r + k * c) * Suc n) w (snd (run_loop env r rx n i ms s d v))" if "G (turn_cost r + k * c) w v" for i ms s d v
      using graded_trans [OF g that Suc] by simp
    have stop: "G ((turn_cost r + k * c) * Suc n) w v" if "G (turn_cost r + k * c) w v" for v by (rule graded_mono [OF g that]) simp
    show ?thesis using x Inr t y more [OF wc] more [OF wd] stop [OF wc] stop [OF wd]
      by (cases t; cases y) (simp_all add: Let_def)
  qed
qed

lemma Run_grade:
  assumes W: "tool_grade c G env r" and k: "c = 0 \<or> answer_width k (ar_Prov r)"
  shows "G ((if ar_EnableReflection r then 4 else 0) + (turn_cost r + k * c) * nat (ar_MaxToolIterations r)) w (snd (Run env r sk u msgs w))"
proof -
  note g = world_gradeD(1) [OF W]
  obtain iv wa where a: "rv_randText env w = (iv, wa)" by fastforce
  obtain ms wb where b: "(case ar_MemStoreProvider r of Some f \<Rightarrow> if u \<noteq> [] then f u wa else (ar_MemStore r, wa)
      | None \<Rightarrow> (ar_MemStore r, wa)) = (ms, wb)" by fastforce
  obtain sp wc where pc: "buildSystemPrompt r sk msgs ms wb = (sp, wc)" by fastforce
  obtain rb wd where d: "generateReflectionRubric env r (LastUserText msgs) wc = (rb, wd)" by fastforce
  have "G 0 w wa" using world_gradeD(4) [OF W, of w] a by simp
  moreover have "G 0 wa wb \<and> search_grade G ms"
    using b world_gradeD(12) [OF W, of _ wa u] world_gradeD(10) [OF W] graded_refl [OF g]
    by (auto split: option.splits if_splits)
  moreover from this have "G 0 wb wc" using buildSystemPrompt_grade [OF W] pc by (metis snd_conv)
  ultimately have "G 0 w wc" using graded_after [OF g] by blast
  moreover have "G (if ar_EnableReflection r then 4 else 0) wc wd" using generateReflectionRubric_grade [OF W] d by (metis snd_conv)
  ultimately have "G (if ar_EnableReflection r then 4 else 0) w wd" by (rule graded_before [OF g])
  from graded_trans [OF g this run_loop_grade [OF W k]] show ?thesis
    unfolding Run_def a prod.case b pc d by simp
qed


section \<open>A turn ends\<close>

text \<open>
  \<^bold>\<open>C5.\<close> A turn of the agent ends after a bounded number of provider calls. Of its own it makes at most four for
  every allowed iteration, and with reflection at most four more for the rubric and for every
  iteration; beyond that it makes only those of the tools it executes: when an execution of a tool
  that the hooks permit makes at most \<open>c\<close> calls (a delegation 80, see C11, most tools none) and an
  answer of the provider asks for at most \<open>k\<close> tools, at most \<open>k * c\<close> for every iteration. \<open>calls\<close> is any
  quantity that a provider call raises by at most one, a tool by at most \<open>c\<close>, and nothing else the
  runner does raises.
\<close>

theorem Run_bounded:
  assumes "tool_grade c (\<lambda>n w w'. calls w' \<le> calls w + n) env r" and "c = 0 \<or> answer_width k (ar_Prov r)"
    and "Run env r sk u msgs w = (res, w')"
  shows "calls w' \<le> calls w +
    (if ar_EnableReflection r then 4 + 8 * nat (ar_MaxToolIterations r) else 4 * nat (ar_MaxToolIterations r)) +
    k * c * nat (ar_MaxToolIterations r)"
  using Run_grade [OF assms(1,2), where w = w and sk = sk and u = u and msgs = msgs] assms(3)
  by (simp add: turn_cost_def distrib_right split: if_splits)

section \<open>Only permitted tools run\<close>

text \<open>Whatever the other parts of a turn and the calls that the hooks can permit leave true, the turn leaves true.\<close>

lemma Run_keeps:
  assumes "world_grade (\<lambda>n w w'. P w \<longrightarrow> P w') env r" and "P w"
  shows "P (snd (Run env r sk u msgs w))"
  using Run_grade [OF assms(1), of 0] assms(2) by blast

section \<open>What a turn adds to the conversation\<close>

text \<open>
  The messages of a turn: answers of the model, each with tool calls followed by one tool message for
  every call in order, or without tool calls and followed by a correction, up to the last answer, which
  has no tool calls and whose text is the reply.
\<close>

definition answers :: "ToolCall \<Rightarrow> StrategicMessage \<Rightarrow> bool" where
  "answers tc m \<longleftrightarrow> Role m = RoleTool \<and> msg_Name m = Some (tc_Name tc) \<and> ToolCalls m = [] \<and>
     ToolCallID m = (if tc_ID tc = [] then None else Some (tc_ID tc)) \<and> (\<exists>s. Content m = Some \<lparr>Str = Some s, Items = None\<rparr>)"

inductive transcript :: "bool \<Rightarrow> nat \<Rightarrow> StrategicMessage list \<Rightarrow> string \<Rightarrow> bool" for rf where
  final: "ToolCalls m = [] \<Longrightarrow> transcript rf (Suc n) [m] (ExtractText m)"
| tools: "ToolCalls m \<noteq> [] \<Longrightarrow> list_all2 answers (ToolCalls m) ts \<Longrightarrow> transcript rf n rest t \<Longrightarrow>
    transcript rf (Suc n) (m # ts @ rest) t"
| correction: "rf \<Longrightarrow> ToolCalls m = [] \<Longrightarrow> Role c = RoleUser \<Longrightarrow> ToolCalls c = [] \<Longrightarrow> transcript rf n rest t \<Longrightarrow>
    transcript rf (Suc n) (m # c # rest) t"

inductive_cases transcript_NilE: "transcript rf n [] t"

lemma tool_message_answers: "answers tc (tool_message tc s)"
  by (simp add: answers_def tool_message_def plain_message_def empty_message_def)

lemma processToolCalls_answers:
  "processToolCalls env r iv sk u iter tcs sq w = ((Inr msgs, sq'), w') \<Longrightarrow> list_all2 answers tcs msgs"
proof (induction tcs arbitrary: sq w msgs sq' w')
  case (Cons tc tcs)
  then show ?case
    by (auto simp: Let_def tool_message_answers split: prod.splits sum.splits)
qed simp

lemma correction_is_user:
  "handleTerminalResponse env r q rb m k w = (Inr c, k', w') \<Longrightarrow>
   ar_EnableReflection r \<and> Role c = RoleUser \<and> ToolCalls c = []"
  by (auto simp: handleTerminalResponse_def performReflectionAudit_def Let_def plain_message_def empty_message_def
      split: option.splits if_splits prod.splits sum.splits)

lemma terminal_text: "handleTerminalResponse env r q rb m k w = (Inl t, k', w') \<Longrightarrow> t = ExtractText m"
  by (auto simp: handleTerminalResponse_def Let_def split: option.splits if_splits prod.splits)

lemma run_loop_transcript:
  "run_loop env r rx n iter msgs sq k w = (Inr (t, out), w') \<Longrightarrow>
   \<exists>new. out = msgs @ new \<and> transcript (ar_EnableReflection r) n new t"
proof (induction n arbitrary: iter msgs sq k w)
  case (Suc n)
  obtain resp wb where x: "RetryChat env r (run_request r rx msgs) w = (Inr resp, wb)"
    using Suc.prems by (auto split: prod.splits sum.splits)
  let ?m = "cp_Message resp" and ?msgs = "msgs @ [cp_Message resp]"
  show ?case
  proof (cases "ToolCalls ?m = []")
    case True
    obtain x k' wc where t: "handleTerminalResponse env r (rx_userText rx) (rx_rubric rx) ?m k wb = (x, k', wc)" by (metis prod.collapse)
    show ?thesis
    proof (cases x)
      case (Inl s)
      then have "t = ExtractText ?m" "out = ?msgs" using Suc.prems x True t terminal_text by (auto simp: Let_def)
      then show ?thesis using transcript.final [OF True] by blast
    next
      case (Inr c)
      then have "run_loop env r rx n (Suc iter) (?msgs @ [c]) sq k' wc = (Inr (t, out), w')"
        using Suc.prems x True t by (simp add: Let_def)
      then obtain new where "out = (?msgs @ [c]) @ new" "transcript (ar_EnableReflection r) n new t" using Suc.IH by blast
      moreover have "ar_EnableReflection r" "Role c = RoleUser" "ToolCalls c = []" using correction_is_user t Inr by blast+
      ultimately show ?thesis using transcript.correction [OF _ True, of "ar_EnableReflection r" c n new t] by (intro exI [of _ "?m # c # new"]) simp
    qed
  next
    case False
    then obtain ts sq' wd where y: "processToolCalls env r (rx_invocationID rx) (rx_sessionKey rx) (rx_userID rx) iter (ToolCalls ?m) sq wb =
        ((Inr ts, sq'), wd)" using Suc.prems x by (auto simp: Let_def split: prod.splits sum.splits)
    then have "run_loop env r rx n (Suc iter) (?msgs @ ts) sq' k wd = (Inr (t, out), w')"
      using Suc.prems x False by (simp add: Let_def)
    then obtain new where "out = (?msgs @ ts) @ new" "transcript (ar_EnableReflection r) n new t" using Suc.IH by blast
    then show ?thesis using transcript.tools [OF False processToolCalls_answers [OF y]] by (intro exI [of _ "?m # ts @ new"]) simp
  qed
qed simp

text \<open>
  \<^bold>\<open>C4.\<close> A turn that answers keeps the conversation it was given and adds a complete exchange to it: every tool
  call of the model is answered by exactly one tool message of its name and id, in order, before the model
  speaks again; the last message has no tool calls and its text is the reply; without reflection no
  message of the user is added; the model spoke at most as often as iterations are allowed.
\<close>

theorem Run_transcript:
  assumes "Run env r sk u msgs w = (Inr (t, out), w')"
  shows "\<exists>new. out = msgs @ new \<and> new \<noteq> [] \<and> transcript (ar_EnableReflection r) (nat (ar_MaxToolIterations r)) new t"
proof -
  obtain rx wd where "run_loop env r rx (nat (ar_MaxToolIterations r)) 0 msgs [] 0 wd = (Inr (t, out), w')"
    using assms unfolding Run_def by (auto split: prod.splits)
  then obtain new where "out = msgs @ new" "transcript (ar_EnableReflection r) (nat (ar_MaxToolIterations r)) new t"
    using run_loop_transcript by blast
  then show ?thesis using transcript_NilE by blast
qed


text \<open>A turn that answers got a result for every call of its messages.\<close>

definition call_ran ::
  "('c, 'w) runner_env \<Rightarrow> 'w AgentRunner \<Rightarrow> ToolCall \<Rightarrow> bool" where
  "call_ran env r tc \<longleftrightarrow>
     (\<exists>iv sk u iter n v res m v'.
        executeToolCallState env r (new_call iv sk u (tc_Name tc) (tc_Args tc) iter n) v = ((Inr res, m), v'))"

lemma processToolCalls_ran:
  "processToolCalls env r iv sk u iter tcs sq w = ((Inr ms, sq'), w') \<Longrightarrow>
   (\<forall>tc \<in> set tcs. call_ran env r tc) \<and> (\<forall>m \<in> set ms. ToolCalls m = [])"
proof (induction tcs arbitrary: sq w ms sq' w')
  case (Cons tc tcs)
  let ?c = "new_call iv sk u (tc_Name tc) (tc_Args tc) iter (length (sq @ [tc_Name tc]))"
  obtain x m w1 where x: "executeToolCallState env r ?c w = ((x, m), w1)" by (metis prod.collapse)
  with Cons.prems obtain res where res: "x = Inr res" by (cases x) (auto simp: Let_def)
  obtain y sq2 w2 where y: "processToolCalls env r iv sk u iter tcs (sq @ [tc_Name tc]) w1 = ((y, sq2), w2)"
    by (metis prod.collapse)
  with Cons.prems x res obtain ms2 where ms2: "y = Inr ms2" "ms = tool_message tc (formatToolMetaBlock res m) # ms2"
    by (cases y) (auto simp: Let_def)
  have "call_ran env r tc" using x res unfolding call_ran_def by blast
  moreover have "ToolCalls (tool_message tc s) = []" for s
    by (simp add: tool_message_def plain_message_def empty_message_def)
  ultimately show ?case using Cons.IH [OF y [unfolded ms2(1)]] ms2(2) by auto
qed simp

lemma run_loop_ran:
  "run_loop env r rx n iter msgs sq k w = (Inr (t, out), w') \<Longrightarrow>
   \<exists>new. out = msgs @ new \<and> (\<forall>m \<in> set new. \<forall>tc \<in> set (ToolCalls m). call_ran env r tc)"
proof (induction n arbitrary: iter msgs sq k w)
  case (Suc n)
  obtain resp wb where x: "RetryChat env r (run_request r rx msgs) w = (Inr resp, wb)"
    using Suc.prems by (auto split: prod.splits sum.splits)
  let ?m = "cp_Message resp" and ?msgs = "msgs @ [cp_Message resp]"
  show ?case
  proof (cases "ToolCalls ?m = []")
    case True
    obtain y k' wc where y: "handleTerminalResponse env r (rx_userText rx) (rx_rubric rx) ?m k wb = (y, k', wc)" by (metis prod.collapse)
    show ?thesis
    proof (cases y)
      case (Inl s)
      then show ?thesis using Suc.prems x True y by (auto simp: Let_def)
    next
      case (Inr c)
      then have "run_loop env r rx n (Suc iter) (?msgs @ [c]) sq k' wc = (Inr (t, out), w')"
        using Suc.prems x True y by (simp add: Let_def)
      from Suc.IH [OF this] correction_is_user y Inr True show ?thesis by fastforce
    qed
  next
    case False
    then obtain ts sq' wd where y: "processToolCalls env r (rx_invocationID rx) (rx_sessionKey rx) (rx_userID rx) iter (ToolCalls ?m) sq wb =
        ((Inr ts, sq'), wd)" using Suc.prems x by (auto simp: Let_def split: prod.splits sum.splits)
    then have "run_loop env r rx n (Suc iter) (?msgs @ ts) sq' k wd = (Inr (t, out), w')"
      using Suc.prems x False by (simp add: Let_def)
    from Suc.IH [OF this] processToolCalls_ran [OF y] show ?thesis by fastforce
  qed
qed simp

lemma Run_as_loop: "\<exists>rx wd. Run env r sk u msgs w = run_loop env r rx (nat (ar_MaxToolIterations r)) 0 msgs [] 0 wd"
  unfolding Run_def by (auto split: prod.splits)

lemma Run_ran:
  assumes "Run env r sk u msgs w = (Inr (t, out), w')"
  shows "\<forall>m \<in> set (drop (length msgs) out). \<forall>tc \<in> set (ToolCalls m). call_ran env r tc"
proof -
  obtain rx wd where "run_loop env r rx (nat (ar_MaxToolIterations r)) 0 msgs [] 0 wd = (Inr (t, out), w')"
    using assms unfolding Run_def by (auto split: prod.splits)
  from run_loop_ran [OF this] show ?thesis by auto
qed

section \<open>Replayed tool calls\<close>

lemma dec_value: "0 \<le> n \<Longrightarrow> foldl (\<lambda>v c. v * 10 + digit_val c) 0 (dec n) = n"
proof (induction n rule: dec.induct)
  case (1 n)
  show ?case
  proof (cases "n < 10")
    case True
    then show ?thesis using 1(2) by (subst dec.simps) (simp add: digit_char_roundtrip)
  next
    case False
    then have "foldl (\<lambda>v c. v * 10 + digit_val c) 0 (dec (n div 10)) = n div 10" using 1 by simp
    moreover have "dec n = dec (n div 10) @ [digit_char (n mod 10)]" using False by (subst dec.simps) simp
    ultimately show ?thesis by (simp add: digit_char_roundtrip)
  qed
qed

lemma Itoa_nat_inj:
  assumes "Itoa (int a) = Itoa (int b)"
  shows "a = b"
proof -
  have "dec (int a) = dec (int b)" using assms by (simp add: Itoa_def)
  then have "int a = int b" using dec_value [of "int a"] dec_value [of "int b"] by (metis of_nat_0_le_iff)
  then show ?thesis by simp
qed

lemma call_key_inj:
  assumes "tcs_invocationID c = tcs_invocationID c'" "tcs_sessionKey c = tcs_sessionKey c'" "call_key c = call_key c'"
  shows "tcs_iter c = tcs_iter c' \<and> tcs_seqLen c = tcs_seqLen c'"
proof -
  have "Itoa (int (tcs_iter c)) @ CHR '':'' # Itoa (int (tcs_seqLen c)) @ CHR '':'' # tcs_name c @ '':'' @ tcs_paramsHash c =
      Itoa (int (tcs_iter c')) @ CHR '':'' # Itoa (int (tcs_seqLen c')) @ CHR '':'' # tcs_name c' @ '':'' @ tcs_paramsHash c'"
    using assms by (simp add: call_key_def)
  from this [unfolded colon_split [OF colon_notin_Itoa colon_notin_Itoa]]
  have it: "Itoa (int (tcs_iter c)) = Itoa (int (tcs_iter c'))" and
    rest: "Itoa (int (tcs_seqLen c)) @ CHR '':'' # tcs_name c @ '':'' @ tcs_paramsHash c =
      Itoa (int (tcs_seqLen c')) @ CHR '':'' # tcs_name c' @ '':'' @ tcs_paramsHash c'" by simp_all
  from rest [unfolded colon_split [OF colon_notin_Itoa colon_notin_Itoa]]
  have sq: "Itoa (int (tcs_seqLen c)) = Itoa (int (tcs_seqLen c'))" by simp
  show ?thesis using Itoa_nat_inj [OF it] Itoa_nat_inj [OF sq] by simp
qed

text \<open>
  The calls of a turn, as the loop makes them: \<open>run_calls\<close> executes call states in order up to the first
  error and notes the executed ones; the \<open>i\<close>-th call of an answer after \<open>n\<close> earlier calls of the turn has
  sequence length \<open>n + i\<close>. The loop with these notes is the loop of the runner.
\<close>

fun run_calls ::
  "('c, 'w) runner_env \<Rightarrow> 'w AgentRunner \<Rightarrow> (ToolCall \<times> toolCallState) list \<Rightarrow> 'w \<Rightarrow>
   (StrategicMessage list result \<times> toolCallState list) \<times> 'w" where
  "run_calls env r [] w = ((Inr [], []), w)"
| "run_calls env r ((tc, call) # rest) w =
     (case executeToolCallState env r call w of
        ((Inl e, m), w1) \<Rightarrow> ((Inl e, [call]), w1)
      | ((Inr result, m), w1) \<Rightarrow>
          (case run_calls env r rest w1 of
             ((Inl e, made), w2) \<Rightarrow> ((Inl e, call # made), w2)
           | ((Inr msgs, made), w2) \<Rightarrow> ((Inr (tool_message tc (formatToolMetaBlock result m) # msgs), call # made), w2)))"

fun calls_of :: "string \<Rightarrow> string \<Rightarrow> string \<Rightarrow> nat \<Rightarrow> nat \<Rightarrow> ToolCall list \<Rightarrow> (ToolCall \<times> toolCallState) list" where
  "calls_of iv sk u iter n [] = []"
| "calls_of iv sk u iter n (tc # tcs) =
     (tc, new_call iv sk u (tc_Name tc) (tc_Args tc) iter (Suc n)) # calls_of iv sk u iter (Suc n) tcs"

fun logged_loop ::
  "('c, ('c, 'x) breaker_world_scheme) runner_env \<Rightarrow> ('c, 'x) breaker_world_scheme AgentRunner \<Rightarrow> run_context \<Rightarrow> nat \<Rightarrow> nat \<Rightarrow>
   StrategicMessage list \<Rightarrow> nat \<Rightarrow> int \<Rightarrow> ('c, 'x) breaker_world_scheme \<Rightarrow>
   ((string \<times> StrategicMessage list) result \<times> toolCallState list) \<times> ('c, 'x) breaker_world_scheme" where
  "logged_loop env r rx 0 iter messages seen rounds w = ((Inl (run_exceeded r), []), w)"
| "logged_loop env r rx (Suc n) iter messages seen rounds w =
     (case RetryChat env r (run_request r rx messages) w of
        (Inl e, w1) \<Rightarrow> ((Inl (wrap_err ''chat'' e), []), w1)
      | (Inr resp, w1) \<Rightarrow>
          (let messages1 = messages @ [cp_Message resp]; tcs = ToolCalls (cp_Message resp) in
           if tcs = [] then
             (case handleTerminalResponse env r (rx_userText rx) (rx_rubric rx) (cp_Message resp) rounds w1 of
                (Inl text, _, w2) \<Rightarrow> ((Inr (text, messages1), []), w2)
              | (Inr msg, rounds', w2) \<Rightarrow> logged_loop env r rx n (Suc iter) (messages1 @ [msg]) seen rounds' w2)
           else
             (case run_calls env r (calls_of (rx_invocationID rx) (rx_sessionKey rx) (rx_userID rx) iter seen tcs) w1 of
                ((Inl e, made), w2) \<Rightarrow> ((Inl e, made), w2)
              | ((Inr newMsgs, made), w2) \<Rightarrow>
                  (case logged_loop env r rx n (Suc iter) (messages1 @ newMsgs) (seen + length tcs) rounds w2 of
                     ((res, made'), w3) \<Rightarrow> ((res, made @ made'), w3)))))"

lemma processToolCalls_run_calls:
  "run_calls env r (calls_of iv sk u iter (length sq) tcs) w = ((res, made), w') \<Longrightarrow>
   \<exists>sq'. processToolCalls env r iv sk u iter tcs sq w = ((res, sq'), w') \<and>
     ((\<exists>ms. res = Inr ms) \<longrightarrow> length sq' = length sq + length tcs)"
proof (induction tcs arbitrary: sq w res made w')
  case (Cons tc tcs)
  let ?c = "new_call iv sk u (tc_Name tc) (tc_Args tc) iter (Suc (length sq))"
  obtain x m w1 where x: "executeToolCallState env r ?c w = ((x, m), w1)" by (metis prod.collapse)
  show ?case
  proof (cases x)
    case (Inl e)
    then show ?thesis using Cons.prems x by auto
  next
    case (Inr result)
    obtain y lg w2 where y: "run_calls env r (calls_of iv sk u iter (length (sq @ [tc_Name tc])) tcs) w1 = ((y, lg), w2)"
      by (metis prod.collapse)
    from Cons.IH [OF y] obtain sq' where
      "processToolCalls env r iv sk u iter tcs (sq @ [tc_Name tc]) w1 = ((y, sq'), w2)"
      "(\<exists>ms. y = Inr ms) \<longrightarrow> length sq' = length (sq @ [tc_Name tc]) + length tcs" by blast
    then show ?thesis using Cons.prems x Inr y by (cases y) auto
  qed
qed simp

lemma logged_loop_run_loop:
  "logged_loop env r rx n iter msgs (length sq) rounds w = ((res, made), w') \<Longrightarrow>
   run_loop env r rx n iter msgs sq rounds w = (res, w')"
proof (induction n arbitrary: iter msgs sq rounds w res made w')
  case (Suc n)
  obtain x w1 where x: "RetryChat env r (run_request r rx msgs) w = (x, w1)" by fastforce
  show ?case
  proof (cases x)
    case (Inl e)
    then show ?thesis using Suc.prems x by simp
  next
    case (Inr resp)
    let ?m = "cp_Message resp" and ?msgs = "msgs @ [cp_Message resp]"
    show ?thesis
    proof (cases "ToolCalls ?m = []")
      case True
      obtain t rd w2 where t: "handleTerminalResponse env r (rx_userText rx) (rx_rubric rx) ?m rounds w1 = (t, rd, w2)"
        by (metis prod.collapse)
      show ?thesis using Suc.prems x Inr True t Suc.IH by (cases t) (auto simp: Let_def)
    next
      case False
      obtain y lg w2 where y: "run_calls env r (calls_of (rx_invocationID rx) (rx_sessionKey rx) (rx_userID rx) iter (length sq) (ToolCalls ?m)) w1 =
          ((y, lg), w2)" by (metis prod.collapse)
      obtain sq' where sq': "processToolCalls env r (rx_invocationID rx) (rx_sessionKey rx) (rx_userID rx) iter (ToolCalls ?m) sq w1 = ((y, sq'), w2)"
        "(\<exists>ms. y = Inr ms) \<longrightarrow> length sq' = length sq + length (ToolCalls ?m)"
        using processToolCalls_run_calls [OF y] by blast
      show ?thesis
      proof (cases y)
        case (Inl e)
        then show ?thesis using Suc.prems x Inr False y sq' by (simp add: Let_def)
      next
        case ok: (Inr ms)
        obtain res2 lg2 w3 where l: "logged_loop env r rx n (Suc iter) (?msgs @ ms) (length sq') rounds w2 = ((res2, lg2), w3)"
          by (metis prod.collapse)
        from Suc.IH [OF l] show ?thesis using Suc.prems x Inr False y sq' ok l by (simp add: Let_def)
      qed
    qed
  qed
qed simp

text \<open>The order in which a turn makes its calls, all for one invocation of one session.\<close>

definition call_before :: "toolCallState \<Rightarrow> toolCallState \<Rightarrow> bool" where
  "call_before c c' \<longleftrightarrow> tcs_iter c < tcs_iter c' \<or> tcs_iter c = tcs_iter c' \<and> tcs_seqLen c < tcs_seqLen c'"

definition calls_in_order :: "string \<Rightarrow> string \<Rightarrow> toolCallState list \<Rightarrow> bool" where
  "calls_in_order iv sk made \<longleftrightarrow> sorted_wrt call_before made \<and>
     (\<forall>c \<in> set made. tcs_invocationID c = iv \<and> tcs_sessionKey c = sk)"

lemma run_calls_log:
  "run_calls env r (calls_of iv sk u iter n tcs) w = ((res, made), w') \<Longrightarrow>
   calls_in_order iv sk made \<and> (\<forall>c \<in> set made. tcs_iter c = iter \<and> n < tcs_seqLen c)"
proof (induction tcs arbitrary: n w res made w')
  case (Cons tc tcs)
  let ?c = "new_call iv sk u (tc_Name tc) (tc_Args tc) iter (Suc n)"
  obtain x m w1 where x: "executeToolCallState env r ?c w = ((x, m), w1)" by (metis prod.collapse)
  obtain y lg w2 where y: "run_calls env r (calls_of iv sk u iter (Suc n) tcs) w1 = ((y, lg), w2)" by (metis prod.collapse)
  note IH = Cons.IH [OF y]
  have "made = [?c] \<or> made = ?c # lg" using Cons.prems x y by (cases x; cases y) auto
  then show ?case using IH by (force simp: calls_in_order_def call_before_def new_call_def)
qed (simp add: calls_in_order_def)

lemma logged_loop_log:
  "logged_loop env r rx n iter msgs seen rounds w = ((res, made), w') \<Longrightarrow>
   calls_in_order (rx_invocationID rx) (rx_sessionKey rx) made \<and> (\<forall>c \<in> set made. iter \<le> tcs_iter c)"
proof (induction n arbitrary: iter msgs seen rounds w res made w')
  case (Suc n)
  have more: "calls_in_order (rx_invocationID rx) (rx_sessionKey rx) lg \<and> (\<forall>c \<in> set lg. Suc iter \<le> tcs_iter c)"
    if "logged_loop env r rx n (Suc iter) ms k rd v = ((y, lg), v')" for ms k rd v y lg v' using Suc.IH [OF that] .
  obtain x w1 where x: "RetryChat env r (run_request r rx msgs) w = (x, w1)" by fastforce
  show ?case
  proof (cases x)
    case (Inl e)
    then show ?thesis using Suc.prems x by (auto simp: calls_in_order_def)
  next
    case (Inr resp)
    let ?m = "cp_Message resp" and ?msgs = "msgs @ [cp_Message resp]"
    show ?thesis
    proof (cases "ToolCalls ?m = []")
      case True
      obtain t rd w2 where t: "handleTerminalResponse env r (rx_userText rx) (rx_rubric rx) ?m rounds w1 = (t, rd, w2)"
        by (metis prod.collapse)
      show ?thesis
      proof (cases t)
        case (Inl s)
        then show ?thesis using Suc.prems x Inr True t by (auto simp: calls_in_order_def Let_def)
      next
        case next_round: (Inr c)
        then have "logged_loop env r rx n (Suc iter) (?msgs @ [c]) seen rd w2 = ((res, made), w')"
          using Suc.prems x Inr True t by (simp add: Let_def)
        from more [OF this] show ?thesis by auto
      qed
    next
      case False
      obtain y lg w2 where y: "run_calls env r (calls_of (rx_invocationID rx) (rx_sessionKey rx) (rx_userID rx) iter seen (ToolCalls ?m)) w1 =
          ((y, lg), w2)" by (metis prod.collapse)
      note first = run_calls_log [OF y]
      show ?thesis
      proof (cases y)
        case (Inl e)
        then show ?thesis using Suc.prems x Inr False y first by (simp add: Let_def)
      next
        case ok: (Inr ms)
        obtain res2 lg2 w3 where l: "logged_loop env r rx n (Suc iter) (?msgs @ ms) (seen + length (ToolCalls ?m)) rounds w2 = ((res2, lg2), w3)"
          by (metis prod.collapse)
        have "made = lg @ lg2" using Suc.prems x Inr False y ok l by (simp add: Let_def)
        then show ?thesis using first more [OF l]
          by (auto simp: calls_in_order_def sorted_wrt_append call_before_def Suc_le_eq)
      qed
    qed
  qed
qed (simp add: calls_in_order_def)

definition logged_Run ::
  "('c, ('c, 'x) breaker_world_scheme) runner_env \<Rightarrow> ('c, 'x) breaker_world_scheme AgentRunner \<Rightarrow> string \<Rightarrow> string \<Rightarrow>
   StrategicMessage list \<Rightarrow> ('c, 'x) breaker_world_scheme \<Rightarrow>
   ((string \<times> StrategicMessage list) result \<times> toolCallState list) \<times> ('c, 'x) breaker_world_scheme" where
  "logged_Run env r sessionKey userID messages w =
     (case rv_randText env w of (invocationID, w1) \<Rightarrow>
      case (case ar_MemStoreProvider r of
              Some f \<Rightarrow> if userID \<noteq> [] then f userID w1 else (ar_MemStore r, w1)
            | None \<Rightarrow> (ar_MemStore r, w1)) of (memStore, w2) \<Rightarrow>
      case buildSystemPrompt r sessionKey messages memStore w2 of (sysPrompt, w3) \<Rightarrow>
      case generateReflectionRubric env r (LastUserText messages) w3 of (rubric, w4) \<Rightarrow>
        logged_loop env r
          \<lparr>rx_invocationID = invocationID, rx_sessionKey = sessionKey, rx_userID = userID, rx_sysPrompt = sysPrompt,
           rx_userText = LastUserText messages, rx_rubric = rubric\<rparr>
          (nat (ar_MaxToolIterations r)) 0 messages 0 0 w4)"

text \<open>What the executed calls are keyed by: the hash of the parameters is filled in before the key is built.\<close>

definition keys_differ :: "toolCallState \<Rightarrow> toolCallState \<Rightarrow> bool" where
  "keys_differ c c' \<longleftrightarrow> (\<forall>h h'. call_key (c\<lparr>tcs_paramsHash := h\<rparr>) \<noteq> call_key (c'\<lparr>tcs_paramsHash := h'\<rparr>))"

lemma calls_in_order_keys:
  assumes "calls_in_order iv sk made"
  shows "sorted_wrt keys_differ made"
proof -
  have "keys_differ c c'" if "c \<in> set made" "c' \<in> set made" "call_before c c'" for c c'
  proof -
    have "call_key (c\<lparr>tcs_paramsHash := h\<rparr>) \<noteq> call_key (c'\<lparr>tcs_paramsHash := h'\<rparr>)" for h h'
      using call_key_inj [of "c\<lparr>tcs_paramsHash := h\<rparr>" "c'\<lparr>tcs_paramsHash := h'\<rparr>"] assms that
      by (auto simp: calls_in_order_def call_before_def)
    then show ?thesis by (simp add: keys_differ_def)
  qed
  then show ?thesis using assms unfolding calls_in_order_def
    by (intro sorted_wrt_mono_rel [of made call_before keys_differ]) auto
qed

lemma logged_Run_facts:
  assumes "logged_Run env r sk u msgs w = ((res, made), w')"
  shows "Run env r sk u msgs w = (res, w')" "sorted_wrt keys_differ made"
proof -
  obtain iv wa where a: "rv_randText env w = (iv, wa)" by fastforce
  obtain ms wb where b: "(case ar_MemStoreProvider r of Some f \<Rightarrow> if u \<noteq> [] then f u wa else (ar_MemStore r, wa)
      | None \<Rightarrow> (ar_MemStore r, wa)) = (ms, wb)" by fastforce
  obtain sp wc where pc: "buildSystemPrompt r sk msgs ms wb = (sp, wc)" by fastforce
  obtain rb wd where d: "generateReflectionRubric env r (LastUserText msgs) wc = (rb, wd)" by fastforce
  let ?rx = "\<lparr>rx_invocationID = iv, rx_sessionKey = sk, rx_userID = u, rx_sysPrompt = sp, rx_userText = LastUserText msgs, rx_rubric = rb\<rparr>"
  have l: "logged_loop env r ?rx (nat (ar_MaxToolIterations r)) 0 msgs (length []) 0 wd = ((res, made), w')"
    using assms unfolding logged_Run_def a prod.case b pc d by simp
  show "Run env r sk u msgs w = (res, w')"
    unfolding Run_def a prod.case b pc d using logged_loop_run_loop [OF l] .
  show "sorted_wrt keys_differ made" using logged_loop_log [OF l] calls_in_order_keys by blast
qed

text \<open>
  \<^bold>\<open>C7.\<close> A side-effecting tool call whose result was stored is not executed again: as long as its row is
  untouched and has not expired, a replay of the call returns the stored result and the world changes in
  nothing but the reading of the clock and of the database, so whatever the tool would do does not
  happen. The executed tool calls of one turn, in every run of the loop, have pairwise different keys, so
  within a turn no call gets the result of another.
\<close>

theorem replayed_call_not_executed:
  assumes idem: "tcs_name call \<in> set (ar_SideEffectingTools r)" "ar_IdempStore r = Some st"
    and hash: "\<not> tcs_hashFailed call" "tcs_paramsHash call = h" "h \<noteq> []"
    and stored: "Store cst (call_key call) (tcs_name call) h res sk d = (None, d1)" "stamp_ok (db_now d1)" "scans_datetime (rv_scan env)"
    and now: "rv_now env w = (t, w1)"
    and row: "map_of (idempotency_keys (rv_db env w1)) (call_key call) = map_of (idempotency_keys d1) (call_key call)"
    and up: "fst (driver_call (rv_db env w1)) = None" and age: "time_Sub t (db_now d1 div second * second) \<le> is_ttl st"
  shows "(\<exists>d2. tables d2 = tables (rv_db env w1) \<and> mainToolStep env r call w = (((res, None), []), rv_set_db env d2 w1)) \<and>
    mainToolStep env (r\<lparr>ar_ToolsByName := tools\<rparr>) call w = mainToolStep env r call w \<and>
    (\<forall>sk' u msgs v. \<exists>res' made v'. logged_Run env r sk' u msgs v = ((res', made), v') \<and>
       Run env r sk' u msgs v = (res', v') \<and> sorted_wrt keys_differ made)"
proof -
  obtain c e d2 where ck: "Check (rv_scan env) (rv_parse_error env) st t (call_key call) h (rv_db env w1) = ((c, e), d2)"
    by (metis prod.collapse)
  have k: "key_stored (rv_db env w1) (call_key call) h res (db_now d1)"
    using Store_result [OF stored(1)] row by (simp add: key_stored_def)
  have hit: "e = None" "Found c" "CachedResult c = res" "tables d2 = tables (rv_db env w1)"
    using Check_stored [OF k stored(3,2) ck] up age by auto
  have check: "idem_check env st (call_key call) h w = ((c, None), rv_set_db env d2 w1)"
    using now ck hit(1) by (simp add: idem_check_def)
  have "mainToolStep env r' call w = (((res, None), []), rv_set_db env d2 w1)"
    if "ar_SideEffectingTools r' = ar_SideEffectingTools r" "ar_IdempStore r' = ar_IdempStore r" for r'
    using that idem hash check hit(2,3) by (simp add: mainToolStep_def executeToolCall_def Let_def)
  then have run: "mainToolStep env r call w = (((res, None), []), rv_set_db env d2 w1)"
    "mainToolStep env (r\<lparr>ar_ToolsByName := tools\<rparr>) call w = (((res, None), []), rv_set_db env d2 w1)" by simp_all
  have keys: "\<forall>sk' u msgs v. \<exists>res' made v'. logged_Run env r sk' u msgs v = ((res', made), v') \<and>
      Run env r sk' u msgs v = (res', v') \<and> sorted_wrt keys_differ made"
    using logged_Run_facts by (metis prod.collapse)
  have "\<exists>d2. tables d2 = tables (rv_db env w1) \<and> mainToolStep env r call w = (((res, None), []), rv_set_db env d2 w1)"
    using run(1) hit(4) by blast
  with run keys show ?thesis by simp
qed

section \<open>Truncated results\<close>

lemma rune_cut_spec: "rune_cut s n \<le> n \<and> (rune_cut s n = 0 \<or> RuneStart (s ! rune_cut s n)) \<and> (\<forall>j. rune_cut s n < j \<and> j \<le> n \<longrightarrow> \<not> RuneStart (s ! j))"
proof (induction n)
  case (Suc n)
  then show ?case by (auto simp: le_Suc_eq)
qed simp

text \<open>In UTF-8 every four bytes in a row contain the first byte of a rune.\<close>

definition rune_dense :: "string \<Rightarrow> bool" where
  "rune_dense s \<longleftrightarrow> (\<forall>i. i + 3 < length s \<longrightarrow> (\<exists>j \<in> {i..i + 3}. RuneStart (s ! j)))"

text \<open>
  A tool result within the limit, or without one, is unchanged; a longer one is cut at the last rune that
  starts within the limit, so that no rune is split and, in UTF-8, at most three bytes are given up. The
  notice that is appended is not counted: a truncated result is always longer than the limit.
\<close>

theorem TruncateToolResult_bounds:
  "(maxBytes \<le> 0 \<or> int (length s) \<le> maxBytes \<longrightarrow> TruncateToolResult s maxBytes = s) \<and>
   (0 < maxBytes \<and> maxBytes < int (length s) \<longrightarrow>
      (\<exists>k. int k \<le> maxBytes \<and> TruncateToolResult s maxBytes = take k s @ truncationNotice maxBytes \<and>
         (k = 0 \<or> RuneStart (s ! k)) \<and> (\<forall>j. k < j \<and> int j \<le> maxBytes \<longrightarrow> \<not> RuneStart (s ! j)) \<and>
         (rune_dense s \<longrightarrow> maxBytes \<le> int k + 3 \<and> maxBytes < int (length (TruncateToolResult s maxBytes)))))"
proof (intro conjI impI)
  assume a: "0 < maxBytes \<and> maxBytes < int (length s)"
  let ?n = "nat maxBytes" let ?k = "rune_cut s (nat maxBytes)"
  have spec: "?k \<le> ?n" "?k = 0 \<or> RuneStart (s ! ?k)" "\<And>j. ?k < j \<Longrightarrow> j \<le> ?n \<Longrightarrow> \<not> RuneStart (s ! j)"
    using rune_cut_spec [of s ?n] by blast+
  have t: "TruncateToolResult s maxBytes = take ?k s @ truncationNotice maxBytes" using a by (simp add: TruncateToolResult_def)
  have near: "maxBytes \<le> int ?k + 3" if d: "rune_dense s"
  proof (rule ccontr)
    assume "\<not> ?thesis"
    then have k: "?k + 3 < ?n" by simp
    then have "?n - 3 + 3 < length s" using a by (simp add: nat_less_iff)
    then obtain j where "j \<in> {?n - 3..?n - 3 + 3}" "RuneStart (s ! j)" using d unfolding rune_dense_def by blast
    then have "?n - 3 \<le> j" "j \<le> ?n" "RuneStart (s ! j)" using k by simp_all
    moreover from this have "?k < j" using k by linarith
    ultimately show False using spec(3) [of j] by blast
  qed
  have "int (length (TruncateToolResult s maxBytes)) \<ge> int ?k + 4"
  proof -
    have "?k \<le> length s" using a spec(1) by linarith
    then show ?thesis unfolding t by (simp add: truncationNotice_def)
  qed
  then have "maxBytes < int (length (TruncateToolResult s maxBytes))" if "rune_dense s" using near [OF that] by linarith
  then show "\<exists>k. int k \<le> maxBytes \<and> TruncateToolResult s maxBytes = take k s @ truncationNotice maxBytes \<and>
      (k = 0 \<or> RuneStart (s ! k)) \<and> (\<forall>j. k < j \<and> int j \<le> maxBytes \<longrightarrow> \<not> RuneStart (s ! j)) \<and>
      (rune_dense s \<longrightarrow> maxBytes \<le> int k + 3 \<and> maxBytes < int (length (TruncateToolResult s maxBytes)))"
    using spec a t near by (intro exI [of _ ?k]) auto
qed (simp add: TruncateToolResult_def)


theorem TruncateToolResult_bounds_witness:
  "TruncateToolResult ''abc'' 3 = ''abc'' \<and> (\<exists>k. int k \<le> 2 \<and> TruncateToolResult ''abc'' 2 = take k ''abc'' @ truncationNotice 2)"
  using TruncateToolResult_bounds [of 3 "''abc''"] TruncateToolResult_bounds [of 2 "''abc''"] by auto

section \<open>A sample turn\<close>

text \<open>
  A world with one closed breaker, a counter of provider calls and a database. The provider first asks for
  the tool ping and then answers.
\<close>

type_synonym sample_world = "(unit, nat \<times> db) breaker_world_scheme"

definition sample_start :: "db \<Rightarrow> sample_world" where
  "sample_start d =
     \<lparr>bw_cbs = [()], bw_breakers = [\<lparr>b_cb = 0, b_settings = breaker_settings ''sample'' 5 (60 * second) (30 * second)\<rparr>],
      bw_registry = Map.empty, bw_stats = Map.empty, bw_now = 0, \<dots> = (0, d)\<rparr>"

definition sample_usage :: TokenUsage where
  "sample_usage = \<lparr>PromptTokens = 0, CompletionTokens = 0, TotalTokens = 0\<rparr>"

definition sample_ping :: StrategicMessage where
  "sample_ping = empty_message\<lparr>Role := RoleAssistant,
     ToolCalls := [\<lparr>tc_ID = ''1'', tc_Name = ''ping'', tc_Args = None, tc_ThoughtSignature = []\<rparr>]\<rparr>"

definition sample_provider :: "sample_world Provider" where
  "sample_provider =
     \<lparr>pr_Name = ''sample'',
      pr_Chat = \<lambda>q w.
        (Inr \<lparr>cp_Message = (if Role (last (cq_Messages q)) = RoleTool then plain_message RoleAssistant ''done'' else sample_ping),
              cp_Usage = sample_usage\<rparr>,
         breaker_world.more_update (\<lambda>(n, d). (Suc n, d)) w)\<rparr>"

definition sample_tool :: "sample_world Tool" where
  "sample_tool =
     \<lparr>to_Declaration = \<lparr>td_Name = ''ping'', td_Description = [], td_Parameters = [], td_SideEffecting = True\<rparr>,
      to_Execute = \<lambda>sk u args w. ((ToolReturned ''pong'' None, []), w)\<rparr>"

definition sample_agent :: "sample_world AgentRunner" where
  "sample_agent = SetTools [sample_tool]
     \<lparr>ar_Prov = sample_provider, ar_Model = ''m'', ar_SystemPrompt = [], ar_MemStore = None, ar_MemStoreProvider = None,
      ar_Hybrid = None, ar_ToolsByName = [], ar_Breaker = 0, ar_Hooks = None, ar_Tracer = None,
      ar_IdempStore = Some (NewIdempotencyStore (24 * hour)), ar_SideEffectingTools = [], ar_MaxToolIterations = 2,
      ar_MaxTokens = 0, ar_MaxToolResultBytes = 32768, ar_EnableReflection = False, ar_MaxReflectionRounds = 1\<rparr>"

definition sample_renv :: "(unit, sample_world) runner_env" where
  "sample_renv =
     \<lparr>rv_breaker = \<lparr>gb_New = \<lambda>_. (), gb_before = \<lambda>_ _. (None, ()), gb_after = \<lambda>_ _ _. (), gb_State = \<lambda>_ _. ''closed''\<rparr>,
      rv_LimiterWait = \<lambda>w. (None, w), rv_After = \<lambda>_ w. (None, w), rv_randText = \<lambda>w. (''id'', w), rv_now = \<lambda>w. (bw_now w, w),
      rv_db = \<lambda>w. snd (breaker_world.more w), rv_set_db = \<lambda>d. breaker_world.more_update (\<lambda>(n, _). (n, d)),
      rv_scan = \<lambda>x. x, rv_parse_error = ErrorNew, rv_constraint = ErrorNew ''UNIQUE'', rv_HashParams = \<lambda>_. Inr ''h'',
      rv_json = \<lparr>jt_Unmarshal = \<lambda>_. Inl EOF, jt_Marshal = \<lambda>_. Inl EOF\<rparr>, rv_indent = \<lambda>_. [], rv_printv = \<lambda>_. [], rv_fl = \<lambda>x. x\<rparr>"

lemma sample_agent_simps:
  "ar_Prov sample_agent = sample_provider" "ar_MemStore sample_agent = None" "ar_MemStoreProvider sample_agent = None"
  "ar_Hybrid sample_agent = None" "ar_ToolsByName sample_agent = [(''ping'', sample_tool)]" "ar_Breaker sample_agent = 0"
  "ar_Hooks sample_agent = None" "ar_Tracer sample_agent = None" "ar_SideEffectingTools sample_agent = [''ping'']"
  "ar_IdempStore sample_agent = Some (NewIdempotencyStore (24 * hour))" "ar_MaxToolIterations sample_agent = 2"
  "ar_MaxToolResultBytes sample_agent = 32768" "ar_EnableReflection sample_agent = False" "ar_SystemPrompt sample_agent = []"
  by (simp_all add: sample_agent_def SetTools_def set_tool_def sample_tool_def Let_def)

text \<open>An agent whose tool calls the provider itself, twice.\<close>

definition sample_asking :: "sample_world AgentRunner" where
  "sample_asking = sample_agent\<lparr>ar_ToolsByName := [(''ping'', sample_tool\<lparr>to_Execute := \<lambda>sk u args w.
     ((ToolReturned ''pong'' None, []), breaker_world.more_update (\<lambda>(n, d). (n + 2, d)) w)\<rparr>)]\<rparr>"

lemma sample_counts:
  "tool_grade 2 (\<lambda>n w w'. fst (breaker_world.more w') \<le> fst (breaker_world.more w) + n) sample_renv sample_asking"
  by (auto simp: tool_grade_def graded_def search_grade_def sample_agent_simps sample_asking_def sample_renv_def sample_provider_def
      split: if_splits prod.splits)

theorem Run_bounded_witness:
  "fst (breaker_world.more (snd (Run sample_renv sample_asking ''cron:x'' [] [] (sample_start (empty_db 0))))) \<le> 12"
proof -
  obtain res w' where run: "Run sample_renv sample_asking ''cron:x'' [] [] (sample_start (empty_db 0)) = (res, w')" by fastforce
  have "answer_width 1 (ar_Prov sample_asking)"
    by (auto simp: answer_width_def sample_asking_def sample_agent_simps sample_provider_def sample_ping_def plain_message_def empty_message_def)
  from Run_bounded [OF sample_counts disjI2 [OF this] run] run show ?thesis
    by (simp add: sample_agent_simps sample_start_def sample_asking_def)
qed


lemma sample_RetryChat:
  "RetryChat sample_renv sample_agent q w =
     (Inr \<lparr>cp_Message = (if Role (last (cq_Messages q)) = RoleTool then plain_message RoleAssistant ''done'' else sample_ping),
           cp_Usage = sample_usage\<rparr>,
      snd (RetryChat sample_renv sample_agent q w))"
  by (simp add: RetryChat_def attemptChat_def sample_renv_def sample_agent_simps sample_provider_def
      provider_call_def Breaker_Execute_def guarded_call_def Let_def)

lemma sample_RetryChat_db: "snd (breaker_world.more (snd (RetryChat sample_renv sample_agent q w))) = snd (breaker_world.more w)"
  by (simp add: RetryChat_def attemptChat_def sample_renv_def sample_agent_simps sample_provider_def
      provider_call_def Breaker_Execute_def guarded_call_def Let_def RecordSuccess_def set_cb_def case_prod_beta)

lemma sample_tool_call:
  assumes "snd (breaker_world.more w) = empty_db 0"
  shows "\<exists>w'. processToolCalls sample_renv sample_agent iv sk u i (ToolCalls sample_ping) sq w =
    ((Inr [tool_message (hd (ToolCalls sample_ping)) ''pong''], sq @ [''ping'']), w')"
  using assms
  by (simp add: sample_ping_def executeToolCallState_def runToolWithHooks_def preToolStep_def mainToolStep_def executeToolCall_def
      runPostToolHooks_def new_call_def sample_renv_def sample_agent_simps sample_tool_def idem_check_def Check_def sql_query_def
      driver_call_def empty_db_def executeToolInner_def Let_def no_result_def TruncateToolResult_def formatToolMetaBlock_def)


lemma sample_run:
  "\<exists>w'. Run sample_renv sample_agent ''telegram:1'' ''1'' [plain_message RoleUser ''hello''] (sample_start (empty_db 0)) =
     (Inr (''done'', [plain_message RoleUser ''hello'', sample_ping, tool_message (hd (ToolCalls sample_ping)) ''pong'',
        plain_message RoleAssistant ''done'']), w')"
proof -
  define rx where "rx = \<lparr>rx_invocationID = ''id'', rx_sessionKey = ''telegram:1'', rx_userID = ''1'', rx_sysPrompt = [],
     rx_userText = LastUserText [plain_message RoleUser ''hello''], rx_rubric = None\<rparr>"
  let ?hello = "plain_message RoleUser ''hello''" and ?pong = "tool_message (hd (ToolCalls sample_ping)) ''pong''"
  let ?loop = "run_loop sample_renv sample_agent rx 2 0 [?hello] [] 0 (sample_start (empty_db 0))"
  have start: "Run sample_renv sample_agent ''telegram:1'' ''1'' [?hello] (sample_start (empty_db 0)) = ?loop"
    by (simp add: Run_def sample_agent_simps buildSystemPrompt_def generateReflectionRubric_def sample_renv_def rx_def numeral_2_eq_2)
  obtain wb where b: "RetryChat sample_renv sample_agent (run_request sample_agent rx [?hello]) (sample_start (empty_db 0)) =
      (Inr \<lparr>cp_Message = sample_ping, cp_Usage = sample_usage\<rparr>, wb)"
    using sample_RetryChat [of "run_request sample_agent rx [?hello]" "sample_start (empty_db 0)"]
    by (simp add: run_request_def plain_message_def role_defs)
  have "snd (breaker_world.more wb) = empty_db 0"
    using sample_RetryChat_db [of "run_request sample_agent rx [?hello]" "sample_start (empty_db 0)"] b by (simp add: sample_start_def)
  then obtain wc where c: "processToolCalls sample_renv sample_agent ''id'' ''telegram:1'' ''1'' 0 (ToolCalls sample_ping) [] wb =
      ((Inr [?pong], [''ping'']), wc)" using sample_tool_call [of wb "''id''" "''telegram:1''" "''1''" 0 "[]"] by auto
  obtain wd where d: "RetryChat sample_renv sample_agent (run_request sample_agent rx [?hello, sample_ping, ?pong]) wc =
      (Inr \<lparr>cp_Message = plain_message RoleAssistant ''done'', cp_Usage = sample_usage\<rparr>, wd)"
    using sample_RetryChat [of "run_request sample_agent rx [?hello, sample_ping, ?pong]" wc]
    by (simp add: run_request_def tool_message_def plain_message_def)
  have "?loop = (Inr (''done'', [?hello, sample_ping, ?pong, plain_message RoleAssistant ''done'']), wd)"
  proof -
    have "ToolCalls sample_ping \<noteq> []" by (simp add: sample_ping_def)
    moreover have "ToolCalls (plain_message RoleAssistant ''done'') = []" "ExtractText (plain_message RoleAssistant ''done'') = ''done''"
      by (simp_all add: plain_message_def empty_message_def ExtractText_def)
    ultimately show ?thesis using b c d
      by (simp add: numeral_2_eq_2 Let_def handleTerminalResponse_def sample_agent_simps)
        (simp add: rx_def Let_def handleTerminalResponse_def sample_agent_simps)
  qed
  then show ?thesis using start by simp
qed

theorem Run_transcript_witness:
  "\<exists>new. [plain_message RoleUser ''hello'', sample_ping, tool_message (hd (ToolCalls sample_ping)) ''pong'',
      plain_message RoleAssistant ''done''] = plain_message RoleUser ''hello'' # new \<and> transcript False 2 new ''done''"
proof -
  obtain w' where "Run sample_renv sample_agent ''telegram:1'' ''1'' [plain_message RoleUser ''hello''] (sample_start (empty_db 0)) =
     (Inr (''done'', [plain_message RoleUser ''hello'', sample_ping, tool_message (hd (ToolCalls sample_ping)) ''pong'',
        plain_message RoleAssistant ''done'']), w')" using sample_run by blast
  from Run_transcript [OF this] show ?thesis by (simp add: sample_agent_simps)
qed

definition sample_ping_call :: toolCallState where
  "sample_ping_call = (new_call ''id'' ''telegram:1'' ''1'' ''ping'' None 0 1)\<lparr>tcs_paramsHash := ''h''\<rparr>"

definition sample_done :: db where
  "sample_done = snd (Store EOF (call_key sample_ping_call) ''ping'' ''h'' ''pong'' ''telegram:1'' sample_idem)"

theorem replayed_call_not_executed_witness:
  "fst (mainToolStep sample_renv (sample_agent\<lparr>ar_ToolsByName := []\<rparr>) sample_ping_call
     ((sample_start sample_done)\<lparr>bw_now := 1767229200 * second\<rparr>)) = ((''pong'', None), [])"
proof -
  let ?w = "(sample_start sample_done)\<lparr>bw_now := 1767229200 * second\<rparr>"
  have st: "Store EOF (call_key sample_ping_call) (tcs_name sample_ping_call) ''h'' ''pong'' ''telegram:1'' sample_idem = (None, sample_done)"
    by (simp add: sample_done_def sample_idem_def Store_def empty_db_def sample_ping_call_def new_call_def)
  have db: "db_now sample_done = 1767225600 * second" "fst (driver_call sample_done) = None"
    by (simp_all add: sample_done_def sample_idem_def Store_def empty_db_def insert_key_def driver_call_def)
  have env: "rv_now sample_renv ?w = (1767229200 * second, ?w)" "rv_db sample_renv ?w = sample_done" "scans_datetime (rv_scan sample_renv)"
    by (simp_all add: sample_renv_def sample_start_def scans_datetime_def)
  have c: "tcs_name sample_ping_call \<in> set (ar_SideEffectingTools sample_agent)" "\<not> tcs_hashFailed sample_ping_call" "tcs_paramsHash sample_ping_call = ''h''"
    "''h'' \<noteq> []" by (simp_all add: sample_ping_call_def new_call_def sample_agent_simps)
  have ok: "stamp_ok (db_now sample_done)" using sample_stamp db by simp
  have age: "time_Sub (1767229200 * second) (db_now sample_done div second * second) \<le> is_ttl (NewIdempotencyStore (24 * hour))"
    unfolding db by (simp add: NewIdempotencyStore_def time_Sub_def second_def hour_def minute_def)
  from replayed_call_not_executed [OF c(1) sample_agent_simps(10) c(2,3,4) st ok env(3,1), unfolded env(2), OF refl db(2) age, of "[]"]
  show ?thesis by auto
qed

end
