(* ===== verification/Workflow.thy ===== *)
theory Workflow
  imports GoTime "HOL-Library.Char_ord" "HOL-Library.List_Lexorder"
begin

text \<open>
  Durable workflow state, \<^verbatim>\<open>internal/state\<close> and \<^verbatim>\<open>internal/agent/state_hooks.go\<close>: checkpoints that are written
  atomically, a journal of later changes, lock files, recovery and archiving. A path is the list of its
  elements, and a workflow id is one element. The files are the record \<open>wfs\<close>; every call of the operating
  system takes from the script the time at which it ends and its fault, if any: a call that fails does
  nothing, except that a write may have written a part. A crash of the process has the same effect on the
  files as the failure of every later call. The JSON form of states and journal entries is the record
  \<open>wf_codec\<close>.
\<close>

section \<open>Files\<close>

datatype os_fault = NoFault | OsFail go_error | OsPartial nat go_error

type_synonym path = "string list"

record wfs =
  wf_files :: "path \<Rightarrow> (instant \<times> string) option"
  wf_dirs :: "path list"
  wf_now :: instant
  wf_script :: "(instant \<times> os_fault) list"
  wf_temps :: nat

definition os_call :: "wfs \<Rightarrow> os_fault \<times> wfs" where
  "os_call fs = (case wf_script fs of [] \<Rightarrow> (NoFault, fs) | (t, f) # rest \<Rightarrow> (f, fs\<lparr>wf_now := t, wf_script := rest\<rparr>))"

fun fault_error :: "os_fault \<Rightarrow> go_error option" where
  "fault_error NoFault = None"
| "fault_error (OsFail e) = Some e"
| "fault_error (OsPartial n e) = Some e"

text \<open>A call with an effect on the files when it does not fail.\<close>

definition os_do :: "(wfs \<Rightarrow> wfs) \<Rightarrow> wfs \<Rightarrow> go_error option \<times> wfs" where
  "os_do f fs = (case os_call fs of (fault, fs1) \<Rightarrow>
     (case fault_error fault of Some e \<Rightarrow> (Some e, fs1) | None \<Rightarrow> (None, f fs1)))"

definition set_file :: "path \<Rightarrow> (instant \<times> string) option \<Rightarrow> wfs \<Rightarrow> wfs" where
  "set_file p v fs = fs\<lparr>wf_files := (wf_files fs)(p := v)\<rparr>"

definition path_text :: "path \<Rightarrow> string" where
  "path_text p = Join p ''/''"

definition MkdirAll :: "path \<Rightarrow> wfs \<Rightarrow> go_error option \<times> wfs" where
  "MkdirAll dir = os_do (\<lambda>fs. fs\<lparr>wf_dirs := wf_dirs fs @ filter (\<lambda>p. p \<notin> set (wf_dirs fs)) (map (\<lambda>n. take n dir) [1..<Suc (length dir)])\<rparr>)"

definition Remove :: "path \<Rightarrow> wfs \<Rightarrow> go_error option \<times> wfs" where
  "Remove p fs =
     (case os_call fs of (fault, fs1) \<Rightarrow>
        (case fault_error fault of
           Some e \<Rightarrow> (Some e, fs1)
         | None \<Rightarrow> if wf_files fs1 p = None then (Some (NotExist (path_text p)), fs1) else (None, set_file p None fs1)))"

text \<open>A write of \<open>data\<close> to the end of an open file; a failing write leaves the part it has written.\<close>

definition append_file :: "path \<Rightarrow> string \<Rightarrow> wfs \<Rightarrow> wfs" where
  "append_file p data fs =
     (case wf_files fs p of
        None \<Rightarrow> fs
      | Some (t, old) \<Rightarrow> set_file p (Some (wf_now fs, old @ data)) fs)"

definition os_write :: "path \<Rightarrow> string \<Rightarrow> wfs \<Rightarrow> go_error option \<times> wfs" where
  "os_write p data fs =
     (case os_call fs of
        (NoFault, fs1) \<Rightarrow> (None, append_file p data fs1)
      | (OsFail e, fs1) \<Rightarrow> (Some e, fs1)
      | (OsPartial n e, fs1) \<Rightarrow> (Some e, append_file p (take n data) fs1))"

definition os_read :: "path \<Rightarrow> wfs \<Rightarrow> string result \<times> wfs" where
  "os_read p fs =
     (case os_call fs of (fault, fs1) \<Rightarrow>
        (case fault_error fault of
           Some e \<Rightarrow> (Inl e, fs1)
         | None \<Rightarrow> (case wf_files fs1 p of None \<Rightarrow> (Inl (NotExist (path_text p)), fs1) | Some (t, data) \<Rightarrow> (Inr data, fs1))))"

definition os_stat :: "path \<Rightarrow> wfs \<Rightarrow> instant result \<times> wfs" where
  "os_stat p fs =
     (case os_call fs of (fault, fs1) \<Rightarrow>
        (case fault_error fault of
           Some e \<Rightarrow> (Inl e, fs1)
         | None \<Rightarrow> (case wf_files fs1 p of None \<Rightarrow> (Inl (NotExist (path_text p)), fs1) | Some (t, data) \<Rightarrow> (Inr t, fs1))))"

section \<open>Atomic writes\<close>

definition temp_path :: "path \<Rightarrow> nat \<Rightarrow> path" where
  "temp_path dir n = dir @ [''.tmp_'' @ Itoa (int n)]"

definition CreateTemp :: "path \<Rightarrow> wfs \<Rightarrow> path result \<times> wfs" where
  "CreateTemp dir fs =
     (let p = temp_path dir (wf_temps fs) in
      case os_do (\<lambda>fs. set_file p (Some (wf_now fs, [])) (fs\<lparr>wf_temps := Suc (wf_temps fs)\<rparr>)) fs of
        (Some e, fs1) \<Rightarrow> (Inl e, fs1)
      | (None, fs1) \<Rightarrow> (Inr p, fs1))"

definition Rename :: "path \<Rightarrow> path \<Rightarrow> wfs \<Rightarrow> go_error option \<times> wfs" where
  "Rename p q = os_do (\<lambda>fs. set_file p None (set_file q (wf_files fs p) fs))"

text \<open>The steps on the temporary file, each with the text that its error is wrapped in.\<close>

fun temp_steps :: "(string \<times> (wfs \<Rightarrow> go_error option \<times> wfs)) list \<Rightarrow> wfs \<Rightarrow> go_error option \<times> wfs" where
  "temp_steps [] fs = (None, fs)"
| "temp_steps ((msg, op) # ops) fs =
     (case op fs of (Some e, fs1) \<Rightarrow> (Some (wrap_err msg e), fs1) | (None, fs1) \<Rightarrow> temp_steps ops fs1)"

definition no_effect :: "wfs \<Rightarrow> go_error option \<times> wfs" where
  "no_effect = os_do (\<lambda>fs. fs)"

definition WriteFileAtomic :: "path \<Rightarrow> string \<Rightarrow> wfs \<Rightarrow> go_error option \<times> wfs" where
  "WriteFileAtomic p data fs =
     (let dir = butlast p in
      case MkdirAll dir fs of
        (Some e, fs1) \<Rightarrow> (Some (wrap_err (''creating directory '' @ path_text dir) e), fs1)
      | (None, fs1) \<Rightarrow>
          (case CreateTemp dir fs1 of
             (Inl e, fs2) \<Rightarrow> (Some (wrap_err ''creating temp file'' e), fs2)
           | (Inr tmp, fs2) \<Rightarrow>
               (case temp_steps
                       [(''writing to temp file'', os_write tmp data), (''setting file permissions'', no_effect),
                        (''syncing temp file'', no_effect), (''closing temp file'', no_effect),
                        (''renaming temp file'', Rename tmp p)] fs2 of
                  (res, fs3) \<Rightarrow> (res, snd (Remove tmp fs3)))))"

section \<open>States and journals\<close>

type_synonym WorkflowID = string
type_synonym WorkflowStatus = string

definition StatusPending :: WorkflowStatus where "StatusPending = ''pending''"
definition StatusRunning :: WorkflowStatus where "StatusRunning = ''running''"
definition StatusPaused :: WorkflowStatus where "StatusPaused = ''paused''"
definition StatusCompleted :: WorkflowStatus where "StatusCompleted = ''completed''"
definition StatusFailed :: WorkflowStatus where "StatusFailed = ''failed''"

definition IsTerminal :: "WorkflowStatus \<Rightarrow> bool" where
  "IsTerminal s \<longleftrightarrow> s = StatusCompleted \<or> s = StatusFailed"

definition IsActive :: "WorkflowStatus \<Rightarrow> bool" where
  "IsActive s \<longleftrightarrow> \<not> IsTerminal s"

record WorkflowState =
  ws_ID :: WorkflowID
  ws_Status :: WorkflowStatus
  ws_Version :: int
  ws_CreatedAt :: instant
  ws_UpdatedAt :: instant
  ws_Data :: string

record JournalEntry =
  je_Timestamp :: instant
  je_Operation :: string
  je_Payload :: string

record wf_codec =
  wc_enc :: "WorkflowState \<Rightarrow> string result"
  wc_dec :: "string \<Rightarrow> WorkflowState result"
  wc_enc_entry :: "JournalEntry \<Rightarrow> string result"
  wc_dec_entry :: "string \<Rightarrow> JournalEntry result"
  wc_dec_status :: "string \<Rightarrow> WorkflowStatus result"

definition WriteFileJSON :: "('a \<Rightarrow> string result) \<Rightarrow> path \<Rightarrow> 'a \<Rightarrow> wfs \<Rightarrow> go_error option \<times> wfs" where
  "WriteFileJSON enc p v fs =
     (case enc v of
        Inl e \<Rightarrow> (Some (wrap_err ''marshaling JSON'' e), fs)
      | Inr data \<Rightarrow> WriteFileAtomic p (data @ [CHR 0x0A]) fs)"

definition ReadFileJSON :: "wf_codec \<Rightarrow> path \<Rightarrow> wfs \<Rightarrow> WorkflowState result \<times> wfs" where
  "ReadFileJSON codec p fs =
     (case os_read p fs of
        (Inl e, fs1) \<Rightarrow> (Inl (wrap_err (''reading file '' @ path_text p) e), fs1)
      | (Inr data, fs1) \<Rightarrow>
          (case wc_dec codec data of
             Inl e \<Rightarrow> (Inl (wrap_err (''unmarshaling JSON from '' @ path_text p) e), fs1)
           | Inr v \<Rightarrow> (Inr v, fs1)))"

text \<open>A journal is open on a path; opening creates the file when it does not exist.\<close>

definition OpenJournal :: "path \<Rightarrow> WorkflowID \<Rightarrow> wfs \<Rightarrow> path result \<times> wfs" where
  "OpenJournal journalDir wid fs =
     (let p = journalDir @ [wid @ ''.journal''] in
      case MkdirAll journalDir fs of
        (Some e, fs1) \<Rightarrow> (Inl (wrap_err ''creating journal directory'' e), fs1)
      | (None, fs1) \<Rightarrow>
          (case os_do (\<lambda>fs. if wf_files fs p = None then set_file p (Some (wf_now fs, [])) fs else fs) fs1 of
             (Some e, fs2) \<Rightarrow> (Inl (wrap_err ''opening journal file'' e), fs2)
           | (None, fs2) \<Rightarrow> (Inr p, fs2)))"

definition Append :: "wf_codec \<Rightarrow> path \<Rightarrow> JournalEntry \<Rightarrow> wfs \<Rightarrow> go_error option \<times> wfs" where
  "Append codec p entry fs =
     (case wc_enc_entry codec entry of
        Inl e \<Rightarrow> (Some (wrap_err ''marshaling journal entry'' e), fs)
      | Inr data \<Rightarrow>
          (case os_write p (data @ [CHR 0x0A]) fs of
             (Some e, fs1) \<Rightarrow> (Some (wrap_err ''writing journal entry'' e), fs1)
           | (None, fs1) \<Rightarrow>
               (case no_effect fs1 of
                  (Some e, fs2) \<Rightarrow> (Some (wrap_err ''syncing journal'' e), fs2)
                | (None, fs2) \<Rightarrow> (None, fs2))))"

fun replay_lines :: "wf_codec \<Rightarrow> path \<Rightarrow> int \<Rightarrow> string list \<Rightarrow> JournalEntry list result" where
  "replay_lines codec p line [] = Inr []"
| "replay_lines codec p line (l # ls) =
     (if length l \<ge> max_line then Inl (wrap_err ''scanning journal'' (ErrorNew ''bufio.Scanner: token too long''))
      else
        (case wc_dec_entry codec (drop_cr l) of
           Inl e \<Rightarrow> Inl (wrap_err (''decoding journal '' @ Quote (path_text p) @ '' line '' @ Itoa (line + 1)) e)
         | Inr entry \<Rightarrow>
             (case replay_lines codec p (line + 1) ls of Inl e \<Rightarrow> Inl e | Inr entries \<Rightarrow> Inr (entry # entries))))"

definition Replay :: "wf_codec \<Rightarrow> path \<Rightarrow> wfs \<Rightarrow> JournalEntry list result \<times> wfs" where
  "Replay codec p fs =
     (case os_do (\<lambda>fs. fs) fs of
        (Some e, fs1) \<Rightarrow> if IsNotExist e then (Inr [], fs1) else (Inl (wrap_err ''opening journal'' e), fs1)
      | (None, fs1) \<Rightarrow>
          (case wf_files fs1 p of
             None \<Rightarrow> (Inr [], fs1)
           | Some (t, data) \<Rightarrow>
               (case os_do (\<lambda>fs. fs) fs1 of
                  (Some e, fs2) \<Rightarrow> (Inl (wrap_err ''scanning journal'' e), fs2)
                | (None, fs2) \<Rightarrow> (replay_lines codec p 0 (raw_lines data), fs2))))"

definition Truncate :: "path \<Rightarrow> wfs \<Rightarrow> go_error option \<times> wfs" where
  "Truncate p fs =
     (case Remove p fs of (Some e, fs1) \<Rightarrow> (Some (wrap_err ''removing journal'' e), fs1) | (None, fs1) \<Rightarrow> (None, fs1))"

definition applyEntry :: "wf_codec \<Rightarrow> WorkflowState \<Rightarrow> JournalEntry \<Rightarrow> WorkflowState result" where
  "applyEntry codec st entry =
     (if je_Operation entry = ''status_change'' then
        (case wc_dec_status codec (je_Payload entry) of
           Inl e \<Rightarrow> Inl (wrap_err ''unmarshal status_change payload'' e)
         | Inr s \<Rightarrow> Inr (st\<lparr>ws_Status := s, ws_UpdatedAt := je_Timestamp entry\<rparr>))
      else if je_Operation entry = ''data_update'' then
        Inr (st\<lparr>ws_Data := je_Payload entry, ws_UpdatedAt := je_Timestamp entry\<rparr>)
      else Inr st)"

fun apply_entries :: "wf_codec \<Rightarrow> JournalEntry list \<Rightarrow> WorkflowState \<Rightarrow> WorkflowState result" where
  "apply_entries codec [] st = Inr st"
| "apply_entries codec (entry # entries) st =
     (case applyEntry codec st entry of
        Inl e \<Rightarrow> Inl (wrap_err (''applying entry '' @ je_Operation entry) e)
      | Inr st' \<Rightarrow> apply_entries codec entries st')"

definition RecoverWorkflow :: "wf_codec \<Rightarrow> path \<Rightarrow> WorkflowID \<Rightarrow> WorkflowState \<Rightarrow> wfs \<Rightarrow> WorkflowState result \<times> wfs" where
  "RecoverWorkflow codec journalDir wid st fs =
     (case Replay codec (journalDir @ [wid @ ''.journal'']) fs of
        (Inl e, fs1) \<Rightarrow> (Inl (wrap_err ''replaying journal'' e), fs1)
      | (Inr entries, fs1) \<Rightarrow> (apply_entries codec entries st, fs1))"

section \<open>Locks\<close>

definition lock_path :: "path \<Rightarrow> WorkflowID \<Rightarrow> path" where
  "lock_path lockDir wid = lockDir @ [wid @ ''.lock'']"

text \<open>The exclusive creation of the lock file.\<close>

definition open_lock :: "path \<Rightarrow> wfs \<Rightarrow> bool \<times> wfs" where
  "open_lock p fs =
     (case os_call fs of (fault, fs1) \<Rightarrow>
        if fault_error fault \<noteq> None \<or> wf_files fs1 p \<noteq> None then (False, fs1)
        else (True, set_file p (Some (wf_now fs1, [])) fs1))"

definition lock_stale :: "path \<Rightarrow> duration \<Rightarrow> wfs \<Rightarrow> bool \<times> wfs" where
  "lock_stale p timeout fs =
     (case os_stat p fs of (Inr mtime, fs1) \<Rightarrow> (time_Sub (wf_now fs1) mtime > timeout, fs1) | (Inl _, fs1) \<Rightarrow> (False, fs1))"

lemma open_lock_script:
  "open_lock p fs = (b, fs') \<Longrightarrow> length (wf_script fs') = length (wf_script fs) - 1 \<and>
     (wf_script fs = [] \<longrightarrow> wf_now fs' = wf_now fs \<and> (\<not> b \<longrightarrow> fs' = fs \<and> wf_files fs p \<noteq> None))"
  by (auto simp: open_lock_def os_call_def set_file_def split: list.splits if_splits)

lemma lock_stale_script:
  "lock_stale p timeout fs = (b, fs') \<Longrightarrow> length (wf_script fs') = length (wf_script fs) - 1 \<and>
     (wf_script fs = [] \<longrightarrow> fs' = fs \<and> (b \<longrightarrow> wf_files fs p \<noteq> None))"
  by (auto simp: lock_stale_def os_stat_def os_call_def split: list.splits option.splits)

lemma Remove_script:
  "Remove p fs = (e, fs') \<Longrightarrow> length (wf_script fs') = length (wf_script fs) - 1 \<and>
     (wf_script fs = [] \<longrightarrow> wf_now fs' = wf_now fs \<and> wf_files fs' p = None)"
  by (auto simp: Remove_def os_call_def set_file_def split: list.splits option.splits if_splits)

text \<open>A round of the waiting loop uses up a part of the script, removes a stale lock, or sleeps.\<close>

definition lock_rounds :: "path \<Rightarrow> instant \<Rightarrow> wfs \<Rightarrow> nat" where
  "lock_rounds p deadline fs = nat (deadline - wf_now fs) + (if wf_files fs p = None then 0 else 1)"

lemma lock_round_decreases:
  assumes now: "wf_now fs < deadline" and op: "open_lock p fs = (False, fs1)" and st: "lock_stale p timeout fs1 = (b, fs2)"
    and next': "fs3 = (if b then snd (Remove p fs2) else fs2\<lparr>wf_now := wf_now fs2 + 100 * millisecond\<rparr>)"
  shows "length (wf_script fs3) < length (wf_script fs) \<or>
    length (wf_script fs3) = length (wf_script fs) \<and> lock_rounds p deadline fs3 < lock_rounds p deadline fs"
proof -
  obtain e fsr where r: "Remove p fs2 = (e, fsr)" by fastforce
  show ?thesis
  proof (cases "wf_script fs")
    case Nil
    then have 1: "fs1 = fs" "wf_files fs p \<noteq> None" using open_lock_script [OF op] by simp_all
    then have 2: "fs2 = fs" using lock_stale_script [OF st] Nil by simp
    have 3: "wf_script fsr = []" "wf_now fsr = wf_now fs" "wf_files fsr p = None" using Remove_script [OF r] 2 Nil by simp_all
    show ?thesis
    proof (cases b)
      case True
      then show ?thesis using next' r 1 3 Nil by (simp add: lock_rounds_def)
    next
      case False
      then show ?thesis using next' 1 2 now by (auto simp: lock_rounds_def millisecond_def)
    qed
  next
    case (Cons x xs)
    then have "length (wf_script fs1) < length (wf_script fs)" using open_lock_script [OF op] by simp
    moreover have "length (wf_script fs2) \<le> length (wf_script fs1)" "length (wf_script fsr) \<le> length (wf_script fs2)"
      using lock_stale_script [OF st] Remove_script [OF r] by simp_all
    ultimately show ?thesis using next' r by (cases b) simp_all
  qed
qed

function acquire_loop :: "path \<Rightarrow> WorkflowID \<Rightarrow> duration \<Rightarrow> instant \<Rightarrow> wfs \<Rightarrow> path result \<times> wfs" where
  "acquire_loop p wid timeout deadline fs =
     (if wf_now fs < deadline then
        (case open_lock p fs of
           (True, fs1) \<Rightarrow> (Inr p, fs1)
         | (False, fs1) \<Rightarrow>
             (case lock_stale p timeout fs1 of
                (True, fs2) \<Rightarrow> acquire_loop p wid timeout deadline (snd (Remove p fs2))
              | (False, fs2) \<Rightarrow> acquire_loop p wid timeout deadline (fs2\<lparr>wf_now := wf_now fs2 + 100 * millisecond\<rparr>)))
      else (Inl (ErrorNew (''timeout acquiring lock for workflow '' @ wid)), fs))"
  by pat_completeness auto
termination
proof (relation "measures [\<lambda>(p, wid, timeout, deadline, fs). length (wf_script fs),
    \<lambda>(p, wid, timeout, deadline, fs). lock_rounds p deadline fs]", goal_cases)
  case (2 p wid timeout deadline fs x fs1 y fs2)
  then show ?case using lock_round_decreases [of fs deadline p fs1 timeout True fs2] by auto
next
  case (3 p wid timeout deadline fs x fs1 y fs2)
  then show ?case using lock_round_decreases [of fs deadline p fs1 timeout False fs2] by auto
qed simp

declare acquire_loop.simps [simp del]

definition AcquireLock :: "path \<Rightarrow> WorkflowID \<Rightarrow> duration \<Rightarrow> wfs \<Rightarrow> path result \<times> wfs" where
  "AcquireLock lockDir wid timeout fs =
     (case MkdirAll lockDir fs of
        (Some e, fs1) \<Rightarrow> (Inl (wrap_err ''creating lock directory'' e), fs1)
      | (None, fs1) \<Rightarrow> acquire_loop (lock_path lockDir wid) wid timeout (wf_now fs1 + timeout) fs1)"

definition Release :: "path \<Rightarrow> wfs \<Rightarrow> go_error option \<times> wfs" where
  "Release p fs =
     (case Remove p (snd (no_effect fs)) of (Some e, fs1) \<Rightarrow> (Some (wrap_err ''releasing lock'' e), fs1) | (None, fs1) \<Rightarrow> (None, fs1))"

text \<open>The lock files of the directory in the order of their names; each is asked for its time and perhaps removed.\<close>

definition remove_stale :: "duration \<Rightarrow> path \<Rightarrow> wfs \<Rightarrow> wfs" where
  "remove_stale maxAge p fs =
     (case lock_stale p maxAge fs of (True, fs1) \<Rightarrow> snd (Remove p fs1) | (False, fs1) \<Rightarrow> fs1)"

definition CleanupStaleLocks :: "path \<Rightarrow> duration \<Rightarrow> string list \<Rightarrow> wfs \<Rightarrow> go_error option \<times> wfs" where
  "CleanupStaleLocks lockDir maxAge entries fs =
     (case os_call fs of (fault, fs1) \<Rightarrow>
        (case fault_error fault of
           Some e \<Rightarrow> (if IsNotExist e then None else Some (wrap_err ''reading lock directory'' e), fs1)
         | None \<Rightarrow>
             if lockDir \<notin> set (wf_dirs fs1) then (None, fs1)
             else (None, fold (\<lambda>name. remove_stale maxAge (lockDir @ [name])) (filter (\<lambda>name. HasSuffix name ''.lock'') entries) fs1)))"

section \<open>The manager\<close>

record ManagerConfig =
  mc_StateDir :: string
  mc_LockTimeout :: duration
  mc_MaxRetries :: int

definition DefaultManagerConfig :: ManagerConfig where
  "DefaultManagerConfig = \<lparr>mc_StateDir = ''state'', mc_LockTimeout = 30 * second, mc_MaxRetries = 3\<rparr>"

definition workflowsDir :: "ManagerConfig \<Rightarrow> path" where
  "workflowsDir m = [mc_StateDir m, ''workflows'']"

definition checkpointPath :: "ManagerConfig \<Rightarrow> WorkflowID \<Rightarrow> path" where
  "checkpointPath m wid = workflowsDir m @ [wid, ''checkpoint.json'']"

definition journalPath :: "ManagerConfig \<Rightarrow> WorkflowID \<Rightarrow> path" where
  "journalPath m wid = workflowsDir m @ [wid @ ''.journal'']"

definition locksDir :: "ManagerConfig \<Rightarrow> path" where
  "locksDir m = [mc_StateDir m, ''locks'']"

fun make_dirs :: "path list \<Rightarrow> wfs \<Rightarrow> go_error option \<times> wfs" where
  "make_dirs [] fs = (None, fs)"
| "make_dirs (d # ds) fs =
     (case MkdirAll d fs of
        (Some e, fs1) \<Rightarrow> (Some (wrap_err (''creating directory '' @ path_text d) e), fs1)
      | (None, fs1) \<Rightarrow> make_dirs ds fs1)"

definition Init :: "ManagerConfig \<Rightarrow> wfs \<Rightarrow> go_error option \<times> wfs" where
  "Init m = make_dirs [[mc_StateDir m], workflowsDir m, locksDir m, [mc_StateDir m, ''archived'']]"

definition stamped :: "instant \<Rightarrow> WorkflowState \<Rightarrow> WorkflowState" where
  "stamped now st = st\<lparr>ws_UpdatedAt := now, ws_Version := wrap64 (ws_Version st + 1)\<rparr>"

text \<open>The state is updated in place, also when a later step fails; so it is part of the result.\<close>

definition save_locked :: "wf_codec \<Rightarrow> ManagerConfig \<Rightarrow> WorkflowState \<Rightarrow> wfs \<Rightarrow> go_error option \<times> wfs" where
  "save_locked codec m st fs =
     (case WriteFileJSON (wc_enc codec) (checkpointPath m (ws_ID st)) st fs of
        (Some e, fs1) \<Rightarrow> (Some (wrap_err ''writing checkpoint'' e), fs1)
      | (None, fs1) \<Rightarrow> (None, snd (Truncate (journalPath m (ws_ID st)) fs1)))"

definition SaveCheckpoint :: "wf_codec \<Rightarrow> ManagerConfig \<Rightarrow> WorkflowState \<Rightarrow> wfs \<Rightarrow> (go_error option \<times> WorkflowState) \<times> wfs" where
  "SaveCheckpoint codec m st fs =
     (case AcquireLock (locksDir m) (ws_ID st) (mc_LockTimeout m) fs of
        (Inl e, fs1) \<Rightarrow> ((Some (wrap_err ''acquiring lock'' e), st), fs1)
      | (Inr lock, fs1) \<Rightarrow>
          (let st' = stamped (wf_now fs1) st in
           case save_locked codec m st' fs1 of (res, fs2) \<Rightarrow> ((res, st'), snd (Release lock fs2))))"

definition CreateWorkflow :: "wf_codec \<Rightarrow> ManagerConfig \<Rightarrow> WorkflowID \<Rightarrow> string \<Rightarrow> wfs \<Rightarrow> WorkflowState result \<times> wfs" where
  "CreateWorkflow codec m wid initialData fs =
     (case SaveCheckpoint codec m
             \<lparr>ws_ID = wid, ws_Status = StatusPending, ws_Version = 1, ws_CreatedAt = wf_now fs, ws_UpdatedAt = wf_now fs,
              ws_Data = initialData\<rparr> fs of
        ((Some e, st), fs1) \<Rightarrow> (Inl (wrap_err ''saving initial checkpoint'' e), fs1)
      | ((None, st), fs1) \<Rightarrow> (Inr st, fs1))"

definition LoadWorkflow :: "wf_codec \<Rightarrow> ManagerConfig \<Rightarrow> WorkflowID \<Rightarrow> wfs \<Rightarrow> WorkflowState result \<times> wfs" where
  "LoadWorkflow codec m wid fs =
     (case ReadFileJSON codec (checkpointPath m wid) fs of
        (Inl e, fs1) \<Rightarrow>
          if IsNotExist e then (Inl (ErrorNew (''workflow '' @ wid @ '' not found'')), fs1)
          else (Inl (wrap_err ''reading checkpoint'' e), fs1)
      | (Inr st, fs1) \<Rightarrow> (Inr st, fs1))"

definition LoadWithRecovery :: "wf_codec \<Rightarrow> ManagerConfig \<Rightarrow> WorkflowID \<Rightarrow> wfs \<Rightarrow> WorkflowState result \<times> wfs" where
  "LoadWithRecovery codec m wid fs =
     (case LoadWorkflow codec m wid fs of
        (Inl e, fs1) \<Rightarrow> (Inl e, fs1)
      | (Inr st, fs1) \<Rightarrow>
          (case os_stat (journalPath m wid) fs1 of
             (Inl _, fs2) \<Rightarrow> (Inr st, fs2)
           | (Inr _, fs2) \<Rightarrow>
               (case RecoverWorkflow codec (workflowsDir m) wid st fs2 of
                  (Inl e, fs3) \<Rightarrow> (Inl (wrap_err ''recovery failed'' e), fs3)
                | (Inr st', fs3) \<Rightarrow> (Inr st', fs3))))"

definition status_entry :: "instant \<Rightarrow> WorkflowStatus \<Rightarrow> JournalEntry" where
  "status_entry now status =
     \<lparr>je_Timestamp = now, je_Operation = ''status_change'',
      je_Payload = [CHR 0x7B, CHR 0x22] @ ''status'' @ [CHR 0x22] @ '': '' @ Quote status @ [CHR 0x7D]\<rparr>"

definition UpdateStatus :: "wf_codec \<Rightarrow> ManagerConfig \<Rightarrow> WorkflowID \<Rightarrow> WorkflowStatus \<Rightarrow> wfs \<Rightarrow> go_error option \<times> wfs" where
  "UpdateStatus codec m wid status fs =
     (case OpenJournal (workflowsDir m) wid fs of
        (Inl e, fs1) \<Rightarrow> (Some (wrap_err ''opening journal'' e), fs1)
      | (Inr journal, fs1) \<Rightarrow>
          (case Append codec journal (status_entry (wf_now fs1) status) fs1 of
             (Some e, fs2) \<Rightarrow> (Some (wrap_err ''appending to journal'' e), snd (no_effect fs2))
           | (None, fs2) \<Rightarrow> (None, snd (no_effect fs2))))"

definition remove_tree :: "path \<Rightarrow> wfs \<Rightarrow> wfs" where
  "remove_tree p fs =
     fs\<lparr>wf_files := (\<lambda>q. if take (length p) q = p then None else wf_files fs q),
        wf_dirs := filter (\<lambda>q. take (length p) q \<noteq> p) (wf_dirs fs)\<rparr>"

definition archivePath :: "ManagerConfig \<Rightarrow> WorkflowID \<Rightarrow> path" where
  "archivePath m wid = [mc_StateDir m, ''archived'', wid @ ''.json'']"

definition archive_locked :: "wf_codec \<Rightarrow> ManagerConfig \<Rightarrow> WorkflowID \<Rightarrow> wfs \<Rightarrow> go_error option \<times> wfs" where
  "archive_locked codec m wid fs =
     (case LoadWithRecovery codec m wid fs of
        (Inl e, fs1) \<Rightarrow> (Some (wrap_err ''loading workflow for archive'' e), fs1)
      | (Inr finalState, fs1) \<Rightarrow>
          (case WriteFileJSON (wc_enc codec) (archivePath m wid) finalState fs1 of
             (Some e, fs2) \<Rightarrow> (Some (wrap_err ''writing workflow archive'' e), fs2)
           | (None, fs2) \<Rightarrow>
               (None, snd (os_do (remove_tree (workflowsDir m @ [wid])) (snd (Remove (journalPath m wid) fs2))))))"

definition Archive :: "wf_codec \<Rightarrow> ManagerConfig \<Rightarrow> WorkflowID \<Rightarrow> wfs \<Rightarrow> go_error option \<times> wfs" where
  "Archive codec m wid fs =
     (case AcquireLock (locksDir m) wid (mc_LockTimeout m) fs of
        (Inl e, fs1) \<Rightarrow> (Some (wrap_err ''acquiring lock'' e), fs1)
      | (Inr lock, fs1) \<Rightarrow>
          (case archive_locked codec m wid fs1 of (res, fs2) \<Rightarrow> (res, snd (Release lock fs2))))"

definition ListActive :: "ManagerConfig \<Rightarrow> wfs \<Rightarrow> WorkflowID list result \<times> wfs" where
  "ListActive m fs =
     (case os_call fs of (fault, fs1) \<Rightarrow>
        (case fault_error fault of
           Some e \<Rightarrow> if IsNotExist e then (Inr [], fs1) else (Inl (wrap_err ''reading workflows directory'' e), fs1)
         | None \<Rightarrow>
             if workflowsDir m \<notin> set (wf_dirs fs1) then (Inr [], fs1)
             else (Inr (sort (map last (filter (\<lambda>d. length d = 3 \<and> take 2 d = workflowsDir m) (wf_dirs fs1)))), fs1)))"

section \<open>The hooks of subagent workflows\<close>

definition OnWorkflowStart :: "wf_codec \<Rightarrow> ManagerConfig \<Rightarrow> WorkflowID \<Rightarrow> string \<Rightarrow> wfs \<Rightarrow> WorkflowState result \<times> wfs" where
  "OnWorkflowStart codec m wid data fs =
     (case CreateWorkflow codec m wid data fs of
        (Inl e, fs1) \<Rightarrow> (Inl (wrap_err ''creating workflow state'' e), fs1)
      | (Inr st, fs1) \<Rightarrow>
          (case UpdateStatus codec m wid StatusRunning fs1 of
             (Some e, fs2) \<Rightarrow> (Inl (wrap_err ''updating status'' e), fs2)
           | (None, fs2) \<Rightarrow> (Inr st, fs2)))"

definition OnStepComplete :: "wf_codec \<Rightarrow> ManagerConfig \<Rightarrow> WorkflowID \<Rightarrow> string \<Rightarrow> wfs \<Rightarrow> go_error option \<times> wfs" where
  "OnStepComplete codec m wid stepData fs =
     (case LoadWithRecovery codec m wid fs of
        (Inl e, fs1) \<Rightarrow> (Some (wrap_err ''loading workflow'' e), fs1)
      | (Inr st, fs1) \<Rightarrow>
          (case SaveCheckpoint codec m (st\<lparr>ws_Data := stepData, ws_UpdatedAt := wf_now fs1\<rparr>) fs1 of
             ((Some e, _), fs2) \<Rightarrow> (Some (wrap_err ''saving checkpoint'' e), fs2)
           | ((None, _), fs2) \<Rightarrow> (None, fs2)))"

definition OnWorkflowComplete :: "wf_codec \<Rightarrow> ManagerConfig \<Rightarrow> WorkflowID \<Rightarrow> bool \<Rightarrow> wfs \<Rightarrow> go_error option \<times> wfs" where
  "OnWorkflowComplete codec m wid success fs =
     (case UpdateStatus codec m wid (if success then StatusCompleted else StatusFailed) fs of
        (Some e, fs1) \<Rightarrow> (Some (wrap_err ''updating final status'' e), fs1)
      | (None, fs1) \<Rightarrow>
          (case Archive codec m wid fs1 of
             (Some e, fs2) \<Rightarrow> (Some (wrap_err ''archiving workflow'' e), fs2)
           | (None, fs2) \<Rightarrow> (None, fs2)))"

definition hook_RecoverWorkflow :: "wf_codec \<Rightarrow> ManagerConfig \<Rightarrow> WorkflowID \<Rightarrow> wfs \<Rightarrow> WorkflowState result \<times> wfs" where
  "hook_RecoverWorkflow codec m wid fs =
     (case LoadWithRecovery codec m wid fs of
        (Inl e, fs1) \<Rightarrow> (Inl (wrap_err ''recovering workflow'' e), fs1)
      | (Inr st, fs1) \<Rightarrow>
          if ws_Status st = StatusRunning then
            (case SaveCheckpoint codec m (st\<lparr>ws_Status := StatusFailed\<rparr>) fs1 of
               ((Some e, _), fs2) \<Rightarrow> (Inl (wrap_err ''saving recovered state'' e), fs2)
             | ((None, st'), fs2) \<Rightarrow> (Inr st', fs2))
          else (Inr st, fs1))"

section \<open>Page constraints\<close>

record PageConstraintSignal =
  pcs_SessionKey :: string
  pcs_Classification :: string
  pcs_LastBlockingSignal :: string
  pcs_ObservedAt :: instant

definition safeSessionKey :: "string \<Rightarrow> string" where
  "safeSessionKey key = map (\<lambda>c. if c \<in> {CHR ''/'', CHR 0x5C, CHR '':'', CHR '' ''} then CHR ''_'' else c) key"

definition SavePageConstraintSignal ::
    "(PageConstraintSignal \<Rightarrow> string result) \<Rightarrow> string \<Rightarrow> string \<Rightarrow> string \<Rightarrow> string \<Rightarrow> wfs \<Rightarrow> go_error option \<times> wfs" where
  "SavePageConstraintSignal enc storageRoot sessionKey classification lastSignal fs =
     (if TrimSpace storageRoot = [] then (Some (ErrorNew ''save page constraint: storage root is required''), fs)
      else if TrimSpace sessionKey = [] then (Some (ErrorNew ''save page constraint: session key is required''), fs)
      else
        (let payload = \<lparr>pcs_SessionKey = sessionKey, pcs_Classification = TrimSpace classification,
             pcs_LastBlockingSignal = TrimSpace lastSignal, pcs_ObservedAt = wf_now fs\<rparr>;
             p = [storageRoot, ''state'', ''page_constraints'', safeSessionKey sessionKey @ ''.json''] in
         case WriteFileJSON enc p payload fs of
           (Some e, fs1) \<Rightarrow> (Some (wrap_err ''save page constraint'' e), fs1)
         | (None, fs1) \<Rightarrow> (None, fs1)))"

end
