(* ===== verification/Workflow_Laws.thy ===== *)
theory Workflow_Laws
  imports Workflow
begin

text \<open>
  What survives on disk: a checkpoint is replaced whole or not at all, a reported status change is found
  again by recovery, and a journal that could not be removed is replayed over a newer checkpoint.
\<close>

section \<open>Which files change\<close>

definition keeps :: "(wfs \<Rightarrow> 'a \<times> wfs) \<Rightarrow> path \<Rightarrow> bool" where
  "keeps op q \<longleftrightarrow> (\<forall>fs. wf_files (snd (op fs)) q = wf_files fs q)"

named_theorems keeps_rules

lemma keepsD: "keeps op q \<Longrightarrow> op fs = (res, fs') \<Longrightarrow> wf_files fs' q = wf_files fs q"
  by (metis keeps_def snd_conv)

lemma os_call_files: "os_call fs = (f, fs') \<Longrightarrow> wf_files fs' = wf_files fs \<and> wf_temps fs' = wf_temps fs"
  by (auto simp: os_call_def split: list.splits)

lemma os_call_keeps: "wf_files (snd (os_call fs)) q = wf_files fs q"
  by (simp add: os_call_def split: list.splits)

lemma os_do_keeps:
  assumes "\<And>fs. wf_files (f fs) q = wf_files fs q"
  shows "keeps (os_do f) q"
  unfolding keeps_def
proof
  fix fs
  obtain ft fs1 where c: "os_call fs = (ft, fs1)" by fastforce
  then show "wf_files (snd (os_do f fs)) q = wf_files fs q"
    using assms os_call_files [OF c] by (simp add: os_do_def split: option.splits)
qed

lemma keeps_no_effect [keeps_rules]: "keeps no_effect q"
  unfolding no_effect_def by (rule os_do_keeps) simp

lemma keeps_MkdirAll [keeps_rules]: "keeps (MkdirAll dir) q"
  unfolding MkdirAll_def by (rule os_do_keeps) simp

lemma keeps_Remove [keeps_rules]:
  assumes "q \<noteq> p"
  shows "keeps (Remove p) q"
  unfolding keeps_def
proof
  fix fs
  obtain ft fs1 where c: "os_call fs = (ft, fs1)" by fastforce
  then show "wf_files (snd (Remove p fs)) q = wf_files fs q"
    using assms os_call_files [OF c] by (simp add: Remove_def set_file_def split: option.splits)
qed

lemma keeps_os_write [keeps_rules]:
  assumes "q \<noteq> p"
  shows "keeps (os_write p data) q"
  unfolding keeps_def
proof
  fix fs
  obtain ft fs1 where c: "os_call fs = (ft, fs1)" by fastforce
  then show "wf_files (snd (os_write p data fs)) q = wf_files fs q"
    using assms os_call_files [OF c] by (auto simp: os_write_def append_file_def set_file_def split: os_fault.splits option.splits)
qed

lemma keeps_reads [keeps_rules]: "keeps (os_read p) q" "keeps (os_stat p) q" "keeps (lock_stale p t) q"
proof -
  have 1: "snd (os_read p fs) = snd (os_call fs)" "snd (os_stat p fs) = snd (os_call fs)" for fs
    by (auto simp: os_read_def os_stat_def split: prod.splits option.splits)
  moreover have "snd (lock_stale p t fs) = snd (os_stat p fs)" for fs
    by (auto simp: lock_stale_def split: prod.splits sum.splits)
  ultimately show "keeps (os_read p) q" "keeps (os_stat p) q" "keeps (lock_stale p t) q"
    by (simp_all add: keeps_def os_call_keeps)
qed

lemma keeps_open_lock [keeps_rules]:
  assumes "q \<noteq> p"
  shows "keeps (open_lock p) q"
  unfolding keeps_def
proof
  fix fs
  obtain ft fs1 where c: "os_call fs = (ft, fs1)" by fastforce
  then show "wf_files (snd (open_lock p fs)) q = wf_files fs q"
    using assms os_call_files [OF c] by (simp add: open_lock_def set_file_def)
qed

lemma acquire_loop_keeps:
  assumes "q \<noteq> p"
  shows "wf_files (snd (acquire_loop p wid timeout deadline fs)) q = wf_files fs q"
  using assms
proof (induction p wid timeout deadline fs rule: acquire_loop.induct)
  case (1 p wid timeout deadline fs)
  obtain b fs1 where o: "open_lock p fs = (b, fs1)" by fastforce
  obtain c fs2 where s: "lock_stale p timeout fs1 = (c, fs2)" by fastforce
  have f: "wf_files fs1 q = wf_files fs q" "wf_files fs2 q = wf_files fs1 q" "wf_files (snd (Remove p fs2)) q = wf_files fs2 q"
    using keepsD [OF keeps_open_lock o] keepsD [OF keeps_reads(3) s] keeps_Remove [of q p] 1(3) by (simp_all add: keeps_def)
  show ?case
  proof (cases "wf_now fs < deadline \<and> \<not> b")
    case False
    then show ?thesis using o f by (subst acquire_loop.simps) (auto split: bool.splits)
  next
    case True
    then have n: "wf_now fs < deadline" "\<not> b" by simp_all
    show ?thesis
    proof (cases c)
      case True
      have "wf_files (snd (acquire_loop p wid timeout deadline (snd (Remove p fs2)))) q = wf_files (snd (Remove p fs2)) q"
        using "1.IH"(1) [of b fs1 c fs2] o s n True 1(3) by simp
      then show ?thesis using o s f n True by (subst acquire_loop.simps) simp
    next
      case False
      have "wf_files (snd (acquire_loop p wid timeout deadline (fs2\<lparr>wf_now := wf_now fs2 + 100 * millisecond\<rparr>))) q = wf_files fs2 q"
        using "1.IH"(2) [of b fs1 c fs2] o s n False 1(3) by simp
      then show ?thesis using o s f n False by (subst acquire_loop.simps) simp
    qed
  qed
qed

lemma AcquireLock_keeps:
  assumes "q \<noteq> lock_path lockDir wid" "AcquireLock lockDir wid timeout fs = (res, fs')"
  shows "wf_files fs' q = wf_files fs q"
proof -
  obtain e fs1 where d: "MkdirAll lockDir fs = (e, fs1)" by fastforce
  note f = keepsD [OF keeps_MkdirAll d]
  show ?thesis
    using assms(2) d f [of q] acquire_loop_keeps [OF assms(1), of wid timeout "wf_now fs1 + timeout" fs1]
    by (cases e) (auto simp: AcquireLock_def)
qed

lemma acquire_loop_path:
  "acquire_loop p wid timeout deadline fs = (Inr l, fs') \<Longrightarrow> l = p"
proof (induction p wid timeout deadline fs rule: acquire_loop.induct)
  case (1 p wid timeout deadline fs)
  obtain b fs1 where o: "open_lock p fs = (b, fs1)" by fastforce
  obtain c fs2 where s: "lock_stale p timeout fs1 = (c, fs2)" by fastforce
  show ?case
    using 1(3) o s "1.IH"(1) [of b fs1 c fs2] "1.IH"(2) [of b fs1 c fs2]
    by (subst (asm) acquire_loop.simps) (auto split: if_splits bool.splits)
qed

lemma AcquireLock_path:
  assumes "AcquireLock lockDir wid timeout fs = (Inr l, fs')"
  shows "l = lock_path lockDir wid"
proof -
  obtain e fs1 where d: "MkdirAll lockDir fs = (e, fs1)" by fastforce
  then show ?thesis using assms acquire_loop_path by (cases e) (auto simp: AcquireLock_def)
qed

lemma Release_keeps:
  assumes "q \<noteq> p"
  shows "wf_files (snd (Release p fs)) q = wf_files fs q"
proof -
  have "snd (Release p fs) = snd (Remove p (snd (no_effect fs)))" by (simp add: Release_def split: prod.splits option.splits)
  then show ?thesis using keeps_Remove [OF assms] keeps_no_effect by (simp add: keeps_def)
qed

section \<open>Atomic writes\<close>

lemma temp_steps_no_effect:
  assumes "temp_steps ((msg, no_effect) # ops) fs = (res, fs')"
  obtains (failed) "res \<noteq> None" "wf_files fs' = wf_files fs"
  | (next_step) fs1 where "wf_files fs1 = wf_files fs" "temp_steps ops fs1 = (res, fs')"
proof -
  obtain e fs1 where n: "no_effect fs = (e, fs1)" by fastforce
  have "wf_files fs1 = wf_files fs" using keepsD [OF keeps_no_effect n] by (intro ext)
  then show ?thesis using assms n that by (cases e) auto
qed

text \<open>Writing, protecting, syncing, closing and renaming a new file.\<close>

lemma temp_steps_atomic:
  assumes tmp: "wf_files fs tmp = Some (t, [])" "tmp \<noteq> p"
    and run: "temp_steps [(m1, os_write tmp data), (m2, no_effect), (m3, no_effect), (m4, no_effect), (m5, Rename tmp p)] fs = (res, fs')"
  shows "(res \<noteq> None \<and> wf_files fs' p = wf_files fs p) \<or> (res = None \<and> (\<exists>t. wf_files fs' p = Some (t, data)))"
    and "q \<noteq> p \<Longrightarrow> q \<noteq> tmp \<Longrightarrow> wf_files fs' q = wf_files fs q"
proof -
  obtain e fsa where w: "os_write tmp data fs = (e, fsa)" by fastforce
  have k: "wf_files fsa q = wf_files fs q" if "q \<noteq> tmp" for q using keepsD [OF keeps_os_write [OF that] w] .
  have same: "(res \<noteq> None \<and> wf_files fs' p = wf_files fs p \<or> res = None \<and> (\<exists>t. wf_files fs' p = Some (t, data))) \<and>
      (\<forall>q. q \<noteq> p \<longrightarrow> q \<noteq> tmp \<longrightarrow> wf_files fs' q = wf_files fs q)"
  proof (cases e)
    case (Some er)
    then have "res \<noteq> None" "fs' = fsa" using run w by auto
    then show ?thesis using k tmp(2) by simp
  next
    case None
    have wrote: "\<exists>t. wf_files fsa tmp = Some (t, data)"
      using w tmp None os_call_files by (auto simp: os_write_def append_file_def set_file_def split: prod.splits os_fault.splits option.splits)
    have r2: "temp_steps [(m2, no_effect), (m3, no_effect), (m4, no_effect), (m5, Rename tmp p)] fsa = (res, fs')" using run w None by simp
    have stop: ?thesis if "res \<noteq> None" "wf_files fs' = wf_files fsa" using that k tmp(2) by simp
    from r2 show ?thesis
    proof (cases rule: temp_steps_no_effect)
      case (next_step fsb)
      note f2 = next_step(1)
      from next_step(2) show ?thesis
      proof (cases rule: temp_steps_no_effect)
        case (next_step fsc)
        note f3 = next_step(1)
        from next_step(2) show ?thesis
        proof (cases rule: temp_steps_no_effect)
          case (next_step fsd)
          obtain ft fse where c: "os_call fsd = (ft, fse)" by fastforce
          have fe: "wf_files fse = wf_files fsa" using os_call_files [OF c] next_step(1) f2 f3 by simp
          show ?thesis
          proof (cases "fault_error ft")
            case (Some er)
            then have "res \<noteq> None" "fs' = fse" using next_step(2) c by (auto simp: Rename_def os_do_def)
            then show ?thesis using stop fe by simp
          next
            case None
            then have "res = None" "fs' = set_file tmp None (set_file p (wf_files fse tmp) fse)"
              using next_step(2) c by (auto simp: Rename_def os_do_def)
            then show ?thesis using wrote fe tmp(2) k by (auto simp: set_file_def)
          qed
        qed (use stop f2 f3 in simp)
      qed (use stop f2 in simp)
    qed (use stop in simp)
  qed
  show "(res \<noteq> None \<and> wf_files fs' p = wf_files fs p) \<or> (res = None \<and> (\<exists>t. wf_files fs' p = Some (t, data)))" using same by blast
  show "q \<noteq> p \<Longrightarrow> q \<noteq> tmp \<Longrightarrow> wf_files fs' q = wf_files fs q" using same by blast
qed

lemma CreateTemp_result:
  assumes "CreateTemp dir fs = (res, fs')"
  shows "(\<exists>e. res = Inl e \<and> wf_files fs' = wf_files fs) \<or>
    (\<exists>t n. res = Inr (temp_path dir n) \<and> wf_files fs' = (wf_files fs)(temp_path dir n := Some (t, [])))"
proof -
  obtain ft fs1 where c: "os_call fs = (ft, fs1)" by fastforce
  show ?thesis
  proof (cases "fault_error ft")
    case None
    then have "res = Inr (temp_path dir (wf_temps fs))"
        "wf_files fs' = (wf_files fs)(temp_path dir (wf_temps fs) := Some (wf_now fs1, []))"
      using assms c os_call_files [OF c] by (auto simp: CreateTemp_def Let_def os_do_def set_file_def)
    then show ?thesis by metis
  qed (use assms c os_call_files [OF c] in \<open>auto simp: CreateTemp_def Let_def os_do_def\<close>)
qed

text \<open>The files that are not temporary files of the directory of \<open>p\<close>.\<close>

definition no_temp_of :: "path \<Rightarrow> path \<Rightarrow> bool" where
  "no_temp_of p q \<longleftrightarrow> (\<forall>n. q \<noteq> temp_path (butlast p) n)"

lemma WriteFileAtomic_atomic:
  assumes run: "WriteFileAtomic p data fs = (res, fs')" and nt: "no_temp_of p p"
  shows "(res \<noteq> None \<and> wf_files fs' p = wf_files fs p) \<or> (res = None \<and> (\<exists>t. wf_files fs' p = Some (t, data)))"
    and "q \<noteq> p \<Longrightarrow> no_temp_of p q \<Longrightarrow> wf_files fs' q = wf_files fs q"
proof -
  obtain e fs1 where d: "MkdirAll (butlast p) fs = (e, fs1)" by fastforce
  have f1: "wf_files fs1 = wf_files fs" using keepsD [OF keeps_MkdirAll d] by (intro ext)
  obtain r fs2 where c: "CreateTemp (butlast p) fs1 = (r, fs2)" by fastforce
  have both: "((res \<noteq> None \<and> wf_files fs' p = wf_files fs p) \<or> (res = None \<and> (\<exists>t. wf_files fs' p = Some (t, data)))) \<and>
      (q \<noteq> p \<longrightarrow> no_temp_of p q \<longrightarrow> wf_files fs' q = wf_files fs q)"
  proof (cases e)
    case (Some er)
    then show ?thesis using run d f1 by (auto simp: WriteFileAtomic_def)
  next
    case e: None
    show ?thesis
    proof (cases r)
      case (Inl er)
      then show ?thesis using run d e c f1 CreateTemp_result [OF c] by (auto simp: WriteFileAtomic_def)
    next
      case (Inr tmp)
      obtain t n where tmp: "tmp = temp_path (butlast p) n" "wf_files fs2 = (wf_files fs1)(tmp := Some (t, []))"
        using CreateTemp_result [OF c] Inr by auto
      obtain rs fs3 where s: "temp_steps
          [(''writing to temp file'', os_write tmp data), (''setting file permissions'', no_effect),
           (''syncing temp file'', no_effect), (''closing temp file'', no_effect),
           (''renaming temp file'', Rename tmp p)] fs2 = (rs, fs3)" by fastforce
      have ne: "tmp \<noteq> p" "no_temp_of p q \<Longrightarrow> q \<noteq> tmp" using nt tmp(1) unfolding no_temp_of_def by metis+
      have at_tmp: "wf_files fs2 tmp = Some (t, [])" using tmp(2) by simp
      have r: "res = rs" "fs' = snd (Remove tmp fs3)" using run d e c Inr s by (auto simp: WriteFileAtomic_def)
      have k: "wf_files fs' q = wf_files fs3 q" if "q \<noteq> tmp" for q
        using keeps_Remove [OF that] r(2) by (simp add: keeps_def)
      show ?thesis
        using temp_steps_atomic(1) [OF at_tmp ne(1) s] temp_steps_atomic(2) [OF at_tmp ne(1) s] k ne tmp(2) f1 r(1) by auto
    qed
  qed
  show "(res \<noteq> None \<and> wf_files fs' p = wf_files fs p) \<or> (res = None \<and> (\<exists>t. wf_files fs' p = Some (t, data)))" using both by blast
  show "q \<noteq> p \<Longrightarrow> no_temp_of p q \<Longrightarrow> wf_files fs' q = wf_files fs q" using both by blast
qed

section \<open>The state on disk\<close>

text \<open>What a reload without faults returns.\<close>

definition durable :: "wf_codec \<Rightarrow> ManagerConfig \<Rightarrow> WorkflowID \<Rightarrow> wfs \<Rightarrow> WorkflowState result" where
  "durable codec m wid fs = fst (LoadWithRecovery codec m wid (fs\<lparr>wf_script := []\<rparr>))"

lemma quiet_calls:
  assumes "wf_script fs = []"
  shows "os_call fs = (NoFault, fs)"
  using assms by (simp add: os_call_def)

lemma quiet_Load:
  assumes "wf_script fs = []"
  shows "LoadWorkflow codec m wid fs = (fst (LoadWorkflow codec m wid fs), fs)"
  using quiet_calls [OF assms] by (auto simp: LoadWorkflow_def ReadFileJSON_def os_read_def split: option.splits sum.splits)

lemma durable_eq:
  "durable codec m wid fs =
     (case fst (LoadWorkflow codec m wid (fs\<lparr>wf_script := []\<rparr>)) of
        Inl e \<Rightarrow> Inl e
      | Inr st \<Rightarrow>
          (case wf_files fs (journalPath m wid) of
             None \<Rightarrow> Inr st
           | Some (t, data) \<Rightarrow>
               (case replay_lines codec (journalPath m wid) 0 (raw_lines data) of
                  Inl e \<Rightarrow> Inl (wrap_err ''recovery failed'' (wrap_err ''replaying journal'' e))
                | Inr entries \<Rightarrow>
                    (case apply_entries codec entries st of
                       Inl e \<Rightarrow> Inl (wrap_err ''recovery failed'' e)
                     | Inr x \<Rightarrow> Inr x))))"
proof -
  let ?q = "fs\<lparr>wf_script := []\<rparr>"
  have q: "os_call ?q = (NoFault, ?q)" by (rule quiet_calls) simp
  obtain r where l: "LoadWorkflow codec m wid ?q = (r, ?q)" using quiet_Load [of ?q] by fastforce
  show ?thesis
    using q l
    by (auto simp: durable_def LoadWithRecovery_def os_stat_def RecoverWorkflow_def Replay_def os_do_def journalPath_def
        split: sum.splits option.splits)
qed

lemma quiet_Load_eq:
  "fst (LoadWorkflow codec m wid (fs\<lparr>wf_script := []\<rparr>)) =
     (case wf_files fs (checkpointPath m wid) of
        None \<Rightarrow> fst (LoadWorkflow codec m wid (fs\<lparr>wf_script := []\<rparr>))
      | Some (t, data) \<Rightarrow>
          (case wc_dec codec data of
             Inl e \<Rightarrow> fst (LoadWorkflow codec m wid (fs\<lparr>wf_script := []\<rparr>))
           | Inr st \<Rightarrow> Inr st))"
  using quiet_calls [of "fs\<lparr>wf_script := []\<rparr>"]
  by (auto simp: LoadWorkflow_def ReadFileJSON_def os_read_def split: option.splits sum.splits)

definition same_workflow :: "ManagerConfig \<Rightarrow> WorkflowID \<Rightarrow> wfs \<Rightarrow> wfs \<Rightarrow> bool" where
  "same_workflow m wid fs fs' \<longleftrightarrow>
     wf_files fs' (checkpointPath m wid) = wf_files fs (checkpointPath m wid) \<and>
     wf_files fs' (journalPath m wid) = wf_files fs (journalPath m wid)"


lemma workflow_paths [simp]:
  "checkpointPath m wid \<noteq> journalPath m wid'" "journalPath m wid' \<noteq> checkpointPath m wid"
  "checkpointPath m wid \<noteq> lock_path (locksDir m) wid'" "journalPath m wid \<noteq> lock_path (locksDir m) wid'"
  "checkpointPath m wid = checkpointPath m wid' \<longleftrightarrow> wid = wid'" "journalPath m wid = journalPath m wid' \<longleftrightarrow> wid = wid'"
  "no_temp_of (checkpointPath m wid) (checkpointPath m wid')" "no_temp_of (checkpointPath m wid) (journalPath m wid')"
  by (simp_all add: checkpointPath_def journalPath_def lock_path_def locksDir_def workflowsDir_def no_temp_of_def temp_path_def)

lemma Truncate_files:
  "wf_files (snd (Truncate p fs)) q = wf_files fs q \<or> q = p \<and> wf_files (snd (Truncate p fs)) q = None"
proof -
  obtain ft fsa where c: "os_call fs = (ft, fsa)" by fastforce
  show ?thesis using c os_call_files [OF c] by (auto simp: Truncate_def Remove_def set_file_def split: option.splits)
qed

text \<open>Saving replaces the checkpoint whole and perhaps removes the journal, or changes neither.\<close>

lemma save_locked_cases:
  assumes run: "save_locked codec m st fs = (res, fs')"
  obtains (failed) e where "res = Some e" "\<And>wid. same_workflow m wid fs fs'"
  | (saved) d t where "res = None" "wc_enc codec st = Inr d" "\<And>wid. wid \<noteq> ws_ID st \<Longrightarrow> same_workflow m wid fs fs'"
      "wf_files fs' (checkpointPath m (ws_ID st)) = Some (t, d @ [CHR 0x0A])"
      "wf_files fs' (journalPath m (ws_ID st)) = None \<or> wf_files fs' (journalPath m (ws_ID st)) = wf_files fs (journalPath m (ws_ID st))"
proof (cases "wc_enc codec st")
  case (Inl e)
  then show ?thesis using run failed by (auto simp: save_locked_def WriteFileJSON_def same_workflow_def)
next
  case (Inr d)
  let ?c = "checkpointPath m (ws_ID st)" and ?j = "journalPath m (ws_ID st)"
  obtain r fs1 where w: "WriteFileAtomic ?c (d @ [CHR 0x0A]) fs = (r, fs1)" by fastforce
  note atomic = WriteFileAtomic_atomic(1) [OF w] and others = WriteFileAtomic_atomic(2) [OF w]
  show ?thesis
  proof (cases r)
    case (Some e)
    then have "wf_files fs1 (checkpointPath m wid) = wf_files fs (checkpointPath m wid)" for wid
      using atomic others by (cases "wid = ws_ID st") auto
    then have "same_workflow m wid fs fs1" for wid using others by (simp add: same_workflow_def)
    then show ?thesis using run Inr w Some failed by (auto simp: save_locked_def WriteFileJSON_def)
  next
    case None
    then have fs': "res = None" "fs' = snd (Truncate ?j fs1)" using run Inr w by (simp_all add: save_locked_def WriteFileJSON_def)
    have "wf_files fs' ?c = wf_files fs1 ?c" using Truncate_files [of ?j fs1 ?c] fs'(2) by simp
    then obtain t where "wf_files fs' ?c = Some (t, d @ [CHR 0x0A])" using atomic None by auto
    moreover have "same_workflow m wid fs fs'" if "wid \<noteq> ws_ID st" for wid
      using that Truncate_files [of ?j fs1 "checkpointPath m wid"] Truncate_files [of ?j fs1 "journalPath m wid"]
        others fs'(2) by (auto simp: same_workflow_def)
    moreover have "wf_files fs' ?j = None \<or> wf_files fs' ?j = wf_files fs ?j"
      using Truncate_files [of ?j fs1 ?j] others fs'(2) by auto
    ultimately show ?thesis using saved Inr fs'(1) by blast
  qed
qed

lemma SaveCheckpoint_cases:
  assumes run: "SaveCheckpoint codec m st fs = ((res, st'), fs')"
  obtains (failed) e where "res = Some e" "\<And>wid. same_workflow m wid fs fs'"
  | (saved) d t now where "res = None" "st' = stamped now st" "wc_enc codec st' = Inr d" "\<And>wid. wid \<noteq> ws_ID st \<Longrightarrow> same_workflow m wid fs fs'"
      "wf_files fs' (checkpointPath m (ws_ID st)) = Some (t, d @ [CHR 0x0A])"
      "wf_files fs' (journalPath m (ws_ID st)) = None \<or> wf_files fs' (journalPath m (ws_ID st)) = wf_files fs (journalPath m (ws_ID st))"
proof -
  obtain l fs1 where a: "AcquireLock (locksDir m) (ws_ID st) (mc_LockTimeout m) fs = (l, fs1)" by fastforce
  have k1: "wf_files fs1 q = wf_files fs q" if "q \<noteq> lock_path (locksDir m) (ws_ID st)" for q using AcquireLock_keeps [OF that a] .
  show ?thesis
  proof (cases l)
    case (Inl e)
    then show ?thesis using run a k1 failed by (auto simp: SaveCheckpoint_def same_workflow_def)
  next
    case (Inr p)
    have p: "p = lock_path (locksDir m) (ws_ID st)" using AcquireLock_path a Inr by simp
    obtain r fs2 where s: "save_locked codec m (stamped (wf_now fs1) st) fs1 = (r, fs2)" by fastforce
    have r: "res = r" "st' = stamped (wf_now fs1) st" "fs' = snd (Release p fs2)"
      using run a Inr s by (simp_all add: SaveCheckpoint_def Let_def)
    have k2: "wf_files fs' q = wf_files fs2 q" if "q \<noteq> p" for q using Release_keeps [OF that] r(3) by simp
    have i: "ws_ID st' = ws_ID st" by (simp add: r(2) stamped_def)
    have sw: "same_workflow m wid fs fs'" if "same_workflow m wid fs1 fs2" for wid
      using that k1 k2 p by (simp add: same_workflow_def)
    from s [folded r(2)] show ?thesis
    proof (cases rule: save_locked_cases)
      case (failed e)
      then show ?thesis using that(1) r(1) sw by blast
    next
      case (saved d t)
      show ?thesis
      proof (rule that(2) [of "wf_now fs1" d t])
        show "\<And>wid. wid \<noteq> ws_ID st \<Longrightarrow> same_workflow m wid fs fs'" using saved(3) i sw by simp
      qed (use saved r k1 k2 p i in auto)
    qed
  qed
qed


section \<open>Appending to the journal\<close>





lemma apply_entries_snocD:
  assumes "apply_entries codec (es @ [e]) st = Inr y"
  obtains x where "apply_entries codec [e] x = Inr y"
  using assms by (induction es arbitrary: st) (auto split: sum.splits)

definition journal_text :: "ManagerConfig \<Rightarrow> WorkflowID \<Rightarrow> wfs \<Rightarrow> string" where
  "journal_text m wid fs = (case wf_files fs (journalPath m wid) of None \<Rightarrow> [] | Some (t, data) \<Rightarrow> data)"

lemma durable_Inr_iff:
  "durable codec m wid fs = Inr x \<longleftrightarrow>
     (\<exists>st es. fst (LoadWorkflow codec m wid (fs\<lparr>wf_script := []\<rparr>)) = Inr st \<and>
        replay_lines codec (journalPath m wid) 0 (raw_lines (journal_text m wid fs)) = Inr es \<and> apply_entries codec es st = Inr x)"
  by (auto simp: durable_eq journal_text_def raw_lines_def split: sum.splits option.splits)


section \<open>The theorems\<close>


text \<open>An example: a codec that keeps the status, and one workflow.\<close>

definition demo_state :: "WorkflowStatus \<Rightarrow> WorkflowState" where
  "demo_state s = \<lparr>ws_ID = ''w'', ws_Status = s, ws_Version = 1, ws_CreatedAt = 0, ws_UpdatedAt = 0, ws_Data = []\<rparr>"

definition demo_codec :: wf_codec where
  "demo_codec =
     \<lparr>wc_enc = (\<lambda>st. Inr (ws_Status st)), wc_dec = (\<lambda>data. Inr (demo_state (takeWhile (\<lambda>c. c \<noteq> CHR 0x0A) data))),
      wc_enc_entry = (\<lambda>e. if je_Timestamp e = 0 then Inr (je_Payload e) else Inl (ErrorNew ''year'')),
      wc_dec_entry = (\<lambda>l. Inr \<lparr>je_Timestamp = 0, je_Operation = ''status_change'', je_Payload = l\<rparr>),
      wc_dec_status = (\<lambda>payload. Inr (takeWhile (\<lambda>c. c \<noteq> CHR 0x22) (drop 12 payload)))\<rparr>"

definition demo_files :: "(instant \<times> os_fault) list \<Rightarrow> string option \<Rightarrow> wfs" where
  "demo_files script journal =
     \<lparr>wf_files = (\<lambda>q. if q = checkpointPath DefaultManagerConfig ''w'' then Some (0, ''pending'' @ [CHR 0x0A])
        else if q = journalPath DefaultManagerConfig ''w'' then map_option (\<lambda>d. (0, d)) journal else None),
      wf_dirs = [], wf_now = 0, wf_script = script, wf_temps = 0\<rparr>"



lemma demo_payload:
  "je_Payload (status_entry 0 StatusRunning) =
     [CHR 0x7B, CHR 0x22] @ ''status'' @ [CHR 0x22] @ '': '' @ [CHR 0x22] @ ''running'' @ [CHR 0x22, CHR 0x7D]"
  by code_simp


text \<open>
  A failed removal of the journal is not reported, and the journal then wins over the newer checkpoint:
  when saving succeeds and the journal is still there, it is the old one, and the status that recovery
  returns is that of its last status change, whatever status was saved.
\<close>

theorem stale_journal_wins:
  assumes run: "SaveCheckpoint codec m st fs = ((None, st'), fs')"
    and left: "wf_files fs' (journalPath m (ws_ID st)) \<noteq> None"
    and journal: "replay_lines codec (journalPath m (ws_ID st)) 0 (raw_lines (journal_text m (ws_ID st) fs)) = Inr (es @ [e])"
      "je_Operation e = ''status_change''" "wc_dec_status codec (je_Payload e) = Inr s"
    and load: "durable codec m (ws_ID st) fs' = Inr x"
  shows "ws_Status x = s"
  using run
proof (cases rule: SaveCheckpoint_cases)
  case (saved d t now)
  then have "journal_text m (ws_ID st) fs' = journal_text m (ws_ID st) fs" using left by (auto simp: journal_text_def)
  then obtain st0 where "apply_entries codec (es @ [e]) st0 = Inr x" using load journal(1) by (auto simp: durable_Inr_iff)
  then show ?thesis using journal(2,3) by (elim apply_entries_snocD) (auto simp: applyEntry_def)
qed simp

text \<open>The recovery hook marks a running workflow as failed and says so; the next load finds it running.\<close>

lemma stale_load:
  assumes "SaveCheckpoint demo_codec m st fs = ((None, st'), fs')" "wf_files fs' (journalPath m (ws_ID st)) \<noteq> None"
    and "replay_lines demo_codec (journalPath m (ws_ID st)) 0 (raw_lines (journal_text m (ws_ID st) fs)) = Inr [e]"
  shows "\<exists>x. durable demo_codec m (ws_ID st) fs' = Inr x"
  using assms(1)
proof (cases rule: SaveCheckpoint_cases)
  case (saved d t now)
  then have j: "journal_text m (ws_ID st) fs' = journal_text m (ws_ID st) fs" using assms(2) by (auto simp: journal_text_def)
  obtain x where x: "wc_dec demo_codec (d @ [CHR 0x0A]) = Inr x" by (simp add: demo_codec_def)
  have "fst (LoadWorkflow demo_codec m (ws_ID st) (fs'\<lparr>wf_script := []\<rparr>)) = Inr x"
    using quiet_Load_eq [of demo_codec m "ws_ID st" fs'] saved(5) x by simp
  moreover have "\<exists>y. apply_entries demo_codec [e] x = Inr y" by (simp add: applyEntry_def demo_codec_def)
  ultimately show ?thesis using assms(3) j by (auto simp: durable_Inr_iff)
qed simp

theorem stale_journal_wins_witness:
  "\<exists>fs st st' fs'. SaveCheckpoint demo_codec DefaultManagerConfig st fs = ((None, st'), fs') \<and> ws_Status st' = StatusFailed \<and>
     (\<forall>x. durable demo_codec DefaultManagerConfig ''w'' fs' = Inr x \<longrightarrow> ws_Status x = StatusRunning) \<and>
     (\<exists>x. durable demo_codec DefaultManagerConfig ''w'' fs' = Inr x)"
proof -
  let ?j = "je_Payload (status_entry 0 StatusRunning) @ [CHR 0x0A]"
  let ?fs = "demo_files (replicate 10 (0, NoFault) @ [(0, OsFail (ErrorNew ''busy''))]) (Some ?j)" and ?st = "demo_state StatusFailed"
  let ?m = DefaultManagerConfig
  let ?r = "SaveCheckpoint demo_codec ?m ?st ?fs"
  have id: "ws_ID ?st = ''w''" by (simp add: demo_state_def)
  have "fst (fst ?r) = None" by code_simp
  then have run: "?r = ((None, snd (fst ?r)), snd ?r)" by (metis prod.collapse)
  have 1: "ws_Status (snd (fst ?r)) = StatusFailed" by code_simp
  have 2: "wf_files (snd ?r) (journalPath ?m (ws_ID ?st)) \<noteq> None" by code_simp
  let ?e = "\<lparr>je_Timestamp = 0, je_Operation = ''status_change'', je_Payload = je_Payload (status_entry 0 StatusRunning)\<rparr>"
  have "raw_lines (journal_text ?m (ws_ID ?st) ?fs) = [je_Payload (status_entry 0 StatusRunning)]" by code_simp
  then have 3: "replay_lines demo_codec (journalPath ?m (ws_ID ?st)) 0 (raw_lines (journal_text ?m (ws_ID ?st) ?fs)) = Inr ([] @ [?e])"
    by (simp add: demo_payload max_line_def demo_codec_def drop_cr_def)
  have 4: "je_Operation ?e = ''status_change''" "wc_dec_status demo_codec (je_Payload ?e) = Inr StatusRunning"
    by (simp, code_simp)
  have 5: "\<exists>x. durable demo_codec ?m ''w'' (snd ?r) = Inr x"
    using stale_load [OF run] 2 3 id by simp
  show ?thesis using run 1 5 stale_journal_wins [OF run 2 3 4] id by metis
qed

end
