(* ===== verification/File_Tools.thy ===== *)
theory File_Tools
  imports GoPrelude
begin

text \<open>
  Reading files for the model, \<^verbatim>\<open>internal/app/file_containment.go\<close> and \<^verbatim>\<open>ReadTextFileTool\<close> of
  \<^verbatim>\<open>internal/app/tools.go\<close>, on Unix paths. The working directory and the reads through the directory
  capability \<^verbatim>\<open>os.Root\<close> are the record \<open>file_env\<close>; the lexical functions of \<^verbatim>\<open>path/filepath\<close> are modelled.
\<close>

section \<open>Paths\<close>

definition IsAbs :: "string \<Rightarrow> bool" where
  "IsAbs s \<longleftrightarrow> s \<noteq> [] \<and> hd s = CHR ''/''"

text \<open>The elements that remain of a path; the last one is the head of the stack \<open>out\<close>.\<close>

fun clean_parts :: "bool \<Rightarrow> string list \<Rightarrow> string list \<Rightarrow> string list" where
  "clean_parts rooted out [] = rev out"
| "clean_parts rooted out (p # ps) =
     (if p = [] \<or> p = ''.'' then clean_parts rooted out ps
      else if p = ''..'' then
        (if out \<noteq> [] \<and> hd out \<noteq> ''..'' then clean_parts rooted (tl out) ps
         else if rooted then clean_parts rooted out ps
         else clean_parts rooted (''..'' # out) ps)
      else clean_parts rooted (p # out) ps)"

definition path_parts :: "string \<Rightarrow> string list" where
  "path_parts s = clean_parts (IsAbs s) [] (SplitC (CHR ''/'') s)"

definition Clean :: "string \<Rightarrow> string" where
  "Clean s =
     (if IsAbs s then CHR ''/'' # Join (path_parts s) ''/''
      else if path_parts s = [] then ''.'' else Join (path_parts s) ''/'')"

definition path_Join :: "string list \<Rightarrow> string" where
  "path_Join elems = (case dropWhile (\<lambda>e. e = []) elems of [] \<Rightarrow> [] | es \<Rightarrow> Clean (Join es ''/''))"

definition Abs :: "string result \<Rightarrow> string \<Rightarrow> string result" where
  "Abs wd p = (if IsAbs p then Inr (Clean p) else (case wd of Inl e \<Rightarrow> Inl e | Inr d \<Rightarrow> Inr (path_Join [d, p])))"

fun strip_common :: "string list \<Rightarrow> string list \<Rightarrow> string list \<times> string list" where
  "strip_common (b # bs) (t # ts) = (if b = t then strip_common bs ts else (b # bs, t # ts))"
| "strip_common bs ts = (bs, ts)"

text \<open>\<^verbatim>\<open>filepath.Rel\<close> where both paths are absolute or both are not; below, both are absolute.\<close>

definition Rel :: "string \<Rightarrow> string \<Rightarrow> string result" where
  "Rel basepath targpath =
     (if Clean targpath = Clean basepath then Inr ''.''
      else if IsAbs (Clean basepath) \<noteq> IsAbs (Clean targpath) then
        Inl (ErrorNew (''Rel: can't make '' @ targpath @ '' relative to '' @ basepath))
      else
        (case strip_common (path_parts basepath) (path_parts targpath) of (bs, ts) \<Rightarrow>
           if bs \<noteq> [] \<and> ts \<noteq> [] \<and> hd bs = ''..'' then Inl (ErrorNew (''Rel: can't make '' @ targpath @ '' relative to '' @ basepath))
           else Inr (Join (replicate (length bs) ''..'' @ ts) ''/'')))"

section \<open>Containment\<close>

definition errFileOutsideRoot :: go_error where
  "errFileOutsideRoot = ErrorNew ''outside root''"

definition fileRootCandidate :: "string result \<Rightarrow> string \<Rightarrow> string \<Rightarrow> string result" where
  "fileRootCandidate wd p dir =
     (if dir = [] then Inl (wrap_err ''empty root'' errFileOutsideRoot)
      else
        (case Abs wd dir of
           Inl e \<Rightarrow> Inl (wrap_err ''resolve file root'' e)
         | Inr absoluteRoot \<Rightarrow>
             (let fullPath = (if \<not> IsAbs p then path_Join [absoluteRoot, p] else p);
                  outside = Inl (wrap_err (''path '' @ Quote p @ '' is outside root '' @ Quote dir) errFileOutsideRoot) in
              case Rel absoluteRoot (Clean fullPath) of
                Inl e \<Rightarrow> outside
              | Inr rel \<Rightarrow> if rel = ''..'' \<or> HasPrefix rel ''../'' then outside else Inr rel)))"

record file_env =
  fe_Getwd :: "string result"
  fe_OpenRoot :: "string \<Rightarrow> go_error option"
  fe_ReadFile :: "string \<Rightarrow> string \<Rightarrow> string result"
  fe_Close :: "string \<Rightarrow> go_error option"

definition readFileFromRoot :: "file_env \<Rightarrow> string \<Rightarrow> string \<Rightarrow> string result" where
  "readFileFromRoot env p dir =
     (case fileRootCandidate (fe_Getwd env) p dir of
        Inl e \<Rightarrow> Inl e
      | Inr candidate \<Rightarrow>
          (case Abs (fe_Getwd env) dir of
             Inl e \<Rightarrow> Inl (wrap_err ''resolve file root'' e)
           | Inr absoluteRoot \<Rightarrow>
               (case fe_OpenRoot env absoluteRoot of
                  Some e \<Rightarrow> Inl (wrap_err ''open file root'' e)
                | None \<Rightarrow>
                    (case fe_ReadFile env absoluteRoot candidate of
                       Inl e \<Rightarrow> Inl (wrap_err ''read file within root'' e)
                     | Inr data \<Rightarrow>
                         (case fe_Close env absoluteRoot of
                            Some e \<Rightarrow> Inl (wrap_err ''close file root'' e)
                          | None \<Rightarrow> Inr data)))))"

text \<open>The roots are tried in turn; only a path outside the root or a missing file moves on to the next.\<close>

fun try_roots :: "file_env \<Rightarrow> string \<Rightarrow> string list \<Rightarrow> go_error option \<Rightarrow> (go_error option \<times> bool) + string" where
  "try_roots env p [] lastErr = Inl (lastErr, False)"
| "try_roots env p (dir # roots) lastErr =
     (case readFileFromRoot env p dir of
        Inr data \<Rightarrow> Inr data
      | Inl e \<Rightarrow>
          if \<not> error_is e errFileOutsideRoot \<and> \<not> error_is_not_exist e then Inl (Some e, True)
          else try_roots env p roots (if dir \<noteq> [] then Some e else lastErr))"

definition ReadTextFile_Execute :: "file_env \<Rightarrow> string \<Rightarrow> string \<Rightarrow> string option \<Rightarrow> string result" where
  "ReadTextFile_Execute env workspacePath projectRoot file_path =
     (case file_path of
        None \<Rightarrow> Inl (ErrorNew ''read_text_file: file_path is required'')
      | Some p \<Rightarrow>
          if p = [] then Inl (ErrorNew ''read_text_file: file_path is required'')
          else
            (case try_roots env p [workspacePath, projectRoot] None of
               Inr data \<Rightarrow> Inr data
             | Inl (Some e, True) \<Rightarrow> Inl (wrap_err ''read_text_file'' e)
             | Inl (Some e, False) \<Rightarrow>
                 if error_is e errFileOutsideRoot
                 then Inl (wrap_err (''read_text_file: path '' @ Quote p @ '' is outside allowed roots (workspace and project)'') e)
                 else Inl (wrap_err (''read_text_file: file '' @ Quote p @ '' not found in workspace or project root'') e)
             | Inl (None, _) \<Rightarrow> Inl (ErrorNew (''read_text_file: file '' @ Quote p @ '' not found in workspace or project root: %!w(<nil>)''))))"

section \<open>Lexical laws\<close>

definition proper :: "string \<Rightarrow> bool" where
  "proper p \<longleftrightarrow> p \<noteq> [] \<and> p \<noteq> ''.'' \<and> p \<noteq> ''..'' \<and> CHR ''/'' \<notin> set p"

lemma clean_parts_proper:
  "list_all proper out \<Longrightarrow> list_all (\<lambda>p. CHR ''/'' \<notin> set p) ps \<Longrightarrow> list_all proper (clean_parts True out ps)"
proof (induction ps arbitrary: out)
  case (Cons p ps)
  then show ?case by (cases out) (auto simp: proper_def)
qed simp

lemma clean_parts_fixed: "list_all proper ps \<Longrightarrow> clean_parts r out ps = rev out @ ps"
  by (induction ps arbitrary: out) (auto simp: proper_def)

lemma clean_parts_append: "clean_parts r out (ps @ qs) = clean_parts r (rev (clean_parts r out ps)) qs"
  by (induction r out ps rule: clean_parts.induct) auto

lemma SplitC_no_slash: "list_all (\<lambda>p. c \<notin> set p) (SplitC c s)"
  by (induction s) (auto split: list.splits)

lemma SplitC_Join: "list_all (\<lambda>p. c \<notin> set p) ps \<Longrightarrow> SplitC c (Join ps [c]) = (if ps = [] then [[]] else ps)"
proof (induction ps)
  case (Cons p ps)
  then show ?case by (cases ps) (auto simp: SplitC_no_sep SplitC_append)
qed simp

lemma proper_parts: "IsAbs s \<Longrightarrow> list_all proper (path_parts s)"
  by (simp add: path_parts_def clean_parts_proper SplitC_no_slash)

lemma path_parts_Join:
  assumes "list_all proper ps"
  shows "path_parts (CHR ''/'' # Join ps ''/'') = ps"
proof -
  have "SplitC (CHR ''/'') (Join ps ''/'') = (if ps = [] then [[]] else ps)"
    by (rule SplitC_Join) (use assms in \<open>auto simp: list_all_iff proper_def\<close>)
  then show ?thesis using clean_parts_fixed [OF assms] by (simp add: path_parts_def IsAbs_def)
qed

lemma Clean_abs: "IsAbs s \<Longrightarrow> IsAbs (Clean s) \<and> path_parts (Clean s) = path_parts s"
  by (simp add: Clean_def path_parts_Join proper_parts) (simp add: IsAbs_def)

lemma Clean_abs_eq: "IsAbs s \<Longrightarrow> IsAbs t \<Longrightarrow> Clean s = Clean t \<longleftrightarrow> path_parts s = path_parts t"
  using Clean_abs by (metis Clean_def)

lemma path_parts_below:
  assumes "IsAbs a"
  shows "path_parts (a @ CHR ''/'' # b) = clean_parts True (rev (path_parts a)) (SplitC (CHR ''/'') b)"
proof -
  have "IsAbs (a @ CHR ''/'' # b)" using assms by (auto simp: IsAbs_def)
  then show ?thesis using assms by (simp add: path_parts_def SplitC_append_sep clean_parts_append)
qed

lemma strip_common_split: "strip_common bs ts = (b, t) \<Longrightarrow> \<exists>c. bs = c @ b \<and> ts = c @ t"
proof (induction bs ts rule: strip_common.induct)
  case (1 x bs y ts)
  then show ?case by (cases "x = y") (auto intro: exI [of _ "x # _"])
qed auto

lemma strip_common_prefix: "strip_common bs (bs @ ts) = ([], ts)"
  by (induction bs) (cases ts; simp)+

lemma Join_dotdot: "Join (''..'' # ps) ''/'' = ''..'' \<or> HasPrefix (Join (''..'' # ps) ''/'') ''../''"
  by (cases ps) (auto simp: HasPrefix_iff)

lemma Join_proper_inside:
  assumes "list_all proper ps"
  shows "Join ps ''/'' \<noteq> ''..'' \<and> \<not> HasPrefix (Join ps ''/'') ''../''"
proof -
  let ?s = "SplitC (CHR ''/'') (Join ps ''/'')"
  have "?s = (if ps = [] then [[]] else ps)"
    by (rule SplitC_Join) (use assms in \<open>auto simp: list_all_iff proper_def\<close>)
  then have "''..'' \<notin> set ?s" using assms by (auto simp: list_all_iff proper_def)
  moreover have "''..'' \<in> set ?s" if "Join ps ''/'' = ''..''" using that by simp
  moreover have "''..'' \<in> set ?s" if "Join ps ''/'' = ''../'' @ t" for t using that by simp
  ultimately show ?thesis unfolding HasPrefix_iff by blast
qed

section \<open>Containment holds\<close>

definition wd_abs :: "string result \<Rightarrow> bool" where
  "wd_abs wd \<longleftrightarrow> (case wd of Inl e \<Rightarrow> True | Inr d \<Rightarrow> IsAbs d)"

definition rel_text :: "string list \<Rightarrow> string" where
  "rel_text rest = (if rest = [] then ''.'' else Join rest ''/'')"

lemma path_Join_below:
  assumes "IsAbs d"
  shows "IsAbs (path_Join [d, p]) \<and> path_parts (path_Join [d, p]) = path_parts (d @ CHR ''/'' # p)"
proof -
  have "path_Join [d, p] = Clean (d @ CHR ''/'' # p)" using assms by (auto simp: path_Join_def IsAbs_def)
  moreover have "IsAbs (d @ CHR ''/'' # p)" using assms by (auto simp: IsAbs_def)
  ultimately show ?thesis using Clean_abs by simp
qed

lemma Abs_abs: "wd_abs wd \<Longrightarrow> Abs wd p = Inr a \<Longrightarrow> IsAbs a"
  using path_Join_below Clean_abs by (auto simp: Abs_def wd_abs_def split: if_splits sum.splits)

lemma Rel_inside:
  assumes "IsAbs b" "IsAbs t"
  shows "(Rel b t = Inr rel \<and> rel \<noteq> ''..'' \<and> \<not> HasPrefix rel ''../'') \<longleftrightarrow>
    (\<exists>rest. path_parts t = path_parts b @ rest \<and> rel = rel_text rest)"
proof -
  have c: "IsAbs (Clean b)" "IsAbs (Clean t)" "Clean t = Clean b \<longleftrightarrow> path_parts t = path_parts b"
    using Clean_abs [OF assms(1)] Clean_abs [OF assms(2)] Clean_abs_eq [OF assms(2,1)] by simp_all
  obtain bs ts where s: "strip_common (path_parts b) (path_parts t) = (bs, ts)" by fastforce
  obtain cs where cs: "path_parts b = cs @ bs" "path_parts t = cs @ ts" using strip_common_split [OF s] by blast
  have pr: "list_all proper bs" "list_all proper ts" using proper_parts [OF assms(1)] proper_parts [OF assms(2)] cs by simp_all
  have hd: "bs = [] \<or> hd bs \<noteq> ''..''" using pr(1) by (cases bs) (auto simp: proper_def)
  show ?thesis
  proof (cases "path_parts t = path_parts b")
    case True
    then have "Rel b t = Inr ''.''" using c by (simp add: Rel_def)
    then show ?thesis using True by (auto simp: rel_text_def HasPrefix_def)
  next
    case False
    have r: "Rel b t = Inr (Join (replicate (length bs) ''..'' @ ts) ''/'')" using False c s hd by (auto simp: Rel_def)
    show ?thesis
    proof (cases bs)
      case Nil
      then have "ts \<noteq> []" using False cs by simp
      then show ?thesis using r Nil cs Join_proper_inside [OF pr(2)] by (auto simp: rel_text_def)
    next
      case (Cons x xs)
      have "\<nexists>rest. path_parts t = path_parts b @ rest"
        using s strip_common_prefix [of "path_parts b"] Cons by auto
      then show ?thesis using r Cons Join_dotdot [of "replicate (length xs) ''..'' @ ts"] by auto
    qed
  qed
qed

definition requested :: "string \<Rightarrow> string \<Rightarrow> string" where
  "requested absRoot p = (if IsAbs p then p else absRoot @ CHR ''/'' # p)"

lemma fileRootCandidate_iff:
  assumes "wd_abs wd"
  shows "fileRootCandidate wd p dir = Inr rel \<longleftrightarrow>
    dir \<noteq> [] \<and> (\<exists>absRoot rest. Abs wd dir = Inr absRoot \<and> path_parts (requested absRoot p) = path_parts absRoot @ rest \<and> rel = rel_text rest)"
proof (cases "dir = []")
  case False
  show ?thesis
  proof (cases "Abs wd dir")
    case (Inl e)
    then show ?thesis using False by (simp add: fileRootCandidate_def)
  next
    case (Inr a)
    then have a: "IsAbs a" using Abs_abs [OF assms] by simp
    define full where "full = (if \<not> IsAbs p then path_Join [a, p] else p)"
    have f: "IsAbs (Clean full)" "path_parts (Clean full) = path_parts (requested a p)"
      using path_Join_below [OF a, of p] Clean_abs by (auto simp: full_def requested_def)
    have "fileRootCandidate wd p dir = Inr rel \<longleftrightarrow> Rel a (Clean full) = Inr rel \<and> rel \<noteq> ''..'' \<and> \<not> HasPrefix rel ''../''"
      using False Inr by (auto simp: fileRootCandidate_def full_def [symmetric] Let_def split: sum.splits)
    then show ?thesis using Rel_inside [OF a f(1), of rel] f(2) False Inr by simp
  qed
qed (simp add: fileRootCandidate_def)

lemma readFileFromRoot_Inr:
  assumes "readFileFromRoot env p dir = Inr data"
  obtains absRoot rel where "fileRootCandidate (fe_Getwd env) p dir = Inr rel" "Abs (fe_Getwd env) dir = Inr absRoot"
    "fe_ReadFile env absRoot rel = Inr data"
  using assms by (auto simp: readFileFromRoot_def split: sum.splits option.splits)

lemma try_roots_Inr: "try_roots env p roots le = Inr data \<Longrightarrow> \<exists>dir \<in> set roots. readFileFromRoot env p dir = Inr data"
  by (induction roots arbitrary: le) (auto split: sum.splits if_splits)

lemma rel_text_parts:
  assumes "IsAbs a" "list_all proper rest"
  shows "path_parts (a @ CHR ''/'' # rel_text rest) = path_parts a @ rest" "''..'' \<notin> set (SplitC (CHR ''/'') (rel_text rest))"
proof -
  have s: "SplitC (CHR ''/'') (rel_text rest) = (if rest = [] then [''.''] else rest)"
    using SplitC_Join [of "CHR ''/''" rest] assms(2) by (auto simp: rel_text_def list_all_iff proper_def)
  show "path_parts (a @ CHR ''/'' # rel_text rest) = path_parts a @ rest"
    using clean_parts_fixed [OF assms(2)] by (simp add: path_parts_below [OF assms(1)] s)
  show "''..'' \<notin> set (SplitC (CHR ''/'') (rel_text rest))" using s assms(2) by (auto simp: list_all_iff proper_def)
qed

text \<open>
  C23. The file tool stays in its roots: a text it returns was read from the workspace of the user or from
  the project, through a relative name that has no parent element and names a file below that root, and
  that file is the one the model asked for. A path that does not lie below a root is refused for that
  root, whatever dots it contains.
\<close>

theorem read_text_file_contained:
  assumes run: "ReadTextFile_Execute env workspacePath projectRoot (Some p) = Inr data" and wd: "wd_abs (fe_Getwd env)"
  shows "\<exists>dir \<in> {workspacePath, projectRoot}. \<exists>absRoot rel rest. Abs (fe_Getwd env) dir = Inr absRoot \<and>
    fe_ReadFile env absRoot rel = Inr data \<and> ''..'' \<notin> set (SplitC (CHR ''/'') rel) \<and>
    path_parts (absRoot @ ''/'' @ rel) = path_parts absRoot @ rest \<and>
    path_parts (absRoot @ ''/'' @ rel) = path_parts (requested absRoot p)"
proof -
  have "try_roots env p [workspacePath, projectRoot] None = Inr data"
    using run by (auto simp: ReadTextFile_Execute_def split: if_splits sum.splits prod.splits option.splits bool.splits)
  then obtain dir where dir: "dir \<in> {workspacePath, projectRoot}" "readFileFromRoot env p dir = Inr data"
    using try_roots_Inr [of env p "[workspacePath, projectRoot]" None data] by auto
  obtain absRoot rel where r: "fileRootCandidate (fe_Getwd env) p dir = Inr rel" "Abs (fe_Getwd env) dir = Inr absRoot"
    "fe_ReadFile env absRoot rel = Inr data" using readFileFromRoot_Inr [OF dir(2)] by blast
  obtain rest where rest: "path_parts (requested absRoot p) = path_parts absRoot @ rest" "rel = rel_text rest"
    using fileRootCandidate_iff [OF wd] r(1,2) by auto
  have a: "IsAbs absRoot" using Abs_abs [OF wd r(2)] .
  have "IsAbs (requested absRoot p)" using a by (auto simp: requested_def IsAbs_def)
  then have "list_all proper rest" using proper_parts rest(1) by (metis list_all_append)
  from rel_text_parts [OF a this] rest r dir(1) show ?thesis by (intro bexI [of _ dir] exI [of _ absRoot] exI [of _ rel] exI [of _ rest]) simp_all
qed

definition demo_env :: file_env where
  "demo_env = \<lparr>fe_Getwd = Inr ''/srv'', fe_OpenRoot = (\<lambda>d. None),
     fe_ReadFile = (\<lambda>d f. if d = ''/srv/data'' \<and> f = ''notes/a.txt'' then Inr ''hello'' else Inl (NotExist f)), fe_Close = (\<lambda>d. None)\<rparr>"

theorem read_text_file_contained_witness:
  "ReadTextFile_Execute demo_env ''data'' [] (Some ''x/../notes/./a.txt'') = Inr ''hello'' \<and>
   ReadTextFile_Execute demo_env ''data'' [] (Some ''../data2/a.txt'') \<noteq> Inr ''hello'' \<and>
   (\<exists>absRoot rel. fe_ReadFile demo_env absRoot rel = Inr ''hello'' \<and> ''..'' \<notin> set (SplitC (CHR ''/'') rel))"
proof -
  have 1: "ReadTextFile_Execute demo_env ''data'' [] (Some ''x/../notes/./a.txt'') = Inr ''hello''" by code_simp
  have 2: "ReadTextFile_Execute demo_env ''data'' [] (Some ''../data2/a.txt'') \<noteq> Inr ''hello''" by code_simp
  have 3: "wd_abs (fe_Getwd demo_env)" by (simp add: wd_abs_def demo_env_def IsAbs_def)
  show ?thesis using 1 2 read_text_file_contained [OF 1 3] by blast
qed

end
