(* ===== verification/Shell_Tool.thy ===== *)
theory Shell_Tool
  imports Runner File_Tools Workflow_Laws
begin

text \<open>
  The shell tool, \<^verbatim>\<open>internal/app/tool_shell.go\<close> with \<^verbatim>\<open>internal/shell\<close>, the execution registry of
  \<^verbatim>\<open>internal/app/tools.go\<close> and the workspace paths of \<^verbatim>\<open>internal/config/config_paths.go\<close>, on Unix paths. The
  sandboxed executor is the function \<open>exec\<close> of the working directory, the command and its arguments over a
  world; the registry lives on the files of the workflow state. A session key is one path element.
\<close>

section \<open>Paths of the configuration\<close>

record path_config =
  pc_StorageRoot :: string
  pc_MultiUserEnabled :: bool
  pc_ProjectRoot :: string
  pc_getenv :: "string \<Rightarrow> string"
  pc_UserHomeDir :: "string result"

definition StorageRoot :: "path_config \<Rightarrow> string" where
  "StorageRoot c =
     (if pc_StorageRoot c \<noteq> [] then pc_StorageRoot c
      else if pc_getenv c ''GOBOT_STORAGE'' \<noteq> [] then pc_getenv c ''GOBOT_STORAGE''
      else if pc_getenv c ''GOBOT_HOME'' \<noteq> [] then path_Join [pc_getenv c ''GOBOT_HOME'', ''data'']
      else (case pc_UserHomeDir c of Inl e \<Rightarrow> ''gobot_storage'' | Inr home \<Rightarrow> path_Join [home, ''gobot_data'']))"

definition SecretsRoot :: "path_config \<Rightarrow> string" where
  "SecretsRoot c = path_Join [StorageRoot c, ''secrets'']"

definition WorkspacePath :: "path_config \<Rightarrow> string \<Rightarrow> string list \<Rightarrow> string" where
  "WorkspacePath c userID subpath =
     (let base = path_Join [StorageRoot c, ''workspace''];
          base' = (if pc_MultiUserEnabled c \<and> userID \<noteq> [] then path_Join [base, ''users'', userID] else base) in
      path_Join (base' # subpath))"

section \<open>The execution registry\<close>

record registry_codec =
  rc_enc :: "(string \<times> string) list \<Rightarrow> string result"
  rc_dec :: "string \<Rightarrow> (string \<times> string) list option result"

definition registry_path :: "string \<Rightarrow> string \<Rightarrow> path" where
  "registry_path storageDir sessionKey =
     [storageDir, map (\<lambda>c. if c = CHR '':'' then CHR ''_'' else c) sessionKey, ''tool_registry.json'']"

text \<open>The map is an association list. A decoded registry may hold the nil map, which has no entries and takes none.\<close>

definition registry_load :: "registry_codec \<Rightarrow> string \<Rightarrow> string \<Rightarrow> wfs \<Rightarrow> (string \<times> string) list option result \<times> wfs" where
  "registry_load codec storageDir sessionKey fs =
     (case os_read (registry_path storageDir sessionKey) fs of
        (Inl e, fs1) \<Rightarrow> (Inl (wrap_err ''read registry'' e), fs1)
      | (Inr b, fs1) \<Rightarrow>
          (case rc_dec codec b of
             Inl e \<Rightarrow> (Inl (wrap_err ''unmarshal registry'' e), fs1)
           | Inr data \<Rightarrow> (Inr data, fs1)))"

definition registry_save :: "registry_codec \<Rightarrow> string \<Rightarrow> string \<Rightarrow> (string \<times> string) list \<Rightarrow> wfs \<Rightarrow> go_error option \<times> wfs" where
  "registry_save codec storageDir sessionKey data fs =
     (let p = registry_path storageDir sessionKey in
      case MkdirAll (butlast p) fs of
        (Some e, fs1) \<Rightarrow> (Some (wrap_err ''mkdir registry'' e), fs1)
      | (None, fs1) \<Rightarrow>
          (case WriteFileJSON (rc_enc codec) p data fs1 of
             (Some e, fs2) \<Rightarrow> (Some (wrap_err ''write registry'' e), fs2)
           | (None, fs2) \<Rightarrow> (None, fs2)))"

definition registry_Check :: "registry_codec \<Rightarrow> string \<Rightarrow> string \<Rightarrow> string \<Rightarrow> wfs \<Rightarrow> (string \<times> bool) \<times> wfs" where
  "registry_Check codec storageDir sessionKey executionID fs =
     (case registry_load codec storageDir sessionKey fs of
        (Inl e, fs1) \<Rightarrow> (([], False), fs1)
      | (Inr None, fs1) \<Rightarrow> (([], False), fs1)
      | (Inr (Some m), fs1) \<Rightarrow>
          (case map_of m executionID of None \<Rightarrow> (([], False), fs1) | Some res \<Rightarrow> ((res, True), fs1)))"

datatype store_outcome = Stored | StoreFailed go_error | StorePanicked

definition registry_Store :: "registry_codec \<Rightarrow> string \<Rightarrow> string \<Rightarrow> string \<Rightarrow> string \<Rightarrow> wfs \<Rightarrow> store_outcome \<times> wfs" where
  "registry_Store codec storageDir sessionKey executionID result fs =
     (let save = (\<lambda>m fs1. case registry_save codec storageDir sessionKey (AList.update executionID result m) fs1 of
            (Some e, fs2) \<Rightarrow> (StoreFailed e, fs2) | (None, fs2) \<Rightarrow> (Stored, fs2)) in
      case registry_load codec storageDir sessionKey fs of
        (Inl e, fs1) \<Rightarrow> save [] fs1
      | (Inr None, fs1) \<Rightarrow> (StorePanicked, fs1)
      | (Inr (Some m), fs1) \<Rightarrow> save m fs1)"

definition checkIdempotency :: "registry_codec \<Rightarrow> string option \<Rightarrow> string \<Rightarrow> string \<Rightarrow> wfs \<Rightarrow> (string \<times> bool) \<times> wfs" where
  "checkIdempotency codec registry sessionKey executionID fs =
     (case registry of
        None \<Rightarrow> (([], False), fs)
      | Some storageDir \<Rightarrow>
          if executionID = [] then (([], False), fs) else registry_Check codec storageDir sessionKey executionID fs)"

definition storeIdempotency :: "registry_codec \<Rightarrow> string option \<Rightarrow> string \<Rightarrow> string \<Rightarrow> string \<Rightarrow> wfs \<Rightarrow> store_outcome \<times> wfs" where
  "storeIdempotency codec registry sessionKey executionID result fs =
     (case registry of
        None \<Rightarrow> (Stored, fs)
      | Some storageDir \<Rightarrow>
          if executionID = [] then (Stored, fs) else registry_Store codec storageDir sessionKey executionID result fs)"

section \<open>Windows paths in commands\<close>

text \<open>A drive letter, a colon and a separator.\<close>

definition is_letter :: "char \<Rightarrow> bool" where
  "is_letter c \<longleftrightarrow> (let n = (of_char c :: nat) in 65 \<le> n \<and> n \<le> 90 \<or> 97 \<le> n \<and> n \<le> 122)"

fun drive_at :: "string \<Rightarrow> bool" where
  "drive_at (a # b # c # rest) = (is_letter a \<and> b = CHR '':'' \<and> c \<in> {CHR 0x5C, CHR ''/''})"
| "drive_at s = False"

definition quoted_at :: "char \<Rightarrow> string \<Rightarrow> nat option" where
  "quoted_at q s =
     (if s \<noteq> [] \<and> hd s = q \<and> drive_at (tl s) then
        (let body = takeWhile (\<lambda>c. c \<noteq> q) (drop 4 s) in
         if length body < length (drop 4 s) then Some (length body + 5) else None)
      else None)"

definition unquoted_at :: "string \<Rightarrow> nat option" where
  "unquoted_at s =
     (if drive_at s then
        (let body = takeWhile (\<lambda>c. c \<notin> {CHR '';'', CHR 0x22, CHR 0x27, CHR 0x20, CHR 0x09, CHR 0x0A, CHR 0x0C, CHR 0x0D}) (drop 3 s) in
         if body = [] then None else Some (length body + 3))
      else None)"

function replace_matches :: "(string \<Rightarrow> nat option) \<Rightarrow> (string \<Rightarrow> string) \<Rightarrow> string \<Rightarrow> string" where
  "replace_matches m f [] = []"
| "replace_matches m f (c # cs) =
     (case m (c # cs) of
        None \<Rightarrow> c # replace_matches m f cs
      | Some n \<Rightarrow> f (take n (c # cs)) @ replace_matches m f (drop (n - 1) cs))"
  by pat_completeness auto
termination
  by (relation "measure (\<lambda>(m, f, s). length s)") auto

definition redirectPath :: "string \<Rightarrow> string \<Rightarrow> string \<Rightarrow> string" where
  "redirectPath mt workspaceRoot quote =
     (let strip = dropWhile (\<lambda>c. c \<in> set quote);
          p = (if quote \<noteq> [] then rev (strip (rev (strip mt))) else mt) in
      if length p < 2 \<or> p ! 1 \<noteq> CHR '':'' then mt
      else
        (let inner = map (\<lambda>c. if c = CHR 0x5C then CHR ''/'' else c) (drop 2 p) in
         quote @ path_Join [workspaceRoot, dropWhile (\<lambda>c. c = CHR ''/'') inner] @ quote))"

definition RedirectCDrive :: "string \<Rightarrow> string \<Rightarrow> string \<Rightarrow> string" where
  "RedirectCDrive command workspaceRoot projectRoot =
     (if workspaceRoot \<noteq> [] \<and> Contains (ToLower command) (ToLower workspaceRoot) \<or>
         projectRoot \<noteq> [] \<and> Contains (ToLower command) (ToLower projectRoot) then command
      else
        replace_matches unquoted_at (\<lambda>mt. redirectPath mt workspaceRoot [])
          (replace_matches (quoted_at (CHR 0x27)) (\<lambda>mt. redirectPath mt workspaceRoot [CHR 0x27])
             (replace_matches (quoted_at (CHR 0x22)) (\<lambda>mt. redirectPath mt workspaceRoot [CHR 0x22]) command)))"

definition unixCommands :: "string list" where
  "unixCommands = [''ls'', ''cat'', ''grep'', ''rm'', ''cp'', ''mv'', ''pwd'', ''touch'', ''find'', ''head'', ''tail'', ''chmod'', ''which'']"

definition RemapUnixCommand :: "string \<Rightarrow> string list \<Rightarrow> string \<times> string list" where
  "RemapUnixCommand cmd args =
     (if cmd \<notin> set unixCommands then (cmd, args) else (''powershell'', [''-NoProfile'', ''-Command'', cmd] @ args))"

section \<open>The tool\<close>

record 'w shellExecTool =
  st_codec :: registry_codec
  st_registry :: "string option"
  st_config :: path_config
  st_projectBase :: string
  st_exec :: "string \<Rightarrow> string \<Rightarrow> string list \<Rightarrow> 'w \<Rightarrow> (string \<times> go_error option) \<times> 'w"
  st_fileExists :: "string \<Rightarrow> 'w \<Rightarrow> bool"

definition isSubpath :: "string \<Rightarrow> string \<Rightarrow> bool" where
  "isSubpath rootDir target =
     (case Rel (Clean rootDir) (Clean target) of
        Inl e \<Rightarrow> False
      | Inr rel \<Rightarrow> rel = ''.'' \<or> (\<not> HasPrefix rel ''..'' \<and> \<not> IsAbs rel))"

definition resolveRunDir :: "json_object \<Rightarrow> string \<Rightarrow> string \<Rightarrow> string result" where
  "resolveRunDir args workspaceRoot projectRoot =
     (let requestedCWD = stringVal args ''cwd'' in
      if requestedCWD = [] then Inr workspaceRoot
      else
        (let target = Clean (if \<not> IsAbs requestedCWD then path_Join [workspaceRoot, requestedCWD] else requestedCWD) in
         if \<not> isSubpath workspaceRoot target \<and> \<not> (projectRoot \<noteq> [] \<and> isSubpath projectRoot target)
         then Inl (ErrorNew (''shell_exec: cwd '' @ Quote requestedCWD @ '' is outside allowed roots (workspace or project)''))
         else Inr target))"

definition redirectGoCmd :: "'w shellExecTool \<Rightarrow> string \<Rightarrow> string \<Rightarrow> string \<Rightarrow> 'w \<Rightarrow> string" where
  "redirectGoCmd t cmd runDir projectRoot w =
     (if cmd \<noteq> ''go'' \<or> projectRoot = [] then runDir
      else if \<not> st_fileExists t (path_Join [runDir, ''go.mod'']) w \<and> st_fileExists t (path_Join [projectRoot, ''go.mod'']) w
      then projectRoot else runDir)"

definition prepareArgs :: "'w shellExecTool \<Rightarrow> json list \<Rightarrow> string \<Rightarrow> string list" where
  "prepareArgs t rawArgs workspaceRoot =
     concat (map (\<lambda>a. case a of JStr s \<Rightarrow> [RedirectCDrive s workspaceRoot (st_projectBase t)] | _ \<Rightarrow> []) rawArgs)"

definition raw_args :: "json_object \<Rightarrow> json list" where
  "raw_args args = (case map_of args ''args'' of Some (JArr xs) \<Rightarrow> xs | _ \<Rightarrow> [])"

definition shellMaxOutput :: nat where "shellMaxOutput = 4096"

text \<open>The text of the error, which prints the arguments with \<^verbatim>\<open>%v\<close>.\<close>

definition run_error :: "string \<Rightarrow> string list \<Rightarrow> string \<Rightarrow> go_error \<Rightarrow> go_error" where
  "run_error cmd cmdArgs runDir e =
     wrap_err (''shell_exec: run '' @ cmd @ '' ['' @ Join cmdArgs '' '' @ ''] (in '' @ runDir @ '')'') e"

definition shell_Execute :: "'w shellExecTool \<Rightarrow> string \<Rightarrow> string \<Rightarrow> json_object \<Rightarrow> wfs \<times> 'w \<Rightarrow> tool_return \<times> (wfs \<times> 'w)" where
  "shell_Execute t sessionKey userID args s =
     (let cmd = TrimSpace (stringVal args ''command'');
          executionID = stringVal args ''execution_id'' in
      if cmd = [] then (ToolReturned [] (Some (ErrorNew ''shell_exec: command is required'')), s)
      else
        (case checkIdempotency (st_codec t) (st_registry t) sessionKey executionID (fst s) of
           ((result, True), fs1) \<Rightarrow> (ToolReturned result None, (fs1, snd s))
         | ((_, False), fs1) \<Rightarrow>
             (let workspaceRoot = WorkspacePath (st_config t) userID []; projectRoot = pc_ProjectRoot (st_config t) in
              case resolveRunDir args workspaceRoot projectRoot of
                Inl e \<Rightarrow> (ToolReturned [] (Some e), (fs1, snd s))
              | Inr dir \<Rightarrow>
                  (let runDir = redirectGoCmd t cmd dir projectRoot (snd s);
                       (cmd', cmdArgs) = RemapUnixCommand (RedirectCDrive cmd workspaceRoot (st_projectBase t)) (prepareArgs t (raw_args args) workspaceRoot) in
                   if cmd' = ''go'' \<and> cmdArgs = [] then
                     (ToolReturned [] (Some (ErrorNew ''shell_exec: go requires at least one argument (e.g. 'version', 'test', 'build')'')), (fs1, snd s))
                   else
                     (case st_exec t runDir cmd' cmdArgs (snd s) of
                        ((out, Some e), w1) \<Rightarrow> (ToolReturned out (Some (run_error cmd' cmdArgs runDir e)), (fs1, w1))
                      | ((out, None), w1) \<Rightarrow>
                          (let out' = (if length out > shellMaxOutput then take shellMaxOutput out @ [CHR 0x0A] @ ''[output truncated]'' else out) in
                           case storeIdempotency (st_codec t) (st_registry t) sessionKey executionID out' fs1 of
                             (StorePanicked, fs2) \<Rightarrow> (ToolPanicked ''assignment to entry in nil map'', (fs2, w1))
                           | (_, fs2) \<Rightarrow> (ToolReturned out' None, (fs2, w1))))))))"

section \<open>Where commands run\<close>

definition below :: "string \<Rightarrow> string \<Rightarrow> bool" where
  "below rootDir d \<longleftrightarrow> rootDir \<noteq> [] \<and> (\<exists>rest. path_parts d = path_parts rootDir @ rest)"

lemma isSubpath_below:
  assumes "IsAbs r" "IsAbs d" "isSubpath r d"
  shows "below r d"
proof -
  have c: "IsAbs (Clean r)" "IsAbs (Clean d)" "path_parts (Clean r) = path_parts r" "path_parts (Clean d) = path_parts d"
    using Clean_abs assms(1,2) by simp_all
  obtain rel where rel: "Rel (Clean r) (Clean d) = Inr rel" "rel = ''.'' \<or> \<not> HasPrefix rel ''..''"
    using assms(3) by (auto simp: isSubpath_def split: sum.splits)
  have "rel \<noteq> ''..'' \<and> \<not> HasPrefix rel ''../''" using rel(2) by (auto simp: HasPrefix_iff)
  then have "\<exists>rest. path_parts (Clean d) = path_parts (Clean r) @ rest \<and> rel = rel_text rest"
    using Rel_inside [OF c(1,2), of rel] rel(1) by blast
  then show ?thesis using assms(1) c(3,4) by (auto simp: below_def IsAbs_def)
qed

lemma resolveRunDir_below:
  assumes "resolveRunDir args ws pr = Inr d" "IsAbs ws" "pr = [] \<or> IsAbs pr"
  shows "below ws d \<or> below pr d"
proof (cases "stringVal args ''cwd'' = []")
  case True
  then show ?thesis using assms(1,2) by (auto simp: resolveRunDir_def below_def IsAbs_def)
next
  case False
  let ?t = "if \<not> IsAbs (stringVal args ''cwd'') then path_Join [ws, stringVal args ''cwd''] else stringVal args ''cwd''"
  have d: "d = Clean ?t" "isSubpath ws d \<or> pr \<noteq> [] \<and> isSubpath pr d"
    using assms(1) False by (auto simp: resolveRunDir_def Let_def split: if_splits)
  have "IsAbs d" using d(1) Clean_abs path_Join_below [OF assms(2)] by simp
  then show ?thesis using d(2) isSubpath_below assms(2,3) by blast
qed

lemma redirectGoCmd_below:
  assumes "below ws d \<or> below pr d"
  shows "below ws (redirectGoCmd t cmd d pr w) \<or> below pr (redirectGoCmd t cmd d pr w)"
  using assms by (auto simp: redirectGoCmd_def below_def)

text \<open>
  C22. Shell commands run below the workspace of the user or below the project: the result of the tool
  depends on the executor only for such working directories, whatever directory the model asks for.
\<close>

theorem shell_confined:
  assumes ws: "IsAbs (WorkspacePath (st_config t) userID [])"
    and pr: "pc_ProjectRoot (st_config t) = [] \<or> IsAbs (pc_ProjectRoot (st_config t))"
    and same: "\<And>d. below (WorkspacePath (st_config t) userID []) d \<or> below (pc_ProjectRoot (st_config t)) d \<Longrightarrow> exec' d = st_exec t d"
  shows "shell_Execute (t\<lparr>st_exec := exec'\<rparr>) sessionKey userID args s = shell_Execute t sessionKey userID args s"
proof -
  let ?ws = "WorkspacePath (st_config t) userID []" and ?pr = "pc_ProjectRoot (st_config t)"
  have eq: "redirectGoCmd (t\<lparr>st_exec := exec'\<rparr>) cmd d pr w = redirectGoCmd t cmd d pr w"
      "prepareArgs (t\<lparr>st_exec := exec'\<rparr>) xs r = prepareArgs t xs r" for cmd d pr w xs r
    by (simp_all add: redirectGoCmd_def prepareArgs_def cong: json.case_cong)
  have "exec' (redirectGoCmd t cmd d ?pr w) = st_exec t (redirectGoCmd t cmd d ?pr w)" if "resolveRunDir args ?ws ?pr = Inr d" for cmd d w
    by (rule same) (rule redirectGoCmd_below [OF resolveRunDir_below [OF that ws pr]])
  then show ?thesis
    by (simp add: shell_Execute_def Let_def eq split: sum.splits prod.splits bool.splits)
qed

text \<open>An example: a tool whose executor counts its calls and prints the directory, and a codec for the id \<open>1\<close>.\<close>

definition demo_tool :: "nat shellExecTool" where
  "demo_tool =
     \<lparr>st_codec = \<lparr>rc_enc = (\<lambda>m. Inr (case map_of m ''1'' of None \<Rightarrow> [] | Some v \<Rightarrow> v)), rc_dec = (\<lambda>x. Inr (Some [(''1'', butlast x)]))\<rparr>,
      st_registry = Some ''/r'',
      st_config = \<lparr>pc_StorageRoot = ''/d'', pc_MultiUserEnabled = True, pc_ProjectRoot = ''/p'', pc_getenv = (\<lambda>k. []), pc_UserHomeDir = Inr ''/home''\<rparr>,
      st_projectBase = ''gobot'', st_exec = (\<lambda>d cmd args n. ((d, None), Suc n)), st_fileExists = (\<lambda>f n. False)\<rparr>"

definition demo_args :: "string \<Rightarrow> json_object" where
  "demo_args cwd = [(''command'', JStr ''python''), (''cwd'', JStr cwd), (''execution_id'', JStr ''1'')]"

definition demo_disk :: wfs where
  "demo_disk = \<lparr>wf_files = (\<lambda>q. None), wf_dirs = [], wf_now = 0, wf_script = [], wf_temps = 0\<rparr>"

theorem shell_confined_witness:
  "shell_Execute (demo_tool\<lparr>st_exec := \<lambda>d. if path_parts d = [''etc''] then (\<lambda>cmd args n. ((''escaped'', None), n)) else st_exec demo_tool d\<rparr>)
     ''s'' ''7'' (demo_args ''x/../../7/y'') (demo_disk, 0) =
   shell_Execute demo_tool ''s'' ''7'' (demo_args ''x/../../7/y'') (demo_disk, 0) \<and>
   fst (shell_Execute demo_tool ''s'' ''7'' (demo_args ''x/../../7/y'') (demo_disk, 0)) = ToolReturned ''/d/workspace/users/7/y'' None"
proof -
  let ?e = "\<lambda>d. if path_parts d = [''etc''] then (\<lambda>cmd args n. ((''escaped'', None), n)) else st_exec demo_tool d"
  have r: "WorkspacePath (st_config demo_tool) ''7'' [] = ''/d/workspace/users/7''" "pc_ProjectRoot (st_config demo_tool) = ''/p''"
    "path_parts ''/d/workspace/users/7'' = [''d'', ''workspace'', ''users'', ''7'']" "path_parts ''/p'' = [''p'']"
    by code_simp+
  have 1: "IsAbs (WorkspacePath (st_config demo_tool) ''7'' [])" "pc_ProjectRoot (st_config demo_tool) = [] \<or> IsAbs (pc_ProjectRoot (st_config demo_tool))"
    by (simp_all add: r IsAbs_def)
  have 2: "?e d = st_exec demo_tool d" if "below (WorkspacePath (st_config demo_tool) ''7'' []) d \<or> below (pc_ProjectRoot (st_config demo_tool)) d" for d
    using that by (auto simp: r below_def)
  have 3: "fst (shell_Execute demo_tool ''s'' ''7'' (demo_args ''x/../../7/y'') (demo_disk, 0)) = ToolReturned ''/d/workspace/users/7/y'' None"
    by code_simp
  show ?thesis using shell_confined [OF 1 2] 3 by simp
qed

section \<open>Executions are replayed\<close>

lemma quiet_WriteFileAtomic:
  assumes "wf_script fs = []" "no_temp_of p p"
  obtains fs' t where "WriteFileAtomic p data fs = (None, fs')" "wf_script fs' = []" "wf_files fs' p = Some (t, data)"
proof -
  obtain res fs' where w: "WriteFileAtomic p data fs = (res, fs')" by fastforce
  have "res = None \<and> wf_script fs' = []"
    using w assms(1)
    by (auto simp: WriteFileAtomic_def MkdirAll_def os_do_def os_call_def CreateTemp_def Let_def set_file_def os_write_def
        append_file_def no_effect_def Rename_def Remove_def split: if_splits option.splits)
  then show ?thesis using WriteFileAtomic_atomic(1) [OF w assms(2)] w that by blast
qed

lemma registry_no_temp: "no_temp_of (registry_path d k) (registry_path d k)"
  by (simp add: no_temp_of_def registry_path_def temp_path_def)

lemma quiet_load:
  assumes "wf_script fs = []"
  shows "registry_load codec d k fs =
    (case wf_files fs (registry_path d k) of
       None \<Rightarrow> (Inl (wrap_err ''read registry'' (NotExist (path_text (registry_path d k)))), fs)
     | Some (t, data) \<Rightarrow>
         (case rc_dec codec data of Inl e \<Rightarrow> (Inl (wrap_err ''unmarshal registry'' e), fs) | Inr m \<Rightarrow> (Inr m, fs)))"
  using quiet_calls [OF assms] by (simp add: registry_load_def os_read_def split: option.splits sum.splits)

text \<open>Without faults a stored result is the one that is found afterwards.\<close>

lemma registry_Store_Check:
  assumes quiet: "wf_script fs = []" and run: "registry_Store codec d k i result fs = (o', fs')" and ok: "o' \<noteq> StorePanicked"
    and enc: "\<And>m. \<exists>x. rc_enc codec m = Inr x" 
    and dec: "\<And>m x. map_of m i = Some result \<Longrightarrow> rc_enc codec m = Inr x \<Longrightarrow>
      \<exists>m'. rc_dec codec (x @ [CHR 0x0A]) = Inr (Some m') \<and> map_of m' i = Some result"
  shows "wf_script fs' = [] \<and> registry_Check codec d k i fs' = ((result, True), fs')"
proof -
  let ?p = "registry_path d k"
  have save: "wf_script gs = [] \<and> registry_Check codec d k i gs = ((result, True), gs)"
    if "registry_save codec d k (AList.update i result m) fs = (r, gs)" for m r gs
  proof -
    obtain x where x: "rc_enc codec (AList.update i result m) = Inr x" using enc by blast
    define fsa where "fsa = snd (MkdirAll (butlast ?p) fs)"
    have a: "MkdirAll (butlast ?p) fs = (None, fsa)" "wf_script fsa = []"
      using quiet by (simp_all add: fsa_def MkdirAll_def os_do_def quiet_calls)
    obtain hs t where w: "WriteFileAtomic ?p (x @ [CHR 0x0A]) fsa = (None, hs)" "wf_script hs = []" "wf_files hs ?p = Some (t, x @ [CHR 0x0A])"
      using quiet_WriteFileAtomic [OF a(2) registry_no_temp] by blast
    have "gs = hs" using that a(1) w(1) x by (simp add: registry_save_def WriteFileJSON_def)
    then show ?thesis using w quiet_load [OF w(2), of codec d k] dec [OF _ x] by (auto simp: registry_Check_def update_conv')
  qed
  show ?thesis
  proof (cases "fst (registry_load codec d k fs)")
    case (Inl e)
    then obtain r where "registry_save codec d k (AList.update i result []) fs = (r, fs')"
      using run quiet_load [OF quiet, of codec d k]
      by (auto simp: registry_Store_def Let_def split: option.splits sum.splits prod.splits)
    then show ?thesis using save by blast
  next
    case (Inr q)
    then obtain m where "q = Some m" using run ok quiet_load [OF quiet, of codec d k]
      by (cases q) (auto simp: registry_Store_def Let_def split: option.splits sum.splits prod.splits)
    then obtain r where "registry_save codec d k (AList.update i result m) fs = (r, fs')"
      using Inr run quiet_load [OF quiet, of codec d k]
      by (auto simp: registry_Store_def Let_def split: option.splits sum.splits prod.splits)
    then show ?thesis using save by blast
  qed
qed

lemma quiet_Check:
  assumes "wf_script fs = []"
  shows "registry_Check codec d k i fs = (fst (registry_Check codec d k i fs), fs)"
  using quiet_load [OF assms, of codec d k] by (auto simp: registry_Check_def split: option.splits sum.splits)

text \<open>
  An execution with an id is not repeated: when the shell tool has run a command under an id and
  returned its output, and no call on the registry file failed, the next call of the session with that id
  returns the same output without running anything, whatever command it names.
\<close>

theorem shell_replay:
  assumes run: "shell_Execute t sessionKey userID args (fs, w) = (ToolReturned out None, (fs', w'))"
    and reg: "st_registry t = Some d" and quiet: "wf_script fs = []"
    and ids: "stringVal args ''execution_id'' \<noteq> []" "stringVal args' ''execution_id'' = stringVal args ''execution_id''"
    and cmd: "TrimSpace (stringVal args' ''command'') \<noteq> []"
    and enc: "\<And>m. \<exists>x. rc_enc (st_codec t) m = Inr x"
    and dec: "\<And>m x. map_of m (stringVal args ''execution_id'') = Some out \<Longrightarrow> rc_enc (st_codec t) m = Inr x \<Longrightarrow>
      \<exists>m'. rc_dec (st_codec t) (x @ [CHR 0x0A]) = Inr (Some m') \<and> map_of m' (stringVal args ''execution_id'') = Some out"
  shows "shell_Execute t sessionKey userID' args' (fs', w'') = (ToolReturned out None, (fs', w''))"
proof -
  let ?i = "stringVal args ''execution_id''"
  have found: "registry_Check (st_codec t) d sessionKey ?i fs' = ((out, True), fs')"
  proof (cases "registry_Check (st_codec t) d sessionKey ?i fs = ((out, True), fs)")
    case True
    then have "fs' = fs" using run reg ids(1) by (auto simp: shell_Execute_def checkIdempotency_def Let_def split: if_splits)
    then show ?thesis using True by simp
  next
    case False
    obtain res b where c: "registry_Check (st_codec t) d sessionKey ?i fs = ((res, b), fs)" using quiet_Check [OF quiet] by (metis prod.collapse)
    have b: "\<not> b" using run reg ids(1) c False by (cases b) (auto simp: shell_Execute_def checkIdempotency_def Let_def split: if_splits)
    obtain o' where st: "registry_Store (st_codec t) d sessionKey ?i out fs = (o', fs')" "o' \<noteq> StorePanicked"
      using run reg ids(1) c b
      by (auto simp: shell_Execute_def checkIdempotency_def storeIdempotency_def Let_def
          split: if_splits sum.splits prod.splits option.splits store_outcome.splits)
    show ?thesis by (rule registry_Store_Check [THEN conjunct2, OF quiet st enc]) (rule dec)
  qed
  then show ?thesis using reg ids cmd by (simp add: shell_Execute_def checkIdempotency_def Let_def)
qed

theorem shell_replay_witness:
  "\<exists>out fs'. shell_Execute demo_tool ''s'' ''7'' (demo_args []) (demo_disk, 0) = (ToolReturned out None, (fs', 1)) \<and>
     shell_Execute demo_tool ''s'' ''7'' (demo_args ''y'') (fs', 1) = (ToolReturned out None, (fs', 1))"
proof -
  let ?r = "shell_Execute demo_tool ''s'' ''7'' (demo_args []) (demo_disk, 0)" and ?out = "''/d/workspace/users/7''"
  have "fst ?r = ToolReturned ?out None" "snd (snd ?r) = 1" by code_simp+
  then have run: "?r = (ToolReturned ?out None, (fst (snd ?r), 1))" by (metis prod.collapse)
  have 1: "st_registry demo_tool = Some ''/r''" "wf_script demo_disk = []" by (simp_all add: demo_tool_def demo_disk_def)
  have 2: "stringVal (demo_args []) ''execution_id'' \<noteq> []" "stringVal (demo_args ''y'') ''execution_id'' = stringVal (demo_args []) ''execution_id''"
    "TrimSpace (stringVal (demo_args ''y'') ''command'') \<noteq> []" by (simp add: demo_args_def stringVal_def, simp add: demo_args_def stringVal_def, code_simp)
  have 3: "\<exists>x. rc_enc (st_codec demo_tool) m = Inr x" for m by (simp add: demo_tool_def)
  have 4: "\<exists>m'. rc_dec (st_codec demo_tool) (x @ [CHR 0x0A]) = Inr (Some m') \<and> map_of m' (stringVal (demo_args []) ''execution_id'') = Some ?out"
    if "map_of m (stringVal (demo_args []) ''execution_id'') = Some ?out" "rc_enc (st_codec demo_tool) m = Inr x" for m x
    using that by (simp add: demo_tool_def demo_args_def stringVal_def)
  have "shell_Execute demo_tool ''s'' ''7'' (demo_args ''y'') (fst (snd ?r), 1) = (ToolReturned ?out None, (fst (snd ?r), 1))"
    by (rule shell_replay [OF run 1 2 3]) (rule 4)
  then show ?thesis using run by blast
qed

text \<open>A registry file without a map makes the tool panic after the command has run.\<close>

lemma nil_registry_panics:
  assumes "registry_load codec d k fs = (Inr None, fs1)"
  shows "registry_Store codec d k i result fs = (StorePanicked, fs1)"
  using assms by (simp add: registry_Store_def Let_def)

end
