(* ===== verification/Memory_Store.thy ===== *)
theory Memory_Store
  imports GoTime_Laws Memory_Text
begin

text \<open>
  Long-term memory, \<^verbatim>\<open>internal/memory/sqlite_store.go\<close>: the index of facts by namespace, searching it,
  rebuilding it from the session files and cleaning it up. The full-text engine is the record \<open>fts_engine\<close>:
  the rows that match a query in the order of their rank, and the test for a syntax error of a query.
  Every call into the database takes its outcome from a script. The migrations of the schema and opening
  the file are not modelled.
\<close>

section \<open>State\<close>

record mem_row =
  mr_namespace :: string
  mr_content :: string
  mr_timestamp :: string
  mr_importance :: int

record MemoryStore =
  ms_rows :: "mem_row list"
  ms_script :: "go_error option list"

record fts_engine =
  fts_match :: "string \<Rightarrow> mem_row list \<Rightarrow> mem_row list"
  fts_syntax_error :: "go_error \<Rightarrow> bool"

definition mem_call :: "MemoryStore \<Rightarrow> go_error option \<times> MemoryStore" where
  "mem_call m = (case ms_script m of [] \<Rightarrow> (None, m) | f # rest \<Rightarrow> (f, m\<lparr>ms_script := rest\<rparr>))"

section \<open>Indexing\<close>

definition IndexWithImportance :: "instant \<Rightarrow> string \<Rightarrow> string \<Rightarrow> int \<Rightarrow> MemoryStore \<Rightarrow> go_error option \<times> MemoryStore" where
  "IndexWithImportance now namespace content importance m =
     (if TrimSpace content = [] then (None, m)
      else
        (let imp = (if importance < 1 \<or> importance > 5 then 3 else importance) in
         case mem_call m of
           (Some e, m1) \<Rightarrow> (Some (wrap_err ''memory: index'' e), m1)
         | (None, m1) \<Rightarrow>
             (None, m1\<lparr>ms_rows := ms_rows m1 @
                [\<lparr>mr_namespace = namespace, mr_content = content, mr_timestamp = FormatRFC3339 now, mr_importance = imp\<rparr>]\<rparr>)))"

definition Index :: "instant \<Rightarrow> string \<Rightarrow> string \<Rightarrow> MemoryStore \<Rightarrow> go_error option \<times> MemoryStore" where
  "Index now namespace content = IndexWithImportance now namespace content 3"

section \<open>Searching\<close>

definition fts_operators :: "char list" where
  "fts_operators = [CHR 0x22, CHR ''('', CHR '')'', CHR ''*'', CHR ''^'', CHR ''-'', CHR ''+'', CHR 0x7B, CHR 0x7D, CHR '':'', CHR ''['', CHR '']'', CHR '','']"

text \<open>\<^verbatim>\<open>strings.Fields\<close>; \<open>cur\<close> is the field that is being read, in reverse.\<close>

fun fields_from :: "string \<Rightarrow> string \<Rightarrow> string list" where
  "fields_from cur [] = (if cur = [] then [] else [rev cur])"
| "fields_from cur (c # cs) =
     (case find (\<lambda>r. r \<noteq> [] \<and> HasPrefix (c # cs) r) space_runes of
        Some r \<Rightarrow> (if cur = [] then [] else [rev cur]) @ fields_from [] (drop (length r - 1) cs)
      | None \<Rightarrow> fields_from (c # cur) cs)"

definition sanitizeFTSQuery :: "string \<Rightarrow> string" where
  "sanitizeFTSQuery q = Join (fields_from [] (map (\<lambda>c. if c \<in> set fts_operators then CHR '' '' else c) q)) '' ''"

definition session_namespace :: "string \<Rightarrow> string" where
  "session_namespace sessionKey = ''session:'' @ sessionKey"

definition search_rows :: "fts_engine \<Rightarrow> string \<Rightarrow> string \<Rightarrow> int \<Rightarrow> mem_row list \<Rightarrow> mem_row list" where
  "search_rows lib q sessionKey limit rows =
     take (nat limit) (filter (\<lambda>r. mr_namespace r \<in> {session_namespace sessionKey, ''global''}) (fts_match lib q rows))"

fun dedupe :: "string list \<Rightarrow> mem_row list \<Rightarrow> mem_row list" where
  "dedupe seen [] = []"
| "dedupe seen (r # rs) = (if mr_content r \<in> set seen then dedupe seen rs else r # dedupe (mr_content r # seen) rs)"

definition mem_result :: "mem_row \<Rightarrow> json_object" where
  "mem_result r = [(''namespace'', JStr (mr_namespace r)), (''content'', JStr (mr_content r)), (''timestamp'', JStr (mr_timestamp r))]"

definition mem_Search :: "fts_engine \<Rightarrow> string \<Rightarrow> string \<Rightarrow> int \<Rightarrow> MemoryStore \<Rightarrow> json_object list result \<times> MemoryStore" where
  "mem_Search lib query sessionKey limit m =
     (let safe = sanitizeFTSQuery query in
      if safe = [] \<or> limit \<le> 0 then (Inr [], m)
      else
        (case mem_call m of
           (Some e, m1) \<Rightarrow> if fts_syntax_error lib e then (Inr [], m1) else (Inl (wrap_err ''memory: search query'' e), m1)
         | (None, m1) \<Rightarrow>
             (case mem_call m1 of
                (Some e, m2) \<Rightarrow> (Inl (wrap_err ''memory: search scan'' e), m2)
              | (None, m2) \<Rightarrow> (Inr (map mem_result (dedupe [] (search_rows lib safe sessionKey limit (ms_rows m2)))), m2))))"

section \<open>Rebuilding\<close>

text \<open>What the walk over the directory reports: an entry, or an error that ends the walk.\<close>

datatype walk_entry = WalkDir string | WalkFile string | WalkError string go_error

definition maxRebuildFiles :: int where "maxRebuildFiles = 10000"

record rebuild_state =
  rb_count :: int
  rb_skipped :: int
  rb_failures :: "go_error list"

definition recordFailure :: "go_error \<Rightarrow> rebuild_state \<Rightarrow> rebuild_state" where
  "recordFailure e st =
     st\<lparr>rb_skipped := rb_skipped st + 1, rb_failures := (if length (rb_failures st) < 10 then rb_failures st @ [e] else rb_failures st)\<rparr>"

definition base_name :: "string \<Rightarrow> string" where
  "base_name p = last (SplitC (CHR ''/'') p)"

fun walk :: "instant \<Rightarrow> (string \<Rightarrow> string result) \<Rightarrow> walk_entry list \<Rightarrow> rebuild_state \<Rightarrow> MemoryStore \<Rightarrow> (go_error option \<times> rebuild_state) \<times> MemoryStore" where
  "walk now readFile [] st m = ((None, st), m)"
| "walk now readFile (WalkError p e # es) st m = ((Some (wrap_err (''walk '' @ p) e), st), m)"
| "walk now readFile (WalkDir p # es) st m = walk now readFile es st m"
| "walk now readFile (WalkFile p # es) st m =
     (if \<not> HasSuffix p ''.md'' then walk now readFile es st m
      else if rb_count st \<ge> maxRebuildFiles then
        ((Some (ErrorNew (''truncated at '' @ Itoa maxRebuildFiles @ '' successfully indexed files: next source '' @ p)), st), m)
      else
        (case readFile p of
           Inl e \<Rightarrow> walk now readFile es (recordFailure (wrap_err (''read '' @ p) e) st) m
         | Inr data \<Rightarrow>
             (case Index now (session_namespace (TrimSuffix (base_name p) ''.md'')) data m of
                (Some e, m1) \<Rightarrow> walk now readFile es (recordFailure (wrap_err (''index '' @ p) e) st) m1
              | (None, m1) \<Rightarrow> walk now readFile es (st\<lparr>rb_count := rb_count st + 1\<rparr>) m1)))"

fun errors_Join :: "go_error list \<Rightarrow> go_error" where
  "errors_Join [] = ErrorNew []"
| "errors_Join [e] = e"
| "errors_Join (e # es) = ErrorJoin e (errors_Join es)"

definition Rebuild :: "instant \<Rightarrow> (string \<Rightarrow> string result) \<Rightarrow> string \<Rightarrow> walk_entry list \<Rightarrow> MemoryStore \<Rightarrow> (int \<times> go_error option) \<times> MemoryStore" where
  "Rebuild now readFile sessionDir entries m =
     (case walk now readFile entries \<lparr>rb_count = 0, rb_skipped = 0, rb_failures = []\<rparr> m of
        ((walkErr, st), m1) \<Rightarrow>
          (let failures = rb_failures st @ (case walkErr of None \<Rightarrow> [] | Some e \<Rightarrow> [e]) in
           if failures \<noteq> [] then
             ((rb_count st, Some (wrap_err (''memory: Rebuild '' @ sessionDir @ '': indexed '' @ Itoa (rb_count st) @ '', skipped '' @ Itoa (rb_skipped st)) (errors_Join failures))), m1)
           else ((rb_count st, None), m1)))"

section \<open>Cleaning up\<close>

definition CleanupNamespace :: "instant \<Rightarrow> string \<Rightarrow> string \<Rightarrow> MemoryStore \<Rightarrow> (int \<times> go_error option) \<times> MemoryStore" where
  "CleanupNamespace now namespace ttl m =
     (if ttl = [] then ((0, None), m)
      else
        (case ParseDuration ttl of
           None \<Rightarrow> ((0, None), m)
         | Some duration \<Rightarrow>
             if duration \<le> 0 then ((0, None), m)
             else
               (let cutoff = FormatRFC3339 (now - duration);
                    expired = (\<lambda>r. (namespace = [] \<or> mr_namespace r = namespace) \<and> text_less (mr_timestamp r) cutoff) in
                case mem_call m of
                  (Some e, m1) \<Rightarrow> ((0, Some (wrap_err (''memory: cleanup '' @ namespace) e)), m1)
                | (None, m1) \<Rightarrow>
                    (let m2 = m1\<lparr>ms_rows := filter (\<lambda>r. \<not> expired r) (ms_rows m1)\<rparr>;
                         deleted = int (length (filter expired (ms_rows m1))) in
                     case mem_call m2 of
                       (Some e, m3) \<Rightarrow> ((0, Some (wrap_err ''memory: rows affected'' e)), m3)
                     | (None, m3) \<Rightarrow> ((deleted, None), m3)))))"

definition mem_CleanupExpired :: "instant \<Rightarrow> string \<Rightarrow> MemoryStore \<Rightarrow> (int \<times> go_error option) \<times> MemoryStore" where
  "mem_CleanupExpired now = CleanupNamespace now []"

definition Stats :: "MemoryStore \<Rightarrow> int result \<times> MemoryStore" where
  "Stats m =
     (case mem_call m of
        (Some e, m1) \<Rightarrow> (Inl (wrap_err ''query memory count'' e), m1)
      | (None, m1) \<Rightarrow> (Inr (int (length (ms_rows m1))), m1))"

section \<open>Laws\<close>

lemma dedupe_sound: "set (dedupe seen rs) \<subseteq> set rs" "distinct (map mr_content (dedupe seen rs))"
  "length (dedupe seen rs) \<le> length rs"
proof -
  show "set (dedupe seen rs) \<subseteq> set rs" by (induction rs arbitrary: seen) auto
  have "distinct (map mr_content (dedupe seen rs)) \<and> set seen \<inter> mr_content ` set (dedupe seen rs) = {}"
  proof (induction rs arbitrary: seen)
    case (Cons r rs)
    show ?case using Cons [of seen] Cons [of "mr_content r # seen"] by auto
  qed simp
  then show "distinct (map mr_content (dedupe seen rs))" by blast
  show "length (dedupe seen rs) \<le> length rs" by (induction rs arbitrary: seen) (auto simp: le_SucI)
qed

text \<open>What a search returns: rows of the session or the global namespace, each content once, within the limit.\<close>

lemma mem_Search_rows:
  assumes "mem_Search lib query sessionKey limit m = (Inr results, m')"
  shows "\<exists>rows. results = map mem_result rows \<and> list_all (\<lambda>r. mr_namespace r \<in> {session_namespace sessionKey, ''global''}) rows \<and>
    distinct (map mr_content rows) \<and> (rows = [] \<or> int (length rows) \<le> limit)"
proof (cases "results = []")
  case True
  then show ?thesis by (intro exI [of _ "[]"]) simp
next
  case False
  let ?s = "search_rows lib (sanitizeFTSQuery query) sessionKey limit (ms_rows m')"
  have limit: "0 < limit" and r: "results = map mem_result (dedupe [] ?s)"
    using False assms by (auto simp: mem_Search_def Let_def split: if_splits prod.splits option.splits)
  have "list_all (\<lambda>r. mr_namespace r \<in> {session_namespace sessionKey, ''global''}) ?s"
    by (auto simp: search_rows_def list_all_iff dest: in_set_takeD)
  then have "list_all (\<lambda>r. mr_namespace r \<in> {session_namespace sessionKey, ''global''}) (dedupe [] ?s)"
    using dedupe_sound(1) [of "[]" ?s] by (auto simp: list_all_iff)
  moreover have "int (length ?s) \<le> limit" using limit by (simp add: search_rows_def)
  ultimately show ?thesis using r dedupe_sound(2,3) [of "[]" ?s] by (intro exI [of _ "dedupe [] ?s"]) auto
qed

end
