(* ===== verification/Hybrid_Search.thy ===== *)
theory Hybrid_Search
  imports Memory_Store "HOL-Library.AList" "HOL-Library.Multiset"
begin

text \<open>
  Hybrid search over memory, \<^verbatim>\<open>internal/memory/vector/hybrid.go\<close>: keyword and vector results, the choice of
  diverse vector results, and the merge by reciprocal rank. Floating-point numbers are rationals; the
  record \<open>float_ops\<close> rounds after every operation and gives the square root, the exponential and the rate
  of the time decay. Not-a-number and infinite values are left out. The vector index is a function that
  returns results; the order in which the merged map is visited is the function \<open>order\<close>.
\<close>

record float_ops =
  f32 :: "rat \<Rightarrow> rat"
  f64 :: "rat \<Rightarrow> rat"
  f_sqrt :: "rat \<Rightarrow> rat"
  f_exp :: "rat \<Rightarrow> rat"
  f_decayLambda :: rat

record vec_result =
  vr_ID :: string
  vr_Content :: string
  vr_Metadata :: "(string \<times> string) list"
  vr_Embedding :: "rat list"
  vr_Similarity :: rat

record FTSResult =
  fr_ID :: string
  fr_Content :: string
  fr_Timestamp :: string

record HybridResult =
  hr_ID :: string
  hr_Content :: string
  hr_Timestamp :: string
  hr_Score :: rat

definition factKey :: "string \<Rightarrow> string \<Rightarrow> string" where
  "factKey namespace content = Itoa (int (length namespace)) @ '':'' @ namespace @ content"

section \<open>Diverse vector results\<close>

fun cosine_sums :: "float_ops \<Rightarrow> rat list \<Rightarrow> rat list \<Rightarrow> rat \<times> rat \<times> rat \<Rightarrow> rat \<times> rat \<times> rat" where
  "cosine_sums fl (a # as) (b # bs) (dot, na, nb) =
     cosine_sums fl as bs (f32 fl (dot + f32 fl (a * b)), f32 fl (na + f32 fl (a * a)), f32 fl (nb + f32 fl (b * b)))"
| "cosine_sums fl as bs acc = acc"

definition cosineSimilarity :: "float_ops \<Rightarrow> rat list \<Rightarrow> rat list \<Rightarrow> rat" where
  "cosineSimilarity fl a b =
     (if length a \<noteq> length b \<or> a = [] then 0
      else
        (case cosine_sums fl a b (0, 0, 0) of (dot, na, nb) \<Rightarrow>
           if na = 0 \<or> nb = 0 then 0
           else f32 fl (dot / f32 fl (f64 fl (f_sqrt fl na * f_sqrt fl nb)))))"

definition max_similarity :: "float_ops \<Rightarrow> vec_result list \<Rightarrow> vec_result \<Rightarrow> rat" where
  "max_similarity fl selected candidate =
     fold (\<lambda>s m. let sim = cosineSimilarity fl (vr_Embedding candidate) (vr_Embedding s) in if sim > m then sim else m) selected 0"

definition mmr_score :: "float_ops \<Rightarrow> rat \<Rightarrow> vec_result list \<Rightarrow> vec_result \<Rightarrow> rat" where
  "mmr_score fl lambda selected candidate =
     f32 fl (f32 fl (lambda * vr_Similarity candidate) - f32 fl (f32 fl (1 - lambda) * max_similarity fl selected candidate))"

definition maxFloat32 :: rat where "maxFloat32 = (2 ^ 24 - 1) * 2 ^ 104"

text \<open>The position of the first best candidate, and 0 when no score exceeds the start value.\<close>

fun best_index :: "('a \<Rightarrow> rat) \<Rightarrow> nat \<Rightarrow> rat \<Rightarrow> nat \<Rightarrow> 'a list \<Rightarrow> nat" where
  "best_index score i bestScore best [] = best"
| "best_index score i bestScore best (x # xs) =
     (if score x > bestScore then best_index score (Suc i) (score x) i xs else best_index score (Suc i) bestScore best xs)"

fun mmr_loop :: "float_ops \<Rightarrow> rat \<Rightarrow> nat \<Rightarrow> vec_result list \<Rightarrow> vec_result list \<Rightarrow> vec_result list" where
  "mmr_loop fl lambda 0 selected unselected = selected"
| "mmr_loop fl lambda (Suc n) selected unselected =
     (if unselected = [] then selected
      else
        (let i = best_index (mmr_score fl lambda selected) 0 (- maxFloat32) 0 unselected in
         mmr_loop fl lambda n (selected @ [unselected ! i]) (take i unselected @ drop (Suc i) unselected)))"

definition applyMMR :: "float_ops \<Rightarrow> vec_result list \<Rightarrow> rat \<Rightarrow> int \<Rightarrow> vec_result list" where
  "applyMMR fl results lambda limit = mmr_loop fl lambda (min (nat limit) (length results)) [] results"

section \<open>Merging\<close>

record merge_entry =
  me_score :: rat
  me_content :: string
  me_timestamp :: string
  me_importance :: int

definition defaultImportance :: int where "defaultImportance = 3"

definition importanceFromMetadata :: "(string \<times> string) list \<Rightarrow> int" where
  "importanceFromMetadata meta =
     (case map_of meta ''importance'' of
        Some s \<Rightarrow> (case ParseInt s of Inr v \<Rightarrow> if 1 \<le> v \<and> v \<le> 5 then v else defaultImportance | Inl _ \<Rightarrow> defaultImportance)
      | None \<Rightarrow> defaultImportance)"

definition computeTimeDecay :: "float_ops \<Rightarrow> instant \<Rightarrow> string \<Rightarrow> rat" where
  "computeTimeDecay fl now ts =
     (case ParseRFC3339 ts of
        None \<Rightarrow> 1
      | Some t \<Rightarrow>
          (let hours = f64 fl (of_int (time_Sub now t) / of_int hour); h = (if hours < 0 then 0 else hours) in
           f_exp fl (f64 fl (- f_decayLambda fl * h))))"

definition rank_score :: "float_ops \<Rightarrow> int \<Rightarrow> nat \<Rightarrow> rat" where
  "rank_score fl k rank = f64 fl (1 / of_int (k + int rank + 1))"

definition old_entry :: "(string \<times> merge_entry) list \<Rightarrow> string \<Rightarrow> merge_entry" where
  "old_entry m i = (case map_of m i of Some e \<Rightarrow> e | None \<Rightarrow> \<lparr>me_score = 0, me_content = [], me_timestamp = [], me_importance = defaultImportance\<rparr>)"

fun add_fts :: "float_ops \<Rightarrow> int \<Rightarrow> nat \<Rightarrow> FTSResult list \<Rightarrow> (string \<times> merge_entry) list \<Rightarrow> (string \<times> merge_entry) list" where
  "add_fts fl k rank [] m = m"
| "add_fts fl k rank (r # rs) m =
     (let e = old_entry m (fr_ID r) in
      add_fts fl k (Suc rank) rs
        (AList.update (fr_ID r)
           (e\<lparr>me_score := f64 fl (me_score e + rank_score fl k rank), me_content := fr_Content r, me_timestamp := fr_Timestamp r\<rparr>) m))"

fun add_vec :: "float_ops \<Rightarrow> instant \<Rightarrow> int \<Rightarrow> nat \<Rightarrow> vec_result list \<Rightarrow> (string \<times> merge_entry) list \<Rightarrow> (string \<times> merge_entry) list" where
  "add_vec fl now k rank [] m = m"
| "add_vec fl now k rank (r # rs) m =
     (let e = old_entry m (vr_ID r);
          ts = (case map_of (vr_Metadata r) ''timestamp'' of
                  Some ts \<Rightarrow> ts | None \<Rightarrow> if me_timestamp e = [] then FormatRFC3339 now else me_timestamp e) in
      add_vec fl now k (Suc rank) rs
        (AList.update (vr_ID r)
           \<lparr>me_score = f64 fl (me_score e + rank_score fl k rank), me_content = vr_Content r, me_timestamp = ts,
            me_importance = importanceFromMetadata (vr_Metadata r)\<rparr> m))"

definition hybrid_result :: "float_ops \<Rightarrow> instant \<Rightarrow> string \<times> merge_entry \<Rightarrow> HybridResult" where
  "hybrid_result fl now x =
     (case x of (i, e) \<Rightarrow>
        (let decay = computeTimeDecay fl now (me_timestamp e); normImp = f64 fl (of_int (me_importance e) / 5) in
         \<lparr>hr_ID = i, hr_Content = me_content e, hr_Timestamp = me_timestamp e,
          hr_Score = f64 fl (me_score e * f64 fl (1 / 2 + f64 fl (1 / 2 * f64 fl (normImp * decay))))\<rparr>))"

definition MergeResults ::
    "float_ops \<Rightarrow> instant \<Rightarrow> ((string \<times> merge_entry) list \<Rightarrow> (string \<times> merge_entry) list) \<Rightarrow> FTSResult list \<Rightarrow> vec_result list \<Rightarrow> int \<Rightarrow> HybridResult list" where
  "MergeResults fl now order ftsResults vecResults k0 =
     (let k = (if k0 \<le> 0 then 60 else k0) in
      sort_key (\<lambda>r. - hr_Score r)
        (map (hybrid_result fl now) (order (add_vec fl now k 0 vecResults (add_fts fl k 0 ftsResults [])))))"

section \<open>Hybrid search\<close>

definition fts_result :: "json_object \<Rightarrow> FTSResult" where
  "fts_result res =
     \<lparr>fr_ID = factKey (stringVal res ''namespace'') (stringVal res ''content''), fr_Content = stringVal res ''content'',
      fr_Timestamp = stringVal res ''timestamp''\<rparr>"

definition vec_namespace :: "vec_result \<Rightarrow> string" where
  "vec_namespace r = (case map_of (vr_Metadata r) ''namespace'' of Some ns \<Rightarrow> ns | None \<Rightarrow> [])"

definition HybridSearch ::
    "float_ops \<Rightarrow> instant \<Rightarrow> ((string \<times> merge_entry) list \<Rightarrow> (string \<times> merge_entry) list) \<Rightarrow>
     (string \<Rightarrow> string \<Rightarrow> int \<Rightarrow> 'w \<Rightarrow> json_object list result \<times> 'w) \<Rightarrow>
     (string \<Rightarrow> string \<Rightarrow> int \<Rightarrow> 'w \<Rightarrow> vec_result list result \<times> 'w) \<Rightarrow>
     string \<Rightarrow> string \<Rightarrow> int \<Rightarrow> 'w \<Rightarrow> HybridResult list result \<times> 'w" where
  "HybridSearch fl now order fts vec query sessionKey limit0 w =
     (let limit = (if limit0 \<le> 0 then 5 else limit0) in
      case fts query sessionKey (limit * 2) w of
        (Inl e, w1) \<Rightarrow> (Inl (wrap_err ''fts search'' e), w1)
      | (Inr raw, w1) \<Rightarrow>
          (case vec ''memory_facts'' query (limit * 4) w1 of
             (Inl e, w2) \<Rightarrow> (Inl (wrap_err ''vector search'' e), w2)
           | (Inr rawVec, w2) \<Rightarrow>
               (let vecResults = filter (\<lambda>r. vec_namespace r \<in> {session_namespace sessionKey, ''global''}) rawVec;
                    chosen = map (\<lambda>r. r\<lparr>vr_ID := factKey (vec_namespace r) (vr_Content r)\<rparr>) (applyMMR fl vecResults (f32 fl (7 / 10)) (limit * 2)) in
                (Inr (take (nat limit) (MergeResults fl now order (map fts_result raw) chosen 60)), w2))))"

section \<open>Laws of the search\<close>

lemma factKey_inj: "factKey ns c = factKey ns' c' \<longleftrightarrow> ns = ns' \<and> c = c'"
proof
  assume e: "factKey ns c = factKey ns' c'"
  have "Itoa (int (length ns)) = Itoa (int (length ns')) \<and> ns @ c = ns' @ c'"
    by (rule first_field [of _ "CHR '':''"]) (use e in \<open>simp_all add: factKey_def\<close>)
  then show "ns = ns' \<and> c = c'" using Itoa_nonneg_inj by auto
qed simp

lemma best_index_bound: "best < n \<Longrightarrow> i + length xs \<le> n \<Longrightarrow> best_index score i b best xs < n"
  by (induction xs arbitrary: i b best) auto

lemma mmr_loop_subset: "set (mmr_loop fl l n sel unsel) \<subseteq> set sel \<union> set unsel"
proof (induction n arbitrary: sel unsel)
  case (Suc n)
  show ?case
  proof (cases "unsel = []")
    case False
    let ?i = "best_index (mmr_score fl l sel) 0 (- maxFloat32) 0 unsel"
    have i: "?i < length unsel" using best_index_bound [of 0 "length unsel" 0 unsel] False by simp
    have "set (mmr_loop fl l n (sel @ [unsel ! ?i]) (take ?i unsel @ drop (Suc ?i) unsel)) \<subseteq> set sel \<union> set unsel"
      using Suc [of "sel @ [unsel ! ?i]" "take ?i unsel @ drop (Suc ?i) unsel"] i set_take_subset [of ?i unsel] set_drop_subset [of "Suc ?i" unsel] nth_mem [OF i]
      by auto
    then show ?thesis using False by (simp add: Let_def)
  qed simp
qed simp

text \<open>The keys of the merged map are distinct, and each names the content it holds.\<close>

definition named :: "(string \<Rightarrow> string \<Rightarrow> bool) \<Rightarrow> (string \<times> merge_entry) list \<Rightarrow> bool" where
  "named P m \<longleftrightarrow> distinct (map fst m) \<and> (\<forall>i e. map_of m i = Some e \<longrightarrow> P i (me_content e))"

lemma named_update: "named P m \<Longrightarrow> P i (me_content e) \<Longrightarrow> named P (AList.update i e m)"
  by (auto simp: named_def distinct_update update_conv')

lemma named_add_fts: "named P m \<Longrightarrow> list_all (\<lambda>r. P (fr_ID r) (fr_Content r)) rs \<Longrightarrow> named P (add_fts fl k n rs m)"
  by (induction rs arbitrary: n m) (auto simp: Let_def named_update)

lemma named_add_vec: "named P m \<Longrightarrow> list_all (\<lambda>r. P (vr_ID r) (vr_Content r)) rs \<Longrightarrow> named P (add_vec fl now k n rs m)"
  by (induction rs arbitrary: n m) (auto simp: Let_def named_update)

lemma MergeResults_named:
  assumes perm: "\<And>m. mset (order m) = mset m"
    and src: "list_all (\<lambda>r. P (fr_ID r) (fr_Content r)) fts" "list_all (\<lambda>r. P (vr_ID r) (vr_Content r)) vec"
  shows "distinct (map hr_ID (MergeResults fl now order fts vec k0))"
    "list_all (\<lambda>r. P (hr_ID r) (hr_Content r)) (MergeResults fl now order fts vec k0)"
    "sorted (map (\<lambda>r. - hr_Score r) (MergeResults fl now order fts vec k0))"
proof -
  let ?k = "if k0 \<le> 0 then 60 else k0"
  define m where "m = add_vec fl now ?k 0 vec (add_fts fl ?k 0 fts [])"
  have m: "named P m" unfolding m_def by (intro named_add_vec named_add_fts src) (simp add: named_def)
  let ?rs = "map (hybrid_result fl now) (order m)"
  have r: "MergeResults fl now order fts vec k0 = sort_key (\<lambda>r. - hr_Score r) ?rs" by (simp add: MergeResults_def m_def Let_def)
  have f: "hr_ID (hybrid_result fl now x) = fst x" "hr_Content (hybrid_result fl now x) = me_content (snd x)" for x
    by (simp_all add: hybrid_result_def Let_def split: prod.splits)
  have ids: "map hr_ID ?rs = map fst (order m)" by (simp add: f)
  have "mset (map fst (order m)) = mset (map fst m)" using perm by simp
  then have "distinct (map hr_ID ?rs)" using m ids by (metis mset_eq_imp_distinct_iff named_def)
  moreover have "mset (map hr_ID (sort_key (\<lambda>r. - hr_Score r) ?rs)) = mset (map hr_ID ?rs)" by (simp del: map_map)
  ultimately show "distinct (map hr_ID (MergeResults fl now order fts vec k0))" unfolding r using mset_eq_imp_distinct_iff by blast
  have "P (fst x) (me_content (snd x))" if "x \<in> set (order m)" for x
  proof -
    have "x \<in> set m" using that perm by (metis set_mset_mset)
    then have "map_of m (fst x) = Some (snd x)" using m by (simp add: named_def)
    then show ?thesis using m by (auto simp: named_def)
  qed
  then show "list_all (\<lambda>r. P (hr_ID r) (hr_Content r)) (MergeResults fl now order fts vec k0)"
    unfolding r by (simp add: list_all_iff f)
  show "sorted (map (\<lambda>r. - hr_Score r) (MergeResults fl now order fts vec k0))" unfolding r by (rule sorted_sort_key)
qed

text \<open>A fact of the session or of the global namespace, by its key.\<close>

definition own_fact :: "string \<Rightarrow> string \<Rightarrow> string \<Rightarrow> bool" where
  "own_fact sessionKey i content \<longleftrightarrow> i = factKey (session_namespace sessionKey) content \<or> i = factKey ''global'' content"

lemma fts_result_own:
  assumes "mem_Search lib query sessionKey limit m = (Inr raw, m')"
  shows "list_all (\<lambda>r. own_fact sessionKey (fr_ID r) (fr_Content r)) (map fts_result raw)"
proof -
  obtain rows where r: "raw = map mem_result rows" "list_all (\<lambda>r. mr_namespace r \<in> {session_namespace sessionKey, ''global''}) rows"
    using mem_Search_rows [OF assms] by blast
  have "own_fact sessionKey (fr_ID (fts_result (mem_result x))) (fr_Content (fts_result (mem_result x)))"
    if "mr_namespace x \<in> {session_namespace sessionKey, ''global''}" for x
    using that by (auto simp: own_fact_def fts_result_def mem_result_def stringVal_def)
  then show ?thesis using r by (auto simp: list_all_iff)
qed

lemma chosen_own:
  "list_all (\<lambda>r. own_fact sessionKey (vr_ID r) (vr_Content r))
     (map (\<lambda>r. r\<lparr>vr_ID := factKey (vec_namespace r) (vr_Content r)\<rparr>)
        (applyMMR fl (filter (\<lambda>r. vec_namespace r \<in> {session_namespace sessionKey, ''global''}) raw) l n))"
  using mmr_loop_subset [of fl l _ "[]" "filter (\<lambda>r. vec_namespace r \<in> {session_namespace sessionKey, ''global''}) raw"]
  by (fastforce simp: list_all_iff own_fact_def applyMMR_def)

text \<open>
  C24. Hybrid search keeps sessions apart: whatever the full-text engine and the vector index return, every
  result of a search for a session is a fact of its namespace or of the global one, no fact is returned
  twice although both indices may know it, the results come in the order of their scores, and there are
  at most as many as asked for, five when the limit is not positive. Facts are told apart by namespace and
  content.
\<close>

theorem hybrid_search_isolated:
  assumes run: "HybridSearch fl now order (mem_Search lib) vec query sessionKey limit m = (Inr results, m')"
    and perm: "\<And>x. mset (order x) = mset x"
  shows "list_all (\<lambda>r. own_fact sessionKey (hr_ID r) (hr_Content r)) results \<and> distinct (map hr_ID results) \<and>
    sorted (map (\<lambda>r. - hr_Score r) results) \<and> int (length results) \<le> (if limit \<le> 0 then 5 else limit) \<and>
    (factKey ns c = factKey ns' c' \<longleftrightarrow> ns = ns' \<and> c = c')"
proof -
  let ?n = "if limit \<le> 0 then 5 else limit"
  obtain raw m1 where f: "mem_Search lib query sessionKey (?n * 2) m = (Inr raw, m1)"
    using run by (cases "mem_Search lib query sessionKey (?n * 2) m"; cases "fst (mem_Search lib query sessionKey (?n * 2) m)")
      (auto simp: HybridSearch_def Let_def)
  obtain rawVec m2 where v: "vec ''memory_facts'' query (?n * 4) m1 = (Inr rawVec, m2)"
    using run f by (cases "vec ''memory_facts'' query (?n * 4) m1"; cases "fst (vec ''memory_facts'' query (?n * 4) m1)")
      (auto simp: HybridSearch_def Let_def)
  define chosen where "chosen = map (\<lambda>r. r\<lparr>vr_ID := factKey (vec_namespace r) (vr_Content r)\<rparr>)
    (applyMMR fl (filter (\<lambda>r. vec_namespace r \<in> {session_namespace sessionKey, ''global''}) rawVec) (f32 fl (7 / 10)) (?n * 2))"
  let ?all = "MergeResults fl now order (map fts_result raw) chosen 60"
  have r: "results = take (nat ?n) ?all" using run f v by (simp add: HybridSearch_def Let_def chosen_def)
  have own: "list_all (\<lambda>r. own_fact sessionKey (vr_ID r) (vr_Content r)) chosen" unfolding chosen_def by (rule chosen_own)
  note all = MergeResults_named [of order "own_fact sessionKey" "map fts_result raw" chosen fl now 60,
    OF perm fts_result_own [OF f] own]
  have "list_all (\<lambda>r. own_fact sessionKey (hr_ID r) (hr_Content r)) results"
    using all(2) unfolding r by (meson list_all_iff in_set_takeD)
  moreover have "distinct (map hr_ID results)" using all(1) unfolding r take_map [symmetric] by (rule distinct_take)
  moreover have "sorted (map (\<lambda>r. - hr_Score r) results)" using all(3) unfolding r take_map [symmetric] by (rule sorted_wrt_take)
  moreover have "int (length results) \<le> ?n" unfolding r by (auto simp: min_def)
  ultimately show ?thesis using factKey_inj by blast
qed

text \<open>An example: exact arithmetic, one fact of the session, one of another session in both indices.\<close>

definition demo_floats :: float_ops where
  "demo_floats = \<lparr>f32 = (\<lambda>x. x), f64 = (\<lambda>x. x), f_sqrt = (\<lambda>x. 1), f_exp = (\<lambda>x. 1), f_decayLambda = 1 / 1000\<rparr>"

definition demo_engine :: fts_engine where
  "demo_engine = \<lparr>fts_match = (\<lambda>q. filter (\<lambda>r. Contains (mr_content r) q)), fts_syntax_error = (\<lambda>e. False)\<rparr>"

definition demo_memory :: MemoryStore where
  "demo_memory = \<lparr>ms_rows = map (\<lambda>ns. \<lparr>mr_namespace = ns, mr_content = ''likes tea'', mr_timestamp = ''x'', mr_importance = 3\<rparr>)
     [''session:b'', ''session:a''], ms_script = []\<rparr>"

definition demo_vector :: "string \<Rightarrow> string \<Rightarrow> int \<Rightarrow> MemoryStore \<Rightarrow> vec_result list result \<times> MemoryStore" where
  "demo_vector coll query n m =
     (Inr (map (\<lambda>(ns, c). \<lparr>vr_ID = c, vr_Content = c, vr_Metadata = [(''namespace'', ns), (''timestamp'', ''x'')], vr_Embedding = [1], vr_Similarity = 1\<rparr>)
        [(''session:b'', ''likes coffee''), (''session:a'', ''likes tea''), (''global'', ''tea is hot'')]), m)"

definition demo_search :: "HybridResult list result \<times> MemoryStore" where
  "demo_search = HybridSearch demo_floats 0 (\<lambda>m. m) (mem_Search demo_engine) demo_vector ''tea'' ''a'' 0 demo_memory"

definition demo_hits :: "HybridResult list" where
  "demo_hits = (case fst demo_search of Inr rs \<Rightarrow> rs | Inl e \<Rightarrow> [])"

theorem hybrid_search_isolated_witness:
  "map hr_Content demo_hits = [''likes tea'', ''tea is hot''] \<and>
   list_all (\<lambda>r. own_fact ''a'' (hr_ID r) (hr_Content r)) demo_hits \<and> distinct (map hr_ID demo_hits)"
proof -
  have c: "map hr_Content demo_hits = [''likes tea'', ''tea is hot'']" by code_simp
  then have "\<exists>rs. fst demo_search = Inr rs" by (auto simp: demo_hits_def split: sum.splits)
  then have run: "HybridSearch demo_floats 0 (\<lambda>m. m) (mem_Search demo_engine) demo_vector ''tea'' ''a'' 0 demo_memory = (Inr demo_hits, snd demo_search)"
    unfolding demo_search_def [symmetric] by (auto simp: demo_hits_def prod_eq_iff)
  have perm: "mset x = mset x" for x :: "(string \<times> merge_entry) list" by simp
  show ?thesis using c hybrid_search_isolated [OF run perm] by blast
qed

end
