(* ===== verification/Tool_Schema.thy ===== *)
theory Tool_Schema
  imports Messages "HOL-Library.AList"
begin

text \<open>
  The schema of tool arguments, \<^verbatim>\<open>internal/agent/schema.go\<close>. A Go type is a tree as \<^verbatim>\<open>reflect\<close> presents it; a struct
  tag is the list of its key-value pairs. Next to it, what \<^verbatim>\<open>encoding/json\<close> writes for a value of a type, so
  that the derived schema can be compared with the documents it describes.
\<close>

section \<open>Types\<close>

datatype basic_kind =
    KBool | KInt | KInt8 | KInt16 | KInt32 | KInt64 | KUint | KUint8 | KUint16 | KUint32 | KUint64 | KUintptr
  | KFloat32 | KFloat64 | KComplex64 | KComplex128 | KString

datatype GoType =
    TBasic basic_kind
  | TArray nat GoType
  | TSlice GoType
  | TMap GoType GoType
  | TStruct "StructField list"
  | TPtr GoType
  | TInterface
  | TChan GoType
  | TFunc
and StructField =
  StructField (sf_Name: string) (sf_PkgPath: string) (sf_Type: GoType) (sf_Tag: "(string \<times> string) list") (sf_Anonymous: bool)

definition Tag_Get :: "StructField \<Rightarrow> string \<Rightarrow> string" where
  "Tag_Get f key = (case map_of (sf_Tag f) key of None \<Rightarrow> [] | Some v \<Rightarrow> v)"

section \<open>The derived schema\<close>

definition jsonTypeString :: string where "jsonTypeString = ''string''"
definition jsonTypeObject :: string where "jsonTypeObject = ''object''"

definition goTypeToJSONType :: "GoType \<Rightarrow> string" where
  "goTypeToJSONType t =
     (case t of
        TBasic k \<Rightarrow>
          if k = KString then jsonTypeString
          else if k \<in> {KInt, KInt8, KInt16, KInt32, KInt64, KUint, KUint8, KUint16, KUint32, KUint64} then ''integer''
          else if k \<in> {KFloat32, KFloat64} then ''number''
          else if k = KBool then ''boolean''
          else jsonTypeString
      | TSlice _ \<Rightarrow> ''array''
      | TArray _ _ \<Rightarrow> ''array''
      | TMap _ _ \<Rightarrow> jsonTypeObject
      | TStruct _ \<Rightarrow> jsonTypeObject
      | _ \<Rightarrow> jsonTypeString)"

definition buildFieldProperty :: "StructField \<Rightarrow> json_object" where
  "buildFieldProperty field =
     (let prop = [(''type'', JStr (goTypeToJSONType (sf_Type field)))];
          description = Tag_Get field ''schema'';
          prop = (if description \<noteq> [] then AList.update ''description'' (JStr description) prop else prop)
      in case sf_Type field of
           TSlice e \<Rightarrow> AList.update ''items'' (JObj [(''type'', JStr (goTypeToJSONType e))]) prop
         | TArray _ e \<Rightarrow> AList.update ''items'' (JObj [(''type'', JStr (goTypeToJSONType e))]) prop
         | _ \<Rightarrow> prop)"

definition parseJSONTag :: "StructField \<Rightarrow> string \<times> bool \<times> bool" where
  "parseJSONTag field =
     (let jsonTag = Tag_Get field ''json''
      in if jsonTag = ''-'' then ([], False, True)
         else (let (name, omitempty) =
                     (case SplitN2 CHR '','' jsonTag of
                        (_, None) \<Rightarrow> (jsonTag, False)
                      | (n, Some opts) \<Rightarrow> (n, Contains opts ''omitempty''))
               in (if name = [] then sf_Name field else name, omitempty, False)))"

text \<open>The loop over the fields, with the map and the slice it fills.\<close>

fun deriveFields :: "StructField list \<Rightarrow> json_object \<Rightarrow> string list \<Rightarrow> json_object \<times> string list" where
  "deriveFields [] properties required = (properties, required)"
| "deriveFields (field # fs) properties required =
     (if sf_PkgPath field \<noteq> [] then deriveFields fs properties required
      else case parseJSONTag field of
             (name, omitempty, skip) \<Rightarrow>
               if skip then deriveFields fs properties required
               else deriveFields fs (AList.update name (JObj (buildFieldProperty field)) properties)
                      (if omitempty then required else required @ [name]))"

text \<open>
  \<^verbatim>\<open>TypeOf\<close> of a nil interface is nil, and asking for its kind panics: \<open>None\<close>. A nil slice in a document is null, which
  is why the code sets an empty one.
\<close>

definition DeriveSchema :: "GoType option \<Rightarrow> json_object option" where
  "DeriveSchema v =
     (case v of
        None \<Rightarrow> None
      | Some t \<Rightarrow>
          (case (case t of TPtr e \<Rightarrow> e | _ \<Rightarrow> t) of
             TStruct sfs \<Rightarrow>
               (let (properties, required) = deriveFields sfs [] [];
                    schema = [(''type'', JStr jsonTypeObject), (''properties'', JObj properties),
                      (''required'', if required = [] then JNull else JArr (map JStr required))]
                in Some (if length required = 0 then AList.update ''required'' (JArr []) schema else schema))
           | _ \<Rightarrow> Some [(''type'', JStr jsonTypeObject)]))"

section \<open>Documents\<close>

text \<open>
  The values of the types and their form in \<^verbatim>\<open>encoding/json\<close>: the name and the options of a field come from its tag,
  an empty value of a field with the option \<^verbatim>\<open>omitempty\<close> is left out, and a nil slice or map is null. A value of an interface
  type stands for the document it is written as. The option \<^verbatim>\<open>string\<close> and embedded structs, which the package treats
  specially, do not occur in the types the theorem below speaks of.
\<close>

datatype GoValue =
    VBool bool | VInt int | VFloat rat | VString string
  | VList "GoValue list" | VMap "(string \<times> GoValue) list" | VStruct "GoValue list" | VAny json | VNil

definition is_int_kind :: "basic_kind \<Rightarrow> bool" where
  "is_int_kind k \<longleftrightarrow> k \<in> {KInt, KInt8, KInt16, KInt32, KInt64, KUint, KUint8, KUint16, KUint32, KUint64, KUintptr}"

lemma zip_smaller [termination_simp]: "(a, b) \<in> set (zip vs fs) \<Longrightarrow> size a < Suc (size_list size vs)"
  by (drule set_zip_leftD, drule size_list_estimation' [where f = size and y = "size a"]) auto

fun has_type :: "GoValue \<Rightarrow> GoType \<Rightarrow> bool" where
  "has_type (VBool b) t = (t = TBasic KBool)"
| "has_type (VInt i) t = (case t of TBasic k \<Rightarrow> is_int_kind k | _ \<Rightarrow> False)"
| "has_type (VFloat q) t = (t = TBasic KFloat32 \<or> t = TBasic KFloat64)"
| "has_type (VString s) t = (t = TBasic KString)"
| "has_type (VList vs) t = (case t of TSlice e \<Rightarrow> (\<forall>v\<in>set vs. has_type v e)
     | TArray n e \<Rightarrow> length vs = n \<and> (\<forall>v\<in>set vs. has_type v e) | _ \<Rightarrow> False)"
| "has_type (VMap kvs) t = (case t of TMap k e \<Rightarrow> k = TBasic KString \<and> (\<forall>kv\<in>set kvs. has_type (snd kv) e) | _ \<Rightarrow> False)"
| "has_type (VStruct vs) t = (case t of TStruct fs \<Rightarrow> length vs = length fs \<and>
     (\<forall>vf\<in>set (zip vs fs). has_type (fst vf) (sf_Type (snd vf))) | _ \<Rightarrow> False)"
| "has_type (VAny j) t = (t = TInterface)"
| "has_type VNil t = (case t of TSlice _ \<Rightarrow> True | TMap _ _ \<Rightarrow> True | TPtr _ \<Rightarrow> True | TInterface \<Rightarrow> True | _ \<Rightarrow> False)"

fun isEmptyValue :: "GoValue \<Rightarrow> bool" where
  "isEmptyValue (VBool b) = (\<not> b)"
| "isEmptyValue (VInt i) = (i = 0)"
| "isEmptyValue (VFloat q) = (q = 0)"
| "isEmptyValue (VString s) = (s = [])"
| "isEmptyValue (VList vs) = (vs = [])"
| "isEmptyValue (VMap kvs) = (kvs = [])"
| "isEmptyValue (VStruct vs) = False"
| "isEmptyValue (VAny j) = False"
| "isEmptyValue VNil = True"

definition json_field :: "StructField \<Rightarrow> (string \<times> bool) option" where
  "json_field f =
     (if sf_PkgPath f \<noteq> [] \<or> Tag_Get f ''json'' = ''-'' then None
      else case SplitC CHR '','' (Tag_Get f ''json'') of
             [] \<Rightarrow> None
           | n # opts \<Rightarrow> Some (if n = [] then sf_Name f else n, ''omitempty'' \<in> set opts))"

fun json_encode :: "GoType \<Rightarrow> GoValue \<Rightarrow> json" where
  "json_encode t (VBool b) = JBool b"
| "json_encode t (VInt i) = JNum (of_int i)"
| "json_encode t (VFloat q) = JNum q"
| "json_encode t (VString s) = marshal_string s"
| "json_encode t (VList vs) = (case t of
      TSlice e \<Rightarrow> if e = TBasic KUint8 then JBytes (map (\<lambda>v. case v of VInt i \<Rightarrow> char_of (nat i) | _ \<Rightarrow> CHR 0x00) vs)
        else JArr (map (json_encode e) vs)
    | TArray n e \<Rightarrow> JArr (map (json_encode e) vs)
    | _ \<Rightarrow> JNull)"
| "json_encode t (VMap kvs) = (case t of TMap k e \<Rightarrow> JObj (map (\<lambda>kv. (coerce_utf8 (fst kv), json_encode e (snd kv))) kvs) | _ \<Rightarrow> JNull)"
| "json_encode t (VStruct vs) = (case t of
      TStruct fs \<Rightarrow> JObj (concat (map (\<lambda>vf. case json_field (snd vf) of
          None \<Rightarrow> []
        | Some (n, omit) \<Rightarrow> if omit \<and> isEmptyValue (fst vf) then [] else [(n, json_encode (sf_Type (snd vf)) (fst vf))]) (zip vs fs)))
    | _ \<Rightarrow> JNull)"
| "json_encode t (VAny j) = j"
| "json_encode t VNil = JNull"

section \<open>What a schema accepts\<close>

definition json_type_ok :: "string \<Rightarrow> json \<Rightarrow> bool" where
  "json_type_ok ty j \<longleftrightarrow>
     (case j of
        JBool _ \<Rightarrow> ty = ''boolean''
      | JNum q \<Rightarrow> ty = ''number'' \<or> ty = ''integer'' \<and> q = of_int \<lfloor>q\<rfloor>
      | JStr _ \<Rightarrow> ty = ''string''
      | JBytes _ \<Rightarrow> ty = ''string''
      | JArr _ \<Rightarrow> ty = ''array''
      | JObj _ \<Rightarrow> ty = ''object''
      | JNull \<Rightarrow> ty = ''null'')"

definition type_of_schema :: "json_object \<Rightarrow> json \<Rightarrow> bool" where
  "type_of_schema s j \<longleftrightarrow> (case map_of s ''type'' of Some (JStr ty) \<Rightarrow> json_type_ok ty j | _ \<Rightarrow> False)"

definition accepts_property :: "json \<Rightarrow> json \<Rightarrow> bool" where
  "accepts_property p j \<longleftrightarrow>
     (case p of
        JObj s \<Rightarrow> type_of_schema s j \<and>
          (case (map_of s ''items'', j) of
             (Some (JObj i), JArr js) \<Rightarrow> (\<forall>x\<in>set js. type_of_schema i x)
           | (None, JArr _) \<Rightarrow> False
           | _ \<Rightarrow> True)
      | _ \<Rightarrow> False)"

text \<open>An accepted document has every required member and no member that is not declared, each of its declared type.\<close>

definition accepts :: "json_object \<Rightarrow> json \<Rightarrow> bool" where
  "accepts s j \<longleftrightarrow> type_of_schema s j \<and>
     (case (map_of s ''properties'', map_of s ''required'', j) of
        (Some (JObj ps), Some (JArr rs), JObj ms) \<Rightarrow>
          (\<forall>r\<in>set rs. \<exists>n\<in>set (map fst ms). r = JStr n) \<and>
          (\<forall>m\<in>set ms. case map_of ps (fst m) of Some p \<Rightarrow> accepts_property p (snd m) | None \<Rightarrow> False)
      | _ \<Rightarrow> False)"


section \<open>The derived schema accepts every value of its type\<close>

text \<open>
  The types of fields whose schema is right: booleans, integers other than \<^verbatim>\<open>uintptr\<close>, floats, strings, maps, structs without a form of
  their own, and slices and arrays of these; a slice of bytes is left out, since its form is a string.
\<close>

definition described_item :: "GoType \<Rightarrow> bool" where
  "described_item t \<longleftrightarrow> (case t of TBasic k \<Rightarrow> k \<notin> {KUintptr, KComplex64, KComplex128} | TStruct _ \<Rightarrow> True | _ \<Rightarrow> False)"

definition described :: "GoType \<Rightarrow> bool" where
  "described t \<longleftrightarrow> (case t of
      TSlice e \<Rightarrow> described_item e \<and> e \<noteq> TBasic KUint8
    | TArray n e \<Rightarrow> described_item e
    | TMap _ _ \<Rightarrow> True
    | _ \<Rightarrow> described_item t)"

text \<open>
  A plain tag has a name of letters, digits, underscores and hyphens, or none, and at most the option \<^verbatim>\<open>omitempty\<close>; its
  field is not embedded.
\<close>

definition tag_char :: "char \<Rightarrow> bool" where
  "tag_char c \<longleftrightarrow> is_digit c \<or> c = CHR ''_'' \<or> c = CHR ''-'' \<or> c \<in> set ''abcdefghijklmnopqrstuvwxyzABCDEFGHIJKLMNOPQRSTUVWXYZ''"

definition plain_tag :: "StructField \<Rightarrow> bool" where
  "plain_tag f \<longleftrightarrow> list_all tag_char (hd (SplitC CHR '','' (Tag_Get f ''json''))) \<and>
     tl (SplitC CHR '','' (Tag_Get f ''json'')) \<in> {[], [''omitempty'']} \<and> \<not> sf_Anonymous f"

definition plain_struct :: "StructField list \<Rightarrow> bool" where
  "plain_struct fs \<longleftrightarrow> (\<forall>f\<in>set fs. plain_tag f) \<and> (\<forall>f\<in>set fs. json_field f \<noteq> None \<longrightarrow> described (sf_Type f)) \<and>
     distinct (map fst (List.map_filter json_field fs))"

lemma SplitN2_SplitC:
  "SplitC c s = (case SplitN2 c s of (a, None) \<Rightarrow> [a] | (a, Some b) \<Rightarrow> a # SplitC c b) \<and>
   (snd (SplitN2 c s) = None \<longrightarrow> fst (SplitN2 c s) = s)"
  by (induction s) (auto split: option.splits prod.splits)

lemma SplitC_nonempty: "SplitC c s \<noteq> []"
  by (induction s) (auto split: list.splits)

lemma SplitC_single: "SplitC c s = [p] \<Longrightarrow> p = s"
  by (induction s arbitrary: p) (auto split: list.splits if_splits simp: SplitC_nonempty)

lemma Contains_refl: "Contains s s"
  by (cases s) (simp_all add: HasPrefix_def)

lemma parseJSONTag_json_field:
  assumes "plain_tag f" "sf_PkgPath f = []"
  shows "json_field f = (case parseJSONTag f of (n, om, sk) \<Rightarrow> if sk then None else Some (n, om))"
proof (cases "Tag_Get f ''json'' = ''-''")
  case True
  then show ?thesis by (simp add: json_field_def parseJSONTag_def)
next
  case False
  obtain a b where ab: "SplitN2 CHR '','' (Tag_Get f ''json'') = (a, b)" by (cases "SplitN2 CHR '','' (Tag_Get f ''json'')")
  show ?thesis
  proof (cases b)
    case None
    with ab False SplitN2_SplitC [of "CHR '',''" "Tag_Get f ''json''"] assms(2) show ?thesis
      by (simp add: json_field_def parseJSONTag_def)
  next
    case (Some o1)
    with ab SplitN2_SplitC [of "CHR '',''" "Tag_Get f ''json''"] have sp: "SplitC CHR '','' (Tag_Get f ''json'') = a # SplitC CHR '','' o1"
      by simp
    with assms(1) SplitC_nonempty [of "CHR '',''" o1] have "SplitC CHR '','' o1 = [''omitempty'']" by (simp add: plain_tag_def)
    with SplitC_single [OF this] sp ab Some False assms(2) show ?thesis
      by (auto simp: json_field_def parseJSONTag_def Contains_refl)
  qed
qed

lemma deriveFields_visible:
  "(\<forall>f\<in>set fs. plain_tag f) \<Longrightarrow> deriveFields fs ps rs =
     (fold (\<lambda>f ps. case json_field f of None \<Rightarrow> ps | Some (n, om) \<Rightarrow> AList.update n (JObj (buildFieldProperty f)) ps) fs ps,
      rs @ map fst (filter (\<lambda>x. \<not> snd x) (List.map_filter json_field fs)))"
proof (induction fs arbitrary: ps rs)
  case Nil
  then show ?case by (simp add: List.map_filter_simps)
next
  case (Cons f fs)
  then show ?case
  proof (cases "sf_PkgPath f = []")
    case True
    with parseJSONTag_json_field [of f] Cons show ?thesis
      by (cases "parseJSONTag f") (simp add: List.map_filter_simps)
  next
    case False
    with Cons show ?thesis by (simp add: json_field_def List.map_filter_simps)
  qed
qed

lemma properties_keep:
  "n \<notin> fst ` set (List.map_filter json_field fs) \<Longrightarrow>
     map_of (fold (\<lambda>f ps. case json_field f of None \<Rightarrow> ps | Some (n, om) \<Rightarrow> AList.update n (JObj (buildFieldProperty f)) ps) fs ps) n
       = map_of ps n"
  by (induction fs arbitrary: ps) (auto simp: List.map_filter_simps update_conv' split: option.splits)

lemma properties_lookup:
  assumes "distinct (map fst (List.map_filter json_field fs))" "f \<in> set fs" "json_field f = Some (n, om)"
  shows "map_of (fold (\<lambda>f ps. case json_field f of None \<Rightarrow> ps | Some (n, om) \<Rightarrow> AList.update n (JObj (buildFieldProperty f)) ps) fs ps) n
       = Some (JObj (buildFieldProperty f))"
  using assms
proof (induction fs arbitrary: ps)
  case (Cons g fs)
  show ?case
  proof (cases "f = g")
    case True
    with Cons.prems have "n \<notin> fst ` set (List.map_filter json_field fs)" by (simp add: List.map_filter_simps)
    with True Cons.prems(3) show ?thesis by (simp add: properties_keep update_conv')
  next
    case False
    with Cons.prems have "f \<in> set fs" "distinct (map fst (List.map_filter json_field fs))"
      by (auto simp: List.map_filter_simps split: option.splits)
    from Cons.IH [OF this(2,1) Cons.prems(3)] show ?thesis by simp
  qed
qed simp

lemma build_type: "map_of (buildFieldProperty f) ''type'' = Some (JStr (goTypeToJSONType (sf_Type f)))"
  by (simp add: buildFieldProperty_def Let_def update_conv' split: GoType.split)

lemma build_items:
  "map_of (buildFieldProperty f) ''items'' = (case sf_Type f of
      TSlice e \<Rightarrow> Some (JObj [(''type'', JStr (goTypeToJSONType e))])
    | TArray n e \<Rightarrow> Some (JObj [(''type'', JStr (goTypeToJSONType e))])
    | _ \<Rightarrow> None)"
  by (simp add: buildFieldProperty_def Let_def update_conv' split: GoType.split)

lemma encoded_type:
  assumes "has_type v t" "described_item t \<or> (\<exists>k e. t = TMap k e) \<and> v \<noteq> VNil"
  shows "json_type_ok (goTypeToJSONType t) (json_encode t v)"
  using assms
  by (cases v; cases t) (auto simp: described_item_def json_type_ok_def goTypeToJSONType_def is_int_kind_def
      jsonTypeString_def jsonTypeObject_def marshal_string_def)

lemma encoded_no_array:
  assumes "has_type v t" "described_item t \<or> (\<exists>k e. t = TMap k e)"
  shows "json_encode t v \<noteq> JArr js"
  using assms by (cases v; cases t) (auto simp: described_item_def is_int_kind_def marshal_string_def)

lemma encoded_property:
  assumes "has_type v (sf_Type f)" "described (sf_Type f)" "v \<noteq> VNil"
  shows "accepts_property (JObj (buildFieldProperty f)) (json_encode (sf_Type f) v)"
proof -
  consider (item) "described_item (sf_Type f)" | (map) k e where "sf_Type f = TMap k e"
    | (list) e vs where "v = VList vs" "described_item e" "\<forall>x\<in>set vs. has_type x e"
        "sf_Type f = TSlice e \<and> e \<noteq> TBasic KUint8 \<or> (\<exists>n. sf_Type f = TArray n e)"
    using assms by (cases "sf_Type f"; cases v) (auto simp: described_def)
  then show ?thesis
  proof cases
    case list
    then show ?thesis using encoded_type [of _ e]
      by (auto simp: accepts_property_def build_type build_items type_of_schema_def json_type_ok_def goTypeToJSONType_def)
  qed (use encoded_type [OF assms(1)] encoded_no_array [OF assms(1)] assms(3) in
      \<open>auto simp: accepts_property_def build_type build_items type_of_schema_def split: json.split GoType.split option.split
         dest: sym\<close>)
qed

lemma acceptsI:
  assumes "\<And>n. n \<in> set rs \<Longrightarrow> n \<in> fst ` set ms"
    "\<And>m. m \<in> set ms \<Longrightarrow> case map_of ps (fst m) of Some p \<Rightarrow> accepts_property p (snd m) | None \<Rightarrow> False"
  shows "accepts [(''type'', JStr ''object''), (''properties'', JObj ps), (''required'', JArr (map JStr rs))] (JObj ms)"
  using assms by (auto simp: accepts_def type_of_schema_def json_type_ok_def)

text \<open>
  \<^bold>\<open>C15.\<close> The schema of a plain struct of tool arguments types its values. The struct, or the struct that a pointer
  points to, has no embedded field, different member names, plain tags (a name and at most the option
  \<^verbatim>\<open>omitempty\<close>) and fields of described types: booleans, integers, floats, strings, maps, structs, and slices and
  arrays of these but no slice of bytes; pointers, interfaces, complex numbers and \<^verbatim>\<open>uintptr\<close> are not covered. Then
  \<^verbatim>\<open>DeriveSchema\<close> returns a schema that accepts the JSON form of every value of the struct in which nil stands only in
  optional fields: all required members are there, every member is declared, and each has its
  declared type, the elements of arrays included. A nil map in a required field is not accepted
  (\<open>nil_map_rejected\<close>).
\<close>

theorem DeriveSchema_types:
  assumes "plain_struct fs" "t = TStruct fs \<or> t = TPtr (TStruct fs)" "has_type (VStruct vs) (TStruct fs)"
    "\<forall>(v, f)\<in>set (zip vs fs). v = VNil \<longrightarrow> (\<forall>n om. json_field f = Some (n, om) \<longrightarrow> om)"
  shows "\<exists>schema. DeriveSchema (Some t) = Some schema \<and> accepts schema (json_encode (TStruct fs) (VStruct vs))"
proof -
  let ?ps = "fold (\<lambda>f ps. case json_field f of None \<Rightarrow> ps | Some (n, om) \<Rightarrow> AList.update n (JObj (buildFieldProperty f)) ps) fs []"
  let ?rs = "map fst (filter (\<lambda>x. \<not> snd x) (List.map_filter json_field fs))"
  let ?member = "\<lambda>vf. case json_field (snd vf) of
          None \<Rightarrow> []
        | Some (n, omit) \<Rightarrow> if omit \<and> isEmptyValue (fst vf) then [] else [(n, json_encode (sf_Type (snd vf)) (fst vf))]"
  have "deriveFields fs [] [] = (?ps, ?rs)"
    using assms(1) deriveFields_visible [of fs "[]" "[]"] by (simp add: plain_struct_def)
  then have schema: "DeriveSchema (Some t) = Some [(''type'', JStr ''object''), (''properties'', JObj ?ps), (''required'', JArr (map JStr ?rs))]"
    using assms(2) by (auto simp: DeriveSchema_def jsonTypeObject_def)
  have "n \<in> fst ` set (concat (map ?member (zip vs fs)))" if "n \<in> set ?rs" for n
  proof -
    from that obtain f where f: "f \<in> set fs" "json_field f = Some (n, False)"
      by (auto simp: List.map_filter_def)
    with assms(3) obtain v where "(v, f) \<in> set (zip vs fs)" by (auto simp: in_set_conv_nth set_zip)
    with f(2) have "(n, json_encode (sf_Type f) v) \<in> set (concat (map ?member (zip vs fs)))" by force
    then have "fst (n, json_encode (sf_Type f) v) \<in> fst ` set (concat (map ?member (zip vs fs)))" by (rule imageI)
    then show ?thesis by (simp only: fst_conv)
  qed
  moreover have "case map_of ?ps (fst m) of Some p \<Rightarrow> accepts_property p (snd m) | None \<Rightarrow> False"
    if m: "m \<in> set (concat (map ?member (zip vs fs)))" for m
  proof -
    from that obtain v f n om where vf: "(v, f) \<in> set (zip vs fs)" "json_field f = Some (n, om)" "\<not> (om \<and> isEmptyValue v)"
      "m = (n, json_encode (sf_Type f) v)"
    proof -
      from m obtain vf where vf: "vf \<in> set (zip vs fs)" "m \<in> set (?member vf)"
        unfolding set_concat set_map by blast
      then obtain n om where "json_field (snd vf) = Some (n, om)" "\<not> (om \<and> isEmptyValue (fst vf))"
        "m = (n, json_encode (sf_Type (snd vf)) (fst vf))" by (cases "json_field (snd vf)") (auto split: if_splits)
      with vf(1) show thesis by (intro that [of "fst vf" "snd vf" n om]) auto
    qed
    from vf(1) assms(3) have f: "f \<in> set fs" "has_type v (sf_Type f)" by (auto dest: set_zip_rightD)
    have "v \<noteq> VNil" using bspec [OF assms(4) vf(1)] vf(2,3) by auto
    with f vf(2) assms(1) have "accepts_property (JObj (buildFieldProperty f)) (json_encode (sf_Type f) v)"
      by (intro encoded_property) (auto simp: plain_struct_def)
    moreover have "map_of ?ps n = Some (JObj (buildFieldProperty f))"
      using assms(1) f(1) vf(2) by (intro properties_lookup) (auto simp: plain_struct_def)
    ultimately show ?thesis using vf(4) by simp
  qed
  ultimately have "accepts [(''type'', JStr ''object''), (''properties'', JObj ?ps), (''required'', JArr (map JStr ?rs))]
      (JObj (concat (map ?member (zip vs fs))))"
    by (intro acceptsI)
  then have "accepts [(''type'', JStr ''object''), (''properties'', JObj ?ps), (''required'', JArr (map JStr ?rs))]
      (json_encode (TStruct fs) (VStruct vs))"
    unfolding json_encode.simps GoType.case .
  with schema show ?thesis by blast
qed

text \<open>The arguments of the shell tool, \<^verbatim>\<open>shellExecArgs\<close>.\<close>

definition shellExecArgs :: "StructField list" where
  "shellExecArgs =
     [StructField ''Command'' [] (TBasic KString) [(''json'', ''command''), (''schema'', ''Executable to run (e.g. 'cmd', 'powershell', 'python').'')] False,
      StructField ''Args'' [] (TSlice (TBasic KString)) [(''json'', ''args,omitempty''), (''schema'', ''Arguments to pass to the command.'')] False,
      StructField ''CWD'' [] (TBasic KString) [(''json'', ''cwd,omitempty''), (''schema'', ''Optional working directory. Defaults to the user workspace. Can also be set to the project root for development tasks.'')] False,
      StructField ''ExecutionID'' [] (TBasic KString) [(''json'', ''execution_id,omitempty''), (''schema'', ''Optional unique ID for this execution to ensure idempotency across session resumes.'')] False]"

theorem DeriveSchema_types_witness:
  "\<exists>schema. DeriveSchema (Some (TStruct shellExecArgs)) = Some schema \<and>
     accepts schema (json_encode (TStruct shellExecArgs) (VStruct [VString ''ls'', VList [VString ''-l''], VString [], VString []]))"
proof -
  have "plain_struct shellExecArgs"
    by (simp add: plain_struct_def shellExecArgs_def plain_tag_def tag_char_def Tag_Get_def json_field_def List.map_filter_simps described_def described_item_def)
  moreover have "has_type (VStruct [VString ''ls'', VList [VString ''-l''], VString [], VString []]) (TStruct shellExecArgs)"
    by (simp add: shellExecArgs_def)
  ultimately show ?thesis by (intro DeriveSchema_types) (simp_all add: shellExecArgs_def)
qed

text \<open>
  A required map, such as \<^verbatim>\<open>PageMap\<close> of the extraction tool of the browser: its schema wants an object, and the form of
  the nil map is null.
\<close>

definition required_map :: "StructField list" where
  "required_map = [StructField ''PageMap'' [] (TMap (TBasic KString) TInterface) [(''json'', ''page_map'')] False]"

lemma nil_map_rejected:
  "plain_struct required_map" "has_type (VStruct [VNil]) (TStruct required_map)"
  "\<exists>schema. DeriveSchema (Some (TStruct required_map)) = Some schema \<and>
     \<not> accepts schema (json_encode (TStruct required_map) (VStruct [VNil]))"
proof -
  show "plain_struct required_map"
    by (simp add: plain_struct_def required_map_def plain_tag_def Tag_Get_def json_field_def List.map_filter_simps described_def
        tag_char_def)
  show "has_type (VStruct [VNil]) (TStruct required_map)" by (simp add: required_map_def)
  have "(case DeriveSchema (Some (TStruct required_map)) of
      Some schema \<Rightarrow> \<not> accepts schema (json_encode (TStruct required_map) (VStruct [VNil])) | None \<Rightarrow> False)"
    by code_simp
  then show "\<exists>schema. DeriveSchema (Some (TStruct required_map)) = Some schema \<and>
     \<not> accepts schema (json_encode (TStruct required_map) (VStruct [VNil]))"
    by (simp split: option.splits)
qed

end
