(* ===== verification/Provider_Routing.thy ===== *)
theory Provider_Routing
  imports Runner "HOL-Library.Char_ord" "HOL-Library.List_Lexorder"
begin

text \<open>
  The provider layer that needs no network, \<^verbatim>\<open>internal/provider\<close>: the registry, the factory, cost-based
  routing between a manager and an executor model, and the texts of provider errors. A provider is a
  record of functions over the world. The constructors of the network clients are parameters of the
  factory.
\<close>

section \<open>Registry\<close>

type_synonym 'w provider_registry = "(string \<times> 'w Provider) list"

definition Registry_Register :: "'w Provider \<Rightarrow> 'w provider_registry \<Rightarrow> go_error option \<times> 'w provider_registry" where
  "Registry_Register p r =
     (if map_of r (pr_Name p) \<noteq> None then (Some (ErrorNew (''provider already registered: '' @ pr_Name p)), r)
      else (None, r @ [(pr_Name p, p)]))"

text \<open>A nil registry has no providers. The routing provider keeps the registry as it is when routing is set up.\<close>

definition Registry_Get :: "'w provider_registry option \<Rightarrow> string \<Rightarrow> 'w Provider result" where
  "Registry_Get r name =
     (case r of
        None \<Rightarrow> Inl (ErrorNew (''provider not found: '' @ name))
      | Some ps \<Rightarrow> (case map_of ps name of None \<Rightarrow> Inl (ErrorNew (''provider not found: '' @ name)) | Some p \<Rightarrow> Inr p))"

definition Registry_List :: "'w provider_registry \<Rightarrow> string list" where
  "Registry_List r = sort (map fst r)"

section \<open>Routing\<close>

record RoutingConfig =
  rt_Enabled :: bool
  rt_ManagerModel :: string
  rt_ManagerProvider :: string

record 'w RoutingProvider =
  rp_resolver :: "'w provider_registry option"
  rp_executor :: "'w Provider"
  rp_manager :: "'w Provider"
  rp_cfg :: RoutingConfig

definition wrapped :: "string \<Rightarrow> ChatResponse result \<times> 'w \<Rightarrow> ChatResponse result \<times> 'w" where
  "wrapped msg r = (case r of (Inl e, w) \<Rightarrow> (Inl (wrap_err msg e), w) | (Inr resp, w) \<Rightarrow> (Inr resp, w))"

definition prefixProvider :: "'w RoutingProvider \<Rightarrow> string \<Rightarrow> 'w Provider option" where
  "prefixProvider p model =
     (if \<not> HasPrefix model ''openrouter/'' \<or> rp_resolver p = None then None
      else (case Registry_Get (rp_resolver p) ''openrouter'' of Inl e \<Rightarrow> None | Inr prov \<Rightarrow> Some prov))"

definition managerChat :: "'w RoutingProvider \<Rightarrow> ChatRequest \<Rightarrow> 'w \<Rightarrow> ChatResponse result \<times> 'w" where
  "managerChat p req w =
     wrapped ''manager chat'' (pr_Chat (rp_manager p) (req\<lparr>cq_Model := rt_ManagerModel (rp_cfg p), cq_Tools := []\<rparr>) w)"

definition executorChat :: "'w RoutingProvider \<Rightarrow> ChatRequest \<Rightarrow> 'w \<Rightarrow> ChatResponse result \<times> 'w" where
  "executorChat p req w = wrapped ''executor chat'' (pr_Chat (rp_executor p) req w)"

definition last_text :: "ChatRequest \<Rightarrow> string" where
  "last_text req = (if cq_Messages req = [] then [] else content_string (Content (last (cq_Messages req))))"

definition classifyInstruction :: string where
  "classifyInstruction = ''Does the user message require tool execution, deep technical analysis, or complex reasoning? Reply ONLY with 'YES' or 'NO'.''"

definition routing_Chat :: "'w RoutingProvider \<Rightarrow> ChatRequest \<Rightarrow> 'w \<Rightarrow> ChatResponse result \<times> 'w" where
  "routing_Chat p req w =
     (case prefixProvider p (cq_Model req) of
        Some op \<Rightarrow> wrapped ''openrouter prefix chat'' (pr_Chat op req w)
      | None \<Rightarrow>
          if \<not> rt_Enabled (rp_cfg p) then wrapped ''executor chat'' (pr_Chat (rp_executor p) req w)
          else
            (let lastMsg = last_text req in
             if cq_Tools req = [] \<and> length lastMsg < 100 then managerChat p req w
             else
               (let classifyReq = \<lparr>cq_Model = rt_ManagerModel (rp_cfg p), cq_Messages = [plain_message RoleUser lastMsg],
                      cq_SystemInstruction = classifyInstruction, cq_Tools = [], cq_MaxTokens = 0\<rparr> in
                case pr_Chat (rp_manager p) classifyReq w of
                  (Inl e, w1) \<Rightarrow> executorChat p req w1
                | (Inr resp, w1) \<Rightarrow>
                    (let decision = TrimSpace (content_string (Content (cp_Message resp))) in
                     if ToUpper decision = ''YES'' then executorChat p req w1
                     else if ToUpper decision \<noteq> ''NO'' then executorChat p req w1
                     else managerChat p req w1))))"

section \<open>Factory\<close>

record 'w Factory =
  fa_GeminiAPIKey :: string
  fa_AnthropicAPIKey :: string
  fa_OpenAIAPIKey :: string
  fa_OpenAIBaseURL :: string
  fa_OpenRouterAPIKey :: string
  fa_OpenRouterBaseURL :: string
  fa_gemini :: "string \<Rightarrow> 'w Provider result"
  fa_anthropic :: "string \<Rightarrow> 'w Provider"
  fa_openai :: "string \<Rightarrow> string \<Rightarrow> 'w Provider"
  fa_openrouter :: "string \<Rightarrow> string \<Rightarrow> 'w Provider"

definition register_named :: "string \<Rightarrow> 'w Provider \<Rightarrow> 'w provider_registry \<Rightarrow> go_error + 'w provider_registry" where
  "register_named msg p r =
     (case Registry_Register p r of (Some e, _) \<Rightarrow> Inl (wrap_err (''register '' @ msg) e) | (None, r1) \<Rightarrow> Inr r1)"

definition routing_provider :: "'w RoutingProvider \<Rightarrow> 'w Provider" where
  "routing_provider p = \<lparr>pr_Name = ''routing'', pr_Chat = routing_Chat p\<rparr>"

definition setupRouting :: "string \<Rightarrow> RoutingConfig \<Rightarrow> 'w provider_registry \<Rightarrow> go_error option \<times> 'w provider_registry" where
  "setupRouting defaultProvider rCfg r =
     (case Registry_Get (Some r) defaultProvider of
        Inl e \<Rightarrow> (Some (wrap_err (''executor provider '' @ Quote defaultProvider) e), r)
      | Inr execProv \<Rightarrow>
          (let mgrProvName = (if rt_ManagerProvider rCfg = [] then defaultProvider else rt_ManagerProvider rCfg) in
           case Registry_Get (Some r) mgrProvName of
             Inl e \<Rightarrow> (Some (wrap_err (''manager provider '' @ Quote mgrProvName) e), r)
           | Inr mgrProv \<Rightarrow>
               Registry_Register (routing_provider \<lparr>rp_resolver = Some r, rp_executor = execProv, rp_manager = mgrProv, rp_cfg = rCfg\<rparr>) r))"

definition init_gemini :: "'w Factory \<Rightarrow> 'w provider_registry \<Rightarrow> go_error + 'w provider_registry" where
  "init_gemini f r =
     (if fa_GeminiAPIKey f = [] then Inr r
      else (case fa_gemini f (fa_GeminiAPIKey f) of Inl e \<Rightarrow> Inl (wrap_err ''gemini client'' e) | Inr p \<Rightarrow> register_named ''gemini'' p r))"

definition init_anthropic :: "'w Factory \<Rightarrow> 'w provider_registry \<Rightarrow> go_error + 'w provider_registry" where
  "init_anthropic f r =
     (if fa_AnthropicAPIKey f = [] then Inr r else register_named ''anthropic'' (fa_anthropic f (fa_AnthropicAPIKey f)) r)"

definition init_openai :: "'w Factory \<Rightarrow> 'w provider_registry \<Rightarrow> go_error + 'w provider_registry" where
  "init_openai f r =
     (if fa_OpenAIAPIKey f = [] \<and> fa_OpenAIBaseURL f = [] then Inr r
      else register_named ''openai'' (fa_openai f (fa_OpenAIAPIKey f) (fa_OpenAIBaseURL f)) r)"

definition init_openrouter :: "'w Factory \<Rightarrow> 'w provider_registry \<Rightarrow> go_error + 'w provider_registry" where
  "init_openrouter f r =
     (if fa_OpenRouterAPIKey f = [] \<and> fa_OpenRouterBaseURL f = [] then Inr r
      else register_named ''openrouter'' (fa_openrouter f (fa_OpenRouterAPIKey f) (fa_OpenRouterBaseURL f)) r)"

text \<open>The steps up to the first that fails.\<close>

fun init_steps :: "('r \<Rightarrow> go_error + 'r) list \<Rightarrow> 'r \<Rightarrow> go_error option \<times> 'r" where
  "init_steps [] r = (None, r)"
| "init_steps (f # fs) r = (case f r of Inl e \<Rightarrow> (Some e, r) | Inr r1 \<Rightarrow> init_steps fs r1)"

definition InitAll :: "'w Factory \<Rightarrow> (string \<times> RoutingConfig) option \<Rightarrow> 'w provider_registry \<Rightarrow> go_error option \<times> 'w provider_registry" where
  "InitAll f cfg r =
     (case init_steps [init_gemini f, init_anthropic f, init_openai f, init_openrouter f] r of
        (Some e, r1) \<Rightarrow> (Some e, r1)
      | (None, r1) \<Rightarrow>
          (case cfg of
             Some (defaultProvider, rCfg) \<Rightarrow> (None, if rt_Enabled rCfg then snd (setupRouting defaultProvider rCfg r1) else r1)
           | None \<Rightarrow> (None, r1)))"

section \<open>Error texts\<close>

definition FormatProviderLog :: "string \<Rightarrow> string \<Rightarrow> string" where
  "FormatProviderLog providerName model = providerName @ '' request: model='' @ model"

definition containsAny :: "string \<Rightarrow> string list \<Rightarrow> bool" where
  "containsAny s subs = list_ex (Contains s) subs"

definition truncateDetail :: "string \<Rightarrow> nat \<Rightarrow> string" where
  "truncateDetail detail maxLen = (if length detail > maxLen then take maxLen detail else detail)"

definition FormatStrategicError :: "string \<Rightarrow> string" where
  "FormatStrategicError e =
     (if containsAny e [''too many tokens'', ''context_length'', ''context window''] then
        ''[STRATEGIC] Context Overflow (400): The conversation history has exceeded the model's limits. Try a shorter message.''
      else if containsAny e [''InternalServerError'', ''500''] then
        ''[STRATEGIC] Upstream Service Error (500): The AI provider is currently unstable. Please wait a moment and try again.''
      else if containsAny e [''RateLimitError'', ''429''] then
        ''[STRATEGIC] Capacity Limit Reached (429): You have hit the provider's rate limit. Throttling active.''
      else if containsAny e [''InvalidRequestError'', ''400''] then
        ''[STRATEGIC] Request Denied (400): The provider rejected the payload formatting. Details: '' @ truncateDetail e 100 @ ''...''
      else ''[STRATEGIC] Provider Communication Failure: '' @ truncateDetail e 150)"

section \<open>Laws\<close>

lemma Registry_Get_Register:
  assumes "Registry_Register p r = (None, r')"
  shows "Registry_Get (Some r') name = (if name = pr_Name p then Inr p else Registry_Get (Some r) name)"
  using assms by (auto simp: Registry_Register_def Registry_Get_def map_add_def split: if_splits option.splits)

definition keyed :: "'w provider_registry \<Rightarrow> bool" where
  "keyed r \<longleftrightarrow> distinct (map fst r) \<and> list_all (\<lambda>(n, p). n = pr_Name p) r"

lemma keyed_Register: "keyed r \<Longrightarrow> keyed (snd (Registry_Register p r))"
  by (auto simp: keyed_def Registry_Register_def map_of_eq_None_iff)

lemma keyed_register_named: "keyed r \<Longrightarrow> register_named msg p r = Inr r' \<Longrightarrow> keyed r'"
  using keyed_Register [of r p] by (auto simp: register_named_def split: prod.splits option.splits)

lemma keyed_setupRouting: "keyed r \<Longrightarrow> keyed (snd (setupRouting d rCfg r))"
  by (auto simp: setupRouting_def Let_def keyed_Register split: sum.splits)

text \<open>The registry stays a map from names to the providers that carry them, whichever step fails.\<close>

lemma keyed_init:
  "keyed r \<Longrightarrow> init_gemini f r = Inr r' \<Longrightarrow> keyed r'" "keyed r \<Longrightarrow> init_anthropic f r = Inr r' \<Longrightarrow> keyed r'"
  "keyed r \<Longrightarrow> init_openai f r = Inr r' \<Longrightarrow> keyed r'" "keyed r \<Longrightarrow> init_openrouter f r = Inr r' \<Longrightarrow> keyed r'"
  by (auto simp: init_gemini_def init_anthropic_def init_openai_def init_openrouter_def split: if_splits sum.splits dest: keyed_register_named)

lemma init_steps_inv: "(\<And>f r r'. f \<in> set fs \<Longrightarrow> P r \<Longrightarrow> f r = Inr r' \<Longrightarrow> P r') \<Longrightarrow> P r \<Longrightarrow> P (snd (init_steps fs r))"
  by (induction fs arbitrary: r) (auto split: sum.splits)

lemma InitAll_keyed:
  assumes "keyed r"
  shows "keyed (snd (InitAll f cfg r))"
proof -
  let ?fs = "[init_gemini f, init_anthropic f, init_openai f, init_openrouter f]"
  have "keyed (snd (init_steps ?fs r))" by (rule init_steps_inv [of ?fs keyed]) (use keyed_init assms in auto)
  then show ?thesis by (auto simp: InitAll_def keyed_setupRouting split: prod.splits option.splits)
qed

text \<open>A request with tools reaches the executor unchanged unless the manager answers no.\<close>

lemma routing_escalates:
  assumes "rt_Enabled (rp_cfg p)" "prefixProvider p (cq_Model req) = None" "cq_Tools req \<noteq> [] \<or> 100 \<le> length (last_text req)"
  obtains r w1 where
    "routing_Chat p req w = (if (\<exists>resp. r = Inr resp \<and> ToUpper (TrimSpace (content_string (Content (cp_Message resp)))) = ''NO'')
       then managerChat p req w1 else executorChat p req w1)"
    "(r, w1) = pr_Chat (rp_manager p) \<lparr>cq_Model = rt_ManagerModel (rp_cfg p), cq_Messages = [plain_message RoleUser (last_text req)],
       cq_SystemInstruction = classifyInstruction, cq_Tools = [], cq_MaxTokens = 0\<rparr> w"
proof -
  let ?c = "\<lparr>cq_Model = rt_ManagerModel (rp_cfg p), cq_Messages = [plain_message RoleUser (last_text req)],
       cq_SystemInstruction = classifyInstruction, cq_Tools = [], cq_MaxTokens = 0\<rparr>"
  obtain r w1 where c: "pr_Chat (rp_manager p) ?c w = (r, w1)" by fastforce
  have n: "\<not> (cq_Tools req = [] \<and> length (last_text req) < 100)" using assms(3) by auto
  show ?thesis
  proof (rule that [of r w1])
    show "routing_Chat p req w = (if (\<exists>resp. r = Inr resp \<and> ToUpper (TrimSpace (content_string (Content (cp_Message resp)))) = ''NO'')
       then managerChat p req w1 else executorChat p req w1)"
      using assms(1,2) n c by (cases r) (auto simp: routing_Chat_def Let_def)
  qed (simp add: c)
qed

end
