(* ===== verification/Subagents.thy ===== *)
theory Subagents
  imports Tool_Schema Shell_Tool Provider_Routing Runner_Laws
begin

text \<open>
  Delegation to sub-agents, \<^verbatim>\<open>internal/app/spawn_tool.go\<close>, and the registration of tools around it in
  \<^verbatim>\<open>internal/app/tools.go\<close>: which tools a sub-agent gets, how one is run, and the fallbacks when it fails. A
  sub-agent is a runner of its own below a session manager without a store.
\<close>

section \<open>Roles and prompts\<close>

definition RoleResearcher :: string where "RoleResearcher = ''researcher''"
definition RoleAnalyst :: string where "RoleAnalyst = ''analyst''"
definition RoleWriter :: string where "RoleWriter = ''writer''"
definition RoleBasicWorker :: string where "RoleBasicWorker = ''basicWorker''"

definition DefaultSpecialistPrompt :: "string \<Rightarrow> string" where
  "DefaultSpecialistPrompt agentType =
    (if agentType = RoleResearcher then
      ''You are a focused research specialist. Your goal is to find current, factual information using '' @
      ''available search tools. MANDATORY: You MUST use the Google AI Search MCP tool first for any '' @
      ''time-sensitive data (news, weather, markets, finance, real estate, tech releases). Prefer '' @
      ''`search_ai` when available; if the MCP proxy is registered under another google-ai-search name, use '' @
      ''that search proxy. Do not use the regular `google_search` tool for the morning briefing unless '' @
      ''Google AI Search is unavailable. Use browser tools only when a result page must be inspected after '' @
      ''search. You are FORBIDDEN from using your internal training data or memory for current events as it '' @
      ''is likely outdated. If search tools return no results or fail, state clearly that the information '' @
      ''could not be found. Do not ask clarifying questions.''
     else if agentType = RoleAnalyst then
      ''You are a strategic analyst. Analyze the given data or situation and return actionable insights in '' @
      ''a structured format. Be direct and evidence-based. Do not ask clarifying questions -- deliver your '' @
      ''analysis.''
     else if agentType = RoleWriter then
      ''You are a professional writer and editor. Produce clear, well-structured content based on the given '' @
      ''objective. Deliver the final written output directly without preamble.''
     else if agentType = RoleBasicWorker then
      ''You are a focused task executor. Complete the given objective directly and return only the result. '' @
      ''No preamble, no explanations, no tool calls '' @
      [CHR 0xE2, CHR 0x80, CHR 0x94] @
      '' just the output.''
     else
      ''You are a specialized sub-agent. Complete the given objective thoroughly and return a structured '' @
      ''summary of your findings. Be concise and direct.'')"

definition spawnToolName :: string where "spawnToolName = ''spawn_subagent''"
definition spawnMaxIterations :: int where "spawnMaxIterations = 5"

definition spawnArgs :: "StructField list" where
  "spawnArgs =
    [StructField ''AgentType'' [] (TBasic KString) [(''json'', ''agent_type''), (''schema'',
      ''The specialist type to spawn. Options: 'researcher' (fact-finding, web research), 'analyst' '' @
      ''(data/situation analysis), 'writer' (drafting content), 'basicWorker' (simple text tasks requiring '' @
      ''no tools: summarization, formatting, classification).'')] False,
     StructField ''Objective'' [] (TBasic KString) [(''json'', ''objective''), (''schema'',
      ''The specific, self-contained task or question for the sub-agent to complete. Be explicit -- the '' @
      ''sub-agent has no conversation context. Required.'')] False]"

definition spawn_Declaration :: ToolDeclaration where
  "spawn_Declaration =
     \<lparr>td_Name = spawnToolName,
      td_Description =
      ''Delegate a complex or research-heavy task to a specialized sub-agent that works independently and '' @
      ''returns a structured summary. Use this when a task would saturate your context window or benefits '' @
      ''from a separate focused agent (e.g. deep research, drafting a long document, multi-step analysis).'',
      td_Parameters = the (DeriveSchema (Some (TStruct spawnArgs))), td_SideEffecting = False\<rparr>"

section \<open>The tool and its runner\<close>

text \<open>
  What the tool reads of the configuration. The default provider is never nil: a runner cannot be built on a nil
  provider, so the guards against nil in the code always hold. The runner factory reads the tools of sub-agents at the
  time of the call, hence its first argument.
\<close>

record SpecialistConfig =
  sc_Model :: string
  sc_Provider :: string

record spawn_config =
  spc_Specialists :: "string \<rightharpoonup> SpecialistConfig"
  spc_DefaultsProvider :: string

record 'w SpawnTool =
  sp_Resolver :: "(string \<Rightarrow> 'w Provider result) option"
  sp_RunnerFactory :: "'w Tool list \<Rightarrow> 'w Provider \<Rightarrow> string \<Rightarrow> string \<Rightarrow> 'w \<Rightarrow> 'w AgentRunner \<times> 'w"
  sp_DefaultProv :: "'w Provider"
  sp_Model :: string
  sp_SpecialistPrompts :: "string \<rightharpoonup> string"
  sp_SpecialistModels :: "string \<rightharpoonup> string"
  sp_Cfg :: "spawn_config option"
  sp_SubTools :: "'w Tool list"

definition SetSubTools :: "'w Tool list \<Rightarrow> 'w SpawnTool \<Rightarrow> 'w SpawnTool" where
  "SetSubTools tools s = s\<lparr>sp_SubTools := tools\<rparr>"

definition DefaultProvider :: "spawn_config \<Rightarrow> string" where
  "DefaultProvider c =
     (let p = spc_DefaultsProvider c in if p = [] \<or> p = ''auto'' then ''gemini'' else p)"

definition SpecialistProvider :: "spawn_config \<Rightarrow> string \<Rightarrow> string" where
  "SpecialistProvider c name =
     (case spc_Specialists c name of
        Some s \<Rightarrow> if sc_Provider s \<noteq> [] \<and> sc_Provider s \<noteq> ''auto'' then sc_Provider s else DefaultProvider c
      | None \<Rightarrow> DefaultProvider c)"

definition SetMaxToolIterations :: "int \<Rightarrow> 'w AgentRunner \<Rightarrow> 'w AgentRunner" where
  "SetMaxToolIterations n r = r\<lparr>ar_MaxToolIterations := n\<rparr>"

definition runner_factory ::
  "'c gobreaker \<Rightarrow> runner_config \<Rightarrow> ('c, 'x) breaker_world_scheme search option \<Rightarrow> ('c, 'x) breaker_world_scheme Tool list \<Rightarrow>
   ('c, 'x) breaker_world_scheme Provider \<Rightarrow> string \<Rightarrow> string \<Rightarrow> ('c, 'x) breaker_world_scheme \<Rightarrow>
   ('c, 'x) breaker_world_scheme AgentRunner \<times> ('c, 'x) breaker_world_scheme" where
  "runner_factory lib rcfg memStore subTools p m systemPrompt w =
     (case NewAgentRunner lib p m systemPrompt rcfg w of
        (runner, w1) \<Rightarrow>
          (let runner1 = runner\<lparr>ar_MemStore := memStore\<rparr>
           in (if length subTools > 0 then SetTools subTools runner1 else runner1, w1)))"

definition newSpawnTool ::
  "'c gobreaker \<Rightarrow> runner_config \<Rightarrow> ('c, 'x) breaker_world_scheme Provider \<Rightarrow> string \<Rightarrow> (string \<rightharpoonup> string) \<Rightarrow> (string \<rightharpoonup> string) \<Rightarrow>
   ('c, 'x) breaker_world_scheme search option \<Rightarrow> spawn_config option \<Rightarrow> (string \<Rightarrow> ('c, 'x) breaker_world_scheme Provider result) option \<Rightarrow>
   ('c, 'x) breaker_world_scheme SpawnTool" where
  "newSpawnTool lib rcfg prov model specialistPrompts specialistModels memStore cfg resolver =
     \<lparr>sp_Resolver = resolver, sp_RunnerFactory = runner_factory lib rcfg memStore, sp_DefaultProv = prov, sp_Model = model,
      sp_SpecialistPrompts = specialistPrompts, sp_SpecialistModels = specialistModels, sp_Cfg = cfg, sp_SubTools = []\<rparr>"

definition buildSpecialistModels :: "(string \<rightharpoonup> SpecialistConfig) \<Rightarrow> (string \<rightharpoonup> string)" where
  "buildSpecialistModels specialists agentType =
     (case specialists agentType of
        Some sc \<Rightarrow> if sc_Model sc \<noteq> [] then Some (sc_Model sc) else None
      | None \<Rightarrow> None)"

definition resolveProvider :: "'w SpawnTool \<Rightarrow> string \<Rightarrow> 'w Provider" where
  "resolveProvider t name =
     (case sp_Resolver t of
        Some get \<Rightarrow> (case get name of Inr prov \<Rightarrow> prov | Inl _ \<Rightarrow> sp_DefaultProv t)
      | None \<Rightarrow> sp_DefaultProv t)"

section \<open>Counting the runs of a sub-agent\<close>

text \<open>
  \<^verbatim>\<open>iterLimitRunner\<close> keeps a counter beside the world. The session manager of a sub-agent runs on such pairs; its
  surroundings act on the world only. It has no store, so it never starts a compaction in the background.
\<close>

definition iterLimitRunner :: "int \<Rightarrow> 'w Session.Runner \<Rightarrow> ('w \<times> int) Session.Runner" where
  "iterLimitRunner limit inner =
     \<lparr>ru_Run = (\<lambda>sessionKey userID messages (w, Count).
        (let Count = Count + 1 in
         if Count > limit then
           (Inl (ErrorNew (''spawn: sub-agent exceeded maximum iterations ('' @ Itoa limit @ '')'')), (w, Count))
         else
           (case ru_Run inner sessionKey userID messages w of
              (Inl e, w1) \<Rightarrow> (Inl (wrap_err ''run'' e), (w1, Count))
            | (Inr x, w1) \<Rightarrow> (Inr x, (w1, Count))))),
      ru_RunText = (\<lambda>sessionKey prompt modelOverride (w, Count).
        (case ru_RunText inner sessionKey prompt modelOverride w of
           (Inl e, w1) \<Rightarrow> (Inl (wrap_err ''run text'' e), (w1, Count))
         | (Inr x, w1) \<Rightarrow> (Inr x, (w1, Count))))\<rparr>"

definition beside :: "('w \<Rightarrow> 'a \<times> 'w) \<Rightarrow> 'w \<times> int \<Rightarrow> 'a \<times> ('w \<times> int)" where
  "beside f wn = (case f (fst wn) of (a, w) \<Rightarrow> (a, (w, snd wn)))"

definition sub_env :: "'w Env \<Rightarrow> ('w \<times> int) Env" where
  "sub_env env =
     \<lparr>env_ctxErr = beside (env_ctxErr env), env_now = beside (env_now env), env_stamp = beside (env_stamp env),
      env_acquireLock = (\<lambda>k d (w, n). (env_acquireLock env k d w, n)), env_Lock = (\<lambda>k. beside (env_Lock env k)),
      env_Unlock = (\<lambda>k (w, n). (env_Unlock env k w, n)), env_release = (\<lambda>k (w, n). (env_release env k w, n)),
      env_journal = (\<lambda>dir entry. beside (env_journal env dir entry)), env_spawn_compaction = (\<lambda>k st wn. wn), env_fl = env_fl env\<rparr>"

section \<open>One attempt\<close>

definition run_built ::
  "('c, 'x) breaker_world_scheme Env \<Rightarrow> ('c, ('c, 'x) breaker_world_scheme) runner_env \<Rightarrow> ('c, 'x) breaker_world_scheme AgentRunner \<Rightarrow>
   string \<Rightarrow> string \<Rightarrow> string \<Rightarrow> string \<Rightarrow> ('c, 'x) breaker_world_scheme \<Rightarrow> (string result \<times> int) \<times> ('c, 'x) breaker_world_scheme" where
  "run_built senv renv subRunner model subKey userID objective w =
     (let subRunner1 = SetMaxToolIterations spawnMaxIterations subRunner;
          limitedRunner = iterLimitRunner spawnMaxIterations (as_runner renv subRunner1);
          subMgr = NewSessionManager limitedRunner None model
      in case Dispatch (sub_env senv) subMgr subKey userID objective (w, 0) of
           (r, (w2, Count)) \<Rightarrow> ((r, Count), w2))"

definition run_subagent ::
  "('c, 'x) breaker_world_scheme Env \<Rightarrow> ('c, ('c, 'x) breaker_world_scheme) runner_env \<Rightarrow> ('c, 'x) breaker_world_scheme SpawnTool \<Rightarrow>
   ('c, 'x) breaker_world_scheme Provider \<Rightarrow> string \<Rightarrow> string \<Rightarrow> string \<Rightarrow> string \<Rightarrow> string \<Rightarrow> ('c, 'x) breaker_world_scheme \<Rightarrow>
   (string result \<times> int) \<times> ('c, 'x) breaker_world_scheme" where
  "run_subagent senv renv t prov model systemPrompt subKey userID objective w =
     (case sp_RunnerFactory t (sp_SubTools t) prov model systemPrompt w of
        (subRunner, w1) \<Rightarrow> run_built senv renv subRunner model subKey userID objective w1)"

definition elapsed_ms :: "instant \<Rightarrow> instant \<Rightarrow> string" where
  "elapsed_ms start now = Itoa (go_div (now - start) millisecond)"

section \<open>Fallbacks\<close>

text \<open>The loop over the fallback keys; the second component is what the attempt that answered sets as metadata.\<close>

fun try_fallback_keys ::
  "('c, 'x) breaker_world_scheme Env \<Rightarrow> ('c, ('c, 'x) breaker_world_scheme) runner_env \<Rightarrow> ('c, 'x) breaker_world_scheme SpawnTool \<Rightarrow>
   spawn_config \<Rightarrow> string \<Rightarrow> string \<Rightarrow> string \<Rightarrow> string \<Rightarrow> string \<Rightarrow> string \<Rightarrow> instant \<Rightarrow> string list \<Rightarrow> ('c, 'x) breaker_world_scheme \<Rightarrow>
   (string \<times> ToolMeta) option \<times> ('c, 'x) breaker_world_scheme" where
  "try_fallback_keys senv renv t cfg subKey userID objective agentType systemPrompt failedModel start [] w = (None, w)"
| "try_fallback_keys senv renv t cfg subKey userID objective agentType systemPrompt failedModel start (key # keys) w =
     (case spc_Specialists cfg key of
        None \<Rightarrow> try_fallback_keys senv renv t cfg subKey userID objective agentType systemPrompt failedModel start keys w
      | Some spec \<Rightarrow>
          if TrimSpace (sc_Model spec) = [] \<or> sc_Model spec = failedModel
          then try_fallback_keys senv renv t cfg subKey userID objective agentType systemPrompt failedModel start keys w
          else
            (let altProv = resolveProvider t (SpecialistProvider cfg key) in
             case run_subagent senv renv t altProv (sc_Model spec) systemPrompt subKey userID objective w of
               ((Inr reply, Count), w1) \<Rightarrow>
                 (case env_now senv w1 of
                    (now, w2) \<Rightarrow>
                      (Some (reply, [(''agent_type'', agentType), (''fallback_key'', key), (''model'', sc_Model spec),
                         (''provider'', pr_Name altProv), (''elapsed_ms'', elapsed_ms start now), (''iterations'', Itoa Count)]), w2))
             | ((Inl e, Count), w1) \<Rightarrow>
                 try_fallback_keys senv renv t cfg subKey userID objective agentType systemPrompt failedModel start keys w1))"

definition tryConfiguredModelFallbacks ::
  "('c, 'x) breaker_world_scheme Env \<Rightarrow> ('c, ('c, 'x) breaker_world_scheme) runner_env \<Rightarrow> ('c, 'x) breaker_world_scheme SpawnTool \<Rightarrow>
   string \<Rightarrow> string \<Rightarrow> string \<Rightarrow> string \<Rightarrow> string \<Rightarrow> string \<Rightarrow> instant \<Rightarrow> ('c, 'x) breaker_world_scheme \<Rightarrow>
   (string \<times> ToolMeta) option \<times> ('c, 'x) breaker_world_scheme" where
  "tryConfiguredModelFallbacks senv renv t subKey userID objective agentType systemPrompt failedModel start w =
     (case sp_Cfg t of
        None \<Rightarrow> (None, w)
      | Some cfg \<Rightarrow>
          try_fallback_keys senv renv t cfg subKey userID objective agentType systemPrompt failedModel start
            [agentType @ ''_fallback'', agentType @ ''_escalation''] w)"

definition configured_or_error ::
  "('c, 'x) breaker_world_scheme Env \<Rightarrow> ('c, ('c, 'x) breaker_world_scheme) runner_env \<Rightarrow> ('c, 'x) breaker_world_scheme SpawnTool \<Rightarrow>
   string \<Rightarrow> string \<Rightarrow> string \<Rightarrow> string \<Rightarrow> string \<Rightarrow> string \<Rightarrow> instant \<Rightarrow> go_error \<Rightarrow> ('c, 'x) breaker_world_scheme \<Rightarrow>
   (tool_return \<times> ToolMeta) \<times> ('c, 'x) breaker_world_scheme" where
  "configured_or_error senv renv t subKey userID objective agentType systemPrompt failedModel start originalErr w =
     (case tryConfiguredModelFallbacks senv renv t subKey userID objective agentType systemPrompt failedModel start w of
        (Some (reply, m), w1) \<Rightarrow> ((ToolReturned reply None, m), w1)
      | (None, w1) \<Rightarrow>
          ((ToolReturned [] (Some (wrap_err (''sub-agent '' @ agentType @ '' failed to complete the task'') originalErr)), []), w1))"

definition handleFallback ::
  "('c, 'x) breaker_world_scheme Env \<Rightarrow> ('c, ('c, 'x) breaker_world_scheme) runner_env \<Rightarrow> ('c, 'x) breaker_world_scheme SpawnTool \<Rightarrow>
   string \<Rightarrow> string \<Rightarrow> string \<Rightarrow> string \<Rightarrow> string \<Rightarrow> ('c, 'x) breaker_world_scheme Provider \<Rightarrow> string \<Rightarrow> instant \<Rightarrow> go_error \<Rightarrow>
   ('c, 'x) breaker_world_scheme \<Rightarrow> (tool_return \<times> ToolMeta) \<times> ('c, 'x) breaker_world_scheme" where
  "handleFallback senv renv t subKey userID objective agentType systemPrompt failedProv failedModel start originalErr w =
     (let rest = configured_or_error senv renv t subKey userID objective agentType systemPrompt failedModel start originalErr in
      if sp_Cfg t \<noteq> None \<and> pr_Name failedProv \<noteq> pr_Name (sp_DefaultProv t) then
        (case run_subagent senv renv t (sp_DefaultProv t) (sp_Model t) systemPrompt subKey userID objective w of
           ((Inr fallbackReply, Count), w1) \<Rightarrow>
             (case env_now senv w1 of
                (now, w2) \<Rightarrow>
                  ((ToolReturned fallbackReply None,
                    [(''agent_type'', agentType), (''model'', sp_Model t), (''provider'', pr_Name (sp_DefaultProv t)),
                     (''elapsed_ms'', elapsed_ms start now), (''iterations'', Itoa Count)]), w2))
         | ((Inl fallbackErr, Count), w1) \<Rightarrow> rest w1)
      else rest w)"

section \<open>The tool\<close>

definition spawn_Execute ::
  "('c, 'x) breaker_world_scheme Env \<Rightarrow> ('c, ('c, 'x) breaker_world_scheme) runner_env \<Rightarrow> ('c, 'x) breaker_world_scheme SpawnTool \<Rightarrow>
   string \<Rightarrow> string \<Rightarrow> json_object option \<Rightarrow> ('c, 'x) breaker_world_scheme \<Rightarrow> (tool_return \<times> ToolMeta) \<times> ('c, 'x) breaker_world_scheme" where
  "spawn_Execute senv renv t sessionKey userID args w =
     (let args = (case args of None \<Rightarrow> [] | Some a \<Rightarrow> a);
          agentType = stringVal args ''agent_type'';
          objective = stringVal args ''objective''
      in if objective = [] then ((ToolReturned [] (Some (ErrorNew ''spawn: objective is required'')), []), w)
         else
           (let agentType = (if agentType = [] then RoleResearcher else agentType);
                systemPrompt = (case sp_SpecialistPrompts t agentType of None \<Rightarrow> [] | Some p \<Rightarrow> p);
                systemPrompt = (if systemPrompt = [] then DefaultSpecialistPrompt agentType else systemPrompt);
                model = (case sp_SpecialistModels t agentType of None \<Rightarrow> [] | Some m \<Rightarrow> m);
                model = (if model = [] then sp_Model t else model);
                prov = (case sp_Cfg t of
                          Some cfg \<Rightarrow> resolveProvider t (SpecialistProvider cfg agentType)
                        | None \<Rightarrow> sp_DefaultProv t);
                subKey = ''agent:'' @ agentType @ '':'' @ sessionKey
            in case sp_RunnerFactory t (sp_SubTools t) prov model systemPrompt w of
                 (subRunner, w0) \<Rightarrow> case env_now senv w0 of
                 (start, w1) \<Rightarrow>
                   (case run_built senv renv subRunner model subKey userID objective w1 of
                      ((r, Count), w2) \<Rightarrow>
                        (case env_now senv w2 of
                           (now, w3) \<Rightarrow>
                             (case r of
                                Inl err \<Rightarrow>
                                  handleFallback senv renv t subKey userID objective agentType systemPrompt prov model start err w3
                              | Inr reply \<Rightarrow>
                                  ((ToolReturned reply None,
                                    [(''agent_type'', agentType), (''model'', model), (''provider'', pr_Name prov),
                                     (''elapsed_ms'', elapsed_ms start now), (''iterations'', Itoa Count)]), w3))))))"

definition spawn_tool ::
  "('c, 'x) breaker_world_scheme Env \<Rightarrow> ('c, ('c, 'x) breaker_world_scheme) runner_env \<Rightarrow> ('c, 'x) breaker_world_scheme SpawnTool \<Rightarrow>
   ('c, 'x) breaker_world_scheme Tool" where
  "spawn_tool senv renv t = \<lparr>to_Declaration = spawn_Declaration, to_Execute = spawn_Execute senv renv t\<rparr>"

section \<open>Registration\<close>

text \<open>
  A registered tool is the delegation tool or another one; \<^verbatim>\<open>Name\<close> returns the declared name in every tool of the program.
  The delegation tool is shared by reference: wiring changes it in the list.
\<close>

datatype 'w app_tool = Spawn "'w SpawnTool" | Other "'w Tool"

fun decl_of :: "'w app_tool \<Rightarrow> ToolDeclaration" where
  "decl_of (Spawn s) = spawn_Declaration"
| "decl_of (Other t) = to_Declaration t"

fun sub_tools :: "'w app_tool list \<Rightarrow> 'w Tool list" where
  "sub_tools [] = []"
| "sub_tools (t # ts) =
     (if td_Name (decl_of t) = spawnToolName then sub_tools ts
      else if td_SideEffecting (decl_of t) then sub_tools ts
      else (case t of Other o1 \<Rightarrow> o1 # sub_tools ts | Spawn s \<Rightarrow> sub_tools ts))"

fun set_first_spawn :: "'w Tool list \<Rightarrow> 'w app_tool list \<Rightarrow> 'w app_tool list" where
  "set_first_spawn sub [] = []"
| "set_first_spawn sub (Spawn s # ts) = Spawn (SetSubTools sub s) # ts"
| "set_first_spawn sub (Other t # ts) = Other t # set_first_spawn sub ts"

definition wireSubTools :: "'w app_tool list \<Rightarrow> 'w app_tool list" where
  "wireSubTools tools = set_first_spawn (sub_tools tools) tools"

section \<open>What a delegation costs\<close>

text \<open>
  The surroundings of a delegation cost nothing: the locks and clocks of the session manager, the parts of the runner's
  world that are neither the provider nor a tool, and building a runner, which adds a circuit breaker.
\<close>

definition quiet ::
  "(nat \<Rightarrow> ('c, 'x) breaker_world_scheme \<Rightarrow> ('c, 'x) breaker_world_scheme \<Rightarrow> bool) \<Rightarrow> ('c, 'x) breaker_world_scheme Env \<Rightarrow>
   ('c, ('c, 'x) breaker_world_scheme) runner_env \<Rightarrow> bool" where
  "quiet G senv renv \<longleftrightarrow>
     graded G \<and> (\<forall>w. G 0 w (snd (env_now senv w))) \<and> (\<forall>w. G 0 w (snd (env_stamp senv w))) \<and>
     (\<forall>k d w. G 0 w (env_acquireLock senv k d w)) \<and> (\<forall>k w. G 0 w (snd (env_Lock senv k w))) \<and>
     (\<forall>k w. G 0 w (env_Unlock senv k w)) \<and> (\<forall>k w. G 0 w (env_release senv k w)) \<and>
     (\<forall>w. G 0 w (snd (rv_LimiterWait renv w))) \<and> (\<forall>d w. G 0 w (snd (rv_After renv d w))) \<and>
     (\<forall>w. G 0 w (snd (rv_randText renv w))) \<and> (\<forall>w. G 0 w (snd (rv_now renv w))) \<and> (\<forall>d w. G 0 w (rv_set_db renv d w)) \<and>
     (\<forall>cbs w. G 0 w (w\<lparr>bw_cbs := cbs\<rparr>)) \<and> (\<forall>st w. G 0 w (w\<lparr>bw_stats := st\<rparr>)) \<and>
     (\<forall>bs w. G 0 w (w\<lparr>bw_breakers := bs\<rparr>)) \<and> (\<forall>m w. G 0 w (w\<lparr>bw_registry := m\<rparr>))"

definition read_only_tools :: "(nat \<Rightarrow> 'w \<Rightarrow> 'w \<Rightarrow> bool) \<Rightarrow> 'w app_tool list \<Rightarrow> bool" where
  "read_only_tools G tools \<longleftrightarrow>
     (\<forall>o1. Other o1 \<in> set tools \<longrightarrow> td_Name (to_Declaration o1) \<noteq> spawnToolName \<longrightarrow> \<not> td_SideEffecting (to_Declaration o1) \<longrightarrow>
        (\<forall>sk u args w. G 0 w (snd (to_Execute o1 sk u args w))))"

definition providers_cost :: "(nat \<Rightarrow> 'w \<Rightarrow> 'w \<Rightarrow> bool) \<Rightarrow> 'w Provider \<Rightarrow> (string \<Rightarrow> 'w Provider result) option \<Rightarrow> bool" where
  "providers_cost G dflt resolver \<longleftrightarrow>
     (\<forall>p. p = dflt \<or> (\<exists>get name. resolver = Some get \<and> get name = Inr p) \<longrightarrow> (\<forall>q w. G 1 w (snd (pr_Chat p q w))))"

text \<open>The tools a sub-agent may get, when an execution of one costs at most \<open>c\<close> (\<^verbatim>\<open>web_extract\<close> calls the provider
  itself), and the providers, when an answer asks for at most \<open>k\<close> tools.\<close>

definition sub_tools_cost :: "nat \<Rightarrow> (nat \<Rightarrow> 'w \<Rightarrow> 'w \<Rightarrow> bool) \<Rightarrow> 'w app_tool list \<Rightarrow> bool" where
  "sub_tools_cost c G tools \<longleftrightarrow>
     (\<forall>o1. Other o1 \<in> set tools \<longrightarrow> td_Name (to_Declaration o1) \<noteq> spawnToolName \<longrightarrow> \<not> td_SideEffecting (to_Declaration o1) \<longrightarrow>
        (\<forall>sk u args w. G c w (snd (to_Execute o1 sk u args w))))"

definition answers_within :: "nat \<Rightarrow> 'w Provider \<Rightarrow> (string \<Rightarrow> 'w Provider result) option \<Rightarrow> bool" where
  "answers_within k dflt resolver \<longleftrightarrow>
     (\<forall>p. p = dflt \<or> (\<exists>get name. resolver = Some get \<and> get name = Inr p) \<longrightarrow> answer_width k p)"

lemma read_only_cost: "read_only_tools G tools = sub_tools_cost 0 G tools"
  by (simp add: read_only_tools_def sub_tools_cost_def)

text \<open>One attempt of a sub-agent: five iterations of four calls of its own and \<open>k\<close> tools of cost \<open>c\<close>.\<close>

definition attempt_cost :: "nat \<Rightarrow> nat \<Rightarrow> nat" where
  "attempt_cost k c = 20 + k * c * 5"

lemma quietD:
  assumes "quiet G senv renv"
  shows "graded G" "G 0 w (snd (env_now senv w))" "G 0 w (snd (env_stamp senv w))" "G 0 w (env_acquireLock senv k d w)"
    "G 0 w (snd (env_Lock senv k w))" "G 0 w (env_Unlock senv k w)" "G 0 w (env_release senv k w)"
    "G 0 w (w\<lparr>bw_cbs := cbs\<rparr>)" "G 0 w (w\<lparr>bw_breakers := bs\<rparr>)" "G 0 w (w\<lparr>bw_registry := m\<rparr>)"
  using assms by (simp_all add: quiet_def)

lemma sub_tools_iff:
  "o1 \<in> set (sub_tools tools) \<longleftrightarrow> Other o1 \<in> set tools \<and> td_Name (to_Declaration o1) \<noteq> spawnToolName \<and> \<not> td_SideEffecting (to_Declaration o1)"
  by (induction tools) (auto split: app_tool.splits)

lemma fold_set_tool_range:
  "map_of (fst (fold set_tool ts acc)) name = Some t \<Longrightarrow> t \<in> set ts \<or> map_of (fst acc) name = Some t"
proof (induction ts arbitrary: acc)
  case (Cons a ts)
  then have "t \<in> set ts \<or> map_of (fst (set_tool a acc)) name = Some t" by simp
  then show ?case by (auto simp: set_tool_def Let_def update_conv' split: if_splits)
qed simp

lemma SetTools_range: "map_of (ar_ToolsByName (SetTools ts r)) name = Some t \<Longrightarrow> t \<in> set ts"
  using fold_set_tool_range [of ts "([], [])" name t] by (simp add: SetTools_def case_prod_beta)

lemma SetTools_lookup:
  "map_of (ar_ToolsByName (SetTools ts r)) name = Some t \<Longrightarrow> t \<in> set ts \<and> td_Name (to_Declaration t) = name"
proof -
  have "map_of (fst (fold set_tool ts acc)) name = Some t \<Longrightarrow>
      (t \<in> set ts \<and> td_Name (to_Declaration t) = name) \<or> map_of (fst acc) name = Some t" for acc
  proof (induction ts arbitrary: acc)
    case (Cons a ts)
    then have "(t \<in> set ts \<and> td_Name (to_Declaration t) = name) \<or> map_of (fst (set_tool a acc)) name = Some t" by simp
    then show ?case by (auto simp: set_tool_def Let_def update_conv' split: if_splits)
  qed simp
  from this [of "([], [])"] show "map_of (ar_ToolsByName (SetTools ts r)) name = Some t \<Longrightarrow> ?thesis"
    by (simp add: SetTools_def case_prod_beta)
qed

lemma SetTools_other:
  "ar_Prov (SetTools ts r) = ar_Prov r" "ar_MemStore (SetTools ts r) = ar_MemStore r" "ar_Hybrid (SetTools ts r) = ar_Hybrid r"
  "ar_MemStoreProvider (SetTools ts r) = ar_MemStoreProvider r" "ar_Hooks (SetTools ts r) = ar_Hooks r"
  "ar_EnableReflection (SetTools ts r) = ar_EnableReflection r" "ar_IdempStore (SetTools ts r) = ar_IdempStore r"
  "ar_Tracer (SetTools ts r) = ar_Tracer r"
  by (simp_all add: SetTools_def case_prod_beta)

lemma runner_factory_fields:
  assumes "runner_factory lib rcfg mem sub p m prompt w = (r, w1)"
  shows "ar_Prov r = p" "ar_MemStore r = mem" "ar_Hybrid r = None" "ar_MemStoreProvider r = None" "ar_Hooks r = None"
    "\<not> ar_EnableReflection r" "map_of (ar_ToolsByName r) name = Some t \<Longrightarrow> t \<in> set sub"
    "ar_IdempStore r = None" "ar_Tracer r = None"
  using assms SetTools_range [of sub _ name t]
  by (auto simp: runner_factory_def NewAgentRunner_def Let_def SetTools_other split: prod.splits if_splits)

lemma runner_factory_world:
  assumes "quiet G senv renv"
  shows "G 0 w (snd (runner_factory lib rcfg mem sub p m prompt w))"
proof -
  note g = quietD(1) [OF assms]
  have "G 0 w (snd (New lib n a b c w))" for n a b c
  proof -
    let ?s = "breaker_settings n a b c"
    let ?w1 = "w\<lparr>bw_cbs := bw_cbs w @ [gb_New lib ?s]\<rparr>"
    let ?w2 = "?w1\<lparr>bw_breakers := bw_breakers w @ [\<lparr>b_cb = length (bw_cbs w), b_settings = ?s\<rparr>]\<rparr>"
    have "G 0 w ?w2" by (rule graded_after [OF g quietD(8) [OF assms] quietD(9) [OF assms]])
    then have "G 0 w (?w2\<lparr>bw_registry := (bw_registry ?w2)(n \<mapsto> length (bw_breakers w))\<rparr>)"
      by (rule graded_after [OF g _ quietD(10) [OF assms]])
    then show ?thesis by (simp add: New_def Register_def Let_def)
  qed
  then show ?thesis by (simp add: runner_factory_def NewAgentRunner_def Let_def case_prod_beta)
qed

lemma runner_factory_grade:
  assumes Q: "quiet G senv renv" and P: "\<And>q w. G 1 w (snd (pr_Chat p q w))" and M: "search_grade G mem"
    and T: "\<And>t sk u args w. t \<in> set sub \<Longrightarrow> G c w (snd (to_Execute t sk u args w))"
    and r: "runner_factory lib rcfg mem sub p m prompt w = (r, w1)"
  shows "tool_grade c G renv (SetMaxToolIterations n r)"
proof -
  have "G c w (snd (to_Execute t sk u args w))" if "map_of (ar_ToolsByName r) name = Some t" for name t sk u args w
    using T runner_factory_fields(7) [OF r that] .
  with Q P M show ?thesis
    by (simp add: tool_grade_def quiet_def SetMaxToolIterations_def search_grade_def runner_factory_fields(1-5) [OF r])
qed

text \<open>The session manager of a sub-agent has no history, store, hooks or tracer: a dispatch is one run between quiet steps.\<close>

definition on_world :: "(nat \<Rightarrow> 'w \<Rightarrow> 'w \<Rightarrow> bool) \<Rightarrow> nat \<Rightarrow> 'w \<times> int \<Rightarrow> 'w \<times> int \<Rightarrow> bool" where
  "on_world G n a b = G n (fst a) (fst b)"

lemma graded_on_world: "graded G \<Longrightarrow> graded (on_world G)"
  unfolding graded_def on_world_def by fast

lemma stamp_newest_grade:
  assumes "graded G" "\<And>w. G 0 w (snd (stamp w))"
  shows "G 0 w (snd (stamp_newest stamp msgs w))"
proof (induction msgs arbitrary: w)
  case (Cons m msgs)
  show ?case
  proof (cases "CreatedAt m = []")
    case True
    then show ?thesis unfolding stamp_newest.simps if_P [OF True]
      by (intro graded_keep [OF assms]) (simp add: case_prod_beta Cons)
  qed (simp add: graded_refl [OF assms(1)])
qed (simp add: graded_refl [OF assms(1)])

lemma addMissingTimestamps_grade:
  assumes "graded G" "\<And>w. G 0 w (snd (env_stamp env w))"
  shows "G 0 w (snd (addMissingTimestamps env msgs w))"
  using stamp_newest_grade [of G "env_stamp env" w "rev msgs", OF assms] by (simp add: addMissingTimestamps_def case_prod_beta)

lemma iterLimit_Run_grade:
  assumes "\<And>sk u ms w. G n w (snd (ru_Run inner sk u ms w))" "graded G"
  shows "on_world G n wn (snd (ru_Run (iterLimitRunner limit inner) sk u ms wn))"
proof -
  obtain w i where wn: "wn = (w, i)" by (cases wn)
  have "G n w w" using graded_mono [OF assms(2) graded_refl [OF assms(2)]] by simp
  then show ?thesis using assms(1) [of w sk u ms] wn
    by (auto simp: iterLimitRunner_def on_world_def Let_def case_prod_beta split: sum.splits prod.splits)
qed

lemma prepareHistory_Nil:
  "prepareHistory env (NewSessionManager ru st model) sk [] w = ([], snd (env_now env w))"
  by (simp add: prepareHistory_def NewSessionManager_def PruneMessages_def summarizeHistoryIfNeeded_def IsSummarizationEnabled_def
      compactHistoryIfNeeded_def CompactMessages_def DefaultMaxContextMessages_def Let_def case_prod_beta)

lemma bare_fields:
  "sm_runner (NewSessionManager ru st model) = ru" "sm_hooks (NewSessionManager ru st model) = None"
  "sm_tracer (NewSessionManager ru st model) = None" "sm_store (NewSessionManager ru st model) = st"
  "sm_storeProvider (NewSessionManager ru st model) = None"
  by (simp_all add: NewSessionManager_def)

lemma bare_dispatch_grade:
  assumes g: "graded H" and now: "\<And>w. H 0 w (snd (env_now env w))" and stamp: "\<And>w. H 0 w (snd (env_stamp env w))"
    and run: "\<And>sk u ms w. H n w (snd (ru_Run ru sk u ms w))"
  shows "H n w (snd (dispatch env (NewSessionManager ru None model) sk u obj [] 0 False None w))"
proof -
  let ?w1 = "snd (env_now env w)"
  let ?s = "fst (env_stamp env ?w1)" and ?w2 = "snd (env_stamp env ?w1)"
  let ?run = "ru_Run ru sk u [text_message RoleUser (fst (StripSilent obj)) ?s] ?w2"
  have "H 0 w ?w2" by (rule graded_after [OF g now stamp])
  then have w3: "H n w (snd ?run)" by (rule graded_before [OF g _ run])
  then have "H n w (snd (addMissingTimestamps env ms (snd ?run)))" for ms
    by (rule graded_after [OF g _ addMissingTimestamps_grade [OF g stamp]])
  with w3 show ?thesis
    by (cases "fst ?run") (simp_all add: dispatch_def prepareHistory_Nil Let_def case_prod_beta persistResult_def bare_fields)
qed

lemma sub_Dispatch_grade:
  assumes Q: "quiet G senv renv" and run: "\<And>sk u ms w. G n w (snd (ru_Run inner sk u ms w))"
  shows "G n w (fst (snd (Dispatch (sub_env senv) (NewSessionManager (iterLimitRunner limit inner) None model) sk u obj (w, 0))))"
proof -
  let ?H = "on_world G" and ?env = "sub_env senv" and ?m = "NewSessionManager (iterLimitRunner limit inner) None model"
  note g = graded_on_world [OF quietD(1) [OF Q]]
  have now: "?H 0 v (snd (env_now ?env v))" and stamp: "?H 0 v (snd (env_stamp ?env v))" and lock: "?H 0 v (snd (env_Lock ?env k v))"
    and acq: "?H 0 v (env_acquireLock ?env k d v)" and unl: "?H 0 v (env_Unlock ?env k v)" and rel: "?H 0 v (env_release ?env k v)"
    for v k d
    using quietD(2-7) [OF Q] by (simp_all add: sub_env_def on_world_def beside_def case_prod_beta)
  have disp: "?H n v (snd (dispatch ?env ?m sk u obj [] 0 False None v))" for v
    by (rule bare_dispatch_grade [OF g now stamp iterLimit_Run_grade [OF run quietD(1) [OF Q]]])
  let ?w1 = "env_acquireLock ?env sk (sm_lockTimeout ?m) (w, 0)"
  let ?w2 = "snd (env_Lock ?env sk ?w1)"
  have w2: "?H 0 (w, 0) ?w2" by (rule graded_after [OF g acq lock])
  have "?H n (w, 0) (env_release ?env sk ?w2)"
    by (rule graded_mono [OF g graded_after [OF g w2 rel]]) simp
  moreover have "?H n (w, 0) (env_release ?env sk (env_Unlock ?env sk (snd (dispatch ?env ?m sk u obj [] 0 False None ?w2))))"
    by (rule graded_after [OF g graded_after [OF g graded_before [OF g w2 disp] unl] rel])
  ultimately have "?H n (w, 0) (snd (Dispatch ?env ?m sk u obj (w, 0)))"
    by (simp add: Dispatch_def resolveStore_def loadHistory_def bare_fields Let_def case_prod_beta split: option.splits prod.splits)
  then show ?thesis by (simp add: on_world_def)
qed

text \<open>The delegation tool as the program registers it, with what its collaborators cost.\<close>

definition delegates ::
  "nat \<Rightarrow> nat \<Rightarrow> (nat \<Rightarrow> ('c, 'x) breaker_world_scheme \<Rightarrow> ('c, 'x) breaker_world_scheme \<Rightarrow> bool) \<Rightarrow> 'c gobreaker \<Rightarrow> runner_config \<Rightarrow>
   ('c, 'x) breaker_world_scheme search option \<Rightarrow> ('c, 'x) breaker_world_scheme SpawnTool \<Rightarrow> bool" where
  "delegates k c G lib rcfg mem t \<longleftrightarrow>
     sp_RunnerFactory t = runner_factory lib rcfg mem \<and> search_grade G mem \<and>
     providers_cost G (sp_DefaultProv t) (sp_Resolver t) \<and>
     (c = 0 \<or> answers_within k (sp_DefaultProv t) (sp_Resolver t)) \<and>
     (\<forall>o1 \<in> set (sp_SubTools t). \<forall>sk u args w. G c w (snd (to_Execute o1 sk u args w)))"

lemma run_built_grade:
  assumes Q: "quiet G senv renv" and t: "delegates k c G lib rcfg mem t" and p: "\<And>q w. G 1 w (snd (pr_Chat p q w))"
    and k: "c = 0 \<or> answer_width k p"
    and r: "runner_factory lib rcfg mem (sp_SubTools t) p model prompt w0 = (r, w1)"
  shows "G (attempt_cost k c) w (snd (run_built senv renv r model subKey u obj w))"
proof -
  let ?r = "SetMaxToolIterations spawnMaxIterations r"
  have W: "tool_grade c G renv ?r"
    using t by (intro runner_factory_grade [OF Q p _ _ r]) (auto simp: delegates_def)
  have kr: "c = 0 \<or> answer_width k (ar_Prov ?r)"
    using k runner_factory_fields(1) [OF r] by (simp add: SetMaxToolIterations_def)
  have "\<not> ar_EnableReflection ?r" using runner_factory_fields(6) [OF r] by (simp add: SetMaxToolIterations_def)
  then have run: "G (attempt_cost k c) v (snd (Run renv ?r sk us ms v))" for sk us ms v
    using Run_grade [OF W kr, of v sk us ms] by (simp add: turn_cost_def attempt_cost_def SetMaxToolIterations_def spawnMaxIterations_def)
  have "G (attempt_cost k c) w (fst (snd (Dispatch (sub_env senv)
      (NewSessionManager (iterLimitRunner spawnMaxIterations (as_runner renv ?r)) None model) subKey u obj (w, 0))))"
    by (rule sub_Dispatch_grade [OF Q]) (simp add: as_runner_def run)
  then show ?thesis by (simp add: run_built_def case_prod_beta Let_def)
qed

lemma built_world:
  assumes "quiet G senv renv" "delegates k c G lib rcfg mem t" "sp_RunnerFactory t (sp_SubTools t) p model prompt w = (r, w1)"
  shows "runner_factory lib rcfg mem (sp_SubTools t) p model prompt w = (r, w1)" "G 0 w w1"
proof -
  from assms(2,3) show "runner_factory lib rcfg mem (sp_SubTools t) p model prompt w = (r, w1)" by (simp add: delegates_def)
  with runner_factory_world [OF assms(1), of w lib rcfg mem "sp_SubTools t" p model prompt] show "G 0 w w1" by simp
qed

lemma run_subagent_grade:
  assumes Q: "quiet G senv renv" and t: "delegates k c G lib rcfg mem t" and p: "\<And>q w. G 1 w (snd (pr_Chat p q w))"
    and k: "c = 0 \<or> answer_width k p"
  shows "G (attempt_cost k c) w (snd (run_subagent senv renv t p model prompt subKey u obj w))"
proof -
  obtain r w1 where r: "sp_RunnerFactory t (sp_SubTools t) p model prompt w = (r, w1)" by fastforce
  from run_built_grade [OF Q t p k built_world(1) [OF Q t r]]
  have "G (attempt_cost k c) w (snd (run_built senv renv r model subKey u obj w1))"
    by (rule graded_before [OF quietD(1) [OF Q] built_world(2) [OF Q t r]])
  then show ?thesis by (simp add: run_subagent_def r)
qed

lemma resolved_cost:
  assumes "delegates k c G lib rcfg mem t"
  shows "G 1 w (snd (pr_Chat (resolveProvider t name) q w))" "G 1 w (snd (pr_Chat (sp_DefaultProv t) q w))"
    "c = 0 \<or> answer_width k (resolveProvider t name)" "c = 0 \<or> answer_width k (sp_DefaultProv t)"
proof -
  have p: "resolveProvider t name = sp_DefaultProv t \<or> (\<exists>get n. sp_Resolver t = Some get \<and> get n = Inr (resolveProvider t name))"
    by (auto simp: resolveProvider_def split: option.split sum.split)
  from p assms show "G 1 w (snd (pr_Chat (resolveProvider t name) q w))" by (auto simp: delegates_def providers_cost_def)
  from assms show "G 1 w (snd (pr_Chat (sp_DefaultProv t) q w))" by (auto simp: delegates_def providers_cost_def)
  from p assms show "c = 0 \<or> answer_width k (resolveProvider t name)" unfolding delegates_def answers_within_def by blast
  from assms show "c = 0 \<or> answer_width k (sp_DefaultProv t)" by (auto simp: delegates_def answers_within_def)
qed

lemma try_fallback_keys_grade:
  assumes Q: "quiet G senv renv" and t: "delegates k c G lib rcfg mem t"
  shows "G (attempt_cost k c * length keys) w (snd (try_fallback_keys senv renv t cfg subKey u obj agentType prompt failed start keys w))"
proof (induction keys arbitrary: w)
  case Nil
  show ?case by (simp add: graded_refl [OF quietD(1) [OF Q]])
next
  case (Cons key keys)
  note g = quietD(1) [OF Q]
  have skip: "G (attempt_cost k c * length (key # keys)) w (snd (try_fallback_keys senv renv t cfg subKey u obj agentType prompt failed start keys w))"
    by (rule graded_mono [OF g Cons]) simp
  show ?case
  proof (cases "spc_Specialists cfg key")
    case None
    with skip show ?thesis by simp
  next
    case (Some spec)
    let ?p = "resolveProvider t (SpecialistProvider cfg key)"
    obtain r n w1 where a: "run_subagent senv renv t ?p (sc_Model spec) prompt subKey u obj w = ((r, n), w1)"
      by (metis prod.collapse)
    have w1: "G (attempt_cost k c) w w1"
      using run_subagent_grade [OF Q t resolved_cost(1) [OF t] resolved_cost(3) [OF t], of w "SpecialistProvider cfg key" "sc_Model spec" prompt subKey u obj] a
      by simp
    have "G (attempt_cost k c + attempt_cost k c * length keys) w (snd (try_fallback_keys senv renv t cfg subKey u obj agentType prompt failed start keys w1))"
      by (rule graded_trans [OF g w1 Cons])
    moreover have "G (attempt_cost k c + attempt_cost k c * length keys) w (snd (env_now senv w1))"
      by (rule graded_mono [OF g graded_after [OF g w1 quietD(2) [OF Q]]]) simp
    ultimately show ?thesis using Some skip a by (simp add: Let_def case_prod_beta split: sum.split)
  qed
qed

lemma handleFallback_grade:
  assumes Q: "quiet G senv renv" and t: "delegates k c G lib rcfg mem t"
  shows "G (3 * attempt_cost k c) w (snd (handleFallback senv renv t subKey u obj agentType prompt p failed start e w))"
proof -
  note g = quietD(1) [OF Q]
  have rest: "G (2 * attempt_cost k c) v (snd (configured_or_error senv renv t subKey u obj agentType prompt failed start e v))" for v
  proof -
    have both: "G (2 * attempt_cost k c) v (snd (try_fallback_keys senv renv t cfg subKey u obj agentType prompt failed start
        [agentType @ ''_fallback'', agentType @ ''_escalation''] v))" for cfg
      using try_fallback_keys_grade [OF Q t, of "[agentType @ ''_fallback'', agentType @ ''_escalation'']" v cfg]
      by (simp add: mult_2 del: try_fallback_keys.simps)
    have "G (2 * attempt_cost k c) v (snd (tryConfiguredModelFallbacks senv renv t subKey u obj agentType prompt failed start v))"
      using both graded_mono [OF g graded_refl [OF g]]
      by (simp add: tryConfiguredModelFallbacks_def del: try_fallback_keys.simps split: option.split)
    then show ?thesis by (simp add: configured_or_error_def case_prod_beta split: option.split)
  qed
  obtain r n w1 where a: "run_subagent senv renv t (sp_DefaultProv t) (sp_Model t) prompt subKey u obj w = ((r, n), w1)"
    by (metis prod.collapse)
  have w1: "G (attempt_cost k c) w w1"
    using run_subagent_grade [OF Q t resolved_cost(2) [OF t] resolved_cost(4) [OF t], of w "sp_Model t" prompt subKey u obj] a by simp
  have "G (attempt_cost k c + 2 * attempt_cost k c) w (snd (configured_or_error senv renv t subKey u obj agentType prompt failed start e w1))"
    by (rule graded_trans [OF g w1 rest])
  moreover have "G (3 * attempt_cost k c) w (snd (env_now senv w1))" by (rule graded_mono [OF g graded_after [OF g w1 quietD(2) [OF Q]]]) simp
  moreover have "G (3 * attempt_cost k c) w (snd (configured_or_error senv renv t subKey u obj agentType prompt failed start e w))"
    by (rule graded_mono [OF g rest]) simp
  ultimately show ?thesis using a by (simp add: handleFallback_def Let_def case_prod_beta split: sum.split)
qed

lemma spawn_Execute_grade:
  assumes Q: "quiet G senv renv" and t: "delegates k c G lib rcfg mem t"
  shows "G (4 * attempt_cost k c) w (snd (spawn_Execute senv renv t sk u args w))"
proof -
  note g = quietD(1) [OF Q]
  have attempt: "G (4 * attempt_cost k c) w (snd (case sp_RunnerFactory t (sp_SubTools t) p model prompt w of (subRunner, w0) \<Rightarrow>
      case env_now senv w0 of (start, w1) \<Rightarrow>
      (case run_built senv renv subRunner model subKey u obj w1 of
      ((r, Count), w2) \<Rightarrow> (case env_now senv w2 of (now, w3) \<Rightarrow> (case r of
           Inl err \<Rightarrow> handleFallback senv renv t subKey u obj agentType prompt p model start err w3
         | Inr reply \<Rightarrow> ((ToolReturned reply None, meta reply start now Count), w3))))))"
    if p: "\<And>q w. G 1 w (snd (pr_Chat p q w))" and kp: "c = 0 \<or> answer_width k p" for p model prompt subKey obj agentType
      and meta :: "string \<Rightarrow> instant \<Rightarrow> instant \<Rightarrow> int \<Rightarrow> ToolMeta"
  proof -
    obtain sr w0 where f: "sp_RunnerFactory t (sp_SubTools t) p model prompt w = (sr, w0)" by fastforce
    obtain start w1 where n1: "env_now senv w0 = (start, w1)" by fastforce
    obtain r n w2 where a: "run_built senv renv sr model subKey u obj w1 = ((r, n), w2)" by (metis prod.collapse)
    have "G 0 w w1" using graded_after [OF g built_world(2) [OF Q t f] quietD(2) [OF Q]] n1 by (metis snd_conv)
    moreover have "G (attempt_cost k c) w1 w2" using run_built_grade [OF Q t p kp built_world(1) [OF Q t f], of w1 subKey u obj] a by simp
    ultimately have "G (attempt_cost k c) w w2" by (rule graded_before [OF g])
    then have w3: "G (attempt_cost k c) w (snd (env_now senv w2))" by (rule graded_after [OF g _ quietD(2) [OF Q]])
    have "G (attempt_cost k c + 3 * attempt_cost k c) w (snd (handleFallback senv renv t subKey u obj agentType prompt p model start err (snd (env_now senv w2))))" for err
      by (rule graded_trans [OF g w3 handleFallback_grade [OF Q t]])
    moreover have "G (4 * attempt_cost k c) w (snd (env_now senv w2))" by (rule graded_mono [OF g w3]) simp
    ultimately show ?thesis using f n1 a by (simp add: case_prod_beta split: sum.split)
  qed
  have "G 1 v (snd (pr_Chat (case sp_Cfg t of Some cfg \<Rightarrow> resolveProvider t (SpecialistProvider cfg a) | None \<Rightarrow> sp_DefaultProv t) q v))" for a q v
    using resolved_cost(1,2) [OF t] by (simp split: option.split)
  note cost = this
  have "c = 0 \<or> answer_width k (case sp_Cfg t of Some cfg \<Rightarrow> resolveProvider t (SpecialistProvider cfg a) | None \<Rightarrow> sp_DefaultProv t)" for a
    using resolved_cost(3,4) [OF t] by (simp split: option.split)
  note attempt' = attempt [OF cost this]
  show ?thesis
  proof (cases "stringVal (case args of None \<Rightarrow> [] | Some a \<Rightarrow> a) ''objective'' = []")
    case True
    then show ?thesis using graded_mono [OF g graded_refl [OF g]] by (simp add: spawn_Execute_def)
  next
    case False
    show ?thesis unfolding spawn_Execute_def Let_def if_not_P [OF False] by (rule attempt')
  qed
qed

lemma wired_delegates:
  assumes "search_grade G mem" "providers_cost G prov resolver" "sub_tools_cost c G tools"
    "c = 0 \<or> answers_within k prov resolver"
    "wireSubTools (Spawn (newSpawnTool lib rcfg prov model prompts models mem cfg resolver) # tools) = Spawn t # tools'"
  shows "delegates k c G lib rcfg mem t"
proof -
  have t: "t = SetSubTools (sub_tools tools) (newSpawnTool lib rcfg prov model prompts models mem cfg resolver)"
    using assms(5) by (auto simp: wireSubTools_def spawn_Declaration_def)
  then show ?thesis using assms(1-4)
    by (auto simp: delegates_def SetSubTools_def newSpawnTool_def sub_tools_cost_def sub_tools_iff)
qed

lemma delegation_keeps:
  assumes "quiet G senv renv" "search_grade G mem" "providers_cost G prov resolver" "read_only_tools G tools"
    "wireSubTools (Spawn (newSpawnTool lib rcfg prov model prompts models mem cfg resolver) # tools) = Spawn t # tools'"
  shows "G 80 w (snd (to_Execute (spawn_tool senv renv t) sk u args w))"
  using spawn_Execute_grade [OF assms(1) wired_delegates [OF assms(2,3) assms(4) [unfolded read_only_cost] disjI1 [OF refl] assms(5)]]
  by (simp add: spawn_tool_def attempt_cost_def)

text \<open>
  \<^bold>\<open>C10.\<close> Delegation has no side effects of its own: with the delegation tool registered and wired as the program does it, and whatever the
  model, the sub-agent, the fallbacks and the providers do, a call of the tool keeps everything true that the tools declared
  free of side effects keep. Side-effecting tools are never within reach of a sub-agent, nor is the delegation tool.
\<close>

theorem delegation_read_only:
  assumes "quiet (\<lambda>n w w'. P w \<longrightarrow> P w') senv renv" "search_grade (\<lambda>n w w'. P w \<longrightarrow> P w') mem"
    "providers_cost (\<lambda>n w w'. P w \<longrightarrow> P w') prov resolver" "read_only_tools (\<lambda>n w w'. P w \<longrightarrow> P w') tools"
    "wireSubTools (Spawn (newSpawnTool lib rcfg prov model prompts models mem cfg resolver) # tools) = Spawn t # tools'"
    "P w"
  shows "P (snd (to_Execute (spawn_tool senv renv t) sk u args w))"
  using delegation_keeps [OF assms(1-5)] assms(6) by blast

text \<open>
  \<^bold>\<open>C11.\<close> A delegation ends: the runners it builds call providers at most 80 times, four attempts (the specialist, the
  default provider and two configured fallbacks) of at most five iterations with at most four calls
  each. A tool of a sub-agent may call the provider itself, as \<^verbatim>\<open>web_extract\<close> does; when an execution of one
  makes at most \<open>c\<close> calls and an answer asks for at most \<open>k\<close> tools, these add at most \<open>k * c\<close> for each of the
  twenty iterations. \<open>calls\<close> is any quantity that a provider call raises by at most one, a tool that is
  declared free of side effects by at most \<open>c\<close>, and nothing else raises.
\<close>

theorem delegation_bounded:
  fixes calls :: "('c, 'x) breaker_world_scheme \<Rightarrow> nat"
  assumes "quiet (\<lambda>n w w'. calls w' \<le> calls w + n) senv renv" "search_grade (\<lambda>n w w'. calls w' \<le> calls w + n) mem"
    "providers_cost (\<lambda>n w w'. calls w' \<le> calls w + n) prov resolver" "sub_tools_cost c (\<lambda>n w w'. calls w' \<le> calls w + n) tools"
    "c = 0 \<or> answers_within k prov resolver"
    "wireSubTools (Spawn (newSpawnTool lib rcfg prov model prompts models mem cfg resolver) # tools) = Spawn t # tools'"
    "to_Execute (spawn_tool senv renv t) sk u args w = (res, w')"
  shows "calls w' \<le> calls w + 80 + 20 * (k * c)"
  using spawn_Execute_grade [OF assms(1) wired_delegates [OF assms(2-6)], where w = w and sk = sk and u = u and args = args] assms(7)
  by (simp add: spawn_tool_def attempt_cost_def)

section \<open>Samples\<close>

definition sample_senv :: "sample_world Env" where
  "sample_senv =
     \<lparr>env_ctxErr = \<lambda>w. (None, w), env_now = \<lambda>w. (bw_now w, w), env_stamp = \<lambda>w. (''t'', w), env_acquireLock = \<lambda>k d w. w,
      env_Lock = \<lambda>k w. (None, w), env_Unlock = \<lambda>k w. w, env_release = \<lambda>k w. w, env_journal = \<lambda>d e w. (None, w),
      env_spawn_compaction = \<lambda>k st w. w, env_fl = \<lambda>x. x\<rparr>"

text \<open>A side-effecting tool turns the clock of the sample world; a harmless one reads it.\<close>

definition sample_turn :: "sample_world Tool" where
  "sample_turn =
     \<lparr>to_Declaration = \<lparr>td_Name = ''turn'', td_Description = [], td_Parameters = [], td_SideEffecting = True\<rparr>,
      to_Execute = \<lambda>sk u args w. ((ToolReturned [] None, []), w\<lparr>bw_now := 1\<rparr>)\<rparr>"

definition sample_read :: "sample_world Tool" where
  "sample_read =
     \<lparr>to_Declaration = \<lparr>td_Name = ''ping'', td_Description = [], td_Parameters = [], td_SideEffecting = False\<rparr>,
      to_Execute = \<lambda>sk u args w. ((ToolReturned ''pong'' None, []), w)\<rparr>"

definition sample_rcfg :: runner_config where
  "sample_rcfg = \<lparr>rcfg_MaxToolIterations = 0, rcfg_MaxTokens = 0, rcfg_MaxToolResultBytes = 0, rcfg_Breakers = Map.empty\<rparr>"

definition sample_spawn :: "sample_world SpawnTool" where
  "sample_spawn = newSpawnTool (rv_breaker sample_renv) sample_rcfg sample_provider ''m'' Map.empty Map.empty None None None"

lemma sample_quiet: "graded G \<Longrightarrow> (\<And>w w'. fst (breaker_world.more w') = fst (breaker_world.more w) \<Longrightarrow> bw_now w' = bw_now w \<Longrightarrow> G 0 w w') \<Longrightarrow>
    quiet G sample_senv sample_renv"
  by (simp add: quiet_def sample_senv_def sample_renv_def case_prod_beta)

lemma sample_wired:
  "wireSubTools (Spawn (newSpawnTool (rv_breaker sample_renv) sample_rcfg sample_provider ''m'' Map.empty Map.empty None None None) #
       [Other sample_turn, Other sample_read]) =
     Spawn (SetSubTools [sample_read] sample_spawn) # [Other sample_turn, Other sample_read]"
  by (simp add: wireSubTools_def spawn_Declaration_def sample_turn_def sample_read_def sample_spawn_def spawnToolName_def)

theorem delegation_read_only_witness:
  "bw_now (snd (to_Execute (spawn_tool sample_senv sample_renv (SetSubTools [sample_read] sample_spawn)) ''telegram:1'' ''1''
     (Some [(''objective'', JStr ''look'')]) (sample_start (empty_db 0)))) = 0"
  by (rule delegation_read_only [where P = "\<lambda>w. bw_now w = 0", OF sample_quiet _ _ _ sample_wired])
    (auto simp: graded_def search_grade_def providers_cost_def read_only_tools_def sample_provider_def sample_turn_def
      sample_read_def sample_start_def)

text \<open>A harmless tool that calls the provider once, as \<^verbatim>\<open>web_extract\<close> does.\<close>

definition sample_extract :: "sample_world Tool" where
  "sample_extract =
     \<lparr>to_Declaration = \<lparr>td_Name = ''ping'', td_Description = [], td_Parameters = [], td_SideEffecting = False\<rparr>,
      to_Execute = \<lambda>sk u args w. ((ToolReturned ''pong'' None, []), breaker_world.more_update (\<lambda>(n, d). (Suc n, d)) w)\<rparr>"

lemma sample_extract_wired:
  "wireSubTools (Spawn (newSpawnTool (rv_breaker sample_renv) sample_rcfg sample_provider ''m'' Map.empty Map.empty None None None) #
       [Other sample_turn, Other sample_extract]) =
     Spawn (SetSubTools [sample_extract] sample_spawn) # [Other sample_turn, Other sample_extract]"
  by (simp add: wireSubTools_def spawn_Declaration_def sample_turn_def sample_extract_def sample_spawn_def spawnToolName_def)

theorem delegation_bounded_witness:
  "fst (breaker_world.more (snd (to_Execute (spawn_tool sample_senv sample_renv (SetSubTools [sample_extract] sample_spawn)) ''telegram:1'' ''1''
     (Some [(''objective'', JStr ''look'')]) (sample_start (empty_db 0))))) \<le> 100"
proof -
  obtain res w' where run: "to_Execute (spawn_tool sample_senv sample_renv (SetSubTools [sample_extract] sample_spawn)) ''telegram:1'' ''1''
     (Some [(''objective'', JStr ''look'')]) (sample_start (empty_db 0)) = (res, w')" by fastforce
  have width: "1 = (0 :: nat) \<or> answers_within 1 sample_provider None"
    by (auto simp: answers_within_def answer_width_def sample_provider_def sample_ping_def plain_message_def empty_message_def)
  have "fst (breaker_world.more w') \<le> fst (breaker_world.more (sample_start (empty_db 0))) + 80 + 20 * (1 * 1)"
    by (rule delegation_bounded [where calls = "\<lambda>w. fst (breaker_world.more w)",
          OF sample_quiet _ _ _ width sample_extract_wired run])
      (auto simp: graded_def search_grade_def providers_cost_def sub_tools_cost_def sample_provider_def sample_turn_def sample_extract_def
        split: prod.splits)
  then show ?thesis using run by (simp add: sample_start_def)
qed

end
