(* ===== verification/MCP_Tools.thy ===== *)
theory MCP_Tools
  imports Subagents
begin

text \<open>
  The tools of MCP servers: their discovery page by page, the names under which they are registered, and how they are called,
  \<^verbatim>\<open>internal/app/tool_mcp.go\<close> and \<^verbatim>\<open>appendMCPtools\<close> of \<^verbatim>\<open>internal/app/tools.go\<close>. A server is a record of functions over the world; the
  decoding of a response of \<^verbatim>\<open>tools/list\<close> is a parameter.
\<close>

section \<open>Servers and their tools\<close>

record 'w mcpCaller =
  mc_start :: "'w \<Rightarrow> go_error option \<times> 'w"
  mc_Call :: "string \<Rightarrow> json option \<Rightarrow> 'w \<Rightarrow> string result \<times> 'w"
  mc_serverName :: string
  mc_stop :: "'w \<Rightarrow> 'w"

record 'w mcpProxyTool =
  px_server :: "'w mcpCaller"
  px_toolName :: string
  px_decl :: ToolDeclaration

record mcp_page =
  mp_nextCursor :: string
  mp_tools :: "(string \<times> string \<times> json_object) list"
  mp_error :: "(int \<times> string) option"

record 'w mcp_env =
  me_ctxErr :: "'w \<Rightarrow> go_error option \<times> 'w"
  me_unmarshal :: "string \<Rightarrow> mcp_page result"

section \<open>Calling\<close>

definition mcpArgs :: "StructField list" where
  "mcpArgs =
     [StructField ''Method'' [] (TBasic KString) [(''json'', ''method''),
        (''schema'', ''The JSON-RPC method to call (e.g. 'tools/list', 'tools/call').'')] False,
      StructField ''Params'' [] (TMap (TBasic KString) TInterface) [(''json'', ''params,omitempty''),
        (''schema'', ''The parameters for the JSON-RPC call.'')] False]"

definition mcpTool_Name :: "'w mcpCaller \<Rightarrow> string" where
  "mcpTool_Name server = map (\<lambda>c. if c = CHR ''-'' then CHR ''_'' else c) (mc_serverName server)"

definition mcpTool_Declaration :: "'w mcpCaller \<Rightarrow> ToolDeclaration" where
  "mcpTool_Declaration server =
     \<lparr>td_Name = mcpTool_Name server,
      td_Description = ''Execute the '' @ mc_serverName server @ '' MCP server with a JSON-RPC request.'',
      td_Parameters = the (DeriveSchema (Some (TStruct mcpArgs))), td_SideEffecting = False\<rparr>"

definition mcpTool_Execute :: "'w mcpCaller \<Rightarrow> json_object option \<Rightarrow> 'w \<Rightarrow> (tool_return \<times> ToolMeta) \<times> 'w" where
  "mcpTool_Execute server args w =
     (let args = (case args of None \<Rightarrow> [] | Some a \<Rightarrow> a);
          method = stringVal args ''method''
      in if method = [] then ((ToolReturned [] (Some (ErrorNew (''mcp '' @ mc_serverName server @ '': method is required''))), []), w)
         else (case mc_Call server method (case map_of args ''params'' of Some JNull \<Rightarrow> None | p \<Rightarrow> p) w of
                 (Inl e, w1) \<Rightarrow> ((ToolReturned [] (Some e), []), w1)
               | (Inr resp, w1) \<Rightarrow> ((ToolReturned resp None, []), w1)))"

definition mcp_tool :: "'w mcpCaller \<Rightarrow> 'w Tool" where
  "mcp_tool server = \<lparr>to_Declaration = mcpTool_Declaration server, to_Execute = (\<lambda>_ _. mcpTool_Execute server)\<rparr>"

definition mcpProxy_Execute :: "'w mcpProxyTool \<Rightarrow> json_object option \<Rightarrow> 'w \<Rightarrow> (tool_return \<times> ToolMeta) \<times> 'w" where
  "mcpProxy_Execute t args w =
     (case mc_Call (px_server t) ''tools/call''
             (Some (JObj [(''name'', JStr (px_toolName t)), (''arguments'', case args of None \<Rightarrow> JNull | Some a \<Rightarrow> JObj a)])) w of
        (Inl e, w1) \<Rightarrow> ((ToolReturned [] (Some (wrap_err ''tools/call'' e)), []), w1)
      | (Inr resp, w1) \<Rightarrow> ((ToolReturned resp None, []), w1))"

definition mcp_proxy :: "'w mcpProxyTool \<Rightarrow> 'w Tool" where
  "mcp_proxy t = \<lparr>to_Declaration = px_decl t, to_Execute = (\<lambda>_ _. mcpProxy_Execute t)\<rparr>"

section \<open>Names\<close>

text \<open>
  A loop over a string visits runes: the number of bytes of the first one by the rules of UTF-8, where a byte that starts no
  valid rune is one of its own.
\<close>

definition cont_byte :: "nat \<Rightarrow> nat \<Rightarrow> string \<Rightarrow> nat \<Rightarrow> bool" where
  "cont_byte lo hi s i \<longleftrightarrow> i < length s \<and> lo \<le> of_char (s ! i) \<and> of_char (s ! i) \<le> hi"

definition rune_width :: "string \<Rightarrow> nat" where
  "rune_width s =
     (let b = of_char (hd s) :: nat; cb = cont_byte 0x80 0xBF s in
      if 0xC2 \<le> b \<and> b \<le> 0xDF then (if cb 1 then 2 else 1)
      else if 0xE0 \<le> b \<and> b \<le> 0xEF then
        (if cont_byte (if b = 0xE0 then 0xA0 else 0x80) (if b = 0xED then 0x9F else 0xBF) s 1 \<and> cb 2 then 3 else 1)
      else if 0xF0 \<le> b \<and> b \<le> 0xF4 then
        (if cont_byte (if b = 0xF0 then 0x90 else 0x80) (if b = 0xF4 then 0x8F else 0xBF) s 1 \<and> cb 2 \<and> cb 3 then 4 else 1)
      else 1)"

definition span :: "char \<Rightarrow> char \<Rightarrow> char \<Rightarrow> bool" where
  "span lo hi c \<longleftrightarrow> lo \<le> c \<and> c \<le> hi"

definition name_char :: "char \<Rightarrow> bool" where
  "name_char c \<longleftrightarrow> c = CHR ''_'' \<or> list_ex (\<lambda>(lo, hi). span lo hi c)
     [(CHR ''a'', CHR ''z''), (CHR ''A'', CHR ''Z''), (CHR ''0'', CHR ''9'')]"

function sanitizeMCPToolName :: "string \<Rightarrow> string" where
  "sanitizeMCPToolName [] = []"
| "sanitizeMCPToolName (c # cs) =
     (if name_char c then c else CHR ''_'') # sanitizeMCPToolName (drop (rune_width (c # cs) - 1) cs)"
  by pat_completeness auto
termination by (relation "measure length") auto

section \<open>Discovery\<close>

definition proxy_of :: "'w mcpCaller \<Rightarrow> string \<times> string \<times> json_object \<Rightarrow> 'w mcpProxyTool" where
  "proxy_of srv t =
     (case t of (name, description, inputSchema) \<Rightarrow>
        \<lparr>px_server = srv, px_toolName = name,
         px_decl = \<lparr>td_Name = name, td_Description = description, td_Parameters = inputSchema, td_SideEffecting = False\<rparr>\<rparr>)"

definition enumerateMCPToolsPage ::
  "'w mcp_env \<Rightarrow> 'w mcpCaller \<Rightarrow> json option \<Rightarrow> 'w \<Rightarrow> ('w mcpProxyTool list \<times> string) result \<times> 'w" where
  "enumerateMCPToolsPage env srv params w =
     (case mc_Call srv ''tools/list'' params w of
        (Inl e, w1) \<Rightarrow> (Inl (wrap_err ''tools/list call failed'' e), w1)
      | (Inr respStr, w1) \<Rightarrow>
          (case me_ctxErr env w1 of
             (Some e, w2) \<Rightarrow> (Inl (wrap_err ''tools/list canceled after response'' e), w2)
           | (None, w2) \<Rightarrow>
               (case me_unmarshal env respStr of
                  Inl e \<Rightarrow> (Inl (wrap_err ''failed to parse tools/list response'' e), w2)
                | Inr resp \<Rightarrow>
                    (case mp_error resp of
                       Some (code, message) \<Rightarrow>
                         (Inl (ErrorNew (''tools/list returned error: code '' @ Itoa code @ '', message '' @ message)), w2)
                     | None \<Rightarrow> (Inr (map (proxy_of srv) (mp_tools resp), mp_nextCursor resp), w2)))))"

text \<open>The loop over the pages: a server whose cursors never repeat and never end keeps it going until the context ends.\<close>

partial_function (option) enumerate_pages ::
  "'w mcp_env \<Rightarrow> 'w mcpCaller \<Rightarrow> json option \<Rightarrow> string list \<Rightarrow> 'w mcpProxyTool list \<Rightarrow> 'w \<Rightarrow> ('w mcpProxyTool list result \<times> 'w) option" where
  "enumerate_pages env srv params seen proxies w =
     (case me_ctxErr env w of
        (Some e, w1) \<Rightarrow> Some (Inl (wrap_err ''tools/list canceled before request'' e), w1)
      | (None, w1) \<Rightarrow>
          (case enumerateMCPToolsPage env srv params w1 of
             (Inl e, w2) \<Rightarrow> Some (Inl e, w2)
           | (Inr (page, nextCursor), w2) \<Rightarrow>
               if nextCursor = [] then Some (Inr (proxies @ page), w2)
               else if nextCursor \<in> set seen then
                 Some (Inl (ErrorNew (''tools/list repeated continuation cursor '' @ Quote nextCursor)), w2)
               else enumerate_pages env srv (Some (JObj [(''cursor'', JStr nextCursor)])) (nextCursor # seen) (proxies @ page) w2))"

definition enumerateMCPTools :: "'w mcp_env \<Rightarrow> 'w mcpCaller \<Rightarrow> 'w \<Rightarrow> ('w mcpProxyTool list result \<times> 'w) option" where
  "enumerateMCPTools env srv w =
     (case me_ctxErr env w of
        (Some e, w1) \<Rightarrow> Some (Inl (wrap_err ''tools/list canceled before start'' e), w1)
      | (None, w1) \<Rightarrow>
          (case mc_start srv w1 of
             (Some e, w2) \<Rightarrow> Some (Inl (wrap_err ''failed to start server'' e), w2)
           | (None, w2) \<Rightarrow> enumerate_pages env srv None [] [] w2))"

section \<open>Registration\<close>

text \<open>
  The configured servers in the order in which the map is walked, each with the server that is asked and the one a passthrough tool
  would own. \<open>enum\<close> is \<^verbatim>\<open>enumerateMCPToolsFunc\<close>. The results are the tools, the names in use and the servers to stop.
\<close>

fun add_proxies :: "'w mcpCaller \<Rightarrow> 'w mcpProxyTool list \<Rightarrow> string list \<Rightarrow> 'w app_tool list \<Rightarrow> string list \<times> 'w app_tool list" where
  "add_proxies srv [] existingNames tools = (existingNames, tools)"
| "add_proxies srv (p # ps) existingNames tools =
     (let finalName = sanitizeMCPToolName (px_toolName p);
          finalName = (if finalName \<in> set existingNames
            then sanitizeMCPToolName (mc_serverName srv) @ ''__'' @ finalName else finalName);
          p = p\<lparr>px_decl := (px_decl p)\<lparr>td_Name := finalName\<rparr>\<rparr>
      in add_proxies srv ps (finalName # existingNames) (tools @ [Other (mcp_proxy p)]))"

fun append_servers ::
  "('w mcpCaller \<Rightarrow> 'w \<Rightarrow> 'w mcpProxyTool list result \<times> 'w) \<Rightarrow> ('w mcpCaller \<times> 'w mcpCaller) list \<Rightarrow> string list \<Rightarrow>
   'w mcpCaller list \<Rightarrow> 'w app_tool list \<Rightarrow> 'w \<Rightarrow> ('w mcpCaller list \<times> 'w app_tool list) \<times> 'w" where
  "append_servers enum [] existingNames owned tools w = ((owned, tools), w)"
| "append_servers enum ((srv, fresh) # servers) existingNames owned tools w =
     (case enum srv w of
        (Inl e, w1) \<Rightarrow> append_servers enum servers existingNames (owned @ [fresh]) (tools @ [Other (mcp_tool fresh)]) (mc_stop srv w1)
      | (Inr proxies, w1) \<Rightarrow>
          (case add_proxies srv proxies existingNames tools of
             (existingNames1, tools1) \<Rightarrow> append_servers enum servers existingNames1 (owned @ [srv]) tools1 w1))"

definition appendMCPtools ::
  "('w mcpCaller \<Rightarrow> 'w \<Rightarrow> 'w mcpProxyTool list result \<times> 'w) \<Rightarrow> ('w mcpCaller \<times> 'w mcpCaller) list \<Rightarrow> 'w app_tool list \<Rightarrow> 'w \<Rightarrow>
   ('w mcpCaller list \<times> 'w app_tool list) \<times> 'w" where
  "appendMCPtools enum servers tools w = append_servers enum servers (map (td_Name \<circ> decl_of) tools) [] tools w"

text \<open>The returned cleanup, with the state of its \<^verbatim>\<open>sync.Once\<close>.\<close>

definition stopAll :: "'w mcpCaller list \<Rightarrow> bool \<times> 'w \<Rightarrow> bool \<times> 'w" where
  "stopAll owned s = (if fst s then s else (True, fold mc_stop owned (snd s)))"

section \<open>Discovery ends\<close>

lemma page_calls:
  assumes "\<And>m p w. calls (snd (mc_Call srv m p w)) \<le> calls w + 1" "\<And>w. calls (snd (me_ctxErr env w)) \<le> calls w"
  shows "calls (snd (enumerateMCPToolsPage env srv params w)) \<le> calls w + (1 :: nat)"
proof -
  obtain r w1 where r: "mc_Call srv ''tools/list'' params w = (r, w1)" by fastforce
  obtain e w2 where e: "me_ctxErr env w1 = (e, w2)" by fastforce
  have "calls w1 \<le> calls w + 1" "calls w2 \<le> calls w1"
    using assms(1) [of "''tools/list''" params w] assms(2) [of w1] r e by simp_all
  then show ?thesis by (simp add: enumerateMCPToolsPage_def r e split: sum.split option.split)
qed

lemma enumerate_pages_ends:
  assumes C: "finite C" "\<And>params w. case fst (enumerateMCPToolsPage env srv params w) of Inr (ps, cur) \<Rightarrow> cur = [] \<or> cur \<in> C | Inl e \<Rightarrow> True"
    and calls: "\<And>m p w. calls (snd (mc_Call srv m p w)) \<le> calls w + 1" "\<And>w. calls (snd (me_ctxErr env w)) \<le> calls w"
    and seen: "set seen \<subseteq> C"
  shows "\<exists>r w'. enumerate_pages env srv params seen proxies w = Some (r, w') \<and> calls w' \<le> calls w + (card (C - set seen) + 1 :: nat)"
  using seen
proof (induction "card (C - set seen)" arbitrary: params seen proxies w rule: less_induct)
  case less
  obtain e w1 where e: "me_ctxErr env w = (e, w1)" by fastforce
  then have w1: "calls w1 \<le> calls w" using calls(2) [of w] by simp
  obtain r w2 where r: "enumerateMCPToolsPage env srv params w1 = (r, w2)" by fastforce
  then have w2: "calls w2 \<le> calls w + 1" using page_calls [of calls srv env params w1, OF calls] w1 by simp
  show ?case
  proof (cases "e = None \<and> (\<exists>page cur. r = Inr (page, cur) \<and> cur \<noteq> [] \<and> cur \<notin> set seen)")
    case False
    show ?thesis
    proof (cases e)
      case (Some x)
      then show ?thesis using w1 by (subst enumerate_pages.simps) (simp add: e)
    next
      case None
      with False have "\<nexists>page cur. r = Inr (page, cur) \<and> cur \<noteq> [] \<and> cur \<notin> set seen" by simp
      then consider x where "r = Inl x" | page where "r = Inr (page, [])" | page cur where "r = Inr (page, cur)" "cur \<noteq> []" "cur \<in> set seen"
        by (cases r) (auto, blast)
      then show ?thesis
        by cases (use None w2 in \<open>(subst enumerate_pages.simps, simp add: e r)+\<close>)
    qed
  next
    case True
    then obtain page cur where rec: "e = None" "r = Inr (page, cur)" "cur \<noteq> []" "cur \<notin> set seen" by blast
    with C(2) [of params w1] r have cur: "cur \<in> C" by simp
    have eq: "C - set seen = insert cur (C - set (cur # seen))" using cur rec(4) by auto
    have "card (insert cur (C - set (cur # seen))) = Suc (card (C - set (cur # seen)))"
      by (rule card_insert_disjoint) (use C(1) in simp_all)
    then have card: "card (C - set seen) = Suc (card (C - set (cur # seen)))" by (simp only: eq [symmetric])
    from less.hyps [of "cur # seen" "Some (JObj [(''cursor'', JStr cur)])" "proxies @ page" w2]
    obtain r' w' where "enumerate_pages env srv (Some (JObj [(''cursor'', JStr cur)])) (cur # seen) (proxies @ page) w2 = Some (r', w')"
      "calls w' \<le> calls w2 + (card (C - set (cur # seen)) + 1)"
      using card less.prems cur by auto
    then show ?thesis using rec w2 card by (subst enumerate_pages.simps) (simp del: set_simps add: e r)
  qed
qed

text \<open>
  \<^bold>\<open>C14.\<close> Discovering the tools of an MCP server ends: if the continuation cursors that the server hands out come from a finite set, then
  the discovery returns after at most one request more than there are cursors, even when the server
  repeats a cursor forever. \<open>calls\<close> is any quantity that a request raises by at most one and that the rest does not raise.
\<close>

theorem enumerateMCPTools_ends:
  fixes calls :: "'w \<Rightarrow> nat"
  assumes "finite C" "\<And>params w. case fst (enumerateMCPToolsPage env srv params w) of Inr (ps, cur) \<Rightarrow> cur = [] \<or> cur \<in> C | Inl e \<Rightarrow> True"
    and "\<And>m p w. calls (snd (mc_Call srv m p w)) \<le> calls w + 1" "\<And>w. calls (snd (me_ctxErr env w)) \<le> calls w"
      "\<And>w. calls (snd (mc_start srv w)) \<le> calls w"
  shows "\<exists>r w'. enumerateMCPTools env srv w = Some (r, w') \<and> calls w' \<le> calls w + (card C + 1)"
proof -
  obtain e w1 where e: "me_ctxErr env w = (e, w1)" by fastforce
  obtain e' w2 where s: "mc_start srv w1 = (e', w2)" by fastforce
  have w: "calls w1 \<le> calls w" "calls w2 \<le> calls w1" using assms(4) [of w] assms(5) [of w1] e s by simp_all
  from enumerate_pages_ends [of C env srv calls "[]" None "[]" w2, OF assms(1,2,3,4)] obtain r w'
    where "enumerate_pages env srv None [] [] w2 = Some (r, w')" "calls w' \<le> calls w2 + (card C + 1)" by (auto simp del: One_nat_def)
  with w show ?thesis by (auto simp: enumerateMCPTools_def e s split: option.split)
qed

text \<open>A server that repeats its cursor.\<close>

definition sample_caller :: "nat mcpCaller" where
  "sample_caller =
     \<lparr>mc_start = \<lambda>n. (None, n), mc_Call = \<lambda>m p n. (Inr ''page'', Suc n), mc_serverName = ''docs'', mc_stop = \<lambda>n. n\<rparr>"

definition sample_mcp_env :: "nat mcp_env" where
  "sample_mcp_env =
     \<lparr>me_ctxErr = \<lambda>n. (None, n),
      me_unmarshal = \<lambda>s. Inr \<lparr>mp_nextCursor = ''again'', mp_tools = [(''read-page'', [], [])], mp_error = None\<rparr>\<rparr>"

theorem enumerateMCPTools_ends_witness:
  "\<exists>r n. enumerateMCPTools sample_mcp_env sample_caller 0 = Some (r, n) \<and> n \<le> 2"
  using enumerateMCPTools_ends [of "{''again''}" sample_mcp_env sample_caller "\<lambda>n. n" 0]
  by (auto simp: sample_mcp_env_def sample_caller_def enumerateMCPToolsPage_def)

section \<open>Names\<close>

lemma sanitizeMCPToolName_chars: "\<forall>c\<in>set (sanitizeMCPToolName s). name_char c"
  by (induction s rule: sanitizeMCPToolName.induct) (simp_all add: name_char_def)

lemma sanitizeMCPToolName_clean: "\<forall>c\<in>set s. name_char c \<Longrightarrow> sanitizeMCPToolName s = s"
proof (induction s)
  case (Cons c cs)
  then have "name_char c" by simp
  then have "(of_char c :: nat) < 0x80"
    by (auto simp: name_char_def span_def less_eq_char_def)
  then have "rune_width (c # cs) = 1" by (simp add: rune_width_def Let_def)
  with Cons show ?case by simp
qed simp

lemma name_char_underscore: "name_char CHR ''_''"
  by (simp add: name_char_def)

lemma Contains_infix: "Contains (a @ w @ b) w"
proof (induction a)
  case Nil
  have "HasPrefix (w @ b) w" by (simp add: HasPrefix_def)
  then show ?case by (cases "w @ b") simp_all
qed simp

text \<open>What one server adds: tools without side effects, with clean names that are new or prefixed with the name of the server.\<close>

definition proxy_name_ok :: "string list \<Rightarrow> string \<Rightarrow> bool" where
  "proxy_name_ok names n \<longleftrightarrow> (\<forall>c\<in>set n. name_char c) \<and> (n \<notin> set names \<or> Contains n ''__'')"

lemma add_proxies_names:
  assumes "add_proxies srv ps names tools = (names', tools')"
  shows "\<exists>ts. tools' = tools @ map Other ts \<and> set names \<subseteq> set names' \<and> (\<forall>t\<in>set ts. proxy_name_ok names (td_Name (to_Declaration t)))"
  using assms
proof (induction ps arbitrary: names tools)
  case (Cons p ps)
  let ?f = "sanitizeMCPToolName (px_toolName p)"
  let ?n = "if ?f \<in> set names then sanitizeMCPToolName (mc_serverName srv) @ ''__'' @ ?f else ?f"
  let ?p = "mcp_proxy (p\<lparr>px_decl := (px_decl p)\<lparr>td_Name := ?n\<rparr>\<rparr>)"
  from Cons.prems have "add_proxies srv ps (?n # names) (tools @ [Other ?p]) = (names', tools')" by (simp add: Let_def)
  from Cons.IH [OF this] obtain ts where ts: "tools' = (tools @ [Other ?p]) @ map Other ts" "set (?n # names) \<subseteq> set names'"
    "\<forall>t\<in>set ts. proxy_name_ok (?n # names) (td_Name (to_Declaration t))" by blast
  have "proxy_name_ok names ?n"
  proof (cases "?f \<in> set names")
    case True
    then show ?thesis using sanitizeMCPToolName_chars [of "px_toolName p"] sanitizeMCPToolName_chars [of "mc_serverName srv"]
        name_char_underscore Contains_infix [of _ "''__''"] by (simp add: proxy_name_ok_def ball_Un)
  next
    case False
    then show ?thesis using sanitizeMCPToolName_chars [of "px_toolName p"] by (simp add: proxy_name_ok_def)
  qed
  then have "\<forall>t\<in>set (?p # ts). proxy_name_ok names (td_Name (to_Declaration t))"
    using ts(3) by (auto simp: proxy_name_ok_def mcp_proxy_def)
  moreover have "tools' = tools @ map Other (?p # ts)" using ts(1) by simp
  moreover have "set names \<subseteq> set names'" using ts(2) by auto
  ultimately show ?case by blast
qed (auto intro: exI [of _ "[]"])

lemma append_servers_names:
  assumes "\<forall>srv\<in>fst ` set servers. \<forall>w. \<exists>ps w'. enum srv w = (Inr ps, w')"
    "append_servers enum servers names owned tools w = ((owned', tools'), w')"
  shows "\<exists>ts. tools' = tools @ map Other ts \<and> (\<forall>t\<in>set ts. proxy_name_ok names (td_Name (to_Declaration t)))"
  using assms
proof (induction servers arbitrary: names owned tools w)
  case (Cons sf servers)
  obtain srv fresh where sf: "sf = (srv, fresh)" by fastforce
  obtain ps w1 where e: "enum srv w = (Inr ps, w1)" using Cons.prems(1) sf by fastforce
  obtain names1 tools1 where a: "add_proxies srv ps names tools = (names1, tools1)" by fastforce
  from add_proxies_names [OF a] obtain ts1 where ts1: "tools1 = tools @ map Other ts1" "set names \<subseteq> set names1"
    "\<forall>t\<in>set ts1. proxy_name_ok names (td_Name (to_Declaration t))" by blast
  have "append_servers enum servers names1 (owned @ [srv]) tools1 w1 = ((owned', tools'), w')" using Cons.prems(2) sf e a by simp
  moreover have "\<forall>srv\<in>fst ` set servers. \<forall>w. \<exists>ps w'. enum srv w = (Inr ps, w')" using Cons.prems(1) by simp
  ultimately obtain ts2 where ts2: "tools' = tools1 @ map Other ts2" "\<forall>t\<in>set ts2. proxy_name_ok names1 (td_Name (to_Declaration t))"
    using Cons.IH by blast
  have "\<forall>t\<in>set (ts1 @ ts2). proxy_name_ok names (td_Name (to_Declaration t))"
    using ts1(2,3) ts2(2) by (auto simp: proxy_name_ok_def)
  moreover have "tools' = tools @ map Other (ts1 @ ts2)" using ts1(1) ts2(1) by simp
  ultimately show ?case by blast
qed (auto intro: exI [of _ "[]"])

text \<open>
  The tools that MCP servers offer are added behind the registered ones, under names of letters, digits and underscores that
  model providers accept, and none of them takes the name of a registered tool, so none replaces it, as
  long as the discovery of every server succeeds and no registered name has a double underscore.
\<close>

theorem appendMCPtools_names:
  assumes "\<forall>srv\<in>fst ` set servers. \<forall>w. \<exists>ps w'. enum srv w = (Inr ps, w')"
    "\<forall>t\<in>set tools. \<not> Contains (td_Name (decl_of t)) ''__''"
    "appendMCPtools enum servers tools w = ((owned, tools'), w')"
  shows "\<exists>ts. tools' = tools @ map Other ts \<and> (\<forall>t\<in>set ts. (\<forall>c\<in>set (td_Name (to_Declaration t)). name_char c) \<and>
     (\<forall>u\<in>set tools. td_Name (decl_of u) \<noteq> td_Name (to_Declaration t)))"
proof -
  from append_servers_names [OF assms(1) assms(3) [unfolded appendMCPtools_def]] obtain ts where ts: "tools' = tools @ map Other ts"
    "\<forall>t\<in>set ts. proxy_name_ok (map (td_Name \<circ> decl_of) tools) (td_Name (to_Declaration t))" by blast
  have "td_Name (decl_of u) \<noteq> td_Name (to_Declaration t)" if "t \<in> set ts" "u \<in> set tools" for t u
  proof
    assume "td_Name (decl_of u) = td_Name (to_Declaration t)"
    with ts(2) that have "Contains (td_Name (decl_of u)) ''__''" by (force simp: proxy_name_ok_def)
    with assms(2) that(2) show False by simp
  qed
  then show ?thesis using ts by (auto simp: proxy_name_ok_def)
qed

theorem appendMCPtools_names_witness:
  "\<exists>ts. snd (fst (appendMCPtools (\<lambda>srv n. (Inr [proxy_of srv (''read-page'', [], [])], n)) [(sample_caller, sample_caller)]
      [Other (mcp_tool sample_caller)] 0)) = [Other (mcp_tool sample_caller)] @ map Other ts \<and>
    (\<forall>t\<in>set ts. (\<forall>c\<in>set (td_Name (to_Declaration t)). name_char c) \<and>
      (\<forall>u\<in>set [Other (mcp_tool sample_caller)]. td_Name (decl_of u) \<noteq> td_Name (to_Declaration t)))"
proof -
  let ?enum = "\<lambda>srv n. (Inr [proxy_of srv (''read-page'', [], [])], n)"
  obtain owned tools' w' where a: "appendMCPtools ?enum [(sample_caller, sample_caller)] [Other (mcp_tool sample_caller)] 0 =
      ((owned, tools'), w' :: nat)" by (metis prod.collapse)
  have "\<forall>srv\<in>fst ` set [(sample_caller, sample_caller)]. \<forall>w. \<exists>ps w'. ?enum srv w = (Inr ps, w')" by simp
  moreover have "\<forall>t\<in>set [Other (mcp_tool sample_caller)]. \<not> Contains (td_Name (decl_of t)) ''__''"
    by (simp add: mcp_tool_def mcpTool_Declaration_def mcpTool_Name_def sample_caller_def HasPrefix_def)
  ultimately show ?thesis unfolding a fst_conv snd_conv by (rule appendMCPtools_names [OF _ _ a])
qed

text \<open>A passthrough tool is added without a look at the names in use.\<close>

lemma passthrough_shadows:
  assumes "enum srv w = (Inl e, w1)" "mc_serverName fresh = ''read-text-file''"
  shows "\<exists>t. snd (fst (appendMCPtools enum [(srv, fresh)] tools w)) = tools @ [Other t] \<and> td_Name (to_Declaration t) = ''read_text_file''"
  using assms by (simp add: appendMCPtools_def mcp_tool_def mcpTool_Declaration_def mcpTool_Name_def)

end
