(* ===== verification/MCP_Transport.thy ===== *)
theory MCP_Transport
  imports GoPrelude
begin

text \<open>
  The transport to an MCP subprocess, \<^verbatim>\<open>MCPServer\<close> of \<^verbatim>\<open>internal/app/tool_mcp.go\<close>, as a step relation. Goroutines that
  call, start or stop the server are threads; every transport has a generation number, which stands for its channel
  \<^verbatim>\<open>readerDone\<close>, and a reader goroutine. A step is one critical section under \<^verbatim>\<open>mu\<close>, one operation on a channel or lock,
  or one call of the operating system with any of its outcomes. What the subprocess writes, and when it dies, is open; \<open>peek\<close>
  is the decoding of \<^verbatim>\<open>id\<close> and \<^verbatim>\<open>method\<close> from a line.
\<close>

section \<open>State\<close>

datatype mcpResult = MLine string | MErr

text \<open>\<^verbatim>\<open>Call\<close> and \<^verbatim>\<open>start\<close> differ in what follows once the server runs; a request is the handshake or the call itself.\<close>

datatype job = JCall | JStart
datatype kind = Hand | Req

text \<open>What a thread does after tearing the transport down.\<close>

datatype cont = CStart job | CFail | CWrite kind int job | CStop

datatype pc =
    TIdle
  | TWant job
  | TCheck job
  | TTear cont
  | TJoin "nat option" cont
  | TStart job
  | TSend kind job
  | TWrite kind int nat nat job
  | TAwait kind int nat nat job
  | TNotify int job
  | TDereg kind int bool mcpResult job
  | TDone mcpResult

datatype reader = RScan | RSend nat string | RFinish | RClose

text \<open>
  The fields of \<^verbatim>\<open>MCPServer\<close>; \<^verbatim>\<open>cmd\<close>, \<^verbatim>\<open>stdin\<close> and \<^verbatim>\<open>stdout\<close> are set and cleared together (\<open>mcp_open\<close>), and a nil map of pending
  requests is the empty one. Then the goroutines, the closed \<^verbatim>\<open>readerDone\<close> channels and the buffers of the response channels.
\<close>

record mcp =
  mcp_admit :: "nat option"
  mcp_stopMu :: "nat option"
  mcp_open :: bool
  mcp_pending :: "int \<rightharpoonup> nat"
  mcp_readerDone :: "nat option"
  mcp_dead :: bool
  mcp_initialized :: bool
  mcp_lastID :: int
  mcp_activeReaders :: int
  th :: "nat \<Rightarrow> pc"
  rd :: "nat \<rightharpoonup> reader"
  closed :: "nat set"
  buf :: "nat \<rightharpoonup> mcpResult"
  nextGen :: nat
  nextChan :: nat

definition mcp_init :: mcp where
  "mcp_init =
     \<lparr>mcp_admit = None, mcp_stopMu = None, mcp_open = False, mcp_pending = Map.empty, mcp_readerDone = None, mcp_dead = False,
      mcp_initialized = False, mcp_lastID = 0, mcp_activeReaders = 0, th = (\<lambda>_. TIdle), rd = Map.empty, closed = {},
      buf = Map.empty, nextGen = 0, nextChan = 0\<rparr>"

section \<open>Critical sections\<close>

definition running :: "mcp \<Rightarrow> bool" where
  "running s \<longleftrightarrow> mcp_open s \<and> \<not> mcp_dead s"

definition goto :: "nat \<Rightarrow> pc \<Rightarrow> mcp \<Rightarrow> mcp" where
  "goto t p s = s\<lparr>th := (th s)(t := p)\<rparr>"

definition mcp_release :: "mcp \<Rightarrow> mcp" where
  "mcp_release s = s\<lparr>mcp_admit := None\<rparr>"

text \<open>The first section of \<^verbatim>\<open>teardown\<close>.\<close>

definition detach :: "mcp \<Rightarrow> mcp" where
  "detach s = s\<lparr>mcp_open := False, mcp_readerDone := None, mcp_pending := Map.empty, mcp_dead := False, mcp_initialized := False\<rparr>"

definition attach :: "mcp \<Rightarrow> mcp" where
  "attach s =
     s\<lparr>mcp_open := True, mcp_pending := Map.empty, mcp_readerDone := Some (nextGen s), mcp_dead := False, mcp_initialized := False,
       mcp_lastID := 0, mcp_activeReaders := mcp_activeReaders s + 1, rd := (rd s)(nextGen s \<mapsto> RScan), nextGen := Suc (nextGen s)\<rparr>"

definition mcp_register :: "mcp \<Rightarrow> mcp" where
  "mcp_register s =
     s\<lparr>mcp_lastID := mcp_lastID s + 1, mcp_pending := (mcp_pending s)(mcp_lastID s + 1 \<mapsto> nextChan s), nextChan := Suc (nextChan s)\<rparr>"

definition deregister :: "int \<Rightarrow> mcp \<Rightarrow> mcp" where
  "deregister id' s = s\<lparr>mcp_pending := (mcp_pending s)(id' := None)\<rparr>"

text \<open>\<^verbatim>\<open>finishReader\<close> up to the closing of its channel: every pending request whose buffer is empty gets the error.\<close>

definition finishReader :: "nat \<Rightarrow> mcp \<Rightarrow> mcp" where
  "finishReader g s =
     s\<lparr>mcp_dead := (if mcp_readerDone s = Some g then True else mcp_dead s),
       buf := (\<lambda>ch. if ch \<in> ran (mcp_pending s) \<and> buf s ch = None then Some MErr else buf s ch),
       mcp_activeReaders := mcp_activeReaders s - 1, rd := (rd s)(g \<mapsto> RClose)\<rparr>"

section \<open>Steps\<close>

text \<open>
  The threads. \<open>begin_call\<close> covers \<^verbatim>\<open>Call\<close> and \<^verbatim>\<open>start\<close>; a wait for the admission may be cancelled. \<open>check_up\<close> and \<open>check_down\<close> are
  \<^verbatim>\<open>ensureStarted\<close>, \<open>tear\<close> and the \<open>join\<close> rules \<^verbatim>\<open>teardown\<close>, \<open>start_fail\<close> and \<open>attach\<close> \<^verbatim>\<open>startProcess\<close>, \<open>send_closed\<close> to \<open>write_fail\<close> \<^verbatim>\<open>send\<close> and
  \<^verbatim>\<open>write\<close>, \<open>await_result\<close> to \<open>await_done\<close> \<^verbatim>\<open>await\<close>; the \<open>notify\<close> rules and the \<open>hand\<close> rules end \<^verbatim>\<open>handshake\<close>.
  The last five rules are the readers. A line that is empty, is not JSON, has no id or has a method changes nothing, and neither
  does one whose id is not pending; these steps are left out.
\<close>

inductive step :: "(string \<Rightarrow> (int option \<times> string) option) \<Rightarrow> mcp \<Rightarrow> mcp \<Rightarrow> bool" for peek where
  begin_call: "th s t = TIdle \<Longrightarrow> step peek s (goto t (TWant j) s)"
| begin_stop: "th s t = TIdle \<Longrightarrow> step peek s (goto t (TTear CStop) s)"
| admit: "th s t = TWant j \<Longrightarrow> mcp_admit s = None \<Longrightarrow> step peek s (goto t (TCheck j) (s\<lparr>mcp_admit := Some t\<rparr>))"
| admit_cancel: "th s t = TWant j \<Longrightarrow> step peek s (goto t (TDone MErr) s)"
| check_up: "th s t = TCheck JCall \<Longrightarrow> running s \<Longrightarrow> step peek s (goto t (TSend Req JCall) s)"
| check_done: "th s t = TCheck JStart \<Longrightarrow> running s \<Longrightarrow> step peek s (goto t (TDone (MLine [])) (mcp_release s))"
| check_down: "th s t = TCheck j \<Longrightarrow> \<not> running s \<Longrightarrow> step peek s (goto t (TTear (CStart j)) s)"
| tear: "th s t = TTear c \<Longrightarrow> mcp_stopMu s = None \<Longrightarrow>
    step peek s (goto t (TJoin (mcp_readerDone s) c) (detach (s\<lparr>mcp_stopMu := Some t\<rparr>)))"
| join_start: "th s t = TJoin g (CStart j) \<Longrightarrow> g = None \<or> the g \<in> closed s \<Longrightarrow>
    step peek s (goto t (TStart j) (s\<lparr>mcp_stopMu := None\<rparr>))"
| join_fail: "th s t = TJoin g CFail \<Longrightarrow> g = None \<or> the g \<in> closed s \<Longrightarrow>
    step peek s (goto t (TDone MErr) (mcp_release (s\<lparr>mcp_stopMu := None\<rparr>)))"
| join_write: "th s t = TJoin g (CWrite k i j) \<Longrightarrow> g = None \<or> the g \<in> closed s \<Longrightarrow>
    step peek s (goto t (TDereg k i True MErr j) (s\<lparr>mcp_stopMu := None\<rparr>))"
| join_stop: "th s t = TJoin g CStop \<Longrightarrow> g = None \<or> the g \<in> closed s \<Longrightarrow>
    step peek s (goto t (TDone (MLine [])) (s\<lparr>mcp_stopMu := None\<rparr>))"
| start_fail: "th s t = TStart j \<Longrightarrow> step peek s (goto t (TDone MErr) (mcp_release s))"
| attach: "th s t = TStart j \<Longrightarrow> step peek s (goto t (TSend Hand j) (attach s))"
| send_closed_hand: "th s t = TSend Hand j \<Longrightarrow> \<not> running s \<Longrightarrow> step peek s (goto t (TTear CFail) s)"
| send_closed: "th s t = TSend Req j \<Longrightarrow> \<not> running s \<Longrightarrow> step peek s (goto t (TDone MErr) (mcp_release s))"
| send: "th s t = TSend k j \<Longrightarrow> running s \<Longrightarrow> mcp_readerDone s = Some g \<Longrightarrow>
    step peek s (goto t (TWrite k (mcp_lastID s + 1) (nextChan s) g j) (mcp_register s))"
| write_refused: "th s t = TWrite k i ch g j \<Longrightarrow> step peek s (goto t (TDereg k i True MErr j) s)"
| write_fail: "th s t = TWrite k i ch g j \<Longrightarrow> step peek s (goto t (TTear (CWrite k i j)) s)"
| write_hand: "th s t = TWrite Hand i ch g j \<Longrightarrow> step peek s (goto t (TAwait Hand i ch g j) s)"
| write_req: "th s t = TWrite Req i ch g j \<Longrightarrow> step peek s (goto t (TAwait Req i ch g j) (mcp_release s))"
| await_hand: "th s t = TAwait Hand i ch g j \<Longrightarrow> buf s ch = Some (MLine l) \<Longrightarrow>
    step peek s (goto t (TNotify i j) (s\<lparr>buf := (buf s)(ch := None)\<rparr>))"
| await_hand_err: "th s t = TAwait Hand i ch g j \<Longrightarrow> buf s ch = Some MErr \<Longrightarrow>
    step peek s (goto t (TDereg Hand i True MErr j) (s\<lparr>buf := (buf s)(ch := None)\<rparr>))"
| await_req: "th s t = TAwait Req i ch g j \<Longrightarrow> buf s ch = Some r \<Longrightarrow>
    step peek s (goto t (TDereg Req i False r j) (s\<lparr>buf := (buf s)(ch := None)\<rparr>))"
| await_cancel: "th s t = TAwait k i ch g j \<Longrightarrow> step peek s (goto t (TDereg k i (k = Hand) MErr j) s)"
| await_done: "th s t = TAwait k i ch g j \<Longrightarrow> g \<in> closed s \<Longrightarrow> buf s ch = None \<Longrightarrow>
    step peek s (goto t (TDereg k i (k = Hand) MErr j) s)"
| notify: "th s t = TNotify i j \<Longrightarrow> mcp_open s \<Longrightarrow> step peek s (goto t (TDereg Hand i True (MLine []) j) s)"
| notify_refused: "th s t = TNotify i j \<Longrightarrow> step peek s (goto t (TDereg Hand i True MErr j) s)"
| notify_fail: "th s t = TNotify i j \<Longrightarrow> step peek s (goto t (TTear (CWrite Hand i j)) s)"
| hand_failed: "th s t = TDereg Hand i h MErr j \<Longrightarrow> step peek s (goto t (TTear CFail) (deregister i s))"
| hand_started: "th s t = TDereg Hand i h (MLine l) JStart \<Longrightarrow>
    step peek s (goto t (TDone (MLine [])) (mcp_release ((deregister i s)\<lparr>mcp_initialized := True\<rparr>)))"
| hand_ready: "th s t = TDereg Hand i h (MLine l) JCall \<Longrightarrow>
    step peek s (goto t (TSend Req JCall) ((deregister i s)\<lparr>mcp_initialized := True\<rparr>))"
| req_done: "th s t = TDereg Req i h r j \<Longrightarrow>
    step peek s (goto t (TDone r) (if h then mcp_release (deregister i s) else deregister i s))"
| route: "rd s g = Some RScan \<Longrightarrow> l \<noteq> [] \<Longrightarrow> peek l = Some (Some i, []) \<Longrightarrow> mcp_pending s i = Some ch \<Longrightarrow>
    step peek s ((deregister i s)\<lparr>rd := (rd s)(g \<mapsto> RSend ch l)\<rparr>)"
| deliver: "rd s g = Some (RSend ch l) \<Longrightarrow> buf s ch = None \<Longrightarrow>
    step peek s (s\<lparr>buf := (buf s)(ch \<mapsto> MLine l), rd := (rd s)(g \<mapsto> RScan)\<rparr>)"
| end_of_stream: "rd s g = Some RScan \<Longrightarrow> step peek s (s\<lparr>rd := (rd s)(g \<mapsto> RFinish)\<rparr>)"
| finish: "rd s g = Some RFinish \<Longrightarrow> step peek s (finishReader g s)"
| close_done: "rd s g = Some RClose \<Longrightarrow> step peek s (s\<lparr>closed := insert g (closed s), rd := (rd s)(g := None)\<rparr>)"

inductive reaches :: "(string \<Rightarrow> (int option \<times> string) option) \<Rightarrow> mcp \<Rightarrow> mcp \<Rightarrow> bool" for peek where
  start: "reaches peek s s"
| more: "reaches peek s s' \<Longrightarrow> step peek s' s'' \<Longrightarrow> reaches peek s s''"

section \<open>Mutual exclusion\<close>

fun admitted :: "pc \<Rightarrow> bool" where
  "admitted (TCheck j) = True"
| "admitted (TTear c) = (c \<noteq> CStop)"
| "admitted (TJoin g c) = (c \<noteq> CStop)"
| "admitted (TStart j) = True"
| "admitted (TSend k j) = True"
| "admitted (TWrite k i ch g j) = True"
| "admitted (TAwait k i ch g j) = (k = Hand)"
| "admitted (TNotify i j) = True"
| "admitted (TDereg k i h r j) = (k = Hand \<or> h)"
| "admitted _ = False"

fun stopping :: "pc \<Rightarrow> bool" where
  "stopping (TJoin g c) = True"
| "stopping _ = False"

definition exclusive :: "mcp \<Rightarrow> bool" where
  "exclusive s \<longleftrightarrow> (\<forall>t. admitted (th s t) \<longleftrightarrow> mcp_admit s = Some t) \<and> (\<forall>t. stopping (th s t) \<longleftrightarrow> mcp_stopMu s = Some t)"

lemmas mcp_defs = goto_def mcp_release_def detach_def attach_def mcp_register_def deregister_def finishReader_def

lemma exclusive_init: "exclusive mcp_init"
  by (simp add: exclusive_def mcp_init_def)

lemma exclusive_goto:
  assumes "exclusive s" "th s' = th s"
    "mcp_admit s' = (if admitted p then Some t else if admitted (th s t) then None else mcp_admit s)"
    "admitted p \<Longrightarrow> admitted (th s t) \<or> mcp_admit s = None"
    "mcp_stopMu s' = (if stopping p then Some t else if stopping (th s t) then None else mcp_stopMu s)"
    "stopping p \<Longrightarrow> stopping (th s t) \<or> mcp_stopMu s = None"
  shows "exclusive (goto t p s')"
proof -
  have "admitted (th s u) \<longleftrightarrow> mcp_admit s = Some u" "stopping (th s u) \<longleftrightarrow> mcp_stopMu s = Some u" for u
    using assms(1) by (simp_all add: exclusive_def)
  then show ?thesis using assms(2-6) unfolding exclusive_def goto_def by (auto split: if_splits)
qed

lemma exclusiveD:
  assumes "exclusive s"
  shows "admitted (th s t) \<Longrightarrow> mcp_admit s = Some t" "stopping (th s t) \<Longrightarrow> mcp_stopMu s = Some t"
  using assms by (simp_all add: exclusive_def)

lemma exclusive_same:
  assumes "exclusive s" "th s' = th s" "mcp_admit s' = mcp_admit s" "mcp_stopMu s' = mcp_stopMu s"
  shows "exclusive s'"
  using assms by (simp add: exclusive_def)

lemma exclusive_step:
  assumes "step peek s s'" "exclusive s"
  shows "exclusive s'"
  using assms(1)
proof cases
  case (route g l i ch)
  show ?thesis unfolding route(1) by (rule exclusive_same [OF assms(2)]) (simp_all add: deregister_def)
next
  case (deliver g ch l)
  show ?thesis unfolding deliver(1) by (rule exclusive_same [OF assms(2)]) simp_all
next
  case (end_of_stream g)
  show ?thesis unfolding end_of_stream(1) by (rule exclusive_same [OF assms(2)]) simp_all
next
  case (finish g)
  show ?thesis unfolding finish(1) by (rule exclusive_same [OF assms(2)]) (simp_all add: finishReader_def)
next
  case (close_done g)
  show ?thesis unfolding close_done(1) by (rule exclusive_same [OF assms(2)]) simp_all
qed (use exclusiveD [OF assms(2)] in \<open>force intro!: exclusive_goto [OF assms(2)] simp: mcp_release_def detach_def attach_def mcp_register_def deregister_def\<close>)+

section \<open>One reader\<close>

definition reading :: "mcp \<Rightarrow> nat \<Rightarrow> bool" where
  "reading s g \<longleftrightarrow> (\<exists>r. rd s g = Some r \<and> r \<noteq> RClose)"

text \<open>
  A running reader belongs to the current transport or to one that a thread is waiting for; a transport is replaced only when no
  reader runs.
\<close>

definition readers_ok :: "mcp \<Rightarrow> bool" where
  "readers_ok s \<longleftrightarrow>
     (mcp_open s \<longleftrightarrow> mcp_readerDone s \<noteq> None) \<and>
     (\<forall>g. mcp_readerDone s = Some g \<longrightarrow> g < nextGen s \<and> (g \<in> closed s \<or> rd s g \<noteq> None)) \<and>
     (\<forall>g. rd s g \<noteq> None \<longrightarrow> g < nextGen s \<and> g \<notin> closed s \<and> (mcp_readerDone s = Some g \<or> mcp_readerDone s = None \<and> (\<exists>t c. th s t = TJoin (Some g) c))) \<and>
     (\<forall>t j. th s t = TStart j \<longrightarrow> mcp_readerDone s = None \<and> rd s = Map.empty) \<and>
     (\<forall>t x c. th s t = TJoin x c \<longrightarrow> c \<noteq> CStop \<longrightarrow> mcp_readerDone s = None) \<and>
     (\<forall>t g c. th s t = TJoin (Some g) c \<longrightarrow> g < nextGen s \<and> (g \<in> closed s \<or> rd s g \<noteq> None)) \<and>
     (\<forall>g g'. rd s g \<noteq> None \<longrightarrow> rd s g' \<noteq> None \<longrightarrow> g = g') \<and>
     mcp_activeReaders s = (if \<exists>g. reading s g then 1 else 0) \<and> (\<forall>g\<in>closed s. g < nextGen s)"

lemma readers_okD:
  assumes "readers_ok s"
  shows "mcp_open s \<longleftrightarrow> mcp_readerDone s \<noteq> None"
    "mcp_readerDone s = Some g \<Longrightarrow> g < nextGen s \<and> (g \<in> closed s \<or> rd s g \<noteq> None)"
    "rd s g = Some r \<Longrightarrow> g < nextGen s" "rd s g = Some r \<Longrightarrow> g \<notin> closed s"
    "rd s g = Some r \<Longrightarrow> mcp_readerDone s = Some g \<or> mcp_readerDone s = None \<and> (\<exists>t c. th s t = TJoin (Some g) c)"
    "th s t = TStart j \<Longrightarrow> mcp_readerDone s = None \<and> rd s = Map.empty"
    "th s t = TJoin x c \<Longrightarrow> c \<noteq> CStop \<Longrightarrow> mcp_readerDone s = None"
    "th s t = TJoin (Some g) c \<Longrightarrow> g < nextGen s \<and> (g \<in> closed s \<or> rd s g \<noteq> None)"
    "rd s g = Some r \<Longrightarrow> rd s g' = Some r' \<Longrightarrow> g = g'"
    "mcp_activeReaders s = (if \<exists>g. reading s g then 1 else 0)" "g \<in> closed s \<Longrightarrow> g < nextGen s"
  using assms unfolding readers_ok_def not_None_eq by (elim conjE, blast)+

lemma readers_okI:
  assumes "mcp_open s \<longleftrightarrow> mcp_readerDone s \<noteq> None"
    "\<And>g. mcp_readerDone s = Some g \<Longrightarrow> g < nextGen s \<and> (g \<in> closed s \<or> rd s g \<noteq> None)"
    "\<And>g r. rd s g = Some r \<Longrightarrow> g < nextGen s \<and> g \<notin> closed s"
    "\<And>g r. rd s g = Some r \<Longrightarrow> mcp_readerDone s = Some g \<or> mcp_readerDone s = None \<and> (\<exists>t c. th s t = TJoin (Some g) c)"
    "\<And>t j. th s t = TStart j \<Longrightarrow> mcp_readerDone s = None \<and> rd s = Map.empty"
    "\<And>t x c. th s t = TJoin x c \<Longrightarrow> c \<noteq> CStop \<Longrightarrow> mcp_readerDone s = None"
    "\<And>t g c. th s t = TJoin (Some g) c \<Longrightarrow> g < nextGen s \<and> (g \<in> closed s \<or> rd s g \<noteq> None)"
    "\<And>g g' r r'. rd s g = Some r \<Longrightarrow> rd s g' = Some r' \<Longrightarrow> g = g'"
    "mcp_activeReaders s = (if \<exists>g. reading s g then 1 else 0)" "\<And>g. g \<in> closed s \<Longrightarrow> g < nextGen s"
  shows "readers_ok s"
  using assms unfolding readers_ok_def not_None_eq by (intro conjI; blast)

text \<open>Steps of threads that leave the transport alone, and that leave a join only when its reader is gone.\<close>

fun joins :: "pc \<Rightarrow> bool" where
  "joins (TJoin x c) = True"
| "joins (TStart j) = True"
| "joins _ = False"

lemma readers_ok_goto:
  assumes "readers_ok s" "\<not> joins p" "\<And>g c. th s t = TJoin (Some g) c \<Longrightarrow> rd s g = None"
    "mcp_open s' = mcp_open s" "mcp_readerDone s' = mcp_readerDone s" "nextGen s' = nextGen s" "closed s' = closed s"
    "rd s' = rd s" "mcp_activeReaders s' = mcp_activeReaders s" "th s' = th s"
  shows "readers_ok (goto t p s')"
proof -
  have "mcp_readerDone s = Some g \<or> mcp_readerDone s = None \<and> (\<exists>u c. (if u = t then p else th s u) = TJoin (Some g) c)"
    if "rd s g \<noteq> None" for g
  proof -
    from readers_okD(5) [OF assms(1)] that
    consider "mcp_readerDone s = Some g" | u c where "th s u = TJoin (Some g) c" "mcp_readerDone s = None" by blast
    then show ?thesis
    proof cases
      case 2
      with assms(3) that have "u \<noteq> t" by auto
      with 2 show ?thesis by auto
    qed simp
  qed
  moreover have "reading (goto t p s') = reading s" using assms(8) by (simp add: fun_eq_iff reading_def goto_def)
  ultimately show ?thesis using assms(1,2,4-10) by (auto simp: readers_ok_def goto_def)
qed

lemma joined:
  assumes "readers_ok s" "exclusive s" "th s t = TJoin x c" "x = None \<or> the x \<in> closed s"
  shows "th s u = TJoin (Some g) c' \<Longrightarrow> u = t \<and> g \<in> closed s" "x = Some g \<Longrightarrow> rd s g = None"
proof -
  assume "th s u = TJoin (Some g) c'"
  with assms(3) have "stopping (th s u)" "stopping (th s t)" by simp_all
  with exclusiveD(2) [OF assms(2), of u] exclusiveD(2) [OF assms(2), of t] have "u = t" by simp
  with assms(3,4) \<open>th s u = TJoin (Some g) c'\<close> show "u = t \<and> g \<in> closed s" by simp
next
  assume "x = Some g"
  with assms(4) readers_okD(4) [OF assms(1), of g] show "rd s g = None" by fastforce
qed

lemma readers_ok_init: "readers_ok mcp_init"
  by (simp add: readers_ok_def mcp_init_def reading_def)

lemma readers_ok_attach:
  assumes "readers_ok s" "exclusive s" "th s t = TStart j" "\<not> joins p"
  shows "readers_ok (goto t p (attach s))"
proof -
  have none: "mcp_readerDone s = None" "rd s = Map.empty" using readers_okD(6) [OF assms(1,3)] by simp_all
  have "c = CStop" if "th s u = TJoin x c" for u x c
  proof (rule ccontr)
    assume "c \<noteq> CStop"
    with that exclusiveD(1) [OF assms(2), of u] exclusiveD(1) [OF assms(2), of t] assms(3) have "u = t" by simp
    with that assms(3) show False by simp
  qed
  moreover have "u = t" if "th s u = TStart i" for u i
    using exclusiveD(1) [OF assms(2), of u] exclusiveD(1) [OF assms(2), of t] assms(3) that by simp
  moreover have "nextGen s \<notin> closed s" using readers_okD(11) [OF assms(1)] by auto
  moreover have "reading (goto t p (attach s)) = (\<lambda>g. g = nextGen s)" "\<not> (\<exists>g. reading s g)"
    using none by (auto simp: reading_def attach_def goto_def fun_eq_iff)
  ultimately show ?thesis using assms(4) none readers_okD(8,10,11) [OF assms(1)]
    by (auto simp: readers_ok_def attach_def goto_def split: if_splits intro: less_SucI)
qed

lemma readers_ok_tear:
  assumes R: "readers_ok s" and X: "exclusive s" and t: "th s t = TTear c" and free: "mcp_stopMu s = None"
  shows "readers_ok (goto t (TJoin (mcp_readerDone s) c) (detach (s\<lparr>mcp_stopMu := Some t\<rparr>)))" (is "readers_ok ?s'")
proof -
  have no: "th s u \<noteq> TJoin x c'" for u x c' using exclusiveD(2) [OF X, of u] free by auto
  have f: "mcp_open ?s' = False" "mcp_readerDone ?s' = None" "nextGen ?s' = nextGen s" "closed ?s' = closed s" "rd ?s' = rd s"
    "mcp_activeReaders ?s' = mcp_activeReaders s" "th ?s' = (th s)(t := TJoin (mcp_readerDone s) c)"
    by (simp_all add: detach_def goto_def)
  have "reading ?s' = reading s" using f(5) by (simp add: reading_def fun_eq_iff)
  moreover have "mcp_readerDone s = Some g" if "rd s g = Some r" for g r using readers_okD(5) [OF R that] no by blast
  ultimately show ?thesis
    using readers_okD(2,3,4,6,9,10,11) [OF R] no by (intro readers_okI; unfold f) (auto split: if_splits)
qed

lemma readers_ok_join_start:
  assumes R: "readers_ok s" and X: "exclusive s" and t: "th s t = TJoin x (CStart j)" and x: "x = None \<or> the x \<in> closed s"
  shows "readers_ok (goto t (TStart j) (s\<lparr>mcp_stopMu := None\<rparr>))" (is "readers_ok ?s'")
proof -
  have none: "mcp_readerDone s = None" using readers_okD(7) [OF R t] by simp
  have "rd s g = None" for g
  proof (rule ccontr)
    assume "rd s g \<noteq> None"
    then obtain r where r: "rd s g = Some r" by blast
    with readers_okD(5) [OF R r] none obtain u c where "th s u = TJoin (Some g) c" by auto
    from joined(1) [OF R X t x this] readers_okD(4) [OF R r] show False by simp
  qed
  then have empty: "rd s = Map.empty" by (simp add: fun_eq_iff)
  have f: "mcp_open ?s' = mcp_open s" "mcp_readerDone ?s' = None" "nextGen ?s' = nextGen s" "closed ?s' = closed s" "rd ?s' = Map.empty"
    "mcp_activeReaders ?s' = mcp_activeReaders s" "th ?s' = (th s)(t := TStart j)"
    using none empty by (simp_all add: goto_def)
  have "reading ?s' = reading s" using empty by (simp add: reading_def goto_def fun_eq_iff)
  then have act: "mcp_activeReaders ?s' = (if \<exists>g. reading ?s' g then 1 else 0)" using readers_okD(10) [OF R] f(6) by simp
  show ?thesis
  proof (rule readers_okI)
    fix u g c assume "th ?s' u = TJoin (Some g) c"
    then have "th s u = TJoin (Some g) c" using f(7) by (simp split: if_splits)
    from joined(1) [OF R X t x this] have "g \<in> closed s" by (rule conjunct2)
    with readers_okD(11) [OF R this] show "g < nextGen ?s' \<and> (g \<in> closed ?s' \<or> rd ?s' g \<noteq> None)" unfolding f by simp
  qed (use act f none readers_okD(1,11) [OF R] in simp_all)
qed

lemma readers_ok_reader:
  assumes R: "readers_ok s" and g: "rd s g = Some r" "r \<noteq> RClose"
    and s': "rd s' = (rd s)(g \<mapsto> r')" "mcp_activeReaders s' = (if r' = RClose then mcp_activeReaders s - 1 else mcp_activeReaders s)"
      "mcp_open s' = mcp_open s" "mcp_readerDone s' = mcp_readerDone s" "nextGen s' = nextGen s" "closed s' = closed s" "th s' = th s"
  shows "readers_ok s'"
proof -
  have same: "g' = g" if "rd s g' = Some r''" for g' r'' using readers_okD(9) [OF R g(1) that] by simp
  have same': "g' = g" if "rd s' g' = Some r''" for g' r''
  proof (cases "g' = g")
    case False
    with that s'(1) have "rd s g' = Some r''" by simp
    then show ?thesis by (rule same)
  qed simp
  have none: "rd s g' = None" if "g' \<noteq> g" for g' using same [of g'] that by (cases "rd s g'") auto
  have "reading s g' \<longleftrightarrow> g' = g" "reading s' g' \<longleftrightarrow> r' \<noteq> RClose \<and> g' = g" for g'
    using g none [of g'] s'(1) by (cases "g' = g"; simp add: reading_def)+
  then have act: "mcp_activeReaders s' = (if \<exists>g. reading s' g then 1 else 0)" using readers_okD(10) [OF R] s'(2) by simp
  have start: "th s t \<noteq> TStart j" for t j using readers_okD(6) [OF R] g(1) by auto
  show ?thesis
  proof (rule readers_okI)
    fix g' r'' assume "rd s' g' = Some r''"
    then have "g' = g" by (rule same')
    then show "g' < nextGen s' \<and> g' \<notin> closed s'" "mcp_readerDone s' = Some g' \<or> mcp_readerDone s' = None \<and> (\<exists>t c. th s' t = TJoin (Some g') c)"
      using readers_okD(3,4,5) [OF R g(1)] s'(4-7) by simp_all
  next
    fix g1 g2 r1 r2 assume "rd s' g1 = Some r1" "rd s' g2 = Some r2"
    from same' [OF this(1)] same' [OF this(2)] show "g1 = g2" by simp
  next
    fix g' assume "mcp_readerDone s' = Some g'"
    with readers_okD(2) [OF R, of g'] s' show "g' < nextGen s' \<and> (g' \<in> closed s' \<or> rd s' g' \<noteq> None)" by simp
  next
    fix t g' c assume "th s' t = TJoin (Some g') c"
    with readers_okD(8) [OF R, of t g' c] s' show "g' < nextGen s' \<and> (g' \<in> closed s' \<or> rd s' g' \<noteq> None)" by simp
  next
    fix t x c assume "th s' t = TJoin x c" "c \<noteq> CStop"
    with readers_okD(7) [OF R, of t x c] s' show "mcp_readerDone s' = None" by simp
  qed (use act readers_okD(1,11) [OF R] s' start in simp_all)
qed

lemma readers_ok_close:
  assumes R: "readers_ok s" and g: "rd s g = Some RClose"
  shows "readers_ok (s\<lparr>closed := insert g (closed s), rd := (rd s)(g := None)\<rparr>)" (is "readers_ok ?s'")
proof -
  have same: "g' = g" if "rd s g' = Some r''" for g' r'' using readers_okD(9) [OF R g that] by simp
  have empty: "(rd s)(g := None) = Map.empty"
  proof
    fix g' show "((rd s)(g := None)) g' = None" using same [of g'] by (cases "rd s g'") auto
  qed
  have none: "rd s g' = None" if "g' \<noteq> g" for g' using same [of g'] that by (cases "rd s g'") auto
  have "\<not> reading s g'" for g' using same [of g'] g by (auto simp: reading_def)
  then have act: "mcp_activeReaders s = 0" using readers_okD(10) [OF R] by simp
  have start: "th s t \<noteq> TStart j" for t j using readers_okD(6) [OF R] g by auto
  have f: "mcp_open ?s' = mcp_open s" "mcp_readerDone ?s' = mcp_readerDone s" "nextGen ?s' = nextGen s" "closed ?s' = insert g (closed s)"
    "rd ?s' = Map.empty" "mcp_activeReaders ?s' = 0" "th ?s' = th s" "\<not> reading ?s' g'" for g'
    using empty act by (simp_all add: reading_def)
  have done': "g' < nextGen s \<and> g' \<in> insert g (closed s)" if "mcp_readerDone s = Some g' \<or> th s t = TJoin (Some g') c" for t g' c
    using readers_okD(2) [OF R, of g'] readers_okD(8) [OF R, of t g' c] that none [of g'] by (cases "g' = g") auto
  show ?thesis
  proof (rule readers_okI)
    fix g' assume "mcp_readerDone ?s' = Some g'"
    then show "g' < nextGen ?s' \<and> (g' \<in> closed ?s' \<or> rd ?s' g' \<noteq> None)" unfolding f using done' by blast
  next
    fix t g' c assume "th ?s' t = TJoin (Some g') c"
    then show "g' < nextGen ?s' \<and> (g' \<in> closed ?s' \<or> rd ?s' g' \<noteq> None)" unfolding f using done' by blast
  next
    fix t x c assume "th ?s' t = TJoin x c" "c \<noteq> CStop"
    then show "mcp_readerDone ?s' = None" unfolding f using readers_okD(7) [OF R] by blast
  next
    fix g' assume "g' \<in> closed ?s'"
    then show "g' < nextGen ?s'" unfolding f using readers_okD(11) [OF R] readers_okD(3) [OF R g] by blast
  next
    show "mcp_open ?s' = (mcp_readerDone ?s' \<noteq> None)" unfolding f by (rule readers_okD(1) [OF R])
  next
    show "mcp_activeReaders ?s' = (if \<exists>g. reading ?s' g then 1 else 0)" unfolding f(6) using f(8) by simp
  qed (unfold f, use start in simp_all)
qed

lemma readers_ok_step:
  assumes "step peek s s'" "exclusive s" "readers_ok s"
  shows "readers_ok s'"
  using assms(1)
proof cases
  case (tear t c)
  then show ?thesis using readers_ok_tear [OF assms(3,2)] by blast
next
  case (join_start t g j)
  then show ?thesis using readers_ok_join_start [OF assms(3,2)] by blast
next
  case (attach t j)
  then show ?thesis using readers_ok_attach [OF assms(3,2)] by simp
next
  case (route g l i ch)
  show ?thesis unfolding route(1) by (rule readers_ok_reader [where r' = "RSend ch l", OF assms(3) route(2)]) (simp_all add: deregister_def)
next
  case (deliver g ch l)
  show ?thesis unfolding deliver(1) by (rule readers_ok_reader [where r' = RScan, OF assms(3) deliver(2)]) simp_all
next
  case (end_of_stream g)
  show ?thesis unfolding end_of_stream(1) by (rule readers_ok_reader [where r' = RFinish, OF assms(3) end_of_stream(2)]) simp_all
next
  case (finish g)
  show ?thesis unfolding finish(1) by (rule readers_ok_reader [where r' = RClose, OF assms(3) finish(2)]) (simp_all add: finishReader_def)
next
  case (close_done g)
  then show ?thesis using readers_ok_close [OF assms(3)] by blast
qed (use joined(2) [OF assms(3,2)] in
  \<open>force intro!: readers_ok_goto [OF assms(3)] simp: mcp_release_def mcp_register_def deregister_def\<close>)+

section \<open>Responses reach their own requests\<close>

fun waits :: "pc \<Rightarrow> (int \<times> nat \<times> nat) option" where
  "waits (TWrite k i ch g j) = Some (i, ch, g)"
| "waits (TAwait k i ch g j) = Some (i, ch, g)"
| "waits _ = None"

definition requests_ok :: "(string \<Rightarrow> (int option \<times> string) option) \<Rightarrow> mcp \<Rightarrow> bool" where
  "requests_ok peek s \<longleftrightarrow>
     (\<forall>i ch. mcp_pending s i = Some ch \<longrightarrow> ch < nextChan s) \<and>
     (\<forall>t i ch g. waits (th s t) = Some (i, ch, g) \<longrightarrow> ch < nextChan s) \<and>
     (\<forall>ch. buf s ch \<noteq> None \<longrightarrow> ch < nextChan s) \<and>
     (\<forall>g ch l. rd s g = Some (RSend ch l) \<longrightarrow> ch < nextChan s) \<and>
     (\<forall>t u i i' ch g g'. waits (th s t) = Some (i, ch, g) \<longrightarrow> waits (th s u) = Some (i', ch, g') \<longrightarrow> t = u) \<and>
     (\<forall>t i ch g i'. waits (th s t) = Some (i, ch, g) \<longrightarrow> mcp_pending s i' = Some ch \<longrightarrow> i' = i) \<and>
     (\<forall>t i ch g i'. waits (th s t) = Some (i, ch, g) \<longrightarrow> mcp_pending s i' = Some ch \<longrightarrow> mcp_readerDone s = Some g) \<and>
     (\<forall>t i ch g g' l. waits (th s t) = Some (i, ch, g) \<longrightarrow> rd s g' = Some (RSend ch l) \<longrightarrow> g' = g) \<and>
     (\<forall>t i ch g g' l. waits (th s t) = Some (i, ch, g) \<longrightarrow> rd s g' = Some (RSend ch l) \<longrightarrow> peek l = Some (Some i, [])) \<and>
     (\<forall>t i ch g l. waits (th s t) = Some (i, ch, g) \<longrightarrow> buf s ch = Some (MLine l) \<longrightarrow> peek l = Some (Some i, [])) \<and>
     (\<forall>i i' ch. mcp_pending s i = Some ch \<longrightarrow> mcp_pending s i' = Some ch \<longrightarrow> i = i') \<and>
     (\<forall>i ch g r. mcp_pending s i = Some ch \<longrightarrow> rd s g = Some r \<longrightarrow> r \<noteq> RClose \<longrightarrow> buf s ch = None) \<and>
     (\<forall>g ch l. rd s g = Some (RSend ch l) \<longrightarrow> buf s ch = None) \<and>
     (\<forall>g ch l. rd s g = Some (RSend ch l) \<longrightarrow> ch \<notin> ran (mcp_pending s))"

lemma requests_okD:
  assumes "requests_ok peek s"
  shows "mcp_pending s i = Some ch \<Longrightarrow> ch < nextChan s"
    "waits (th s t) = Some (i, ch, g) \<Longrightarrow> ch < nextChan s"
    "buf s ch = Some x \<Longrightarrow> ch < nextChan s"
    "rd s g = Some (RSend ch l) \<Longrightarrow> ch < nextChan s"
    "waits (th s t) = Some (i, ch, g) \<Longrightarrow> waits (th s u) = Some (i', ch, g') \<Longrightarrow> t = u"
    "waits (th s t) = Some (i, ch, g) \<Longrightarrow> mcp_pending s i' = Some ch \<Longrightarrow> i' = i \<and> mcp_readerDone s = Some g"
    "waits (th s t) = Some (i, ch, g) \<Longrightarrow> rd s g' = Some (RSend ch l) \<Longrightarrow> g' = g \<and> peek l = Some (Some i, [])"
    "waits (th s t) = Some (i, ch, g) \<Longrightarrow> buf s ch = Some (MLine l) \<Longrightarrow> peek l = Some (Some i, [])"
    "mcp_pending s i = Some ch \<Longrightarrow> mcp_pending s i' = Some ch \<Longrightarrow> i = i'"
    "mcp_pending s i = Some ch \<Longrightarrow> rd s g = Some r \<Longrightarrow> r \<noteq> RClose \<Longrightarrow> buf s ch = None"
    "rd s g = Some (RSend ch l) \<Longrightarrow> buf s ch = None \<and> ch \<notin> ran (mcp_pending s)"
  using assms unfolding requests_ok_def not_None_eq by (elim conjE, meson)+

lemma requests_okI:
  assumes "\<And>i ch. mcp_pending s i = Some ch \<Longrightarrow> ch < nextChan s"
    "\<And>t i ch g. waits (th s t) = Some (i, ch, g) \<Longrightarrow> ch < nextChan s"
    "\<And>ch x. buf s ch = Some x \<Longrightarrow> ch < nextChan s"
    "\<And>g ch l. rd s g = Some (RSend ch l) \<Longrightarrow> ch < nextChan s"
    "\<And>t u i i' ch g g'. waits (th s t) = Some (i, ch, g) \<Longrightarrow> waits (th s u) = Some (i', ch, g') \<Longrightarrow> t = u"
    "\<And>t i ch g i'. waits (th s t) = Some (i, ch, g) \<Longrightarrow> mcp_pending s i' = Some ch \<Longrightarrow> i' = i \<and> mcp_readerDone s = Some g"
    "\<And>t i ch g g' l. waits (th s t) = Some (i, ch, g) \<Longrightarrow> rd s g' = Some (RSend ch l) \<Longrightarrow> g' = g \<and> peek l = Some (Some i, [])"
    "\<And>t i ch g l. waits (th s t) = Some (i, ch, g) \<Longrightarrow> buf s ch = Some (MLine l) \<Longrightarrow> peek l = Some (Some i, [])"
    "\<And>i i' ch. mcp_pending s i = Some ch \<Longrightarrow> mcp_pending s i' = Some ch \<Longrightarrow> i = i'"
    "\<And>i ch g r. mcp_pending s i = Some ch \<Longrightarrow> rd s g = Some r \<Longrightarrow> r \<noteq> RClose \<Longrightarrow> buf s ch = None"
    "\<And>g ch l. rd s g = Some (RSend ch l) \<Longrightarrow> buf s ch = None \<and> ch \<notin> ran (mcp_pending s)"
  shows "requests_ok peek s"
  using assms unfolding requests_ok_def not_None_eq by (intro conjI; meson)

text \<open>Steps that add no request, no response and no answer on the way.\<close>

lemma requests_weaken:
  assumes Q: "requests_ok peek s"
    and th: "\<And>u. waits (th s' u) = None \<or> waits (th s' u) = waits (th s u)"
    and pend: "mcp_pending s' \<subseteq>\<^sub>m mcp_pending s"
    and buf: "\<And>ch. buf s' ch = buf s ch \<or> buf s' ch = None"
    and send: "\<And>g ch l. rd s' g = Some (RSend ch l) \<Longrightarrow> rd s g = Some (RSend ch l)"
    and live: "\<And>i ch. mcp_pending s' i = Some ch \<Longrightarrow> mcp_readerDone s' = mcp_readerDone s \<and>
      (\<forall>g r. rd s' g = Some r \<longrightarrow> r \<noteq> RClose \<longrightarrow> (\<exists>r'. rd s g = Some r' \<and> r' \<noteq> RClose))"
    and new: "nextChan s' = nextChan s"
  shows "requests_ok peek s'"
proof -
  have p: "mcp_pending s i = Some ch" if "mcp_pending s' i = Some ch" for i ch
    using pend that by (auto simp: map_le_def dom_def)
  have w: "waits (th s u) = Some x" if "waits (th s' u) = Some x" for u x using th [of u] that by auto
  have b: "buf s ch = Some x" if "buf s' ch = Some x" for ch x using buf [of ch] that by auto
  show ?thesis
  proof (rule requests_okI)
    fix i ch g r assume "mcp_pending s' i = Some ch" "rd s' g = Some r" "r \<noteq> RClose"
    then obtain r' where "rd s g = Some r'" "r' \<noteq> RClose" using live by blast
    with requests_okD(10) [OF Q p] \<open>mcp_pending s' i = Some ch\<close> have "buf s ch = None" by blast
    then show "buf s' ch = None" using buf [of ch] by auto
  next
    fix g ch l assume "rd s' g = Some (RSend ch l)"
    from requests_okD(11) [OF Q send [OF this]] have "buf s ch = None" "ch \<notin> ran (mcp_pending s)" by simp_all
    then show "buf s' ch = None \<and> ch \<notin> ran (mcp_pending s')" using buf [of ch] p by (auto simp: ran_def)
  next
    fix t i ch g i' assume "waits (th s' t) = Some (i, ch, g)" "mcp_pending s' i' = Some ch"
    with requests_okD(6) [OF Q w p] live show "i' = i \<and> mcp_readerDone s' = Some g" by metis
  qed (use new requests_okD(1-4) [OF Q] requests_okD(5) [OF Q w w] requests_okD(7) [OF Q w send] requests_okD(8) [OF Q w b]
      requests_okD(9) [OF Q p p] p w b send in \<open>blast | metis\<close>)+
qed

lemma requests_ok_init: "requests_ok peek mcp_init"
  by (rule requests_okI) (simp_all add: mcp_init_def)

lemma requests_ok_send:
  assumes Q: "requests_ok peek s" and t: "waits (th s t) = None" and g: "mcp_readerDone s = Some g"
  shows "requests_ok peek (goto t (TWrite k (mcp_lastID s + 1) (nextChan s) g j) (mcp_register s))" (is "requests_ok peek ?s'")
proof -
  have f: "mcp_pending ?s' = (mcp_pending s)(mcp_lastID s + 1 \<mapsto> nextChan s)" "nextChan ?s' = Suc (nextChan s)" "buf ?s' = buf s"
    "rd ?s' = rd s" "mcp_readerDone ?s' = mcp_readerDone s"
    "waits (th ?s' u) = (if u = t then Some (mcp_lastID s + 1, nextChan s, g) else waits (th s u))" for u
    by (simp_all add: goto_def mcp_register_def)
  have fresh: "mcp_pending s i \<noteq> Some (nextChan s)" "waits (th s u) \<noteq> Some (i, nextChan s, g')" "buf s (nextChan s) = None"
    "rd s g' \<noteq> Some (RSend (nextChan s) l)" for i u g' l
    using requests_okD(1) [OF Q, of i "nextChan s"] requests_okD(2) [OF Q, of u i "nextChan s" g'] requests_okD(3) [OF Q, of "nextChan s"]
      requests_okD(4) [OF Q, of g' "nextChan s" l] by (auto, cases "buf s (nextChan s)") auto
  show ?thesis
  proof (rule requests_okI, unfold f)
    fix i ch assume "((mcp_pending s)(mcp_lastID s + 1 \<mapsto> nextChan s)) i = Some ch"
    then show "ch < Suc (nextChan s)" using requests_okD(1) [OF Q, of i ch] by (auto split: if_splits)
  next
    fix u v i i' ch g1 g2
    assume "(if u = t then Some (mcp_lastID s + 1, nextChan s, g) else waits (th s u)) = Some (i, ch, g1)"
      "(if v = t then Some (mcp_lastID s + 1, nextChan s, g) else waits (th s v)) = Some (i', ch, g2)"
    then show "u = v" using requests_okD(5) [OF Q, of u i ch g1 v i' g2] fresh(2) by (auto split: if_splits)
  next
    fix u i ch g1 i'
    assume "(if u = t then Some (mcp_lastID s + 1, nextChan s, g) else waits (th s u)) = Some (i, ch, g1)"
      "((mcp_pending s)(mcp_lastID s + 1 \<mapsto> nextChan s)) i' = Some ch"
    then show "i' = i \<and> mcp_readerDone s = Some g1"
      using requests_okD(6) [OF Q, of u i ch g1 i'] fresh(1) [of i'] fresh(2) [of u i g1] g by (auto split: if_splits)
  next
    fix i i' ch
    assume "((mcp_pending s)(mcp_lastID s + 1 \<mapsto> nextChan s)) i = Some ch"
      "((mcp_pending s)(mcp_lastID s + 1 \<mapsto> nextChan s)) i' = Some ch"
    then show "i = i'" using requests_okD(9) [OF Q, of i ch i'] fresh(1) by (auto split: if_splits)
  next
    fix i ch g' r
    assume "((mcp_pending s)(mcp_lastID s + 1 \<mapsto> nextChan s)) i = Some ch" "rd s g' = Some r" "r \<noteq> RClose"
    then show "buf s ch = None" using requests_okD(10) [OF Q, of i ch g' r] fresh(3) by (auto split: if_splits)
  next
    fix g' ch l assume a: "rd s g' = Some (RSend ch l)"
    from requests_okD(11) [OF Q a] fresh(4) [of g' l] a
    show "buf s ch = None \<and> ch \<notin> ran ((mcp_pending s)(mcp_lastID s + 1 \<mapsto> nextChan s))"
      by (auto simp: ran_def)
  next
    fix u i ch g1 l
    assume "(if u = t then Some (mcp_lastID s + 1, nextChan s, g) else waits (th s u)) = Some (i, ch, g1)" "buf s ch = Some (MLine l)"
    then show "peek l = Some (Some i, [])" using requests_okD(8) [OF Q, of u i ch g1 l] fresh(3) by (auto split: if_splits)
  next
    fix u i ch g1 g' l
    assume "(if u = t then Some (mcp_lastID s + 1, nextChan s, g) else waits (th s u)) = Some (i, ch, g1)" "rd s g' = Some (RSend ch l)"
    then show "g' = g1 \<and> peek l = Some (Some i, [])"
      using requests_okD(7) [OF Q, of u i ch g1 g' l] fresh(4) [of g' l] by (auto split: if_splits)
  next
    fix u i ch g1
    assume "(if u = t then Some (mcp_lastID s + 1, nextChan s, g) else waits (th s u)) = Some (i, ch, g1)"
    then show "ch < Suc (nextChan s)" using requests_okD(2) [OF Q, of u i ch g1] by (auto split: if_splits)
  next
    fix ch x assume "buf s ch = Some x"
    then show "ch < Suc (nextChan s)" using requests_okD(3) [OF Q, of ch x] by simp
  next
    fix g' ch l assume "rd s g' = Some (RSend ch l)"
    then show "ch < Suc (nextChan s)" using requests_okD(4) [OF Q, of g' ch l] by simp
  qed
qed

lemma requests_ok_route:
  assumes Q: "requests_ok peek s" and R: "readers_ok s"
    and st: "rd s g = Some RScan" "peek l = Some (Some i, [])" "mcp_pending s i = Some ch"
  shows "requests_ok peek ((deregister i s)\<lparr>rd := (rd s)(g \<mapsto> RSend ch l)\<rparr>)" (is "requests_ok peek ?s'")
proof -
  have f: "mcp_pending ?s' = (mcp_pending s)(i := None)" "nextChan ?s' = nextChan s" "buf ?s' = buf s"
    "rd ?s' = (rd s)(g \<mapsto> RSend ch l)" "mcp_readerDone ?s' = mcp_readerDone s" "th ?s' = th s"
    by (simp_all add: deregister_def)
  have only: "g' = g" if "rd s g' = Some r" for g' r using readers_okD(9) [OF R that st(1)] .
  have empty: "buf s ch = None" using requests_okD(10) [OF Q st(3,1)] by simp
  have mine: "i' = i" "g1 = g" if "waits (th s u) = Some (i', ch, g1)" for u i' g1
    using requests_okD(6) [OF Q that st(3)] readers_okD(5) [OF R st(1)] by auto
  show ?thesis
  proof (rule requests_okI, unfold f)
    fix i' ch' assume "((mcp_pending s)(i := None)) i' = Some ch'"
    then show "ch' < nextChan s" using requests_okD(1) [OF Q, of i' ch'] by (auto split: if_splits)
  next
    fix u i' ch' g1 g' l'
    assume a: "waits (th s u) = Some (i', ch', g1)" "((rd s)(g \<mapsto> RSend ch l)) g' = Some (RSend ch' l')"
    then show "g' = g1 \<and> peek l' = Some (Some i', [])"
    proof (cases "g' = g")
      case True
      with a(2) have "ch' = ch" "l' = l" by simp_all
      with a(1) mine [of u i' g1] True st(2) show ?thesis by simp
    next
      case False
      with a(2) have "rd s g' = Some (RSend ch' l')" by simp
      with requests_okD(7) [OF Q a(1) this] show ?thesis by simp
    qed
  next
    fix g' ch' l' assume a: "((rd s)(g \<mapsto> RSend ch l)) g' = Some (RSend ch' l')"
    show "buf s ch' = None \<and> ch' \<notin> ran ((mcp_pending s)(i := None))"
    proof (cases "g' = g")
      case True
      with a have "ch' = ch" by simp
      with empty requests_okD(9) [OF Q _ st(3)] show ?thesis by (auto simp: ran_def split: if_splits)
    next
      case False
      with a have "rd s g' = Some (RSend ch' l')" by simp
      from requests_okD(11) [OF Q this] show ?thesis by (auto simp: ran_def split: if_splits)
    qed
  next
    fix g' ch' l' assume "((rd s)(g \<mapsto> RSend ch l)) g' = Some (RSend ch' l')"
    then show "ch' < nextChan s" using requests_okD(4) [OF Q, of g' ch' l'] requests_okD(1) [OF Q st(3)] by (auto split: if_splits)
  next
    fix u i' ch' g1 i'' assume "waits (th s u) = Some (i', ch', g1)" "((mcp_pending s)(i := None)) i'' = Some ch'"
    then show "i'' = i' \<and> mcp_readerDone s = Some g1" using requests_okD(6) [OF Q, of u i' ch' g1 i''] by (auto split: if_splits)
  next
    fix i1 i2 ch' assume "((mcp_pending s)(i := None)) i1 = Some ch'" "((mcp_pending s)(i := None)) i2 = Some ch'"
    then show "i1 = i2" using requests_okD(9) [OF Q, of i1 ch' i2] by (auto split: if_splits)
  next
    fix i' ch' g' r assume a: "((mcp_pending s)(i := None)) i' = Some ch'"
    then have "mcp_pending s i' = Some ch'" by (simp split: if_splits)
    from requests_okD(10) [OF Q this st(1)] show "buf s ch' = None" by simp
  qed (use requests_okD(2,3,5,8) [OF Q] in blast)+
qed

lemma requests_ok_deliver:
  assumes Q: "requests_ok peek s" and R: "readers_ok s" and st: "rd s g = Some (RSend ch l)"
  shows "requests_ok peek (s\<lparr>buf := (buf s)(ch \<mapsto> MLine l), rd := (rd s)(g \<mapsto> RScan)\<rparr>)" (is "requests_ok peek ?s'")
proof -
  have f: "mcp_pending ?s' = mcp_pending s" "nextChan ?s' = nextChan s" "buf ?s' = (buf s)(ch \<mapsto> MLine l)"
    "rd ?s' = (rd s)(g \<mapsto> RScan)" "mcp_readerDone ?s' = mcp_readerDone s" "th ?s' = th s"
    by simp_all
  have none: "((rd s)(g \<mapsto> RScan)) g' \<noteq> Some (RSend ch' l')" for g' ch' l' using readers_okD(9) [OF R st, of g'] by auto
  have out: "ch \<notin> ran (mcp_pending s)" using requests_okD(11) [OF Q st] by simp
  show ?thesis
  proof (rule requests_okI, unfold f)
    fix ch' x assume "((buf s)(ch \<mapsto> MLine l)) ch' = Some x"
    then show "ch' < nextChan s" using requests_okD(3) [OF Q, of ch' x] requests_okD(4) [OF Q st] by (auto split: if_splits)
  next
    fix u i ch' g1 l' assume "waits (th s u) = Some (i, ch', g1)" "((buf s)(ch \<mapsto> MLine l)) ch' = Some (MLine l')"
    then show "peek l' = Some (Some i, [])"
      using requests_okD(8) [OF Q, of u i ch' g1 l'] requests_okD(7) [OF Q _ st, of u i g1] by (auto split: if_splits)
  next
    fix i ch' g' r assume a: "mcp_pending s i = Some ch'" "((rd s)(g \<mapsto> RScan)) g' = Some r"
    then have "ch' \<noteq> ch" using out by (auto simp: ran_def)
    with requests_okD(10) [OF Q a(1) st] show "((buf s)(ch \<mapsto> MLine l)) ch' = None" by simp
  next
    fix i ch' assume "mcp_pending s i = Some ch'"
    then show "ch' < nextChan s" by (rule requests_okD(1) [OF Q])
  next
    fix u i ch' g1 assume "waits (th s u) = Some (i, ch', g1)"
    then show "ch' < nextChan s" by (rule requests_okD(2) [OF Q])
  next
    fix u v i i' ch' g1 g2 assume "waits (th s u) = Some (i, ch', g1)" "waits (th s v) = Some (i', ch', g2)"
    then show "u = v" by (rule requests_okD(5) [OF Q])
  next
    fix u i ch' g1 i' assume "waits (th s u) = Some (i, ch', g1)" "mcp_pending s i' = Some ch'"
    then show "i' = i \<and> mcp_readerDone s = Some g1" by (rule requests_okD(6) [OF Q])
  next
    fix i i' ch' assume "mcp_pending s i = Some ch'" "mcp_pending s i' = Some ch'"
    then show "i = i'" by (rule requests_okD(9) [OF Q])
  qed (use none in simp_all)
qed

lemma requests_ok_finish:
  assumes Q: "requests_ok peek s" and R: "readers_ok s" and st: "rd s g = Some RFinish"
  shows "requests_ok peek (finishReader g s)" (is "requests_ok peek ?s'")
proof -
  have f: "mcp_pending ?s' = mcp_pending s" "nextChan ?s' = nextChan s" "rd ?s' = (rd s)(g \<mapsto> RClose)"
    "buf ?s' = (\<lambda>ch. if ch \<in> ran (mcp_pending s) \<and> buf s ch = None then Some MErr else buf s ch)"
    "mcp_readerDone ?s' = mcp_readerDone s" "th ?s' = th s"
    by (simp_all add: finishReader_def)
  have close: "r = RClose" if "((rd s)(g \<mapsto> RClose)) g' = Some r" for g' r
    using readers_okD(9) [OF R st, of g'] that by (auto split: if_splits)
  show ?thesis
  proof (rule requests_okI, unfold f)
    fix ch x assume "(if ch \<in> ran (mcp_pending s) \<and> buf s ch = None then Some MErr else buf s ch) = Some x"
    then show "ch < nextChan s" using requests_okD(3) [OF Q, of ch x] requests_okD(1) [OF Q] by (auto simp: ran_def split: if_splits)
  next
    fix u i ch g1 l assume "waits (th s u) = Some (i, ch, g1)"
      "(if ch \<in> ran (mcp_pending s) \<and> buf s ch = None then Some MErr else buf s ch) = Some (MLine l)"
    then show "peek l = Some (Some i, [])" using requests_okD(8) [OF Q, of u i ch g1 l] by (simp split: if_splits)
  next
    fix i ch g' r assume "((rd s)(g \<mapsto> RClose)) g' = Some r" "r \<noteq> RClose"
    with close show "(if ch \<in> ran (mcp_pending s) \<and> buf s ch = None then Some MErr else buf s ch) = None" by blast
  next
    fix g' ch l assume "((rd s)(g \<mapsto> RClose)) g' = Some (RSend ch l)"
    from close [OF this]
    show "ch < nextChan s" "(if ch \<in> ran (mcp_pending s) \<and> buf s ch = None then Some MErr else buf s ch) = None \<and> ch \<notin> ran (mcp_pending s)"
      by simp_all
  next
    fix g' ch l i g1 assume "((rd s)(g \<mapsto> RClose)) g' = Some (RSend ch l)"
    from close [OF this] show "g' = g1 \<and> peek l = Some (Some i, [])" by simp
  next
    fix i ch assume "mcp_pending s i = Some ch"
    then show "ch < nextChan s" by (rule requests_okD(1) [OF Q])
  next
    fix u i ch g1 assume "waits (th s u) = Some (i, ch, g1)"
    then show "ch < nextChan s" by (rule requests_okD(2) [OF Q])
  next
    fix u v i i' ch g1 g2 assume "waits (th s u) = Some (i, ch, g1)" "waits (th s v) = Some (i', ch, g2)"
    then show "u = v" by (rule requests_okD(5) [OF Q])
  next
    fix u i ch g1 i' assume "waits (th s u) = Some (i, ch, g1)" "mcp_pending s i' = Some ch"
    then show "i' = i \<and> mcp_readerDone s = Some g1" by (rule requests_okD(6) [OF Q])
  next
    fix i i' ch assume "mcp_pending s i = Some ch" "mcp_pending s i' = Some ch"
    then show "i = i'" by (rule requests_okD(9) [OF Q])
  qed
qed

text \<open>Steps of one thread that leave the readers alone.\<close>

lemma requests_goto:
  assumes Q: "requests_ok peek s" and p: "waits p = None \<or> waits p = waits (th s t)"
    and same: "th s' = th s" "rd s' = rd s" "nextChan s' = nextChan s"
    and buf: "buf s' = buf s \<or> (\<exists>ch. buf s' = (buf s)(ch := None))"
    and pend: "mcp_pending s' = Map.empty \<or> mcp_readerDone s' = mcp_readerDone s \<and> mcp_pending s' \<subseteq>\<^sub>m mcp_pending s"
  shows "requests_ok peek (goto t p s')"
proof (rule requests_weaken [OF Q])
  fix u show "waits (th (goto t p s') u) = None \<or> waits (th (goto t p s') u) = waits (th s u)"
    using p same(1) by (simp add: goto_def)
next
  show "mcp_pending (goto t p s') \<subseteq>\<^sub>m mcp_pending s" using pend by (auto simp: goto_def)
next
  fix ch show "buf (goto t p s') ch = buf s ch \<or> buf (goto t p s') ch = None" using buf by (auto simp: goto_def split: if_splits)
next
  fix i ch assume "mcp_pending (goto t p s') i = Some ch"
  then show "mcp_readerDone (goto t p s') = mcp_readerDone s \<and>
      (\<forall>g r. rd (goto t p s') g = Some r \<longrightarrow> r \<noteq> RClose \<longrightarrow> (\<exists>r'. rd s g = Some r' \<and> r' \<noteq> RClose))"
    using pend same(2) by (auto simp: goto_def)
qed (use same in \<open>simp_all add: goto_def\<close>)

lemma requests_ok_step:
  assumes "step peek s s'" "readers_ok s" "requests_ok peek s"
  shows "requests_ok peek s'"
  using assms(1)
proof cases
  case (send t k j g)
  then show ?thesis using requests_ok_send [OF assms(3), of t g k j] by simp
next
  case (route g l i ch)
  then show ?thesis using requests_ok_route [OF assms(3,2)] by blast
next
  case (deliver g ch l)
  then show ?thesis using requests_ok_deliver [OF assms(3,2)] by blast
next
  case (finish g)
  then show ?thesis using requests_ok_finish [OF assms(3,2)] by blast
next
  case (attach t j)
  show ?thesis unfolding attach(1)
    by (rule requests_weaken [OF assms(3)]) (simp_all add: goto_def attach_def split: if_splits)
next
  case (end_of_stream g)
  show ?thesis unfolding end_of_stream(1)
    by (rule requests_weaken [OF assms(3)]) (use end_of_stream(2) in \<open>auto split: if_splits\<close>)
next
  case (close_done g)
  show ?thesis unfolding close_done(1)
    by (rule requests_weaken [OF assms(3)]) (auto split: if_splits)
next
  case (req_done t i h r j)
  then show ?thesis
    by (cases h) (simp_all, (rule requests_goto [OF assms(3)]; force simp: mcp_release_def deregister_def map_le_def)+)
qed (simp, rule requests_goto [OF assms(3)];
  force simp: mcp_release_def detach_def deregister_def map_le_def)+

section \<open>Reachable states\<close>

lemma reaches_invariants:
  assumes "reaches peek mcp_init s"
  shows "exclusive s \<and> readers_ok s \<and> requests_ok peek s"
proof -
  have "exclusive s \<and> readers_ok s \<and> requests_ok peek s" if "reaches peek s0 s" "s0 = mcp_init" for s0
    using that
  proof (induction rule: reaches.induct)
    case (start s)
    then show ?case using exclusive_init readers_ok_init requests_ok_init by simp
  next
    case (more s s' s'')
    then show ?case using exclusive_step readers_ok_step requests_ok_step by blast
  qed
  then show ?thesis using assms by blast
qed

text \<open>
  \<^bold>\<open>C13.\<close> The transport of an MCP server never mixes responses up, whatever callers, starts, stops, crashes of the subprocess and
  restarts do: at most one reader runs, and its counter agrees; a line that is in the buffer of a waiting request carries the id of
  that request; a line on its way to a waiting request comes from the subprocess that the request was sent to; and the
  reader never blocks on a buffer, so one slow caller cannot stall the others.
\<close>

theorem responses_not_crossed:
  assumes "reaches peek mcp_init s"
  shows "(\<forall>g g'. rd s g \<noteq> None \<longrightarrow> rd s g' \<noteq> None \<longrightarrow> g = g') \<and> mcp_activeReaders s = (if \<exists>g. reading s g then 1 else 0) \<and>
    (\<forall>t i ch g l. waits (th s t) = Some (i, ch, g) \<longrightarrow> buf s ch = Some (MLine l) \<longrightarrow> peek l = Some (Some i, [])) \<and>
    (\<forall>t i ch g g' l. waits (th s t) = Some (i, ch, g) \<longrightarrow> rd s g' = Some (RSend ch l) \<longrightarrow> g' = g \<and> peek l = Some (Some i, [])) \<and>
    (\<forall>g ch l. rd s g = Some (RSend ch l) \<longrightarrow> buf s ch = None)"
proof -
  from reaches_invariants [OF assms] have R: "readers_ok s" and Q: "requests_ok peek s" by simp_all
  from R have "\<forall>g g'. rd s g \<noteq> None \<longrightarrow> rd s g' \<noteq> None \<longrightarrow> g = g'" by (simp add: readers_ok_def)
  then show ?thesis using readers_okD(10) [OF R] requests_okD(7,8) [OF Q] requests_okD(11) [OF Q] by blast
qed

theorem responses_not_crossed_witness:
  "\<exists>s. reaches (\<lambda>_. None) mcp_init s \<and> mcp_activeReaders s = (if \<exists>g. reading s g then 1 else 0)"
  using responses_not_crossed [OF reaches.start [of "\<lambda>_. None" mcp_init]] reaches.start by blast

section \<open>A late clean-up\<close>

text \<open>Nobody is going to fill the buffer of a request that is neither pending nor about to be answered.\<close>

definition lost :: "nat \<Rightarrow> mcp \<Rightarrow> bool" where
  "lost ch s \<longleftrightarrow> ch < nextChan s \<and> ch \<notin> ran (mcp_pending s) \<and> (\<forall>g l. rd s g \<noteq> Some (RSend ch l)) \<and> buf s ch = None"

lemma lost_step: "step peek s s' \<Longrightarrow> lost ch s \<Longrightarrow> lost ch s'"
  by (erule step.cases; force simp: lost_def mcp_defs ran_def split: if_splits)

lemma lost_forever: "reaches peek s s' \<Longrightarrow> lost ch s \<Longrightarrow> lost ch s'"
  by (induction rule: reaches.induct) (auto intro: lost_step)

lemma reaches_trans: "reaches peek b c \<Longrightarrow> reaches peek a b \<Longrightarrow> reaches peek a c"
  by (induction rule: reaches.induct) (auto intro: reaches.more)

text \<open>A call on a server that does not run, up to the wait for its response: the handshake gets id 1 and the call id 2.\<close>

lemma call_trace:
  assumes t: "th s t = TIdle" "mcp_admit s = None" "mcp_stopMu s = None" "\<not> running s"
    "mcp_readerDone s = None \<or> the (mcp_readerDone s) \<in> closed s" "buf s (nextChan s) = None"
    and l: "l \<noteq> []" "peek l = Some (Some 1, [])"
  shows "\<exists>s'. reaches peek s s' \<and> th s' = (th s)(t := TAwait Req 2 (nextChan s + 1) (nextGen s) JCall) \<and> mcp_admit s' = None \<and>
    mcp_stopMu s' = None \<and> mcp_open s' \<and> \<not> mcp_dead s' \<and> mcp_readerDone s' = Some (nextGen s) \<and> closed s' = closed s \<and>
    mcp_pending s' = [2 \<mapsto> nextChan s + 1] \<and> rd s' = (rd s)(nextGen s \<mapsto> RScan) \<and> buf s' = buf s \<and>
    nextChan s' = nextChan s + 2 \<and> nextGen s' = Suc (nextGen s)"
proof -
  let ?g = "nextGen s" and ?c = "nextChan s"
  define s1 where "s1 = goto t (TWant JCall) s"
  define s2 where "s2 = goto t (TCheck JCall) (s1\<lparr>mcp_admit := Some t\<rparr>)"
  define s3 where "s3 = goto t (TTear (CStart JCall)) s2"
  define s4 where "s4 = goto t (TJoin (mcp_readerDone s3) (CStart JCall)) (detach (s3\<lparr>mcp_stopMu := Some t\<rparr>))"
  define s5 where "s5 = goto t (TStart JCall) (s4\<lparr>mcp_stopMu := None\<rparr>)"
  define s6 where "s6 = goto t (TSend Hand JCall) (attach s5)"
  define s7 where "s7 = goto t (TWrite Hand 1 ?c ?g JCall) (mcp_register s6)"
  define s8 where "s8 = goto t (TAwait Hand 1 ?c ?g JCall) s7"
  define s9 where "s9 = (deregister 1 s8)\<lparr>rd := (rd s8)(?g \<mapsto> RSend ?c l)\<rparr>"
  define s10 where "s10 = s9\<lparr>buf := (buf s9)(?c \<mapsto> MLine l), rd := (rd s9)(?g \<mapsto> RScan)\<rparr>"
  define s11 where "s11 = goto t (TNotify 1 JCall) (s10\<lparr>buf := (buf s10)(?c := None)\<rparr>)"
  define s12 where "s12 = goto t (TDereg Hand 1 True (MLine []) JCall) s11"
  define s13 where "s13 = goto t (TSend Req JCall) ((deregister 1 s12)\<lparr>mcp_initialized := True\<rparr>)"
  define s14 where "s14 = goto t (TWrite Req 2 (Suc ?c) ?g JCall) (mcp_register s13)"
  define s15 where "s15 = goto t (TAwait Req 2 (Suc ?c) ?g JCall) (mcp_release s14)"
  note d = s1_def s2_def s3_def s4_def s5_def s6_def s7_def s8_def s9_def s10_def s11_def s12_def s13_def s14_def s15_def mcp_defs
  have st1: "step peek s s1" unfolding s1_def by (rule begin_call) (rule t(1))
  have st2: "step peek s1 s2" unfolding s2_def by (rule admit) (simp_all add: d t)
  have st3: "step peek s2 s3" unfolding s3_def by (rule check_down) (use t(4) in \<open>simp_all add: d running_def\<close>)
  have st4: "step peek s3 s4" unfolding s4_def by (rule tear) (simp_all add: d t)
  have st5: "step peek s4 s5" unfolding s5_def
    by (rule join_start [where g = "mcp_readerDone s3"]) (use t(5) in \<open>simp_all add: d\<close>)
  have st6: "step peek s5 s6" unfolding s6_def by (rule attach) (simp add: d)
  have st7: "step peek s6 s7"
    using send [of s6 t Hand JCall ?g peek] by (simp add: d running_def)
  have st8: "step peek s7 s8" unfolding s8_def by (rule write_hand) (simp add: d)
  have st9: "step peek s8 s9" unfolding s9_def by (rule route [where l = l]) (simp_all add: d l)
  have st10: "step peek s9 s10" unfolding s10_def by (rule deliver) (simp_all add: d t(6))
  have st11: "step peek s10 s11" unfolding s11_def by (rule await_hand [where l = l]) (simp_all add: d)
  have st12: "step peek s11 s12" unfolding s12_def by (rule notify) (simp_all add: d)
  have st13: "step peek s12 s13" unfolding s13_def by (rule hand_ready [where l = "[]"]) (simp add: d)
  have st14: "step peek s13 s14"
    using send [of s13 t Req JCall ?g peek] by (simp add: d running_def)
  have st15: "step peek s14 s15" unfolding s15_def by (rule write_req) (simp add: d)
  note chain = reaches.more [OF reaches.start st1]
  note chain = reaches.more [OF chain st2]
  note chain = reaches.more [OF chain st3]
  note chain = reaches.more [OF chain st4]
  note chain = reaches.more [OF chain st5]
  note chain = reaches.more [OF chain st6]
  note chain = reaches.more [OF chain st7]
  note chain = reaches.more [OF chain st8]
  note chain = reaches.more [OF chain st9]
  note chain = reaches.more [OF chain st10]
  note chain = reaches.more [OF chain st11]
  note chain = reaches.more [OF chain st12]
  note chain = reaches.more [OF chain st13]
  note chain = reaches.more [OF chain st14]
  note chain = reaches.more [OF chain st15]
  have "buf s15 = buf s" using t(6) by (auto simp: d)
  with chain show ?thesis by (intro exI [of _ s15]) (simp add: d fun_eq_iff t)
qed

text \<open>
  The clean-up of a finished call can lose the response of another one. Ids start again at 1 with every transport, and
  \<^verbatim>\<open>deregister\<close> removes whatever request has the id now: when the subprocess dies, a second call restarts it, and the first call,
  which has its error already, only then runs its deferred clean-up, the request of the second call is no longer pending. In the
  state reached so the server runs and its reader reads, but no continuation ever puts a response or an error
  into the buffer that the second call waits for.
\<close>

theorem late_deregister_loses_response:
  assumes "l \<noteq> []" "peek l = Some (Some 1, [])"
  shows "\<exists>s ch g. reaches peek mcp_init s \<and> th s 1 = TAwait Req 2 ch g JCall \<and> running s \<and> mcp_readerDone s = Some g \<and>
    rd s g = Some RScan \<and> (\<forall>s'. reaches peek s s' \<longrightarrow> buf s' ch = None)"
proof -
  from call_trace [of mcp_init 0 l peek] assms obtain a where a: "reaches peek mcp_init a" "th a = (\<lambda>_. TIdle)(0 := TAwait Req 2 1 0 JCall)"
    "mcp_admit a = None" "mcp_stopMu a = None" "mcp_open a" "mcp_readerDone a = Some 0" "closed a = {}" "mcp_pending a = [2 \<mapsto> 1]"
    "rd a = [0 \<mapsto> RScan]" "buf a = Map.empty" "nextChan a = 2" "nextGen a = 1"
    by (auto simp: mcp_init_def running_def)
  define b1 where "b1 = a\<lparr>rd := (rd a)(0 \<mapsto> RFinish)\<rparr>"
  define b2 where "b2 = finishReader 0 b1"
  define b3 where "b3 = goto 0 (TDereg Req 2 False MErr JCall) (b2\<lparr>buf := (buf b2)(1 := None)\<rparr>)"
  define b4 where "b4 = b3\<lparr>closed := insert 0 (closed b3), rd := (rd b3)(0 := None)\<rparr>"
  note d = b1_def b2_def b3_def b4_def mcp_defs
  have "step peek a b1" unfolding b1_def by (rule end_of_stream) (simp add: a)
  note chain = reaches.more [OF a(1) this]
  have "step peek b1 b2" unfolding b2_def by (rule finish) (simp add: d)
  note chain = reaches.more [OF chain this]
  have "step peek b2 b3" unfolding b3_def by (rule await_req [where ch = 1 and g = 0]) (simp_all add: d a)
  note chain = reaches.more [OF chain this]
  have "step peek b3 b4" unfolding b4_def by (rule close_done) (simp add: d)
  note chain = reaches.more [OF chain this]
  have b4: "th b4 = (\<lambda>_. TIdle)(0 := TDereg Req 2 False MErr JCall)" "mcp_admit b4 = None" "mcp_stopMu b4 = None" "mcp_dead b4"
    "mcp_readerDone b4 = Some 0" "closed b4 = {0}" "rd b4 = Map.empty" "buf b4 = Map.empty" "nextChan b4 = 2" "nextGen b4 = 1"
    by (simp_all add: d a fun_eq_iff)
  from call_trace [of b4 1 l peek] assms b4 obtain c where c: "reaches peek b4 c"
    "th c = (\<lambda>_. TIdle)(0 := TDereg Req 2 False MErr JCall, 1 := TAwait Req 2 3 1 JCall)" "mcp_open c" "\<not> mcp_dead c"
    "mcp_readerDone c = Some 1" "mcp_pending c = [2 \<mapsto> 3]" "rd c = [1 \<mapsto> RScan]" "buf c = Map.empty" "nextChan c = 4"
    by (auto simp: running_def)
  define e where "e = goto 0 (TDone MErr) (deregister 2 c)"
  have "step peek c e" using req_done [of c 0 2 False MErr JCall peek] by (simp add: e_def c)
  with reaches_trans [OF c(1) chain] have "reaches peek mcp_init e" by (rule reaches.more)
  moreover have "lost 3 e" by (simp add: e_def lost_def mcp_defs c)
  then have "\<forall>s'. reaches peek e s' \<longrightarrow> buf s' 3 = None" using lost_forever by (auto simp: lost_def)
  ultimately show ?thesis by (intro exI [of _ e] exI [of _ 3] exI [of _ 1]) (simp add: e_def mcp_defs running_def c)
qed

theorem late_deregister_loses_response_witness:
  "\<exists>s ch g. reaches (\<lambda>_. Some (Some 1, [])) mcp_init s \<and> th s 1 = TAwait Req 2 ch g JCall \<and> running s \<and> mcp_readerDone s = Some g \<and>
    rd s g = Some RScan \<and> (\<forall>s'. reaches (\<lambda>_. Some (Some 1, [])) s s' \<longrightarrow> buf s' ch = None)"
  by (rule late_deregister_loses_response [of "''x''"]) simp_all

end
