(* ===== verification/Redaction.thy ===== *)
theory Redaction
  imports GoPrelude
begin

text \<open>
  The redaction of secrets in log records, \<^verbatim>\<open>internal/audit/redact.go\<close>. Each of the three regular
  expressions is a fixed prefix followed by a run of characters of a class, of bounded or unbounded
  length. Log values are resolved; a value of another kind is represented by its text.
\<close>

section \<open>Patterns\<close>

record redact_pattern =
  rp_prefix :: string
  rp_class :: "char \<Rightarrow> bool"
  rp_min :: nat
  rp_max :: "nat option"

definition alnum :: "char \<Rightarrow> bool" where
  "alnum c \<longleftrightarrow> is_digit c \<or> (let n = (of_char c :: nat) in 65 \<le> n \<and> n \<le> 90 \<or> 97 \<le> n \<and> n \<le> 122)"

definition redactPatterns :: "redact_pattern list" where
  "redactPatterns =
     [\<lparr>rp_prefix = ''AIzaSy'', rp_class = (\<lambda>c. alnum c \<or> c \<in> {CHR ''_'', CHR ''-''}), rp_min = 33, rp_max = Some 33\<rparr>,
      \<lparr>rp_prefix = ''ya29.'', rp_class = (\<lambda>c. alnum c \<or> c \<in> {CHR ''_'', CHR ''-'', CHR ''.''}), rp_min = 10, rp_max = None\<rparr>,
      \<lparr>rp_prefix = ''xoxb-'', rp_class = (\<lambda>c. alnum c \<or> c = CHR ''-''), rp_min = 1, rp_max = None\<rparr>]"

definition triggerPrefixes :: "string list" where
  "triggerPrefixes = [''AIzaSy'', ''ya29.'', ''xoxb-'']"

definition needsRedaction :: "string \<Rightarrow> bool" where
  "needsRedaction s \<longleftrightarrow> list_ex (Contains s) triggerPrefixes"

text \<open>The length of the match at the start of \<open>s\<close>, if there is one: as many characters of the class as allowed.\<close>

definition match_at :: "redact_pattern \<Rightarrow> string \<Rightarrow> nat option" where
  "match_at p s =
     (if HasPrefix s (rp_prefix p) then
        (let n = length (takeWhile (rp_class p) (drop (length (rp_prefix p)) s)) in
         if rp_min p \<le> n then Some (length (rp_prefix p) + (case rp_max p of None \<Rightarrow> n | Some k \<Rightarrow> min k n)) else None)
      else None)"

definition redacted :: string where
  "redacted = ''[REDACTED]''"

text \<open>The leftmost matches that do not overlap are replaced; no pattern matches the empty text.\<close>

function ReplaceAllString :: "redact_pattern \<Rightarrow> string \<Rightarrow> string" where
  "ReplaceAllString p [] = []"
| "ReplaceAllString p (c # cs) =
     (case match_at p (c # cs) of
        None \<Rightarrow> c # ReplaceAllString p cs
      | Some n \<Rightarrow> redacted @ ReplaceAllString p (drop (n - 1) cs))"
  by pat_completeness auto
termination
  by (relation "measure (\<lambda>(p, s). length s)") auto

definition redactString :: "string \<Rightarrow> string" where
  "redactString s = (if \<not> needsRedaction s then s else fold ReplaceAllString redactPatterns s)"

section \<open>Log records\<close>

text \<open>A value that is neither a string nor a group is its text, what \<^verbatim>\<open>String\<close> returns for it, and the value itself,
  which is what the inner handler gets.\<close>

datatype 'v attr_value = StringValue string | GroupValue "'v attr list" | OtherValue string 'v
  and 'v attr = Attr string "'v attr_value"

record 'v slog_record =
  sr_Level :: int
  sr_Message :: string
  sr_Attrs :: "'v attr list"

fun isEmptyGroup :: "'v attr \<Rightarrow> bool" where
  "isEmptyGroup (Attr k (GroupValue [])) = True"
| "isEmptyGroup a = False"

fun redactAttr :: "'v attr \<Rightarrow> 'v attr" and redactValue :: "'v attr_value \<Rightarrow> 'v attr_value" where
  "redactAttr (Attr k v) = Attr k (redactValue v)"
| "redactValue (StringValue s) = StringValue (redactString s)"
| "redactValue (GroupValue attrs) = GroupValue (filter (\<lambda>a. \<not> isEmptyGroup a) (map redactAttr attrs))"
| "redactValue (OtherValue s x) = (let rs = redactString s in if rs \<noteq> s then StringValue rs else OtherValue s x)"

record ('v, 'w) slog_handler =
  sh_Handle :: "'v slog_record \<Rightarrow> 'w \<Rightarrow> go_error option \<times> 'w"
  sh_WithAttrs :: "'v attr list \<Rightarrow> 'w \<Rightarrow> 'w"

definition NewRedactingHandler :: "string option \<Rightarrow> bool" where
  "NewRedactingHandler pii_debug_mode \<longleftrightarrow> pii_debug_mode = None"

definition redact_record :: "'v slog_record \<Rightarrow> 'v slog_record" where
  "redact_record r = r\<lparr>sr_Message := redactString (sr_Message r), sr_Attrs := filter (\<lambda>a. \<not> isEmptyGroup a) (map redactAttr (sr_Attrs r))\<rparr>"

definition redacting_Handle :: "bool \<Rightarrow> ('v, 'w) slog_handler \<Rightarrow> 'v slog_record \<Rightarrow> 'w \<Rightarrow> go_error option \<times> 'w" where
  "redacting_Handle enabled inner r w =
     (if \<not> enabled then
        (case sh_Handle inner r w of (Some e, w1) \<Rightarrow> (Some (wrap_err ''handle inner'' e), w1) | (None, w1) \<Rightarrow> (None, w1))
      else
        (case sh_Handle inner (redact_record r) w of
           (Some e, w1) \<Rightarrow> (Some (wrap_err ''handle inner redacted'' e), w1) | (None, w1) \<Rightarrow> (None, w1)))"

definition redacting_WithAttrs :: "bool \<Rightarrow> ('v, 'w) slog_handler \<Rightarrow> 'v attr list \<Rightarrow> 'w \<Rightarrow> 'w" where
  "redacting_WithAttrs enabled inner attrs =
     (if \<not> enabled then sh_WithAttrs inner attrs else sh_WithAttrs inner (map redactAttr attrs))"

section \<open>Secrets\<close>

text \<open>A secret is a text that a pattern matches whole with the shortest run it accepts.\<close>

definition secret :: "redact_pattern \<Rightarrow> string \<Rightarrow> bool" where
  "secret p w \<longleftrightarrow> (\<exists>body. w = rp_prefix p @ body \<and> length body = rp_min p \<and> list_all (rp_class p) body)"

definition secret_free :: "string \<Rightarrow> bool" where
  "secret_free s \<longleftrightarrow> (\<forall>p \<in> set redactPatterns. \<forall>w. secret p w \<longrightarrow> \<not> Contains s w)"

definition no_bracket :: "string \<Rightarrow> bool" where
  "no_bracket w \<longleftrightarrow> CHR ''['' \<notin> set w \<and> CHR '']'' \<notin> set w"

lemma take_min_class:
  assumes "n \<le> length (takeWhile P xs)"
  shows "list_all P (take n xs)" "length (take n xs) = n"
proof -
  have t: "take n xs = take n (takeWhile P xs)" using assms by (metis takeWhile_eq_take take_take min.absorb1)
  show "list_all P (take n xs)" using t by (metis list_all_iff in_set_takeD set_takeWhileD)
  show "length (take n xs) = n" using t assms by simp
qed

lemma match_at_secret:
  assumes "secret p w"
  shows "match_at p (w @ b) \<noteq> None"
proof -
  obtain body where w: "w = rp_prefix p @ body" "length body = rp_min p" "list_all (rp_class p) body" using assms by (auto simp: secret_def)
  have "takeWhile (rp_class p) (body @ b) = body @ takeWhile (rp_class p) b" using w(3) by (simp add: list_all_iff)
  then show ?thesis using w by (simp add: match_at_def Let_def)
qed

text \<open>A prefix without brackets of the replaced text is a prefix of the text.\<close>

lemma replace_prefix:
  "ReplaceAllString p s = w @ b \<Longrightarrow> no_bracket w \<Longrightarrow> \<exists>c. s = w @ c"
proof (induction p s arbitrary: w b rule: ReplaceAllString.induct)
  case (1 p)
  then show ?case by simp
next
  case (2 p c cs)
  show ?case
  proof (cases "match_at p (c # cs)")
    case None
    then show ?thesis using "2.IH"(1) [OF None, of "tl w" b] "2.prems" by (cases w) (auto simp: no_bracket_def)
  next
    case (Some n)
    then show ?thesis using "2.prems" by (cases w) (auto simp: no_bracket_def redacted_def)
  qed
qed

lemma bracketed_factor:
  assumes "no_bracket w"
  shows "Contains (redacted @ t) w \<longleftrightarrow> Contains ''REDACTED'' w \<or> Contains t w"
proof -
  have "Contains (redacted @ t) w \<longleftrightarrow> Contains [] w \<or> Contains (''REDACTED'' @ CHR '']'' # t) w"
    using Contains_split [of "CHR ''[''" w "[]" "''REDACTED'' @ CHR '']'' # t"] assms by (simp add: no_bracket_def redacted_def del: Contains.simps)
  also have "Contains (''REDACTED'' @ CHR '']'' # t) w \<longleftrightarrow> Contains ''REDACTED'' w \<or> Contains t w"
    by (rule Contains_split) (use assms in \<open>simp add: no_bracket_def\<close>)
  finally show ?thesis by (cases w) auto
qed

text \<open>Replacing brings in no text without brackets, except inside the replacement.\<close>

lemma replace_factor:
  "Contains (ReplaceAllString p s) w \<Longrightarrow> no_bracket w \<Longrightarrow> Contains s w \<or> Contains ''REDACTED'' w"
proof (induction p s rule: ReplaceAllString.induct)
  case (1 p)
  then show ?case by simp
next
  case (2 p c cs)
  show ?case
  proof (cases "match_at p (c # cs)")
    case None
    then have "Contains (c # ReplaceAllString p cs) w" using "2.prems" by simp
    then obtain a b where e: "c # ReplaceAllString p cs = a @ w @ b" by (auto simp: Contains_iff)
    show ?thesis
    proof (cases a)
      case Nil
      then have "ReplaceAllString p (c # cs) = w @ b" using None e by simp
      then obtain d where "c # cs = [] @ w @ d" using replace_prefix [OF _ "2.prems"(2)] by fastforce
      then show ?thesis unfolding Contains_iff by blast
    next
      case (Cons x xs)
      then have "Contains (ReplaceAllString p cs) w" using e by (auto simp: Contains_iff)
      then have "Contains cs w \<or> Contains ''REDACTED'' w" using "2.IH"(1) [OF None] "2.prems"(2) by simp
      then show ?thesis by (metis Contains_iff append_Cons)
    qed
  next
    case (Some n)
    have "Contains ''REDACTED'' w \<or> Contains (ReplaceAllString p (drop (n - 1) cs)) w"
      using "2.prems" Some bracketed_factor by simp
    then have "Contains ''REDACTED'' w \<or> Contains (drop (n - 1) cs) w" using "2.IH"(2) [OF Some] "2.prems"(2) by blast
    then show ?thesis by (metis Contains_iff append_Cons append_take_drop_id append_assoc)
  qed
qed

text \<open>The pattern itself matches nowhere in what it leaves.\<close>

lemma replace_own:
  "secret p w \<Longrightarrow> no_bracket w \<Longrightarrow> \<not> Contains ''REDACTED'' w \<Longrightarrow> w \<noteq> [] \<Longrightarrow> \<not> Contains (ReplaceAllString p s) w"
proof (induction p s rule: ReplaceAllString.induct)
  case (1 p)
  then show ?case by (auto simp: Contains_iff)
next
  case (2 p c cs)
  show ?case
  proof (cases "match_at p (c # cs)")
    case None
    show ?thesis
    proof
      assume "Contains (ReplaceAllString p (c # cs)) w"
      then obtain a b where e: "c # ReplaceAllString p cs = a @ w @ b" using None by (auto simp: Contains_iff)
      show False
      proof (cases a)
        case Nil
        then have "ReplaceAllString p (c # cs) = w @ b" using None e by simp
        then obtain d where "c # cs = w @ d" using replace_prefix [OF _ "2.prems"(2)] by blast
        then show False using match_at_secret [OF "2.prems"(1), of d] None by simp
      next
        case (Cons x xs)
        then have "Contains (ReplaceAllString p cs) w" using e by (auto simp: Contains_iff)
        then show False using "2.IH"(1) [OF None] "2.prems" by blast
      qed
    qed
  next
    case (Some n)
    then show ?thesis using "2.IH"(2) [OF Some] "2.prems" bracketed_factor [OF "2.prems"(2)] by simp
  qed
qed

lemma bracket_not_class:
  assumes "p \<in> set redactPatterns"
  shows "\<not> rp_class p (CHR ''['')" "\<not> rp_class p (CHR '']'')" "no_bracket (rp_prefix p)" "\<not> Contains ''REDACTED'' (rp_prefix p)"
    "rp_prefix p \<noteq> []" "rp_prefix p \<in> set triggerPrefixes"
  using assms by (auto simp: redactPatterns_def alnum_def is_digit_def no_bracket_def triggerPrefixes_def HasPrefix_def)

lemma secret_shape:
  assumes "p \<in> set redactPatterns" "secret p w"
  shows "no_bracket w" "\<not> Contains ''REDACTED'' w" "w \<noteq> []" "Contains w (rp_prefix p)"
proof -
  obtain body where w: "w = rp_prefix p @ body" "list_all (rp_class p) body" using assms(2) by (auto simp: secret_def)
  then show c: "Contains w (rp_prefix p)" by (metis Contains_append_mid append_Nil)
  show "no_bracket w" using w bracket_not_class [OF assms(1)] by (auto simp: no_bracket_def list_all_iff)
  show "w \<noteq> []" using w bracket_not_class [OF assms(1)] by simp
  show "\<not> Contains ''REDACTED'' w"
    using c bracket_not_class(4) [OF assms(1)] by (metis Contains_iff append_assoc)
qed

lemma fold_replace_secret_free:
  assumes "set ps \<subseteq> set redactPatterns" "p \<in> set redactPatterns" "secret p w" "p \<in> set ps \<or> \<not> Contains s w"
  shows "\<not> Contains (fold ReplaceAllString ps s) w"
  using assms(1,4)
proof (induction ps arbitrary: s)
  case (Cons q ps)
  note shape = secret_shape [OF assms(2,3)]
  show ?case
  proof (cases "p \<in> set ps")
    case True
    then show ?thesis using Cons by simp
  next
    case False
    have "\<not> Contains (ReplaceAllString q s) w"
      using False Cons.prems replace_own [OF assms(3) shape(1-3), of s] replace_factor [of q s w] shape(1,2) by auto
    then show ?thesis using Cons by simp
  qed
qed simp

lemma redactString_secret_free: "secret_free (redactString s)"
proof (cases "needsRedaction s")
  case True
  then show ?thesis
    using fold_replace_secret_free [of redactPatterns] by (simp add: secret_free_def redactString_def)
next
  case False
  have "\<not> Contains s w" if p: "p \<in> set redactPatterns" "secret p w" for p w
  proof
    assume "Contains s w"
    then have "Contains s (rp_prefix p)" using secret_shape(4) [OF p] by (metis Contains_iff append_assoc)
    then show False using False bracket_not_class(6) [OF p(1)] by (auto simp: needsRedaction_def list_ex_iff)
  qed
  then show ?thesis using False by (simp add: secret_free_def redactString_def)
qed

text \<open>A text without a secret is left as it is.\<close>

lemma match_at_None:
  assumes "secret_free s" "p \<in> set redactPatterns" "s = a @ b"
  shows "match_at p b = None"
proof (rule ccontr)
  assume "match_at p b \<noteq> None"
  then have m: "HasPrefix b (rp_prefix p)" "rp_min p \<le> length (takeWhile (rp_class p) (drop (length (rp_prefix p)) b))"
    by (auto simp: match_at_def Let_def split: if_splits)
  let ?w = "rp_prefix p @ take (rp_min p) (drop (length (rp_prefix p)) b)"
  have "secret p ?w" using take_min_class [OF m(2)] by (auto simp: secret_def)
  moreover have "Contains s ?w"
  proof -
    obtain t where t: "b = rp_prefix p @ t" using m(1) by (auto simp: HasPrefix_iff)
    have "s = a @ ?w @ drop (rp_min p) t" using assms(3) t by simp
    then show ?thesis unfolding Contains_iff by blast
  qed
  ultimately show False using assms(1,2) by (auto simp: secret_free_def)
qed

lemma replace_nothing:
  "(\<And>a b. s = a @ b \<Longrightarrow> match_at p b = None) \<Longrightarrow> ReplaceAllString p s = s"
proof (induction s)
  case (Cons c cs)
  have "match_at p b = None" if "cs = a @ b" for a b using Cons.prems [of "c # a" b] that by simp
  then show ?case using Cons.IH Cons.prems [of "[]" "c # cs"] by simp
qed simp

lemma redactString_id: "secret_free s \<Longrightarrow> redactString s = s"
proof -
  assume s: "secret_free s"
  have "fold ReplaceAllString ps s = s" if "set ps \<subseteq> set redactPatterns" for ps
    using that by (induction ps) (simp_all add: replace_nothing match_at_None [OF s])
  then show ?thesis by (simp add: redactString_def)
qed

section \<open>What reaches the log\<close>

fun value_texts :: "'v attr_value \<Rightarrow> string list" and attr_texts :: "'v attr \<Rightarrow> string list" where
  "value_texts (StringValue s) = [s]"
| "value_texts (GroupValue attrs) = concat (map attr_texts attrs)"
| "value_texts (OtherValue s x) = [s]"
| "attr_texts (Attr k v) = value_texts v"

definition record_texts :: "'v slog_record \<Rightarrow> string list" where
  "record_texts r = sr_Message r # concat (map attr_texts (sr_Attrs r))"

lemma empty_group_texts: "isEmptyGroup a \<Longrightarrow> attr_texts a = []"
  by (cases a rule: isEmptyGroup.cases) auto

lemma concat_texts_filter: "concat (map attr_texts (filter (\<lambda>a. \<not> isEmptyGroup a) as)) = concat (map attr_texts as)"
  by (induction as) (auto simp: empty_group_texts)

lemma redact_texts:
  fixes v :: "'v attr_value" and a :: "'v attr"
  shows "value_texts (redactValue v) = map redactString (value_texts v)"
    "attr_texts (redactAttr a) = map redactString (attr_texts a)"
proof (induction v and a)
  case (GroupValue attrs)
  then have "concat (map attr_texts (map redactAttr attrs)) = map redactString (concat (map attr_texts attrs))"
    by (induction attrs) auto
  then show ?case by (simp only: redactValue.simps value_texts.simps concat_texts_filter)
qed (auto simp: Let_def)

lemma redact_attrs_texts: "concat (map attr_texts (map redactAttr attrs)) = map redactString (concat (map attr_texts attrs))"
  by (induction attrs) (auto simp: redact_texts)

lemma redact_record_texts: "record_texts (redact_record r) = map redactString (record_texts r)"
  unfolding record_texts_def redact_record_def by (simp add: concat_texts_filter redact_attrs_texts del: map_map)

text \<open>
  \<^bold>\<open>C27.\<close> With redaction enabled, which is without \<^verbatim>\<open>PII_DEBUG_MODE\<close>, no message and no attribute value
  carries a secret into the log: the wrapped handler only ever gets records and attributes whose
  messages and values, those in groups included, are the redacted ones of the caller in the same order,
  and none of them contains a match of one of the three patterns; a text is changed only when it
  contains a match. A value that is not a string is taken as its \<^verbatim>\<open>String\<close> text: without a match there
  it is handed on as it is. The keys of attributes and the names of groups are not examined.
\<close>

theorem logs_hold_no_secret:
  "(\<exists>r'. redacting_Handle (NewRedactingHandler None) inner r w =
       (case sh_Handle inner r' w of
          (Some e, w1) \<Rightarrow> (Some (wrap_err ''handle inner redacted'' e), w1) | (None, w1) \<Rightarrow> (None, w1)) \<and>
     record_texts r' = map redactString (record_texts r) \<and> list_all secret_free (record_texts r')) \<and>
   (\<exists>attrs'. redacting_WithAttrs (NewRedactingHandler None) inner attrs = sh_WithAttrs inner attrs' \<and>
     concat (map attr_texts attrs') = map redactString (concat (map attr_texts attrs)) \<and>
     list_all secret_free (concat (map attr_texts attrs'))) \<and>
   (redactString t = t \<longleftrightarrow> secret_free t)"
proof (intro conjI)
  show "\<exists>r'. redacting_Handle (NewRedactingHandler None) inner r w =
       (case sh_Handle inner r' w of
          (Some e, w1) \<Rightarrow> (Some (wrap_err ''handle inner redacted'' e), w1) | (None, w1) \<Rightarrow> (None, w1)) \<and>
     record_texts r' = map redactString (record_texts r) \<and> list_all secret_free (record_texts r')"
    by (rule exI [of _ "redact_record r"]) (simp add: NewRedactingHandler_def redacting_Handle_def redact_record_texts list_all_iff redactString_secret_free)
  show "\<exists>attrs'. redacting_WithAttrs (NewRedactingHandler None) inner attrs = sh_WithAttrs inner attrs' \<and>
     concat (map attr_texts attrs') = map redactString (concat (map attr_texts attrs)) \<and>
     list_all secret_free (concat (map attr_texts attrs'))"
    by (rule exI [of _ "map redactAttr attrs"])
      (simp add: NewRedactingHandler_def redacting_WithAttrs_def redact_attrs_texts list_all_iff redactString_secret_free del: map_map set_concat)
  show "redactString t = t \<longleftrightarrow> secret_free t" using redactString_secret_free [of t] redactString_id [of t] by metis
qed

end
