(* ===== verification/Audit_Ledger.thy ===== *)
theory Audit_Ledger
  imports GoTime
begin

text \<open>
  The audit ledger, \<^verbatim>\<open>internal/audit/ledger.go\<close>: a table of records in which each record holds the hash of
  the one before. SHA-256 with its hexadecimal form is the parameter \<open>sha\<close>. Every call into the database
  takes its outcome, an error or none, from a script. Numbers of records are unbounded.
\<close>

section \<open>Records\<close>

record AuditEntry =
  ae_SessionID :: string
  ae_Actor :: string
  ae_Action :: string
  ae_Result :: string

record AuditRecord =
  al_ID :: int
  al_Timestamp :: string
  al_SessionID :: string
  al_Actor :: string
  al_Action :: string
  al_Result :: string
  al_PrevHash :: string
  al_Hash :: string

record AuditLedger =
  lg_rows :: "AuditRecord list"
  lg_next :: int
  lg_script :: "go_error option list"

definition sql_call :: "AuditLedger \<Rightarrow> go_error option \<times> AuditLedger" where
  "sql_call l = (case lg_script l of [] \<Rightarrow> (None, l) | f # rest \<Rightarrow> (f, l\<lparr>lg_script := rest\<rparr>))"

text \<open>\<^verbatim>\<open>time.RFC3339Nano\<close>: a fraction without trailing zeros, and none when it is zero.\<close>

definition FormatRFC3339Nano :: "instant \<Rightarrow> string" where
  "FormatRFC3339Nano t =
     (let digits = rev (dropWhile (\<lambda>c. c = CHR ''0'') (rev (pad 9 (t mod second)))) in
      format_date t @ ''T'' @ format_clock t @ (if digits = [] then [] else ''.'' @ digits) @ ''Z'')"

definition audit_text :: "string \<Rightarrow> string \<Rightarrow> string \<Rightarrow> string \<Rightarrow> string \<Rightarrow> string \<Rightarrow> string" where
  "audit_text prevHash timestamp sessionID actor action result = Join [prevHash, timestamp, sessionID, actor, action, result] ''|''"

definition auditHash :: "(string \<Rightarrow> string) \<Rightarrow> string \<Rightarrow> string \<Rightarrow> string \<Rightarrow> string \<Rightarrow> string \<Rightarrow> string \<Rightarrow> string" where
  "auditHash sha prevHash timestamp sessionID actor action result = sha (audit_text prevHash timestamp sessionID actor action result)"

section \<open>Operations\<close>

text \<open>The hash of the last record; an empty table and a failed query both leave the empty string.\<close>

definition last_hash :: "AuditLedger \<Rightarrow> string \<times> AuditLedger" where
  "last_hash l =
     (case sql_call l of
        (Some _, l1) \<Rightarrow> ([], l1)
      | (None, l1) \<Rightarrow> (if lg_rows l1 = [] then [] else al_Hash (last (lg_rows l1)), l1))"

definition audit_record :: "(string \<Rightarrow> string) \<Rightarrow> instant \<Rightarrow> AuditEntry \<Rightarrow> string \<Rightarrow> int \<Rightarrow> AuditRecord" where
  "audit_record sha now entry prevHash n =
     (let ts = FormatRFC3339Nano now in
      \<lparr>al_ID = n, al_Timestamp = ts, al_SessionID = ae_SessionID entry, al_Actor = ae_Actor entry, al_Action = ae_Action entry,
       al_Result = ae_Result entry, al_PrevHash = prevHash,
       al_Hash = auditHash sha prevHash ts (ae_SessionID entry) (ae_Actor entry) (ae_Action entry) (ae_Result entry)\<rparr>)"

definition ledger_Append :: "(string \<Rightarrow> string) \<Rightarrow> instant \<Rightarrow> AuditEntry \<Rightarrow> AuditLedger \<Rightarrow> go_error option \<times> AuditLedger" where
  "ledger_Append sha now entry l =
     (case last_hash l of (prevHash, l1) \<Rightarrow>
        (case sql_call l1 of
           (Some e, l2) \<Rightarrow> (Some (wrap_err ''audit: append'' e), l2)
         | (None, l2) \<Rightarrow>
             (None, l2\<lparr>lg_rows := lg_rows l2 @ [audit_record sha now entry prevHash (lg_next l2)], lg_next := lg_next l2 + 1\<rparr>)))"

definition GetAll :: "AuditLedger \<Rightarrow> AuditRecord list result \<times> AuditLedger" where
  "GetAll l =
     (case sql_call l of
        (Some e, l1) \<Rightarrow> (Inl (wrap_err ''audit: get all'' e), l1)
      | (None, l1) \<Rightarrow>
          (case sql_call l1 of
             (Some e, l2) \<Rightarrow> (Inl (wrap_err ''audit rows'' e), l2)
           | (None, l2) \<Rightarrow> (Inr (lg_rows l2), l2)))"

definition record_hash :: "(string \<Rightarrow> string) \<Rightarrow> AuditRecord \<Rightarrow> string" where
  "record_hash sha r = auditHash sha (al_PrevHash r) (al_Timestamp r) (al_SessionID r) (al_Actor r) (al_Action r) (al_Result r)"

text \<open>The walk over the records; \<open>before\<close> is the hash of the record before, if there is one.\<close>

fun verify_records :: "(string \<Rightarrow> string) \<Rightarrow> int \<Rightarrow> string option \<Rightarrow> AuditRecord list \<Rightarrow> go_error option" where
  "verify_records sha i before [] = None"
| "verify_records sha i before (r # rs) =
     (if al_Hash r \<noteq> record_hash sha r then
        Some (ErrorNew (''audit: hash mismatch at record index '' @ Itoa i @ '' (id='' @ Itoa (al_ID r) @ '')''))
      else if before \<noteq> None \<and> Some (al_PrevHash r) \<noteq> before then
        Some (ErrorNew (''audit: broken chain at record index '' @ Itoa i @ '' (id='' @ Itoa (al_ID r) @ '')''))
      else verify_records sha (i + 1) (Some (al_Hash r)) rs)"

definition Verify :: "(string \<Rightarrow> string) \<Rightarrow> AuditLedger \<Rightarrow> go_error option \<times> AuditLedger" where
  "Verify sha l =
     (case GetAll l of
        (Inl e, l1) \<Rightarrow> (Some (wrap_err ''audit verify: get all'' e), l1)
      | (Inr records, l1) \<Rightarrow> (verify_records sha 0 None records, l1))"

section \<open>Append-only logs\<close>

text \<open>
  The interface of a log: an operation adds one record for its entry at the end and reports success, or
  reports an error and adds nothing.
\<close>

fun run_adds :: "('e \<Rightarrow> 'w \<Rightarrow> go_error option \<times> 'w) \<Rightarrow> 'e list \<Rightarrow> 'w \<Rightarrow> go_error option list \<times> 'w" where
  "run_adds add [] w = ([], w)"
| "run_adds add (e # es) w = (case add e w of (res, w1) \<Rightarrow> (case run_adds add es w1 of (rs, w2) \<Rightarrow> (res # rs, w2)))"

locale append_only =
  fixes add :: "'e \<Rightarrow> 'w \<Rightarrow> go_error option \<times> 'w"
    and view :: "'w \<Rightarrow> 'r list"
    and holds :: "'e \<Rightarrow> 'r \<Rightarrow> bool"
  assumes added: "add e w = (None, w') \<Longrightarrow> \<exists>r. holds e r \<and> view w' = view w @ [r]"
    and refused: "add e w = (Some er, w') \<Longrightarrow> view w' = view w"
begin

lemma run_adds_view:
  "run_adds add es w = (rs, w') \<Longrightarrow>
     \<exists>new. view w' = view w @ new \<and> list_all2 holds (map fst (filter (\<lambda>(e, res). res = None) (zip es rs))) new"
proof (induction es arbitrary: w rs w')
  case Nil
  then show ?case by simp
next
  case (Cons e es)
  obtain res wa where a: "add e w = (res, wa)" by fastforce
  obtain rsa wb where b: "run_adds add es wa = (rsa, wb)" by fastforce
  have r: "rs = res # rsa" "w' = wb" using Cons.prems a b by auto
  obtain new where new: "view wb = view wa @ new" "list_all2 holds (map fst (filter (\<lambda>(e, res). res = None) (zip es rsa))) new"
    using Cons.IH [OF b] by blast
  show ?case
  proof (cases res)
    case None
    then obtain x where "holds e x" "view wa = view w @ [x]" using added [of e w wa] a by blast
    then show ?thesis using new r None by (intro exI [of _ "x # new"]) simp
  next
    case (Some er)
    then have "view wa = view w" using refused [of e w er wa] a by simp
    then show ?thesis using new r Some by (intro exI [of _ new]) simp
  qed
qed

end

definition records_entry :: "(string \<Rightarrow> string) \<Rightarrow> instant \<times> AuditEntry \<Rightarrow> AuditRecord \<Rightarrow> bool" where
  "records_entry sha e r \<longleftrightarrow> r = audit_record sha (fst e) (snd e) (al_PrevHash r) (al_ID r)"

lemma sql_call_rows: "sql_call l = (f, l') \<Longrightarrow> lg_rows l' = lg_rows l"
  by (auto simp: sql_call_def split: list.splits)

lemma last_hash_rows: "last_hash l = (h, l') \<Longrightarrow> lg_rows l' = lg_rows l"
  by (auto simp: last_hash_def split: prod.splits option.splits dest: sql_call_rows)

lemma Append_rows:
  assumes "ledger_Append sha now e l = (res, l')"
  shows "lg_rows l' = (if res = None then lg_rows l @ [audit_record sha now e (fst (last_hash l)) (lg_next (snd (sql_call (snd (last_hash l)))))]
    else lg_rows l)"
proof -
  obtain h la where h: "last_hash l = (h, la)" by fastforce
  obtain f lb where c: "sql_call la = (f, lb)" by fastforce
  show ?thesis
    using assms h c last_hash_rows [OF h] sql_call_rows [OF c] by (cases f) (auto simp: ledger_Append_def)
qed

interpretation al: append_only "\<lambda>e. ledger_Append sha (fst e) (snd e)" lg_rows "records_entry sha" for sha
proof
  fix e w w'
  assume "ledger_Append sha (fst e) (snd e) w = (None, w')"
  then show "\<exists>r. records_entry sha e r \<and> lg_rows w' = lg_rows w @ [r]"
    using Append_rows by (fastforce simp: records_entry_def audit_record_def Let_def)
next
  fix e w er w'
  assume "ledger_Append sha (fst e) (snd e) w = (Some er, w')"
  then show "lg_rows w' = lg_rows w" using Append_rows by fastforce
qed

section \<open>The chain\<close>

definition linked :: "(string \<Rightarrow> string) \<Rightarrow> AuditRecord list \<Rightarrow> bool" where
  "linked sha rs \<longleftrightarrow> verify_records sha 0 None rs = None"

lemma verify_index: "verify_records sha i before rs = None \<longleftrightarrow> verify_records sha j before rs = None"
  by (induction rs arbitrary: i j before) auto

lemma verify_append:
  "verify_records sha i before (rs @ [r]) = None \<longleftrightarrow>
     verify_records sha i before rs = None \<and> al_Hash r = record_hash sha r \<and>
     (let b = (if rs = [] then before else Some (al_Hash (last rs))) in b = None \<or> b = Some (al_PrevHash r))"
  by (induction rs arbitrary: i before) (auto simp: Let_def)

lemma linked_append:
  "linked sha (rs @ [r]) \<longleftrightarrow> linked sha rs \<and> al_Hash r = record_hash sha r \<and> (rs = [] \<or> al_PrevHash r = al_Hash (last rs))"
  unfolding linked_def by (subst verify_append) (auto simp: Let_def)

lemma verify_forget: "verify_records sha i before rs = None \<Longrightarrow> verify_records sha j None rs = None"
  using verify_index [of sha "i + 1" _ _ "j + 1"] by (cases rs) (auto split: if_splits)

lemma verify_drop: "verify_records sha i before rs = None \<Longrightarrow> verify_records sha j None (drop n rs) = None"
proof (induction n arbitrary: i before rs)
  case 0
  then show ?case using verify_forget by simp
next
  case (Suc n)
  then show ?case by (cases rs) (auto split: if_splits)
qed

lemma record_hash_audit_record: "al_Hash (audit_record sha now e h n) = record_hash sha (audit_record sha now e h n)"
  by (simp add: audit_record_def record_hash_def Let_def)

lemma Append_linked:
  assumes run: "ledger_Append sha now e l = (res, l')" and l: "linked sha (lg_rows l)" and read: "fst (sql_call l) = None"
  shows "linked sha (lg_rows l')"
proof -
  have "fst (last_hash l) = (if lg_rows l = [] then [] else al_Hash (last (lg_rows l)))"
    using read sql_call_rows by (cases "sql_call l") (auto simp: last_hash_def)
  then show ?thesis using Append_rows [OF run] l by (simp add: linked_append record_hash_audit_record) (simp add: audit_record_def Let_def)
qed

text \<open>No query for the last hash fails: every other call of the script.\<close>

fun reads_ok :: "go_error option list \<Rightarrow> bool" where
  "reads_ok [] = True"
| "reads_ok [f] = (f = None)"
| "reads_ok (f # g # rest) = (f = None \<and> reads_ok rest)"

lemma Append_script:
  assumes "ledger_Append sha now e l = (res, l')" "reads_ok (lg_script l)"
  shows "fst (sql_call l) = None" "reads_ok (lg_script l')"
  using assms
  by (cases "lg_script l" rule: reads_ok.cases; auto simp: ledger_Append_def last_hash_def sql_call_def split: option.splits if_splits)+

lemma run_adds_linked:
  "run_adds (\<lambda>e. ledger_Append sha (fst e) (snd e)) es l = (rs, l') \<Longrightarrow> linked sha (lg_rows l) \<Longrightarrow> reads_ok (lg_script l) \<Longrightarrow>
     linked sha (lg_rows l')"
proof (induction es arbitrary: l rs)
  case Nil
  then show ?case by simp
next
  case (Cons e es)
  obtain res la where a: "ledger_Append sha (fst e) (snd e) l = (res, la)" by fastforce
  obtain rsa lb where b: "run_adds (\<lambda>e. ledger_Append sha (fst e) (snd e)) es la = (rsa, lb)" by fastforce
  have "linked sha (lg_rows la)" "reads_ok (lg_script la)"
    using Append_linked [OF a Cons.prems(2) Append_script(1) [OF a Cons.prems(3)]] Append_script(2) [OF a Cons.prems(3)] by simp_all
  then show ?case using Cons.IH [of la rsa] Cons.prems(1) a b by simp
qed

lemma Verify_quiet: "fst (Verify sha (l\<lparr>lg_script := []\<rparr>)) = None \<longleftrightarrow> linked sha (lg_rows l)"
  by (simp add: Verify_def GetAll_def sql_call_def linked_def)

section \<open>What a hash covers\<close>

definition record_text :: "AuditRecord \<Rightarrow> string" where
  "record_text r = audit_text (al_PrevHash r) (al_Timestamp r) (al_SessionID r) (al_Actor r) (al_Action r) (al_Result r)"

text \<open>No text between the bars holds a bar; the result comes last and may.\<close>

definition bar_free :: "AuditRecord \<Rightarrow> bool" where
  "bar_free r \<longleftrightarrow> list_all (\<lambda>s. CHR ''|'' \<notin> set s) [al_PrevHash r, al_Timestamp r, al_SessionID r, al_Actor r, al_Action r]"

definition audited :: "AuditRecord \<Rightarrow> AuditRecord" where
  "audited r = r\<lparr>al_ID := 0\<rparr>"

lemma record_text_inj:
  assumes "record_text r = record_text r'" "bar_free r" "bar_free r'" "al_Hash r = al_Hash r'"
  shows "audited r = audited r'"
proof -
  let ?b = "CHR ''|''"
  have e: "al_PrevHash r @ ?b # al_Timestamp r @ ?b # al_SessionID r @ ?b # al_Actor r @ ?b # al_Action r @ ?b # al_Result r =
      al_PrevHash r' @ ?b # al_Timestamp r' @ ?b # al_SessionID r' @ ?b # al_Actor r' @ ?b # al_Action r' @ ?b # al_Result r'"
    using assms(1) by (simp add: record_text_def audit_text_def)
  have f: "?b \<notin> set (al_PrevHash r)" "?b \<notin> set (al_PrevHash r')" "?b \<notin> set (al_Timestamp r)" "?b \<notin> set (al_Timestamp r')"
    "?b \<notin> set (al_SessionID r)" "?b \<notin> set (al_SessionID r')" "?b \<notin> set (al_Actor r)" "?b \<notin> set (al_Actor r')"
    "?b \<notin> set (al_Action r)" "?b \<notin> set (al_Action r')"
    using assms(2,3) by (simp_all add: bar_free_def)
  note a = first_field [OF e f(1,2)] note b = first_field [OF conjunct2 [OF a] f(3,4)]
  note c = first_field [OF conjunct2 [OF b] f(5,6)] note d = first_field [OF conjunct2 [OF c] f(7,8)]
  note g = first_field [OF conjunct2 [OF d] f(9,10)]
  show ?thesis using a b c d g assms(4) by (simp add: audited_def)
qed

section \<open>The theorems\<close>

text \<open>
  The ledger is append-only and stays verifiable: after any sequence of appends, of which any insert
  may fail, the table holds the records it held before, followed by one record for each append that
  reported success, in their order; and a ledger that verified before verifies afterwards, provided no
  query for the last hash failed.
\<close>

theorem ledger_appends_verify:
  assumes run: "run_adds (\<lambda>e. ledger_Append sha (fst e) (snd e)) es l = (rs, l')"
  shows "(\<exists>new. lg_rows l' = lg_rows l @ new \<and>
      list_all2 (records_entry sha) (map fst (filter (\<lambda>(e, res). res = None) (zip es rs))) new) \<and>
    (fst (Verify sha (l\<lparr>lg_script := []\<rparr>)) = None \<longrightarrow> reads_ok (lg_script l) \<longrightarrow> fst (Verify sha (l'\<lparr>lg_script := []\<rparr>)) = None)"
  using al.run_adds_view [OF run] run_adds_linked [OF run] unfolding Verify_quiet by blast

text \<open>An example: three appends, the second of which fails, with the length of a text as its digest.\<close>

definition demo_sha :: "string \<Rightarrow> string" where
  "demo_sha s = Itoa (int (length s))"

definition demo_entries :: "(instant \<times> AuditEntry) list" where
  "demo_entries = map (\<lambda>n. (int n * second, \<lparr>ae_SessionID = ''s'', ae_Actor = ''agent'', ae_Action = ''write'', ae_Result = replicate n (CHR ''x'')\<rparr>)) [1, 2, 3]"

definition demo_ledger :: "go_error option list \<Rightarrow> AuditLedger" where
  "demo_ledger script = \<lparr>lg_rows = [], lg_next = 1, lg_script = script\<rparr>"

definition demo_rows :: "AuditRecord list" where
  "demo_rows = lg_rows (snd (run_adds (\<lambda>e. ledger_Append demo_sha (fst e) (snd e)) demo_entries
     (demo_ledger [None, None, None, Some (ErrorNew ''busy'')])))"

theorem ledger_appends_verify_witness:
  "length demo_rows = 2 \<and>
   fst (Verify demo_sha ((snd (run_adds (\<lambda>e. ledger_Append demo_sha (fst e) (snd e)) demo_entries
     (demo_ledger [None, None, None, Some (ErrorNew ''busy'')])))\<lparr>lg_script := []\<rparr>)) = None"
proof -
  let ?l = "demo_ledger [None, None, None, Some (ErrorNew ''busy'')]"
  let ?r = "run_adds (\<lambda>e. ledger_Append demo_sha (fst e) (snd e)) demo_entries ?l"
  have run: "?r = (fst ?r, snd ?r)" by simp
  have 1: "fst (Verify demo_sha (?l\<lparr>lg_script := []\<rparr>)) = None" unfolding Verify_quiet by (simp add: linked_def demo_ledger_def)
  have 2: "reads_ok (lg_script ?l)" by (simp add: demo_ledger_def)
  have 3: "length demo_rows = 2" by code_simp
  show ?thesis using ledger_appends_verify [OF run] 1 2 3 by blast
qed

text \<open>
  \<^bold>\<open>C28.\<close> Tampering is evident when no field but the result holds a bar, the separator of the hashed text, and no two
  different record texts among them have the same digest: two ledgers that both verify, have the same number of records and
  end in the same hash agree in every record, up to the row number. Without the condition on bars this fails
  (\<open>moved_bar_verifies\<close>).
\<close>

theorem ledger_tamper_evident:
  assumes "verify_records sha 0 None rs = None" "verify_records sha 0 None rs' = None"
    and "length rs = length rs'" "rs \<noteq> []" "al_Hash (last rs) = al_Hash (last rs')"
    and "inj_on sha (record_text ` (set rs \<union> set rs'))"
    and "list_all bar_free (rs @ rs')"
  shows "map audited rs = map audited rs'"
  using assms(3-) assms(1,2) [folded linked_def]
proof (induction rs arbitrary: rs' rule: rev_induct)
  case (snoc r rs)
  obtain qs q where rs': "rs' = qs @ [q]" using snoc.prems(1) by (cases rs' rule: rev_cases) auto
  have l: "linked sha rs" "linked sha qs" "al_Hash r = record_hash sha r" "al_Hash q = record_hash sha q"
    "rs = [] \<or> al_PrevHash r = al_Hash (last rs)" "qs = [] \<or> al_PrevHash q = al_Hash (last qs)"
    using snoc.prems(6,7) rs' by (simp_all add: linked_append)
  have h: "al_Hash r = al_Hash q" using snoc.prems(3) rs' by simp
  have "record_text r = record_text q"
    using inj_onD [OF snoc.prems(4), of "record_text r" "record_text q"] l(3,4) h rs'
    by (simp add: record_hash_def record_text_def auditHash_def)
  moreover have "bar_free r" "bar_free q" using snoc.prems(5) rs' by simp_all
  ultimately have q: "audited r = audited q" by (rule record_text_inj) (rule h)
  have p: "al_PrevHash r = al_PrevHash q" using arg_cong [OF q, of al_PrevHash] by (simp add: audited_def)
  show ?case
  proof (cases "rs = []")
    case True
    then show ?thesis using q rs' snoc.prems(1) by simp
  next
    case False
    have "map audited rs = map audited qs"
    proof (rule snoc.IH)
      show "inj_on sha (record_text ` (set rs \<union> set qs))" using snoc.prems(4) rs' by (auto intro: inj_on_subset)
      show "al_Hash (last rs) = al_Hash (last qs)" using l(5,6) p False snoc.prems(1) rs' by auto
    qed (use False snoc.prems rs' l in auto)
    then show ?thesis using q rs' by simp
  qed
qed simp

theorem ledger_tamper_evident_witness:
  "map audited demo_rows = map audited (map (\<lambda>r. r\<lparr>al_ID := al_ID r + 5\<rparr>) demo_rows) \<and> length demo_rows = 2"
proof -
  let ?q = "map (\<lambda>r. r\<lparr>al_ID := al_ID r + 5\<rparr>) demo_rows"
  have 1: "verify_records demo_sha 0 None demo_rows = None" "verify_records demo_sha 0 None ?q = None" by code_simp+
  have 2: "length demo_rows = length ?q" "demo_rows \<noteq> []" "al_Hash (last demo_rows) = al_Hash (last ?q)" "length demo_rows = 2"
    by (simp, code_simp, code_simp, code_simp)
  have "record_text ` (set demo_rows \<union> set ?q) = set (map record_text demo_rows)" by (auto simp: record_text_def)
  moreover have "distinct (map demo_sha (map record_text demo_rows))" by code_simp
  ultimately have 3: "inj_on demo_sha (record_text ` (set demo_rows \<union> set ?q))" by (simp only: distinct_map)
  have 4: "list_all bar_free (demo_rows @ ?q)" by code_simp
  show ?thesis using ledger_tamper_evident [OF 1 2(1-3) 3 4] 2(4) by simp
qed

text \<open>
  An error of the query for the last hash is taken for an empty table: the append then reports success
  but starts a new chain, so that a ledger that verified before never verifies again.
\<close>

theorem failed_read_breaks_chain:
  assumes run: "ledger_Append sha now e l = (None, l')"
    and read: "fst (sql_call l) \<noteq> None" and old: "lg_rows l \<noteq> []" "al_Hash (last (lg_rows l)) \<noteq> []"
    and later: "run_adds (\<lambda>e. ledger_Append sha (fst e) (snd e)) es l' = (rs, l'')"
  shows "fst (Verify sha (l''\<lparr>lg_script := []\<rparr>)) \<noteq> None"
proof -
  have "fst (last_hash l) = []" using read by (cases "sql_call l") (auto simp: last_hash_def)
  then obtain r where r: "lg_rows l' = lg_rows l @ [r]" "al_PrevHash r = []"
    using Append_rows [OF run] by (simp add: audit_record_def Let_def)
  obtain new where "lg_rows l'' = (lg_rows l @ [r]) @ new" using al.run_adds_view [OF later] r(1) by auto
  moreover have "\<not> linked sha ((lg_rows l @ [r]) @ new)"
  proof (induction new rule: rev_induct)
    case Nil
    then show ?case using old r(2) by (simp add: linked_append)
  next
    case (snoc x xs)
    then show ?case by (metis append_assoc linked_append)
  qed
  ultimately show ?thesis using Verify_quiet by simp
qed

theorem failed_read_breaks_chain_witness:
  "\<exists>l'. ledger_Append demo_sha 0 (snd (hd demo_entries))
      \<lparr>lg_rows = demo_rows, lg_next = 3, lg_script = [Some (ErrorNew ''busy'')]\<rparr> = (None, l') \<and>
    fst (Verify demo_sha (l'\<lparr>lg_script := []\<rparr>)) \<noteq> None"
proof -
  let ?l = "\<lparr>lg_rows = demo_rows, lg_next = 3, lg_script = [Some (ErrorNew ''busy'')]\<rparr>"
  let ?r = "ledger_Append demo_sha 0 (snd (hd demo_entries)) ?l"
  have run: "?r = (None, snd ?r)" by (simp add: ledger_Append_def last_hash_def sql_call_def)
  have 1: "fst (sql_call ?l) \<noteq> None" by (simp add: sql_call_def)
  have 2: "lg_rows ?l \<noteq> []" "al_Hash (last (lg_rows ?l)) \<noteq> []" by (simp, code_simp, simp, code_simp)
  have 3: "run_adds (\<lambda>e. ledger_Append demo_sha (fst e) (snd e)) [] (snd ?r) = ([], snd ?r)" by simp
  show ?thesis using run failed_read_breaks_chain [OF run 1 2 3] by blast
qed

text \<open>Two changes that verification does not see: removing records from the front, and moving text over a bar.\<close>

lemma removed_prefix_verifies:
  "verify_records sha 0 None rs = None \<Longrightarrow> verify_records sha 0 None (drop n rs) = None"
  by (rule verify_drop)

lemma moved_bar_verifies:
  assumes "verify_records sha 0 None (pre @ [r] @ post) = None"
    and "al_Actor r = a @ CHR ''|'' # b" and "al_Action q = b @ CHR ''|'' # al_Action r" "q\<lparr>al_Actor := al_Actor r, al_Action := al_Action r\<rparr> = r" "al_Actor q = a"
  shows "verify_records sha 0 None (pre @ [q] @ post) = None"
proof -
  have f: "al_Hash q = al_Hash r" "al_PrevHash q = al_PrevHash r" "al_Timestamp q = al_Timestamp r" "al_SessionID q = al_SessionID r"
    "al_Result q = al_Result r" "al_ID q = al_ID r"
    using assms(4) by (metis AuditRecord.select_convs AuditRecord.surjective AuditRecord.update_convs)+
  then have "record_hash sha q = record_hash sha r"
    using assms(2,3,5) by (simp add: record_hash_def auditHash_def audit_text_def)
  then have "verify_records sha i before (pre @ [q] @ post) = verify_records sha i before (pre @ [r] @ post)" for i before
    using f by (induction pre arbitrary: i before) auto
  then show ?thesis using assms(1) by simp
qed

end
