(* ===== verification/Model_Audit.thy ===== *)
theory Model_Audit
  imports GoTime
begin

text \<open>
  The model audit, \<^verbatim>\<open>internal/audit/audit.go\<close>: the tier of a model by its name and the report that compares
  the available models with the configuration. The map of suggestions is visited in the
  order \<open>order\<close>; \<open>now\<close> is the local wall clock.
\<close>

record ModelInfo =
  mi_Name :: string
  mi_DisplayName :: string
  mi_Description :: string

text \<open>\<^verbatim>\<open>strings.ReplaceAll\<close> for a text that is not empty.\<close>

function ReplaceAll :: "string \<Rightarrow> string \<Rightarrow> string \<Rightarrow> string" where
  "ReplaceAll [] old new = []"
| "ReplaceAll (c # cs) old new =
     (if old \<noteq> [] \<and> HasPrefix (c # cs) old then new @ ReplaceAll (drop (length old - 1) cs) old new
      else c # ReplaceAll cs old new)"
  by pat_completeness auto
termination
  by (relation "measure (\<lambda>(s, old, new). length s)") auto

definition tierPatterns :: "(string \<times> string list) list" where
  "tierPatterns = [(''researcher'', [''flash-lite'']), (''architect'', [''pro'', ''ultra'']), (''default'', [''flash''])]"

definition specialKeywords :: "string list" where
  "specialKeywords =
     [''embed'', ''aqa'', ''text-bison'', ''chat-bison'', ''vision'', ''imagen'', ''veo'', ''lyria'', ''gemma'', ''robotics'',
      ''computer-use'', ''deep-research'', ''tts'', ''audio'']"

definition bare :: "string \<Rightarrow> string" where
  "bare name = ReplaceAll name ''models/'' []"

definition ClassifyModel :: "string \<Rightarrow> string" where
  "ClassifyModel modelName =
     (let name = ToLower (bare modelName) in
      if list_ex (Contains name) specialKeywords then ''special''
      else (case find (\<lambda>(tier, kws). list_ex (Contains name) kws) tierPatterns of Some (tier, _) \<Rightarrow> tier | None \<Rightarrow> ''other''))"

definition groupByTier :: "ModelInfo list \<Rightarrow> string \<Rightarrow> ModelInfo list" where
  "groupByTier models tier = filter (\<lambda>m. ClassifyModel (mi_Name m) = tier) models"

section \<open>The report\<close>

abbreviation (input) code :: "string \<Rightarrow> string" where
  "code s \<equiv> [CHR 0x60] @ s @ [CHR 0x60]"

definition addReportHeader :: "instant \<Rightarrow> int \<Rightarrow> string list" where
  "addReportHeader now modelCount =
     [''# Model Tier Audit Report'', ''**Date:** '' @ format_date now @ ''  '', ''**Available models:** '' @ Itoa modelCount, [], ''---'', []]"

definition addCurrentConfig :: "(string \<Rightarrow> string) \<Rightarrow> string list" where
  "addCurrentConfig current =
     [''## Current Configuration'', [], ''| Role | Model |'', ''|------|-------|'',
      ''| Default (Balanced) | '' @ code (current ''default'') @ '' |'',
      ''| Researcher (Budget) | '' @ code (current ''researcher'') @ '' |'',
      ''| Architect (Premium) | '' @ code (current ''architect'') @ '' |'', [], ''---'', []]"

definition display_name :: "ModelInfo \<Rightarrow> string" where
  "display_name m = (if mi_DisplayName m = [] then bare (mi_Name m) else mi_DisplayName m)"

definition modelRow :: "ModelInfo \<Rightarrow> string \<Rightarrow> string" where
  "modelRow m currentName =
     (let b = bare (mi_Name m);
          desc = ReplaceAll (if length (mi_Description m) > 90 then take 90 (mi_Description m) else mi_Description m) ''|'' [CHR 0x5C, CHR ''|''];
          flag = (if b = bare currentName then '' **[CURRENT]**'' else []) in
      ''| '' @ code b @ '' | '' @ display_name m @ flag @ '' | '' @ desc @ '' |'')"

definition addTierSection :: "string \<Rightarrow> ModelInfo list \<Rightarrow> string \<Rightarrow> string list" where
  "addTierSection heading tierModels currentName =
     [''## '' @ heading, []] @
     (if tierModels = [] then [''*No models classified for this tier.*'', []]
      else [''| Model | Display Name | Notes |'', ''|-------|-------------|-------|''] @ map (\<lambda>m. modelRow m currentName) tierModels @ [[]])"

definition suggestion :: "ModelInfo list \<Rightarrow> string \<Rightarrow> string option" where
  "suggestion tierModels currentName =
     (if tierModels \<noteq> [] \<and> bare currentName \<notin> set (map (\<lambda>m. bare (mi_Name m)) tierModels) then Some (bare (mi_Name (hd tierModels))) else None)"

definition addSpecialModels :: "(string \<Rightarrow> ModelInfo list) \<Rightarrow> string list" where
  "addSpecialModels byTier =
     (let ms = byTier ''special'' @ byTier ''other'' in
      [''## Special-Purpose & Embedding Models'', []] @
      (if ms \<noteq> [] then
         [''| Model | Display Name |'', ''|-------|-------------|''] @
         map (\<lambda>m. ''| '' @ code (bare (mi_Name m)) @ '' | '' @ display_name m @ '' |'') ms
       else [''*None found.*'']) @ [[]])"

definition addSuggestions :: "(string \<times> string) list \<Rightarrow> (string \<Rightarrow> string) \<Rightarrow> string list" where
  "addSuggestions suggestions current =
     [''---'', [], ''## Suggested Updates'', []] @
     (if suggestions \<noteq> [] then
        [''| Role | Current | Candidate |'', ''|------|---------|-----------|''] @
        map (\<lambda>(role, candidate). ''| '' @ code role @ '' | '' @ code (current role) @ '' | '' @ code candidate @ '' |'') suggestions @
        [[], ''> **No changes are applied automatically.**'', ''> Edit '' @ code ''~/.gobot/config.json'' @ '' to apply updates.'']
      else [''Current configuration already matches the best available candidates. No changes suggested.''])"

definition dash :: string where "dash = [CHR 0xE2, CHR 0x80, CHR 0x94]"

definition tierSections :: "(string \<times> string) list" where
  "tierSections =
     [(''researcher'', ''Researcher Tier '' @ dash @ '' Budget ('' @ code ''flash-lite'' @ '' candidates)''),
      (''default'', ''Default Tier '' @ dash @ '' Balanced ('' @ code ''flash'' @ '' candidates)''),
      (''architect'', ''Architect Tier '' @ dash @ '' Premium ('' @ code ''pro'' @ '' / '' @ code ''ultra'' @ '' candidates)'')]"

definition suggestions :: "ModelInfo list \<Rightarrow> (string \<Rightarrow> string) \<Rightarrow> (string \<times> string) list" where
  "suggestions models current =
     List.map_filter (\<lambda>(key, heading). map_option (Pair key) (suggestion (groupByTier models key) (current key))) tierSections"

definition BuildReport :: "instant \<Rightarrow> ((string \<times> string) list \<Rightarrow> (string \<times> string) list) \<Rightarrow> ModelInfo list \<Rightarrow> (string \<Rightarrow> string) \<Rightarrow> string" where
  "BuildReport now order models current =
     Join (addReportHeader now (int (length models)) @ addCurrentConfig current @
       concat (map (\<lambda>(key, heading). addTierSection heading (groupByTier models key) (current key)) tierSections) @
       addSpecialModels (groupByTier models) @ addSuggestions (order (suggestions models current)) current) [CHR 0x0A]"

section \<open>Laws\<close>

definition tiers :: "string list" where
  "tiers = [''researcher'', ''default'', ''architect'', ''special'', ''other'']"

text \<open>Every model is listed in exactly one tier.\<close>

lemma ClassifyModel_tier: "ClassifyModel n \<in> set tiers"
proof -
  have "tier \<in> set tiers" if "find P tierPatterns = Some (tier, kws)" for P tier kws
    using that by (auto simp: tierPatterns_def tiers_def split: if_splits)
  then show ?thesis by (auto simp: ClassifyModel_def Let_def tiers_def split: option.splits)
qed

lemma groupByTier_partition:
  assumes "m \<in> set models"
  shows "\<exists>!t. t \<in> set tiers \<and> m \<in> set (groupByTier models t)"
  using assms ClassifyModel_tier by (auto simp: groupByTier_def)

text \<open>A model is only suggested for a role from its own tier, and only when the configured one is not in it.\<close>

lemma suggestion_in_tier:
  assumes "suggestion (groupByTier models t) cur = Some c"
  obtains m where "m \<in> set models" "ClassifyModel (mi_Name m) = t" "c = bare (mi_Name m)"
    "\<forall>m' \<in> set models. ClassifyModel (mi_Name m') = t \<longrightarrow> bare (mi_Name m') \<noteq> bare cur"
proof -
  let ?g = "groupByTier models t"
  have g: "?g \<noteq> []" "c = bare (mi_Name (hd ?g))" "bare cur \<notin> set (map (\<lambda>m. bare (mi_Name m)) ?g)"
    using assms by (auto simp: suggestion_def split: if_splits)
  have "hd ?g \<in> set ?g" using g(1) by simp
  then have h: "hd ?g \<in> set models" "ClassifyModel (mi_Name (hd ?g)) = t" by (auto simp: groupByTier_def)
  have "\<forall>m' \<in> set models. ClassifyModel (mi_Name m') = t \<longrightarrow> bare (mi_Name m') \<noteq> bare cur"
    using g(3) by (force simp: groupByTier_def)
  then show ?thesis using that [OF h g(2)] by blast
qed

end
