(* ===== verification/Handler.thy ===== *)
theory Handler
  imports Session Bot Memory_Store Resilience
begin

text \<open>
  The handler that joins the messenger to the session manager, \<^verbatim>\<open>internal/app/handler.go\<close>: administrative
  commands, the turn of a session, the apology for an open circuit breaker, and handing the exchange to
  memory and to consolidation. Memory, consolidation, approvals and the reset of the breakers are
  functions over the world.
\<close>

record 'w DispatchHandler =
  dh_Env :: "'w Env"
  dh_Mgr :: "'w SessionManager"
  dh_Index :: "(string \<Rightarrow> string \<Rightarrow> 'w \<Rightarrow> go_error option \<times> 'w) option"
  dh_ConsolidateAsync :: "(string \<Rightarrow> string \<Rightarrow> 'w \<Rightarrow> 'w) option"
  dh_HitlCallback :: "(InboundCallback \<Rightarrow> 'w \<Rightarrow> go_error option \<times> 'w) option"
  dh_ResetAll :: "'w \<Rightarrow> 'w"

definition maybeHandleAdminCommand :: "'w DispatchHandler \<Rightarrow> string \<Rightarrow> 'w \<Rightarrow> string option \<times> 'w" where
  "maybeHandleAdminCommand h s w =
     (if TrimSpace s = ''/reset_circuits'' then (Some ''All circuit breakers have been reset.'', dh_ResetAll h w) else (None, w))"

definition indexMemory :: "(string \<Rightarrow> string \<Rightarrow> 'w \<Rightarrow> go_error option \<times> 'w) \<Rightarrow> string \<Rightarrow> string \<Rightarrow> string \<Rightarrow> 'w \<Rightarrow> 'w" where
  "indexMemory index sessionKey userMsg assistantReply w =
     (if ShouldSkipRAG userMsg then w
      else
        (let ns = session_namespace sessionKey; w1 = snd (index ns (''USER: '' @ userMsg) w) in
         if assistantReply \<noteq> [] then snd (index ns (''ASSISTANT: '' @ assistantReply) w1) else w1))"

definition circuitApology :: string where
  "circuitApology = ''I'm sorry, I'm currently having trouble connecting to one of my services. Please try again in a few moments.''"

definition Handler_Handle :: "'w DispatchHandler \<Rightarrow> string \<Rightarrow> InboundMessage \<Rightarrow> 'w \<Rightarrow> string result \<times> 'w" where
  "Handler_Handle h sessionKey msg w =
     (case maybeHandleAdminCommand h (im_Text msg) w of
        (Some reply, w1) \<Rightarrow> (Inr reply, w1)
      | (None, w1) \<Rightarrow>
          (case Dispatch (dh_Env h) (dh_Mgr h) sessionKey (UserID (im_ChatID msg) (im_SenderID msg)) (im_Text msg) w1 of
             (Inl e, w2) \<Rightarrow> if error_is e ErrCircuitOpen then (Inr circuitApology, w2) else (Inl (wrap_err ''dispatch session'' e), w2)
           | (Inr reply, w2) \<Rightarrow>
               (let w3 = (case dh_Index h of None \<Rightarrow> w2 | Some index \<Rightarrow> indexMemory index sessionKey (im_Text msg) reply w2);
                    w4 = (case dh_ConsolidateAsync h of
                            None \<Rightarrow> w3 | Some consolidate \<Rightarrow> if reply \<noteq> [] then consolidate sessionKey reply w3 else w3) in
                (Inr reply, w4))))"

definition Handler_HandleCallback :: "'w DispatchHandler \<Rightarrow> InboundCallback \<Rightarrow> 'w \<Rightarrow> go_error option \<times> 'w" where
  "Handler_HandleCallback h cb w =
     (case dh_HitlCallback h of
        None \<Rightarrow> (None, w)
      | Some callback \<Rightarrow>
          (case callback cb w of (Some e, w1) \<Rightarrow> (Some (wrap_err ''hitl callback'' e), w1) | (None, w1) \<Rightarrow> (None, w1)))"

section \<open>Laws\<close>

text \<open>A turn only adds facts to the namespace of its own session.\<close>

lemma Index_rows:
  "\<exists>new. ms_rows (snd (Index now ns c m)) = ms_rows m @ new \<and> list_all (\<lambda>r. mr_namespace r = ns) new"
  by (auto simp: Index_def IndexWithImportance_def mem_call_def Let_def split: list.splits option.splits)

lemma indexMemory_own:
  "\<exists>new. ms_rows (indexMemory (Index now) sessionKey u a m) = ms_rows m @ new \<and>
     list_all (\<lambda>r. mr_namespace r = session_namespace sessionKey) new"
proof -
  let ?ns = "session_namespace sessionKey"
  obtain n1 where 1: "ms_rows (snd (Index now ?ns (''USER: '' @ u) m)) = ms_rows m @ n1" "list_all (\<lambda>r. mr_namespace r = ?ns) n1"
    using Index_rows by blast
  obtain n2 where 2: "ms_rows (snd (Index now ?ns (''ASSISTANT: '' @ a) (snd (Index now ?ns (''USER: '' @ u) m)))) = (ms_rows m @ n1) @ n2"
    "list_all (\<lambda>r. mr_namespace r = ?ns) n2" using Index_rows 1(1) by metis
  show ?thesis
  proof (cases "ShouldSkipRAG u")
    case True
    then show ?thesis by (intro exI [of _ "[]"]) (simp add: indexMemory_def)
  next
    case False
    then show ?thesis using 1 2
      by (cases "a = []") (auto simp: indexMemory_def Let_def intro: exI [of _ n1] exI [of _ "n1 @ n2"])
  qed
qed

text \<open>An open circuit breaker is answered with the apology, an administrative command without a turn.\<close>

lemma Handler_circuit_open:
  assumes "TrimSpace (im_Text msg) \<noteq> ''/reset_circuits''"
    and "Dispatch (dh_Env h) (dh_Mgr h) sessionKey (UserID (im_ChatID msg) (im_SenderID msg)) (im_Text msg) w = (Inl e, w')"
  shows "Handler_Handle h sessionKey msg w =
    (if error_is e ErrCircuitOpen then Inr circuitApology else Inl (wrap_err ''dispatch session'' e), w')"
  using assms by (simp add: Handler_Handle_def maybeHandleAdminCommand_def)

end
