(* ===== verification/Consolidator_Life.thy ===== *)
theory Consolidator_Life
  imports GoPrelude
begin

text \<open>
  The workers that consolidate replies into memory, \<^verbatim>\<open>internal/memory/consolidator/consolidator.go\<close>, as a step
  relation: admission, completion, \<^verbatim>\<open>Shutdown\<close> by any number of callers, \<^verbatim>\<open>BindLifetime\<close> and the
  cancellation of contexts, in any order. What one worker does is the theory \<open>Consolidator\<close>. The time
  limit of 30 seconds of a worker's own context is left out.
\<close>

section \<open>Which replies are consolidated\<close>

text \<open>\<^verbatim>\<open>utf8.RuneCountInString\<close>: a byte that starts no valid encoding counts as one rune.\<close>

function RuneCountInString :: "string \<Rightarrow> nat" where
  "RuneCountInString s = (if s = [] then 0 else Suc (RuneCountInString (drop (rune_size s) s)))"
  by pat_completeness auto
termination
  by (relation "measure length") (auto simp: rune_size_def Let_def)

declare RuneCountInString.simps [simp del]

definition minConsolidateLength :: nat where "minConsolidateLength = 80"

definition worth_consolidating :: "string \<Rightarrow> bool" where
  "worth_consolidating reply \<longleftrightarrow> \<not> RuneCountInString (TrimSpace reply) < minConsolidateLength"

section \<open>The life of the workers\<close>

text \<open>
  A context is a number. \<open>lf_workers\<close> gives the running workers with the context they got from \<open>lf_owner\<close>,
  \<open>lf_done\<close> says that the channel \<^verbatim>\<open>done\<close> is closed, and \<open>lf_panicked\<close> that it was closed twice.
\<close>

datatype shutdown_call = NotCalled | Waiting | Joined | GaveUp go_error

record worker_life =
  lf_owner :: nat
  lf_cancelled :: "nat set"
  lf_contexts :: nat
  lf_closed :: bool
  lf_active :: int
  lf_done :: bool
  lf_panicked :: bool
  lf_workers :: "nat \<Rightarrow> nat option"
  lf_calls :: "nat \<Rightarrow> shutdown_call"

definition new_life :: worker_life where
  "new_life = \<lparr>lf_owner = 0, lf_cancelled = {}, lf_contexts = 1, lf_closed = False, lf_active = 0, lf_done = False,
     lf_panicked = False, lf_workers = (\<lambda>w. None), lf_calls = (\<lambda>p. NotCalled)\<rparr>"

definition ErrDrainTimeout :: go_error where "ErrDrainTimeout = ErrorNew ''consolidation drain timed out''"

definition cancel_owner :: "worker_life \<Rightarrow> worker_life" where
  "cancel_owner s = s\<lparr>lf_cancelled := insert (lf_owner s) (lf_cancelled s)\<rparr>"

definition close_done :: "worker_life \<Rightarrow> worker_life" where
  "close_done s = (if lf_done s then s\<lparr>lf_panicked := True\<rparr> else s\<lparr>lf_done := True\<rparr>)"

definition BindLifetime :: "bool \<Rightarrow> worker_life \<Rightarrow> worker_life" where
  "BindLifetime ctxCancelled s =
     (let s1 = cancel_owner s; c = lf_contexts s1 in
      s1\<lparr>lf_owner := c, lf_contexts := Suc c, lf_cancelled := (if ctxCancelled then insert c (lf_cancelled s1) else lf_cancelled s1)\<rparr>)"

text \<open>
  The part of \<^verbatim>\<open>Shutdown\<close> under the mutex, and its error, which wraps two errors; \<open>ErrorJoin\<close> stands for the pair, whose text has
  a colon in between.
\<close>

definition shutdown_begin :: "worker_life \<Rightarrow> worker_life" where
  "shutdown_begin s =
     (if \<not> lf_closed s then
        (let s1 = cancel_owner (s\<lparr>lf_closed := True\<rparr>) in if lf_active s1 = 0 then close_done s1 else s1)
      else s)"

definition shutdown_error :: "go_error \<Rightarrow> go_error" where
  "shutdown_error e = Errorf ''shutdown consolidation: '' (ErrorJoin ErrDrainTimeout e) []"

definition workerDone :: "nat \<Rightarrow> worker_life \<Rightarrow> worker_life" where
  "workerDone w s =
     (let s1 = s\<lparr>lf_workers := (lf_workers s)(w := None), lf_active := lf_active s - 1\<rparr> in
      if lf_closed s1 \<and> lf_active s1 = 0 then close_done s1 else s1)"

definition ConsolidateAsync :: "nat \<Rightarrow> string \<Rightarrow> worker_life \<Rightarrow> worker_life" where
  "ConsolidateAsync w reply s =
     (if \<not> worth_consolidating reply then s
      else if lf_closed s \<or> lf_owner s \<in> lf_cancelled s then s
      else s\<lparr>lf_active := lf_active s + 1, lf_workers := (lf_workers s)(w \<mapsto> lf_owner s)\<rparr>)"

inductive life_step :: "worker_life \<Rightarrow> worker_life \<Rightarrow> bool" where
  bind: "life_step s (BindLifetime b s)"
| cancelled: "c < lf_contexts s \<Longrightarrow> life_step s (s\<lparr>lf_cancelled := insert c (lf_cancelled s)\<rparr>)"
| submit: "lf_workers s w = None \<Longrightarrow> life_step s (ConsolidateAsync w reply s)"
| finish: "lf_workers s w = Some c \<Longrightarrow> life_step s (workerDone w s)"
| enter: "lf_calls s p = NotCalled \<Longrightarrow> life_step s ((shutdown_begin s)\<lparr>lf_calls := (lf_calls s)(p := Waiting)\<rparr>)"
| join: "lf_calls s p = Waiting \<Longrightarrow> lf_done s \<Longrightarrow> life_step s (s\<lparr>lf_calls := (lf_calls s)(p := Joined)\<rparr>)"
| give_up: "lf_calls s p = Waiting \<Longrightarrow>
    life_step s (s\<lparr>lf_calls := (lf_calls s)(p := GaveUp (shutdown_error e))\<rparr>)"

inductive_cases life_stepE: "life_step s s'"

text \<open>
  The invariant: the counter counts the running workers, the channel is closed exactly when the admission is closed and
  nobody runs, and a worker that runs under another context than the owner's was cancelled.
\<close>

definition life_ok :: "worker_life \<Rightarrow> bool" where
  "life_ok s \<longleftrightarrow> finite (dom (lf_workers s)) \<and> lf_active s = int (card (dom (lf_workers s))) \<and>
     (lf_done s \<longleftrightarrow> lf_closed s \<and> lf_workers s = (\<lambda>w. None)) \<and> \<not> lf_panicked s \<and> lf_owner s < lf_contexts s \<and>
     (\<forall>w c. lf_workers s w = Some c \<longrightarrow> c < lf_contexts s \<and> (c \<in> lf_cancelled s \<or> c = lf_owner s \<and> \<not> lf_closed s)) \<and>
     (\<forall>p. lf_calls s p \<noteq> NotCalled \<longrightarrow> lf_closed s) \<and> (\<forall>p. lf_calls s p = Joined \<longrightarrow> lf_done s)"

lemma life_ok_new: "life_ok new_life"
  by (simp add: life_ok_def new_life_def)

lemma no_workers: "finite (dom f) \<Longrightarrow> (card (dom f) = 0) = (f = (\<lambda>w. None))"
  by (auto simp: dom_def)

lemma life_ok_active:
  assumes "life_ok s"
  shows "(lf_active s = 0) = (lf_workers s = (\<lambda>w. None))"
  using assms no_workers [of "lf_workers s"] by (simp add: life_ok_def)

lemma life_ok_bind: "life_ok s \<Longrightarrow> life_ok (BindLifetime b s)"
  by (auto simp: life_ok_def BindLifetime_def cancel_owner_def Let_def intro: less_SucI)

lemma life_ok_cancelled: "life_ok s \<Longrightarrow> life_ok (s\<lparr>lf_cancelled := insert c (lf_cancelled s)\<rparr>)"
  by (auto simp: life_ok_def)

lemma life_ok_submit: "life_ok s \<Longrightarrow> lf_workers s w = None \<Longrightarrow> life_ok (ConsolidateAsync w reply s)"
  by (auto simp: life_ok_def ConsolidateAsync_def domIff fun_eq_iff)

lemma life_ok_finish:
  assumes "life_ok s" "lf_workers s w = Some c"
  shows "life_ok (workerDone w s)"
proof -
  let ?f = "(lf_workers s)(w := None)"
  have fin: "finite (dom (lf_workers s))" and act: "lf_active s = int (card (dom (lf_workers s)))"
    and dn: "lf_done s \<longleftrightarrow> lf_closed s \<and> lf_workers s = (\<lambda>w. None)" using assms(1) by (simp_all add: life_ok_def)
  have w: "w \<in> dom (lf_workers s)" and "lf_workers s \<noteq> (\<lambda>w. None)" using assms(2) by (auto dest: fun_cong)
  then have nd: "\<not> lf_done s" using dn by blast
  have "card (dom (lf_workers s)) = Suc (card (dom ?f))" using card.remove [OF fin w] by simp
  then have act': "lf_active s - 1 = int (card (dom ?f))" using act by simp
  have zero: "(lf_active s - 1 = 0) = (?f = (\<lambda>w. None))" using act' fin no_workers [of ?f] by simp
  show ?thesis
  proof (cases "lf_closed s \<and> lf_active s - 1 = 0")
    case True
    then show ?thesis using assms(1) nd act' zero fin
      by (simp add: workerDone_def close_done_def life_ok_def Let_def fun_upd_idem_iff)
  next
    case False
    then show ?thesis using assms(1) nd act' zero fin by (auto simp: workerDone_def life_ok_def Let_def)
  qed
qed

lemma life_ok_shutdown_begin:
  assumes "life_ok s"
  shows "life_ok (shutdown_begin s)" and "lf_closed (shutdown_begin s)" and "lf_calls (shutdown_begin s) = lf_calls s"
proof -
  show "lf_closed (shutdown_begin s)" "lf_calls (shutdown_begin s) = lf_calls s"
    by (simp_all add: shutdown_begin_def cancel_owner_def close_done_def Let_def)
  show "life_ok (shutdown_begin s)"
    using assms life_ok_active [OF assms] by (auto simp: shutdown_begin_def cancel_owner_def close_done_def life_ok_def Let_def)
qed

lemma life_ok_enter: "life_ok s \<Longrightarrow> life_ok ((shutdown_begin s)\<lparr>lf_calls := (lf_calls s)(p := Waiting)\<rparr>)"
  using life_ok_shutdown_begin [of s] by (auto simp: life_ok_def)

lemma life_ok_join: "life_ok s \<Longrightarrow> lf_calls s p = Waiting \<Longrightarrow> lf_done s \<Longrightarrow> life_ok (s\<lparr>lf_calls := (lf_calls s)(p := Joined)\<rparr>)"
  by (auto simp: life_ok_def)

lemma life_ok_give_up: "life_ok s \<Longrightarrow> lf_calls s p = Waiting \<Longrightarrow> life_ok (s\<lparr>lf_calls := (lf_calls s)(p := GaveUp e)\<rparr>)"
  by (auto simp: life_ok_def)

lemma life_ok_step: "life_step s s' \<Longrightarrow> life_ok s \<Longrightarrow> life_ok s'"
  by (induction rule: life_step.induct)
    (blast intro: life_ok_bind life_ok_cancelled life_ok_submit life_ok_finish life_ok_enter life_ok_join life_ok_give_up)+

lemma life_ok_steps: "life_step\<^sup>*\<^sup>* s s' \<Longrightarrow> life_ok s \<Longrightarrow> life_ok s'"
  by (induction rule: rtranclp_induct) (auto intro: life_ok_step)

lemma closed_step: "life_step s s' \<Longrightarrow> lf_closed s \<Longrightarrow> lf_closed s'"
  by (induction rule: life_step.induct)
    (auto simp: BindLifetime_def cancel_owner_def ConsolidateAsync_def workerDone_def shutdown_begin_def close_done_def Let_def)

lemma closed_step_workers: "life_step s s' \<Longrightarrow> lf_closed s \<Longrightarrow> lf_workers s' w = Some c \<Longrightarrow> lf_workers s w = Some c"
  by (induction rule: life_step.induct)
    (auto simp: BindLifetime_def cancel_owner_def ConsolidateAsync_def workerDone_def shutdown_begin_def close_done_def Let_def split: if_splits)

text \<open>After the admission is closed no worker starts.\<close>

lemma closed_steps:
  "life_step\<^sup>*\<^sup>* s s' \<Longrightarrow> lf_closed s \<Longrightarrow> lf_closed s' \<and> (\<forall>w c. lf_workers s' w = Some c \<longrightarrow> lf_workers s w = Some c)"
proof (induction rule: rtranclp_induct)
  case (step y z)
  then show ?case using closed_step [of y z] closed_step_workers [of y z] by blast
qed simp

text \<open>
  \<^bold>\<open>C25.\<close> Whatever the order of submissions, completions, cancellations, rebindings and calls of \<^verbatim>\<open>Shutdown\<close>: the channel is
  closed once, the workers that run after \<^verbatim>\<open>Shutdown\<close> began were cancelled, once they have ended every waiting
  caller can return, and from a successful return of \<^verbatim>\<open>Shutdown\<close> on no worker ever runs.
\<close>

theorem shutdown_joins:
  assumes "life_step\<^sup>*\<^sup>* new_life s"
  shows "\<not> lf_panicked s \<and>
    (lf_closed s \<longrightarrow> (\<forall>w c. lf_workers s w = Some c \<longrightarrow> c \<in> lf_cancelled s)) \<and>
    (lf_closed s \<and> lf_workers s = (\<lambda>w. None) \<longrightarrow>
       (\<forall>p. lf_calls s p = Waiting \<longrightarrow> life_step s (s\<lparr>lf_calls := (lf_calls s)(p := Joined)\<rparr>))) \<and>
    (\<forall>p s'. lf_calls s p = Joined \<and> life_step\<^sup>*\<^sup>* s s' \<longrightarrow> lf_workers s' = (\<lambda>w. None))"
proof -
  have ok: "life_ok s" using assms life_ok_steps life_ok_new by blast
  have "life_step s (s\<lparr>lf_calls := (lf_calls s)(p := Joined)\<rparr>)"
    if "lf_closed s" "lf_workers s = (\<lambda>w. None)" "lf_calls s p = Waiting" for p
    using that ok by (intro life_step.join) (simp_all add: life_ok_def)
  moreover have "lf_workers s' = (\<lambda>w. None)" if "lf_calls s p = Joined" and st: "life_step\<^sup>*\<^sup>* s s'" for p s'
  proof -
    have none: "lf_closed s" "lf_workers s = (\<lambda>w. None)" using ok that(1) by (auto simp: life_ok_def)
    show ?thesis using closed_steps [OF st none(1)] none(2) by (metis not_None_eq ext option.distinct(1))
  qed
  moreover have "\<not> lf_panicked s" "lf_closed s \<longrightarrow> (\<forall>w c. lf_workers s w = Some c \<longrightarrow> c \<in> lf_cancelled s)"
    using ok by (auto simp: life_ok_def)
  ultimately show ?thesis by blast
qed

lemma long_reply: "worth_consolidating (replicate 80 (CHR ''a''))"
  by code_simp

text \<open>One worker runs when \<^verbatim>\<open>Shutdown\<close> is called, and ends.\<close>

theorem shutdown_joins_witness:
  "\<exists>s1 s2. life_step\<^sup>*\<^sup>* new_life s1 \<and> lf_closed s1 \<and> lf_workers s1 0 = Some 0 \<and> 0 \<in> lf_cancelled s1 \<and>
     life_step\<^sup>*\<^sup>* s1 s2 \<and> lf_calls s2 7 = Joined \<and> \<not> lf_panicked s2 \<and>
     (\<forall>s'. life_step\<^sup>*\<^sup>* s2 s' \<longrightarrow> lf_workers s' = (\<lambda>w. None))"
proof -
  define a where "a = ConsolidateAsync 0 (replicate 80 (CHR ''a'')) new_life"
  define s1 where "s1 = (shutdown_begin a)\<lparr>lf_calls := (lf_calls a)(7 := Waiting)\<rparr>"
  define b where "b = workerDone 0 s1"
  define s2 where "s2 = b\<lparr>lf_calls := (lf_calls b)(7 := Joined)\<rparr>"
  have a: "lf_workers a = (\<lambda>w. None)(0 \<mapsto> 0)" "lf_calls a = (\<lambda>p. NotCalled)" "lf_active a = 1" "\<not> lf_closed a" "\<not> lf_done a" "lf_owner a = 0"
    by (simp_all add: a_def ConsolidateAsync_def long_reply new_life_def)
  have s1: "lf_workers s1 = (\<lambda>w. None)(0 \<mapsto> 0)" "lf_calls s1 7 = Waiting" "lf_active s1 = 1" "lf_closed s1" "\<not> lf_done s1"
    by (simp_all add: s1_def shutdown_begin_def cancel_owner_def Let_def a)
  have b: "lf_done b" "lf_calls b 7 = Waiting" by (simp_all add: b_def workerDone_def close_done_def Let_def s1)
  have "life_step new_life a" unfolding a_def by (rule life_step.submit) (simp add: new_life_def)
  moreover have "life_step a s1" unfolding s1_def by (rule life_step.enter) (simp add: a)
  ultimately have r1: "life_step\<^sup>*\<^sup>* new_life s1" by (meson converse_rtranclp_into_rtranclp r_into_rtranclp)
  have "life_step s1 b" unfolding b_def by (rule life_step.finish [where c = 0]) (simp add: s1)
  moreover have "life_step b s2" unfolding s2_def by (rule life_step.join) (simp_all add: b)
  ultimately have r2: "life_step\<^sup>*\<^sup>* s1 s2" by (meson converse_rtranclp_into_rtranclp r_into_rtranclp)
  have j: "lf_calls s2 7 = Joined" by (simp add: s2_def)
  show ?thesis
    using shutdown_joins [OF r1] shutdown_joins [OF rtranclp_trans [OF r1 r2]] r1 r2 j s1 by (intro exI [of _ s1] exI [of _ s2]) auto
qed

end
