(* ===== verification/Consolidator.thy ===== *)
theory Consolidator
  imports Consolidator_Life Hybrid_Search
begin

text \<open>
  What one consolidation does, \<^verbatim>\<open>internal/memory/consolidator/consolidator.go\<close>: extraction of facts, deduplication,
  choice of the namespace, indexing and cleaning up. The environment answers each poll of the context, each reading of the
  clock and each call of the language model. The vector store wraps a library, so it is a record of functions, as is
  decoding JSON at a given type; \<^verbatim>\<open>strings.ToLower\<close> over all of Unicode is the field \<open>ce_ToLower\<close>. Log output
  and counters are left out.
\<close>

section \<open>The parts of a consolidator\<close>

record ScoredFact =
  sf_Fact :: string
  sf_Importance :: int

type_synonym 'w embedder = "string \<Rightarrow> 'w \<Rightarrow> rat list result \<times> 'w"

record vec_document =
  vd_ID :: string
  vd_Content :: string
  vd_Metadata :: "(string \<times> string) list"

record 'w vec_store =
  vs_Search :: "string \<Rightarrow> string \<Rightarrow> int \<Rightarrow> 'w embedder \<Rightarrow> 'w \<Rightarrow> vec_result list result \<times> 'w"
  vs_AddDocument :: "string \<Rightarrow> vec_document \<Rightarrow> 'w embedder \<Rightarrow> 'w \<Rightarrow> go_error option \<times> 'w"
  vs_Save :: "'w \<Rightarrow> go_error option \<times> 'w"

text \<open>\<open>cs_traced\<close>: there is a tracer, and whether it has a provider.\<close>

record 'w Consolidator =
  cs_RunText :: "string \<Rightarrow> string \<Rightarrow> string \<Rightarrow> 'w \<Rightarrow> string result \<times> 'w"
  cs_vecStore :: "'w vec_store option"
  cs_embedProv :: "'w embedder option"
  cs_semanticDedupThreshold :: rat
  cs_prompt :: string
  cs_ttl :: string
  cs_globalTTL :: string
  cs_patterns :: "string list"
  cs_traced :: "bool option"

record 'w consolidator_env =
  ce_Err :: "'w \<Rightarrow> go_error option \<times> 'w"
  ce_Now :: "'w \<Rightarrow> instant \<times> 'w"
  ce_fts :: fts_engine
  ce_scored :: "string \<Rightarrow> (string \<times> int) list result"
  ce_plain :: "string \<Rightarrow> string list result"
  ce_ToLower :: "string \<Rightarrow> string"
  ce_float :: float_ops

definition consolidationPrompt :: string where
  "consolidationPrompt = concat
     [''You are a memory consolidation assistant. Extract key facts from the following agent reply that are worth remembering long-term '',
      [CHR 0xE2, CHR 0x80, CHR 0x94],
      '' decisions made, deadlines, preferences, project details, or any specific factual information.'', [CHR 0x0A, CHR 0x0A],
      ''Return ONLY a JSON array of objects with '', [CHR 0x22], ''fact'', [CHR 0x22], '' (string) and '', [CHR 0x22], ''importance'', [CHR 0x22],
      '' (integer 1-5) keys.'', [CHR 0x0A],
      ''1 = trivial/conversational, 3 = useful context, 5 = critical decision/deadline/preference.'', [CHR 0x0A],
      ''Return [] if no notable facts. Do not include filler.'', [CHR 0x0A, CHR 0x0A],
      ''Example output:'', [CHR 0x0A],
      ''[{'', [CHR 0x22], ''fact'', [CHR 0x22], '': '', [CHR 0x22], ''Project Alpha deadline is May 1 2026'', [CHR 0x22], '', '',
      [CHR 0x22], ''importance'', [CHR 0x22], '': 5},'', [CHR 0x0A],
      '' {'', [CHR 0x22], ''fact'', [CHR 0x22], '': '', [CHR 0x22], ''User prefers async updates on Fridays'', [CHR 0x22], '', '',
      [CHR 0x22], ''importance'', [CHR 0x22], '': 4}]'', [CHR 0x0A, CHR 0x0A],
      ''Agent reply to consolidate:'', [CHR 0x0A]]"

definition newConsolidator ::
  "float_ops \<Rightarrow> (string \<Rightarrow> string \<Rightarrow> string \<Rightarrow> 'w \<Rightarrow> string result \<times> 'w) \<Rightarrow> 'w vec_store option \<Rightarrow> 'w embedder option \<Rightarrow> 'w Consolidator" where
  "newConsolidator fl runText vecStore embedProv =
     \<lparr>cs_RunText = runText, cs_vecStore = vecStore, cs_embedProv = embedProv, cs_semanticDedupThreshold = f64 fl (92 / 100),
      cs_prompt = consolidationPrompt, cs_ttl = [], cs_globalTTL = [], cs_patterns = [], cs_traced = None\<rparr>"

definition SetPrompt :: "string \<Rightarrow> 'w Consolidator \<Rightarrow> 'w Consolidator" where
  "SetPrompt p c = (if p \<noteq> [] then c\<lparr>cs_prompt := p\<rparr> else c)"

definition set_cs_tracer :: "bool option \<Rightarrow> 'w Consolidator \<Rightarrow> 'w Consolidator" where
  "set_cs_tracer t c = c\<lparr>cs_traced := t\<rparr>"

definition SetSemanticDedupThreshold :: "rat \<Rightarrow> 'w Consolidator \<Rightarrow> 'w Consolidator" where
  "SetSemanticDedupThreshold t c = c\<lparr>cs_semanticDedupThreshold := t\<rparr>"

definition SetTTL :: "string \<Rightarrow> 'w Consolidator \<Rightarrow> 'w Consolidator" where
  "SetTTL ttl c = c\<lparr>cs_ttl := ttl\<rparr>"

definition SetGlobalTTL :: "string \<Rightarrow> 'w Consolidator \<Rightarrow> 'w Consolidator" where
  "SetGlobalTTL ttl c = c\<lparr>cs_globalTTL := ttl\<rparr>"

definition SetGlobalPatterns :: "string list \<Rightarrow> 'w Consolidator \<Rightarrow> 'w Consolidator" where
  "SetGlobalPatterns patterns c = c\<lparr>cs_patterns := patterns\<rparr>"

section \<open>The answer of the language model\<close>

definition TrimPrefix :: "string \<Rightarrow> string \<Rightarrow> string" where
  "TrimPrefix s p = (if HasPrefix s p then drop (length p) s else s)"

definition fence :: string where "fence = replicate 3 (CHR 0x60)"

text \<open>From the first opening to the last closing bracket; empty when one is missing or they are in the wrong order.\<close>

definition outer_brackets :: "string \<Rightarrow> string" where
  "outer_brackets s = rev (dropWhile (\<lambda>c. c \<noteq> CHR '']'') (rev (dropWhile (\<lambda>c. c \<noteq> CHR ''['') s)))"

definition strip_fences :: "string \<Rightarrow> string" where
  "strip_fences response = TrimSpace (TrimSuffix (TrimPrefix (TrimPrefix (TrimSpace response) (fence @ ''json'')) fence) fence)"

definition parseScoredFacts :: "'w consolidator_env \<Rightarrow> string \<Rightarrow> ScoredFact list result" where
  "parseScoredFacts env response =
     (let s = outer_brackets (strip_fences response) in
      if s = [] then Inl (ErrorNew ''parseScoredFacts: no JSON array found in response'')
      else
        (case ce_scored env s of
           Inr scored \<Rightarrow> Inr (map (\<lambda>(ftext, imp). \<lparr>sf_Fact = ftext, sf_Importance = (if imp < 1 \<or> imp > 5 then 3 else imp)\<rparr>) scored)
         | Inl e1 \<Rightarrow>
             (case ce_plain env s of
                Inl e \<Rightarrow> Inl (wrap_err ''parseScoredFacts: unmarshal'' e)
              | Inr plain \<Rightarrow> Inr (map (\<lambda>f. \<lparr>sf_Fact = f, sf_Importance = 3\<rparr>) plain))))"

definition extractFacts :: "'w consolidator_env \<Rightarrow> 'w Consolidator \<Rightarrow> string \<Rightarrow> string \<Rightarrow> 'w \<Rightarrow> ScoredFact list result \<times> 'w" where
  "extractFacts env c sessionKey reply w =
     (let nl = [CHR 0x0A];
          prompt = (if \<not> Contains (cs_prompt c) ''reply'' \<and> \<not> HasSuffix (cs_prompt c) nl
                    then cs_prompt c @ nl @ nl @ ''Agent reply to consolidate:'' @ nl @ reply else cs_prompt c @ reply) in
      case cs_RunText c sessionKey prompt [] w of
        (Inl e, w1) \<Rightarrow> (Inl (wrap_err ''consolidator: RunText'' e), w1)
      | (Inr response, w1) \<Rightarrow> (parseScoredFacts env response, w1))"

section \<open>Duplicates\<close>

definition wordSet :: "'w consolidator_env \<Rightarrow> string \<Rightarrow> string list" where
  "wordSet env s = remdups (fields_from [] (ce_ToLower env s))"

definition similarity :: "'w consolidator_env \<Rightarrow> string \<Rightarrow> string \<Rightarrow> rat" where
  "similarity env a b =
     (let wordsA = wordSet env a; wordsB = wordSet env b in
      if wordsA = [] \<or> wordsB = [] then 0
      else f64 (ce_float env) (of_nat (length (filter (\<lambda>x. x \<in> set wordsB) wordsA)) / of_nat (min (length wordsA) (length wordsB))))"

definition meta_value :: "(string \<times> string) list \<Rightarrow> string \<Rightarrow> string" where
  "meta_value m k = (case map_of m k of Some v \<Rightarrow> v | None \<Rightarrow> [])"

definition isSemanticDuplicate :: "'w vec_store \<Rightarrow> 'w embedder \<Rightarrow> rat \<Rightarrow> string \<Rightarrow> string \<Rightarrow> 'w \<Rightarrow> bool \<times> 'w" where
  "isSemanticDuplicate vs emb threshold sessionKey ftext w =
     (case vs_Search vs ''memory_facts'' ftext 5 emb w of
        (Inl e, w1) \<Rightarrow> (False, w1)
      | (Inr results, w1) \<Rightarrow>
          (list_ex (\<lambda>res. (meta_value (vr_Metadata res) ''namespace'' = ''global'' \<or> meta_value (vr_Metadata res) ''session_key'' = sessionKey) \<and>
             vr_Similarity res \<ge> threshold) results, w1))"

definition isLexicalDuplicate :: "'w consolidator_env \<Rightarrow> string \<Rightarrow> string \<Rightarrow> MemoryStore \<Rightarrow> bool \<times> MemoryStore" where
  "isLexicalDuplicate env sessionKey ftext m =
     (case mem_Search (ce_fts env) ftext sessionKey 1 m of
        (Inr (existing # _), m1) \<Rightarrow>
          (case map_of existing ''content'' of
             Some (JStr existingContent) \<Rightarrow> (similarity env ftext existingContent > f64 (ce_float env) (8 / 10), m1)
           | _ \<Rightarrow> (False, m1))
      | (_, m1) \<Rightarrow> (False, m1))"

definition isDuplicate ::
  "'w consolidator_env \<Rightarrow> 'w Consolidator \<Rightarrow> string \<Rightarrow> string \<Rightarrow> MemoryStore \<times> 'w \<Rightarrow> bool \<times> MemoryStore \<times> 'w" where
  "isDuplicate env c sessionKey ftext = (\<lambda>(m, w).
     case (cs_vecStore c, cs_embedProv c, cs_semanticDedupThreshold c > 0) of
       (Some vs, Some emb, True) \<Rightarrow>
         (case isSemanticDuplicate vs emb (cs_semanticDedupThreshold c) sessionKey ftext w of (b, w1) \<Rightarrow> (b, m, w1))
     | _ \<Rightarrow> (case isLexicalDuplicate env sessionKey ftext m of (b, m1) \<Rightarrow> (b, m1, w)))"

section \<open>Indexing\<close>

definition resolveNamespace :: "'w consolidator_env \<Rightarrow> 'w Consolidator \<Rightarrow> string \<Rightarrow> string \<Rightarrow> string" where
  "resolveNamespace env c ftext sessionKey =
     (if list_ex (\<lambda>p. Contains (ce_ToLower env ftext) (ce_ToLower env p)) (cs_patterns c) then ''global''
      else session_namespace sessionKey)"

definition indexVectorFact ::
  "'w consolidator_env \<Rightarrow> 'w Consolidator \<Rightarrow> string \<Rightarrow> string \<Rightarrow> string \<Rightarrow> int \<Rightarrow> 'w \<Rightarrow> 'w" where
  "indexVectorFact env c sessionKey ftext namespace importance w =
     (case ce_Err env w of (err, w0) \<Rightarrow>
        (case (err, cs_vecStore c, cs_embedProv c) of
           (None, Some vs, Some emb) \<Rightarrow>
             (case ce_Now env w0 of (now1, w1) \<Rightarrow>
              case ce_Now env w1 of (now2, w2) \<Rightarrow>
                snd (vs_AddDocument vs ''memory_facts''
                  \<lparr>vd_ID = sessionKey @ ''-'' @ Itoa now1, vd_Content = ftext,
                   vd_Metadata = [(''session_key'', sessionKey), (''namespace'', namespace), (''timestamp'', FormatRFC3339 now2),
                     (''source'', ''consolidator''), (''importance'', Itoa importance)]\<rparr> emb w2))
         | _ \<Rightarrow> w0))"

fun indexFacts ::
  "'w consolidator_env \<Rightarrow> 'w Consolidator \<Rightarrow> string \<Rightarrow> ScoredFact list \<Rightarrow> int \<times> int \<Rightarrow> MemoryStore \<times> 'w \<Rightarrow> (int \<times> int) \<times> MemoryStore \<times> 'w" where
  "indexFacts env c sessionKey [] n (m, w) = (n, m, w)"
| "indexFacts env c sessionKey (sf # sfs) (indexed, skipped) (m, w) =
     (case ce_Err env w of
        (Some e, w1) \<Rightarrow> ((indexed, skipped), m, w1)
      | (None, w1) \<Rightarrow>
          (let ftext = TrimSpace (sf_Fact sf) in
           if ftext = [] then indexFacts env c sessionKey sfs (indexed, skipped) (m, w1)
           else
             (case isDuplicate env c sessionKey ftext (m, w1) of
                (True, m2, w2) \<Rightarrow> indexFacts env c sessionKey sfs (indexed, skipped + 1) (m2, w2)
              | (False, m2, w2) \<Rightarrow>
                  (case ce_Err env w2 of
                     (Some e, w3) \<Rightarrow> ((indexed, skipped), m2, w3)
                   | (None, w3) \<Rightarrow>
                       (let namespace = resolveNamespace env c ftext sessionKey in
                        case ce_Now env w3 of (now, w4) \<Rightarrow>
                        case IndexWithImportance now namespace ftext (sf_Importance sf) m2 of
                          (Some e, m5) \<Rightarrow> indexFacts env c sessionKey sfs (indexed, skipped + 1) (m5, w4)
                        | (None, m5) \<Rightarrow>
                            indexFacts env c sessionKey sfs (indexed + 1, skipped)
                              (m5, indexVectorFact env c sessionKey ftext namespace (sf_Importance sf) w4))))))"

section \<open>Cleaning up\<close>

definition cleanup_ns :: "'w consolidator_env \<Rightarrow> string \<Rightarrow> string \<Rightarrow> MemoryStore \<times> 'w \<Rightarrow> MemoryStore \<times> 'w" where
  "cleanup_ns env namespace ttl = (\<lambda>(m, w).
     case ce_Now env w of (now, w1) \<Rightarrow> (snd (CleanupNamespace now namespace ttl m), w1))"

definition cleanupNamespacesContext :: "'w consolidator_env \<Rightarrow> 'w Consolidator \<Rightarrow> string \<Rightarrow> MemoryStore \<times> 'w \<Rightarrow> MemoryStore \<times> 'w" where
  "cleanupNamespacesContext env c sessionKey = (\<lambda>(m, w).
     case ce_Err env w of
       (Some e, w1) \<Rightarrow> (m, w1)
     | (None, w1) \<Rightarrow>
         (let mw2 = (if cs_ttl c \<noteq> [] then cleanup_ns env (session_namespace sessionKey) (cs_ttl c) (m, w1) else (m, w1)) in
          case ce_Err env (snd mw2) of (err, w3) \<Rightarrow>
            if err = None \<and> cs_globalTTL c \<noteq> [] then cleanup_ns env ''global'' (cs_globalTTL c) (fst mw2, w3) else (fst mw2, w3)))"

section \<open>One consolidation\<close>

definition saveVectors :: "'w consolidator_env \<Rightarrow> 'w Consolidator \<Rightarrow> int \<Rightarrow> 'w \<Rightarrow> 'w" where
  "saveVectors env c indexed w =
     (case ce_Err env w of (err, w1) \<Rightarrow>
        (case cs_vecStore c of Some vs \<Rightarrow> if err = None \<and> indexed > 0 then snd (vs_Save vs w1) else w1 | None \<Rightarrow> w1))"

definition consolidateInner ::
  "'w consolidator_env \<Rightarrow> 'w Consolidator \<Rightarrow> string \<Rightarrow> string \<Rightarrow> MemoryStore \<times> 'w \<Rightarrow> (int \<times> go_error option) \<times> MemoryStore \<times> 'w" where
  "consolidateInner env c sessionKey reply = (\<lambda>(m, w).
     case extractFacts env c sessionKey reply w of
       (Inl e, w1) \<Rightarrow> ((0, Some (wrap_err ''extract facts'' e)), m, w1)
     | (Inr facts, w1) \<Rightarrow>
         (case ce_Err env w1 of
            (Some e, w2) \<Rightarrow> ((0, Some (wrap_err ''after extraction'' e)), m, w2)
          | (None, w2) \<Rightarrow>
              if facts = [] then ((0, None), m, w2)
              else
                (case indexFacts env c sessionKey facts (0, 0) (m, w2) of ((indexed, skipped), m3, w3) \<Rightarrow>
                 case ce_Err env w3 of
                   (Some e, w4) \<Rightarrow> ((indexed, Some (wrap_err ''after indexing'' e)), m3, w4)
                 | (None, w4) \<Rightarrow>
                     (case ce_Err env (saveVectors env c indexed w4) of
                        (Some e, w5) \<Rightarrow> ((indexed, Some (wrap_err ''before namespace cleanup'' e)), m3, w5)
                      | (None, w5) \<Rightarrow> ((indexed, None), cleanupNamespacesContext env c sessionKey (m3, w5))))))"

definition consolidate ::
  "'w consolidator_env \<Rightarrow> 'w Consolidator \<Rightarrow> string \<Rightarrow> string \<Rightarrow> MemoryStore \<times> 'w \<Rightarrow> (int \<times> go_error option) \<times> MemoryStore \<times> 'w" where
  "consolidate env c sessionKey reply s =
     (case consolidateInner env c sessionKey reply s of
        ((n, Some e), s1) \<Rightarrow>
          ((n, Some (case cs_traced c of
             None \<Rightarrow> e
           | Some provider \<Rightarrow> wrap_err ''memory consolidation trace'' (if provider then wrap_err ''memory consolidation'' e else e))), s1)
      | ((n, None), s1) \<Rightarrow> ((n, None), s1))"

section \<open>Laws\<close>

text \<open>Trimming is idempotent as far as emptiness goes: what is left does not begin or end with white space.\<close>

lemma trim_with_concat: "trim_with rs s = [] \<Longrightarrow> \<exists>xs. set xs \<subseteq> {r \<in> set rs. r \<noteq> []} \<and> s = concat xs"
proof (induction rs s rule: trim_with.induct)
  case (1 rs)
  show ?case by (intro exI [of _ "[]"]) simp
next
  case (2 rs c cs)
  obtain r where r: "find (\<lambda>r. r \<noteq> [] \<and> HasPrefix (c # cs) r) rs = Some r"
    using 2(2) by (auto simp: trim_with.simps split: option.splits)
  then have m: "r \<in> set rs" "r \<noteq> []" "HasPrefix (c # cs) r" by (auto simp: find_Some_iff)
  have "trim_with rs (drop (length r - 1) cs) = []" using 2(2) r by (simp add: trim_with.simps)
  then obtain xs where xs: "set xs \<subseteq> {r \<in> set rs. r \<noteq> []}" "drop (length r - 1) cs = concat xs" using 2(1) [OF r] by blast
  have "drop (length r) (c # cs) = concat xs" using xs(2) m(2) by (cases r) auto
  then have "c # cs = concat (r # xs)" using m(3) by (metis HasPrefix_def append_take_drop_id concat.simps(2))
  then show ?case using xs(1) m by (intro exI [of _ "r # xs"]) auto
qed

lemma trim_with_start: "r \<in> set rs \<Longrightarrow> r \<noteq> [] \<Longrightarrow> \<not> HasPrefix (trim_with rs s) r"
proof (induction rs s rule: trim_with.induct)
  case (1 rs)
  then show ?case by (simp add: HasPrefix_def trim_with.simps)
next
  case (2 rs c cs)
  then show ?case by (auto simp: trim_with.simps find_None_iff split: option.split)
qed

lemma TrimSpace_TrimSpace_Nil:
  assumes "TrimSpace (TrimSpace s) = []"
  shows "TrimSpace s = []"
proof (rule ccontr)
  assume ne: "TrimSpace s \<noteq> []"
  define y where "y = TrimSpace s"
  define z where "z = trim_with space_runes y"
  have end_free: "\<not> HasPrefix (rev y) (rev r)" if "r \<in> set space_runes" "r \<noteq> []" for r
    using that trim_with_start [of "rev r" "map rev space_runes" "rev (trim_with space_runes s)"] by (simp add: y_def TrimSpace_def)
  have "trim_with (map rev space_runes) (rev z) = []" using assms by (simp add: TrimSpace_def y_def z_def)
  then obtain xs where xs: "set xs \<subseteq> {r \<in> set (map rev space_runes). r \<noteq> []}" "rev z = concat xs" using trim_with_concat by blast
  have "z = []"
  proof (cases xs rule: rev_cases)
    case Nil
    then show ?thesis using xs(2) by simp
  next
    case (snoc ys x)
    then obtain r where r: "x = rev r" "r \<in> set space_runes" "r \<noteq> []" using xs(1) by auto
    have "z = r @ rev (concat ys)" using xs(2) snoc r(1) by (metis concat_append concat.simps append_Nil2 rev_append rev_rev_ident)
    then have "HasPrefix z r" by simp
    then show ?thesis using trim_with_start [OF r(2,3)] z_def by blast
  qed
  then obtain us where us: "set us \<subseteq> {r \<in> set space_runes. r \<noteq> []}" "y = concat us" using trim_with_concat [of space_runes y] z_def by auto
  show False
  proof (cases us rule: rev_cases)
    case Nil
    then show ?thesis using us(2) ne by (simp add: y_def)
  next
    case (snoc ys r)
    then have "HasPrefix (rev y) (rev r)" "r \<in> set space_runes" "r \<noteq> []" using us by auto
    then show ?thesis using end_free by blast
  qed
qed

lemma mem_call_rows: "mem_call m = (r, m') \<Longrightarrow> ms_rows m' = ms_rows m"
  by (auto simp: mem_call_def split: list.splits)

lemma mem_Search_keeps: "mem_Search lib q sk limit m = (r, m') \<Longrightarrow> ms_rows m' = ms_rows m"
  by (auto simp: mem_Search_def Let_def split: if_splits prod.splits option.splits dest!: mem_call_rows)

lemma isDuplicate_keeps:
  assumes "isDuplicate env c sk x (m, w) = (b, m', w')"
  shows "ms_rows m' = ms_rows m"
proof -
  have "ms_rows (snd (isLexicalDuplicate env sk x m)) = ms_rows m"
    using mem_Search_keeps [of "ce_fts env" x sk 1 m]
    by (cases "mem_Search (ce_fts env) x sk 1 m")
      (auto simp: isLexicalDuplicate_def split: sum.split list.split option.split json.split)
  then show ?thesis using assms by (auto simp: isDuplicate_def split: option.splits bool.splits prod.splits)
qed

lemma IndexWithImportance_rows:
  assumes "IndexWithImportance now ns x imp m = (e, m')" "TrimSpace x \<noteq> []"
  shows "ms_rows m' = ms_rows m @ (if e = None
    then [\<lparr>mr_namespace = ns, mr_content = x, mr_timestamp = FormatRFC3339 now, mr_importance = (if imp < 1 \<or> imp > 5 then 3 else imp)\<rparr>] else [])"
  using assms by (auto simp: IndexWithImportance_def Let_def split: prod.splits option.splits dest!: mem_call_rows)

definition row_of_fact :: "'w consolidator_env \<Rightarrow> 'w Consolidator \<Rightarrow> string \<Rightarrow> ScoredFact \<Rightarrow> mem_row \<Rightarrow> bool" where
  "row_of_fact env c sessionKey sf r \<longleftrightarrow>
     mr_content r = TrimSpace (sf_Fact sf) \<and> mr_content r \<noteq> [] \<and> mr_namespace r = resolveNamespace env c (mr_content r) sessionKey \<and>
     mr_importance r = (if sf_Importance sf < 1 \<or> sf_Importance sf > 5 then 3 else sf_Importance sf)"

text \<open>The new rows come from a subsequence of the facts, in order, and they are counted.\<close>

definition rows_added ::
  "'w consolidator_env \<Rightarrow> 'w Consolidator \<Rightarrow> string \<Rightarrow> ScoredFact list \<Rightarrow> int \<times> int \<Rightarrow> int \<times> int \<Rightarrow> mem_row list \<Rightarrow> mem_row list \<Rightarrow> bool" where
  "rows_added env c sk sfs n n' rows rows' \<longleftrightarrow>
     (\<exists>used added. rows' = rows @ added \<and> subseq used sfs \<and> list_all2 (row_of_fact env c sk) used added \<and>
        fst n' = fst n + int (length added) \<and> snd n \<le> snd n' \<and> (fst n' - fst n) + (snd n' - snd n) \<le> int (length sfs))"

lemma rows_added_none: "rows_added env c sk sfs n n rows rows"
  unfolding rows_added_def by (intro exI [of _ "[]"]) simp

lemma rows_added_skip:
  assumes "rows_added env c sk sfs (i, k) n' rows rows'" "k0 \<le> k" "k \<le> k0 + 1"
  shows "rows_added env c sk (sf # sfs) (i, k0) n' rows rows'"
proof -
  obtain used added where "rows' = rows @ added" "subseq used sfs" "list_all2 (row_of_fact env c sk) used added"
    "fst n' = i + int (length added)" "k \<le> snd n'" "(fst n' - i) + (snd n' - k) \<le> int (length sfs)"
    using assms(1) by (auto simp: rows_added_def)
  then show ?thesis unfolding rows_added_def using assms(2,3) by (intro exI [of _ used] exI [of _ added]) auto
qed

lemma rows_added_row:
  assumes "rows_added env c sk sfs (i + 1, k) n' (rows @ [r]) rows'" "row_of_fact env c sk sf r"
  shows "rows_added env c sk (sf # sfs) (i, k) n' rows rows'"
proof -
  obtain used added where "rows' = (rows @ [r]) @ added" "subseq used sfs" "list_all2 (row_of_fact env c sk) used added"
    "fst n' = i + 1 + int (length added)" "k \<le> snd n'" "(fst n' - (i + 1)) + (snd n' - k) \<le> int (length sfs)"
    using assms(1) by (auto simp: rows_added_def)
  then show ?thesis unfolding rows_added_def using assms(2)
    by (intro exI [of _ "sf # used"] exI [of _ "r # added"]) auto
qed

lemma indexFacts_rows:
  "indexFacts env c sk sfs (i, k) (m, w) = (n', m', w') \<Longrightarrow> rows_added env c sk sfs (i, k) n' (ms_rows m) (ms_rows m')"
proof (induction sfs arbitrary: i k m w)
  case Nil
  then show ?case by (simp add: rows_added_none)
next
  case (Cons sf sfs)
  let ?x = "TrimSpace (sf_Fact sf)"
  obtain e1 w1 where e1: "ce_Err env w = (e1, w1)" by fastforce
  show ?case
  proof (cases "e1 = None \<and> ?x \<noteq> []")
    case False
    show ?thesis
    proof (cases e1)
      case (Some e)
      then show ?thesis using Cons.prems e1 by (simp add: rows_added_none)
    next
      case None
      then have "?x = []" using False by simp
      then have "indexFacts env c sk sfs (i, k) (m, w1) = (n', m', w')" using Cons.prems e1 None by simp
      from rows_added_skip [OF Cons.IH [OF this]] show ?thesis by simp
    qed
  next
    case True
    obtain b m2 w2 where d: "isDuplicate env c sk ?x (m, w1) = (b, m2, w2)" by (metis prod_cases3)
    have rows2: "ms_rows m2 = ms_rows m" using isDuplicate_keeps [OF d] .
    show ?thesis
    proof (cases b)
      case dup: True
      then have "indexFacts env c sk sfs (i, k + 1) (m2, w2) = (n', m', w')" using Cons.prems e1 True d by simp
      from rows_added_skip [OF Cons.IH [OF this]] show ?thesis by (simp add: rows2)
    next
      case nodup: False
      obtain e3 w3 where e3: "ce_Err env w2 = (e3, w3)" by fastforce
      obtain now w4 where n4: "ce_Now env w3 = (now, w4)" by fastforce
      let ?ns = "resolveNamespace env c ?x sk"
      obtain e5 m5 where i5: "IndexWithImportance now ?ns ?x (sf_Importance sf) m2 = (e5, m5)" by fastforce
      have rows5: "ms_rows m5 = ms_rows m2 @ (if e5 = None
        then [\<lparr>mr_namespace = ?ns, mr_content = ?x, mr_timestamp = FormatRFC3339 now,
               mr_importance = (if sf_Importance sf < 1 \<or> sf_Importance sf > 5 then 3 else sf_Importance sf)\<rparr>] else [])"
        using IndexWithImportance_rows [OF i5] TrimSpace_TrimSpace_Nil True by blast
      show ?thesis
      proof (cases e3)
        case (Some e)
        then show ?thesis using Cons.prems e1 True d nodup e3 rows_added_none [of env c sk "sf # sfs" "(i, k)" "ms_rows m"] rows2 by auto
      next
        case None
        note go = Cons.prems e1 True d nodup e3 None n4 i5
        show ?thesis
        proof (cases e5)
          case (Some e)
          then have "indexFacts env c sk sfs (i, k + 1) (m5, w4) = (n', m', w')" using go by simp
          from rows_added_skip [OF Cons.IH [OF this]] show ?thesis by (simp add: rows2 rows5 Some)
        next
          case None5: None
          define r where "r = \<lparr>mr_namespace = ?ns, mr_content = ?x, mr_timestamp = FormatRFC3339 now,
               mr_importance = (if sf_Importance sf < 1 \<or> sf_Importance sf > 5 then 3 else sf_Importance sf)\<rparr>"
          have "indexFacts env c sk sfs (i + 1, k) (m5, indexVectorFact env c sk ?x ?ns (sf_Importance sf) w4) = (n', m', w')"
            using go None5 by (simp add: Let_def)
          from rows_added_row [OF Cons.IH [OF this, unfolded rows5 rows2, unfolded None5 if_P [OF refl], folded r_def]] show ?thesis
            using True by (simp add: row_of_fact_def r_def)
        qed
      qed
    qed
  qed
qed

text \<open>Cleaning up deletes rows of its namespace only.\<close>

lemma CleanupNamespace_rows:
  assumes "CleanupNamespace now ns ttl m = (r, m')" "ns \<noteq> []"
  shows "\<exists>P. ms_rows m' = filter (\<lambda>x. mr_namespace x = ns \<longrightarrow> P x) (ms_rows m)"
proof -
  have "ms_rows m' = filter (\<lambda>x. mr_namespace x = ns \<longrightarrow> True) (ms_rows m) \<or>
    (\<exists>c. ms_rows m' = filter (\<lambda>x. \<not> ((ns = [] \<or> mr_namespace x = ns) \<and> text_less (mr_timestamp x) c)) (ms_rows m))"
    using assms(1) by (auto simp: CleanupNamespace_def Let_def split: if_splits option.splits prod.splits dest!: mem_call_rows)
  then show ?thesis
  proof (elim disjE exE)
    fix c
    assume "ms_rows m' = filter (\<lambda>x. \<not> ((ns = [] \<or> mr_namespace x = ns) \<and> text_less (mr_timestamp x) c)) (ms_rows m)"
    then show ?thesis using assms(2) by (intro exI [of _ "\<lambda>x. \<not> text_less (mr_timestamp x) c"]) (auto intro: filter_cong)
  qed (rule exI [of _ "\<lambda>x. True"])
qed

definition own_namespace :: "string \<Rightarrow> mem_row \<Rightarrow> bool" where
  "own_namespace sessionKey r \<longleftrightarrow> mr_namespace r \<in> {session_namespace sessionKey, ''global''}"

text \<open>\<open>pruned\<close>: rows of other namespaces than the session's and the global one stay.\<close>

definition pruned :: "string \<Rightarrow> mem_row list \<Rightarrow> mem_row list \<Rightarrow> bool" where
  "pruned sk rows rows' \<longleftrightarrow> (\<exists>P. rows' = filter (\<lambda>x. own_namespace sk x \<longrightarrow> P x) rows)"

lemma pruned_refl: "pruned sk rows rows"
  unfolding pruned_def by (intro exI [of _ "\<lambda>x. True"]) simp

lemma pruned_trans:
  assumes "pruned sk a b" "pruned sk b c"
  shows "pruned sk a c"
proof -
  obtain P Q where "b = filter (\<lambda>x. own_namespace sk x \<longrightarrow> P x) a" "c = filter (\<lambda>x. own_namespace sk x \<longrightarrow> Q x) b"
    using assms by (auto simp: pruned_def)
  then have "c = filter (\<lambda>x. own_namespace sk x \<longrightarrow> P x \<and> Q x) a" by (auto intro: filter_cong)
  then show ?thesis unfolding pruned_def by (intro exI [of _ "\<lambda>x. P x \<and> Q x"]) simp
qed

lemma cleanup_ns_pruned:
  assumes "ns = session_namespace sk \<or> ns = ''global''"
  shows "pruned sk (ms_rows m) (ms_rows (fst (cleanup_ns env ns ttl (m, w))))"
proof -
  obtain now w1 where n: "ce_Now env w = (now, w1)" by fastforce
  obtain r m1 where c: "CleanupNamespace now ns ttl m = (r, m1)" by fastforce
  have "ns \<noteq> []" using assms by (auto simp: session_namespace_def)
  then obtain P where "ms_rows m1 = filter (\<lambda>x. mr_namespace x = ns \<longrightarrow> P x) (ms_rows m)" using CleanupNamespace_rows [OF c] by blast
  then show ?thesis using assms n c unfolding pruned_def cleanup_ns_def
    by (intro exI [of _ "\<lambda>x. mr_namespace x = ns \<longrightarrow> P x"]) (auto simp: own_namespace_def intro!: filter_cong)
qed

lemma cleanup_pruned: "pruned sk (ms_rows m) (ms_rows (fst (cleanupNamespacesContext env c sk (m, w))))"
proof -
  obtain e1 w1 where e1: "ce_Err env w = (e1, w1)" by fastforce
  define mw where "mw = (if cs_ttl c \<noteq> [] then cleanup_ns env (session_namespace sk) (cs_ttl c) (m, w1) else (m, w1))"
  obtain e3 w3 where e3: "ce_Err env (snd mw) = (e3, w3)" by fastforce
  have 1: "pruned sk (ms_rows m) (ms_rows (fst mw))" by (simp add: mw_def cleanup_ns_pruned pruned_refl)
  have "pruned sk (ms_rows (fst mw)) (ms_rows (fst (cleanup_ns env ''global'' (cs_globalTTL c) (fst mw, w3))))"
    by (rule cleanup_ns_pruned) simp
  with 1 have 2: "pruned sk (ms_rows m) (ms_rows (fst (cleanup_ns env ''global'' (cs_globalTTL c) (fst mw, w3))))" by (rule pruned_trans)
  show ?thesis using 1 2 e1 e3 by (cases e1) (simp_all add: cleanupNamespacesContext_def Let_def mw_def [symmetric] pruned_refl)
qed

lemma cleanup_off: "cs_ttl c = [] \<Longrightarrow> cs_globalTTL c = [] \<Longrightarrow> fst (cleanupNamespacesContext env c sk (m, w)) = m"
  by (simp add: cleanupNamespacesContext_def Let_def split: prod.split option.split)

lemma row_of_fact_own: "row_of_fact env c sk sf r \<Longrightarrow> own_namespace sk r"
  by (simp add: row_of_fact_def own_namespace_def resolveNamespace_def)

lemma rows_of_facts_own: "list_all2 (row_of_fact env c sk) used added \<Longrightarrow> filter (\<lambda>r. \<not> own_namespace sk r) added = []"
  by (induction rule: list_all2_induct) (auto dest: row_of_fact_own)

lemma pruned_others: "pruned sk rows rows' \<Longrightarrow> filter (\<lambda>r. \<not> own_namespace sk r) rows' = filter (\<lambda>r. \<not> own_namespace sk r) rows"
  by (auto simp: pruned_def intro: filter_cong)

lemma extractFacts_answer:
  assumes "extractFacts env c sk reply w = (Inr facts, w1)"
  shows "\<exists>prompt response w2. cs_RunText c sk prompt [] w = (Inr response, w2) \<and> parseScoredFacts env response = Inr facts"
  using assms by (auto simp: extractFacts_def Let_def split: prod.splits sum.splits if_splits)

lemma consolidateInner_rows:
  assumes "consolidateInner env c sk reply (m, w) = ((n, e), m', w')"
  shows "\<exists>facts m3. (facts = [] \<or> (\<exists>prompt response w1. cs_RunText c sk prompt [] w = (Inr response, w1) \<and> parseScoredFacts env response = Inr facts)) \<and>
    (\<exists>k. rows_added env c sk facts (0, 0) (n, k) (ms_rows m) (ms_rows m3)) \<and> pruned sk (ms_rows m3) (ms_rows m') \<and>
    (e \<noteq> None \<or> cs_ttl c = [] \<and> cs_globalTTL c = [] \<longrightarrow> m' = m3)"
proof (cases "\<exists>facts w1 w2. extractFacts env c sk reply w = (Inr facts, w1) \<and> ce_Err env w1 = (None, w2) \<and> facts \<noteq> []")
  case False
  have "(n, m') = (0, m)"
    using assms False by (auto simp: consolidateInner_def split: prod.splits sum.splits option.splits if_splits)
  then show ?thesis using rows_added_none [of env c sk "[]" "(0, 0)" "ms_rows m"] pruned_refl [of sk "ms_rows m"]
    by (intro exI [of _ "[]"] exI [of _ m]) auto
next
  case True
  then obtain facts w1 w2 where x: "extractFacts env c sk reply w = (Inr facts, w1)" "ce_Err env w1 = (None, w2)" "facts \<noteq> []" by blast
  obtain i k m3 w3 where ix: "indexFacts env c sk facts (0, 0) (m, w2) = ((i, k), m3, w3)" by (metis surj_pair)
  have rows: "rows_added env c sk facts (0, 0) (i, k) (ms_rows m) (ms_rows m3)" using indexFacts_rows [OF ix] .
  obtain e4 w4 where e4: "ce_Err env w3 = (e4, w4)" by fastforce
  obtain e5 w5 where e5: "ce_Err env (saveVectors env c i w4) = (e5, w5)" by fastforce
  have "n = i \<and> (e \<noteq> None \<and> m' = m3 \<or> e = None \<and> m' = fst (cleanupNamespacesContext env c sk (m3, w5)))"
    using assms x ix e4 e5 by (cases e4; cases e5) (auto simp: consolidateInner_def dest: arg_cong [where f = fst])
  then show ?thesis using extractFacts_answer [OF x(1)] rows cleanup_pruned [of sk m3 env c w5] cleanup_off [of c env sk m3 w5] pruned_refl
    by (intro exI [of _ facts] exI [of _ m3]) auto
qed

text \<open>
  \<^bold>\<open>C26.\<close> A consolidation stays within its session: every row it adds is a trimmed, non-empty fact of the model's answer, in
  the order of the answer, in the session's namespace or, exactly when a pattern occurs in it, in the global one, with an importance from
  1 to 5; the returned count is the number of rows added; and rows of other sessions are untouched, in
  whatever step the context is cancelled and whichever call of the database fails.
\<close>

theorem consolidation_confined:
  assumes "consolidate env c sessionKey reply (m, w) = ((n, e), m', w')"
  shows "\<exists>facts used added.
    (facts = [] \<or> (\<exists>prompt response w1. cs_RunText c sessionKey prompt [] w = (Inr response, w1) \<and> parseScoredFacts env response = Inr facts)) \<and>
    subseq used facts \<and> n = int (length added) \<and>
    list_all2 (\<lambda>sf r. mr_content r = TrimSpace (sf_Fact sf) \<and> mr_content r \<noteq> [] \<and> mr_importance r \<in> {1..5} \<and>
      mr_namespace r = (if \<exists>p \<in> set (cs_patterns c). Contains (ce_ToLower env (mr_content r)) (ce_ToLower env p)
        then ''global'' else ''session:'' @ sessionKey)) used added \<and>
    pruned sessionKey (ms_rows m @ added) (ms_rows m') \<and>
    (e \<noteq> None \<or> cs_ttl c = [] \<and> cs_globalTTL c = [] \<longrightarrow> ms_rows m' = ms_rows m @ added) \<and>
    filter (\<lambda>r. \<not> own_namespace sessionKey r) (ms_rows m') = filter (\<lambda>r. \<not> own_namespace sessionKey r) (ms_rows m)"
proof -
  obtain e0 where "consolidateInner env c sessionKey reply (m, w) = ((n, e0), m', w')" and e0: "(e0 = None) = (e = None)"
    using assms by (auto simp: consolidate_def split: prod.splits option.splits)
  from consolidateInner_rows [OF this(1)] obtain facts m3 k where
    f: "facts = [] \<or> (\<exists>prompt response w1. cs_RunText c sessionKey prompt [] w = (Inr response, w1) \<and> parseScoredFacts env response = Inr facts)" and
    a: "rows_added env c sessionKey facts (0, 0) (n, k) (ms_rows m) (ms_rows m3)" and p: "pruned sessionKey (ms_rows m3) (ms_rows m')" and
    k: "e \<noteq> None \<or> cs_ttl c = [] \<and> cs_globalTTL c = [] \<longrightarrow> m' = m3" using e0 by blast
  from a obtain used added where u: "ms_rows m3 = ms_rows m @ added" "subseq used facts" "list_all2 (row_of_fact env c sessionKey) used added"
    "n = int (length added)" by (auto simp: rows_added_def)
  have rows: "list_all2 (\<lambda>sf r. mr_content r = TrimSpace (sf_Fact sf) \<and> mr_content r \<noteq> [] \<and> mr_importance r \<in> {1..5} \<and>
      mr_namespace r = (if \<exists>p \<in> set (cs_patterns c). Contains (ce_ToLower env (mr_content r)) (ce_ToLower env p)
        then ''global'' else ''session:'' @ sessionKey)) used added"
    by (rule list_all2_mono [OF u(3)]) (auto simp: row_of_fact_def resolveNamespace_def session_namespace_def list_ex_iff)
  have "filter (\<lambda>r. \<not> own_namespace sessionKey r) (ms_rows m') = filter (\<lambda>r. \<not> own_namespace sessionKey r) (ms_rows m)"
    using pruned_others [OF p] rows_of_facts_own [OF u(3)] u(1) by simp
  then show ?thesis using f u rows p k by (intro exI [of _ facts] exI [of _ used] exI [of _ added]) auto
qed

text \<open>Two facts, of which one is routed to the global namespace, next to a row of another session.\<close>

definition demo_env :: "unit consolidator_env" where
  "demo_env = \<lparr>ce_Err = (\<lambda>w. (None, w)), ce_Now = (\<lambda>w. (0, w)), ce_fts = \<lparr>fts_match = (\<lambda>q rows. []), fts_syntax_error = (\<lambda>e. False)\<rparr>,
     ce_scored = (\<lambda>s. Inr [('' team rule '', 9), ([], 1), (''tea'', 2)]), ce_plain = (\<lambda>s. Inl EOF), ce_ToLower = (\<lambda>s. s),
     ce_float = \<lparr>f32 = (\<lambda>x. x), f64 = (\<lambda>x. x), f_sqrt = (\<lambda>x. x), f_exp = (\<lambda>x. x), f_decayLambda = 0\<rparr>\<rparr>"

definition demo_consolidator :: "unit Consolidator" where
  "demo_consolidator = (newConsolidator (ce_float demo_env) (\<lambda>sk p o' w. (Inr ''[..]'', w)) None None)\<lparr>cs_patterns := [''rule''], cs_prompt := ''reply''\<rparr>"

definition demo_store :: MemoryStore where
  "demo_store = \<lparr>ms_rows = [\<lparr>mr_namespace = ''session:9'', mr_content = ''x'', mr_timestamp = [], mr_importance = 3\<rparr>], ms_script = []\<rparr>"

theorem consolidation_confined_witness:
  "\<exists>m'. consolidate demo_env demo_consolidator ''5'' ''r'' (demo_store, ()) = ((2, None), m', ()) \<and>
     map mr_namespace (ms_rows m') = [''session:9'', ''global'', ''session:5''] \<and>
     filter (\<lambda>r. \<not> own_namespace ''5'' r) (ms_rows m') = ms_rows demo_store"
proof -
  let ?r = "consolidate demo_env demo_consolidator ''5'' ''r'' (demo_store, ())"
  have a: "fst ?r = (2, None)" by code_simp
  have b: "map mr_namespace (ms_rows (fst (snd ?r))) = [''session:9'', ''global'', ''session:5'']" by code_simp
  have c: "?r = ((2, None), fst (snd ?r), ())" using a by (metis prod.collapse unit.exhaust)
  have d: "filter (\<lambda>r. \<not> own_namespace ''5'' r) (ms_rows demo_store) = ms_rows demo_store" by code_simp
  from consolidation_confined [OF c] have e: "filter (\<lambda>r. \<not> own_namespace ''5'' r) (ms_rows (fst (snd ?r))) = ms_rows demo_store"
    unfolding d by blast
  show ?thesis by (rule exI [of _ "fst (snd ?r)"], intro conjI) (rule c b e)+
qed

end
