(* ===== verification/Reporter.thy ===== *)
theory Reporter
  imports Model_Audit
begin

text \<open>
  The text of e-mails, \<^verbatim>\<open>internal/reporter/reporter.go\<close>, and \<^verbatim>\<open>buildEmailContent\<close> of \<^verbatim>\<open>internal/app/tool_email.go\<close>: the
  template around a body, numbered sources, the plain text of an HTML text, and the file that takes a
  report when mail is unavailable. Reading the template files is not modelled: a template manager is its two texts.
  \<^verbatim>\<open>strings.ToLower\<close> serves for the comparison with ASCII text, as in \<open>GoPrelude\<close>.
\<close>

section \<open>HTML\<close>

definition escape_char :: "char \<Rightarrow> string" where
  "escape_char c =
     (if c = CHR ''&'' then ''&amp;'' else if c = CHR 0x27 then ''&#39;'' else if c = CHR ''<'' then ''&lt;''
      else if c = CHR ''>'' then ''&gt;'' else if c = CHR 0x22 then ''&#34;'' else [c])"

definition EscapeString :: "string \<Rightarrow> string" where
  "EscapeString s = concat (map escape_char s)"

definition htmlTags :: "string list" where
  "htmlTags = [''<html'', ''<body>'', ''<h1'', ''<h2'', ''<h3'', ''<p>'', ''<div'', ''<ul>'', ''<ol>'', ''<li>'', ''<strong>'', ''<em>'', ''<span'']"

definition looksLikeHTML :: "string \<Rightarrow> bool" where
  "looksLikeHTML body = list_ex (Contains (ToLower body)) htmlTags"

definition nl :: string where "nl = [CHR 0x0A]"

text \<open>The match of \<^verbatim>\<open><[^>]+>\<close> at the start of a text: its length.\<close>

fun tag_at :: "string \<Rightarrow> nat option" where
  "tag_at (c # cs) =
     (let body = takeWhile (\<lambda>x. x \<noteq> CHR ''>'') cs in
      if c = CHR ''<'' \<and> body \<noteq> [] \<and> length body < length cs then Some (length body + 2) else None)"
| "tag_at [] = None"

function strip_tags :: "string \<Rightarrow> string" where
  "strip_tags [] = []"
| "strip_tags (c # cs) = (case tag_at (c # cs) of None \<Rightarrow> c # strip_tags cs | Some n \<Rightarrow> strip_tags (drop (n - 1) cs))"
  by pat_completeness auto
termination
  by (relation "measure length") auto

definition blockTags :: "string list" where
  "blockTags = [''</p>'', ''</div>'', ''</h1>'', ''</h2>'', ''</h3>'', ''<br>'', ''<br/>'', ''<br />'']"

lemma ReplaceAll_shorter: "length new \<le> length old \<Longrightarrow> length (ReplaceAll s old new) \<le> length s"
proof (induction s old new rule: ReplaceAll.induct)
  case (2 c cs old new)
  show ?case
  proof (cases "old \<noteq> [] \<and> HasPrefix (c # cs) old")
    case True
    then have "length old \<le> Suc (length cs)" by (metis HasPrefix_def length_Cons length_take min.cobounded1)
    then show ?thesis using 2(1) [OF True] 2(3) True by simp
  next
    case False
    then have "ReplaceAll (c # cs) old new = c # ReplaceAll cs old new" by auto
    then show ?thesis using 2(2) [OF False] 2(3) by simp
  qed
qed simp

lemma ReplaceAll_shrinks:
  "Contains s old \<Longrightarrow> old \<noteq> [] \<Longrightarrow> length new < length old \<Longrightarrow> length (ReplaceAll s old new) < length s"
proof (induction s old new rule: ReplaceAll.induct)
  case (2 c cs old new)
  show ?case
  proof (cases "HasPrefix (c # cs) old")
    case True
    then have "length old \<le> Suc (length cs)" by (metis HasPrefix_def length_Cons length_take min.cobounded1)
    then show ?thesis using ReplaceAll_shorter [of new old "drop (length old - 1) cs"] 2(4,5) True by simp
  next
    case False
    then show ?thesis using 2 by simp
  qed
qed simp

text \<open>The loop that folds runs of blank lines ends because each round makes the text shorter.\<close>

function fold_blank :: "string \<Rightarrow> string" where
  "fold_blank s = (if Contains s (nl @ nl @ nl) then fold_blank (ReplaceAll s (nl @ nl @ nl) (nl @ nl)) else s)"
  by pat_completeness auto
termination
  by (relation "measure length") (auto simp: nl_def intro: ReplaceAll_shrinks)

declare fold_blank.simps [simp del]

definition StripHTML :: "string \<Rightarrow> string" where
  "StripHTML s = TrimSpace (fold_blank (strip_tags (fold (\<lambda>tag t. ReplaceAll t tag nl) blockTags s)))"

section \<open>Sources\<close>

text \<open>
  A match of \<^verbatim>\<open>\[Sources:\s*([^\]]+)\]\<close> at the start: the text up to the bracket and the length of the match. The white
  space that the expression skips is part of the text here; it is trimmed with the first source.
\<close>

definition source_at :: "string \<Rightarrow> (string \<times> nat) option" where
  "source_at s =
     (if HasPrefix s ''[Sources:'' then
        (let rest = drop 9 s; raw = takeWhile (\<lambda>c. c \<noteq> CHR '']'') rest in
         if raw \<noteq> [] \<and> length raw < length rest then Some (raw, length raw + 10) else None)
      else None)"

fun source_position :: "string \<Rightarrow> string list \<Rightarrow> nat option" where
  "source_position u [] = None"
| "source_position u (x # xs) = (if x = u then Some 0 else map_option Suc (source_position u xs))"

fun sourceIndices :: "string list \<Rightarrow> string list \<Rightarrow> string list \<times> string list" where
  "sourceIndices [] urls = ([], urls)"
| "sourceIndices (part # parts) urls =
     (let u = TrimSpace part in
      if u = [] then sourceIndices parts urls
      else
        (case source_position u urls of
           Some i \<Rightarrow> (case sourceIndices parts urls of (ixs, urls1) \<Rightarrow> (Itoa (int i + 1) # ixs, urls1))
         | None \<Rightarrow> (case sourceIndices parts (urls @ [u]) of (ixs, urls1) \<Rightarrow> (Itoa (int (length urls) + 1) # ixs, urls1))))"

function rewriteInlineSources :: "string \<Rightarrow> string list \<Rightarrow> string \<times> string list" where
  "rewriteInlineSources [] urls = ([], urls)"
| "rewriteInlineSources (c # cs) urls =
     (case source_at (c # cs) of
        None \<Rightarrow> (case rewriteInlineSources cs urls of (out, urls1) \<Rightarrow> (c # out, urls1))
      | Some (raw, n) \<Rightarrow>
          (case sourceIndices (SplitC (CHR '','') raw) urls of (ixs, urls1) \<Rightarrow>
           case rewriteInlineSources (drop (n - 1) cs) urls1 of (out, urls2) \<Rightarrow>
             ((if ixs = [] then take n (c # cs) else ''[Sources: '' @ Join ixs '', '' @ '']'') @ out, urls2)))"
  by pat_completeness auto
termination
  by (relation "measure (\<lambda>(s, urls). length s)") auto

definition TrimRight_nl :: "string \<Rightarrow> string" where
  "TrimRight_nl s = rev (dropWhile (\<lambda>c. c = CHR 0x0A) (rev s))"

definition buildSourceAppendix :: "string list \<Rightarrow> bool \<Rightarrow> string" where
  "buildSourceAppendix urls isHTML =
     (if isHTML then
        ''<h3>Sources</h3><ol>'' @
        concat (map (\<lambda>u. ''<li><a href='' @ [CHR 0x22] @ EscapeString u @ [CHR 0x22] @ ''>'' @ EscapeString u @ ''</a></li>'') urls) @ ''</ol>''
      else
        TrimRight_nl (nl @ nl @ ''Sources'' @ nl @
          concat (map (\<lambda>(i, u). Itoa (int i + 1) @ ''. '' @ u @ nl) (zip [0..<length urls] urls))))"

definition CompactSources :: "string \<Rightarrow> string" where
  "CompactSources body =
     (case rewriteInlineSources body [] of (rewritten, urls) \<Rightarrow>
        if urls = [] then rewritten else rewritten @ buildSourceAppendix urls (looksLikeHTML body))"

section \<open>The template\<close>

record TemplateManager =
  tm_css :: string
  tm_html :: string

fun index_of :: "string \<Rightarrow> string \<Rightarrow> nat option" where
  "index_of [] sub = (if sub = [] then Some 0 else None)"
| "index_of (c # cs) sub = (if HasPrefix (c # cs) sub then Some 0 else map_option Suc (index_of cs sub))"

definition Replace1 :: "string \<Rightarrow> string \<Rightarrow> string \<Rightarrow> string" where
  "Replace1 s old new = (case index_of s old of None \<Rightarrow> s | Some i \<Rightarrow> take i s @ new @ drop (i + length old) s)"

text \<open>
  The position is looked up in the lower-case text and used to slice the text; \<open>None\<close> is the panic of a slice out of range.
  \<open>lower\<close> is \<^verbatim>\<open>strings.ToLower\<close> over all of Unicode, which can change the length.
\<close>

definition Wrap :: "(string \<Rightarrow> string) \<Rightarrow> TemplateManager \<Rightarrow> string \<Rightarrow> string option" where
  "Wrap lower m body0 =
     (if \<not> looksLikeHTML body0 then Some body0
      else
        (let body = CompactSources body0; lowerBody = lower body; style = ''<style>'' @ tm_css m @ ''</style>'' in
         if \<not> Contains lowerBody ''<html'' then
           Some (Replace1 (Replace1 (tm_html m) ''{{.Style}}'' (tm_css m)) ''{{.Body}}'' body)
         else
           (case index_of lowerBody ''</head>'' of
              Some headIdx \<Rightarrow> if headIdx \<le> length body then Some (take headIdx body @ style @ drop headIdx body) else None
            | None \<Rightarrow> Some (style @ body))))"

record EmailContent =
  ec_Subject :: string
  ec_Plain :: string
  ec_HTML :: string

definition buildEmailContent :: "(string \<Rightarrow> string) \<Rightarrow> TemplateManager option \<Rightarrow> string \<Rightarrow> string \<Rightarrow> EmailContent option" where
  "buildEmailContent lower tmgr subject body =
     (case tmgr of
        None \<Rightarrow> Some \<lparr>ec_Subject = subject, ec_Plain = body, ec_HTML = []\<rparr>
      | Some m \<Rightarrow>
          (case Wrap lower m body of
             None \<Rightarrow> None
           | Some wrapped \<Rightarrow>
               if wrapped = body then Some \<lparr>ec_Subject = subject, ec_Plain = body, ec_HTML = []\<rparr>
               else Some \<lparr>ec_Subject = subject, ec_Plain = StripHTML wrapped, ec_HTML = wrapped\<rparr>))"

section \<open>The notification file\<close>

text \<open>\<open>nf_script\<close> gives the outcomes of the calls on the file system, in order: making the directory, opening, writing.\<close>

record notif_file =
  nf_text :: "string option"
  nf_script :: "go_error option list"

definition nf_call :: "notif_file \<Rightarrow> go_error option \<times> notif_file" where
  "nf_call f = (case nf_script f of [] \<Rightarrow> (None, f) | r # rest \<Rightarrow> (r, f\<lparr>nf_script := rest\<rparr>))"

definition nf_append :: "string \<Rightarrow> notif_file \<Rightarrow> go_error option \<times> notif_file" where
  "nf_append s f =
     (case nf_call f of
        (Some e, f1) \<Rightarrow> (Some e, f1)
      | (None, f1) \<Rightarrow> (None, f1\<lparr>nf_text := Some ((case nf_text f1 of None \<Rightarrow> [] | Some t \<Rightarrow> t) @ s)\<rparr>))"

definition clean_reason :: "string \<Rightarrow> string" where
  "clean_reason reason =
     (if Contains (ToLower reason) ''invalid_grant'' \<or> Contains (ToLower reason) ''token expired''
      then ''AUTH EXPIRED. Run: gobot reauth'' else reason)"

definition FallbackNotify :: "string \<Rightarrow> string \<Rightarrow> string \<Rightarrow> string \<Rightarrow> string \<Rightarrow> string \<Rightarrow> notif_file \<Rightarrow> string \<times> notif_file" where
  "FallbackNotify storageRoot timestamp subject body recipient reason f =
     (let critical = (\<lambda>e. ''CRITICAL: Fallback notification failed. Original: '' @ reason @ ''. Disk error: '' @ error_msg e);
          entry = nl @ ''---'' @ nl @ ''### ['' @ timestamp @ ''] '' @ subject @ nl @ ''**To:** '' @ recipient @ nl @
            ''**Fallback Reason:** '' @ clean_reason reason @ nl @ nl @ body @ nl in
      case nf_call f of
        (Some e, f1) \<Rightarrow> (critical e, f1)
      | (None, f1) \<Rightarrow>
          (let isNew = (nf_text f1 = None) in
           case nf_append [] f1 of
             (Some e, f2) \<Rightarrow> (critical e, f2)
           | (None, f2) \<Rightarrow>
               (case (if isNew then nf_append (''# Strategic Notifications (Fallback)'' @ nl) f2 else (None, f2)) of
                  (Some e, f3) \<Rightarrow> (critical e, f3)
                | (None, f3) \<Rightarrow>
                    (case nf_append entry f3 of
                       (Some e, f4) \<Rightarrow> (critical e, f4)
                     | (None, f4) \<Rightarrow>
                         (''Gmail unavailable ('' @ clean_reason reason @ ''). Report saved to: '' @ storageRoot @ ''/workspace/NOTIFICATIONS.md'', f4)))))"

section \<open>Laws\<close>

text \<open>Escaped text has no character that opens or closes a tag or an attribute.\<close>

lemma EscapeString_inert: "c \<in> set (EscapeString s) \<Longrightarrow> c \<notin> {CHR ''<'', CHR ''>'', CHR 0x22, CHR 0x27}"
  by (auto simp: EscapeString_def escape_char_def split: if_splits)

text \<open>A text without a tag: no position starts a match.\<close>

definition tag_free :: "string \<Rightarrow> bool" where
  "tag_free s \<longleftrightarrow> (\<forall>i. tag_at (drop i s) = None)"

lemma tag_at_Cons: "tag_at (c # cs) = None \<longleftrightarrow> c \<noteq> CHR ''<'' \<or> cs = [] \<or> hd cs = CHR ''>'' \<or> CHR ''>'' \<notin> set cs"
proof -
  have "length (takeWhile (\<lambda>x. x \<noteq> CHR ''>'') cs) < length cs \<longleftrightarrow> CHR ''>'' \<in> set cs"
    by (induction cs) auto
  moreover have "takeWhile (\<lambda>x. x \<noteq> CHR ''>'') cs = [] \<longleftrightarrow> cs = [] \<or> hd cs = CHR ''>''"
    by (cases cs) auto
  ultimately show ?thesis by (auto simp: Let_def)
qed

lemma strip_tags_subset: "set (strip_tags s) \<subseteq> set s"
proof (induction s rule: strip_tags.induct)
  case (2 c cs)
  then show ?case by (auto split: option.splits dest: in_set_dropD)
qed simp

text \<open>Removing the tags once leaves none: what follows an angle bracket that stays is kept as well.\<close>

lemma strip_tags_free: "tag_free (strip_tags s)"
proof (induction s rule: strip_tags.induct)
  case 1
  show ?case by (simp add: tag_free_def)
next
  case (2 c cs)
  show ?case
  proof (cases "tag_at (c # cs)")
    case (Some n)
    then show ?thesis using 2(2) by simp
  next
    case None
    have keep: "tag_at (c # strip_tags cs) = None"
    proof -
      consider "c \<noteq> CHR ''<''" | "cs = []" | x where "cs = CHR ''>'' # x" | "CHR ''>'' \<notin> set cs"
        using None unfolding tag_at_Cons by (cases cs) auto
      then show ?thesis
      proof cases
        case (3 x)
        then have "strip_tags cs = CHR ''>'' # strip_tags x" by (simp add: Let_def)
        then show ?thesis by (simp add: tag_at_Cons)
      next
        case 4
        then have "CHR ''>'' \<notin> set (strip_tags cs)" using strip_tags_subset [of cs] by blast
        then show ?thesis unfolding tag_at_Cons by simp
      qed (simp_all add: tag_at_Cons)
    qed
    have "strip_tags (c # cs) = c # strip_tags cs" using None by simp
    moreover have "tag_at (drop i (c # strip_tags cs)) = None" for i
      using keep 2(1) [OF None] by (cases i) (simp_all add: tag_free_def)
    ultimately show ?thesis by (simp add: tag_free_def)
  qed
qed

lemma fold_blank_done: "\<not> Contains (fold_blank s) (nl @ nl @ nl)"
  by (induction s rule: fold_blank.induct) (subst fold_blank.simps, simp)

text \<open>The numbers of a citation lead to its sources: a source keeps its place in the list, which has no duplicates.\<close>

lemma position_Some: "source_position u urls = Some i \<Longrightarrow> i < length urls \<and> urls ! i = u"
  by (induction urls arbitrary: i) (auto split: if_splits)

lemma position_None: "source_position u urls = None \<longleftrightarrow> u \<notin> set urls"
  by (induction urls) auto

lemma sourceIndices_decode:
  "sourceIndices parts urls = (ixs, urls') \<Longrightarrow>
   \<exists>more ns. urls' = urls @ more \<and> ixs = map (\<lambda>n. Itoa (int n + 1)) ns \<and>
     map (\<lambda>n. urls' ! n) ns = filter (\<lambda>u. u \<noteq> []) (map TrimSpace parts) \<and> list_all (\<lambda>n. n < length urls') ns \<and>
     (distinct urls \<longrightarrow> distinct urls')"
proof (induction parts arbitrary: urls ixs)
  case Nil
  then show ?case by (intro exI [of _ "[]"]) auto
next
  case (Cons part parts)
  let ?u = "TrimSpace part"
  consider "?u = []" | i where "?u \<noteq> []" "source_position ?u urls = Some i" | "?u \<noteq> []" "source_position ?u urls = None"
    by (cases "source_position ?u urls") auto
  then show ?case
  proof cases
    case 1
    then have "sourceIndices parts urls = (ixs, urls')" using Cons.prems by simp
    from Cons.IH [OF this] show ?thesis using 1 by simp
  next
    case (2 i)
    obtain ixs1 where r: "sourceIndices parts urls = (ixs1, urls')" "ixs = Itoa (int i + 1) # ixs1"
      using Cons.prems 2 by (auto simp: Let_def split: prod.splits)
    from Cons.IH [OF r(1)] obtain more ns where h: "urls' = urls @ more" "ixs1 = map (\<lambda>n. Itoa (int n + 1)) ns"
      "map (\<lambda>n. urls' ! n) ns = filter (\<lambda>u. u \<noteq> []) (map TrimSpace parts)" "list_all (\<lambda>n. n < length urls') ns"
      "distinct urls \<longrightarrow> distinct urls'" by blast
    show ?thesis using h r(2) 2 position_Some [OF 2(2)]
      by (intro exI [of _ more] exI [of _ "i # ns"]) (auto simp: nth_append)
  next
    case 3
    obtain ixs1 where r: "sourceIndices parts (urls @ [?u]) = (ixs1, urls')" "ixs = Itoa (int (length urls) + 1) # ixs1"
      using Cons.prems 3 by (auto simp: Let_def split: prod.splits)
    from Cons.IH [OF r(1)] obtain more ns where h: "urls' = (urls @ [?u]) @ more" "ixs1 = map (\<lambda>n. Itoa (int n + 1)) ns"
      "map (\<lambda>n. urls' ! n) ns = filter (\<lambda>u. u \<noteq> []) (map TrimSpace parts)" "list_all (\<lambda>n. n < length urls') ns"
      "distinct (urls @ [?u]) \<longrightarrow> distinct urls'" by blast
    have "?u \<notin> set urls" using 3(2) position_None by metis
    then show ?thesis using h r(2) 3
      by (intro exI [of _ "?u # more"] exI [of _ "length urls # ns"]) (auto simp: nth_append)
  qed
qed

text \<open>
  The style is put at a position of the lower-case text. Lower case can change the length of a text: after a Kelvin sign the
  style of a complete page lands before the end of the head, here in the middle of a character.
\<close>

lemma wrap_misplaces_style:
  "Wrap ToLower \<lparr>tm_css = ''c'', tm_html = []\<rparr> (''<html><head>'' @ [CHR 0xE2, CHR 0x84, CHR 0xAA] @ ''</head>'') =
     Some (''<html><head>'' @ [CHR 0xE2] @ ''<style>c</style>'' @ [CHR 0x84, CHR 0xAA] @ ''</head>'')"
  by code_simp

text \<open>The letter A with a stroke has two bytes and its lower case three, so a page with eight of them before the end of the head panics.\<close>

definition lower_stroke :: "string \<Rightarrow> string" where
  "lower_stroke s = ReplaceAll (ToLower s) [CHR 0xC8, CHR 0xBA] [CHR 0xE2, CHR 0xB1, CHR 0xA5]"

lemma wrap_panics:
  "Wrap lower_stroke \<lparr>tm_css = ''c'', tm_html = []\<rparr>
     (''<html>'' @ concat (replicate 8 [CHR 0xC8, CHR 0xBA]) @ ''</head>'') = None"
  by code_simp

end
