(* ===== verification/Cron_Dispatch.thy ===== *)
theory Cron_Dispatch
  imports Cron_Scheduler Bot Subagents Reporter
begin

text \<open>
  What a due job does, \<^verbatim>\<open>internal/app/cron.go\<close>, \<^verbatim>\<open>cron_alert.go\<close>, \<^verbatim>\<open>cron_specialist.go\<close>, \<^verbatim>\<open>cron_telegram.go\<close>,
  \<^verbatim>\<open>cron_email.go\<close>, \<^verbatim>\<open>cron_briefing.go\<close> and \<^verbatim>\<open>cron_provenance.go\<close>: routing, the turn of the agent, the delivery of
  its answer, the checks of the morning briefing and its retries. The session manager, the bot's \<^verbatim>\<open>Send\<close>, the mail
  service, the schedule of the day and the indexing of the workspace are fields of the environment. The
  state keeps a record of every attempt to deliver something and whether it succeeded, and of the retries
  that were started in the background. Hooks for tests and log output are left out.
\<close>

section \<open>The dispatcher\<close>

definition chanTelegram :: string where "chanTelegram = ''telegram''"
definition chanEmail :: string where "chanEmail = ''email''"
definition morningBriefingJobID :: string where "morningBriefingJobID = ''morning_briefing''"

record log_file =
  lo_size :: "nat option"
  lo_seek :: bool
  lo_read :: "nat \<Rightarrow> string result"

record 'w cron_files =
  cf_ReadDir :: "string \<Rightarrow> 'w \<Rightarrow> (string \<times> bool) list result"
  cf_Glob :: "string \<Rightarrow> 'w \<Rightarrow> string list option"
  cf_ModTime :: "string \<Rightarrow> 'w \<Rightarrow> int option"
  cf_sort :: "(string \<Rightarrow> string \<Rightarrow> bool) \<Rightarrow> string list \<Rightarrow> string list"
  cf_ReadFile :: "string \<Rightarrow> 'w \<Rightarrow> string result"
  cf_OpenLog :: "string \<Rightarrow> 'w \<Rightarrow> log_file result"

text \<open>\<open>cd_Index\<close> is absent when the vector store, the embedder or the workspace is missing. A runner is its \<^verbatim>\<open>RunText\<close>.\<close>

record ('w, 'p) CronDispatcher =
  cd_resolver :: "(string \<Rightarrow> 'p result) option"
  cd_runnerFactory :: "'p \<Rightarrow> string \<Rightarrow> string \<Rightarrow> string \<Rightarrow> string \<Rightarrow> 'w \<Rightarrow> string result \<times> 'w"
  cd_Manager :: "string \<Rightarrow> string \<Rightarrow> string \<Rightarrow> 'w \<Rightarrow> string result \<times> 'w"
  cd_Send :: "OutboundMessage \<Rightarrow> 'w \<Rightarrow> go_error option \<times> 'w"
  cd_NewService :: "'w \<Rightarrow> (string \<Rightarrow> EmailContent \<Rightarrow> 'w \<Rightarrow> go_error option \<times> 'w) result \<times> 'w"
  cd_Content :: "string \<Rightarrow> string \<Rightarrow> EmailContent"
  cd_Schedule :: "'w \<Rightarrow> string \<times> 'w"
  cd_Index :: "('w \<Rightarrow> go_error option \<times> 'w) option"
  cd_Today :: "'w \<Rightarrow> (string \<times> int \<times> int) \<times> 'w"
  cd_Timestamp :: "'w \<Rightarrow> string \<times> 'w"
  cd_Wait :: "int \<Rightarrow> 'w \<Rightarrow> bool \<times> 'w"
  cd_Shutdown :: "'w \<Rightarrow> bool \<times> 'w"
  cd_files :: "'w cron_files"
  cd_storageRoot :: string
  cd_userEmail :: string
  cd_cfg :: spawn_config

datatype delivery = ToChat OutboundMessage | ToMail string EmailContent

record 'w cron_state =
  cs_world :: 'w
  cs_attempts :: "(delivery \<times> bool) list"
  cs_retries :: "(Payload \<times> string) list"

definition attempt :: "delivery \<Rightarrow> go_error option \<Rightarrow> 'w \<Rightarrow> 'w cron_state \<Rightarrow> 'w cron_state" where
  "attempt d err w s = s\<lparr>cs_world := w, cs_attempts := cs_attempts s @ [(d, err = None)]\<rparr>"

section \<open>Session keys and placeholders\<close>

definition parseSessionKey :: "string \<Rightarrow> (int \<times> int) result" where
  "parseSessionKey sessionKey =
     (if \<not> IsTelegramSession sessionKey then Inl (ErrorNew (''unsupported channel in session key: '' @ sessionKey))
      else
        (let parts = SplitC (CHR '':'') sessionKey in
         if length parts < 2 \<or> length parts > 3 then Inl (ErrorNew (''invalid session key format: '' @ sessionKey))
         else
           (case ParseInt (parts ! 1) of
              Inl e \<Rightarrow> Inl (wrap_err ''invalid chat ID'' e)
            | Inr chatID \<Rightarrow>
                if length parts = 3 then
                  (case ParseInt (parts ! 2) of Inl e \<Rightarrow> Inl (wrap_err ''invalid thread ID'' e) | Inr threadID \<Rightarrow> Inr (chatID, threadID))
                else Inr (chatID, 0))))"

definition resolvePlaceholders :: "('w, 'p) CronDispatcher \<Rightarrow> string \<Rightarrow> 'w cron_state \<Rightarrow> string \<times> 'w cron_state" where
  "resolvePlaceholders cd text s =
     (case cd_Today cd (cs_world s) of ((month, day, year), w) \<Rightarrow>
        (ReplaceAll text ''{{DATE}}'' (month @ '' '' @ Itoa day @ '', '' @ Itoa year), s\<lparr>cs_world := w\<rparr>))"

section \<open>Delivery\<close>

definition plain_message :: "int \<Rightarrow> int \<Rightarrow> string \<Rightarrow> OutboundMessage" where
  "plain_message chatID threadID text = \<lparr>om_ChatID = chatID, om_ThreadID = threadID, om_ReplyToID = 0, om_Text = text\<rparr>"

definition send_chat :: "('w, 'p) CronDispatcher \<Rightarrow> OutboundMessage \<Rightarrow> 'w cron_state \<Rightarrow> go_error option \<times> 'w cron_state" where
  "send_chat cd msg s = (case cd_Send cd msg (cs_world s) of (err, w) \<Rightarrow> (err, attempt (ToChat msg) err w s))"

definition sendTelegramResponse ::
  "('w, 'p) CronDispatcher \<Rightarrow> string \<Rightarrow> string \<Rightarrow> 'w cron_state \<Rightarrow> go_error option \<times> 'w cron_state" where
  "sendTelegramResponse cd to response s =
     (case parseSessionKey to of
        Inl e \<Rightarrow> (Some (wrap_err ''parse cron telegram target'' e), s)
      | Inr (chatID, threadID) \<Rightarrow>
          (case send_chat cd (plain_message chatID threadID response) s of
             (Some e, s1) \<Rightarrow> (Some (wrap_err ''send cron telegram response'' e), s1) | (None, s1) \<Rightarrow> (None, s1)))"

definition newEmailService ::
  "('w, 'p) CronDispatcher \<Rightarrow> 'w cron_state \<Rightarrow> (string \<Rightarrow> EmailContent \<Rightarrow> 'w \<Rightarrow> go_error option \<times> 'w) result \<times> 'w cron_state" where
  "newEmailService cd s =
     (case cd_NewService cd (cs_world s) of
        (Inl e, w) \<Rightarrow> (Inl (wrap_err ''gmail service'' e), s\<lparr>cs_world := w\<rparr>) | (Inr svc, w) \<Rightarrow> (Inr svc, s\<lparr>cs_world := w\<rparr>))"

definition send_mail ::
  "(string \<Rightarrow> EmailContent \<Rightarrow> 'w \<Rightarrow> go_error option \<times> 'w) \<Rightarrow> string \<Rightarrow> EmailContent \<Rightarrow> 'w cron_state \<Rightarrow> go_error option \<times> 'w cron_state" where
  "send_mail svc recipient content s = (case svc recipient content (cs_world s) of (err, w) \<Rightarrow> (err, attempt (ToMail recipient content) err w s))"

definition resolveEmailSubject :: "('w, 'p) CronDispatcher \<Rightarrow> Payload \<Rightarrow> 'w cron_state \<Rightarrow> string \<times> 'w cron_state" where
  "resolveEmailSubject cd p s =
     (if pl_Subject p \<noteq> [] then resolvePlaceholders cd (pl_Subject p) s else (''Gobot Strategic Briefing'', s))"

definition warning_sign :: string where
  "warning_sign = [CHR 0xE2, CHR 0x9A, CHR 0xA0, CHR 0xEF, CHR 0xB8, CHR 0x8F]"

definition resolveFailureEmailSubject :: "('w, 'p) CronDispatcher \<Rightarrow> Payload \<Rightarrow> 'w cron_state \<Rightarrow> string \<times> 'w cron_state" where
  "resolveFailureEmailSubject cd p s =
     (case resolveEmailSubject cd p s of (subject, s1) \<Rightarrow> (warning_sign @ '' Failed: '' @ subject, s1))"

definition sendEmailResponse ::
  "('w, 'p) CronDispatcher \<Rightarrow> Payload \<Rightarrow> string \<Rightarrow> string \<Rightarrow> 'w cron_state \<Rightarrow> go_error option \<times> 'w cron_state" where
  "sendEmailResponse cd p recipient response s =
     (case newEmailService cd s of
        (Inl e, s1) \<Rightarrow> (Some (wrap_err ''initialize cron email delivery'' e), s1)
      | (Inr svc, s1) \<Rightarrow>
          (case resolveEmailSubject cd p s1 of (subject, s2) \<Rightarrow>
           case send_mail svc recipient (cd_Content cd subject response) s2 of
             (Some e, s3) \<Rightarrow> (Some (wrap_err ''send cron email response'' e), s3) | (None, s3) \<Rightarrow> (None, s3)))"

definition sendFailureEmail :: "('w, 'p) CronDispatcher \<Rightarrow> Payload \<Rightarrow> string \<Rightarrow> string \<Rightarrow> 'w cron_state \<Rightarrow> 'w cron_state" where
  "sendFailureEmail cd p recipient body s =
     (case newEmailService cd s of
        (Inl e, s1) \<Rightarrow> s1
      | (Inr svc, s1) \<Rightarrow>
          (case resolveFailureEmailSubject cd p s1 of (subject, s2) \<Rightarrow> snd (send_mail svc recipient (cd_Content cd subject body) s2)))"

definition buildCronFailureEmailBody :: "string \<Rightarrow> Payload \<Rightarrow> string \<Rightarrow> go_error \<Rightarrow> string" where
  "buildCronFailureEmailBody now p sessionKey dispatchErr =
     ''<h1>Cron Briefing Status: Partial/Unavailable</h1>'' @
     ''<p>I could not retrieve all required live information for this run.</p>'' @
     ''<ul>'' @
     ''<li><strong>Job ID:</strong> '' @ EscapeString (pl_ID p) @ ''</li>'' @
     ''<li><strong>Session:</strong> '' @ EscapeString sessionKey @ ''</li>'' @
     ''<li><strong>Timestamp:</strong> '' @ EscapeString now @ ''</li>'' @
     ''<li><strong>Error Hint:</strong> '' @ EscapeString (error_msg dispatchErr) @ ''</li>'' @
     ''</ul>'' @
     ''<p>This email was sent intentionally so you still receive a status update even when live research fails.</p>''"

section \<open>The provenance of a briefing\<close>

text \<open>Every character outside the class becomes one underscore, however many bytes it has.\<close>

function sanitizeSessionKeyForFile :: "string \<Rightarrow> string" where
  "sanitizeSessionKeyForFile s =
     (if s = [] then []
      else (if is_letter (hd s) \<or> is_digit (hd s) \<or> hd s = CHR ''_'' \<or> hd s = CHR ''-'' then hd s else CHR ''_'') #
        sanitizeSessionKeyForFile (drop (rune_size s) s))"
  by pat_completeness auto
termination
  by (relation "measure length") (auto simp: rune_size_def Let_def)

declare sanitizeSessionKeyForFile.simps [simp del]

definition hasGoogleAISearchEvidence :: "string \<Rightarrow> bool" where
  "hasGoogleAISearchEvidence text \<longleftrightarrow> Contains text ''search_ai'' \<or> Contains text ''google-ai-search'' \<or> Contains text ''google_ai_search''"

definition hasGoogleAISearchSessionEvidence :: "string \<Rightarrow> string \<Rightarrow> bool" where
  "hasGoogleAISearchSessionEvidence text sessionMarker =
     list_ex (\<lambda>line. Contains line sessionMarker \<and> hasGoogleAISearchEvidence line) (SplitC (CHR 0x0A) text)"

definition hasLineWithAll :: "string \<Rightarrow> string list \<Rightarrow> bool" where
  "hasLineWithAll text needles = list_ex (\<lambda>line. list_all (Contains line) needles) (SplitC (CHR 0x0A) text)"

definition collectSessionTranscriptCandidates :: "'w cron_files \<Rightarrow> string \<Rightarrow> (string \<times> bool) list \<Rightarrow> string \<Rightarrow> 'w \<Rightarrow> string list" where
  "collectSessionTranscriptCandidates fs sessionRoot dayDirs safeSession w =
     concat (map (\<lambda>(name, isDir). if \<not> isDir then []
        else (case cf_Glob fs (sessionRoot @ ''/'' @ name @ ''/'' @ safeSession @ ''_*.md'') w of None \<Rightarrow> [] | Some matches \<Rightarrow> matches)) dayDirs)"

definition transcript_before :: "'w cron_files \<Rightarrow> 'w \<Rightarrow> string \<Rightarrow> string \<Rightarrow> bool" where
  "transcript_before fs w a b =
     (case (cf_ModTime fs a w, cf_ModTime fs b w) of (Some ii, Some jj) \<Rightarrow> ii > jj | _ \<Rightarrow> text_less b a)"

definition latestSessionTranscriptPath :: "('w, 'p) CronDispatcher \<Rightarrow> string \<Rightarrow> 'w \<Rightarrow> string result" where
  "latestSessionTranscriptPath cd sessionKey w =
     (let fs = cd_files cd; sessionRoot = cd_storageRoot cd @ ''/workspace/sessions'' in
      case cf_ReadDir fs sessionRoot w of
        Inl e \<Rightarrow> if IsNotExist e then Inr [] else Inl (wrap_err ''read sessions dir'' e)
      | Inr dayDirs \<Rightarrow>
          (let candidates = collectSessionTranscriptCandidates fs sessionRoot dayDirs (sanitizeSessionKeyForFile sessionKey) w in
           if candidates = [] then Inr [] else Inr (cf_sort fs (transcript_before fs w) candidates ! 0)))"

definition maxTailBytes :: nat where "maxTailBytes = 512 * 1024"

definition verifySearchToolProvenanceFromLogs :: "('w, 'p) CronDispatcher \<Rightarrow> string \<Rightarrow> 'w \<Rightarrow> bool result" where
  "verifySearchToolProvenanceFromLogs cd sessionKey w =
     (case cf_OpenLog (cd_files cd) (cd_storageRoot cd @ ''/logs/gobot.log'') w of
        Inl e \<Rightarrow> if IsNotExist e then Inr False else Inl (wrap_err ''open gobot log'' e)
      | Inr f \<Rightarrow>
          (let start = (case lo_size f of Some n \<Rightarrow> if n > maxTailBytes \<and> lo_seek f then n - maxTailBytes else 0 | None \<Rightarrow> 0) in
           case lo_read f start of
             Inl e \<Rightarrow> Inl (wrap_err ''read gobot log'' e)
           | Inr text \<Rightarrow>
               (let subSession = ''session=agent:researcher:'' @ sessionKey in
                Inr (Contains text (''session='' @ sessionKey @ '' tool=spawn_subagent'') \<and>
                     hasLineWithAll text [subSession, ''tool=''] \<and> hasGoogleAISearchSessionEvidence text subSession))))"

definition verifySearchToolProvenance :: "('w, 'p) CronDispatcher \<Rightarrow> string \<Rightarrow> 'w \<Rightarrow> bool result" where
  "verifySearchToolProvenance cd sessionKey w =
     (case latestSessionTranscriptPath cd sessionKey w of
        Inl e \<Rightarrow> Inl e
      | Inr latest \<Rightarrow>
          if latest \<noteq> [] then
            (case cf_ReadFile (cd_files cd) latest w of
               Inl e \<Rightarrow> Inl (wrap_err ''read latest session transcript'' e)
             | Inr text \<Rightarrow> if hasGoogleAISearchEvidence text then Inr True else verifySearchToolProvenanceFromLogs cd sessionKey w)
          else verifySearchToolProvenanceFromLogs cd sessionKey w)"

section \<open>The morning briefing\<close>

definition isMorningBriefingJob :: "string \<Rightarrow> bool" where
  "isMorningBriefingJob jobID \<longleftrightarrow> fold_key (TrimSpace jobID) = morningBriefingJobID"

definition shouldRetryMorningBriefingAfterError :: "go_error \<Rightarrow> bool" where
  "shouldRetryMorningBriefingAfterError err =
     (let msg = ToLower (error_msg err) in
      \<not> (Contains msg ''auth_expired'' \<or> Contains msg ''invalid_grant'' \<or> Contains msg ''run gobot reauth''))"

definition word_char :: "char \<Rightarrow> bool" where
  "word_char c \<longleftrightarrow> is_letter c \<or> is_digit c \<or> c = CHR ''_''"

text \<open>A match of \<^verbatim>\<open>\b20\d{2}-\d{2}-\d{2}\b\<close>; \<open>after_word\<close> says that the character before is one of a word.\<close>

definition date_at :: "string \<Rightarrow> bool" where
  "date_at s \<longleftrightarrow> length s \<ge> 10 \<and> take 2 s = ''20'' \<and> is_digit (s ! 2) \<and> is_digit (s ! 3) \<and> s ! 4 = CHR ''-'' \<and>
     is_digit (s ! 5) \<and> is_digit (s ! 6) \<and> s ! 7 = CHR ''-'' \<and> is_digit (s ! 8) \<and> is_digit (s ! 9) \<and>
     (length s = 10 \<or> \<not> word_char (s ! 10))"

fun has_date :: "bool \<Rightarrow> string \<Rightarrow> bool" where
  "has_date after_word [] = False"
| "has_date after_word (c # cs) = (\<not> after_word \<and> date_at (c # cs) \<or> has_date (word_char c) cs)"

definition validateMorningBriefingResponse :: "string \<Rightarrow> go_error option" where
  "validateMorningBriefingResponse response =
     (let body = TrimSpace response in
      if body = [] then Some (ErrorNew ''empty response'')
      else if Contains body ''Daily Briefing Status: Partial/Unavailable'' then
        Some (ErrorNew ''response reports partial or unavailable briefing status'')
      else if Contains body ''TOOL_ERROR'' then Some (ErrorNew ''response contains TOOL_ERROR marker'')
      else if \<not> Contains body ''[Sources:'' then Some (ErrorNew ''no source attributions found'')
      else if \<not> has_date False body then Some (ErrorNew ''no published dates in output'')
      else None)"

definition enforceMorningBriefingGuards :: "('w, 'p) CronDispatcher \<Rightarrow> string \<Rightarrow> string \<Rightarrow> 'w \<Rightarrow> go_error option" where
  "enforceMorningBriefingGuards cd sessionKey response w =
     (case validateMorningBriefingResponse response of
        Some e \<Rightarrow> Some e
      | None \<Rightarrow>
          (case verifySearchToolProvenance cd sessionKey w of
             Inl e \<Rightarrow> Some (wrap_err ''provenance check failed'' e)
           | Inr ok \<Rightarrow>
               if \<not> ok then Some (ErrorNew ''provenance check failed: no live search tool usage found in session transcript'') else None))"

definition fail_mail ::
  "('w, 'p) CronDispatcher \<Rightarrow> Payload \<Rightarrow> string \<Rightarrow> string \<Rightarrow> go_error \<Rightarrow> 'w cron_state \<Rightarrow> 'w cron_state" where
  "fail_mail cd p recipient sessionKey err s =
     (case cd_Timestamp cd (cs_world s) of (now, w) \<Rightarrow>
        sendFailureEmail cd p recipient (buildCronFailureEmailBody now p sessionKey err) (s\<lparr>cs_world := w\<rparr>))"

definition handleMorningBriefingDispatchFailure ::
  "('w, 'p) CronDispatcher \<Rightarrow> Payload \<Rightarrow> string \<Rightarrow> string \<Rightarrow> go_error \<Rightarrow> 'w cron_state \<Rightarrow> 'w cron_state" where
  "handleMorningBriefingDispatchFailure cd p recipient sessionKey err s =
     (let s1 = fail_mail cd p recipient sessionKey err s in
      if isMorningBriefingJob (pl_ID p) \<and> shouldRetryMorningBriefingAfterError err
      then s1\<lparr>cs_retries := cs_retries s1 @ [(p, recipient)]\<rparr> else s1)"

definition buildEmailDispatchMessage :: "('w, 'p) CronDispatcher \<Rightarrow> Payload \<Rightarrow> 'w cron_state \<Rightarrow> string \<times> 'w cron_state" where
  "buildEmailDispatchMessage cd p s =
     (let msg = ''[AUTONOMOUS] '' @ pl_Message p in
      if \<not> isMorningBriefingJob (pl_ID p) then (msg, s)
      else
        (case cd_Schedule cd (cs_world s) of (freshCtx, w) \<Rightarrow>
           (if freshCtx \<noteq> [] then freshCtx @ nl @ nl @ msg else msg, s\<lparr>cs_world := w\<rparr>)))"

definition run_turn :: "('w, 'p) CronDispatcher \<Rightarrow> string \<Rightarrow> string \<Rightarrow> 'w cron_state \<Rightarrow> string result \<times> 'w cron_state" where
  "run_turn cd sessionKey msg s = (case cd_Manager cd sessionKey [] msg (cs_world s) of (r, w) \<Rightarrow> (r, s\<lparr>cs_world := w\<rparr>))"

text \<open>The retries run in the background; the delays count from their start.\<close>

definition retryKey :: "string \<Rightarrow> int \<Rightarrow> string" where
  "retryKey recipient i = SessionPrefixCron @ morningBriefingJobID @ '':email:'' @ recipient @ '':retry'' @ Itoa i"

fun briefing_retries :: "('w, 'p) CronDispatcher \<Rightarrow> Payload \<Rightarrow> string \<Rightarrow> string \<Rightarrow> int \<Rightarrow> int list \<Rightarrow> 'w cron_state \<Rightarrow> 'w cron_state" where
  "briefing_retries cd p recipient msg i [] s = s"
| "briefing_retries cd p recipient msg i (delay # delays) s =
     (case cd_Wait cd delay (cs_world s) of
        (False, w) \<Rightarrow> s\<lparr>cs_world := w\<rparr>
      | (True, w) \<Rightarrow>
          (case cd_Shutdown cd w of
             (True, w1) \<Rightarrow> s\<lparr>cs_world := w1\<rparr>
           | (False, w1) \<Rightarrow>
               (let key = retryKey recipient (i + 1);
                    failed = (\<lambda>e t. fail_mail cd p recipient key (wrap_err ''retry also failed'' e) t) in
                case run_turn cd key msg (s\<lparr>cs_world := w1\<rparr>) of
                  (Inl e, s2) \<Rightarrow> briefing_retries cd p recipient msg (i + 1) delays (failed (wrap_err ''retry dispatch'' e) s2)
                | (Inr response, s2) \<Rightarrow>
                    (case enforceMorningBriefingGuards cd key response (cs_world s2) of
                       Some e \<Rightarrow> briefing_retries cd p recipient msg (i + 1) delays (failed e s2)
                     | None \<Rightarrow>
                         if response \<noteq> [] then
                           (case sendEmailResponse cd p recipient response s2 of (Some e, s3) \<Rightarrow> failed e s3 | (None, s3) \<Rightarrow> s3)
                         else s2))))"

definition retryMorningBriefing :: "('w, 'p) CronDispatcher \<Rightarrow> Payload \<Rightarrow> string \<Rightarrow> int list \<Rightarrow> 'w cron_state \<Rightarrow> 'w cron_state" where
  "retryMorningBriefing cd p recipient delays s =
     (case buildEmailDispatchMessage cd p s of (msg, s1) \<Rightarrow> briefing_retries cd p recipient msg 0 delays s1)"

definition briefing_delays :: "int list" where
  "briefing_delays = [30 * 60 * second, 90 * 60 * second]"

text \<open>The retries that a dispatch started in the background, run one after the other from any later state.\<close>

definition run_retries :: "('w, 'p) CronDispatcher \<Rightarrow> (Payload \<times> string) list \<Rightarrow> 'w cron_state \<Rightarrow> 'w cron_state" where
  "run_retries cd retries s = fold (\<lambda>(p, recipient). retryMorningBriefing cd p recipient briefing_delays) retries s"

section \<open>Dispatch\<close>

definition handleSystemJob :: "('w, 'p) CronDispatcher \<Rightarrow> Payload \<Rightarrow> 'w cron_state \<Rightarrow> go_error option option \<times> 'w cron_state" where
  "handleSystemJob cd p s =
     (if pl_Message p \<noteq> ''[SYSTEM] INDEX_WORKSPACE'' then (None, s)
      else
        (case cd_Index cd of
           None \<Rightarrow> (Some (Some (ErrorNew ''cron: INDEX_WORKSPACE requires vector store, embedder and workspace directory'')), s)
         | Some index \<Rightarrow>
             (case index (cs_world s) of
                (Some e, w) \<Rightarrow> (Some (Some (wrap_err ''cron: INDEX_WORKSPACE'' e)), s\<lparr>cs_world := w\<rparr>)
              | (None, w) \<Rightarrow> (Some None, s\<lparr>cs_world := w\<rparr>))))"

definition prepareSpecialistRunner ::
  "('w, 'p) CronDispatcher \<Rightarrow> string \<Rightarrow> SpecialistConfig \<Rightarrow> (string \<Rightarrow> string \<Rightarrow> 'w \<Rightarrow> string result \<times> 'w) result" where
  "prepareSpecialistRunner cd agentName spec =
     (let provider = SpecialistProvider (cd_cfg cd) agentName in
      case cd_resolver cd of
        None \<Rightarrow> Inl (ErrorNew (''specialist provider '' @ Quote provider @ '': resolver unavailable''))
      | Some get \<Rightarrow>
          (case get provider of
             Inl e \<Rightarrow> Inl (wrap_err ''specialist provider'' e)
           | Inr prov \<Rightarrow> Inr (cd_runnerFactory cd prov (sc_Model spec) (DefaultSpecialistPrompt agentName))))"

definition sendSpecialistResponse ::
  "('w, 'p) CronDispatcher \<Rightarrow> Payload \<Rightarrow> string \<Rightarrow> string \<Rightarrow> string \<Rightarrow> 'w cron_state \<Rightarrow> go_error option \<times> 'w cron_state" where
  "sendSpecialistResponse cd p channel to response s =
     (if channel = chanEmail then
        (let recipient = (if to = [] then cd_userEmail cd else to) in
         if recipient \<noteq> [] then sendEmailResponse cd p recipient response s else (None, s))
      else if channel = chanTelegram \<and> to \<noteq> [] then sendTelegramResponse cd to response s
      else (None, s))"

definition dispatchSpecialist ::
  "('w, 'p) CronDispatcher \<Rightarrow> Payload \<Rightarrow> string \<Rightarrow> string \<Rightarrow> bool \<Rightarrow> 'w cron_state \<Rightarrow> go_error option \<times> 'w cron_state" where
  "dispatchSpecialist cd p channel to silent s =
     (case spc_Specialists (cd_cfg cd) (pl_Agent p) of
        None \<Rightarrow> (Some (ErrorNew (''unknown specialist: '' @ pl_Agent p)), s)
      | Some spec \<Rightarrow>
          (case prepareSpecialistRunner cd (pl_Agent p) spec of
             Inl e \<Rightarrow> (Some e, s)
           | Inr runText \<Rightarrow>
               (let sessionKey = SessionPrefixCron @ pl_Agent p @ '':'' @ pl_ID p @ (if to \<noteq> [] then '':'' @ to else []) in
                case runText sessionKey (''[AUTONOMOUS] '' @ pl_Message p) (cs_world s) of
                  (Inl e, w) \<Rightarrow> (Some (wrap_err ''specialist run'' e), s\<lparr>cs_world := w\<rparr>)
                | (Inr response, w) \<Rightarrow>
                    if silent \<or> response = [] then (None, s\<lparr>cs_world := w\<rparr>)
                    else sendSpecialistResponse cd p channel to response (s\<lparr>cs_world := w\<rparr>))))"

definition dispatchSilent :: "('w, 'p) CronDispatcher \<Rightarrow> Payload \<Rightarrow> string \<Rightarrow> 'w cron_state \<Rightarrow> go_error option \<times> 'w cron_state" where
  "dispatchSilent cd p to s =
     (if to = [] then (None, s)
      else
        (case run_turn cd (SessionPrefixCron @ to) (''[SILENT] [AUTONOMOUS] '' @ pl_Message p) s of
           (Inl e, s1) \<Rightarrow> (Some (wrap_err ''dispatch silent'' e), s1) | (Inr response, s1) \<Rightarrow> (None, s1)))"

definition dispatchTelegram :: "('w, 'p) CronDispatcher \<Rightarrow> Payload \<Rightarrow> string \<Rightarrow> 'w cron_state \<Rightarrow> go_error option \<times> 'w cron_state" where
  "dispatchTelegram cd p to s =
     (case run_turn cd (SessionPrefixCron @ to) (''[AUTONOMOUS] '' @ pl_Message p) s of
        (Inl e, s1) \<Rightarrow> (Some (wrap_err ''dispatch telegram'' e), s1)
      | (Inr response, s1) \<Rightarrow> if response \<noteq> [] then sendTelegramResponse cd to response s1 else (None, s1))"

definition dispatchEmail :: "('w, 'p) CronDispatcher \<Rightarrow> Payload \<Rightarrow> string \<Rightarrow> 'w cron_state \<Rightarrow> go_error option \<times> 'w cron_state" where
  "dispatchEmail cd p to s =
     (let recipient = (if to = [] then cd_userEmail cd else to) in
      if recipient = [] then (None, s)
      else
        (let jobID = (if pl_ID p = [] then ''unknown'' else pl_ID p);
             sessionKey = SessionPrefixCron @ jobID @ '':'' @ chanEmail @ '':'' @ recipient in
         case buildEmailDispatchMessage cd p s of (msg, s1) \<Rightarrow>
         case run_turn cd sessionKey msg s1 of
           (Inl e, s2) \<Rightarrow>
             (Some (AlreadyNotifiedError (Some (wrap_err ''dispatch email'' e))), handleMorningBriefingDispatchFailure cd p recipient sessionKey e s2)
         | (Inr response, s2) \<Rightarrow>
             (case (if isMorningBriefingJob (pl_ID p) then enforceMorningBriefingGuards cd sessionKey response (cs_world s2) else None) of
                Some guardErr \<Rightarrow>
                  (Some (AlreadyNotifiedError (Some (wrap_err ''dispatch email validation'' guardErr))),
                   handleMorningBriefingDispatchFailure cd p recipient sessionKey guardErr s2)
              | None \<Rightarrow> if response \<noteq> [] then sendEmailResponse cd p recipient response s2 else (None, s2))))"

definition cron_Dispatch :: "('w, 'p) CronDispatcher \<Rightarrow> Payload \<Rightarrow> 'w cron_state \<Rightarrow> go_error option \<times> 'w cron_state" where
  "cron_Dispatch cd p0 s0 =
     (case resolvePlaceholders cd (pl_Message p0) s0 of (message, s) \<Rightarrow>
      let p = p0\<lparr>pl_Message := message\<rparr> in
      case handleSystemJob cd p s of
        (Some err, s1) \<Rightarrow> (err, s1)
      | (None, s1) \<Rightarrow>
          (case ResolveRoutableChannel p of (channel, to, silent) \<Rightarrow>
             if pl_Agent p \<noteq> [] then dispatchSpecialist cd p channel to silent s1
             else if silent then dispatchSilent cd p to s1
             else if channel = chanEmail then dispatchEmail cd p to s1
             else if channel = chanTelegram \<and> to \<noteq> [] then dispatchTelegram cd p to s1
             else (None, s1)))"

definition cron_Alert :: "('w, 'p) CronDispatcher \<Rightarrow> Payload \<Rightarrow> 'w cron_state \<Rightarrow> go_error option \<times> 'w cron_state" where
  "cron_Alert cd p s =
     (case ResolveRoutableChannel p of (channel, to, silent) \<Rightarrow>
        if channel = chanEmail then
          (let recipient = (if to = [] then cd_userEmail cd else to) in
           if recipient = [] then (None, s)
           else sendEmailResponse cd (if pl_Subject p = [] then p\<lparr>pl_Subject := ''Gobot Alert''\<rparr> else p) recipient (pl_Message p) s)
        else if to = [] then (None, s)
        else
          (case parseSessionKey to of
             Inl e \<Rightarrow> (Some (wrap_err ''CronDispatcher.Alert'' e), s)
           | Inr (chatID, threadID) \<Rightarrow>
               (case send_chat cd (plain_message chatID threadID (pl_Message p)) s of
                  (Some e, s1) \<Rightarrow> (Some (wrap_err ''alert send'' e), s1) | (None, s1) \<Rightarrow> (None, s1))))"

section \<open>Laws\<close>

text \<open>What a step adds to the record of deliveries.\<close>

definition adds :: "'w cron_state \<Rightarrow> (delivery \<times> bool) list \<Rightarrow> 'w cron_state \<Rightarrow> bool" where
  "adds s new s' \<longleftrightarrow> cs_attempts s' = cs_attempts s @ new"

lemma adds_none [intro]: "cs_attempts s' = cs_attempts s \<Longrightarrow> adds s [] s'"
  by (simp add: adds_def)

lemma adds_after: "cs_attempts s1 = cs_attempts s \<Longrightarrow> adds s1 new s2 \<Longrightarrow> adds s new s2"
  by (simp add: adds_def)

lemma placeholders_attempts: "resolvePlaceholders cd text s = (t, s') \<Longrightarrow> cs_attempts s' = cs_attempts s"
  by (auto simp: resolvePlaceholders_def split: prod.splits)

lemma subject_attempts: "resolveEmailSubject cd p s = (t, s') \<Longrightarrow> cs_attempts s' = cs_attempts s"
  by (auto simp: resolveEmailSubject_def dest: placeholders_attempts split: if_splits)

lemma failure_subject_attempts: "resolveFailureEmailSubject cd p s = (t, s') \<Longrightarrow> cs_attempts s' = cs_attempts s"
  by (auto simp: resolveFailureEmailSubject_def dest: subject_attempts split: prod.splits)

lemma service_attempts: "newEmailService cd s = (r, s') \<Longrightarrow> cs_attempts s' = cs_attempts s"
  by (auto simp: newEmailService_def split: prod.splits sum.splits)

lemma run_turn_attempts: "run_turn cd key msg s = (r, s') \<Longrightarrow> cs_attempts s' = cs_attempts s"
  by (auto simp: run_turn_def split: prod.splits)

lemma message_attempts: "buildEmailDispatchMessage cd p s = (m, s') \<Longrightarrow> cs_attempts s' = cs_attempts s"
  by (auto simp: buildEmailDispatchMessage_def Let_def split: if_splits prod.splits)

lemma send_mail_adds: "send_mail svc r c s = (err, s') \<Longrightarrow> adds s [(ToMail r c, err = None)] s'"
  by (auto simp: send_mail_def attempt_def adds_def split: prod.splits)

lemma sendTelegramResponse_adds:
  assumes "sendTelegramResponse cd to response s = (err, s')"
  shows "(\<exists>e. err = Some e \<and> s' = s) \<or>
    (\<exists>chat thread. parseSessionKey to = Inr (chat, thread) \<and> adds s [(ToChat (plain_message chat thread response), err = None)] s')"
  using assms by (auto simp: sendTelegramResponse_def send_chat_def attempt_def adds_def split: sum.splits prod.splits option.splits)

lemma sendEmailResponse_adds:
  assumes "sendEmailResponse cd p r response s = (err, s')"
  shows "(\<exists>e. err = Some e \<and> adds s [] s') \<or> (\<exists>subject. adds s [(ToMail r (cd_Content cd subject response), err = None)] s')"
proof (cases "newEmailService cd s")
  case (Pair sr s1)
  have a1: "cs_attempts s1 = cs_attempts s" using service_attempts [OF Pair] .
  show ?thesis
  proof (cases sr)
    case (Inl e)
    then show ?thesis using assms Pair a1 by (auto simp: sendEmailResponse_def)
  next
    case (Inr svc)
    obtain subject s2 where s2: "resolveEmailSubject cd p s1 = (subject, s2)" by fastforce
    obtain err3 s3 where m: "send_mail svc r (cd_Content cd subject response) s2 = (err3, s3)" by fastforce
    have "s' = s3" "(err = None) = (err3 = None)" using assms Pair Inr s2 m by (auto simp: sendEmailResponse_def split: option.splits)
    moreover have "adds s [(ToMail r (cd_Content cd subject response), err3 = None)] s3"
      using adds_after [OF _ send_mail_adds [OF m]] subject_attempts [OF s2] a1 by simp
    ultimately show ?thesis by auto
  qed
qed

lemma sendFailureEmail_adds:
  "\<exists>new. adds s new (sendFailureEmail cd p r body s) \<and> (new = [] \<or> (\<exists>subject ok. new = [(ToMail r (cd_Content cd subject body), ok)]))"
proof (cases "newEmailService cd s")
  case (Pair sr s1)
  have a1: "cs_attempts s1 = cs_attempts s" using service_attempts [OF Pair] .
  show ?thesis
  proof (cases sr)
    case (Inl e)
    then show ?thesis using Pair a1 by (auto simp: sendFailureEmail_def)
  next
    case (Inr svc)
    obtain subject s2 where s2: "resolveFailureEmailSubject cd p s1 = (subject, s2)" by fastforce
    obtain err3 s3 where m: "send_mail svc r (cd_Content cd subject body) s2 = (err3, s3)" by fastforce
    have "sendFailureEmail cd p r body s = s3" using Pair Inr s2 m by (simp add: sendFailureEmail_def)
    moreover have "adds s [(ToMail r (cd_Content cd subject body), err3 = None)] s3"
      using adds_after [OF _ send_mail_adds [OF m]] failure_subject_attempts [OF s2] a1 by simp
    ultimately show ?thesis by auto
  qed
qed

text \<open>A report of a failure, and a text of a briefing that passed the checks.\<close>

definition failure_report :: "('w, 'p) CronDispatcher \<Rightarrow> Payload \<Rightarrow> EmailContent \<Rightarrow> bool" where
  "failure_report cd p c \<longleftrightarrow> (\<exists>subject now key e. c = cd_Content cd subject (buildCronFailureEmailBody now p key e))"

definition checked_text :: "('w, 'p) CronDispatcher \<Rightarrow> EmailContent \<Rightarrow> bool" where
  "checked_text cd c \<longleftrightarrow> (\<exists>subject response key w. c = cd_Content cd subject response \<and> validateMorningBriefingResponse response = None \<and>
     verifySearchToolProvenance cd key w = Inr True)"

lemma guards_checked:
  "enforceMorningBriefingGuards cd key response w = None \<Longrightarrow> checked_text cd (cd_Content cd subject response)"
  by (auto simp: enforceMorningBriefingGuards_def checked_text_def split: option.splits sum.splits if_splits)

lemma failure_report_body: "failure_report cd p (cd_Content cd subject (buildCronFailureEmailBody now p key e))"
  unfolding failure_report_def by blast

lemma fail_mail_adds:
  "\<exists>new. adds s new (fail_mail cd p r key e s) \<and> (new = [] \<or> (\<exists>c ok. new = [(ToMail r c, ok)] \<and> failure_report cd p c))"
proof (cases "cd_Timestamp cd (cs_world s)")
  case (Pair now w)
  then show ?thesis
    using sendFailureEmail_adds [of "s\<lparr>cs_world := w\<rparr>" cd p r "buildCronFailureEmailBody now p key e"]
    by (auto simp: fail_mail_def adds_def failure_report_body)
qed

lemma failure_adds:
  "\<exists>new. adds s new (handleMorningBriefingDispatchFailure cd p r key e s) \<and>
    (new = [] \<or> (\<exists>c ok. new = [(ToMail r c, ok)] \<and> failure_report cd p c))"
  using fail_mail_adds [of s cd p r key e] by (auto simp: handleMorningBriefingDispatchFailure_def adds_def Let_def)

lemma dispatchEmail_adds:
  assumes "dispatchEmail cd p to s = (err, s')"
  shows "\<exists>new. adds s new s' \<and> (new = [] \<or> (\<exists>c ok. new = [(ToMail (if to = [] then cd_userEmail cd else to) c, ok)] \<and>
      (if to = [] then cd_userEmail cd else to) \<noteq> [] \<and> (err = None \<longrightarrow> ok) \<and>
      (isMorningBriefingJob (pl_ID p) \<longrightarrow> failure_report cd p c \<or> checked_text cd c)))"
proof -
  define r where "r = (if to = [] then cd_userEmail cd else to)"
  define key where "key = SessionPrefixCron @ (if pl_ID p = [] then ''unknown'' else pl_ID p) @ '':'' @ chanEmail @ '':'' @ r"
  obtain msg s1 where m: "buildEmailDispatchMessage cd p s = (msg, s1)" by fastforce
  obtain tr s2 where t: "run_turn cd key msg s1 = (tr, s2)" by fastforce
  have a2: "cs_attempts s2 = cs_attempts s" using message_attempts [OF m] run_turn_attempts [OF t] by simp
  define g where "g = (\<lambda>response. if isMorningBriefingJob (pl_ID p) then enforceMorningBriefingGuards cd key response (cs_world s2) else None)"
  have D: "dispatchEmail cd p to s = (if r = [] then (None, s) else
      (case tr of
         Inl e \<Rightarrow> (Some (AlreadyNotifiedError (Some (wrap_err ''dispatch email'' e))), handleMorningBriefingDispatchFailure cd p r key e s2)
       | Inr response \<Rightarrow>
           (case g response of
              Some ge \<Rightarrow> (Some (AlreadyNotifiedError (Some (wrap_err ''dispatch email validation'' ge))), handleMorningBriefingDispatchFailure cd p r key ge s2)
            | None \<Rightarrow> if response \<noteq> [] then sendEmailResponse cd p r response s2 else (None, s2))))"
    unfolding dispatchEmail_def Let_def r_def [symmetric] key_def [symmetric] m prod.case t g_def by (cases tr) simp_all
  show ?thesis
  proof (cases "r = []")
    case True
    then show ?thesis using assms by (auto simp: D)
  next
    case r: False
    have fail: "\<exists>new. adds s new (handleMorningBriefingDispatchFailure cd p r key e s2) \<and>
        (new = [] \<or> (\<exists>c ok. new = [(ToMail r c, ok)] \<and> failure_report cd p c))" for e
      using failure_adds [of s2 cd p r key e] a2 by (auto simp: adds_def)
    have failed: ?thesis if "err \<noteq> None" "s' = handleMorningBriefingDispatchFailure cd p r key e s2" for e
      using fail [of e] that r unfolding r_def [symmetric] by fast
    show ?thesis
    proof (cases tr)
      case (Inl e)
      then have "err \<noteq> None" "s' = handleMorningBriefingDispatchFailure cd p r key e s2" using assms r by (auto simp: D)
      then show ?thesis by (rule failed)
    next
      case (Inr response)
      show ?thesis
      proof (cases "g response")
        case (Some ge)
        then have "err \<noteq> None" "s' = handleMorningBriefingDispatchFailure cd p r key ge s2" using assms r Inr by (auto simp: D)
        then show ?thesis by (rule failed)
      next
        case None
        show ?thesis
        proof (cases "response = []")
          case True
          then show ?thesis using assms r Inr None a2 by (auto simp: D)
        next
          case False
          then have "sendEmailResponse cd p r response s2 = (err, s')" using assms r Inr None by (simp add: D)
          from sendEmailResponse_adds [OF this] show ?thesis
          proof (elim disjE exE conjE)
            fix subject
            assume "adds s2 [(ToMail r (cd_Content cd subject response), err = None)] s'"
            moreover have "isMorningBriefingJob (pl_ID p) \<longrightarrow> checked_text cd (cd_Content cd subject response)"
              using None guards_checked by (auto simp: g_def)
            ultimately show ?thesis using r adds_after [OF a2] unfolding r_def [symmetric] by blast
          qed (use adds_after [OF a2] in blast)
        qed
      qed
    qed
  qed
qed

text \<open>Where a delivery of a job may go.\<close>

definition on_target :: "('w, 'p) CronDispatcher \<Rightarrow> Payload \<Rightarrow> delivery \<Rightarrow> bool" where
  "on_target cd p d =
     (case d of
        ToChat m \<Rightarrow> pl_Channel p = chanTelegram \<and> parseSessionKey (pl_To p) = Inr (om_ChatID m, om_ThreadID m)
      | ToMail r c \<Rightarrow> pl_Channel p = chanEmail \<and> r \<noteq> [] \<and> r = (if pl_To p = [] then cd_userEmail cd else pl_To p))"

lemma route_channel:
  assumes "ResolveRoutableChannel p = (channel, to, silent)"
  shows "silent = Contains (pl_Message p) ''[SILENT]''" and "silent \<Longrightarrow> channel = [] \<and> to = []"
    and "\<not> silent \<Longrightarrow> channel = chanEmail \<Longrightarrow> pl_Channel p = chanEmail \<and> to = pl_To p"
    and "\<not> silent \<Longrightarrow> channel = chanTelegram \<Longrightarrow> to \<noteq> [] \<Longrightarrow> pl_Channel p = chanTelegram \<and> to = pl_To p"
  using assms by (auto simp: ResolveRoutableChannel_def chanEmail_def chanTelegram_def fallbackChannel_def split: if_splits)

lemma sendTelegram_target:
  assumes "sendTelegramResponse cd to response s = (err, s')" "pl_Channel p = chanTelegram" "to = pl_To p"
  shows "\<exists>new. adds s new s' \<and> length new \<le> 1 \<and> (\<forall>(d, ok) \<in> set new. on_target cd p d \<and> (err = None \<longrightarrow> ok))"
  using sendTelegramResponse_adds [OF assms(1)] assms(2,3)
  by (elim disjE exE conjE) (intro exI conjI, rule adds_none, simp, simp, simp, rule exI, rule conjI, assumption,
    simp add: on_target_def plain_message_def)

lemma sendEmail_target:
  assumes "sendEmailResponse cd p' r response s = (err, s')" "pl_Channel p = chanEmail" "r = (if pl_To p = [] then cd_userEmail cd else pl_To p)" "r \<noteq> []"
  shows "\<exists>new. adds s new s' \<and> length new \<le> 1 \<and> (\<forall>(d, ok) \<in> set new. on_target cd p d \<and> (err = None \<longrightarrow> ok))"
  using sendEmailResponse_adds [OF assms(1)]
proof (elim disjE exE conjE)
  fix subject
  assume "adds s [(ToMail r (cd_Content cd subject response), err = None)] s'"
  moreover have "on_target cd p (ToMail r (cd_Content cd subject response))" using assms(2,3,4) by (simp add: on_target_def)
  ultimately show ?thesis by (intro exI [of _ "[(ToMail r (cd_Content cd subject response), err = None)]"]) simp
next
  fix e
  assume "adds s [] s'"
  then show ?thesis by (intro exI [of _ "[]"]) simp
qed

definition targeted :: "('w, 'p) CronDispatcher \<Rightarrow> Payload \<Rightarrow> 'w cron_state \<Rightarrow> go_error option \<Rightarrow> 'w cron_state \<Rightarrow> bool" where
  "targeted cd p s err s' \<longleftrightarrow> (\<exists>new. adds s new s' \<and> length new \<le> 1 \<and> (\<forall>(d, ok) \<in> set new. on_target cd p d \<and> (err = None \<longrightarrow> ok)))"

lemma targeted_none: "cs_attempts s' = cs_attempts s \<Longrightarrow> targeted cd p s err s'"
  unfolding targeted_def by (intro exI [of _ "[]"]) (simp add: adds_def)

lemma targeted_after: "cs_attempts s1 = cs_attempts s \<Longrightarrow> targeted cd p s1 err s2 \<Longrightarrow> targeted cd p s err s2"
  by (simp add: targeted_def adds_def)

lemma targeted_telegram:
  "sendTelegramResponse cd (pl_To p) response s = (err, s') \<Longrightarrow> pl_Channel p = chanTelegram \<Longrightarrow> targeted cd p s err s'"
  unfolding targeted_def by (rule sendTelegram_target) auto

lemma targeted_email:
  "sendEmailResponse cd p' (if pl_To p = [] then cd_userEmail cd else pl_To p) response s = (err, s') \<Longrightarrow> pl_Channel p = chanEmail \<Longrightarrow>
   (if pl_To p = [] then cd_userEmail cd else pl_To p) \<noteq> [] \<Longrightarrow> targeted cd p s err s'"
  unfolding targeted_def by (rule sendEmail_target) auto

lemma targeted_dispatchEmail:
  assumes "dispatchEmail cd p (pl_To p) s = (err, s')" "pl_Channel p = chanEmail"
  shows "targeted cd p s err s'"
proof -
  let ?r = "if pl_To p = [] then cd_userEmail cd else pl_To p"
  from dispatchEmail_adds [OF assms(1)] consider "adds s [] s'" |
    c ok where "adds s [(ToMail ?r c, ok)] s'" "?r \<noteq> []" "err = None \<longrightarrow> ok" by blast
  then show ?thesis
  proof cases
    case 1
    then show ?thesis by (intro targeted_none) (simp add: adds_def)
  next
    case (2 c ok)
    have "on_target cd p (ToMail ?r c)" using assms(2) 2(2) by (simp add: on_target_def)
    then show ?thesis using 2 unfolding targeted_def by (intro exI [of _ "[(ToMail ?r c, ok)]"]) simp
  qed
qed

lemma targeted_specialist:
  assumes "dispatchSpecialist cd p channel to silent s = (err, s')" "ResolveRoutableChannel p = (channel, to, silent)"
  shows "targeted cd p s err s'" and "silent \<Longrightarrow> cs_attempts s' = cs_attempts s"
proof -
  have "cs_attempts s' = cs_attempts s \<or>
    (\<exists>w response. \<not> silent \<and> sendSpecialistResponse cd p channel to response (s\<lparr>cs_world := w\<rparr>) = (err, s'))"
    using assms(1) by (auto simp: dispatchSpecialist_def Let_def split: option.splits sum.splits prod.splits if_splits)
  moreover have "targeted cd p s err s'" if "\<not> silent" "sendSpecialistResponse cd p channel to response (s\<lparr>cs_world := w\<rparr>) = (err, s')" for w response
  proof -
    note r = route_channel [OF assms(2)]
    have "channel = chanEmail \<and> (if to = [] then cd_userEmail cd else to) \<noteq> [] \<or>
      channel \<noteq> chanEmail \<and> channel = chanTelegram \<and> to \<noteq> [] \<or> cs_attempts s' = cs_attempts s"
    proof (cases "channel = chanEmail")
      case True
      show ?thesis
      proof (cases "(if to = [] then cd_userEmail cd else to) = []")
        case none: True
        have "s' = s\<lparr>cs_world := w\<rparr>" using that(2) True unfolding sendSpecialistResponse_def Let_def none by simp
        then show ?thesis by simp
      qed (use True in simp)
    next
      case False
      show ?thesis
      proof (cases "channel = chanTelegram \<and> to \<noteq> []")
        case True
        then show ?thesis using False by simp
      next
        case none: False
        have "s' = s\<lparr>cs_world := w\<rparr>" using that(2) False none unfolding sendSpecialistResponse_def by (simp split: if_splits)
        then show ?thesis by simp
      qed
    qed
    then consider "channel = chanEmail" "(if to = [] then cd_userEmail cd else to) \<noteq> []" |
      "channel \<noteq> chanEmail" "channel = chanTelegram" "to \<noteq> []" | "cs_attempts s' = cs_attempts s" by blast
    then show ?thesis
    proof cases
      case 1
      have t: "pl_Channel p = chanEmail" "to = pl_To p" using 1 r(3) [OF that(1)] by simp_all
      have "sendEmailResponse cd p (if pl_To p = [] then cd_userEmail cd else pl_To p) response (s\<lparr>cs_world := w\<rparr>) = (err, s')"
        using that(2) 1 unfolding sendSpecialistResponse_def Let_def t(2) by (simp split: if_splits)
      from targeted_email [OF this t(1)] have "targeted cd p (s\<lparr>cs_world := w\<rparr>) err s'" using 1(2) unfolding t(2) by blast
      then show ?thesis by (rule targeted_after [rotated]) simp
    next
      case 2
      then have "sendTelegramResponse cd (pl_To p) response (s\<lparr>cs_world := w\<rparr>) = (err, s')"
        using that(2) r(4) [OF that(1)] unfolding sendSpecialistResponse_def by simp
      from targeted_telegram [OF this] have "targeted cd p (s\<lparr>cs_world := w\<rparr>) err s'" using 2 r(4) [OF that(1)] by simp
      then show ?thesis by (rule targeted_after [rotated]) simp
    next
      case 3
      then show ?thesis by (rule targeted_none)
    qed
  qed
  ultimately show "targeted cd p s err s'" using targeted_none by blast
  show "cs_attempts s' = cs_attempts s" if silent
    using assms(1) that by (auto simp: dispatchSpecialist_def Let_def split: option.splits sum.splits prod.splits if_splits)
qed

lemma system_attempts: "handleSystemJob cd p s = (r, s') \<Longrightarrow> cs_attempts s' = cs_attempts s"
  by (auto simp: handleSystemJob_def split: if_splits option.splits prod.splits)

lemma dispatchSilent_attempts: "dispatchSilent cd p to s = (err, s') \<Longrightarrow> cs_attempts s' = cs_attempts s"
  by (auto simp: dispatchSilent_def split: if_splits prod.splits sum.splits dest: run_turn_attempts)

text \<open>The deliveries of the dispatch itself.\<close>

lemma dispatch_delivers:
  assumes "cron_Dispatch cd p s = (err, s')"
  shows "\<exists>new. cs_attempts s' = cs_attempts s @ new \<and> length new \<le> 1 \<and>
    (\<forall>(d, ok) \<in> set new. (err = None \<longrightarrow> ok) \<and> \<not> Contains (fst (resolvePlaceholders cd (pl_Message p) s)) ''[SILENT]'' \<and>
       (case d of
          ToChat m \<Rightarrow> pl_Channel p = ''telegram'' \<and> parseSessionKey (pl_To p) = Inr (om_ChatID m, om_ThreadID m)
        | ToMail r c \<Rightarrow> pl_Channel p = ''email'' \<and> r \<noteq> [] \<and> r = (if pl_To p = [] then cd_userEmail cd else pl_To p)))"
proof -
  obtain message s1 where m: "resolvePlaceholders cd (pl_Message p) s = (message, s1)" by fastforce
  define q where "q = p\<lparr>pl_Message := message\<rparr>"
  obtain sys s2 where y: "handleSystemJob cd q s1 = (sys, s2)" by fastforce
  obtain channel to silent where c: "ResolveRoutableChannel q = (channel, to, silent)" by (metis prod_cases3)
  note r = route_channel [OF c]
  have a2: "cs_attempts s2 = cs_attempts s" using placeholders_attempts [OF m] system_attempts [OF y] by simp
  have run: "(err, s') = (case sys of Some e \<Rightarrow> (e, s2) | None \<Rightarrow>
      if pl_Agent q \<noteq> [] then dispatchSpecialist cd q channel to silent s2
      else if silent then dispatchSilent cd q to s2
      else if channel = chanEmail then dispatchEmail cd q to s2
      else if channel = chanTelegram \<and> to \<noteq> [] then dispatchTelegram cd q to s2 else (None, s2))"
    using assms unfolding cron_Dispatch_def m prod.case Let_def q_def [symmetric] y c by (simp split: option.splits)
  have "targeted cd q s2 err s' \<and> (silent \<longrightarrow> cs_attempts s' = cs_attempts s2)"
  proof (cases sys)
    case (Some e)
    then show ?thesis using run targeted_none [of s2 s2] by simp
  next
    case None
    consider "pl_Agent q \<noteq> []" | "pl_Agent q = []" silent | "pl_Agent q = []" "\<not> silent" "channel = chanEmail" |
      "pl_Agent q = []" "\<not> silent" "channel \<noteq> chanEmail" "channel = chanTelegram" "to \<noteq> []" |
      "pl_Agent q = []" "\<not> silent" "channel \<noteq> chanEmail" "\<not> (channel = chanTelegram \<and> to \<noteq> [])" by blast
    then show ?thesis
    proof cases
      case 1
      then show ?thesis using run None targeted_specialist [OF _ c, of cd s2 err s'] by auto
    next
      case 2
      then have "cs_attempts s' = cs_attempts s2" using run None dispatchSilent_attempts [of cd q to s2 err s'] by simp
      then show ?thesis using targeted_none by blast
    next
      case 3
      then show ?thesis using run None r(3) targeted_dispatchEmail [of cd q s2 err s'] by simp
    next
      case 4
      have "targeted cd q s2 err s'"
      proof (cases "run_turn cd (SessionPrefixCron @ to) (''[AUTONOMOUS] '' @ pl_Message q) s2")
        case (Pair tr s3)
        note a3 = run_turn_attempts [OF Pair]
        have e: "dispatchTelegram cd q to s2 = (err, s')" using 4 run None by simp
        show ?thesis
        proof (cases "\<exists>response. tr = Inr response \<and> response \<noteq> []")
          case False
          then have "s' = s3" using e Pair by (auto simp: dispatchTelegram_def split: sum.splits if_splits)
          then show ?thesis using a3 targeted_none by blast
        next
          case True
          then obtain response where "sendTelegramResponse cd (pl_To q) response s3 = (err, s')"
            using e Pair 4 r(4) by (auto simp: dispatchTelegram_def)
          from targeted_telegram [OF this] show ?thesis using 4 r(4) targeted_after [OF a3] by simp
        qed
      qed
      then show ?thesis using 4 by simp
    next
      case 5
      then have "s' = s2" using run None by (auto split: if_splits)
      then show ?thesis using targeted_none [of s2 s2] by simp
    qed
  qed
  then obtain new where new: "adds s2 new s'" "length new \<le> 1" "\<forall>(d, ok) \<in> set new. on_target cd q d \<and> (err = None \<longrightarrow> ok)" and
    n: "silent \<longrightarrow> new = []"
    unfolding targeted_def by (auto simp: adds_def)
  have silent: "silent = Contains (fst (resolvePlaceholders cd (pl_Message p) s)) ''[SILENT]''" using r(1) m by (simp add: q_def)
  have "on_target cd q d \<longleftrightarrow> (case d of
          ToChat m \<Rightarrow> pl_Channel p = ''telegram'' \<and> parseSessionKey (pl_To p) = Inr (om_ChatID m, om_ThreadID m)
        | ToMail r c \<Rightarrow> pl_Channel p = ''email'' \<and> r \<noteq> [] \<and> r = (if pl_To p = [] then cd_userEmail cd else pl_To p))" for d
    by (cases d) (simp_all add: on_target_def q_def chanEmail_def chanTelegram_def)
  note target = this
  have "(err = None \<longrightarrow> ok) \<and> \<not> Contains (fst (resolvePlaceholders cd (pl_Message p) s)) ''[SILENT]'' \<and> on_target cd q d"
    if "(d, ok) \<in> set new" for d ok
    using that new(3) n unfolding silent by auto
  then have "\<forall>(d, ok) \<in> set new. (err = None \<longrightarrow> ok) \<and> \<not> Contains (fst (resolvePlaceholders cd (pl_Message p) s)) ''[SILENT]'' \<and> on_target cd q d"
    by blast
  moreover have "cs_attempts s' = cs_attempts s @ new" using new(1) a2 by (simp add: adds_def)
  ultimately show ?thesis using new(2) unfolding target by blast
qed

text \<open>The retries of a briefing: every text that they mail as an answer has passed the checks.\<close>

definition briefing_mail :: "('w, 'p) CronDispatcher \<Rightarrow> Payload \<Rightarrow> string \<Rightarrow> delivery \<Rightarrow> bool" where
  "briefing_mail cd p r d \<longleftrightarrow> (\<exists>c. d = ToMail r c \<and> (failure_report cd p c \<or> checked_text cd c))"

lemma adds_trans: "adds s a t \<Longrightarrow> adds t b u \<Longrightarrow> adds s (a @ b) u"
  by (simp add: adds_def)

lemma fail_mail_briefing:
  "\<exists>new. adds s new (fail_mail cd p r key e s) \<and> length new \<le> 1 \<and> (\<forall>(d, ok) \<in> set new. briefing_mail cd p r d)"
  using fail_mail_adds [of s cd p r key e] unfolding briefing_mail_def by fastforce

lemma briefing_retries_adds:
  "\<exists>new. adds s new (briefing_retries cd p r msg i delays s) \<and> length new \<le> length delays + 1 \<and> (\<forall>(d, ok) \<in> set new. briefing_mail cd p r d)"
proof (induction delays arbitrary: i s)
  case Nil
  show ?case by (intro exI [of _ "[]"]) (simp add: adds_def)
next
  case (Cons delay delays)
  have none: "\<exists>new. adds s new (briefing_retries cd p r msg i (delay # delays) s) \<and> length new \<le> length (delay # delays) + 1 \<and> (\<forall>(d, ok) \<in> set new. briefing_mail cd p r d)"
    if "cs_attempts (briefing_retries cd p r msg i (delay # delays) s) = cs_attempts s"
    using that by (intro exI [of _ "[]"]) (simp add: adds_def)
  obtain waited w where w: "cd_Wait cd delay (cs_world s) = (waited, w)" by fastforce
  obtain stop w1 where w1: "cd_Shutdown cd w = (stop, w1)" by fastforce
  let ?key = "retryKey r (i + 1)"
  obtain tr s2 where t: "run_turn cd ?key msg (s\<lparr>cs_world := w1\<rparr>) = (tr, s2)" by fastforce
  have a2: "cs_attempts s2 = cs_attempts s" using run_turn_attempts [OF t] by simp
  show ?case
  proof (cases "waited \<and> \<not> stop")
    case False
    then have "cs_attempts (briefing_retries cd p r msg i (delay # delays) s) = cs_attempts s" using w w1 by (cases waited; cases stop) simp_all
    then show ?thesis by (rule none)
  next
    case go: True
    have again: "\<exists>new. adds s new (briefing_retries cd p r msg i (delay # delays) s) \<and> length new \<le> length (delay # delays) + 1 \<and> (\<forall>(d, ok) \<in> set new. briefing_mail cd p r d)"
      if "briefing_retries cd p r msg i (delay # delays) s = briefing_retries cd p r msg (i + 1) delays (fail_mail cd p r ?key e s2)" for e
    proof -
      obtain n1 where n1: "adds s2 n1 (fail_mail cd p r ?key e s2)" "length n1 \<le> 1" "\<forall>(d, ok) \<in> set n1. briefing_mail cd p r d"
        using fail_mail_briefing by blast
      obtain n2 where n2: "adds (fail_mail cd p r ?key e s2) n2 (briefing_retries cd p r msg (i + 1) delays (fail_mail cd p r ?key e s2))"
        "length n2 \<le> length delays + 1" "\<forall>(d, ok) \<in> set n2. briefing_mail cd p r d" using Cons.IH by blast
      show ?thesis using adds_trans [OF adds_after [OF a2 n1(1)] n2(1)] n1(2,3) n2(2,3) unfolding that
        by (intro exI [of _ "n1 @ n2"]) auto
    qed
    show ?thesis
    proof (cases tr)
      case (Inl e)
      show ?thesis by (rule again) (use w w1 t go Inl in \<open>simp add: Let_def\<close>)
    next
      case (Inr response)
      show ?thesis
      proof (cases "enforceMorningBriefingGuards cd ?key response (cs_world s2)")
        case (Some e)
        show ?thesis by (rule again) (use w w1 t go Inr Some in \<open>simp add: Let_def\<close>)
      next
        case ok: None
        show ?thesis
        proof (cases "response = []")
          case True
          then have "briefing_retries cd p r msg i (delay # delays) s = s2" using w w1 t go Inr ok by (simp add: Let_def)
          then show ?thesis using none a2 by simp
        next
          case False
          obtain err s3 where m: "sendEmailResponse cd p r response s2 = (err, s3)" by fastforce
          have l: "briefing_retries cd p r msg i (delay # delays) s =
            (case err of None \<Rightarrow> s3 | Some e \<Rightarrow> fail_mail cd p r ?key (wrap_err ''retry also failed'' e) s3)"
            using w w1 t go Inr ok m False by (simp add: Let_def split: option.split)
          obtain n1 where n1: "adds s2 n1 s3" "length n1 \<le> 1" "\<forall>(d, ok) \<in> set n1. briefing_mail cd p r d"
            using sendEmailResponse_adds [OF m] guards_checked [OF ok] unfolding briefing_mail_def by fastforce
          show ?thesis
          proof (cases err)
            case None
            then show ?thesis using l adds_after [OF a2 n1(1)] n1(2,3) by (intro exI [of _ n1]) auto
          next
            case (Some e)
            obtain n2 where n2: "adds s3 n2 (fail_mail cd p r ?key (wrap_err ''retry also failed'' e) s3)" "length n2 \<le> 1"
              "\<forall>(d, ok) \<in> set n2. briefing_mail cd p r d" using fail_mail_briefing by blast
            show ?thesis using l Some adds_trans [OF adds_after [OF a2 n1(1)] n2(1)] n1(2,3) n2(2,3)
              by (intro exI [of _ "n1 @ n2"]) auto
          qed
        qed
      qed
    qed
  qed
qed

section \<open>The retries of a dispatch\<close>

named_theorems keeps_retries

lemma placeholders_retries [keeps_retries]: "resolvePlaceholders cd text s = (t, s') \<Longrightarrow> cs_retries s' = cs_retries s"
  by (auto simp: resolvePlaceholders_def split: prod.splits)

lemma subject_retries [keeps_retries]: "resolveEmailSubject cd p s = (t, s') \<Longrightarrow> cs_retries s' = cs_retries s"
  by (auto simp: resolveEmailSubject_def dest: keeps_retries split: if_splits)

lemma failure_subject_retries [keeps_retries]: "resolveFailureEmailSubject cd p s = (t, s') \<Longrightarrow> cs_retries s' = cs_retries s"
  by (auto simp: resolveFailureEmailSubject_def dest: keeps_retries split: prod.splits)

lemma service_retries [keeps_retries]: "newEmailService cd s = (r, s') \<Longrightarrow> cs_retries s' = cs_retries s"
  by (auto simp: newEmailService_def split: prod.splits sum.splits)

lemma send_mail_retries [keeps_retries]: "send_mail svc r c s = (err, s') \<Longrightarrow> cs_retries s' = cs_retries s"
  by (auto simp: send_mail_def attempt_def split: prod.splits)

lemma run_turn_retries [keeps_retries]: "run_turn cd key msg s = (r, s') \<Longrightarrow> cs_retries s' = cs_retries s"
  by (auto simp: run_turn_def split: prod.splits)

lemma message_retries [keeps_retries]: "buildEmailDispatchMessage cd p s = (m, s') \<Longrightarrow> cs_retries s' = cs_retries s"
  by (auto simp: buildEmailDispatchMessage_def Let_def split: if_splits prod.splits)

lemma system_retries [keeps_retries]: "handleSystemJob cd p s = (r, s') \<Longrightarrow> cs_retries s' = cs_retries s"
  by (auto simp: handleSystemJob_def split: if_splits option.splits prod.splits)

lemma sendTelegramResponse_retries [keeps_retries]: "sendTelegramResponse cd to response s = (err, s') \<Longrightarrow> cs_retries s' = cs_retries s"
  by (auto simp: sendTelegramResponse_def send_chat_def attempt_def split: sum.splits prod.splits option.splits)

lemma sendEmailResponse_retries [keeps_retries]: "sendEmailResponse cd p r response s = (err, s') \<Longrightarrow> cs_retries s' = cs_retries s"
  by (auto simp: sendEmailResponse_def split: prod.splits sum.splits option.splits dest!: keeps_retries)

lemma dispatchSilent_retries [keeps_retries]: "dispatchSilent cd p to s = (err, s') \<Longrightarrow> cs_retries s' = cs_retries s"
  by (auto simp: dispatchSilent_def split: if_splits prod.splits sum.splits dest: keeps_retries)

lemma dispatchTelegram_retries [keeps_retries]: "dispatchTelegram cd p to s = (err, s') \<Longrightarrow> cs_retries s' = cs_retries s"
  by (auto simp: dispatchTelegram_def split: if_splits prod.splits sum.splits dest!: keeps_retries)

lemma dispatchSpecialist_retries [keeps_retries]: "dispatchSpecialist cd p channel to silent s = (err, s') \<Longrightarrow> cs_retries s' = cs_retries s"
  by (auto simp: dispatchSpecialist_def sendSpecialistResponse_def Let_def
      split: option.splits sum.splits prod.splits if_splits dest!: keeps_retries)

lemma fail_mail_retries [simp]: "cs_retries (fail_mail cd p r key e s) = cs_retries s"
proof -
  have "cs_retries (sendFailureEmail cd p r body t) = cs_retries t" for body t
    by (auto simp: sendFailureEmail_def split: prod.splits sum.splits dest!: keeps_retries) (metis prod.collapse send_mail_retries)
  then show ?thesis by (simp add: fail_mail_def split: prod.split)
qed

lemma handleFailure_retries:
  "cs_retries (handleMorningBriefingDispatchFailure cd p r key e s) =
     cs_retries s @ (if isMorningBriefingJob (pl_ID p) \<and> shouldRetryMorningBriefingAfterError e then [(p, r)] else [])"
  by (simp add: handleMorningBriefingDispatchFailure_def Let_def)

text \<open>Only a failed briefing by mail starts retries, and one chain of them.\<close>

definition starts_retries :: "'w cron_state \<Rightarrow> (Payload \<times> string) list \<Rightarrow> 'w cron_state \<Rightarrow> bool" where
  "starts_retries s retries s' \<longleftrightarrow> cs_retries s' = cs_retries s @ retries"

lemma dispatchEmail_retries:
  assumes "dispatchEmail cd p to s = (err, s')"
  shows "starts_retries s [] s' \<or>
    starts_retries s [(p, if to = [] then cd_userEmail cd else to)] s' \<and> err \<noteq> None \<and> isMorningBriefingJob (pl_ID p)"
proof -
  let ?r = "if to = [] then cd_userEmail cd else to"
  let ?key = "SessionPrefixCron @ (if pl_ID p = [] then ''unknown'' else pl_ID p) @ '':'' @ chanEmail @ '':'' @ ?r"
  obtain msg s1 where m: "buildEmailDispatchMessage cd p s = (msg, s1)" by fastforce
  obtain tr s2 where t: "run_turn cd ?key msg s1 = (tr, s2)" by fastforce
  have r2: "cs_retries s2 = cs_retries s" using message_retries [OF m] run_turn_retries [OF t] by simp
  have fail: "starts_retries s [] (handleMorningBriefingDispatchFailure cd p ?r ?key e s2) \<or>
      starts_retries s [(p, ?r)] (handleMorningBriefingDispatchFailure cd p ?r ?key e s2) \<and> isMorningBriefingJob (pl_ID p)" for e
    using r2 by (simp add: starts_retries_def handleFailure_retries)
  have "s' = s \<or> (\<exists>e. err \<noteq> None \<and> s' = handleMorningBriefingDispatchFailure cd p ?r ?key e s2) \<or> s' = s2 \<or>
      (\<exists>response. sendEmailResponse cd p ?r response s2 = (err, s'))"
    using assms unfolding dispatchEmail_def Let_def m prod.case t
    by (auto split: if_splits sum.splits option.splits)
  then show ?thesis
  proof (elim disjE exE conjE)
    fix e assume "err \<noteq> None" "s' = handleMorningBriefingDispatchFailure cd p ?r ?key e s2"
    then show ?thesis using fail [of e] by blast
  next
    fix response assume "sendEmailResponse cd p ?r response s2 = (err, s')"
    from sendEmailResponse_retries [OF this] r2 show ?thesis by (simp add: starts_retries_def)
  qed (simp_all add: starts_retries_def r2)
qed

lemma dispatch_starts:
  assumes "cron_Dispatch cd p s = (err, s')"
  shows "starts_retries s [] s' \<or> (\<exists>q r. starts_retries s [(q, r)] s' \<and> err \<noteq> None \<and> isMorningBriefingJob (pl_ID p) \<and> pl_Agent p = [] \<and>
    pl_Channel p = chanEmail \<and> r = (if pl_To p = [] then cd_userEmail cd else pl_To p))"
proof -
  obtain message s1 where m: "resolvePlaceholders cd (pl_Message p) s = (message, s1)" by fastforce
  define q where "q = p\<lparr>pl_Message := message\<rparr>"
  obtain sys s2 where y: "handleSystemJob cd q s1 = (sys, s2)" by fastforce
  obtain channel to silent where c: "ResolveRoutableChannel q = (channel, to, silent)" by (metis prod_cases3)
  have r2: "cs_retries s2 = cs_retries s" using placeholders_retries [OF m] system_retries [OF y] by simp
  have keep: "cs_retries s' = cs_retries s2 \<Longrightarrow> starts_retries s [] s'" using r2 by (simp add: starts_retries_def)
  have run: "(err, s') = (case sys of Some e \<Rightarrow> (e, s2) | None \<Rightarrow>
      if pl_Agent q \<noteq> [] then dispatchSpecialist cd q channel to silent s2
      else if silent then dispatchSilent cd q to s2
      else if channel = chanEmail then dispatchEmail cd q to s2
      else if channel = chanTelegram \<and> to \<noteq> [] then dispatchTelegram cd q to s2 else (None, s2))"
    using assms unfolding cron_Dispatch_def m prod.case Let_def q_def [symmetric] y c by (simp split: option.splits)
  show ?thesis
  proof (cases "sys = None \<and> pl_Agent q = [] \<and> \<not> silent \<and> channel = chanEmail")
    case True
    then have e: "dispatchEmail cd q to s2 = (err, s')" using run by simp
    have t: "pl_Channel q = chanEmail" "to = pl_To q" using route_channel(3) [OF c] True by simp_all
    have p: "pl_ID q = pl_ID p" "pl_Agent q = pl_Agent p" "pl_Channel q = pl_Channel p" "pl_To q = pl_To p" by (simp_all add: q_def)
    have "starts_retries s2 rs s' \<Longrightarrow> starts_retries s rs s'" for rs using r2 by (simp add: starts_retries_def)
    then show ?thesis using dispatchEmail_retries [OF e] True t unfolding p t(2) by blast
  next
    case False
    then have "cs_retries s' = cs_retries s2"
      using run by (auto split: option.splits if_splits dest: keeps_retries [OF sym])
    then show ?thesis using keep by simp
  qed
qed

text \<open>The briefing that is retried is the one that was dispatched, with its date filled in.\<close>

lemma run_retries_adds:
  "\<exists>more. cs_attempts (run_retries cd [(q, r)] t) = cs_attempts t @ more \<and> length more \<le> 3 \<and> (\<forall>(d, ok) \<in> set more. briefing_mail cd q r d)"
proof -
  obtain msg t1 where m: "buildEmailDispatchMessage cd q t = (msg, t1)" by fastforce
  obtain more where "adds t1 more (briefing_retries cd q r msg 0 briefing_delays t1)" "length more \<le> length briefing_delays + 1"
    "\<forall>(d, ok) \<in> set more. briefing_mail cd q r d" using briefing_retries_adds by blast
  then show ?thesis using message_attempts [OF m]
    by (intro exI [of _ more]) (simp add: run_retries_def retryMorningBriefing_def m adds_def briefing_delays_def)
qed

text \<open>
  \<^bold>\<open>C32.\<close> Where the answer of a job goes. While it runs, a dispatch makes at most one delivery, to the target of the payload, the
  chat and thread that the payload names or the mail address it names or else the user's; a silent job delivers
  nothing; and when the dispatch reports success the delivery has succeeded. A dispatch starts background retries
  only when it failed and the job is the morning briefing by mail, and then one chain of them; from whatever
  state they run, they add at most three mails, all to the same target. Counted are the
  deliveries of the dispatcher; what the agent's own tools send in its turn, and the alert that the scheduler
  may raise for a failed job, are not among them.
\<close>

theorem cron_delivery:
  assumes "cron_Dispatch cd p s = (err, s')"
  shows "(\<exists>new. cs_attempts s' = cs_attempts s @ new \<and> length new \<le> 1 \<and>
    (\<forall>(d, ok) \<in> set new. (err = None \<longrightarrow> ok) \<and> \<not> Contains (fst (resolvePlaceholders cd (pl_Message p) s)) ''[SILENT]'' \<and>
       (case d of
          ToChat m \<Rightarrow> pl_Channel p = ''telegram'' \<and> parseSessionKey (pl_To p) = Inr (om_ChatID m, om_ThreadID m)
        | ToMail r c \<Rightarrow> pl_Channel p = ''email'' \<and> r \<noteq> [] \<and> r = (if pl_To p = [] then cd_userEmail cd else pl_To p)))) \<and>
   (\<exists>started. cs_retries s' = cs_retries s @ started \<and> length started \<le> 1 \<and>
      (started \<noteq> [] \<longrightarrow> err \<noteq> None \<and> isMorningBriefingJob (pl_ID p) \<and> pl_Agent p = [] \<and> pl_Channel p = ''email'') \<and>
      (\<forall>t. \<exists>more. cs_attempts (run_retries cd started t) = cs_attempts t @ more \<and> length more \<le> 3 * length started \<and>
         (\<forall>(d, ok) \<in> set more. \<exists>c. d = ToMail (if pl_To p = [] then cd_userEmail cd else pl_To p) c)))"
proof
  show "\<exists>started. cs_retries s' = cs_retries s @ started \<and> length started \<le> 1 \<and>
      (started \<noteq> [] \<longrightarrow> err \<noteq> None \<and> isMorningBriefingJob (pl_ID p) \<and> pl_Agent p = [] \<and> pl_Channel p = ''email'') \<and>
      (\<forall>t. \<exists>more. cs_attempts (run_retries cd started t) = cs_attempts t @ more \<and> length more \<le> 3 * length started \<and>
         (\<forall>(d, ok) \<in> set more. \<exists>c. d = ToMail (if pl_To p = [] then cd_userEmail cd else pl_To p) c))"
    using dispatch_starts [OF assms]
  proof (elim disjE exE conjE)
    assume "starts_retries s [] s'"
    then show ?thesis by (intro exI [of _ "[]"]) (simp add: starts_retries_def run_retries_def)
  next
    fix q r
    assume "starts_retries s [(q, r)] s'" "err \<noteq> None" "isMorningBriefingJob (pl_ID p)" "pl_Agent p = []" "pl_Channel p = chanEmail"
      and r: "r = (if pl_To p = [] then cd_userEmail cd else pl_To p)"
    moreover have "\<exists>more. cs_attempts (run_retries cd [(q, r)] t) = cs_attempts t @ more \<and> length more \<le> 3 \<and>
        (\<forall>(d, ok) \<in> set more. \<exists>c. d = ToMail r c)" for t
      using run_retries_adds [of cd q r t] unfolding briefing_mail_def by fast
    ultimately show ?thesis unfolding r by (intro exI [of _ "[(q, r)]"]) (simp add: starts_retries_def chanEmail_def r)
  qed
qed (rule dispatch_delivers [OF assms])

lemma dispatchEmail_briefing:
  assumes "isMorningBriefingJob (pl_ID p)"
  shows "\<exists>new. adds s new (snd (dispatchEmail cd p to s)) \<and> length new \<le> 1 \<and>
    (\<forall>(d, ok) \<in> set new. briefing_mail cd p (if to = [] then cd_userEmail cd else to) d)"
proof (cases "dispatchEmail cd p to s")
  case (Pair err s')
  from dispatchEmail_adds [OF Pair] assms show ?thesis unfolding Pair snd_conv briefing_mail_def by fastforce
qed

text \<open>
  No unchecked briefing is mailed: whatever the agent answers and whichever call fails, every mail of the morning briefing and
  of its retries goes to its recipient and is a report of a failure or an answer with sources and a date that
  passed the provenance check, and there is at most one mail for the run and one more than the number of retries for these.
\<close>

theorem briefing_checked:
  assumes "isMorningBriefingJob (pl_ID p)"
  shows "(\<exists>new. cs_attempts (snd (dispatchEmail cd p r s)) = cs_attempts s @ new \<and> length new \<le> 1 \<and>
      (\<forall>(d, ok) \<in> set new. \<exists>c. d = ToMail (if r = [] then cd_userEmail cd else r) c \<and> (failure_report cd p c \<or> checked_text cd c))) \<and>
    (\<exists>new. cs_attempts (retryMorningBriefing cd p r delays s) = cs_attempts s @ new \<and> length new \<le> length delays + 1 \<and>
      (\<forall>(d, ok) \<in> set new. \<exists>c. d = ToMail r c \<and> (failure_report cd p c \<or> checked_text cd c)))"
proof
  show "\<exists>new. cs_attempts (snd (dispatchEmail cd p r s)) = cs_attempts s @ new \<and> length new \<le> 1 \<and>
      (\<forall>(d, ok) \<in> set new. \<exists>c. d = ToMail (if r = [] then cd_userEmail cd else r) c \<and> (failure_report cd p c \<or> checked_text cd c))"
    using dispatchEmail_briefing [OF assms, of s cd r] unfolding briefing_mail_def adds_def .
  obtain msg s1 where m: "buildEmailDispatchMessage cd p s = (msg, s1)" by fastforce
  obtain new where "adds s1 new (briefing_retries cd p r msg 0 delays s1)" "length new \<le> length delays + 1"
    "\<forall>(d, ok) \<in> set new. briefing_mail cd p r d" using briefing_retries_adds by blast
  then show "\<exists>new. cs_attempts (retryMorningBriefing cd p r delays s) = cs_attempts s @ new \<and> length new \<le> length delays + 1 \<and>
      (\<forall>(d, ok) \<in> set new. \<exists>c. d = ToMail r c \<and> (failure_report cd p c \<or> checked_text cd c))"
    using message_attempts [OF m] unfolding retryMorningBriefing_def m prod.case briefing_mail_def adds_def by (intro exI [of _ new]) simp
qed

text \<open>
  The provenance check looks for the name of the tool anywhere in the transcript. A transcript holds the whole history of the
  session, with the instructions of the job and the turns of earlier days.
\<close>

lemma mention_is_evidence:
  assumes "latestSessionTranscriptPath cd key w = Inr (c # path)" "cf_ReadFile (cd_files cd) (c # path) w = Inr (before @ ''search_ai'' @ after)"
  shows "verifySearchToolProvenance cd key w = Inr True"
proof -
  have "Contains (before @ ''search_ai'' @ after) ''search_ai''" unfolding Contains_iff by blast
  then show ?thesis using assms by (simp add: verifySearchToolProvenance_def hasGoogleAISearchEvidence_def)
qed

text \<open>A failed job by mail counts as reported even when the mail that reports it could not be sent; then nobody learns of it.\<close>

lemma failure_unnoticed:
  assumes "\<forall>w. \<exists>e. fst (cd_NewService cd w) = Inl e" "\<forall>key user msg w. \<exists>e. fst (cd_Manager cd key user msg w) = Inl e" "to \<noteq> []"
  shows "\<exists>err. fst (dispatchEmail cd p to s) = Some err \<and> sendFailureAlert d dj err = [] \<and>
    cs_attempts (snd (dispatchEmail cd p to s)) = cs_attempts s"
proof -
  define key where "key = SessionPrefixCron @ (if pl_ID p = [] then ''unknown'' else pl_ID p) @ '':'' @ chanEmail @ '':'' @ to"
  obtain msg s1 where m: "buildEmailDispatchMessage cd p s = (msg, s1)" by fastforce
  obtain e w where "cd_Manager cd key [] msg (cs_world s1) = (Inl e, w)" using assms(2) by (metis prod.collapse)
  then have t: "run_turn cd key msg s1 = (Inl e, s1\<lparr>cs_world := w\<rparr>)" by (simp add: run_turn_def)
  have f: "dispatchEmail cd p to s =
      (Some (AlreadyNotifiedError (Some (wrap_err ''dispatch email'' e))), handleMorningBriefingDispatchFailure cd p to key e (s1\<lparr>cs_world := w\<rparr>))"
    unfolding dispatchEmail_def Let_def using assms(3) m t by (simp add: key_def)
  have "cs_attempts (sendFailureEmail cd p to body u) = cs_attempts u" for body u
  proof -
    obtain e2 w2 where "cd_NewService cd (cs_world u) = (Inl e2, w2)" using assms(1) by (metis prod.collapse)
    then show ?thesis by (simp add: sendFailureEmail_def newEmailService_def)
  qed
  then have "cs_attempts (handleMorningBriefingDispatchFailure cd p to key e (s1\<lparr>cs_world := w\<rparr>)) = cs_attempts s"
    using message_attempts [OF m] by (simp add: handleMorningBriefingDispatchFailure_def fail_mail_def Let_def split: prod.split)
  then show ?thesis using f by (simp add: sendFailureAlert_def)
qed

text \<open>
  \<^bold>\<open>C33.\<close> A silent job without a specialist never runs: routing clears the target of a silent job, and the dispatcher drops silent jobs
  without a target. The only call made is the one that reads the date; the dispatch reports success, and the
  scheduler counts one.
\<close>

theorem silent_job_never_runs:
  assumes "Contains (fst (resolvePlaceholders cd (pl_Message p) s)) ''[SILENT]''" "pl_Agent p = []"
  shows "cron_Dispatch cd p s = (None, s\<lparr>cs_world := snd (cd_Today cd (cs_world s))\<rparr>) \<and>
    (i < length jobs \<longrightarrow>
       SuccessCount (job_State (record_result lib now jobs (i, fst (cron_Dispatch cd p s)) ! i)) = SuccessCount (job_State (jobs ! i)) + 1)"
proof -
  obtain month day year w where t: "cd_Today cd (cs_world s) = ((month, day, year), w)" by (metis surj_pair)
  let ?m = "ReplaceAll (pl_Message p) ''{{DATE}}'' (month @ '' '' @ Itoa day @ '', '' @ Itoa year)"
  have r: "resolvePlaceholders cd (pl_Message p) s = (?m, s\<lparr>cs_world := w\<rparr>)" using t by (simp add: resolvePlaceholders_def)
  have silent: "Contains ?m ''[SILENT]''" using assms(1) r by simp
  moreover have "\<not> Contains ''[SYSTEM] INDEX_WORKSPACE'' ''[SILENT]''" by code_simp
  ultimately have sys: "?m \<noteq> ''[SYSTEM] INDEX_WORKSPACE''" by metis
  have d: "cron_Dispatch cd p s = (None, s\<lparr>cs_world := w\<rparr>)"
    unfolding cron_Dispatch_def r prod.case Let_def
    using sys silent assms(2) by (simp add: handleSystemJob_def ResolveRoutableChannel_def dispatchSilent_def)
  then show ?thesis using t by (simp add: record_result_def set_state_def)
qed

section \<open>Witnesses\<close>

definition demo_files :: "unit cron_files" where
  "demo_files = \<lparr>cf_ReadDir = (\<lambda>p w. Inl (NotExist p)), cf_Glob = (\<lambda>p w. None), cf_ModTime = (\<lambda>p w. None), cf_sort = (\<lambda>less xs. xs),
     cf_ReadFile = (\<lambda>p w. Inl EOF), cf_OpenLog = (\<lambda>p w. Inl (NotExist p))\<rparr>"

definition demo_dispatcher :: "(unit, unit) CronDispatcher" where
  "demo_dispatcher = \<lparr>cd_resolver = None, cd_runnerFactory = (\<lambda>p m sys key msg w. (Inl EOF, w)), cd_Manager = (\<lambda>key user msg w. (Inr ''ok'', w)),
     cd_Send = (\<lambda>m w. (None, w)), cd_NewService = (\<lambda>w. (Inr (\<lambda>r c w. (None, w)), w)),
     cd_Content = (\<lambda>subject body. \<lparr>ec_Subject = subject, ec_Plain = body, ec_HTML = []\<rparr>), cd_Schedule = (\<lambda>w. ([], w)), cd_Index = None,
     cd_Today = (\<lambda>w. ((''May'', 1, 2026), w)), cd_Timestamp = (\<lambda>w. (''t'', w)), cd_Wait = (\<lambda>d w. (True, w)), cd_Shutdown = (\<lambda>w. (False, w)),
     cd_files = demo_files, cd_storageRoot = ''/s'', cd_userEmail = ''me'',
     cd_cfg = \<lparr>spc_Specialists = (\<lambda>x. None), spc_DefaultsProvider = []\<rparr>\<rparr>"

definition demo_start :: "unit cron_state" where
  "demo_start = \<lparr>cs_world = (), cs_attempts = [], cs_retries = []\<rparr>"

definition demo_payload :: "string \<Rightarrow> string \<Rightarrow> string \<Rightarrow> string \<Rightarrow> Payload" where
  "demo_payload jobID channel to message =
     \<lparr>pl_ID = jobID, pl_Channel = channel, pl_Agent = [], pl_To = to, pl_Subject = [], pl_Message = message\<rparr>"

text \<open>
  A message to a chat thread, and a briefing without sources, whose failure is reported and starts a chain of retries.
\<close>

theorem cron_delivery_witness:
  "(\<exists>s'. cron_Dispatch demo_dispatcher (demo_payload ''j'' ''telegram'' ''telegram:5:7'' ''hi'') demo_start = (None, s') \<and>
     cs_attempts s' = [(ToChat (plain_message 5 7 ''ok''), True)] \<and> cs_retries s' = []) \<and>
   (\<exists>err s'. cron_Dispatch demo_dispatcher (demo_payload ''morning_briefing'' ''email'' [] ''go'') demo_start = (Some err, s') \<and>
     length (cs_attempts s') = 1 \<and> length (cs_retries s') = 1 \<and>
     length (cs_attempts (run_retries demo_dispatcher (cs_retries s') s')) \<le> 4)"
proof
  let ?r = "cron_Dispatch demo_dispatcher (demo_payload ''j'' ''telegram'' ''telegram:5:7'' ''hi'') demo_start"
  have a: "fst ?r = None" by code_simp
  have b: "cs_attempts (snd ?r) = [(ToChat (plain_message 5 7 ''ok''), True)]" by code_simp
  have c: "?r = (None, snd ?r)" using a by (metis prod.collapse)
  have e: "cs_retries (snd ?r) = []" using cron_delivery [OF c] by (auto simp: demo_start_def)
  show "\<exists>s'. ?r = (None, s') \<and> cs_attempts s' = [(ToChat (plain_message 5 7 ''ok''), True)] \<and> cs_retries s' = []"
    by (rule exI [of _ "snd ?r"], intro conjI) (rule c b e)+
next
  let ?r = "cron_Dispatch demo_dispatcher (demo_payload ''morning_briefing'' ''email'' [] ''go'') demo_start"
  have a: "fst ?r \<noteq> None" by code_simp
  then obtain err where c: "?r = (Some err, snd ?r)" by (metis not_None_eq prod.collapse)
  have b: "length (cs_attempts (snd ?r)) = 1" "length (cs_retries (snd ?r)) = 1" by code_simp+
  obtain started where started: "cs_retries (snd ?r) = cs_retries demo_start @ started" "length started \<le> 1"
    "\<forall>t. \<exists>more. cs_attempts (run_retries demo_dispatcher started t) = cs_attempts t @ more \<and> length more \<le> 3 * length started"
    using cron_delivery [OF c] by blast
  obtain more where "cs_attempts (run_retries demo_dispatcher started (snd ?r)) = cs_attempts (snd ?r) @ more" "length more \<le> 3 * length started"
    using started(3) by blast
  then have "length (cs_attempts (run_retries demo_dispatcher (cs_retries (snd ?r)) (snd ?r))) \<le> 4"
    using started(1,2) b(1) by (simp add: demo_start_def)
  then show "\<exists>err s'. ?r = (Some err, s') \<and> length (cs_attempts s') = 1 \<and> length (cs_retries s') = 1 \<and>
     length (cs_attempts (run_retries demo_dispatcher (cs_retries s') s')) \<le> 4"
    using c b by blast
qed

text \<open>An answer without sources: the user gets a report instead, and two retries fail in the same way.\<close>

theorem briefing_checked_witness:
  "length (cs_attempts (snd (dispatchEmail demo_dispatcher (demo_payload ''morning_briefing'' ''email'' [] ''go'') [] demo_start))) = 1 \<and>
   (\<exists>new. cs_attempts (snd (dispatchEmail demo_dispatcher (demo_payload ''morning_briefing'' ''email'' [] ''go'') [] demo_start)) = new \<and>
      (\<forall>(d, ok) \<in> set new. \<exists>c. d = ToMail ''me'' c \<and>
         (failure_report demo_dispatcher (demo_payload ''morning_briefing'' ''email'' [] ''go'') c \<or> checked_text demo_dispatcher c)))"
proof -
  let ?p = "demo_payload ''morning_briefing'' ''email'' [] ''go''"
  have p: "isMorningBriefingJob (pl_ID ?p)" by code_simp
  have n: "length (cs_attempts (snd (dispatchEmail demo_dispatcher ?p [] demo_start))) = 1" by code_simp
  have "(if ([] :: string) = [] then cd_userEmail demo_dispatcher else []) = ''me''" "cs_attempts demo_start = []"
    by (simp_all add: demo_dispatcher_def demo_start_def)
  then show ?thesis using n briefing_checked [OF p, of demo_dispatcher "[]" demo_start "[]"] by auto
qed

theorem silent_job_never_runs_witness:
  "cron_Dispatch demo_dispatcher (demo_payload ''j'' ''telegram'' ''telegram:5'' ''[SILENT] tidy up'') demo_start = (None, demo_start)"
proof -
  let ?p = "demo_payload ''j'' ''telegram'' ''telegram:5'' ''[SILENT] tidy up''"
  have "Contains (fst (resolvePlaceholders demo_dispatcher (pl_Message ?p) demo_start)) ''[SILENT]''" by code_simp
  moreover have "pl_Agent ?p = []" by (simp add: demo_payload_def)
  ultimately have "cron_Dispatch demo_dispatcher ?p demo_start = (None, demo_start\<lparr>cs_world := snd (cd_Today demo_dispatcher (cs_world demo_start))\<rparr>)"
    using silent_job_never_runs [of demo_dispatcher ?p demo_start] by blast
  then show ?thesis by (simp add: demo_start_def)
qed

end
