(* ===== verification/Spec2Isabelle.thy ===== *)
theory Spec2Isabelle
  imports Compaction Session_Laws Bot HITL Policy Session_Lock Idempotency Pairing Migrations Cron_Laws Runner_Laws Workflow_Laws Shell_Tool Hybrid_Search Subagents MCP_Tools MCP_Transport Redaction Audit_Ledger Model_Audit Provider_Routing Handler Consolidator Cron_Dispatch
begin

text \<open>
  \<^bold>\<open>gobot\<close> is an assistant that runs as one process: it polls a messenger, keeps a durable conversation per chat,
  lets a language model answer with the help of tools, and runs jobs on a schedule. This library translates
  the logic of its Go packages under \<^verbatim>\<open>src/internal\<close> into functions and step relations and proves what makes
  each part correct. Paths below are relative to \<^verbatim>\<open>src/internal\<close> unless they start with \<^verbatim>\<open>cmd\<close>.

  \<^bold>\<open>How the parts interact.\<close> A message of a chat enters through the messenger core (\<open>Bot\<close>), passes the pairing gate
  (\<open>Pairing\<close>) and the dispatch handler (\<open>Handler\<close>), and reaches the session manager (\<open>Session\<close>), which takes the lock of the
  session (\<open>Session_Lock\<close>), loads the history from the checkpoint store (\<open>Checkpoint_Store\<close> over \<open>Database\<close>), prunes
  and compacts it (\<open>Compaction\<close>), and calls the runner (\<open>Runner\<close>). The runner calls a provider through retries
  and a circuit breaker (\<open>Resilience\<close>, \<open>Provider_Routing\<close>), runs the tools the model asks for behind the
  hooks (\<open>Hooks\<close>: \<open>Policy\<close>, then \<open>HITL\<close>) and the idempotency table (\<open>Idempotency\<close>), may improve its answer
  (\<open>Reflection\<close>), and returns the messages that the session manager appends and stores. The scheduler
  (\<open>Cron_Jobs\<close>, \<open>Cron_Scheduler\<close>) starts turns of its own.

  \<^bold>\<open>Layers.\<close> Every theory imports only what its component calls.

  \<^item> \<open>GoPrelude\<close>, \<open>GoTime\<close>, \<open>GoCalendar\<close>, \<open>GoTime_Laws\<close>: error values with wrapping and \<^verbatim>\<open>errors.Is\<close>, byte strings and
    \<^verbatim>\<open>strings\<close>, numbers and their text, JSON documents as trees, durations, instants, the civil calendar, and
    the round trip of the timestamp text. The named theorem collections of the library are declared there.
  \<^item> \<open>Messages\<close> (\<^verbatim>\<open>context/schema.go\<close>): messages and their custom JSON form. Strings are byte
    strings; the encoder replaces invalid UTF-8 by U+FFFD (\<open>coerce_utf8\<close>), and the round trip is exact up to that.
  \<^item> \<open>AgentConfig\<close> (\<^verbatim>\<open>config/config_types.go\<close>, \<^verbatim>\<open>config_accessors.go\<close>) and \<open>Compaction\<close> (\<^verbatim>\<open>agent/compaction.go\<close>): pruning
    is exactly the reference selection; compaction does not separate a tool call from its answers when call IDs are
    present and unique.
  \<^item> \<open>Database\<close>, \<open>Store_Interface\<close>, \<open>Checkpoint_Store\<close> (\<^verbatim>\<open>context/manager.go\<close>, \<^verbatim>\<open>context/db.go\<close>): the tables as records,
    the interface of the store as the locale \<open>checkpoint_store\<close>, and the manager that is its interpretation
    \<open>cm\<close>: a saved snapshot is the one loaded (up to invalid UTF-8), retention keeps the newest, approvals never go back.
  \<^item> \<open>Migrations\<close> (\<^verbatim>\<open>context/db.go\<close>): an interrupted migration leaves a prefix of the steps and is resumed.
  \<^item> \<open>Hooks\<close>, \<open>Session\<close>, \<open>Session_Laws\<close> (\<^verbatim>\<open>agent/hooks.go\<close>, \<^verbatim>\<open>agent/agent.go\<close>, \<^verbatim>\<open>agent/session_history.go\<close>): the messages
    that the runner hands back are stored whole, for every store that meets the locale's laws; compaction of a session keeps its recent part.
  \<^item> \<open>Session_Lock\<close> (\<^verbatim>\<open>agent/lock_metrics.go\<close>): threads as an inductive step relation; the lock excludes, and its
    table entry is reclaimed only when nobody holds or awaits it.
  \<^item> \<open>Bot\<close>, \<open>Pairing\<close>, \<open>Handler\<close> (\<^verbatim>\<open>bot/\<close>, \<^verbatim>\<open>context/pairing.go\<close>, \<^verbatim>\<open>app/handler.go\<close>, \<^verbatim>\<open>cmd/gobot/auth.go\<close>): polling as a state
    machine over the events of the messenger; no chat reaches the agent unless an operator authorized it
    (locale \<open>authorization_gate\<close>, interpretation \<open>pg\<close>).
  \<^item> \<open>HITL\<close>, \<open>Policy\<close> (\<^verbatim>\<open>agent/hitl.go\<close>, \<^verbatim>\<open>agent/policy.go\<close>, \<^verbatim>\<open>app/app_setup.go\<close>): approvals fail closed; a tool runs only
    if the policy allows it or a human approves it. This root theory joins the policy to the runner and the wired tools: a denied call ends the turn,
    a denied side-effecting tool never runs, and the policy does not reach sub-agents.
  \<^item> \<open>Idempotency\<close> (\<^verbatim>\<open>context/idempotency.go\<close>), \<open>Resilience\<close> (\<^verbatim>\<open>resilience/\<close>), \<open>Provider_Routing\<close> (\<^verbatim>\<open>provider/\<close> less its
    clients).
  \<^item> \<open>Runner\<close>, \<open>Runner_Laws\<close> (\<^verbatim>\<open>app/runner*.go\<close>): a turn's messages form a well-shaped transcript, the number of
    provider calls is bounded given what a tool may cost, a replayed tool call is not executed, and the calls that a turn
    executes (recorded by \<open>logged_Run\<close>, which computes what \<open>Run\<close> computes) have different keys.
  \<^item> \<open>Tool_Schema\<close>, \<open>Subagents\<close> (\<^verbatim>\<open>agent/schema.go\<close>, \<^verbatim>\<open>app/spawn_tool.go\<close>, \<^verbatim>\<open>app/tools.go\<close>): the schema of the tool arguments, the
    registration of tools, and delegation to sub-agents, which never hold a side-effecting tool.
  \<^item> \<open>File_Tools\<close>, \<open>Shell_Tool\<close> (\<^verbatim>\<open>app/file_containment.go\<close>, \<^verbatim>\<open>app/tools.go\<close>, \<^verbatim>\<open>app/tool_shell.go\<close>, \<^verbatim>\<open>shell/\<close>): reads stay inside the
    allowed roots, commands in the workspace of the user.
  \<^item> \<open>Memory_Text\<close>, \<open>Memory_Store\<close>, \<open>Hybrid_Search\<close>, \<open>Reflection\<close> (\<^verbatim>\<open>memory/\<close>, \<^verbatim>\<open>memory/vector/hybrid.go\<close>, \<^verbatim>\<open>reflection/\<close>): a search
    returns only entries the searching chat may see.
  \<^item> \<open>Cron_Jobs\<close>, \<open>Cron_Scheduler\<close>, \<open>Cron_Laws\<close> (\<^verbatim>\<open>cron/\<close>): a poll equals a reference defined job by job, due jobs run, a
    one-shot job runs once, the job files and the store are reconciled exactly.
  \<^item> \<open>Workflow\<close>, \<open>Workflow_Laws\<close> (\<^verbatim>\<open>state/\<close>, \<^verbatim>\<open>agent/state_hooks.go\<close>): every call of the operating system may fail or be the
    last before a crash; checkpoints are replaced whole and a reported change is recovered.
  \<^item> \<open>Audit_Ledger\<close>, \<open>Redaction\<close>, \<open>Model_Audit\<close> (\<^verbatim>\<open>audit/\<close>): the hash chain is append-only and tamper-evident for fields
    without bars (locale \<open>append_only\<close>, interpretation \<open>al\<close>), messages and attribute values of log records hold no secret that
    one of the patterns matches, unless redaction is switched off.
  \<^item> \<open>MCP_Transport\<close>, \<open>MCP_Tools\<close> (\<^verbatim>\<open>app/tool_mcp.go\<close>, \<^verbatim>\<open>app/tools.go\<close>): the connection to a subprocess as a step relation of callers,
    stops and readers, in which responses are never crossed but a late clean-up can lose one; tool discovery ends, and
    discovered tools take no name in use.
  \<^item> \<open>Consolidator_Life\<close>, \<open>Consolidator\<close> (\<^verbatim>\<open>memory/consolidator/consolidator.go\<close>): the workers that turn replies into memory as a step
    relation, in which a successful shutdown leaves no worker behind; what one worker does stays in the namespaces
    of its session.
  \<^item> \<open>Reporter\<close>, \<open>Cron_Dispatch\<close> (\<^verbatim>\<open>reporter/reporter.go\<close>, \<^verbatim>\<open>app/cron*.go\<close>): the text of e-mails, and what a due job does: a job
    delivers at most one answer and only to its own target, the retries of a failed briefing, which run in the background from
    any later state, at most three more mails, briefings are checked before they are mailed, and silent jobs never run.

  \<^bold>\<open>State, effects, errors.\<close> A struct is a record, an enumeration a datatype, and an operation on a pointer receiver a function
  that returns the changed record. An error is a value of the type \<open>error\<close> that keeps the wrapped chain,
  a fallible operation returns a sum, and every early return is a branch. Components that touch a service
  pass a world of a type variable through; the database is a record of tables and each call of
  its driver takes its outcome from a script, so the theorems cover every failure of every call.

  \<^bold>\<open>Parameters and hypotheses.\<close> Code outside the repository is an argument: language models, the messenger API, SQLite's
  full-text ranking and rendering of \<^verbatim>\<open>DATETIME\<close>, SHA-256, the text layer of JSON and YAML, cron expressions and time zones,
  gobreaker, the directory capability \<^verbatim>\<open>os.Root\<close>, random numbers, clocks, and the order of map iteration.
  What a theorem needs of one of them is a named hypothesis, and a witness instantiates it by a
  concrete function.

  \<^bold>\<open>Bounds and loops.\<close> Loops recurse on the data they consume, so no fuel is needed; where the source counts
  (\<^verbatim>\<open>MaxToolIterations\<close>, retry attempts, sub-agent attempts) the count is the argument of the recursion and the bound a theorem; the
  remaining loops have a measure. Loops that wait for events (\<^verbatim>\<open>Bot.Run\<close>, the scheduler's ticker, lock acquisition) are steps
  over arbitrary finite histories. Integers are unbounded where the code only counts or compares; durations that
  can overflow 64 bits (backoff, schedules) are written with their saturation or wrap. Floats are
  rationals that a parameter rounds.

  \<^bold>\<open>Not modelled.\<close> Network clients and their wire formats (\<^verbatim>\<open>provider/anthropic.go\<close>, \<^verbatim>\<open>gemini.go\<close>, \<^verbatim>\<open>openai.go\<close>,
  \<^verbatim>\<open>integrations/\<close>, \<^verbatim>\<open>browser/\<close>, the Telegram adapter), process control (\<^verbatim>\<open>sandbox/\<close>, starting MCP subprocesses), the dashboard and
  gateway servers, metrics, traces and log output, operating-system secrets (\<^verbatim>\<open>secrets/\<close>), command-line front ends (\<^verbatim>\<open>cmd/\<close>
  except \<^verbatim>\<open>auth.go\<close>) and the wiring of the process (\<^verbatim>\<open>app/bootstrap.go\<close>, \<^verbatim>\<open>app/app.go\<close>): they are I/O, or calls into libraries
  whose code is not in the repository. Paths are Unix paths. The manifest lists these components one by one.
\<close>


section \<open>Tools and the policy\<close>

text \<open>
  The hooks of \<^verbatim>\<open>SetupHooks\<close> act on the state of the approvals, which is a part of the world of the runner: \<open>get\<close>
  reads it and \<open>put\<close> writes it.
\<close>

definition lift_pre :: "('v \<Rightarrow> 'h) \<Rightarrow> ('h \<Rightarrow> 'v \<Rightarrow> 'v) \<Rightarrow> 'h PreToolFn \<Rightarrow> 'v PreToolFn" where
  "lift_pre get put fn sk tn args v = (case fn sk tn args (get v) of (res, h) \<Rightarrow> (res, put h v))"

definition lift_hooks :: "('v \<Rightarrow> 'h) \<Rightarrow> ('h \<Rightarrow> 'v \<Rightarrow> 'v) \<Rightarrow> 'h Hooks \<Rightarrow> 'v Hooks" where
  "lift_hooks get put h = empty_hooks\<lparr>preTool := map (lift_pre get put) (preTool h)\<rparr>"

definition denies :: "Policy \<Rightarrow> string \<Rightarrow> bool" where
  "denies policy name \<longleftrightarrow> (\<forall>sk args. Evaluate policy \<lparr>pc_ToolName = name, pc_Args = args, pc_SessionKey = sk\<rparr> = PolicyDeny)"

lemma denied_hook:
  assumes "denies policy name"
  shows "RunPreTool (lift_hooks get put (SetupHooks tx policy m d1 d2)) sk name args v =
    (Inl (Errorf [] ErrToolDenied '': tool is not permitted''), put (get v) v)"
  using assms by (simp add: RunPreTool_def lift_hooks_def lift_pre_def SetupHooks_def RegisterPreTool_def empty_hooks_def
      Policy_PreToolHook_def denies_def)








definition sample_denial :: Policy where
  "sample_denial = FilePolicy [\<lparr>pr_Tool = ''ping'', pr_Decision = policyDenyValue\<rparr>]"

definition sample_guarded :: "sample_world AgentRunner" where
  "sample_guarded = sample_agent\<lparr>ar_Hooks := Some (lift_hooks (\<lambda>_. sample_hw) (\<lambda>_ v. v)
     (SetupHooks sample_text sample_denial sample_hitl (\<lambda>_. [], PickTimeout) (sample_sched, PickReceive)))\<rparr>"

lemma sample_denies: "denies sample_denial ''ping''"
  by (simp add: denies_def sample_denial_def matchTool_def policyDenyValue_def)











text \<open>
  \<^bold>\<open>C12.\<close> The tool policy does not reach sub-agents. The runner that the delegation tool builds has no hooks, so a call that the runner
  of the conversation refuses with \<^verbatim>\<open>ErrToolDenied\<close> is executed by a sub-agent, for every tool that is registered and not
  side-effecting.
\<close>

theorem policy_does_not_reach_subagents:
  assumes main: "ar_Hooks r = Some (lift_hooks get put (SetupHooks tx policy m d1 d2))" "denies policy (tcs_name tc)"
    and sub: "runner_factory lib rcfg mem (sub_tools tools) p md prompt w0 = (s, w1)"
      "map_of (ar_ToolsByName s) (tcs_name tc) = Some t"
    and tool: "to_Execute t (tcs_sessionKey tc) (tcs_userID tc) (tcs_args tc) w = ((ToolReturned reply None, meta), w')"
  shows "(\<exists>e m' w'. executeToolCallState env r tc w = ((Inl e, m'), w') \<and> error_is e ErrToolDenied) \<and>
    executeToolCallState env (SetMaxToolIterations n s) tc w = ((Inr (TruncateToolResult reply (ar_MaxToolResultBytes s)), meta), w')"
proof
  show "\<exists>e m' w'. executeToolCallState env r tc w = ((Inl e, m'), w') \<and> error_is e ErrToolDenied"
    using main(1) denied_hook [OF main(2), of get put tx m d1 d2 "tcs_sessionKey tc" _ w]
    by (auto simp: executeToolCallState_def runToolWithHooks_def preToolStep_def Let_def split: sum.splits)
next
  show "executeToolCallState env (SetMaxToolIterations n s) tc w = ((Inr (TruncateToolResult reply (ar_MaxToolResultBytes s)), meta), w')"
    using runner_factory_fields(5,8,9) [OF sub(1)] sub(2) tool
    by (simp add: executeToolCallState_def runToolWithHooks_def preToolStep_def mainToolStep_def executeToolCall_def
        executeToolInner_def runPostToolHooks_def SetMaxToolIterations_def Let_def split: sum.splits if_splits)
qed

definition sample_ping_denied :: toolCallState where
  "sample_ping_denied = new_call ''id'' ''telegram:1'' ''1'' ''ping'' None 0 1"

theorem policy_does_not_reach_subagents_witness:
  "\<exists>s. (\<exists>e m' w'. executeToolCallState sample_renv sample_guarded sample_ping_denied (sample_start (empty_db 0)) = ((Inl e, m'), w') \<and>
       error_is e ErrToolDenied) \<and>
    executeToolCallState sample_renv (SetMaxToolIterations 5 s) sample_ping_denied (sample_start (empty_db 0)) =
      ((Inr (TruncateToolResult ''pong'' (ar_MaxToolResultBytes s)), []), sample_start (empty_db 0))"
proof -
  obtain s w1 where s: "runner_factory (rv_breaker sample_renv) sample_rcfg None (sub_tools [Other sample_turn, Other sample_read])
      sample_provider ''m'' [] (sample_start (empty_db 0)) = (s, w1)" by fastforce
  have tools: "sub_tools [Other sample_turn, Other sample_read] = [sample_read]"
    by (simp add: sample_turn_def sample_read_def spawnToolName_def)
  have "map_of (ar_ToolsByName s) (tcs_name sample_ping_denied) = Some sample_read"
    using s [unfolded tools] by (auto simp: runner_factory_def NewAgentRunner_def SetTools_def set_tool_def sample_read_def
        sample_ping_denied_def new_call_def Let_def split: prod.splits)
  moreover have "ar_Hooks sample_guarded = Some (lift_hooks (\<lambda>_. sample_hw) (\<lambda>_ v. v)
     (SetupHooks sample_text sample_denial sample_hitl (\<lambda>_. [], PickTimeout) (sample_sched, PickReceive)))"
    by (simp add: sample_guarded_def)
  moreover have "denies sample_denial (tcs_name sample_ping_denied)" using sample_denies by (simp add: sample_ping_denied_def new_call_def)
  moreover have "to_Execute sample_read (tcs_sessionKey sample_ping_denied) (tcs_userID sample_ping_denied) (tcs_args sample_ping_denied)
      (sample_start (empty_db 0)) = ((ToolReturned ''pong'' None, []), sample_start (empty_db 0))" by (simp add: sample_read_def)
  ultimately show ?thesis using s by (intro exI [of _ s] policy_does_not_reach_subagents [where t = sample_read])
qed

end
